(* ===== verification/Go_Base.thy ===== *)
theory Go_Base
  imports Main "HOL-Library.Word" "HOL-Library.Char_ord" "HOL-Library.List_Lexorder"
    "HOL-Library.AList" "HOL-Library.Sublist"
begin

text \<open>
  The Go constructs that the components share: results of calls that may fail or panic,
  fixed-width integers, bytes and big-endian words, strings, decimal numbers, slash-separated
  paths, slices and maps.

  \<^item> A call returning \<open>(T, error)\<close> is a value of \<open>'a outcome\<close>: \<open>Ok v\<close> for a nil error,
    \<open>Err e\<close> for a non-nil one. \<open>Panic\<close> is a run-time panic (an index out of range, a
    \<open>make\<close> with a negative size).
  \<^item> \<open>int8\<close> to \<open>int64\<close> and \<open>int\<close> (64 bits) are HOL integers; every operation of the source
    that can overflow is followed by the wrap-around \<open>i8\<close>, \<open>i16\<close>, \<open>i32\<close>, \<open>i64\<close>.
  \<^item> A byte is an \<open>8 word\<close>; a Go string is a HOL \<open>string\<close>, whose characters are its bytes.
  \<^item> A Go map is an association list with distinct keys; the order of the list stands for
    one iteration order of the map.
\<close>

section \<open>Collections of rewrite rules\<close>

named_theorems go_simps \<open>unfolding of the Go run-time functions\<close>
named_theorems codec_simps \<open>round trips of the byte encodings\<close>
named_theorems range_simps \<open>wrap-around is the identity in range\<close>

section \<open>Errors and outcomes\<close>

text \<open>
  The sentinel errors of the repository are constructors; \<open>ErrText\<close> is an error made by
  \<open>fmt.Errorf\<close> or \<open>errors.New\<close> with the constant part of its message, and \<open>ErrWrap\<close> one
  made with the verb \<open>%w\<close>.
\<close>

datatype go_error =
    ErrText string
  | ErrWrap string go_error
  | ErrEOF
  | ErrUnexpectedEOF
  | ErrContext
  | ErrOffsetOutOfRange
  | ErrTopicExists
  | ErrInvalidTopic
  | ErrUnknownTopic
  | ErrStoreUnavailable

datatype 'a outcome = Ok 'a | Err go_error | Panic

fun bindO :: "'a outcome \<Rightarrow> ('a \<Rightarrow> 'b outcome) \<Rightarrow> 'b outcome" where
  "bindO (Ok x) f = f x"
| "bindO (Err e) f = Err e"
| "bindO Panic f = Panic"

lemma bindO_eq_Ok [simp]: "bindO m f = Ok y \<longleftrightarrow> (\<exists>x. m = Ok x \<and> f x = Ok y)"
  by (cases m) auto

lemma bindO_eq_Panic: "bindO m f = Panic \<longleftrightarrow> m = Panic \<or> (\<exists>x. m = Ok x \<and> f x = Panic)"
  by (cases m) auto

lemma bindO_assoc: "bindO (bindO m f) g = bindO m (\<lambda>x. bindO (f x) g)"
  by (cases m) auto

text \<open>\<open>fmt.Errorf("msg: %w", err)\<close> around the error of a call.\<close>

fun wrapErr :: "string \<Rightarrow> 'a outcome \<Rightarrow> 'a outcome" where
  "wrapErr m (Ok x) = Ok x"
| "wrapErr m (Err e) = Err (ErrWrap m e)"
| "wrapErr m Panic = Panic"

lemma wrapErr_eq_Ok [simp]: "wrapErr m r = Ok x \<longleftrightarrow> r = Ok x"
  by (cases r) auto

lemma wrapErr_eq_Panic [simp]: "wrapErr m r = Panic \<longleftrightarrow> r = Panic"
  by (cases r) auto

text \<open>\<open>errors.Is\<close>: the error itself or one that it wraps.\<close>

fun errors_Is :: "go_error \<Rightarrow> go_error \<Rightarrow> bool" where
  "errors_Is (ErrWrap m e) target = (ErrWrap m e = target \<or> errors_Is e target)"
| "errors_Is e target = (e = target)"

section \<open>Fixed-width integers\<close>

definition wrapS :: "nat \<Rightarrow> int \<Rightarrow> int" where
  "wrapS w x = (x + 2 ^ (w - 1)) mod 2 ^ w - 2 ^ (w - 1)"

definition i8 :: "int \<Rightarrow> int" where "i8 x = wrapS 8 x"
definition i16 :: "int \<Rightarrow> int" where "i16 x = wrapS 16 x"
definition i32 :: "int \<Rightarrow> int" where "i32 x = wrapS 32 x"
definition i64 :: "int \<Rightarrow> int" where "i64 x = wrapS 64 x"

definition in_i8 :: "int \<Rightarrow> bool" where "in_i8 x \<longleftrightarrow> - (2 ^ 7) \<le> x \<and> x < 2 ^ 7"
definition in_i16 :: "int \<Rightarrow> bool" where "in_i16 x \<longleftrightarrow> - (2 ^ 15) \<le> x \<and> x < 2 ^ 15"
definition in_i32 :: "int \<Rightarrow> bool" where "in_i32 x \<longleftrightarrow> - (2 ^ 31) \<le> x \<and> x < 2 ^ 31"
definition in_i64 :: "int \<Rightarrow> bool" where "in_i64 x \<longleftrightarrow> - (2 ^ 63) \<le> x \<and> x < 2 ^ 63"

lemma wrapS_range:
  assumes "0 < w"
  shows "- (2 ^ (w - 1)) \<le> wrapS w x" and "wrapS w x < 2 ^ (w - 1)"
proof -
  have w: "(2::int) ^ w = 2 * 2 ^ (w - 1)"
    using assms by (cases w) auto
  have "0 \<le> (x + 2 ^ (w - 1)) mod 2 ^ w" "(x + 2 ^ (w - 1)) mod 2 ^ w < 2 ^ w"
    by simp_all
  with w show "- (2 ^ (w - 1)) \<le> wrapS w x" and "wrapS w x < 2 ^ (w - 1)"
    unfolding wrapS_def by linarith+
qed

lemma wrapS_id:
  assumes "0 < w" "- (2 ^ (w - 1)) \<le> x" "x < 2 ^ (w - 1)"
  shows "wrapS w x = x"
proof -
  have "(2::int) ^ w = 2 * 2 ^ (w - 1)"
    using assms(1) by (cases w) auto
  with assms have "(x + 2 ^ (w - 1)) mod 2 ^ w = x + 2 ^ (w - 1)"
    by (intro mod_pos_pos_trivial) auto
  then show ?thesis by (simp add: wrapS_def)
qed

lemma wrapS_mod: "wrapS w (x mod 2 ^ w) = wrapS w x"
  by (simp add: wrapS_def mod_simps)

lemma wrapS_add_left: "wrapS w (wrapS w x + y) = wrapS w (x + y)"
proof -
  have "(wrapS w x + y + 2 ^ (w - 1)) mod 2 ^ w = ((x + 2 ^ (w - 1)) mod 2 ^ w + y) mod 2 ^ w"
    by (simp add: wrapS_def algebra_simps)
  also have "\<dots> = (x + y + 2 ^ (w - 1)) mod 2 ^ w"
    using mod_add_left_eq [of "x + 2 ^ (w - 1)" "2 ^ w" y] by (simp add: ac_simps)
  finally show ?thesis by (simp add: wrapS_def)
qed

lemma i64_add_left [simp]: "i64 (i64 x + y) = i64 (x + y)"
  by (simp add: i64_def wrapS_add_left)

lemma i32_add_left [simp]: "i32 (i32 x + y) = i32 (x + y)"
  by (simp add: i32_def wrapS_add_left)

lemma i8_id [range_simps]: "in_i8 x \<Longrightarrow> i8 x = x"
  by (simp add: i8_def in_i8_def wrapS_id)
lemma i16_id [range_simps]: "in_i16 x \<Longrightarrow> i16 x = x"
  by (simp add: i16_def in_i16_def wrapS_id)
lemma i32_id [range_simps]: "in_i32 x \<Longrightarrow> i32 x = x"
  by (simp add: i32_def in_i32_def wrapS_id)
lemma i64_id [range_simps]: "in_i64 x \<Longrightarrow> i64 x = x"
  by (simp add: i64_def in_i64_def wrapS_id)

lemma in_i8_i8 [simp]: "in_i8 (i8 x)"
  using wrapS_range [of 8 x] by (simp add: in_i8_def i8_def)
lemma in_i16_i16 [simp]: "in_i16 (i16 x)"
  using wrapS_range [of 16 x] by (simp add: in_i16_def i16_def)
lemma in_i32_i32 [simp]: "in_i32 (i32 x)"
  using wrapS_range [of 32 x] by (simp add: in_i32_def i32_def)
lemma in_i64_i64 [simp]: "in_i64 (i64 x)"
  using wrapS_range [of 64 x] by (simp add: in_i64_def i64_def)

lemma in_i32_i64 [intro]: "in_i32 x \<Longrightarrow> in_i64 x"
  by (simp add: in_i32_def in_i64_def)

text \<open>Go's division truncates towards zero; a zero divisor panics, so callers test for it.\<close>

definition goDiv :: "int \<Rightarrow> int \<Rightarrow> int" where
  "goDiv a b = sgn a * sgn b * (\<bar>a\<bar> div \<bar>b\<bar>)"

lemma goDiv_nonneg: "0 \<le> a \<Longrightarrow> 0 < b \<Longrightarrow> goDiv a b = a div b"
  by (cases "a = 0") (auto simp: goDiv_def sgn_if)

section \<open>Bytes and big-endian integers\<close>

type_synonym byte = "8 word"
type_synonym bytes = "byte list"

text \<open>
  \<open>be n x\<close> is the big-endian encoding of the low \<open>8 n\<close> bits of \<open>x\<close>
  (\<open>binary.BigEndian.PutUint16/32/64\<close>), and \<open>ube\<close> the unsigned reading of a byte list
  (\<open>binary.BigEndian.Uint16/32/64\<close>).
\<close>

primrec be :: "nat \<Rightarrow> int \<Rightarrow> bytes" where
  "be 0 x = []"
| "be (Suc n) x = be n (x div 256) @ [word_of_int x]"

definition ube :: "bytes \<Rightarrow> int" where
  "ube bs = foldl (\<lambda>a b. a * 256 + uint b) 0 bs"

lemma length_be [simp]: "length (be n x) = n"
  by (induction n arbitrary: x) auto

lemma ube_snoc: "ube (bs @ [b]) = ube bs * 256 + uint b"
  by (simp add: ube_def)

lemma ube_Nil [simp]: "ube [] = 0"
  by (simp add: ube_def)

lemma ube_nonneg [simp]: "0 \<le> ube bs"
  by (induction bs rule: rev_induct) (auto simp: ube_snoc)

lemma ube_less: "ube bs < 256 ^ length bs"
proof (induction bs rule: rev_induct)
  case (snoc b bs)
  have "uint b < 256" using uint_lt2p [of b] by simp
  with snoc show ?case by (simp add: ube_snoc)
qed simp

lemma ube_be: "ube (be n x) = x mod 256 ^ n"
proof (induction n arbitrary: x)
  case (Suc n)
  have "uint (word_of_int x :: byte) = x mod 256"
    by (simp add: uint_word_of_int)
  then have "ube (be (Suc n) x) = (x div 256) mod 256 ^ n * 256 + x mod 256"
    by (simp add: ube_snoc Suc.IH)
  also have "\<dots> = x mod (256 * 256 ^ n)"
    using zmod_zmult2_eq [of "256 ^ n" x 256] by simp
  finally show ?case by simp
qed simp

lemma be_ube: "be (length bs) (ube bs) = bs"
proof (induction bs rule: rev_induct)
  case (snoc b bs)
  have b: "0 \<le> uint b" "uint b < 256" using uint_lt2p [of b] by simp_all
  have "(ube bs * 256 + uint b) div 256 = ube bs"
    using b by simp
  moreover have "(word_of_int (ube bs * 256 + uint b) :: byte) = b"
  proof -
    have "(ube bs * 256 + uint b) mod 256 = uint b mod 256"
      by simp
    then have "(word_of_int (ube bs * 256 + uint b) :: byte) = word_of_int (uint b)"
      by (subst word_of_int_eq_iff) (simp add: take_bit_eq_mod)
    then show ?thesis by simp
  qed
  ultimately show ?case using snoc by (simp add: ube_snoc)
qed simp

lemma i16_ube_be [codec_simps]: "in_i16 x \<Longrightarrow> i16 (ube (be 2 x)) = x"
  using wrapS_mod [of 16 x] by (simp add: ube_be i16_def wrapS_id in_i16_def)
lemma i32_ube_be [codec_simps]: "in_i32 x \<Longrightarrow> i32 (ube (be 4 x)) = x"
  using wrapS_mod [of 32 x] by (simp add: ube_be i32_def wrapS_id in_i32_def)
lemma i64_ube_be [codec_simps]: "in_i64 x \<Longrightarrow> i64 (ube (be 8 x)) = x"
  using wrapS_mod [of 64 x] by (simp add: ube_be i64_def wrapS_id in_i64_def)

section \<open>Strings\<close>

definition byte_of_char :: "char \<Rightarrow> byte" where
  "byte_of_char c = of_nat (of_char c)"

definition char_of_byte :: "byte \<Rightarrow> char" where
  "char_of_byte b = char_of (unat b)"

definition bytes_of_string :: "string \<Rightarrow> bytes" where
  "bytes_of_string s = map byte_of_char s"

definition string_of_bytes :: "bytes \<Rightarrow> string" where
  "string_of_bytes bs = map char_of_byte bs"

lemma char_of_byte_of_char [simp]: "char_of_byte (byte_of_char c) = c"
proof -
  have "(of_char c :: nat) < 256" by simp
  then have "unat (of_nat (of_char c) :: byte) = (of_char c :: nat)"
    by (simp add: unat_of_nat)
  then show ?thesis by (simp add: char_of_byte_def byte_of_char_def)
qed

lemma byte_of_char_of_byte [simp]: "byte_of_char (char_of_byte b) = b"
proof -
  have "unat b < 2 ^ LENGTH(8)" by (rule unsigned_less)
  then have "unat b < 256" by simp
  then have "(of_char (char_of (unat b) :: char) :: nat) = unat b"
    by simp
  then show ?thesis by (simp add: char_of_byte_def byte_of_char_def)
qed

lemma string_of_bytes_of_string [simp]: "string_of_bytes (bytes_of_string s) = s"
  by (simp add: string_of_bytes_def bytes_of_string_def o_def)

lemma bytes_of_string_of_bytes [simp]: "bytes_of_string (string_of_bytes bs) = bs"
  by (simp add: string_of_bytes_def bytes_of_string_def o_def)

lemma length_bytes_of_string [simp]: "length (bytes_of_string s) = length s"
  by (simp add: bytes_of_string_def)

lemma length_string_of_bytes [simp]: "length (string_of_bytes s) = length s"
  by (simp add: string_of_bytes_def)

lemma bytes_of_string_inj [simp]: "bytes_of_string s = bytes_of_string t \<longleftrightarrow> s = t"
  by (metis string_of_bytes_of_string)

text \<open>The functions of package \<open>strings\<close> that the sources call.\<close>

definition HasPrefix :: "string \<Rightarrow> string \<Rightarrow> bool" where
  "HasPrefix s p \<longleftrightarrow> take (length p) s = p"

definition HasSuffix :: "string \<Rightarrow> string \<Rightarrow> bool" where
  "HasSuffix s p \<longleftrightarrow> length p \<le> length s \<and> drop (length s - length p) s = p"

definition TrimPrefix :: "string \<Rightarrow> string \<Rightarrow> string" where
  "TrimPrefix s p = (if HasPrefix s p then drop (length p) s else s)"

definition TrimSuffix :: "string \<Rightarrow> string \<Rightarrow> string" where
  "TrimSuffix s p = (if HasSuffix s p then take (length s - length p) s else s)"

lemma HasPrefix_append [simp]: "HasPrefix (p @ s) p"
  by (simp add: HasPrefix_def)

lemma HasSuffix_append [simp]: "HasSuffix (s @ p) p"
  by (simp add: HasSuffix_def)

lemma TrimPrefix_append [simp]: "TrimPrefix (p @ s) p = s"
  by (simp add: TrimPrefix_def)

lemma TrimSuffix_append [simp]: "TrimSuffix (s @ p) p = s"
  by (simp add: TrimSuffix_def)

lemma HasPrefix_iff: "HasPrefix s p \<longleftrightarrow> (\<exists>t. s = p @ t)"
  unfolding HasPrefix_def by (metis append_eq_conv_conj append_take_drop_id)

lemma HasSuffix_iff: "HasSuffix s p \<longleftrightarrow> (\<exists>t. s = t @ p)"
proof
  assume "HasSuffix s p"
  then show "\<exists>t. s = t @ p"
    unfolding HasSuffix_def by (metis append_take_drop_id)
qed auto

text \<open>\<open>strings.Split(s, sep)\<close> for a one-character separator.\<close>

fun split_on :: "char \<Rightarrow> string \<Rightarrow> string list" where
  "split_on c [] = [[]]"
| "split_on c (x # xs) =
     (if x = c then [] # split_on c xs
      else (case split_on c xs of [] \<Rightarrow> [[x]] | p # ps \<Rightarrow> (x # p) # ps))"

definition join_with :: "char \<Rightarrow> string list \<Rightarrow> string" where
  "join_with c ps = (case ps of [] \<Rightarrow> [] | p # ps \<Rightarrow> p @ concat (map (\<lambda>q. c # q) ps))"

lemma split_on_nonempty [simp]: "split_on c s \<noteq> []"
  by (induction s) (auto split: list.splits)

lemma split_on_free [simp]: "c \<notin> set s \<Longrightarrow> split_on c s = [s]"
  by (induction s) auto

lemma split_on_append: "split_on c (s @ c # t) = split_on c s @ split_on c t"
  by (induction s) (auto split: list.splits simp: Cons_eq_append_conv)

lemma split_on_pieces: "p \<in> set (split_on c s) \<Longrightarrow> c \<notin> set p"
  by (induction s arbitrary: p) (auto split: list.splits if_splits)

lemma join_with_Cons2: "join_with c (p # q # ps) = p @ c # join_with c (q # ps)"
  by (simp add: join_with_def)

lemma join_with_snoc: "ps \<noteq> [] \<Longrightarrow> join_with c (ps @ [q]) = join_with c ps @ c # q"
  by (cases ps) (auto simp: join_with_def)

lemma join_with_single [simp]: "join_with c [p] = p"
  by (simp add: join_with_def)

text \<open>Two strings joined by a separator that the right part does not contain.\<close>

lemma append_sep_inj:
  fixes c :: char
  assumes "c \<notin> set d" "c \<notin> set e"
  shows "s @ c # d = t @ c # e \<longleftrightarrow> s = t \<and> d = e"
proof
  assume eq: "s @ c # d = t @ c # e"
  have "last (split_on c (s @ c # d)) = d" "last (split_on c (t @ c # e)) = e"
    using assms by (simp_all add: split_on_append)
  with eq have "d = e" by simp
  with eq show "s = t \<and> d = e" by simp
qed simp

text \<open>
  \<open>strings.ToLower\<close>, \<open>strings.TrimSpace\<close>: the letters and white space of ASCII, which is what
  group states and group identifiers are written in.
\<close>

definition lower_char :: "char \<Rightarrow> char" where
  "lower_char c = (let n = (of_char c :: nat) in if 65 \<le> n \<and> n \<le> 90 then char_of (n + 32) else c)"

definition ToLower :: "string \<Rightarrow> string" where
  "ToLower s = map lower_char s"

definition is_space :: "char \<Rightarrow> bool" where
  "is_space c \<longleftrightarrow> (let n = (of_char c :: nat) in n = 32 \<or> (9 \<le> n \<and> n \<le> 13))"

definition TrimSpace :: "string \<Rightarrow> string" where
  "TrimSpace s = rev (dropWhile is_space (rev (dropWhile is_space s)))"

section \<open>Decimal numbers\<close>

definition digit_char :: "nat \<Rightarrow> char" where
  "digit_char d = char_of (48 + d)"

fun dec_nat :: "nat \<Rightarrow> string" where
  "dec_nat n = (if n < 10 then [digit_char n] else dec_nat (n div 10) @ [digit_char (n mod 10)])"

declare dec_nat.simps [simp del]

text \<open>\<open>fmt.Sprintf("%d", x)\<close> and \<open>fmt.Sprintf("%020d", x)\<close>.\<close>

definition fmt_d :: "int \<Rightarrow> string" where
  "fmt_d x = (if x < 0 then CHR ''-'' # dec_nat (nat (- x)) else dec_nat (nat x))"

definition zero_pad :: "nat \<Rightarrow> string \<Rightarrow> string" where
  "zero_pad w s = replicate (w - length s) CHR ''0'' @ s"

definition fmt_020d :: "int \<Rightarrow> string" where
  "fmt_020d x = (if x < 0 then CHR ''-'' # zero_pad 19 (dec_nat (nat (- x)))
                 else zero_pad 20 (dec_nat (nat x)))"

text \<open>\<open>strconv.ParseInt(s, 10, bits)\<close>: \<open>None\<close> is any of its errors.\<close>

definition digit_val :: "char \<Rightarrow> nat option" where
  "digit_val c = (let n = (of_char c :: nat) in if 48 \<le> n \<and> n \<le> 57 then Some (n - 48) else None)"

fun parse_digits :: "nat \<Rightarrow> string \<Rightarrow> nat option" where
  "parse_digits acc [] = Some acc"
| "parse_digits acc (c # cs) =
     (case digit_val c of None \<Rightarrow> None | Some d \<Rightarrow> parse_digits (10 * acc + d) cs)"

definition ParseUint :: "string \<Rightarrow> nat option" where
  "ParseUint s = (if s = [] then None else parse_digits 0 s)"

definition ParseInt :: "nat \<Rightarrow> string \<Rightarrow> int option" where
  "ParseInt bits s =
     (case s of
        [] \<Rightarrow> None
      | c # cs \<Rightarrow>
          let neg = (c = CHR ''-''); digits = (if c = CHR ''-'' \<or> c = CHR ''+'' then cs else s)
          in (case ParseUint digits of
                None \<Rightarrow> None
              | Some u \<Rightarrow>
                  if \<not> neg \<and> int u \<ge> 2 ^ (bits - 1) then None
                  else if neg \<and> int u > 2 ^ (bits - 1) then None
                  else Some (if neg then - int u else int u)))"

lemma digit_char_simps:
  assumes "d < 10"
  shows "digit_val (digit_char d) = Some d" and "(of_char (digit_char d) :: nat) = 48 + d"
  using assms by (auto simp: digit_val_def digit_char_def Let_def)

lemma dec_nat_nonempty [simp]: "dec_nat n \<noteq> []"
  by (subst dec_nat.simps) simp

lemma dec_nat_chars: "c \<in> set (dec_nat n) \<Longrightarrow> 48 \<le> (of_char c :: nat) \<and> (of_char c :: nat) \<le> 57"
proof (induction n rule: dec_nat.induct)
  case (1 n)
  have last: "(of_char (digit_char (n mod 10)) :: nat) = 48 + n mod 10"
    by (rule digit_char_simps) simp
  show ?case
  proof (cases "n < 10")
    case True
    with "1.prems" last show ?thesis by (simp add: dec_nat.simps [of n])
  next
    case False
    with "1.prems" consider "c \<in> set (dec_nat (n div 10))" | "c = digit_char (n mod 10)"
      by (auto simp: dec_nat.simps [of n])
    then show ?thesis
    proof cases
      case 1
      with "1.IH" False show ?thesis by simp
    next
      case 2
      with last show ?thesis by simp
    qed
  qed
qed

lemma dec_nat_free: "\<not> (48 \<le> (of_char c :: nat) \<and> (of_char c :: nat) \<le> 57) \<Longrightarrow> c \<notin> set (dec_nat n)"
  using dec_nat_chars by blast

lemma parse_digits_append:
  "parse_digits a (s @ t) = (case parse_digits a s of None \<Rightarrow> None | Some b \<Rightarrow> parse_digits b t)"
  by (induction s arbitrary: a) (auto split: option.splits)

lemma parse_digits_dec: "parse_digits 0 (dec_nat n) = Some n"
proof (induction n rule: dec_nat.induct)
  case (1 n)
  show ?case
  proof (cases "n < 10")
    case True
    then show ?thesis by (simp add: dec_nat.simps [of n] digit_char_simps)
  next
    case False
    with "1.IH" have "parse_digits 0 (dec_nat (n div 10)) = Some (n div 10)" by simp
    with False show ?thesis
      by (simp add: dec_nat.simps [of n] parse_digits_append digit_char_simps)
  qed
qed

lemma parse_digits_zeros: "parse_digits 0 (replicate k CHR ''0'' @ s) = parse_digits 0 s"
  by (induction k) (auto simp: digit_val_def)

lemma parse_digits_zero_pad: "parse_digits 0 (zero_pad w (dec_nat n)) = Some n"
  by (simp add: zero_pad_def parse_digits_zeros parse_digits_dec)

lemma zero_pad_nonempty [simp]: "zero_pad w (dec_nat n) \<noteq> []"
  by (simp add: zero_pad_def)

lemma zero_pad_chars:
  "c \<in> set (zero_pad w (dec_nat n)) \<Longrightarrow> 48 \<le> (of_char c :: nat) \<and> (of_char c :: nat) \<le> 57"
  using dec_nat_chars by (fastforce simp: zero_pad_def)

text \<open>Parsing what was printed: with or without zero padding, for any value of the width.\<close>

lemma ParseInt_signed:
  assumes digits: "parse_digits 0 s = Some u" "s \<noteq> []"
    and chars: "\<And>c. c \<in> set s \<Longrightarrow> 48 \<le> (of_char c :: nat) \<and> (of_char c :: nat) \<le> 57"
  shows "int u < 2 ^ (bits - 1) \<Longrightarrow> ParseInt bits s = Some (int u)"
    and "int u \<le> 2 ^ (bits - 1) \<Longrightarrow> ParseInt bits (CHR ''-'' # s) = Some (- int u)"
proof -
  obtain c cs where s: "s = c # cs" using digits(2) by (cases s) auto
  have "c \<noteq> CHR ''-''" "c \<noteq> CHR ''+''"
    using chars [of c] s by auto
  then show "int u < 2 ^ (bits - 1) \<Longrightarrow> ParseInt bits s = Some (int u)"
    using digits s by (auto simp: ParseInt_def ParseUint_def Let_def)
  show "int u \<le> 2 ^ (bits - 1) \<Longrightarrow> ParseInt bits (CHR ''-'' # s) = Some (- int u)"
    using digits by (auto simp: ParseInt_def ParseUint_def Let_def)
qed

lemma ParseInt_fmt_d:
  assumes "- (2 ^ (bits - 1)) \<le> x" "x < 2 ^ (bits - 1)"
  shows "ParseInt bits (fmt_d x) = Some x"
proof (cases "x < 0")
  case True
  then show ?thesis
    using ParseInt_signed(2) [OF parse_digits_dec [of "nat (- x)"] dec_nat_nonempty dec_nat_chars, where bits = bits] assms
    by (simp add: fmt_d_def)
next
  case False
  then show ?thesis
    using ParseInt_signed(1) [OF parse_digits_dec [of "nat x"] dec_nat_nonempty dec_nat_chars, where bits = bits] assms
    by (simp add: fmt_d_def)
qed

lemma ParseInt_fmt_d_i64: "in_i64 x \<Longrightarrow> ParseInt 64 (fmt_d x) = Some x"
  by (rule ParseInt_fmt_d) (simp_all add: in_i64_def)

lemma ParseInt_fmt_d_i32: "in_i32 x \<Longrightarrow> ParseInt 32 (fmt_d x) = Some x"
  by (rule ParseInt_fmt_d) (simp_all add: in_i32_def)

lemma ParseInt_fmt_020d:
  assumes "in_i64 x"
  shows "ParseInt 64 (fmt_020d x) = Some x"
proof (cases "x < 0")
  case True
  then show ?thesis
    using ParseInt_signed(2) [OF parse_digits_zero_pad [of 19 "nat (- x)"] zero_pad_nonempty zero_pad_chars, where bits = 64] assms
    by (simp add: fmt_020d_def in_i64_def)
next
  case False
  then show ?thesis
    using ParseInt_signed(1) [OF parse_digits_zero_pad [of 20 "nat x"] zero_pad_nonempty zero_pad_chars, where bits = 64] assms
    by (simp add: fmt_020d_def in_i64_def)
qed

lemma fmt_d_chars: "c \<in> set (fmt_d x) \<Longrightarrow> c = CHR ''-'' \<or> (48 \<le> (of_char c :: nat) \<and> (of_char c :: nat) \<le> 57)"
  using dec_nat_chars by (auto simp: fmt_d_def split: if_splits)

lemma fmt_020d_chars: "c \<in> set (fmt_020d x) \<Longrightarrow> c = CHR ''-'' \<or> (48 \<le> (of_char c :: nat) \<and> (of_char c :: nat) \<le> 57)"
  using zero_pad_chars by (auto simp: fmt_020d_def split: if_splits)

lemma fmt_d_free: "c \<noteq> CHR ''-'' \<Longrightarrow> \<not> (48 \<le> (of_char c :: nat) \<and> (of_char c :: nat) \<le> 57) \<Longrightarrow> c \<notin> set (fmt_d x)"
  using fmt_d_chars by blast

lemma fmt_020d_free: "c \<noteq> CHR ''-'' \<Longrightarrow> \<not> (48 \<le> (of_char c :: nat) \<and> (of_char c :: nat) \<le> 57) \<Longrightarrow> c \<notin> set (fmt_020d x)"
  using fmt_020d_chars by blast

lemma dec_nat_inj [simp]: "dec_nat m = dec_nat n \<longleftrightarrow> m = n"
  by (metis parse_digits_dec option.inject)

lemma fmt_d_inj [simp]: "fmt_d x = fmt_d y \<longleftrightarrow> x = y"
proof -
  have "CHR ''-'' \<notin> set (dec_nat n)" for n
    by (rule dec_nat_free) simp
  then have "CHR ''-'' # s \<noteq> dec_nat n" for s n
    by (metis list.set_intros(1))
  then show ?thesis
    by (auto simp: fmt_d_def) (metis)+
qed

lemma fmt_020d_inj: "in_i64 x \<Longrightarrow> in_i64 y \<Longrightarrow> fmt_020d x = fmt_020d y \<longleftrightarrow> x = y"
  by (metis ParseInt_fmt_020d option.inject)

lemma fmt_020d_nonempty [simp]: "fmt_020d x \<noteq> []"
  by (simp add: fmt_020d_def)

lemma fmt_d_nonempty [simp]: "fmt_d x \<noteq> []"
  by (simp add: fmt_d_def)

section \<open>Slash-separated paths\<close>

text \<open>
  \<open>path.Clean\<close>, \<open>path.Join\<close> and \<open>path.Base\<close>. Cleaning runs over the elements of the path
  with the output as a stack: empty and \<open>.\<close> elements go, \<open>..\<close> takes the element before it
  away where there is one to take.
\<close>

definition clean_push :: "bool \<Rightarrow> string list \<Rightarrow> string \<Rightarrow> string list" where
  "clean_push rooted st e =
     (if e = [] \<or> e = ''.'' then st
      else if e = ''..'' then
        (case st of [] \<Rightarrow> (if rooted then [] else [''..''])
         | x # xs \<Rightarrow> (if x = ''..'' then ''..'' # st else xs))
      else e # st)"

definition path_Clean :: "string \<Rightarrow> string" where
  "path_Clean p =
     (if p = [] then ''.''
      else
        let rooted = (hd p = CHR ''/'');
            out = join_with CHR ''/'' (rev (foldl (clean_push rooted) [] (split_on CHR ''/'' p)))
        in if rooted then CHR ''/'' # out else if out = [] then ''.'' else out)"

definition path_Join :: "string list \<Rightarrow> string" where
  "path_Join elems =
     (case dropWhile (\<lambda>e. e = []) elems of
        [] \<Rightarrow> []
      | es \<Rightarrow> path_Clean (join_with CHR ''/'' es))"

definition path_Base :: "string \<Rightarrow> string" where
  "path_Base p =
     (if p = [] then ''.''
      else
        let q = rev (dropWhile (\<lambda>c. c = CHR ''/'') (rev p)); b = last (split_on CHR ''/'' q)
        in if b = [] then ''/'' else b)"

text \<open>An element that cleaning leaves alone.\<close>

definition plain_elem :: "string \<Rightarrow> bool" where
  "plain_elem e \<longleftrightarrow> e \<noteq> [] \<and> e \<noteq> ''.'' \<and> e \<noteq> ''..'' \<and> CHR ''/'' \<notin> set e"

lemma clean_push_plain: "plain_elem e \<Longrightarrow> clean_push r st e = e # st"
  by (simp add: clean_push_def plain_elem_def)

lemma path_Clean_snoc:
  assumes "p \<noteq> []"
  shows "\<exists>q. \<forall>name. plain_elem name \<longrightarrow> path_Clean (p @ CHR ''/'' # name) = q @ name
           \<and> (q = [] \<or> last q = CHR ''/'')"
proof -
  define r where "r = (hd p = CHR ''/'')"
  define st where "st = foldl (clean_push r) [] (split_on CHR ''/'' p)"
  define q where "q = (if r then ''/'' else []) @
    (if st = [] then [] else join_with CHR ''/'' (rev st) @ ''/'')"
  have "path_Clean (p @ CHR ''/'' # name) = q @ name" if "plain_elem name" for name
  proof -
    have "split_on CHR ''/'' (p @ CHR ''/'' # name) = split_on CHR ''/'' p @ [name]"
      using that by (simp add: split_on_append plain_elem_def)
    then have st': "foldl (clean_push r) [] (split_on CHR ''/'' (p @ CHR ''/'' # name)) = name # st"
      by (simp add: st_def clean_push_plain [OF that])
    have "join_with CHR ''/'' (rev (name # st)) =
        (if st = [] then [] else join_with CHR ''/'' (rev st) @ ''/'') @ name"
      by (simp add: join_with_snoc)
    moreover have "path_Clean (p @ CHR ''/'' # name) =
        (let out = join_with CHR ''/'' (rev (foldl (clean_push r) [] (split_on CHR ''/'' (p @ CHR ''/'' # name))))
         in if r then CHR ''/'' # out else if out = [] then ''.'' else out)"
      using assms by (simp add: path_Clean_def r_def Let_def)
    ultimately show ?thesis
      using that by (simp only: st' Let_def) (simp add: q_def plain_elem_def)
  qed
  moreover have "q = [] \<or> last q = CHR ''/''"
    by (simp add: q_def)
  ultimately show ?thesis by blast
qed

lemma path_Clean_snoc2:
  assumes "p \<noteq> []" "plain_elem a" "plain_elem name"
  shows "path_Clean ((p @ CHR ''/'' # a) @ CHR ''/'' # name) = path_Clean (p @ CHR ''/'' # a) @ CHR ''/'' # name"
proof -
  define r where "r = (hd p = CHR ''/'')"
  define st where "st = foldl (clean_push r) [] (split_on CHR ''/'' p)"
  have clean: "path_Clean (p @ x) =
      (let out = join_with CHR ''/'' (rev (foldl (clean_push r) [] (split_on CHR ''/'' (p @ x))))
       in if r then CHR ''/'' # out else if out = [] then ''.'' else out)" for x
    using assms(1) by (simp add: path_Clean_def r_def Let_def)
  have split1: "split_on CHR ''/'' (p @ CHR ''/'' # a) = split_on CHR ''/'' p @ [a]"
    using assms(2) by (simp add: split_on_append plain_elem_def)
  then have "split_on CHR ''/'' ((p @ CHR ''/'' # a) @ CHR ''/'' # name) = split_on CHR ''/'' p @ [a, name]"
    using assms(3) by (subst split_on_append) (simp add: plain_elem_def)
  then have split2: "split_on CHR ''/'' (p @ CHR ''/'' # a @ CHR ''/'' # name) = split_on CHR ''/'' p @ [a, name]"
    by simp
  have "join_with CHR ''/'' (rev (name # a # st)) = join_with CHR ''/'' (rev (a # st)) @ CHR ''/'' # name"
    using join_with_snoc [of "rev (a # st)" "CHR ''/''" name] by simp
  moreover have "join_with CHR ''/'' (rev (a # st)) \<noteq> []"
    using assms(2) by (cases "st = []") (auto simp: join_with_snoc plain_elem_def)
  ultimately show ?thesis
    using assms(2,3) by (simp add: clean split1 split2 Let_def clean_push_plain flip: st_def)
qed

lemma path_Base_append:
  assumes "plain_elem name" "q = [] \<or> last q = CHR ''/''"
  shows "path_Base (q @ name) = name"
proof -
  have nz: "name \<noteq> []" and free: "CHR ''/'' \<notin> set name"
    using assms(1) by (auto simp: plain_elem_def)
  then have "last name \<noteq> CHR ''/''"
    using last_in_set by metis
  then have "rev (dropWhile (\<lambda>c. c = CHR ''/'') (rev (q @ name))) = q @ name"
    using nz by (cases name rule: rev_cases) auto
  moreover have "last (split_on CHR ''/'' (q @ name)) = name"
  proof (cases "q = []")
    case True
    with free show ?thesis by simp
  next
    case False
    with assms(2) obtain q' where "q = q' @ [CHR ''/'']"
      by (metis append_butlast_last_id)
    with free show ?thesis by (simp add: split_on_append)
  qed
  ultimately show ?thesis
    using nz by (simp add: path_Base_def Let_def)
qed

section \<open>Time\<close>

text \<open>
  An instant is the number of nanoseconds since the zero \<open>time.Time\<close> (1 January of year 1), so
  the zero value is 0. The clock is an argument of the operations that read it. A duration is a
  64-bit number of nanoseconds, and the difference of two instants saturates at its range.
\<close>

type_synonym time = int
type_synonym duration = int

definition millisecond :: duration where "millisecond = 1000000"
definition second :: duration where "second = 1000 * millisecond"

definition unixMilli :: "time \<Rightarrow> int" where
  "unixMilli t = t div millisecond - 62135596800000"

definition timeSub :: "time \<Rightarrow> time \<Rightarrow> duration" where
  "timeSub t u = max (- (2 ^ 63)) (min (2 ^ 63 - 1) (t - u))"

section \<open>Slices\<close>

text \<open>
  \<open>xs[lo:hi]\<close> panics unless \<open>0 \<le> lo \<le> hi \<le> len(xs)\<close>. (Go tests \<open>hi\<close> against the capacity; the
  slices of the modelled code are cut where their capacity is not looked at.)
\<close>

definition goSlice :: "'a list \<Rightarrow> int \<Rightarrow> int \<Rightarrow> 'a list outcome" where
  "goSlice xs lo hi =
     (if 0 \<le> lo \<and> lo \<le> hi \<and> hi \<le> int (length xs)
      then Ok (take (nat (hi - lo)) (drop (nat lo) xs)) else Panic)"

text \<open>\<open>xs[i]\<close>.\<close>

definition goIndex :: "'a list \<Rightarrow> int \<Rightarrow> 'a outcome" where
  "goIndex xs i = (if 0 \<le> i \<and> i < int (length xs) then Ok (xs ! nat i) else Panic)"

lemma goSlice_append_mid:
  "goSlice (a @ b @ c) (int (length a)) (int (length a + length b)) = Ok b"
  by (simp add: goSlice_def)

lemma goSlice_Ok_length:
  "goSlice xs lo hi = Ok ys \<Longrightarrow> int (length ys) = hi - lo"
  by (auto simp: goSlice_def split: if_splits)

section \<open>Maps as association lists\<close>

definition map_wf :: "('k \<times> 'v) list \<Rightarrow> bool" where
  "map_wf m \<longleftrightarrow> distinct (map fst m)"

lemma map_wf_Nil [simp]: "map_wf []"
  by (simp add: map_wf_def)

lemma map_wf_update [simp]: "map_wf m \<Longrightarrow> map_wf (AList.update k v m)"
  by (simp add: map_wf_def distinct_update)

lemma map_wf_delete [simp]: "map_wf m \<Longrightarrow> map_wf (AList.delete k m)"
  by (simp add: map_wf_def distinct_delete)

lemma map_wf_filter [simp]: "map_wf m \<Longrightarrow> map_wf (filter P m)"
  by (simp add: map_wf_def distinct_map_filter)

lemma map_wf_map_snd [simp]: "map_wf (map (\<lambda>(k, v). (k, f k v)) m) = map_wf m"
  by (simp add: map_wf_def o_def split_def)

lemma map_wf_lookup: "map_wf m \<Longrightarrow> map_of m k = Some v \<longleftrightarrow> (k, v) \<in> set m"
  by (simp add: map_wf_def)

lemma map_of_filter_wf:
  "map_wf m \<Longrightarrow> map_of (filter P m) k =
     (case map_of m k of None \<Rightarrow> None | Some v \<Rightarrow> (if P (k, v) then Some v else None))"
  by (induction m) (auto simp: map_wf_def map_of_eq_None_iff split: option.splits)

lemma keys_filter_subset: "fst ` set (filter P m) \<subseteq> fst ` set m"
  by auto

lemma keys_iff_lookup: "k \<in> fst ` set m \<longleftrightarrow> (\<exists>v. map_of m k = Some v)"
  by (metis domD domI dom_map_of_conv_image_fst)

lemma set_update_subset: "set (AList.update k v m) \<subseteq> insert (k, v) (set m)"
  by (induction m) auto

lemma set_delete_subset: "set (AList.delete k m) \<subseteq> set m"
  by (auto simp: AList.delete_eq)

end
