(* ===== verification/Segment_Format.thy ===== *)
theory Segment_Format
  imports Go_Base
begin

text \<open>
  The segment file format of package \<open>storage\<close>: record batches (\<open>types.go\<close>,
  \<open>recordbatch.go\<close>), the sparse index (\<open>index.go\<close>) and the segment serialiser
  (\<open>segment.go\<close>). The lemmas give the byte layout of a segment, the round trip of the index
  and of the footer, and where the entries of an index point to.
\<close>

unbundle bit_operations_syntax

section \<open>Record batches\<close>

record record_batch =
  rbBaseOffset :: int
  rbLastOffsetDelta :: int
  rbMessageCount :: int
  rbBytes :: bytes

definition recordBatchHeaderMinSize :: nat where
  "recordBatchHeaderMinSize = 61"

definition u32_at :: "bytes \<Rightarrow> nat \<Rightarrow> int" where
  "u32_at bs i = ube (take 4 (drop i bs))"

definition u64_at :: "bytes \<Rightarrow> nat \<Rightarrow> int" where
  "u64_at bs i = ube (take 8 (drop i bs))"

definition NewRecordBatchFromBytes :: "bytes \<Rightarrow> record_batch outcome" where
  "NewRecordBatchFromBytes data =
     (if length data < recordBatchHeaderMinSize then Err (ErrText ''record batch too small'')
      else Ok \<lparr>rbBaseOffset = i64 (u64_at data 0),
               rbLastOffsetDelta = i32 (u32_at data 23),
               rbMessageCount = i32 (u32_at data 57),
               rbBytes = data\<rparr>)"

text \<open>The slice expression \<open>batch.Bytes[0:8]\<close> panics when the batch is shorter.\<close>

definition PatchRecordBatchBaseOffset :: "record_batch \<Rightarrow> int \<Rightarrow> record_batch outcome" where
  "PatchRecordBatchBaseOffset batch baseOffset =
     (if length (rbBytes batch) < 8 then Panic
      else Ok (batch\<lparr>rbBytes := be 8 baseOffset @ drop 8 (rbBytes batch),
                     rbBaseOffset := baseOffset\<rparr>))"

text \<open>The loop of \<open>CountRecordBatchMessages\<close> from a position of the record set.\<close>

function count_frames :: "bytes \<Rightarrow> nat \<Rightarrow> int \<Rightarrow> int" where
  "count_frames recordSet offset n =
     (if offset + 12 \<le> length recordSet then
        let batchLen = nat (u32_at recordSet (offset + 8)); frameLen = 12 + batchLen
        in if batchLen \<le> 0 then n
           else if length recordSet < offset + frameLen then n
           else if frameLen < recordBatchHeaderMinSize then n
           else count_frames recordSet (offset + frameLen)
                  (i64 (n + u32_at recordSet (offset + 57)))
      else n)"
  by pat_completeness auto
termination
  by (relation "measure (\<lambda>(bs, off, t). length bs - off)") auto

declare count_frames.simps [simp del]

definition CountRecordBatchMessages :: "bytes \<Rightarrow> int" where
  "CountRecordBatchMessages recordSet =
     (if length recordSet < recordBatchHeaderMinSize then 0 else count_frames recordSet 0 0)"

section \<open>The sparse index\<close>

record index_entry =
  ieOffset :: int
  iePosition :: int

record index_builder =
  ibInterval :: int
  ibSinceLast :: int
  ibEntries :: "index_entry list"

definition indexMagic :: bytes where
  "indexMagic = [73, 68, 88, 0]"

definition NewIndexBuilder :: "int \<Rightarrow> index_builder" where
  "NewIndexBuilder interval =
     \<lparr>ibInterval = (if interval \<le> 0 then 1 else interval), ibSinceLast = 0, ibEntries = []\<rparr>"

definition MaybeAdd :: "index_builder \<Rightarrow> int \<Rightarrow> int \<Rightarrow> int \<Rightarrow> index_builder" where
  "MaybeAdd b offset position batchMessages =
     (let b' = (if ibEntries b = [] \<or> ibSinceLast b \<ge> ibInterval b
                then b\<lparr>ibEntries := ibEntries b @ [\<lparr>ieOffset = offset, iePosition = position\<rparr>],
                       ibSinceLast := 0\<rparr>
                else b)
      in b'\<lparr>ibSinceLast := i32 (ibSinceLast b' + batchMessages)\<rparr>)"

definition Entries :: "index_builder \<Rightarrow> index_entry list" where
  "Entries b = ibEntries b"

definition entry_bytes :: "index_entry \<Rightarrow> bytes" where
  "entry_bytes e = be 8 (ieOffset e) @ be 4 (iePosition e)"

definition BuildBytes :: "index_builder \<Rightarrow> bytes outcome" where
  "BuildBytes b =
     Ok (indexMagic @ be 2 1 @ be 4 (int (length (ibEntries b))) @ be 4 (ibInterval b) @ be 2 0 @
         concat (map entry_bytes (ibEntries b)))"

text \<open>\<open>binary.Read\<close> of a value of \<open>n\<close> bytes from a \<open>bytes.Reader\<close>.\<close>

definition binary_Read :: "nat \<Rightarrow> bytes \<Rightarrow> (bytes \<times> bytes) outcome" where
  "binary_Read n r =
     (if n \<le> length r then Ok (take n r, drop n r)
      else Err (if r = [] then ErrEOF else ErrUnexpectedEOF))"

fun parse_entries :: "nat \<Rightarrow> bytes \<Rightarrow> index_entry list outcome" where
  "parse_entries 0 r = Ok []"
| "parse_entries (Suc n) r =
     bindO (binary_Read 8 r) (\<lambda>(offset, r).
     bindO (binary_Read 4 r) (\<lambda>(position, r).
     bindO (parse_entries n r) (\<lambda>es.
       Ok (\<lparr>ieOffset = i64 (ube offset), iePosition = i32 (ube position)\<rparr> # es))))"

definition ParseIndex :: "bytes \<Rightarrow> index_entry list outcome" where
  "ParseIndex data =
     (if length data < 16 then Err (ErrText ''index too small'')
      else if take 4 data \<noteq> indexMagic then Err (ErrText ''invalid index magic'')
      else
        bindO (binary_Read 2 (drop 4 data)) (\<lambda>(version, r).
          if ube version \<noteq> 1 then Err (ErrText ''unsupported index version'')
          else
            bindO (binary_Read 4 r) (\<lambda>(count, r).
            bindO (binary_Read 4 r) (\<lambda>(interval, r).
            bindO (binary_Read 2 r) (\<lambda>(reserved, r).
              if i32 (ube count) < 0 then Panic
              else parse_entries (nat (i32 (ube count))) r)))))"

section \<open>Segments\<close>

record segment_cfg =
  IndexIntervalMessages :: int

record segment_artifact =
  saBaseOffset :: int
  saLastOffset :: int
  saMessageCount :: int
  saCreatedAt :: time
  saSegmentBytes :: bytes
  saIndexBytes :: bytes
  saRelativeIndex :: "index_entry list"

definition segmentMagic :: bytes where "segmentMagic = [75, 65, 70, 83]"
definition footerMagic :: bytes where "footerMagic = [69, 78, 68, 33]"
definition segmentFooterLen :: nat where "segmentFooterLen = 16"
definition segmentHeaderLen :: nat where "segmentHeaderLen = 32"

text \<open>\<open>crc32.Checksum\<close> with the Castagnoli polynomial (reversed representation).\<close>

fun crc_bits :: "nat \<Rightarrow> 32 word \<Rightarrow> 32 word" where
  "crc_bits 0 c = c"
| "crc_bits (Suc n) c =
     crc_bits n (if bit c 0 then drop_bit 1 c XOR 0x82F63B78 else drop_bit 1 c)"

definition crc32c :: "bytes \<Rightarrow> 32 word" where
  "crc32c bs = NOT (foldl (\<lambda>c b. crc_bits 8 (c XOR ucast b)) (NOT 0) bs)"

definition buildHeader :: "int \<Rightarrow> int \<Rightarrow> time \<Rightarrow> bytes" where
  "buildHeader baseOffset messageCount created =
     segmentMagic @ be 2 1 @ be 2 0 @ be 8 baseOffset @ be 4 messageCount @
     be 8 (unixMilli created) @ be 4 0"

definition buildFooter :: "32 word \<Rightarrow> int \<Rightarrow> bytes" where
  "buildFooter crc lastOffset = be 4 (uint crc) @ be 8 lastOffset @ footerMagic"

text \<open>
  The loop of \<open>BuildSegment\<close>: the index builder, the bytes written to the body so far and the
  number of messages are its state.
\<close>

fun build_body :: "record_batch list \<Rightarrow> index_builder \<Rightarrow> bytes \<Rightarrow> int
    \<Rightarrow> (index_builder \<times> bytes \<times> int) outcome" where
  "build_body [] index body totalMessages = Ok (index, body, totalMessages)"
| "build_body (batch # batches) index body totalMessages =
     (if length (rbBytes batch) = 0 then Err (ErrText ''batch payload empty'')
      else build_body batches
        (MaybeAdd index (rbBaseOffset batch) (i32 (int (segmentHeaderLen + length body))) (rbMessageCount batch))
        (body @ rbBytes batch) (i32 (totalMessages + rbMessageCount batch)))"

definition BuildSegment :: "segment_cfg \<Rightarrow> record_batch list \<Rightarrow> time \<Rightarrow> segment_artifact outcome" where
  "BuildSegment cfg batches created =
     (if batches = [] then Err (ErrText ''no batches to serialize'')
      else
        let lastOffset = i64 (rbBaseOffset (last batches) + rbLastOffsetDelta (last batches))
        in bindO (build_body batches (NewIndexBuilder (IndexIntervalMessages cfg)) [] 0)
             (\<lambda>(index, bodyBytes, totalMessages).
               bindO (BuildBytes index) (\<lambda>indexBytes.
                 Ok \<lparr>saBaseOffset = rbBaseOffset (hd batches),
                     saLastOffset = lastOffset,
                     saMessageCount = totalMessages,
                     saCreatedAt = created,
                     saSegmentBytes = buildHeader (rbBaseOffset (hd batches)) totalMessages created
                                      @ bodyBytes @ buildFooter (crc32c bodyBytes) lastOffset,
                     saIndexBytes = indexBytes,
                     saRelativeIndex = Entries index\<rparr>)))"

definition parseSegmentFooter :: "bytes \<Rightarrow> int outcome" where
  "parseSegmentFooter data =
     (if length data < segmentFooterLen then Err (ErrText ''footer too small'')
      else
        bindO (binary_Read 4 data) (\<lambda>(crc, r).
        bindO (binary_Read 8 r) (\<lambda>(lastOffset, r).
          if take 4 r \<noteq> footerMagic then Err (ErrText ''invalid footer magic'')
          else Ok (i64 (ube lastOffset)))))"

section \<open>Layout and round trips\<close>

lemma binary_Read_append [codec_simps]: "length a = n \<Longrightarrow> binary_Read n (a @ r) = Ok (a, r)"
  by (simp add: binary_Read_def)

lemma length_entry_bytes [simp]: "length (entry_bytes e) = 12"
  by (simp add: entry_bytes_def)

definition entry_ok :: "index_entry \<Rightarrow> bool" where
  "entry_ok e \<longleftrightarrow> in_i64 (ieOffset e) \<and> in_i32 (iePosition e)"

lemma parse_entries_bytes:
  assumes "\<forall>e \<in> set es. entry_ok e"
  shows "parse_entries (length es) (concat (map entry_bytes es) @ r) = Ok es"
  using assms
proof (induction es)
  case (Cons e es)
  then have "parse_entries (length es) (concat (map entry_bytes es) @ r) = Ok es" by simp
  with Cons.prems show ?case
    by (simp add: entry_bytes_def [of e] entry_ok_def codec_simps)
qed simp

lemma ParseIndex_BuildBytes:
  assumes "\<forall>e \<in> set (ibEntries b). entry_ok e" "int (length (ibEntries b)) < 2 ^ 31"
  shows "bindO (BuildBytes b) ParseIndex = Ok (ibEntries b)"
proof -
  have n: "in_i32 (int (length (ibEntries b)))"
    using assms(2) by (simp add: in_i32_def)
  have "parse_entries (length (ibEntries b)) (concat (map entry_bytes (ibEntries b))) = Ok (ibEntries b)"
    using parse_entries_bytes [OF assms(1), of "[]"] by simp
  moreover have "ube (be 2 1) = 1" by (simp add: ube_be)
  ultimately show ?thesis
    using n by (simp add: BuildBytes_def ParseIndex_def indexMagic_def codec_simps del: be.simps)
qed

lemma length_buildHeader [simp]: "length (buildHeader b n t) = segmentHeaderLen"
  by (simp add: buildHeader_def segmentMagic_def segmentHeaderLen_def)

lemma length_buildFooter [simp]: "length (buildFooter c l) = segmentFooterLen"
  by (simp add: buildFooter_def footerMagic_def segmentFooterLen_def)

lemma parseSegmentFooter_buildFooter [codec_simps]:
  "in_i64 l \<Longrightarrow> parseSegmentFooter (buildFooter crc l) = Ok l"
  by (simp add: parseSegmentFooter_def buildFooter_def codec_simps footerMagic_def segmentFooterLen_def
      del: be.simps)

section \<open>What the index of a segment points to\<close>

text \<open>
  \<open>batch_pos base bs k\<close> is where the bytes of batch \<open>k\<close> start when the batches \<open>bs\<close> are
  written from position \<open>base\<close> on.
\<close>

definition batch_pos :: "nat \<Rightarrow> record_batch list \<Rightarrow> nat \<Rightarrow> nat" where
  "batch_pos base bs k = base + length (concat (map rbBytes (take k bs)))"

definition batch_entry :: "nat \<Rightarrow> record_batch list \<Rightarrow> nat \<Rightarrow> index_entry" where
  "batch_entry base bs k =
     \<lparr>ieOffset = rbBaseOffset (bs ! k), iePosition = i32 (int (batch_pos base bs k))\<rparr>"

lemma batch_entry_Cons_Suc:
  "batch_entry base (b # bs) (Suc k) = batch_entry (base + length (rbBytes b)) bs k"
  by (simp add: batch_entry_def batch_pos_def add.assoc)

lemma batch_entry_0:
  "batch_entry base (b # bs) 0 = \<lparr>ieOffset = rbBaseOffset b, iePosition = i32 (int base)\<rparr>"
  by (simp add: batch_entry_def batch_pos_def)

lemma MaybeAdd_entries:
  "ibEntries (MaybeAdd b off pos n) =
     ibEntries b @ (if ibEntries b = [] \<or> ibSinceLast b \<ge> ibInterval b
                    then [\<lparr>ieOffset = off, iePosition = pos\<rparr>] else [])"
  by (simp add: MaybeAdd_def Let_def)

lemma MaybeAdd_interval [simp]: "ibInterval (MaybeAdd b off pos n) = ibInterval b"
  by (simp add: MaybeAdd_def Let_def)

lemma build_body_Ok:
  assumes "build_body bs idx body n = Ok (idx', body', n')"
  shows "body' = body @ concat (map rbBytes bs)" and "\<forall>b \<in> set bs. rbBytes b \<noteq> []"
  using assms by (induction bs idx body n rule: build_body.induct) (auto split: if_splits)

lemma build_body_total:
  assumes "\<forall>b \<in> set bs. rbBytes b \<noteq> []"
  shows "\<exists>idx' n'. build_body bs idx body n = Ok (idx', body @ concat (map rbBytes bs), n')"
  using assms by (induction bs idx body n rule: build_body.induct) auto

lemma build_body_index:
  assumes "build_body bs idx body n = Ok (idx', body', n')"
  shows "\<exists>ks. sorted_wrt (<) ks \<and> set ks \<subseteq> {..<length bs} \<and>
           ibEntries idx' = ibEntries idx @ map (batch_entry (segmentHeaderLen + length body) bs) ks \<and>
           (ibEntries idx = [] \<and> bs \<noteq> [] \<longrightarrow> ks \<noteq> [] \<and> hd ks = 0)"
  using assms
proof (induction bs arbitrary: idx body n)
  case Nil
  then show ?case by (intro exI [of _ "[]"]) simp
next
  case (Cons b bs)
  define base where "base = segmentHeaderLen + length body"
  define idx1 where "idx1 = MaybeAdd idx (rbBaseOffset b) (i32 (int base)) (rbMessageCount b)"
  from Cons.prems have "build_body bs idx1 (body @ rbBytes b) (i32 (n + rbMessageCount b)) = Ok (idx', body', n')"
    by (auto simp: idx1_def base_def split: if_splits)
  from Cons.IH [OF this] obtain ks where ks:
    "sorted_wrt (<) ks" "set ks \<subseteq> {..<length bs}"
    "ibEntries idx' = ibEntries idx1 @ map (batch_entry (base + length (rbBytes b)) bs) ks"
    by (auto simp: base_def add.assoc)
  define new where "new = (ibEntries idx = [] \<or> ibSinceLast idx \<ge> ibInterval idx)"
  define ks' where "ks' = (if new then [0] else []) @ map Suc ks"
  have "sorted_wrt (<) ks'"
    using ks(1) by (auto simp: ks'_def sorted_wrt_map)
  moreover have "set ks' \<subseteq> {..<length (b # bs)}"
    using ks(2) by (auto simp: ks'_def)
  moreover have "ibEntries idx' = ibEntries idx @ map (batch_entry base (b # bs)) ks'"
    using ks(3) by (auto simp: idx1_def MaybeAdd_entries ks'_def new_def batch_entry_0 batch_entry_Cons_Suc)
  moreover have "ibEntries idx = [] \<longrightarrow> ks' \<noteq> [] \<and> hd ks' = 0"
    by (simp add: ks'_def new_def)
  ultimately show ?case unfolding base_def by blast
qed

lemma BuildSegment_Ok:
  assumes "BuildSegment cfg bs t = Ok a"
  shows "bs \<noteq> []" "\<forall>b \<in> set bs. rbBytes b \<noteq> []"
    and "saBaseOffset a = rbBaseOffset (hd bs)"
    and "saLastOffset a = i64 (rbBaseOffset (last bs) + rbLastOffsetDelta (last bs))"
    and "saSegmentBytes a = buildHeader (rbBaseOffset (hd bs)) (saMessageCount a) t
           @ concat (map rbBytes bs) @ buildFooter (crc32c (concat (map rbBytes bs))) (saLastOffset a)"
    and "\<exists>ks. sorted_wrt (<) ks \<and> set ks \<subseteq> {..<length bs} \<and> ks \<noteq> [] \<and> hd ks = 0 \<and>
           saRelativeIndex a = map (batch_entry segmentHeaderLen bs) ks"
    and "\<exists>idx. BuildBytes idx = Ok (saIndexBytes a) \<and> ibEntries idx = saRelativeIndex a"
proof -
  from assms show ne: "bs \<noteq> []" by (auto simp: BuildSegment_def split: if_splits)
  with assms obtain idx body n ib where body:
      "build_body bs (NewIndexBuilder (IndexIntervalMessages cfg)) [] 0 = Ok (idx, body, n)"
    and ib: "BuildBytes idx = Ok ib"
    and a: "a = \<lparr>saBaseOffset = rbBaseOffset (hd bs),
        saLastOffset = i64 (rbBaseOffset (last bs) + rbLastOffsetDelta (last bs)),
        saMessageCount = n, saCreatedAt = t,
        saSegmentBytes = buildHeader (rbBaseOffset (hd bs)) n t @ body
          @ buildFooter (crc32c body) (i64 (rbBaseOffset (last bs) + rbLastOffsetDelta (last bs))),
        saIndexBytes = ib, saRelativeIndex = Entries idx\<rparr>"
    by (auto simp: BuildSegment_def Let_def)
  note b = build_body_Ok [OF body]
  from b show "\<forall>b \<in> set bs. rbBytes b \<noteq> []" by simp
  show "saBaseOffset a = rbBaseOffset (hd bs)"
    and "saLastOffset a = i64 (rbBaseOffset (last bs) + rbLastOffsetDelta (last bs))"
    by (simp_all add: a)
  show "saSegmentBytes a = buildHeader (rbBaseOffset (hd bs)) (saMessageCount a) t
      @ concat (map rbBytes bs) @ buildFooter (crc32c (concat (map rbBytes bs))) (saLastOffset a)"
    using b(1) by (simp add: a)
  show "\<exists>ks. sorted_wrt (<) ks \<and> set ks \<subseteq> {..<length bs} \<and> ks \<noteq> [] \<and> hd ks = 0 \<and>
      saRelativeIndex a = map (batch_entry segmentHeaderLen bs) ks"
    using build_body_index [OF body] ne by (auto simp: a NewIndexBuilder_def Entries_def)
  show "\<exists>idx. BuildBytes idx = Ok (saIndexBytes a) \<and> ibEntries idx = saRelativeIndex a"
    using ib by (auto simp: a Entries_def)
qed

lemma BuildSegment_total:
  assumes "bs \<noteq> []" "\<forall>b \<in> set bs. rbBytes b \<noteq> []"
  shows "\<exists>a. BuildSegment cfg bs t = Ok a"
  using assms build_body_total [OF assms(2), of "NewIndexBuilder (IndexIntervalMessages cfg)" "[]" 0]
  by (auto simp: BuildSegment_def Let_def BuildBytes_def)

section \<open>Properties of the format\<close>

lemma length_concat_take_le:
  "length (concat (map rbBytes (take k bs))) + length (concat (map rbBytes (drop k bs))) = length (concat (map rbBytes bs))"
  by (metis append_take_drop_id concat_append length_append map_append)

lemma length_le_concat: "\<forall>b \<in> set bs. rbBytes b \<noteq> [] \<Longrightarrow> length bs \<le> length (concat (map rbBytes bs))"
proof (induction bs)
  case (Cons b bs)
  have "0 < length (rbBytes b)" using Cons.prems by simp
  moreover have "length bs \<le> length (concat (map rbBytes bs))" using Cons by simp
  ultimately show ?case by (simp del: length_greater_0_conv length_concat)
qed simp

text \<open>
  C14: a segment that is built can be read back: its footer gives the last offset, its index parses
  to the entries kept in memory, and every index entry carries the base offset of a batch and the
  exact position of the bytes of that batch in the segment object; the first batch is always
  indexed.
\<close>

theorem segment_readable:
  assumes a: "BuildSegment cfg bs t = Ok a"
    and small: "int (length (saSegmentBytes a)) < 2 ^ 31" and offs: "\<forall>b \<in> set bs. in_i64 (rbBaseOffset b)"
  shows "parseSegmentFooter (drop (length (saSegmentBytes a) - segmentFooterLen) (saSegmentBytes a)) = Ok (saLastOffset a) \<and>
    ParseIndex (saIndexBytes a) = Ok (saRelativeIndex a) \<and>
    saRelativeIndex a \<noteq> [] \<and> ieOffset (hd (saRelativeIndex a)) = saBaseOffset a \<and>
    (\<forall>e \<in> set (saRelativeIndex a). \<exists>k < length bs. ieOffset e = rbBaseOffset (bs ! k) \<and>
       take (length (rbBytes (bs ! k))) (drop (nat (iePosition e)) (saSegmentBytes a)) = rbBytes (bs ! k))"
proof -
  define H where "H = buildHeader (rbBaseOffset (hd bs)) (saMessageCount a) t"
  define F where "F = buildFooter (crc32c (concat (map rbBytes bs))) (saLastOffset a)"
  have bytes: "saSegmentBytes a = (H @ concat (map rbBytes bs)) @ F"
    using BuildSegment_Ok(5) [OF a] by (simp add: H_def F_def)
  have HF: "length H = segmentHeaderLen" "length F = segmentFooterLen" by (simp_all add: H_def F_def)
  obtain ks where ks: "sorted_wrt (<) ks" "set ks \<subseteq> {..<length bs}" "ks \<noteq> []" "hd ks = 0"
    "saRelativeIndex a = map (batch_entry segmentHeaderLen bs) ks" using BuildSegment_Ok(6) [OF a] by blast
  have pos: "iePosition (batch_entry segmentHeaderLen bs k) = int (batch_pos segmentHeaderLen bs k)" for k
  proof -
    have "batch_pos segmentHeaderLen bs k \<le> length (saSegmentBytes a)"
      using length_concat_take_le [of k bs] HF by (simp add: bytes batch_pos_def)
    then show ?thesis using small by (simp add: batch_entry_def i32_id in_i32_def)
  qed
  have "drop (length (saSegmentBytes a) - segmentFooterLen) (saSegmentBytes a) = F"
    using HF by (simp add: bytes)
  moreover have "in_i64 (saLastOffset a)" using BuildSegment_Ok(4) [OF a] by simp
  ultimately have "parseSegmentFooter (drop (length (saSegmentBytes a) - segmentFooterLen) (saSegmentBytes a)) = Ok (saLastOffset a)"
    by (simp add: F_def codec_simps)
  moreover have "ParseIndex (saIndexBytes a) = Ok (saRelativeIndex a)"
  proof -
    have "length bs \<le> length (concat (map rbBytes bs))"
      using BuildSegment_Ok(2) [OF a] by (rule length_le_concat)
    moreover have "length ks \<le> length bs"
      using ks(1,2) by (metis card_lessThan card_mono distinct_card finite_lessThan strict_sorted_iff)
    ultimately have "int (length (saRelativeIndex a)) < 2 ^ 31" using small ks(5) by (simp add: bytes)
    moreover have "\<forall>e \<in> set (saRelativeIndex a). entry_ok e"
      using ks(2,5) offs by (auto simp: entry_ok_def batch_entry_def subset_eq)
    moreover obtain ib where "BuildBytes ib = Ok (saIndexBytes a)" "ibEntries ib = saRelativeIndex a"
      using BuildSegment_Ok(7) [OF a] by blast
    ultimately show ?thesis using ParseIndex_BuildBytes [of ib] by simp
  qed
  moreover have "ieOffset (hd (saRelativeIndex a)) = saBaseOffset a"
    using ks(3-5) BuildSegment_Ok(1,3) [OF a] by (simp add: hd_map batch_entry_def hd_conv_nth)
  moreover have "take (length (rbBytes (bs ! k))) (drop (batch_pos segmentHeaderLen bs k) (saSegmentBytes a)) = rbBytes (bs ! k)"
    if "k < length bs" for k
  proof -
    have "concat (map rbBytes bs) = concat (map rbBytes (take k bs)) @ rbBytes (bs ! k) @ concat (map rbBytes (drop (Suc k) bs))"
      using id_take_nth_drop [OF that] by (metis concat.simps(2) concat_append list.simps(9) map_append)
    then show ?thesis using HF by (simp add: bytes batch_pos_def)
  qed
  ultimately show ?thesis using ks(2,3,5) by (auto simp: pos) (auto simp: batch_entry_def)
qed

definition demo_batches :: "record_batch list" where
  "demo_batches = [\<lparr>rbBaseOffset = 5, rbLastOffsetDelta = 1, rbMessageCount = 2, rbBytes = [1, 2, 3]\<rparr>,
     \<lparr>rbBaseOffset = 7, rbLastOffsetDelta = 0, rbMessageCount = 1, rbBytes = [4]\<rparr>]"

theorem segment_readable_witness:
  "\<exists>a. BuildSegment \<lparr>IndexIntervalMessages = 1\<rparr> demo_batches 0 = Ok a \<and> saLastOffset a = 7 \<and>
     ParseIndex (saIndexBytes a) = Ok (saRelativeIndex a) \<and>
     parseSegmentFooter (drop (length (saSegmentBytes a) - 16) (saSegmentBytes a)) = Ok 7"
proof -
  obtain a where a: "BuildSegment \<lparr>IndexIntervalMessages = 1\<rparr> demo_batches 0 = Ok a"
    using BuildSegment_total [of demo_batches] by (auto simp: demo_batches_def)
  have "saLastOffset a = 7" using BuildSegment_Ok(4) [OF a] by (simp add: demo_batches_def i64_id in_i64_def)
  moreover have "length (saSegmentBytes a) = 52"
    unfolding BuildSegment_Ok(5) [OF a] by (simp add: demo_batches_def segmentHeaderLen_def segmentFooterLen_def)
  ultimately show ?thesis
    using segment_readable [OF a] a by (auto simp: demo_batches_def in_i64_def segmentFooterLen_def)
qed

text \<open>
  A record set as a producer sends it: batches of at least a header, each with the length of what
  follows its first twelve bytes at position 8.
\<close>

definition frame_ok :: "bytes \<Rightarrow> bool" where
  "frame_ok f \<longleftrightarrow> recordBatchHeaderMinSize \<le> length f \<and> u32_at f 8 = int (length f) - 12"

lemma u32_at_append: "i + 4 \<le> length f \<Longrightarrow> u32_at (pre @ f @ post) (length pre + i) = u32_at f i"
  by (simp add: u32_at_def)

lemma count_frames_concat:
  assumes "\<forall>f \<in> set fs. frame_ok f"
  shows "count_frames (pre @ concat fs) (length pre) n = foldl (\<lambda>n f. i64 (n + u32_at f 57)) n fs"
  using assms
proof (induction fs arbitrary: pre n)
  case Nil
  then show ?case by (simp add: count_frames.simps)
next
  case (Cons f fs)
  have f: "61 \<le> length f" "u32_at f 8 = int (length f) - 12"
    using Cons.prems by (simp_all add: frame_ok_def recordBatchHeaderMinSize_def)
  then have "nat (u32_at f 8) = length f - 12" by simp
  moreover have "u32_at (pre @ f @ concat fs) (length pre + 8) = u32_at f 8"
    "u32_at (pre @ f @ concat fs) (length pre + 57) = u32_at f 57"
    using f(1) by (simp_all add: u32_at_append)
  moreover have "count_frames ((pre @ f) @ concat fs) (length (pre @ f)) (i64 (n + u32_at f 57)) =
      foldl (\<lambda>n f. i64 (n + u32_at f 57)) (i64 (n + u32_at f 57)) fs"
    using Cons.IH [of "pre @ f" "i64 (n + u32_at f 57)"] Cons.prems by simp
  ultimately show ?case
    using f(1) by (simp add: count_frames.simps [of "pre @ f @ concat fs" "length pre"] Let_def recordBatchHeaderMinSize_def)
qed

text \<open>
  The message count of a well-formed record set is the sum of the record counts in the headers
  of its batches, whatever number of batches it holds.
\<close>

theorem count_messages_sum:
  assumes "\<forall>f \<in> set fs. frame_ok f"
  shows "CountRecordBatchMessages (concat fs) = i64 (\<Sum>f\<leftarrow>fs. u32_at f 57)"
proof -
  have fold: "foldl (\<lambda>n f. i64 (n + u32_at f 57)) (i64 m) fs = i64 (m + (\<Sum>f\<leftarrow>fs. u32_at f 57))" for m
    by (induction fs arbitrary: m) (simp_all add: add.assoc)
  have "fs = [] \<or> recordBatchHeaderMinSize \<le> length (concat fs)"
    using assms by (cases fs) (auto simp: frame_ok_def)
  moreover have "i64 0 = 0" by (simp add: i64_def wrapS_def)
  ultimately show ?thesis
    using count_frames_concat [OF assms, of "[]" 0] fold [of 0]
    by (auto simp: CountRecordBatchMessages_def recordBatchHeaderMinSize_def)
qed

theorem count_messages_sum_witness:
  "let f = replicate 8 0 @ [0, 0, 0, 49] @ replicate 45 0 @ [0, 0, 0, 3] in
     frame_ok f \<and> CountRecordBatchMessages (f @ f) = 6"
proof -
  let ?f = "replicate 8 0 @ [0, 0, 0, 49] @ replicate 45 0 @ [0, 0, 0, 3] :: bytes"
  have ok: "frame_ok ?f" by code_simp
  have "u32_at ?f 57 = 3" by code_simp
  with count_messages_sum [of "[?f, ?f]"] ok have "CountRecordBatchMessages (?f @ ?f) = 6" by (simp add: i64_id in_i64_def)
  with ok show ?thesis by (simp only: Let_def simp_thms)
qed

end
