(* ===== verification/Write_Buffer.thy ===== *)
theory Write_Buffer
  imports Segment_Format
begin

text \<open>
  The write buffer of a partition (\<open>storage/buffer.go\<close>): batches accumulate until a size,
  message, batch or age threshold asks for a flush. The mutex makes each method atomic; the clock
  is an argument.
\<close>

record write_buffer_cfg =
  MaxBytes :: int
  MaxMessages :: int
  MaxBatches :: int
  FlushInterval :: duration

record write_buffer =
  wbCfg :: write_buffer_cfg
  wbBatches :: "record_batch list"
  wbSizeBytes :: int
  wbMessageCount :: int
  wbLastFlush :: time

definition NewWriteBuffer :: "write_buffer_cfg \<Rightarrow> time \<Rightarrow> write_buffer" where
  "NewWriteBuffer cfg now =
     \<lparr>wbCfg = cfg, wbBatches = [], wbSizeBytes = 0, wbMessageCount = 0, wbLastFlush = now\<rparr>"

definition bufAppend :: "record_batch \<Rightarrow> write_buffer \<Rightarrow> write_buffer" where
  "bufAppend batch b =
     b\<lparr>wbBatches := wbBatches b @ [batch],
       wbSizeBytes := i64 (wbSizeBytes b + int (length (rbBytes batch))),
       wbMessageCount := i64 (wbMessageCount b + rbMessageCount batch)\<rparr>"

definition ShouldFlush :: "write_buffer \<Rightarrow> time \<Rightarrow> bool" where
  "ShouldFlush b now =
     (if wbSizeBytes b = 0 then False
      else if MaxBytes (wbCfg b) > 0 \<and> wbSizeBytes b \<ge> MaxBytes (wbCfg b) then True
      else if MaxMessages (wbCfg b) > 0 \<and> wbMessageCount b \<ge> MaxMessages (wbCfg b) then True
      else if MaxBatches (wbCfg b) > 0 \<and> int (length (wbBatches b)) \<ge> MaxBatches (wbCfg b) then True
      else if FlushInterval (wbCfg b) > 0 \<and> timeSub now (wbLastFlush b) \<ge> FlushInterval (wbCfg b) then True
      else False)"

definition Drain :: "write_buffer \<Rightarrow> time \<Rightarrow> record_batch list \<times> write_buffer" where
  "Drain b now =
     (wbBatches b,
      b\<lparr>wbBatches := [], wbSizeBytes := 0, wbMessageCount := 0, wbLastFlush := now\<rparr>)"

definition bufSize :: "write_buffer \<Rightarrow> int" where
  "bufSize b = wbSizeBytes b"

section \<open>The counters follow the batches\<close>

definition wb_inv :: "write_buffer \<Rightarrow> bool" where
  "wb_inv b \<longleftrightarrow>
     wbSizeBytes b = i64 (\<Sum>x\<leftarrow>wbBatches b. int (length (rbBytes x))) \<and>
     wbMessageCount b = i64 (\<Sum>x\<leftarrow>wbBatches b. rbMessageCount x)"

lemma i64_0 [simp]: "i64 0 = 0"
  by (simp add: i64_def wrapS_def)

lemma wb_inv_New [simp]: "wb_inv (NewWriteBuffer cfg now)"
  by (simp add: wb_inv_def NewWriteBuffer_def)

lemma wb_inv_Append [simp]: "wb_inv b \<Longrightarrow> wb_inv (bufAppend batch b)"
  by (simp add: wb_inv_def bufAppend_def)

lemma wb_inv_Drain [simp]: "wb_inv (snd (Drain b now))"
  by (simp add: wb_inv_def Drain_def)

section \<open>The contract of a batch queue\<close>

text \<open>
  What the partition log relies on: an append adds one batch at the end, a drain hands over
  everything in order and leaves the queue empty.
\<close>

locale batch_queue =
  fixes app :: "'b \<Rightarrow> 'q \<Rightarrow> 'q"
    and drain :: "'q \<Rightarrow> time \<Rightarrow> 'b list \<times> 'q"
    and items :: "'q \<Rightarrow> 'b list"
    and inv :: "'q \<Rightarrow> bool"
  assumes items_app: "inv q \<Longrightarrow> items (app x q) = items q @ [x]"
    and drain_items: "inv q \<Longrightarrow> fst (drain q now) = items q"
    and drain_empty: "inv q \<Longrightarrow> items (snd (drain q now)) = []"
    and inv_app: "inv q \<Longrightarrow> inv (app x q)"
    and inv_drain: "inv q \<Longrightarrow> inv (snd (drain q now))"
begin

lemma inv_fold: "inv q \<Longrightarrow> inv (fold app xs q)"
  by (induction xs arbitrary: q) (auto simp: inv_app)

lemma items_fold: "inv q \<Longrightarrow> items (fold app xs q) = items q @ xs"
  by (induction xs arbitrary: q) (auto simp: items_app inv_app)

lemma drain_after_drain:
  assumes "inv q"
  shows "fst (drain (fold app xs (snd (drain q t))) t') = xs"
  using assms by (simp add: drain_items inv_fold items_fold drain_empty inv_drain)

end

interpretation wbuf: batch_queue bufAppend Drain wbBatches wb_inv
  by unfold_locales (auto simp: bufAppend_def Drain_def wb_inv_def)

text \<open>
  Between two drains the buffer loses, duplicates and reorders nothing: whatever the state
  the buffer was drained in, the next drain returns the batches appended since, in order, and
  the byte and message counters at that moment are the (wrapped) totals of those batches.
\<close>

theorem buffer_drain_exact:
  assumes "wb_inv b"
  shows "let b' = fold bufAppend xs (snd (Drain b t)) in
           fst (Drain b' t') = xs \<and>
           bufSize b' = i64 (\<Sum>x\<leftarrow>xs. int (length (rbBytes x))) \<and>
           wbMessageCount b' = i64 (\<Sum>x\<leftarrow>xs. rbMessageCount x)"
proof -
  let ?b' = "fold bufAppend xs (snd (Drain b t))"
  have "wb_inv ?b'"
    by (rule wbuf.inv_fold) simp
  moreover have "wbBatches ?b' = xs"
    using wbuf.items_fold [of "snd (Drain b t)" xs] by (simp add: Drain_def wb_inv_def)
  ultimately show ?thesis
    using wbuf.drain_after_drain [OF assms] by (simp add: Let_def bufSize_def wb_inv_def)
qed

theorem buffer_drain_exact_witness:
  "let b = NewWriteBuffer \<lparr>MaxBytes = 100, MaxMessages = 0, MaxBatches = 0, FlushInterval = 0\<rparr> 5;
       x = \<lparr>rbBaseOffset = 0, rbLastOffsetDelta = 2, rbMessageCount = 3, rbBytes = [7, 8]\<rparr>;
       b' = fold bufAppend [x, x] (snd (Drain (bufAppend x b) 6)) in
     wb_inv (bufAppend x b) \<and> fst (Drain b' 9) = [x, x] \<and> bufSize b' = 4 \<and> wbMessageCount b' = 6"
  using buffer_drain_exact [of "bufAppend \<lparr>rbBaseOffset = 0, rbLastOffsetDelta = 2, rbMessageCount = 3, rbBytes = [7, 8]\<rparr>
       (NewWriteBuffer \<lparr>MaxBytes = 100, MaxMessages = 0, MaxBatches = 0, FlushInterval = 0\<rparr> 5)"
     "[\<lparr>rbBaseOffset = 0, rbLastOffsetDelta = 2, rbMessageCount = 3, rbBytes = [7, 8]\<rparr>,
       \<lparr>rbBaseOffset = 0, rbLastOffsetDelta = 2, rbMessageCount = 3, rbBytes = [7, 8]\<rparr>]" 6 9]
  by (simp add: Let_def i64_id in_i64_def)

end
