(* ===== verification/Segment_Cache.thy ===== *)
theory Segment_Cache
  imports Go_Base
begin

text \<open>
  The LRU cache of segment bytes (\<open>cache/segment_cache.go\<close>). The list \<open>ll\<close> holds the entries,
  the most recently used first; \<open>items\<close> is the set of keys of the Go map, kept as a list, and the
  list element a key leads to is the entry of \<open>ll\<close> with that key (\<open>cache_inv\<close> shows that there
  is exactly one). The sizes are sums of lengths of byte slices in memory and stay far below the
  64-bit range, so no wrap-around is written.
\<close>

record cache_entry =
  ceKey :: string
  ceTopic :: string
  cePartition :: int
  ceBaseOffset :: int
  ceData :: bytes

record segment_cache =
  scCapacity :: int
  scSize :: int
  scLL :: "cache_entry list"
  scItems :: "string list"

definition NewSegmentCache :: "int \<Rightarrow> segment_cache" where
  "NewSegmentCache capacityBytes =
     \<lparr>scCapacity = (if capacityBytes \<le> 0 then 1 else capacityBytes),
      scSize = 0, scLL = [], scItems = []\<rparr>"

definition makeKey :: "string \<Rightarrow> int \<Rightarrow> int \<Rightarrow> string" where
  "makeKey topic part baseOffset = topic @ '':'' @ fmt_d part @ '':'' @ fmt_d baseOffset"

definition find_entry :: "string \<Rightarrow> cache_entry list \<Rightarrow> cache_entry option" where
  "find_entry key ll = List.find (\<lambda>e. ceKey e = key) ll"

text \<open>\<open>ll.MoveToFront(elem)\<close> for the element of \<open>key\<close>.\<close>

definition move_to_front :: "cache_entry \<Rightarrow> cache_entry list \<Rightarrow> cache_entry list" where
  "move_to_front e ll = e # filter (\<lambda>x. ceKey x \<noteq> ceKey e) ll"

definition GetSegment :: "segment_cache \<Rightarrow> string \<Rightarrow> int \<Rightarrow> int \<Rightarrow> bytes option \<times> segment_cache" where
  "GetSegment c topic part baseOffset =
     (let key = makeKey topic part baseOffset in
      if key \<in> set (scItems c) then
        (case find_entry key (scLL c) of
           Some e \<Rightarrow> (Some (ceData e), c\<lparr>scLL := move_to_front e (scLL c)\<rparr>)
         | None \<Rightarrow> (None, c))
      else (None, c))"

fun evictIfNeeded :: "int \<Rightarrow> int \<Rightarrow> cache_entry list \<Rightarrow> string list \<Rightarrow> int \<times> cache_entry list \<times> string list" where
  "evictIfNeeded capacity sz ll items =
     (if sz > capacity \<and> ll \<noteq> [] then
        let entry = last ll
        in evictIfNeeded capacity (sz - int (length (ceData entry))) (butlast ll)
             (removeAll (ceKey entry) items)
      else (sz, ll, items))"

declare evictIfNeeded.simps [simp del]

lemma evictIfNeeded_stop: "sz \<le> capacity \<Longrightarrow> evictIfNeeded capacity sz ll items = (sz, ll, items)"
  by (simp add: evictIfNeeded.simps)

lemma evictIfNeeded_step:
  "capacity < sz \<Longrightarrow> evictIfNeeded capacity sz (x # xs) items =
     evictIfNeeded capacity (sz - int (length (ceData (last (x # xs))))) (butlast (x # xs))
       (removeAll (ceKey (last (x # xs))) items)"
  by (simp add: evictIfNeeded.simps [of capacity sz] Let_def)

definition evict :: "segment_cache \<Rightarrow> segment_cache" where
  "evict c = (case evictIfNeeded (scCapacity c) (scSize c) (scLL c) (scItems c) of
     (sz, ll, items) \<Rightarrow> c\<lparr>scSize := sz, scLL := ll, scItems := items\<rparr>)"

definition SetSegment :: "string \<Rightarrow> int \<Rightarrow> int \<Rightarrow> bytes \<Rightarrow> segment_cache \<Rightarrow> segment_cache" where
  "SetSegment topic part baseOffset data c =
     (let key = makeKey topic part baseOffset in
      case (if key \<in> set (scItems c) then find_entry key (scLL c) else None) of
        Some e \<Rightarrow>
          let e' = e\<lparr>ceData := data\<rparr>
          in evict (c\<lparr>scSize := scSize c - int (length (ceData e)) + int (length data),
                      scLL := move_to_front e' (scLL c)\<rparr>)
      | None \<Rightarrow>
          let entry = \<lparr>ceKey = key, ceTopic = topic, cePartition = part,
                       ceBaseOffset = baseOffset, ceData = data\<rparr>
          in evict (c\<lparr>scLL := entry # scLL c,
                      scItems := scItems c @ [key],
                      scSize := scSize c + int (length data)\<rparr>))"

section \<open>Invariant\<close>

definition data_size :: "cache_entry list \<Rightarrow> int" where
  "data_size ll = (\<Sum>e\<leftarrow>ll. int (length (ceData e)))"

text \<open>
  List and map hold the same keys, once each; the size is the total of the cached bytes.
  \<open>cache_inv\<close> adds that the cache is within its capacity, which holds between the calls.
\<close>

definition cache_shape :: "segment_cache \<Rightarrow> bool" where
  "cache_shape c \<longleftrightarrow>
     distinct (map ceKey (scLL c)) \<and> distinct (scItems c) \<and>
     set (scItems c) = ceKey ` set (scLL c) \<and>
     scSize c = data_size (scLL c) \<and> 0 < scCapacity c"

definition cache_inv :: "segment_cache \<Rightarrow> bool" where
  "cache_inv c \<longleftrightarrow> cache_shape c \<and> scSize c \<le> scCapacity c"

lemma data_size_simps [simp]:
  "data_size [] = 0"
  "data_size (e # ll) = int (length (ceData e)) + data_size ll"
  "data_size (xs @ ys) = data_size xs + data_size ys"
  by (simp_all add: data_size_def)

lemma data_size_nonneg [simp]: "0 \<le> data_size ll"
  by (induction ll) auto

lemma find_entry_Some:
  "find_entry k ll = Some e \<Longrightarrow> e \<in> set ll \<and> ceKey e = k"
  by (auto simp: find_entry_def find_Some_iff)

lemma find_entry_iff:
  assumes "distinct (map ceKey ll)"
  shows "find_entry k ll = Some e \<longleftrightarrow> e \<in> set ll \<and> ceKey e = k"
  using assms by (induction ll) (auto simp: find_entry_def)

lemma find_entry_None: "find_entry k ll = None \<longleftrightarrow> k \<notin> ceKey ` set ll"
  by (auto simp: find_entry_def find_None_iff)

lemma data_size_filter_key:
  assumes "distinct (map ceKey ll)" "e \<in> set ll"
  shows "data_size (filter (\<lambda>x. ceKey x \<noteq> ceKey e) ll) = data_size ll - int (length (ceData e))"
  using assms
proof (induction ll)
  case (Cons x ll)
  show ?case
  proof (cases "x = e")
    case True
    with Cons.prems have "filter (\<lambda>x. ceKey x \<noteq> ceKey e) ll = ll"
      by (intro filter_True) (auto simp: image_iff)
    with True show ?thesis by simp
  next
    case False
    with Cons.prems have "ceKey x \<noteq> ceKey e" by auto
    with False Cons show ?thesis by simp
  qed
qed simp

lemma keys_filter: "ceKey ` set (filter (\<lambda>x. ceKey x \<noteq> k) ll) = ceKey ` set ll - {k}"
  by auto

lemma distinct_keys_filter: "distinct (map ceKey ll) \<Longrightarrow> distinct (map ceKey (filter P ll))"
  by (simp add: distinct_map_filter)

text \<open>What the eviction loop keeps: the longest prefix of the list that fits.\<close>

definition lru_kept :: "int \<Rightarrow> cache_entry list \<Rightarrow> cache_entry list \<Rightarrow> bool" where
  "lru_kept cap ll ll' \<longleftrightarrow>
     (\<exists>rest. ll = ll' @ rest \<and> data_size ll' \<le> cap \<and>
             (rest \<noteq> [] \<longrightarrow> cap < data_size (ll' @ [hd rest])))"

lemma lru_kept_snoc:
  assumes "lru_kept cap xs ll'" "cap < data_size (xs @ [x])"
  shows "lru_kept cap (xs @ [x]) ll'"
proof -
  from assms(1) obtain rest where r: "xs = ll' @ rest" "data_size ll' \<le> cap"
    "rest \<noteq> [] \<longrightarrow> cap < data_size (ll' @ [hd rest])"
    by (auto simp: lru_kept_def)
  with assms(2) have "cap < data_size (ll' @ [hd (rest @ [x])])"
    by (cases rest) auto
  with r show ?thesis unfolding lru_kept_def by (intro exI [of _ "rest @ [x]"]) auto
qed

lemma evictIfNeeded_kept:
  assumes "distinct (map ceKey ll)" "set items = ceKey ` set ll" "distinct items"
    and "sz = data_size ll" "0 < cap"
    and "evictIfNeeded cap sz ll items = (sz', ll', items')"
  shows "lru_kept cap ll ll' \<and> set items' = ceKey ` set ll' \<and> distinct items' \<and> sz' = data_size ll'"
  using assms
proof (induction cap sz ll items rule: evictIfNeeded.induct)
  case (1 cap sz ll items)
  show ?case
  proof (cases "sz > cap \<and> ll \<noteq> []")
    case False
    with "1.prems"(6) have "sz' = sz" "ll' = ll" "items' = items"
      by (auto simp: evictIfNeeded.simps [of cap sz ll items])
    with False "1.prems" show ?thesis by (auto simp: not_less lru_kept_def)
  next
    case True
    then obtain xs x where ll: "ll = xs @ [x]" by (metis rev_exhaust)
    have "evictIfNeeded cap (sz - int (length (ceData x))) xs (removeAll (ceKey x) items) = (sz', ll', items')"
      using "1.prems"(6) True ll by (simp add: evictIfNeeded.simps [of cap sz "xs @ [x]"] Let_def)
    then have "lru_kept cap xs ll' \<and> set items' = ceKey ` set ll' \<and> distinct items' \<and> sz' = data_size ll'"
      using "1.IH" [OF True refl] "1.prems" ll by (auto simp: distinct_removeAll)
    with True ll "1.prems"(4) lru_kept_snoc show ?thesis by simp
  qed
qed

lemma evict_facts:
  assumes "cache_shape c"
  shows "cache_inv (evict c)" and "lru_kept (scCapacity c) (scLL c) (scLL (evict c))"
    and "scCapacity (evict c) = scCapacity c"
proof -
  obtain sz ll items where e:
    "evictIfNeeded (scCapacity c) (scSize c) (scLL c) (scItems c) = (sz, ll, items)"
    by (metis prod_cases3)
  have "lru_kept (scCapacity c) (scLL c) ll \<and> set items = ceKey ` set ll \<and> distinct items \<and> sz = data_size ll"
    using assms by (intro evictIfNeeded_kept [OF _ _ _ _ _ e]) (auto simp: cache_shape_def)
  moreover have "evict c = c\<lparr>scSize := sz, scLL := ll, scItems := items\<rparr>"
    by (simp add: evict_def e)
  ultimately show "cache_inv (evict c)" and "lru_kept (scCapacity c) (scLL c) (scLL (evict c))"
    and "scCapacity (evict c) = scCapacity c"
    using assms by (auto simp: cache_inv_def cache_shape_def lru_kept_def)
qed

lemma evict_id: "scSize c \<le> scCapacity c \<Longrightarrow> evict c = c"
  by (simp add: evict_def evictIfNeeded.simps)

lemma cache_inv_New [simp]: "cache_inv (NewSegmentCache n)"
  by (simp add: cache_inv_def cache_shape_def NewSegmentCache_def)

lemma move_to_front_facts:
  assumes "distinct (map ceKey ll)" "e \<in> set ll" "ceKey e' = ceKey e"
  shows "distinct (map ceKey (move_to_front e' ll))"
    and "ceKey ` set (move_to_front e' ll) = ceKey ` set ll"
    and "data_size (move_to_front e' ll) =
         data_size ll - int (length (ceData e)) + int (length (ceData e'))"
proof -
  show "distinct (map ceKey (move_to_front e' ll))"
    using assms by (auto simp: move_to_front_def distinct_keys_filter)
  show "ceKey ` set (move_to_front e' ll) = ceKey ` set ll"
    using assms by (auto simp: move_to_front_def)
  show "data_size (move_to_front e' ll) =
         data_size ll - int (length (ceData e)) + int (length (ceData e'))"
    using data_size_filter_key [OF assms(1,2)] assms(3) by (simp add: move_to_front_def)
qed

lemma GetSegment_cases:
  assumes "cache_inv c"
  obtains (hit) e where "e \<in> set (scLL c)" "ceKey e = makeKey t p b"
      "GetSegment c t p b = (Some (ceData e), c\<lparr>scLL := move_to_front e (scLL c)\<rparr>)"
  | (miss) "makeKey t p b \<notin> ceKey ` set (scLL c)" "GetSegment c t p b = (None, c)"
proof (cases "find_entry (makeKey t p b) (scLL c)")
  case None
  with assms that(2) show ?thesis
    by (simp add: GetSegment_def find_entry_None cache_inv_def cache_shape_def)
next
  case (Some e)
  note e = find_entry_Some [OF Some]
  with assms have "makeKey t p b \<in> set (scItems c)"
    unfolding cache_inv_def cache_shape_def by (metis image_eqI)
  with Some e that(1) [of e] show ?thesis by (simp add: GetSegment_def)
qed

lemma cache_inv_Get:
  assumes "cache_inv c"
  shows "cache_inv (snd (GetSegment c t p b))"
  using assms
proof (cases rule: GetSegment_cases [where t = t and p = p and b = b])
  case (hit e)
  have "distinct (map ceKey (scLL c))"
    using assms by (simp add: cache_inv_def cache_shape_def)
  from move_to_front_facts [OF this hit(1) refl] hit(3) assms show ?thesis
    by (simp add: cache_inv_def cache_shape_def)
qed (use assms in simp)

text \<open>The list \<open>SetSegment\<close> hands to the eviction.\<close>

definition set_pre :: "string \<Rightarrow> int \<Rightarrow> int \<Rightarrow> bytes \<Rightarrow> segment_cache \<Rightarrow> segment_cache" where
  "set_pre topic part baseOffset data c =
     (let key = makeKey topic part baseOffset in
      case (if key \<in> set (scItems c) then find_entry key (scLL c) else None) of
        Some e \<Rightarrow> c\<lparr>scSize := scSize c - int (length (ceData e)) + int (length data),
                   scLL := move_to_front (e\<lparr>ceData := data\<rparr>) (scLL c)\<rparr>
      | None \<Rightarrow> c\<lparr>scLL := \<lparr>ceKey = key, ceTopic = topic, cePartition = part,
                              ceBaseOffset = baseOffset, ceData = data\<rparr> # scLL c,
                   scItems := scItems c @ [key], scSize := scSize c + int (length data)\<rparr>)"

lemma SetSegment_evict: "SetSegment t p b d c = evict (set_pre t p b d c)"
  by (simp add: SetSegment_def set_pre_def Let_def split: option.splits)

lemma set_pre_shape:
  assumes "cache_inv c"
  shows "cache_shape (set_pre t p b d c)"
    and "\<exists>e rest. scLL (set_pre t p b d c) = e # rest \<and> ceKey e = makeKey t p b \<and> ceData e = d
           \<and> rest = filter (\<lambda>x. ceKey x \<noteq> makeKey t p b) (scLL c)"
    and "scCapacity (set_pre t p b d c) = scCapacity c"
proof -
  let ?k = "makeKey t p b"
  have shape: "cache_shape c" using assms by (simp add: cache_inv_def)
  consider (hit) e where "?k \<in> set (scItems c)" "find_entry ?k (scLL c) = Some e" | (miss) "?k \<notin> set (scItems c)"
    using shape find_entry_None [of ?k "scLL c"] by (cases "find_entry ?k (scLL c)") (auto simp: cache_shape_def)
  then have "cache_shape (set_pre t p b d c) \<and>
    (\<exists>e rest. scLL (set_pre t p b d c) = e # rest \<and> ceKey e = ?k \<and> ceData e = d
           \<and> rest = filter (\<lambda>x. ceKey x \<noteq> ?k) (scLL c)) \<and> scCapacity (set_pre t p b d c) = scCapacity c"
  proof cases
    case hit
    note e = find_entry_Some [OF hit(2)]
    from shape have dis: "distinct (map ceKey (scLL c))" by (simp add: cache_shape_def)
    note mf = move_to_front_facts [OF dis, of e "e\<lparr>ceData := d\<rparr>"]
    have "set_pre t p b d c = c\<lparr>scSize := scSize c - int (length (ceData e)) + int (length d),
        scLL := move_to_front (e\<lparr>ceData := d\<rparr>) (scLL c)\<rparr>"
      using hit by (simp add: set_pre_def Let_def)
    with mf e shape show ?thesis
      by (auto simp: cache_shape_def) (auto simp: move_to_front_def)
  next
    case miss
    then have "set_pre t p b d c = c\<lparr>scLL := \<lparr>ceKey = ?k, ceTopic = t, cePartition = p,
        ceBaseOffset = b, ceData = d\<rparr> # scLL c,
        scItems := scItems c @ [?k], scSize := scSize c + int (length d)\<rparr>"
      by (simp add: set_pre_def Let_def)
    moreover have "filter (\<lambda>x. ceKey x \<noteq> ?k) (scLL c) = scLL c"
      using miss shape by (intro filter_True) (auto simp: cache_shape_def image_iff)
    ultimately show ?thesis using miss shape by (auto simp: cache_shape_def)
  qed
  then show "cache_shape (set_pre t p b d c)"
    and "\<exists>e rest. scLL (set_pre t p b d c) = e # rest \<and> ceKey e = makeKey t p b \<and> ceData e = d
           \<and> rest = filter (\<lambda>x. ceKey x \<noteq> makeKey t p b) (scLL c)"
    and "scCapacity (set_pre t p b d c) = scCapacity c"
    by auto
qed

lemma cache_inv_Set: "cache_inv c \<Longrightarrow> cache_inv (SetSegment t p b d c)"
  by (simp add: SetSegment_evict evict_facts(1) set_pre_shape(1))

section \<open>The contract of a lossy cache\<close>

text \<open>
  What a client may rely on: a lookup returns what the cache holds for the key and changes nothing
  that it holds; a store holds the new bytes for its key or nothing, and never different bytes for
  another key. Entries may disappear at any store.
\<close>

locale lossy_cache =
  fixes get :: "'c \<Rightarrow> 'k \<Rightarrow> 'd option \<times> 'c"
    and put :: "'k \<Rightarrow> 'd \<Rightarrow> 'c \<Rightarrow> 'c"
    and view :: "'c \<Rightarrow> 'k \<Rightarrow> 'd option"
    and inv :: "'c \<Rightarrow> bool"
  assumes get_view: "inv c \<Longrightarrow> fst (get c k) = view c k"
    and view_get: "inv c \<Longrightarrow> view (snd (get c k)) = view c"
    and view_put: "inv c \<Longrightarrow> view (put k d c) k' = Some d' \<Longrightarrow>
                     (k' = k \<and> d' = d) \<or> (k' \<noteq> k \<and> view c k' = Some d')"
    and inv_get: "inv c \<Longrightarrow> inv (snd (get c k))"
    and inv_put: "inv c \<Longrightarrow> inv (put k d c)"
begin

text \<open>
  A cache that agrees with a source on the keys \<open>K\<close> keeps agreeing when it is filled from that
  source, and then answers what the source holds.
\<close>

definition coherent :: "'k set \<Rightarrow> ('k \<Rightarrow> 'd option) \<Rightarrow> 'c \<Rightarrow> bool" where
  "coherent K truth c \<longleftrightarrow> inv c \<and> (\<forall>k \<in> K. \<forall>d. view c k = Some d \<longrightarrow> truth k = Some d)"

lemma coherent_put:
  assumes "coherent K truth c" "k \<in> K \<Longrightarrow> truth k = Some d"
  shows "coherent K truth (put k d c)"
  using assms view_put inv_put unfolding coherent_def by blast

lemma coherent_get:
  assumes "coherent K truth c" "k \<in> K" "fst (get c k) = Some d"
  shows "truth k = Some d"
  using assms get_view unfolding coherent_def by metis

lemma coherent_get_snd: "coherent K truth c \<Longrightarrow> coherent K truth (snd (get c k))"
  by (simp add: coherent_def view_get inv_get)

lemma coherent_mono:
  assumes "coherent K truth c" "\<And>k d. k \<in> K \<Longrightarrow> truth k = Some d \<Longrightarrow> truth' k = Some d"
  shows "coherent K truth' c"
  using assms by (auto simp: coherent_def)

end

type_synonym cache_key = "string \<times> int \<times> int"

definition cache_get :: "segment_cache \<Rightarrow> cache_key \<Rightarrow> bytes option \<times> segment_cache" where
  "cache_get c = (\<lambda>(t, p, b). GetSegment c t p b)"

definition cache_put :: "cache_key \<Rightarrow> bytes \<Rightarrow> segment_cache \<Rightarrow> segment_cache" where
  "cache_put = (\<lambda>(t, p, b). SetSegment t p b)"

definition cache_view :: "segment_cache \<Rightarrow> cache_key \<Rightarrow> bytes option" where
  "cache_view c = (\<lambda>(t, p, b). map_option ceData (find_entry (makeKey t p b) (scLL c)))"

lemma makeKey_inj [simp]: "makeKey t p b = makeKey t' p' b' \<longleftrightarrow> t = t' \<and> p = p' \<and> b = b'"
proof
  have free: "CHR '':'' \<notin> set (fmt_d x)" for x by (rule fmt_d_free) simp_all
  assume "makeKey t p b = makeKey t' p' b'"
  then have "(t @ '':'' @ fmt_d p) @ CHR '':'' # fmt_d b = (t' @ '':'' @ fmt_d p') @ CHR '':'' # fmt_d b'"
    by (simp add: makeKey_def)
  then have "t @ '':'' @ fmt_d p = t' @ '':'' @ fmt_d p' \<and> fmt_d b = fmt_d b'"
    by (rule append_sep_inj [OF free free, THEN iffD1])
  then show "t = t' \<and> p = p' \<and> b = b'"
    using append_sep_inj [OF free free, of t p t' p'] by simp
qed simp

lemma find_entry_move:
  assumes "distinct (map ceKey ll)" "e \<in> set ll"
  shows "find_entry k (move_to_front e ll) = find_entry k ll"
proof -
  have "set (move_to_front e ll) = set ll"
    using assms by (auto simp: move_to_front_def distinct_map dest: inj_onD)
  moreover have "distinct (map ceKey (move_to_front e ll))"
    using move_to_front_facts(1) [OF assms refl] .
  ultimately have "find_entry k (move_to_front e ll) = Some x \<longleftrightarrow> find_entry k ll = Some x" for x
    using assms(1) by (simp add: find_entry_iff)
  then show ?thesis by (metis not_Some_eq)
qed

lemma find_entry_prefix:
  "distinct (map ceKey (xs @ ys)) \<Longrightarrow> find_entry k xs = Some e \<Longrightarrow> find_entry k (xs @ ys) = Some e"
  by (simp add: find_entry_iff)

lemma SetSegment_list:
  assumes "cache_inv c"
  obtains e where "ceKey e = makeKey t p b" "ceData e = d"
    "lru_kept (scCapacity c) (e # filter (\<lambda>x. ceKey x \<noteq> makeKey t p b) (scLL c)) (scLL (SetSegment t p b d c))"
  using set_pre_shape [OF assms, of t p b d] evict_facts(2) [of "set_pre t p b d c"]
  by (metis SetSegment_evict)

lemma cache_view_put:
  assumes "cache_inv c" "cache_view (SetSegment t p b d c) (t', p', b') = Some d'"
  shows "((t', p', b') = (t, p, b) \<and> d' = d) \<or> ((t', p', b') \<noteq> (t, p, b) \<and> cache_view c (t', p', b') = Some d')"
proof -
  let ?k = "makeKey t p b" and ?k' = "makeKey t' p' b'"
  obtain e where e: "ceKey e = ?k" "ceData e = d"
    "lru_kept (scCapacity c) (e # filter (\<lambda>x. ceKey x \<noteq> ?k) (scLL c)) (scLL (SetSegment t p b d c))"
    using SetSegment_list [OF assms(1)] .
  have dis: "distinct (map ceKey (e # filter (\<lambda>x. ceKey x \<noteq> ?k) (scLL c)))"
    using assms(1) e(1) by (auto simp: cache_inv_def cache_shape_def distinct_keys_filter)
  from assms(2) obtain x where x: "find_entry ?k' (scLL (SetSegment t p b d c)) = Some x" "d' = ceData x"
    by (auto simp: cache_view_def)
  from e(3) obtain rest where "e # filter (\<lambda>x. ceKey x \<noteq> ?k) (scLL c) = scLL (SetSegment t p b d c) @ rest"
    by (auto simp: lru_kept_def)
  with dis find_entry_prefix x(1) have "find_entry ?k' (e # filter (\<lambda>x. ceKey x \<noteq> ?k) (scLL c)) = Some x"
    by metis
  then have "x = e \<or> (x \<in> set (scLL c) \<and> ceKey x \<noteq> ?k)" "ceKey x = ?k'"
    by (auto dest: find_entry_Some)
  moreover have "distinct (map ceKey (scLL c))"
    using assms(1) by (simp add: cache_inv_def cache_shape_def)
  ultimately show ?thesis
    using e x(2) find_entry_iff by (auto simp: cache_view_def)
qed

lemma cache_view_get: "cache_inv c \<Longrightarrow> cache_view (snd (GetSegment c t p b)) = cache_view c"
  by (rule GetSegment_cases [where t = t and p = p and b = b], assumption)
    (auto simp: cache_view_def find_entry_move cache_inv_def cache_shape_def)

lemma GetSegment_view: "cache_inv c \<Longrightarrow> fst (GetSegment c t p b) = cache_view c (t, p, b)"
  by (rule GetSegment_cases [where t = t and p = p and b = b], assumption)
    (auto simp: cache_view_def cache_inv_def cache_shape_def find_entry_None [THEN iffD2] find_entry_iff [THEN iffD2])

interpretation lru: lossy_cache cache_get cache_put cache_view cache_inv
proof
  fix c k k' and d d' :: bytes
  assume inv: "cache_inv c"
  show "fst (cache_get c k) = cache_view c k"
    using GetSegment_view [OF inv] by (cases k) (simp add: cache_get_def)
  show "cache_view (snd (cache_get c k)) = cache_view c"
    using cache_view_get [OF inv] by (cases k) (simp add: cache_get_def)
  show "cache_view (cache_put k d c) k' = Some d' \<Longrightarrow> k' = k \<and> d' = d \<or> k' \<noteq> k \<and> cache_view c k' = Some d'"
    using cache_view_put [OF inv] by (cases k; cases k') (simp add: cache_put_def)
  show "cache_inv (snd (cache_get c k))"
    using cache_inv_Get [OF inv] by (cases k) (simp add: cache_get_def)
  show "cache_inv (cache_put k d c)"
    using cache_inv_Set [OF inv] by (cases k) (simp add: cache_put_def)
qed

text \<open>
  C15: storing a segment in the LRU cache keeps the cache within its byte capacity and its list
  and map consistent, keeps exactly the longest prefix of the recency order (the stored key
  first, then the other entries in their old order) that fits, and a segment that fits the
  capacity can be read back at once.
\<close>

theorem cache_store_lru:
  assumes "cache_inv c"
  shows "cache_inv (SetSegment t p b d c) \<and>
    (\<exists>e. ceKey e = makeKey t p b \<and> ceData e = d \<and>
       lru_kept (scCapacity c) (e # filter (\<lambda>x. ceKey x \<noteq> makeKey t p b) (scLL c))
                (scLL (SetSegment t p b d c))) \<and>
    (int (length d) \<le> scCapacity c \<longrightarrow> fst (GetSegment (SetSegment t p b d c) t p b) = Some d)"
proof -
  obtain e where e: "ceKey e = makeKey t p b" "ceData e = d"
    "lru_kept (scCapacity c) (e # filter (\<lambda>x. ceKey x \<noteq> makeKey t p b) (scLL c)) (scLL (SetSegment t p b d c))"
    using SetSegment_list [OF assms] .
  have inv: "cache_inv (SetSegment t p b d c)" using assms by (rule cache_inv_Set)
  have "e \<in> set (scLL (SetSegment t p b d c))" if "int (length d) \<le> scCapacity c"
    using e that by (cases "scLL (SetSegment t p b d c)") (auto simp: lru_kept_def)
  then have "fst (GetSegment (SetSegment t p b d c) t p b) = Some d" if "int (length d) \<le> scCapacity c"
    using that inv e(1,2) find_entry_iff
    by (auto simp: GetSegment_view cache_view_def cache_inv_def cache_shape_def)
  with inv e show ?thesis by blast
qed

theorem cache_store_lru_witness:
  "let c = SetSegment ''a/t'' 0 0 [1, 2] (NewSegmentCache 3) in
     cache_inv c \<and> scLL (SetSegment ''a/t'' 0 7 [3, 4] c) \<noteq> [] \<and>
     fst (GetSegment (SetSegment ''a/t'' 0 7 [3, 4] c) ''a/t'' 0 7) = Some [3, 4] \<and>
     fst (GetSegment (SetSegment ''a/t'' 0 7 [3, 4] c) ''a/t'' 0 0) = None"
proof -
  let ?c = "SetSegment ''a/t'' 0 0 [1, 2] (NewSegmentCache 3)"
  have c: "cache_inv ?c" by (rule cache_inv_Set) simp
  have eq: "?c = \<lparr>scCapacity = 3, scSize = 2,
      scLL = [\<lparr>ceKey = makeKey ''a/t'' 0 0, ceTopic = ''a/t'', cePartition = 0, ceBaseOffset = 0, ceData = [1, 2]\<rparr>],
      scItems = [makeKey ''a/t'' 0 0]\<rparr>"
    by (simp add: SetSegment_def NewSegmentCache_def evict_def evictIfNeeded_stop evictIfNeeded_step Let_def)
  have "fst (GetSegment (SetSegment ''a/t'' 0 7 [3, 4] ?c) ''a/t'' 0 7) = Some [3, 4]"
    using cache_store_lru [OF c, of "''a/t''" 0 7 "[3, 4]"] by (simp only: eq) simp
  moreover have "scLL (SetSegment ''a/t'' 0 7 [3, 4] ?c) =
      [\<lparr>ceKey = makeKey ''a/t'' 0 7, ceTopic = ''a/t'', cePartition = 0, ceBaseOffset = 7, ceData = [3, 4]\<rparr>]"
    unfolding eq by (simp add: SetSegment_def find_entry_def evict_def evictIfNeeded_stop evictIfNeeded_step Let_def)
  moreover have "fst (GetSegment (SetSegment ''a/t'' 0 7 [3, 4] ?c) ''a/t'' 0 0) = None"
    unfolding eq by (simp add: SetSegment_def GetSegment_def find_entry_def evict_def evictIfNeeded_stop evictIfNeeded_step Let_def)
  ultimately show ?thesis using c by (simp add: Let_def)
qed

end
