(* ===== verification/Object_Store.thy ===== *)
theory Object_Store
  imports Go_Base
begin

text \<open>
  The object store a partition log writes to: the interface \<open>S3Client\<close> of
  \<open>storage/s3client.go\<close> as a record of functions over the state of the store, the in-memory
  client of \<open>storage/s3_memory.go\<close>, and the contract the log relies on. The AWS client is a
  wrapper around a third-party SDK: any other client is an instance of the record, and what is
  assumed of it are the laws of the locales below.
\<close>

section \<open>The interface\<close>

record byte_range =
  brStart :: int
  brEnd :: int

record s3_object =
  s3Key :: string
  s3Size :: int

record 's s3_client =
  s3UploadSegment :: "string \<Rightarrow> bytes \<Rightarrow> 's \<Rightarrow> unit outcome \<times> 's"
  s3UploadIndex :: "string \<Rightarrow> bytes \<Rightarrow> 's \<Rightarrow> unit outcome \<times> 's"
  s3DownloadSegment :: "string \<Rightarrow> byte_range option \<Rightarrow> 's \<Rightarrow> bytes outcome \<times> 's"
  s3DownloadIndex :: "string \<Rightarrow> 's \<Rightarrow> bytes outcome \<times> 's"
  s3ListSegments :: "string \<Rightarrow> 's \<Rightarrow> s3_object list outcome \<times> 's"
  s3EnsureBucket :: "'s \<Rightarrow> unit outcome \<times> 's"

text \<open>\<open>ByteRange.headerValue\<close>: the value of the HTTP range header, nil for a nil range.\<close>

fun headerValue :: "byte_range option \<Rightarrow> string option" where
  "headerValue None = None"
| "headerValue (Some br) = Some (''bytes='' @ fmt_d (brStart br) @ ''-'' @ fmt_d (brEnd br))"

section \<open>The in-memory client\<close>

record memory_s3 =
  msData :: "(string \<times> bytes) list"
  msIndex :: "(string \<times> bytes) list"
  msBucketReady :: bool

definition NewMemoryS3Client :: memory_s3 where
  "NewMemoryS3Client = \<lparr>msData = [], msIndex = [], msBucketReady = False\<rparr>"

definition memEnsureBucket :: "memory_s3 \<Rightarrow> unit outcome \<times> memory_s3" where
  "memEnsureBucket m = (Ok (), m\<lparr>msBucketReady := True\<rparr>)"

definition memUploadSegment :: "string \<Rightarrow> bytes \<Rightarrow> memory_s3 \<Rightarrow> unit outcome \<times> memory_s3" where
  "memUploadSegment key body m = (Ok (), m\<lparr>msData := AList.update key body (msData m)\<rparr>)"

definition memUploadIndex :: "string \<Rightarrow> bytes \<Rightarrow> memory_s3 \<Rightarrow> unit outcome \<times> memory_s3" where
  "memUploadIndex key body m = (Ok (), m\<lparr>msIndex := AList.update key body (msIndex m)\<rparr>)"

definition memDownloadSegment :: "string \<Rightarrow> byte_range option \<Rightarrow> memory_s3 \<Rightarrow> bytes outcome \<times> memory_s3" where
  "memDownloadSegment key rng m =
     ((case map_of (msData m) key of
         None \<Rightarrow> Err (ErrText ''segment not found'')
       | Some data \<Rightarrow>
           (case rng of
              None \<Rightarrow> Ok data
            | Some r \<Rightarrow>
                let start = (if brStart r < 0 then 0 else brStart r);
                    stop = (if brEnd r \<ge> int (length data) then int (length data) - 1 else brEnd r)
                in if start > stop \<or> start \<ge> int (length data)
                   then Err (ErrText ''segment range invalid'')
                   else Ok (take (nat (stop + 1) - nat start) (drop (nat start) data)))), m)"

definition memDownloadIndex :: "string \<Rightarrow> memory_s3 \<Rightarrow> bytes outcome \<times> memory_s3" where
  "memDownloadIndex key m =
     ((case map_of (msIndex m) key of
         None \<Rightarrow> Err (ErrText ''index not found'')
       | Some data \<Rightarrow> Ok data), m)"

definition memListSegments :: "string \<Rightarrow> memory_s3 \<Rightarrow> s3_object list outcome \<times> memory_s3" where
  "memListSegments prfx m =
     (Ok (map (\<lambda>(key, data). \<lparr>s3Key = key, s3Size = int (length data)\<rparr>)
           (filter (\<lambda>(key, data). HasPrefix key prfx) (msData m))), m)"

definition memory_client :: "memory_s3 s3_client" where
  "memory_client =
     \<lparr>s3UploadSegment = memUploadSegment, s3UploadIndex = memUploadIndex,
      s3DownloadSegment = memDownloadSegment, s3DownloadIndex = memDownloadIndex,
      s3ListSegments = memListSegments, s3EnsureBucket = memEnsureBucket\<rparr>"

section \<open>The contract\<close>

text \<open>The bytes an inclusive range of an object denotes.\<close>

fun range_of :: "byte_range option \<Rightarrow> bytes \<Rightarrow> bytes" where
  "range_of None full = full"
| "range_of (Some r) full = take (nat (brEnd r - brStart r + 1)) (drop (nat (brStart r)) full)"

fun range_ok :: "byte_range option \<Rightarrow> bool" where
  "range_ok None = True"
| "range_ok (Some r) \<longleftrightarrow> 0 \<le> brStart r \<and> brStart r \<le> brEnd r"

text \<open>
  \<open>segs\<close> and \<open>idx\<close> are what the store holds, \<open>ok\<close> the well-formedness of its state. A call
  may fail at any time; a failed upload may or may not have reached the store. A successful
  download returns the bytes held, a successful listing the segment objects under the prefix
  with their sizes (and possibly objects of other kinds, whose keys do not end in \<open>.kfs\<close>).
\<close>

locale s3_contract =
  fixes ops :: "'s s3_client"
    and segs idx :: "'s \<Rightarrow> string \<Rightarrow> bytes option"
    and ok :: "'s \<Rightarrow> bool"
  assumes ok_upload: "ok s \<Longrightarrow> ok (snd (s3UploadSegment ops k b s))"
    and ok_upload_index: "ok s \<Longrightarrow> ok (snd (s3UploadIndex ops k b s))"
    and ok_download: "ok s \<Longrightarrow> ok (snd (s3DownloadSegment ops k r s))"
    and ok_download_index: "ok s \<Longrightarrow> ok (snd (s3DownloadIndex ops k s))"
    and ok_list: "ok s \<Longrightarrow> ok (snd (s3ListSegments ops p s))"
    and upload_no_panic: "fst (s3UploadSegment ops k b s) \<noteq> Panic"
    and upload_index_no_panic: "fst (s3UploadIndex ops k b s) \<noteq> Panic"
    and download_no_panic: "fst (s3DownloadSegment ops k r s) \<noteq> Panic"
    and download_index_no_panic: "fst (s3DownloadIndex ops k s) \<noteq> Panic"
    and list_no_panic: "fst (s3ListSegments ops p s) \<noteq> Panic"
    and upload_ok: "ok s \<Longrightarrow> s3UploadSegment ops k b s = (Ok (), s') \<Longrightarrow> segs s' = (segs s)(k \<mapsto> b)"
    and upload_err: "ok s \<Longrightarrow> s3UploadSegment ops k b s = (Err e, s') \<Longrightarrow>
                       segs s' = segs s \<or> segs s' = (segs s)(k \<mapsto> b)"
    and upload_idx: "ok s \<Longrightarrow> idx (snd (s3UploadSegment ops k b s)) = idx s"
    and upload_index_ok: "ok s \<Longrightarrow> s3UploadIndex ops k b s = (Ok (), s') \<Longrightarrow> idx s' = (idx s)(k \<mapsto> b)"
    and upload_index_err: "ok s \<Longrightarrow> s3UploadIndex ops k b s = (Err e, s') \<Longrightarrow>
                       idx s' = idx s \<or> idx s' = (idx s)(k \<mapsto> b)"
    and upload_index_segs: "ok s \<Longrightarrow> segs (snd (s3UploadIndex ops k b s)) = segs s"
    and download_segs: "ok s \<Longrightarrow> segs (snd (s3DownloadSegment ops k r s)) = segs s"
    and download_idx: "ok s \<Longrightarrow> idx (snd (s3DownloadSegment ops k r s)) = idx s"
    and download_index_segs: "ok s \<Longrightarrow> segs (snd (s3DownloadIndex ops k s)) = segs s"
    and download_index_idx: "ok s \<Longrightarrow> idx (snd (s3DownloadIndex ops k s)) = idx s"
    and list_segs: "ok s \<Longrightarrow> segs (snd (s3ListSegments ops p s)) = segs s"
    and list_idx: "ok s \<Longrightarrow> idx (snd (s3ListSegments ops p s)) = idx s"
    and download_ok: "ok s \<Longrightarrow> range_ok r \<Longrightarrow> fst (s3DownloadSegment ops k r s) = Ok d \<Longrightarrow>
                        \<exists>full. segs s k = Some full \<and> d = range_of r full"
    and download_index_ok: "ok s \<Longrightarrow> fst (s3DownloadIndex ops k s) = Ok d \<Longrightarrow> idx s k = Some d"
    and list_ok: "ok s \<Longrightarrow> fst (s3ListSegments ops p s) = Ok objs \<Longrightarrow>
                    distinct (map s3Key (filter (\<lambda>x. HasSuffix (s3Key x) ''.kfs'') objs)) \<and>
                    (\<forall>x. HasSuffix (s3Key x) ''.kfs'' \<longrightarrow>
                       (x \<in> set objs \<longleftrightarrow> HasPrefix (s3Key x) p \<and>
                          (\<exists>full. segs s (s3Key x) = Some full \<and> s3Size x = int (length full))))"

text \<open>A store whose calls succeed whenever the object asked for is there.\<close>

locale s3_reliable = s3_contract +
  assumes upload_succeeds: "ok s \<Longrightarrow> fst (s3UploadSegment ops k b s) = Ok ()"
    and upload_index_succeeds: "ok s \<Longrightarrow> fst (s3UploadIndex ops k b s) = Ok ()"
    and download_succeeds: "ok s \<Longrightarrow> segs s k = Some full \<Longrightarrow> range_ok r \<Longrightarrow>
          (\<forall>x. r = Some x \<longrightarrow> brStart x < int (length full)) \<Longrightarrow>
          fst (s3DownloadSegment ops k r s) = Ok (range_of r full)"
    and download_index_succeeds: "ok s \<Longrightarrow> idx s k = Some d \<Longrightarrow> fst (s3DownloadIndex ops k s) = Ok d"
    and list_succeeds: "ok s \<Longrightarrow> \<exists>objs. fst (s3ListSegments ops p s) = Ok objs"

section \<open>The in-memory client keeps the contract\<close>

abbreviation mem_segs :: "memory_s3 \<Rightarrow> string \<Rightarrow> bytes option" where
  "mem_segs m \<equiv> map_of (msData m)"

abbreviation mem_idx :: "memory_s3 \<Rightarrow> string \<Rightarrow> bytes option" where
  "mem_idx m \<equiv> map_of (msIndex m)"

definition mem_ok :: "memory_s3 \<Rightarrow> bool" where
  "mem_ok m \<longleftrightarrow> map_wf (msData m) \<and> map_wf (msIndex m)"

lemma mem_ok_New [simp]: "mem_ok NewMemoryS3Client"
  by (simp add: mem_ok_def NewMemoryS3Client_def map_wf_def)

lemma memDownloadSegment_range:
  assumes "map_of (msData m) k = Some full" "0 \<le> brStart r" "brStart r \<le> brEnd r"
  shows "fst (memDownloadSegment k (Some r) m) =
           (if brStart r < int (length full) then Ok (range_of (Some r) full)
            else Err (ErrText ''segment range invalid''))"
proof (cases "brStart r < int (length full)")
  case True
  define n where "n = (if brEnd r \<ge> int (length full) then int (length full) - 1 else brEnd r)"
  have "take (nat (n + 1) - nat (brStart r)) (drop (nat (brStart r)) full) = range_of (Some r) full"
  proof (cases "brEnd r \<ge> int (length full)")
    case True
    then show ?thesis using assms(2) by (simp add: n_def)
  next
    case False
    have "nat (brEnd r + 1) - nat (brStart r) = nat (brEnd r - brStart r + 1)"
      using assms(2,3) by simp
    with False show ?thesis by (simp add: n_def)
  qed
  with True assms show ?thesis
    by (auto simp: memDownloadSegment_def Let_def n_def)
qed (use assms in \<open>auto simp: memDownloadSegment_def Let_def\<close>)

lemma memListSegments_set:
  assumes "map_wf (msData m)" "fst (memListSegments p m) = Ok objs"
  shows "distinct (map s3Key objs)"
    and "x \<in> set objs \<longleftrightarrow> HasPrefix (s3Key x) p \<and>
           (\<exists>full. map_of (msData m) (s3Key x) = Some full \<and> s3Size x = int (length full))"
proof -
  have objs: "objs = map (\<lambda>(key, data). \<lparr>s3Key = key, s3Size = int (length data)\<rparr>)
      (filter (\<lambda>(key, data). HasPrefix key p) (msData m))"
    using assms(2) by (simp add: memListSegments_def)
  have "map s3Key objs = map fst (filter (\<lambda>(key, data). HasPrefix key p) (msData m))"
    by (simp add: objs split_def)
  then show "distinct (map s3Key objs)"
    using assms(1) by (simp add: map_wf_def distinct_map_filter)
  have "x \<in> set objs \<longleftrightarrow> (\<exists>full. (s3Key x, full) \<in> set (msData m) \<and> HasPrefix (s3Key x) p \<and>
      s3Size x = int (length full))"
    by (cases x) (force simp: objs)
  also have "\<dots> \<longleftrightarrow> HasPrefix (s3Key x) p \<and>
      (\<exists>full. map_of (msData m) (s3Key x) = Some full \<and> s3Size x = int (length full))"
    using assms(1) map_of_eq_Some_iff [of "msData m"] by (auto simp: map_wf_def)
  finally show "x \<in> set objs \<longleftrightarrow> HasPrefix (s3Key x) p \<and>
      (\<exists>full. map_of (msData m) (s3Key x) = Some full \<and> s3Size x = int (length full))" .
qed

interpretation mem: s3_contract memory_client mem_segs mem_idx mem_ok
proof (unfold_locales, goal_cases)
  case (23 s r k d)
  then show ?case
    by (cases r; cases "map_of (msData s) k")
      (auto simp: memory_client_def memDownloadSegment_range split: if_splits, auto simp: memDownloadSegment_def)
next
  case (25 s p objs)
  then show ?case
    using memListSegments_set [of s p objs]
    by (simp add: memory_client_def mem_ok_def distinct_map_filter)
qed (auto simp: memory_client_def mem_ok_def memUploadSegment_def memUploadIndex_def
      memDownloadSegment_def memDownloadIndex_def memListSegments_def Let_def update_conv'
      split: option.splits)

interpretation memr: s3_reliable memory_client mem_segs mem_idx mem_ok
proof (unfold_locales, goal_cases)
  case (3 s k full r)
  then show ?case
    by (cases r) (simp_all add: memory_client_def memDownloadSegment_range, simp add: memDownloadSegment_def)
qed (auto simp: memory_client_def memUploadSegment_def memUploadIndex_def memDownloadIndex_def memListSegments_def)

end
