(* ===== verification/Partition_Log.thy ===== *)
theory Partition_Log
  imports Segment_Format Write_Buffer Segment_Cache Object_Store
begin

text \<open>
  The partition log (\<open>storage/log.go\<close>): buffering of record batches, flushing them as a segment
  and an index to the object store, reads through the cache or by range, read-ahead, and the
  rebuilding of a log from the objects of the store.

  The state record has the fields of \<open>PartitionLog\<close>; the store behind \<open>s3\<close> and the cache
  behind \<open>cache\<close> are part of it. The callbacks \<open>onFlush\<close> and \<open>onS3Op\<close> are recorded as
  events; whether they are set is a flag. A read-ahead goroutine is a pending task that makes two
  steps of its own: the download, and the storing of what it got. The readings of the clock
  within one operation are \<open>clk 0\<close>, \<open>clk 1\<close>, and so on.
\<close>

section \<open>State\<close>

record plog_cfg =
  pcBuffer :: write_buffer_cfg
  pcSegment :: segment_cfg
  pcReadAheadSegments :: int
  pcCacheEnabled :: bool

record segment_range =
  srBase :: int
  srLast :: int
  srSize :: int

datatype log_event =
    OnFlush segment_artifact
  | OnS3Op string duration "go_error option"

datatype prefetch_task =
    PfDownload segment_range
  | PfStore segment_range bytes

record 's plog =
  plNamespace :: string
  plTopic :: string
  plPartition :: int
  plS3 :: 's
  plCache :: "segment_cache option"
  plCfg :: plog_cfg
  plBuffer :: write_buffer
  plNextOffset :: int
  plHasOnFlush :: bool
  plHasOnS3Op :: bool
  plSegments :: "segment_range list"
  plIndexEntries :: "int \<Rightarrow> index_entry list option"
  plEvents :: "log_event list"
  plPrefetch :: "prefetch_task list"

record append_result =
  arBaseOffset :: int
  arLastOffset :: int

definition NewPartitionLog :: "string \<Rightarrow> string \<Rightarrow> int \<Rightarrow> int \<Rightarrow> 's \<Rightarrow> segment_cache option \<Rightarrow> plog_cfg
    \<Rightarrow> bool \<Rightarrow> bool \<Rightarrow> time \<Rightarrow> 's plog" where
  "NewPartitionLog namespace topic part startOffset s3 cache cfg onFlush onS3Op now =
     \<lparr>plNamespace = (if namespace = [] then ''default'' else namespace),
      plTopic = topic, plPartition = part, plS3 = s3, plCache = cache, plCfg = cfg,
      plBuffer = NewWriteBuffer (pcBuffer cfg) now,
      plNextOffset = startOffset, plHasOnFlush = onFlush, plHasOnS3Op = onS3Op,
      plSegments = [], plIndexEntries = (\<lambda>_. None), plEvents = [], plPrefetch = []\<rparr>"

section \<open>Keys\<close>

definition segment_name :: "int \<Rightarrow> string" where
  "segment_name baseOffset = ''segment-'' @ fmt_020d baseOffset @ ''.kfs''"

definition index_name :: "int \<Rightarrow> string" where
  "index_name baseOffset = ''segment-'' @ fmt_020d baseOffset @ ''.index''"

definition segmentKey :: "'s plog \<Rightarrow> int \<Rightarrow> string" where
  "segmentKey l baseOffset =
     path_Join [plNamespace l, plTopic l, fmt_d (plPartition l), segment_name baseOffset]"

definition indexKey :: "'s plog \<Rightarrow> int \<Rightarrow> string" where
  "indexKey l baseOffset =
     path_Join [plNamespace l, plTopic l, fmt_d (plPartition l), index_name baseOffset]"

definition segmentPrefix :: "'s plog \<Rightarrow> string" where
  "segmentPrefix l = path_Join [plNamespace l, plTopic l, fmt_d (plPartition l)] @ ''/''"

definition cacheTopicKey :: "'s plog \<Rightarrow> string" where
  "cacheTopicKey l = path_Join [plNamespace l, plTopic l]"

definition parseSegmentBaseOffset :: "string \<Rightarrow> int option" where
  "parseSegmentBaseOffset key =
     (let name = path_Base key in
      if \<not> HasPrefix name ''segment-'' \<or> \<not> HasSuffix name ''.kfs'' then None
      else
        let raw = TrimSuffix (TrimPrefix name ''segment-'') ''.kfs''
        in if raw = [] then None else ParseInt 64 raw)"

section \<open>Callbacks and read-ahead\<close>

definition callS3Op :: "string \<Rightarrow> duration \<Rightarrow> 'a outcome \<Rightarrow> 's plog \<Rightarrow> 's plog" where
  "callS3Op name d r l =
     (if plHasOnS3Op l
      then l\<lparr>plEvents := plEvents l @ [OnS3Op name d (case r of Err e \<Rightarrow> Some e | _ \<Rightarrow> None)]\<rparr>
      else l)"

definition callFlush :: "segment_artifact \<Rightarrow> 's plog \<Rightarrow> 's plog" where
  "callFlush a l = (if plHasOnFlush l then l\<lparr>plEvents := plEvents l @ [OnFlush a]\<rparr> else l)"

fun segment_index_from :: "nat \<Rightarrow> segment_range list \<Rightarrow> int \<Rightarrow> int" where
  "segment_index_from i [] baseOffset = - 1"
| "segment_index_from i (seg # segs) baseOffset =
     (if srBase seg = baseOffset then int i else segment_index_from (Suc i) segs baseOffset)"

definition segmentIndex :: "'s plog \<Rightarrow> int \<Rightarrow> int" where
  "segmentIndex l baseOffset = segment_index_from 0 (plSegments l) baseOffset"

text \<open>The loop of \<open>startPrefetch\<close> over the segments it visits.\<close>

fun prefetch_loop :: "segment_range list \<Rightarrow> string \<Rightarrow> int \<Rightarrow> segment_cache \<Rightarrow> prefetch_task list
    \<Rightarrow> segment_cache \<times> prefetch_task list" where
  "prefetch_loop [] topic part c tasks = (c, tasks)"
| "prefetch_loop (seg # segs) topic part c tasks =
     (case GetSegment c topic part (srBase seg) of
        (Some data, c') \<Rightarrow> prefetch_loop segs topic part c' tasks
      | (None, c') \<Rightarrow> prefetch_loop segs topic part c' (tasks @ [PfDownload seg]))"

definition startPrefetch :: "int \<Rightarrow> 's plog \<Rightarrow> 's plog" where
  "startPrefetch nextIndex l =
     (case plCache l of
        None \<Rightarrow> l
      | Some c \<Rightarrow>
          if pcReadAheadSegments (plCfg l) \<le> 0 \<or> nextIndex < 0 \<or> \<not> pcCacheEnabled (plCfg l) then l
          else
            case prefetch_loop (take (nat (pcReadAheadSegments (plCfg l))) (drop (nat nextIndex) (plSegments l)))
                   (cacheTopicKey l) (plPartition l) c (plPrefetch l) of
              (c', tasks) \<Rightarrow> l\<lparr>plCache := Some c', plPrefetch := tasks\<rparr>)"

text \<open>The two steps of the goroutine at position \<open>i\<close> of the pending tasks.\<close>

definition cache_set :: "int \<Rightarrow> bytes \<Rightarrow> 's plog \<Rightarrow> 's plog" where
  "cache_set baseOffset data l =
     (case plCache l of
        None \<Rightarrow> l
      | Some c \<Rightarrow> l\<lparr>plCache := Some (SetSegment (cacheTopicKey l) (plPartition l) baseOffset data c)\<rparr>)"

definition prefetch_step :: "'s s3_client \<Rightarrow> nat \<Rightarrow> 's plog \<Rightarrow> 's plog" where
  "prefetch_step ops i l =
     (if i < length (plPrefetch l) then
        let rest = take i (plPrefetch l) @ drop (Suc i) (plPrefetch l) in
        (case plPrefetch l ! i of
           PfDownload seg \<Rightarrow>
             (case s3DownloadSegment ops (segmentKey l (srBase seg)) None (plS3 l) of
                (Ok data, s') \<Rightarrow> l\<lparr>plS3 := s', plPrefetch := rest @ [PfStore seg data]\<rparr>
              | (_, s') \<Rightarrow> l\<lparr>plS3 := s', plPrefetch := rest\<rparr>)
         | PfStore seg data \<Rightarrow> cache_set (srBase seg) data (l\<lparr>plPrefetch := rest\<rparr>))
      else l)"

section \<open>Flushing and appending\<close>

definition flushLocked :: "'s s3_client \<Rightarrow> (nat \<Rightarrow> time) \<Rightarrow> 's plog \<Rightarrow> segment_artifact option outcome \<times> 's plog" where
  "flushLocked ops clk l =
     (case Drain (plBuffer l) (clk 0) of (batches, buf) \<Rightarrow>
      let l = l\<lparr>plBuffer := buf\<rparr> in
      if batches = [] then (Ok None, l)
      else
        case wrapErr ''build segment'' (BuildSegment (pcSegment (plCfg l)) batches (clk 1)) of
          Panic \<Rightarrow> (Panic, l)
        | Err e \<Rightarrow> (Err e, l)
        | Ok artifact \<Rightarrow>
            (case s3UploadSegment ops (segmentKey l (saBaseOffset artifact)) (saSegmentBytes artifact) (plS3 l) of
               (r, s') \<Rightarrow>
                 let l = callS3Op ''upload_segment'' (timeSub (clk 3) (clk 2)) r (l\<lparr>plS3 := s'\<rparr>) in
                 (case r of
                    Panic \<Rightarrow> (Panic, l)
                  | Err e \<Rightarrow> (Err e, l)
                  | Ok _ \<Rightarrow>
                      (case s3UploadIndex ops (indexKey l (saBaseOffset artifact)) (saIndexBytes artifact) (plS3 l) of
                         (r, s') \<Rightarrow>
                           let l = callS3Op ''upload_index'' (timeSub (clk 5) (clk 4)) r (l\<lparr>plS3 := s'\<rparr>) in
                           (case r of
                              Panic \<Rightarrow> (Panic, l)
                            | Err e \<Rightarrow> (Err e, l)
                            | Ok _ \<Rightarrow>
                                let l = (if plCache l \<noteq> None \<and> pcCacheEnabled (plCfg l)
                                         then cache_set (saBaseOffset artifact) (saSegmentBytes artifact) l else l);
                                    l = l\<lparr>plSegments := plSegments l @
                                          [\<lparr>srBase = saBaseOffset artifact, srLast = saLastOffset artifact,
                                            srSize = int (length (saSegmentBytes artifact))\<rparr>]\<rparr>;
                                    l = l\<lparr>plIndexEntries := (plIndexEntries l)
                                          (saBaseOffset artifact := Some (saRelativeIndex artifact))\<rparr>
                                in (Ok (Some artifact), startPrefetch (int (length (plSegments l)) - 1) l))))))"

definition AppendBatch :: "'s s3_client \<Rightarrow> (nat \<Rightarrow> time) \<Rightarrow> record_batch \<Rightarrow> 's plog
    \<Rightarrow> append_result outcome \<times> 's plog" where
  "AppendBatch ops clk batch l =
     (let baseOffset = plNextOffset l in
      case PatchRecordBatchBaseOffset batch baseOffset of
        Panic \<Rightarrow> (Panic, l)
      | Err e \<Rightarrow> (Err e, l)
      | Ok batch \<Rightarrow>
          let l = l\<lparr>plNextOffset := i64 (baseOffset + rbLastOffsetDelta batch + 1),
                    plBuffer := bufAppend batch (plBuffer l)\<rparr>;
              result = \<lparr>arBaseOffset = baseOffset, arLastOffset = i64 (plNextOffset l - 1)\<rparr>
          in if ShouldFlush (plBuffer l) (clk 0) then
               (case flushLocked ops (\<lambda>i. clk (Suc i)) l of
                  (Panic, l) \<Rightarrow> (Panic, l)
                | (Err e, l) \<Rightarrow> (Err e, l)
                | (Ok None, l) \<Rightarrow> (Ok result, l)
                | (Ok (Some flushed), l) \<Rightarrow> (Ok result, callFlush flushed l))
             else (Ok result, l))"

definition EarliestOffset :: "'s plog \<Rightarrow> int" where
  "EarliestOffset l = (case plSegments l of [] \<Rightarrow> 0 | s # _ \<Rightarrow> srBase s)"

text \<open>The artifact \<open>Flush\<close> reports when the buffer was empty: only its last offset is set.\<close>

definition last_offset_artifact :: "int \<Rightarrow> segment_artifact" where
  "last_offset_artifact off =
     \<lparr>saBaseOffset = 0, saLastOffset = off, saMessageCount = 0, saCreatedAt = 0,
      saSegmentBytes = [], saIndexBytes = [], saRelativeIndex = []\<rparr>"

definition Flush :: "'s s3_client \<Rightarrow> (nat \<Rightarrow> time) \<Rightarrow> 's plog \<Rightarrow> unit outcome \<times> 's plog" where
  "Flush ops clk l =
     (case flushLocked ops clk l of
        (Panic, l) \<Rightarrow> (Panic, l)
      | (Err e, l) \<Rightarrow> (Err e, l)
      | (Ok (Some artifact), l) \<Rightarrow> (Ok (), callFlush artifact l)
      | (Ok None, l) \<Rightarrow>
          let current = i64 (plNextOffset l - 1)
          in (Ok (), if current \<ge> 0 then callFlush (last_offset_artifact current) l else l))"

section \<open>Reading\<close>

text \<open>
  The binary search of \<open>findIndexEntry\<close>; \<open>lo\<close> and \<open>hi\<close> stay within the entries, so the
  index expressions of the loop do not panic.
\<close>

function find_entry_loop :: "index_entry list \<Rightarrow> int \<Rightarrow> int \<Rightarrow> int \<Rightarrow> index_entry" where
  "find_entry_loop entries offset lo hi =
     (if lo \<le> hi then
        let mid = (lo + hi) div 2 in
        if ieOffset (entries ! nat mid) = offset then entries ! nat mid
        else if ieOffset (entries ! nat mid) < offset then
          (if mid + 1 \<le> hi \<and> ieOffset (entries ! nat (mid + 1)) > offset then entries ! nat mid
           else find_entry_loop entries offset (mid + 1) hi)
        else find_entry_loop entries offset lo (mid - 1)
      else entries ! 0)"
  by pat_completeness auto
termination
  by (relation "measure (\<lambda>(es, off, lo, hi). nat (hi - lo + 1))") auto

declare find_entry_loop.simps [simp del]

definition findIndexEntry :: "index_entry list \<Rightarrow> int \<Rightarrow> index_entry" where
  "findIndexEntry entries offset =
     (if entries = [] then \<lparr>ieOffset = 0, iePosition = 0\<rparr>
      else if offset \<le> ieOffset (entries ! 0) then entries ! 0
      else if offset \<ge> ieOffset (last entries) then last entries
      else find_entry_loop entries offset 0 (int (length entries) - 1))"

definition computeSegmentRange :: "segment_range \<Rightarrow> index_entry list \<Rightarrow> int \<Rightarrow> int \<Rightarrow> int \<times> int" where
  "computeSegmentRange seg entries offset maxBytes =
     (if srSize seg \<le> int segmentFooterLen then (- 1, - 1)
      else
        let start = iePosition (findIndexEntry entries offset);
            endLimit = srSize seg - int segmentFooterLen
        in if endLimit \<le> start then (- 1, - 1)
           else
             let stop = endLimit - 1;
                 maxEnd = i64 (start + maxBytes - 1)
             in (start, if maxBytes > 0 \<and> maxEnd < stop then maxEnd else stop))"

definition segmentRangeForOffset :: "segment_range \<Rightarrow> index_entry list \<Rightarrow> int \<Rightarrow> int \<Rightarrow> byte_range option" where
  "segmentRangeForOffset seg entries offset maxBytes =
     (if srSize seg \<le> 0 \<or> entries = [] then None
      else case computeSegmentRange seg entries offset maxBytes of (start, stop) \<Rightarrow>
        if start < 0 \<or> stop < start then None else Some \<lparr>brStart = start, brEnd = stop\<rparr>)"

definition sliceFullSegmentData :: "bytes \<Rightarrow> int \<Rightarrow> bytes" where
  "sliceFullSegmentData data maxBytes =
     (let start = (if 32 > length data then length data else 32);
          stop = (if length data > segmentFooterLen then length data - segmentFooterLen else length data);
          stop = (if stop < start then length data else stop);
          body = take (stop - start) (drop start data)
      in if maxBytes > 0 \<and> int (length body) > maxBytes then take (nat maxBytes) body else body)"

definition sliceCachedSegment :: "segment_range \<Rightarrow> index_entry list \<Rightarrow> int \<Rightarrow> int \<Rightarrow> bytes \<Rightarrow> bytes outcome" where
  "sliceCachedSegment seg entries offset maxBytes data =
     (if entries = [] then Ok (sliceFullSegmentData data maxBytes)
      else case computeSegmentRange seg entries offset maxBytes of (start, stop) \<Rightarrow>
        if start < 0 \<or> stop < start then Err ErrOffsetOutOfRange
        else
          let stop = (if stop \<ge> int (length data) then int (length data) - 1 else stop)
          in goSlice data start (stop + 1))"

text \<open>
  \<open>Read\<close> picks the segment and its index entries under the lock (\<open>read_select\<close>); what
  follows runs without it (\<open>read_fetch\<close>), so other operations may come in between.
\<close>

definition read_select :: "int \<Rightarrow> 's plog \<Rightarrow> (segment_range \<times> index_entry list) option" where
  "read_select offset l =
     (case List.find (\<lambda>s. offset \<ge> srBase s \<and> offset \<le> srLast s) (plSegments l) of
        None \<Rightarrow> None
      | Some seg \<Rightarrow> Some (seg, case plIndexEntries l (srBase seg) of None \<Rightarrow> [] | Some es \<Rightarrow> es))"

definition cache_lookup :: "int \<Rightarrow> 's plog \<Rightarrow> bytes option \<times> 's plog" where
  "cache_lookup baseOffset l =
     (case plCache l of
        None \<Rightarrow> (None, l)
      | Some c \<Rightarrow>
          if pcCacheEnabled (plCfg l) then
            (case GetSegment c (cacheTopicKey l) (plPartition l) baseOffset of
               (r, c') \<Rightarrow> (r, l\<lparr>plCache := Some c'\<rparr>))
          else (None, l))"

definition read_fetch :: "'s s3_client \<Rightarrow> (nat \<Rightarrow> time) \<Rightarrow> segment_range \<Rightarrow> index_entry list \<Rightarrow> int \<Rightarrow> int
    \<Rightarrow> 's plog \<Rightarrow> bytes outcome \<times> 's plog" where
  "read_fetch ops clk seg entries offset maxBytes l =
     (case cache_lookup (srBase seg) l of
        (Some data, l) \<Rightarrow>
          (sliceCachedSegment seg entries offset maxBytes data,
           startPrefetch (segmentIndex l (srBase seg) + 1) l)
      | (None, l) \<Rightarrow>
          (case segmentRangeForOffset seg entries offset maxBytes of
             Some rng \<Rightarrow>
               (case s3DownloadSegment ops (segmentKey l (srBase seg)) (Some rng) (plS3 l) of
                  (r, s') \<Rightarrow>
                    let l = callS3Op ''download_segment_range'' (timeSub (clk 1) (clk 0)) r (l\<lparr>plS3 := s'\<rparr>) in
                    (case r of
                       Ok data \<Rightarrow> (Ok data, startPrefetch (segmentIndex l (srBase seg) + 1) l)
                     | _ \<Rightarrow> (r, l)))
           | None \<Rightarrow>
               (case s3DownloadSegment ops (segmentKey l (srBase seg)) None (plS3 l) of
                  (r, s') \<Rightarrow>
                    let l = callS3Op ''download_segment'' (timeSub (clk 1) (clk 0)) r (l\<lparr>plS3 := s'\<rparr>) in
                    (case r of
                       Ok data \<Rightarrow>
                         let l = (if plCache l \<noteq> None \<and> pcCacheEnabled (plCfg l)
                                  then cache_set (srBase seg) data l else l)
                         in (sliceCachedSegment seg entries offset maxBytes data,
                             startPrefetch (segmentIndex l (srBase seg) + 1) l)
                     | _ \<Rightarrow> (r, l)))))"

definition Read :: "'s s3_client \<Rightarrow> (nat \<Rightarrow> time) \<Rightarrow> int \<Rightarrow> int \<Rightarrow> 's plog \<Rightarrow> bytes outcome \<times> 's plog" where
  "Read ops clk offset maxBytes l =
     (case read_select offset l of
        None \<Rightarrow> (Err ErrOffsetOutOfRange, l)
      | Some (seg, entries) \<Rightarrow> read_fetch ops clk seg entries offset maxBytes l)"

section \<open>Rebuilding a log\<close>

text \<open>
  The first loop of \<open>RestoreFromS3\<close> reads the footers, the second the indexes; \<open>k\<close> counts the
  readings of the clock. \<open>sort.Slice\<close> does not fix the order of equal base offsets; the stable
  sort stands for one order it may produce.
\<close>

fun restore_footers :: "'s s3_client \<Rightarrow> (nat \<Rightarrow> time) \<Rightarrow> nat \<Rightarrow> s3_object list \<Rightarrow> 's plog
    \<Rightarrow> segment_range list outcome \<times> 's plog" where
  "restore_footers ops clk k [] l = (Ok [], l)"
| "restore_footers ops clk k (obj # objs) l =
     (if \<not> HasSuffix (s3Key obj) ''.kfs'' then restore_footers ops clk k objs l
      else case parseSegmentBaseOffset (s3Key obj) of
        None \<Rightarrow> restore_footers ops clk k objs l
      | Some base \<Rightarrow>
          if s3Size obj < int segmentFooterLen then restore_footers ops clk k objs l
          else
            (case s3DownloadSegment ops (s3Key obj)
                    (Some \<lparr>brStart = s3Size obj - int segmentFooterLen, brEnd = s3Size obj - 1\<rparr>) (plS3 l) of
               (r, s') \<Rightarrow>
                 let l = callS3Op ''download_segment_footer'' (timeSub (clk (k + 1)) (clk k)) r (l\<lparr>plS3 := s'\<rparr>) in
                 (case bindO r parseSegmentFooter of
                    Panic \<Rightarrow> (Panic, l)
                  | Err e \<Rightarrow> (Err e, l)
                  | Ok lastOffset \<Rightarrow>
                      (case restore_footers ops clk (k + 2) objs l of
                         (rs, l) \<Rightarrow>
                           (bindO rs (\<lambda>es. Ok (\<lparr>srBase = base, srLast = lastOffset, srSize = s3Size obj\<rparr> # es)), l)))))"

fun restore_indexes :: "'s s3_client \<Rightarrow> (nat \<Rightarrow> time) \<Rightarrow> nat \<Rightarrow> segment_range list
    \<Rightarrow> (int \<Rightarrow> index_entry list option) \<Rightarrow> 's plog \<Rightarrow> (int \<Rightarrow> index_entry list option) outcome \<times> 's plog" where
  "restore_indexes ops clk k [] indexByBase l = (Ok indexByBase, l)"
| "restore_indexes ops clk k (entry # entries) indexByBase l =
     (case s3DownloadIndex ops (indexKey l (srBase entry)) (plS3 l) of
        (r, s') \<Rightarrow>
          let l = callS3Op ''download_index'' (timeSub (clk (k + 1)) (clk k)) r (l\<lparr>plS3 := s'\<rparr>) in
          (case bindO r (\<lambda>bs. wrapErr ''parse index'' (ParseIndex bs)) of
             Panic \<Rightarrow> (Panic, l)
           | Err e \<Rightarrow> (Err e, l)
           | Ok parsed \<Rightarrow>
               restore_indexes ops clk (k + 2) entries (indexByBase(srBase entry := Some parsed)) l))"

definition RestoreFromS3 :: "'s s3_client \<Rightarrow> (nat \<Rightarrow> time) \<Rightarrow> 's plog \<Rightarrow> int outcome \<times> 's plog" where
  "RestoreFromS3 ops clk l =
     (case s3ListSegments ops (segmentPrefix l) (plS3 l) of
        (r, s') \<Rightarrow>
          let l = l\<lparr>plS3 := s'\<rparr> in
          (case r of
             Panic \<Rightarrow> (Panic, l)
           | Err e \<Rightarrow> (Err e, l)
           | Ok objects \<Rightarrow>
               (case restore_footers ops clk 0 objects l of
                  (Panic, l) \<Rightarrow> (Panic, l)
                | (Err e, l) \<Rightarrow> (Err e, l)
                | (Ok [], l) \<Rightarrow> (Ok (- 1), l)
                | (Ok entries, l) \<Rightarrow>
                    let entries = sort_key srBase entries in
                    (case restore_indexes ops clk (2 * length objects) entries (\<lambda>_. None) l of
                       (Panic, l) \<Rightarrow> (Panic, l)
                     | (Err e, l) \<Rightarrow> (Err e, l)
                     | (Ok indexByBase, l) \<Rightarrow>
                         let last_off = srLast (last entries);
                             l = l\<lparr>plSegments := entries, plIndexEntries := indexByBase\<rparr>;
                             l = (if last_off \<ge> plNextOffset l
                                  then l\<lparr>plNextOffset := i64 (last_off + 1)\<rparr> else l)
                         in (Ok last_off, l)))))"

end
