(* ===== verification/Log_Correctness.thy ===== *)
theory Log_Correctness
  imports Partition_Log
begin

text \<open>
  What the partition log guarantees: which offsets the appended batches get, where the segments
  are in the store, what a read returns, what is lost when a flush fails, and what a log rebuilt
  from the store looks like. The store is any client that keeps the contract of \<open>Object_Store\<close>;
  the witnesses use the in-memory client.
\<close>

section \<open>Keys\<close>

lemma plain_segment_name: "plain_elem (segment_name b)" "plain_elem (index_name b)"
  using fmt_020d_free [of "CHR ''/''" b] by (auto simp: plain_elem_def segment_name_def index_name_def)

lemma plain_fmt_d: "plain_elem (fmt_d x)"
proof -
  have free: "CHR ''/'' \<notin> set (fmt_d x)" "CHR ''.'' \<notin> set (fmt_d x)"
    by (rule fmt_d_free; simp)+
  then have "fmt_d x \<noteq> ''.''" "fmt_d x \<noteq> ''..''" by (metis list.set_intros(1))+
  with free show ?thesis by (simp add: plain_elem_def)
qed

lemma path_Join_plain:
  assumes "ns \<noteq> []" "plain_elem p" "plain_elem n"
  shows "path_Join [ns, t, p, n] = path_Join [ns, t, p] @ ''/'' @ n"
  using path_Clean_snoc2 [of "ns @ CHR ''/'' # t" p n] assms
  by (simp add: path_Join_def join_with_def)

lemma segmentKey_prefix: "plNamespace l \<noteq> [] \<Longrightarrow> segmentKey l b = segmentPrefix l @ segment_name b"
  and indexKey_prefix: "plNamespace l \<noteq> [] \<Longrightarrow> indexKey l b = segmentPrefix l @ index_name b"
  by (simp_all add: segmentKey_def indexKey_def segmentPrefix_def path_Join_plain plain_fmt_d plain_segment_name)

lemma segmentKey_inj:
  assumes "plNamespace l \<noteq> []" "in_i64 a" "in_i64 b"
  shows "segmentKey l a = segmentKey l b \<longleftrightarrow> a = b" and "indexKey l a = indexKey l b \<longleftrightarrow> a = b"
  using assms by (auto simp: segmentKey_prefix indexKey_prefix segment_name_def index_name_def fmt_020d_inj)

lemma parse_segmentKey:
  assumes "plNamespace l \<noteq> []" "in_i64 b"
  shows "parseSegmentBaseOffset (segmentKey l b) = Some b"
proof -
  have "path_Base (segmentKey l b) = segment_name b"
    unfolding segmentKey_prefix [OF assms(1)]
    by (rule path_Base_append) (simp_all add: plain_segment_name segmentPrefix_def)
  moreover have "TrimSuffix (TrimPrefix (segment_name b) ''segment-'') ''.kfs'' = fmt_020d b"
    unfolding segment_name_def TrimPrefix_append by (rule TrimSuffix_append)
  moreover have "HasPrefix (segment_name b) ''segment-''" "HasSuffix (segment_name b) ''.kfs''"
    using HasPrefix_append [of "''segment-''"] HasSuffix_append [of "''segment-'' @ fmt_020d b"]
    by (simp_all add: segment_name_def)
  ultimately show ?thesis
    using ParseInt_fmt_020d [OF assms(2)] by (simp add: parseSegmentBaseOffset_def Let_def)
qed

lemma segmentKey_suffix: "plNamespace l \<noteq> [] \<Longrightarrow> HasSuffix (segmentKey l b) ''.kfs''"
  using HasSuffix_append [of "segmentPrefix l @ ''segment-'' @ fmt_020d b" "''.kfs''"]
  by (simp add: segmentKey_prefix segment_name_def)

section \<open>The index search\<close>

lemma find_entry_loop_safe:
  assumes "0 \<le> lo" "hi < int (length es)" "es \<noteq> []"
  shows "find_entry_loop es off lo hi \<in> set es \<and>
    (ieOffset (es ! 0) \<le> off \<longrightarrow> ieOffset (find_entry_loop es off lo hi) \<le> off)"
  using assms
proof (induction es off lo hi rule: find_entry_loop.induct)
  case (1 es off lo hi)
  show ?case
  proof (cases "lo \<le> hi")
    case False
    with "1.prems" show ?thesis by (simp add: find_entry_loop.simps [of es off lo hi])
  next
    case True
    define mid where "mid = (lo + hi) div 2"
    have mid: "lo \<le> mid" "mid \<le> hi" using True by (auto simp: mid_def)
    then have "es ! nat mid \<in> set es" using "1.prems" by simp
    with True mid "1.prems" "1.IH" [OF True mid_def] show ?thesis
      by (simp add: find_entry_loop.simps [of es off lo hi] Let_def flip: mid_def)
  qed
qed

lemma findIndexEntry_safe:
  assumes "es \<noteq> []"
  shows "findIndexEntry es off \<in> set es"
    and "ieOffset (hd es) \<le> off \<Longrightarrow> ieOffset (findIndexEntry es off) \<le> off"
  using assms find_entry_loop_safe [of 0 "int (length es) - 1" es off]
  by (auto simp: findIndexEntry_def hd_conv_nth)

section \<open>Contiguous batches\<close>

text \<open>
  The batches \<open>bs\<close> cover the offsets from \<open>s\<close> up to (and without) \<open>e\<close>: each starts where the
  one before it ends, and its bytes carry its base offset.
\<close>

fun chain :: "int \<Rightarrow> record_batch list \<Rightarrow> int \<Rightarrow> bool" where
  "chain s [] e \<longleftrightarrow> s = e"
| "chain s (b # bs) e \<longleftrightarrow>
     rbBaseOffset b = s \<and> 0 \<le> rbLastOffsetDelta b \<and>
     8 \<le> length (rbBytes b) \<and> take 8 (rbBytes b) = be 8 s \<and>
     chain (s + rbLastOffsetDelta b + 1) bs e"

lemma chain_append: "chain s (xs @ ys) e \<longleftrightarrow> (\<exists>m. chain s xs m \<and> chain m ys e)"
  by (induction xs arbitrary: s) auto

lemma chain_le: "chain s bs e \<Longrightarrow> s \<le> e"
  by (induction bs arbitrary: s) fastforce+

lemma chain_less: "chain s bs e \<Longrightarrow> bs \<noteq> [] \<Longrightarrow> s < e"
  by (cases bs) (auto dest: chain_le)

lemma chain_last: "chain s bs e \<Longrightarrow> bs \<noteq> [] \<Longrightarrow> rbBaseOffset (last bs) + rbLastOffsetDelta (last bs) = e - 1"
  by (cases bs rule: rev_cases) (auto simp: chain_append)

lemma chain_hd: "chain s bs e \<Longrightarrow> bs \<noteq> [] \<Longrightarrow> rbBaseOffset (hd bs) = s"
  by (cases bs) auto

lemma chain_bytes: "chain s bs e \<Longrightarrow> \<forall>b \<in> set bs. rbBytes b \<noteq> []"
  by (induction bs arbitrary: s) auto

lemma chain_base: "chain s bs e \<Longrightarrow> b \<in> set bs \<Longrightarrow> s \<le> rbBaseOffset b \<and> rbBaseOffset b < e"
  by (induction bs arbitrary: s) (fastforce dest: chain_le)+

lemma chain_end: "chain s bs e \<Longrightarrow> b \<in> set bs \<Longrightarrow> rbBaseOffset b + rbLastOffsetDelta b < e"
  by (induction bs arbitrary: s) (fastforce dest: chain_le)+

lemma chain_covers:
  assumes "chain s bs e" "s \<le> off" "off < e"
  shows "\<exists>j < length bs. rbBaseOffset (bs ! j) \<le> off \<and> off \<le> rbBaseOffset (bs ! j) + rbLastOffsetDelta (bs ! j)"
  using assms
proof (induction bs arbitrary: s)
  case (Cons b bs)
  show ?case
  proof (cases "off \<le> s + rbLastOffsetDelta b")
    case True
    with Cons.prems show ?thesis by (intro exI [of _ 0]) auto
  next
    case False
    with Cons obtain j where "j < length bs" "rbBaseOffset (bs ! j) \<le> off"
      "off \<le> rbBaseOffset (bs ! j) + rbLastOffsetDelta (bs ! j)" by fastforce
    then show ?thesis by (intro exI [of _ "Suc j"]) simp
  qed
qed simp

lemma chain_sorted:
  assumes "chain s bs e" "i < j" "j < length bs"
  shows "rbBaseOffset (bs ! i) + rbLastOffsetDelta (bs ! i) < rbBaseOffset (bs ! j)"
  using assms
proof (induction bs arbitrary: s i j)
  case (Cons b bs)
  then obtain j' where j': "j = Suc j'" by (cases j) auto
  show ?case
  proof (cases i)
    case 0
    from Cons.prems j' have "bs ! j' \<in> set bs" by simp
    with Cons.prems have "s + rbLastOffsetDelta b + 1 \<le> rbBaseOffset (bs ! j')"
      by (auto dest: chain_base)
    with Cons.prems 0 j' show ?thesis by simp
  next
    case (Suc i')
    with Cons j' show ?thesis by fastforce
  qed
qed simp

section \<open>What the auxiliary operations leave alone\<close>

text \<open>The state without the cache, the events and the pending read-ahead tasks.\<close>

definition core :: "'s plog \<Rightarrow> 's plog" where
  "core l = l\<lparr>plCache := None, plEvents := [], plPrefetch := []\<rparr>"

lemma core_fields:
  assumes "core l' = core l"
  shows "plNamespace l' = plNamespace l" "plTopic l' = plTopic l" "plPartition l' = plPartition l"
    "plS3 l' = plS3 l" "plCfg l' = plCfg l" "plBuffer l' = plBuffer l" "plNextOffset l' = plNextOffset l"
    "plSegments l' = plSegments l" "plIndexEntries l' = plIndexEntries l"
    "plHasOnFlush l' = plHasOnFlush l" "plHasOnS3Op l' = plHasOnS3Op l"
  using assms by (cases l; cases l'; simp add: core_def)+

lemma core_plCache: "core (l\<lparr>plCache := c\<rparr>) = core l"
  by (simp add: core_def)

lemma core_plPrefetch: "core (l\<lparr>plPrefetch := ts\<rparr>) = core l"
  by (simp add: core_def)

lemma core_callS3Op [simp]: "core (callS3Op n d r l) = core l"
  by (simp add: core_def callS3Op_def)

lemma core_callFlush [simp]: "core (callFlush a l) = core l"
  by (simp add: core_def callFlush_def)

lemma core_cache_set [simp]: "core (cache_set b d l) = core l"
  by (simp add: core_def cache_set_def split: option.splits)

lemma core_startPrefetch [simp]: "core (startPrefetch i l) = core l"
  by (simp add: core_def startPrefetch_def split: option.splits prod.splits)

lemma core_cache_lookup [simp]: "core (snd (cache_lookup b l)) = core l"
  by (simp add: core_def cache_lookup_def split: option.splits prod.splits)

lemmas callS3Op_fields [simp] = core_fields [OF core_callS3Op]
lemmas callFlush_fields [simp] = core_fields [OF core_callFlush]
lemmas cache_set_fields [simp] = core_fields [OF core_cache_set]
lemmas startPrefetch_fields [simp] = core_fields [OF core_startPrefetch]
lemmas cache_lookup_fields [simp] = core_fields [OF core_cache_lookup]

lemma core_cong:
  "core l' = core l \<Longrightarrow> core (l'\<lparr>plS3 := s\<rparr>) = core (l\<lparr>plS3 := s\<rparr>)"
  "core l' = core l \<Longrightarrow> core (l'\<lparr>plSegments := sg, plIndexEntries := ix\<rparr>) = core (l\<lparr>plSegments := sg, plIndexEntries := ix\<rparr>)"
  by (cases l; cases l'; simp add: core_def)+

lemma keys_cong:
  assumes "plNamespace l' = plNamespace l" "plTopic l' = plTopic l" "plPartition l' = plPartition l"
  shows "segmentKey l' = segmentKey l" "indexKey l' = indexKey l"
    "segmentPrefix l' = segmentPrefix l" "cacheTopicKey l' = cacheTopicKey l"
  using assms by (auto simp: segmentKey_def indexKey_def segmentPrefix_def cacheTopicKey_def)

lemma keys_update [simp]:
  "segmentKey (l\<lparr>plS3 := s\<rparr>) = segmentKey l" "indexKey (l\<lparr>plS3 := s\<rparr>) = indexKey l"
  "segmentKey (l\<lparr>plBuffer := bf\<rparr>) = segmentKey l" "indexKey (l\<lparr>plBuffer := bf\<rparr>) = indexKey l"
  "segmentKey (callS3Op n d r l) = segmentKey l" "indexKey (callS3Op n d r l) = indexKey l"
  by (rule keys_cong; simp)+

section \<open>The invariant\<close>

text \<open>
  \<open>seg_stored segs idx l s g\<close>: segment \<open>s\<close> of the log is in the store as the serialisation of
  the batches \<open>g\<close>, together with its index, and the index in memory is the one in the store.
\<close>

definition seg_stored :: "('s \<Rightarrow> string \<Rightarrow> bytes option) \<Rightarrow> ('s \<Rightarrow> string \<Rightarrow> bytes option)
    \<Rightarrow> 's plog \<Rightarrow> segment_range \<Rightarrow> record_batch list \<Rightarrow> bool" where
  "seg_stored segs idx l s g \<longleftrightarrow>
     (\<exists>t a. BuildSegment (pcSegment (plCfg l)) g t = Ok a \<and>
        chain (srBase s) g (srLast s + 1) \<and> 0 \<le> srBase s \<and> srLast s + 1 < 2 ^ 63 \<and>
        srSize s = int (length (saSegmentBytes a)) \<and>
        segs (plS3 l) (segmentKey l (srBase s)) = Some (saSegmentBytes a) \<and>
        idx (plS3 l) (indexKey l (srBase s)) = Some (saIndexBytes a) \<and>
        plIndexEntries l (srBase s) = Some (saRelativeIndex a))"

text \<open>
  \<open>log_inv segs idx ok l groups\<close>: the recorded segments hold the batch groups \<open>groups\<close>, their
  offset ranges are disjoint and ascending, and the buffered batches follow them without a gap
  among themselves up to the next offset.
\<close>

definition log_inv :: "('s \<Rightarrow> string \<Rightarrow> bytes option) \<Rightarrow> ('s \<Rightarrow> string \<Rightarrow> bytes option) \<Rightarrow> ('s \<Rightarrow> bool)
    \<Rightarrow> 's plog \<Rightarrow> record_batch list list \<Rightarrow> bool" where
  "log_inv segs idx ok l groups \<longleftrightarrow>
     ok (plS3 l) \<and> plNamespace l \<noteq> [] \<and> wb_inv (plBuffer l) \<and>
     list_all2 (seg_stored segs idx l) (plSegments l) groups \<and>
     sorted_wrt (\<lambda>a b. srLast a < srBase b) (plSegments l) \<and>
     (\<exists>start. 0 \<le> start \<and> (\<forall>s \<in> set (plSegments l). srLast s < start) \<and>
        chain start (wbBatches (plBuffer l)) (plNextOffset l)) \<and>
     plNextOffset l < 2 ^ 63"

text \<open>The cache and the read-ahead tasks hold nothing but stored segments of the log.\<close>

definition own_keys :: "'s plog \<Rightarrow> cache_key set" where
  "own_keys l = {(cacheTopicKey l, plPartition l, b) | b. True}"

definition stored_data :: "('s \<Rightarrow> string \<Rightarrow> bytes option) \<Rightarrow> 's plog \<Rightarrow> cache_key \<Rightarrow> bytes option" where
  "stored_data segs l = (\<lambda>(t, p, b).
     if b \<in> srBase ` set (plSegments l) then segs (plS3 l) (segmentKey l b) else None)"

fun task_ok :: "('s \<Rightarrow> string \<Rightarrow> bytes option) \<Rightarrow> 's plog \<Rightarrow> prefetch_task \<Rightarrow> bool" where
  "task_ok segs l (PfDownload seg) \<longleftrightarrow> seg \<in> set (plSegments l)"
| "task_ok segs l (PfStore seg d) \<longleftrightarrow>
     seg \<in> set (plSegments l) \<and> segs (plS3 l) (segmentKey l (srBase seg)) = Some d"

definition cache_ok :: "('s \<Rightarrow> string \<Rightarrow> bytes option) \<Rightarrow> 's plog \<Rightarrow> bool" where
  "cache_ok segs l \<longleftrightarrow>
     (\<forall>c. plCache l = Some c \<longrightarrow> lru.coherent (own_keys l) (stored_data segs l) c) \<and>
     list_all (task_ok segs l) (plPrefetch l)"

lemma list_all2_seg_stored_cong:
  assumes "\<And>s. s \<in> set (plSegments l) \<Longrightarrow> segs (plS3 l') (segmentKey l' (srBase s)) = segs (plS3 l) (segmentKey l (srBase s))"
    and "\<And>s. s \<in> set (plSegments l) \<Longrightarrow> idx (plS3 l') (indexKey l' (srBase s)) = idx (plS3 l) (indexKey l (srBase s))"
    and "\<And>s. s \<in> set (plSegments l) \<Longrightarrow> plIndexEntries l' (srBase s) = plIndexEntries l (srBase s)"
    and "plCfg l' = plCfg l" "list_all2 (seg_stored segs idx l) (plSegments l) groups"
  shows "list_all2 (seg_stored segs idx l') (plSegments l) groups"
  using assms(5) by (rule list.rel_mono_strong) (auto simp: seg_stored_def assms(1-4))

section \<open>Flushing\<close>

lemma callS3Op_cache [simp]:
  "plCache (callS3Op n d r l) = plCache l" "plPrefetch (callS3Op n d r l) = plPrefetch l"
  by (simp_all add: callS3Op_def)

lemma callFlush_cache [simp]:
  "plCache (callFlush a l) = plCache l" "plPrefetch (callFlush a l) = plPrefetch l"
  by (simp_all add: callFlush_def)

lemma cache_set_cache [simp]:
  "plPrefetch (cache_set b d l) = plPrefetch l"
  "plCache (cache_set b d l) = map_option (SetSegment (cacheTopicKey l) (plPartition l) b d) (plCache l)"
  by (simp_all add: cache_set_def split: option.splits)

text \<open>The three ways a flush of a non-empty buffer ends.\<close>

lemma flushLocked_upload_err:
  assumes "Drain (plBuffer l) (clk 0) = (bs, buf)" "bs \<noteq> []" "BuildSegment (pcSegment (plCfg l)) bs (clk 1) = Ok a"
    and "s3UploadSegment ops (segmentKey l (saBaseOffset a)) (saSegmentBytes a) (plS3 l) = (Err e, s1)"
  shows "\<exists>l'. flushLocked ops clk l = (Err e, l') \<and> core l' = core (l\<lparr>plBuffer := buf, plS3 := s1\<rparr>) \<and>
           plCache l' = plCache l \<and> plPrefetch l' = plPrefetch l"
  using assms by (simp add: flushLocked_def Let_def)

lemma flushLocked_index_err:
  assumes "Drain (plBuffer l) (clk 0) = (bs, buf)" "bs \<noteq> []" "BuildSegment (pcSegment (plCfg l)) bs (clk 1) = Ok a"
    and "s3UploadSegment ops (segmentKey l (saBaseOffset a)) (saSegmentBytes a) (plS3 l) = (Ok (), s1)"
    and "s3UploadIndex ops (indexKey l (saBaseOffset a)) (saIndexBytes a) s1 = (Err e, s2)"
  shows "\<exists>l'. flushLocked ops clk l = (Err e, l') \<and> core l' = core (l\<lparr>plBuffer := buf, plS3 := s2\<rparr>) \<and>
           plCache l' = plCache l \<and> plPrefetch l' = plPrefetch l"
proof -
  let ?l1 = "callS3Op ''upload_segment'' (timeSub (clk 3) (clk 2)) (Ok ()) (l\<lparr>plBuffer := buf, plS3 := s1\<rparr>)"
  have "core (?l1\<lparr>plS3 := s2\<rparr>) = core (l\<lparr>plBuffer := buf, plS3 := s1, plS3 := s2\<rparr>)"
    by (rule core_cong) simp
  with assms show ?thesis by (simp add: flushLocked_def Let_def)
qed

definition new_segment :: "segment_artifact \<Rightarrow> segment_range" where
  "new_segment a = \<lparr>srBase = saBaseOffset a, srLast = saLastOffset a, srSize = int (length (saSegmentBytes a))\<rparr>"

definition flushed :: "segment_artifact \<Rightarrow> write_buffer \<Rightarrow> 's \<Rightarrow> 's plog \<Rightarrow> 's plog" where
  "flushed a buf s l = l\<lparr>plBuffer := buf, plS3 := s, plSegments := plSegments l @ [new_segment a],
     plIndexEntries := (plIndexEntries l)(saBaseOffset a := Some (saRelativeIndex a))\<rparr>"

lemma flushLocked_ok:
  assumes "Drain (plBuffer l) (clk 0) = (bs, buf)" "bs \<noteq> []" "BuildSegment (pcSegment (plCfg l)) bs (clk 1) = Ok a"
    and "s3UploadSegment ops (segmentKey l (saBaseOffset a)) (saSegmentBytes a) (plS3 l) = (Ok (), s1)"
    and "s3UploadIndex ops (indexKey l (saBaseOffset a)) (saIndexBytes a) s1 = (Ok (), s2)"
  shows "\<exists>l2. flushLocked ops clk l = (Ok (Some a), startPrefetch (int (length (plSegments l))) l2) \<and>
           core l2 = core (flushed a buf s2 l) \<and> plPrefetch l2 = plPrefetch l \<and>
           (plCache l2 = plCache l \<or>
            plCache l2 = map_option (SetSegment (cacheTopicKey l) (plPartition l) (saBaseOffset a) (saSegmentBytes a)) (plCache l))"
proof -
  let ?l1 = "callS3Op ''upload_segment'' (timeSub (clk 3) (clk 2)) (Ok ()) (l\<lparr>plBuffer := buf, plS3 := s1\<rparr>)"
  let ?l2 = "callS3Op ''upload_index'' (timeSub (clk 5) (clk 4)) (Ok ()) (?l1\<lparr>plS3 := s2\<rparr>)"
  define l3 where "l3 = (if plCache l \<noteq> None \<and> pcCacheEnabled (plCfg l)
             then cache_set (saBaseOffset a) (saSegmentBytes a) ?l2 else ?l2)"
  let ?l4 = "l3\<lparr>plSegments := plSegments l @ [new_segment a],
     plIndexEntries := (plIndexEntries l)(saBaseOffset a := Some (saRelativeIndex a))\<rparr>"
  have flush: "flushLocked ops clk l = (Ok (Some a), startPrefetch (int (length (plSegments l))) ?l4)"
    using assms by (simp add: flushLocked_def Let_def new_segment_def l3_def)
  have "core ?l2 = core (?l1\<lparr>plS3 := s2\<rparr>)" by simp
  also have "\<dots> = core (l\<lparr>plBuffer := buf, plS3 := s1, plS3 := s2\<rparr>)"
    by (rule core_cong) simp
  finally have "core l3 = core (l\<lparr>plBuffer := buf, plS3 := s2\<rparr>)"
    by (simp add: l3_def)
  from core_cong(2) [OF this] have "core ?l4 = core (flushed a buf s2 l)"
    by (simp add: flushed_def)
  moreover have "cacheTopicKey ?l2 = cacheTopicKey l"
    by (rule keys_cong) simp_all
  then have "plPrefetch l3 = plPrefetch l \<and> (plCache l3 = plCache l \<or>
      plCache l3 = map_option (SetSegment (cacheTopicKey l) (plPartition l) (saBaseOffset a) (saSegmentBytes a)) (plCache l))"
    by (simp add: l3_def)
  ultimately show ?thesis
    using flush by (intro exI [of _ ?l4]) simp
qed

lemma flushLocked_empty:
  assumes "Drain (plBuffer l) (clk 0) = ([], buf)"
  shows "flushLocked ops clk l = (Ok None, l\<lparr>plBuffer := buf\<rparr>)"
  using assms by (simp add: flushLocked_def Let_def)

lemma BuildSegment_chain:
  assumes "chain start bs e" "bs \<noteq> []" "0 \<le> start" "e < 2 ^ 63"
  obtains a where "BuildSegment cfg bs t = Ok a" "saBaseOffset a = start" "saLastOffset a = e - 1"
proof -
  from BuildSegment_total [OF assms(2) chain_bytes [OF assms(1)]] obtain a where a: "BuildSegment cfg bs t = Ok a"
    by blast
  have "saBaseOffset a = start"
    using BuildSegment_Ok(3) [OF a] chain_hd [OF assms(1,2)] by simp
  moreover have "saLastOffset a = e - 1"
    using BuildSegment_Ok(4) [OF a] chain_last [OF assms(1,2)] chain_less [OF assms(1,2)] assms(3,4)
    by (simp add: i64_id in_i64_def)
  ultimately show thesis using that a by blast
qed

section \<open>The cache only holds stored segments\<close>

lemma own_keys_cong: "cacheTopicKey l' = cacheTopicKey l \<Longrightarrow> plPartition l' = plPartition l \<Longrightarrow> own_keys l' = own_keys l"
  by (simp add: own_keys_def)

lemma core_keys:
  assumes "core l' = core l"
  shows "segmentKey l' = segmentKey l" "indexKey l' = indexKey l"
    "segmentPrefix l' = segmentPrefix l" "cacheTopicKey l' = cacheTopicKey l" "own_keys l' = own_keys l"
  using keys_cong [OF core_fields(1-3) [OF assms]] own_keys_cong core_fields(3) [OF assms] by auto

lemma cache_ok_core:
  assumes "core l' = core l"
  shows "task_ok segs l' = task_ok segs l" "stored_data segs l' = stored_data segs l" "own_keys l' = own_keys l"
proof -
  show "task_ok segs l' = task_ok segs l"
  proof
    fix t show "task_ok segs l' t = task_ok segs l t"
      by (cases t) (simp_all add: core_fields [OF assms] core_keys [OF assms])
  qed
  show "stored_data segs l' = stored_data segs l" "own_keys l' = own_keys l"
    by (simp_all add: stored_data_def core_fields [OF assms] core_keys [OF assms] cong: if_cong)
qed

lemma task_ok_store: "segs s' = segs (plS3 l) \<Longrightarrow> task_ok segs (l\<lparr>plS3 := s'\<rparr>) t = task_ok segs l t"
  by (cases t) simp_all

lemma cache_ok_mono:
  assumes "cache_ok segs l"
    and "plNamespace l' = plNamespace l" "plTopic l' = plTopic l" "plPartition l' = plPartition l"
    and sub: "set (plSegments l) \<subseteq> set (plSegments l')"
    and same: "\<And>s. s \<in> set (plSegments l) \<Longrightarrow>
                 segs (plS3 l') (segmentKey l (srBase s)) = segs (plS3 l) (segmentKey l (srBase s))"
    and "plCache l' = plCache l" "plPrefetch l' = plPrefetch l"
  shows "cache_ok segs l'"
proof -
  note k = keys_cong [OF assms(2-4)]
  have own: "own_keys l' = own_keys l" using k(4) assms(4) by (rule own_keys_cong)
  have "b \<in> srBase ` set (plSegments l) \<Longrightarrow> b \<in> srBase ` set (plSegments l') \<and>
      segs (plS3 l') (segmentKey l b) = segs (plS3 l) (segmentKey l b)" for b
    using sub same by auto
  then have mono: "stored_data segs l x = Some d \<Longrightarrow> stored_data segs l' x = Some d" for x d
    by (cases x) (auto simp: stored_data_def k split: if_splits)
  have "task_ok segs l t \<Longrightarrow> task_ok segs l' t" for t
    using sub same by (cases t) (auto simp: k)
  with assms(1,7,8) own show ?thesis
    unfolding cache_ok_def using lru.coherent_mono mono by (metis (mono_tags, lifting) list.pred_mono_strong)
qed

lemma cache_ok_put:
  assumes "cache_ok segs l" "core l' = core l" "plPrefetch l' = plPrefetch l"
    and "plCache l' = map_option (SetSegment (cacheTopicKey l) (plPartition l) b d) (plCache l)"
    and "b \<in> srBase ` set (plSegments l)" "segs (plS3 l) (segmentKey l b) = Some d"
  shows "cache_ok segs l'"
proof -
  have "stored_data segs l (cacheTopicKey l, plPartition l, b) = Some d"
    using assms(5,6) by (simp add: stored_data_def)
  then have "lru.coherent (own_keys l) (stored_data segs l) c \<Longrightarrow>
      lru.coherent (own_keys l) (stored_data segs l) (SetSegment (cacheTopicKey l) (plPartition l) b d c)" for c
    using lru.coherent_put [of "own_keys l" "stored_data segs l" c "(cacheTopicKey l, plPartition l, b)" d]
    by (simp add: cache_put_def)
  with assms(1,3,4) show ?thesis by (auto simp: cache_ok_def cache_ok_core [OF assms(2)])
qed

lemma prefetch_loop_ok:
  assumes "lru.coherent K truth c" "\<forall>s \<in> set ss. P (PfDownload s)" "list_all P tasks"
    and "prefetch_loop ss t p c tasks = (c', tasks')"
  shows "lru.coherent K truth c' \<and> list_all P tasks'"
  using assms
proof (induction ss t p c tasks rule: prefetch_loop.induct)
  case (2 seg ss t p c tasks)
  obtain r c1 where g: "GetSegment c t p (srBase seg) = (r, c1)" by fastforce
  have "lru.coherent K truth c1"
    using lru.coherent_get_snd [OF "2.prems"(1), of "(t, p, srBase seg)"] g by (simp add: cache_get_def)
  with 2 g show ?case by (cases r) auto
qed simp

lemma cache_ok_startPrefetch:
  assumes "cache_ok segs l"
  shows "cache_ok segs (startPrefetch i l)"
proof (cases "plCache l")
  case None
  with assms show ?thesis by (simp add: startPrefetch_def)
next
  case (Some c)
  define ss where "ss = take (nat (pcReadAheadSegments (plCfg l))) (drop (nat i) (plSegments l))"
  obtain c' tasks where p: "prefetch_loop ss (cacheTopicKey l) (plPartition l) c (plPrefetch l) = (c', tasks)"
    by fastforce
  have "\<forall>s \<in> set ss. task_ok segs l (PfDownload s)"
    by (auto simp: ss_def dest: in_set_takeD in_set_dropD)
  with assms Some have "lru.coherent (own_keys l) (stored_data segs l) c' \<and> list_all (task_ok segs l) tasks"
    by (intro prefetch_loop_ok [OF _ _ _ p]) (auto simp: cache_ok_def)
  moreover have "plCache (startPrefetch i l) = Some c' \<and> plPrefetch (startPrefetch i l) = tasks \<or> startPrefetch i l = l"
    using p Some by (auto simp: startPrefetch_def simp flip: ss_def)
  ultimately show ?thesis
    using assms by (auto simp: cache_ok_def cache_ok_core [OF core_startPrefetch])
qed

lemma cache_ok_lookup:
  assumes "cache_ok segs l"
  shows "cache_ok segs (snd (cache_lookup b l))"
    and "fst (cache_lookup b l) = Some d \<Longrightarrow>
           b \<in> srBase ` set (plSegments l) \<and> segs (plS3 l) (segmentKey l b) = Some d"
proof -
  have "lru.coherent (own_keys l) (stored_data segs l) c \<Longrightarrow>
      lru.coherent (own_keys l) (stored_data segs l) (snd (GetSegment c (cacheTopicKey l) (plPartition l) b))" for c
    using lru.coherent_get_snd [of "own_keys l" "stored_data segs l" c "(cacheTopicKey l, plPartition l, b)"]
    by (simp add: cache_get_def)
  then have "plCache l = Some c \<Longrightarrow> cache_ok segs (l\<lparr>plCache := Some (snd (GetSegment c (cacheTopicKey l) (plPartition l) b))\<rparr>)" for c
    using assms by (simp add: cache_ok_def cache_ok_core [OF core_plCache])
  then show "cache_ok segs (snd (cache_lookup b l))"
    using assms by (auto simp: cache_lookup_def split_def split: option.splits)
  assume "fst (cache_lookup b l) = Some d"
  then obtain c where c: "plCache l = Some c" "fst (GetSegment c (cacheTopicKey l) (plPartition l) b) = Some d"
    by (auto simp: cache_lookup_def split: option.splits if_splits prod.splits)
  with assms have "stored_data segs l (cacheTopicKey l, plPartition l, b) = Some d"
    using lru.coherent_get [of "own_keys l" "stored_data segs l" c "(cacheTopicKey l, plPartition l, b)" d]
    by (simp add: cache_ok_def own_keys_def cache_get_def)
  then show "b \<in> srBase ` set (plSegments l) \<and> segs (plS3 l) (segmentKey l b) = Some d"
    by (simp add: stored_data_def split: if_splits)
qed

section \<open>The operations keep the invariant\<close>

lemma seg_stored_core: "core l' = core l \<Longrightarrow> seg_stored segs idx l' = seg_stored segs idx l"
  by (intro ext) (simp add: seg_stored_def core_fields [of l' l] core_keys [of l' l])

lemma log_inv_core: "core l' = core l \<Longrightarrow> log_inv segs idx ok l' = log_inv segs idx ok l"
  by (intro ext) (simp add: log_inv_def seg_stored_core [of l' l] core_fields [of l' l])

lemma seg_stored_range: "seg_stored segs idx l s g \<Longrightarrow> in_i64 (srBase s) \<and> srBase s \<le> srLast s"
proof -
  assume "seg_stored segs idx l s g"
  then obtain t a where *: "BuildSegment (pcSegment (plCfg l)) g t = Ok a" "chain (srBase s) g (srLast s + 1)"
    "0 \<le> srBase s" "srLast s + 1 < 2 ^ 63" by (auto simp: seg_stored_def)
  with chain_less [OF *(2) BuildSegment_Ok(1) [OF *(1)]] show ?thesis by (simp add: in_i64_def)
qed

lemma log_inv_seg:
  assumes "log_inv segs idx ok l groups" "s \<in> set (plSegments l)"
  shows "\<exists>g \<in> set groups. seg_stored segs idx l s g"
proof -
  from assms have "list_all2 (seg_stored segs idx l) (plSegments l) groups"
    by (simp add: log_inv_def)
  with assms(2) show ?thesis by (metis in_set_conv_nth list_all2_conv_all_nth nth_mem)
qed

lemma Drain_simps:
  "fst (Drain b now) = wbBatches b" "wbBatches (snd (Drain b now)) = []"
  by (simp_all add: Drain_def)

text \<open>A change of the store that leaves the objects of the recorded segments alone.\<close>

lemma log_inv_store:
  assumes "log_inv segs idx ok l groups" "ok s'"
    and "\<And>s. s \<in> set (plSegments l) \<Longrightarrow>
           segs s' (segmentKey l (srBase s)) = segs (plS3 l) (segmentKey l (srBase s)) \<and>
           idx s' (indexKey l (srBase s)) = idx (plS3 l) (indexKey l (srBase s))"
  shows "log_inv segs idx ok (l\<lparr>plS3 := s'\<rparr>) groups"
proof -
  have "list_all2 (seg_stored segs idx (l\<lparr>plS3 := s'\<rparr>)) (plSegments l) groups"
    by (rule list_all2_seg_stored_cong [where l = l]) (use assms in \<open>auto simp: log_inv_def\<close>)
  with assms(1,2) show ?thesis by (auto simp: log_inv_def)
qed

lemma log_inv_drained:
  assumes "log_inv segs idx ok l groups"
  shows "log_inv segs idx ok (l\<lparr>plBuffer := snd (Drain (plBuffer l) t)\<rparr>) groups"
proof -
  let ?l' = "l\<lparr>plBuffer := snd (Drain (plBuffer l) t)\<rparr>"
  have "list_all2 (seg_stored segs idx ?l') (plSegments l) groups"
    by (rule list_all2_seg_stored_cong [where l = l]) (use assms in \<open>auto simp: log_inv_def\<close>)
  moreover from assms obtain start where "0 \<le> start" "\<forall>s \<in> set (plSegments l). srLast s < start"
    "chain start (wbBatches (plBuffer l)) (plNextOffset l)" by (auto simp: log_inv_def)
  then have "0 \<le> plNextOffset l" "\<forall>s \<in> set (plSegments l). srLast s < plNextOffset l"
    using chain_le by fastforce+
  ultimately show ?thesis
    using assms by (auto simp: log_inv_def Drain_simps)
qed

text \<open>The base offset of the next segment is not that of a recorded one, nor are its keys.\<close>

lemma next_base_fresh:
  assumes inv: "log_inv segs idx ok l groups" and ne: "wbBatches (plBuffer l) \<noteq> []"
    and a: "BuildSegment (pcSegment (plCfg l)) (wbBatches (plBuffer l)) t = Ok a"
    and s: "s \<in> set (plSegments l)"
  shows "srLast s < saBaseOffset a" "segmentKey l (srBase s) \<noteq> segmentKey l (saBaseOffset a)"
    "indexKey l (srBase s) \<noteq> indexKey l (saBaseOffset a)"
proof -
  obtain start where start: "0 \<le> start" "\<forall>s \<in> set (plSegments l). srLast s < start"
    "chain start (wbBatches (plBuffer l)) (plNextOffset l)" "plNextOffset l < 2 ^ 63"
    using inv by (auto simp: log_inv_def)
  have ab: "saBaseOffset a = start"
    using BuildSegment_chain [OF start(3) ne start(1) start(4)] a by (metis outcome.inject(1))
  have "in_i64 (srBase s)" "srBase s \<le> srLast s"
    using log_inv_seg [OF inv s] seg_stored_range by blast+
  moreover have "in_i64 start"
    using start(1,4) chain_less [OF start(3) ne] by (simp add: in_i64_def)
  moreover have "plNamespace l \<noteq> []" using inv by (simp add: log_inv_def)
  ultimately show "srLast s < saBaseOffset a" "segmentKey l (srBase s) \<noteq> segmentKey l (saBaseOffset a)"
    "indexKey l (srBase s) \<noteq> indexKey l (saBaseOffset a)"
    using start(2) s ab segmentKey_inj [of l "srBase s" start] by fastforce+
qed

lemma log_inv_flushed:
  assumes inv: "log_inv segs idx ok l groups" and ne: "wbBatches (plBuffer l) \<noteq> []"
    and a: "BuildSegment (pcSegment (plCfg l)) (wbBatches (plBuffer l)) t = Ok a"
    and ok: "ok s'" "segs s' = (segs (plS3 l))(segmentKey l (saBaseOffset a) \<mapsto> saSegmentBytes a)"
      "idx s' = (idx (plS3 l))(indexKey l (saBaseOffset a) \<mapsto> saIndexBytes a)"
  shows "log_inv segs idx ok (flushed a (snd (Drain (plBuffer l) t0)) s' l) (groups @ [wbBatches (plBuffer l)])"
proof -
  let ?l' = "flushed a (snd (Drain (plBuffer l) t0)) s' l" and ?b = "saBaseOffset a"
  note keys = keys_cong [of ?l' l]
  obtain start where start: "0 \<le> start" "\<forall>s \<in> set (plSegments l). srLast s < start"
    "chain start (wbBatches (plBuffer l)) (plNextOffset l)" "plNextOffset l < 2 ^ 63"
    using inv by (auto simp: log_inv_def)
  have ab: "?b = start" "saLastOffset a = plNextOffset l - 1"
    using BuildSegment_chain [OF start(3) ne start(1) start(4)] a by (metis outcome.inject(1))+
  have lt: "start < plNextOffset l" using chain_less [OF start(3) ne] .
  have other: "srBase s \<noteq> ?b \<and> segmentKey l (srBase s) \<noteq> segmentKey l ?b \<and> indexKey l (srBase s) \<noteq> indexKey l ?b"
    if "s \<in> set (plSegments l)" for s
    using next_base_fresh [OF inv ne a that] log_inv_seg [OF inv that] seg_stored_range by fastforce
  have "list_all2 (seg_stored segs idx ?l') (plSegments l) groups"
    by (rule list_all2_seg_stored_cong [where l = l])
      (use inv other ok keys in \<open>auto simp: log_inv_def flushed_def\<close>)
  moreover have "seg_stored segs idx ?l' (new_segment a) (wbBatches (plBuffer l))"
    unfolding seg_stored_def
    by (rule exI [of _ t], rule exI [of _ a])
      (use a ab start lt ok keys in \<open>simp add: flushed_def new_segment_def\<close>)
  ultimately have "list_all2 (seg_stored segs idx ?l') (plSegments ?l') (groups @ [wbBatches (plBuffer l)])"
    by (simp add: flushed_def list_all2_appendI)
  moreover have "sorted_wrt (\<lambda>a b. srLast a < srBase b) (plSegments ?l')"
    using inv start(2) ab by (auto simp: log_inv_def flushed_def sorted_wrt_append new_segment_def)
  moreover have "\<forall>s \<in> set (plSegments ?l'). srLast s < plNextOffset l"
    using start(2) lt ab by (fastforce simp: flushed_def new_segment_def)
  moreover have "0 \<le> plNextOffset l" using start lt by simp
  ultimately show ?thesis
    using inv ok(1) by (simp add: log_inv_def flushed_def Drain_simps)
qed

definition conf :: "'s plog \<Rightarrow> string \<times> string \<times> int \<times> plog_cfg" where
  "conf l = (plNamespace l, plTopic l, plPartition l, plCfg l)"

lemma conf_core: "core l' = core l \<Longrightarrow> conf l' = conf l"
  by (simp add: conf_def core_fields [of l' l])

lemma conf_keys:
  assumes "conf l' = conf l"
  shows "segmentKey l' = segmentKey l" "indexKey l' = indexKey l"
    "segmentPrefix l' = segmentPrefix l" "cacheTopicKey l' = cacheTopicKey l" "own_keys l' = own_keys l"
    "plCfg l' = plCfg l"
  using keys_cong [of l' l] own_keys_cong [of l' l] assms by (auto simp: conf_def)

fun flush_result :: "'s plog \<Rightarrow> segment_artifact option outcome \<Rightarrow> 's plog \<Rightarrow> record_batch list list
    \<Rightarrow> record_batch list list \<Rightarrow> bool" where
  "flush_result l (Ok None) l' groups groups' \<longleftrightarrow>
     wbBatches (plBuffer l) = [] \<and> groups' = groups \<and> plSegments l' = plSegments l"
| "flush_result l (Ok (Some a)) l' groups groups' \<longleftrightarrow>
     wbBatches (plBuffer l) \<noteq> [] \<and> groups' = groups @ [wbBatches (plBuffer l)] \<and>
     plSegments l' = plSegments l @ [new_segment a] \<and>
     (\<exists>t. BuildSegment (pcSegment (plCfg l)) (wbBatches (plBuffer l)) t = Ok a)"
| "flush_result l (Err e) l' groups groups' \<longleftrightarrow>
     wbBatches (plBuffer l) \<noteq> [] \<and> groups' = groups \<and> plSegments l' = plSegments l"
| "flush_result l Panic l' groups groups' \<longleftrightarrow> False"

lemma flush_result_prefix:
  "flush_result l r l' groups groups' \<Longrightarrow> prefix groups groups' \<and> prefix (plSegments l) (plSegments l')"
  by (cases "(l, r, l', groups, groups')" rule: flush_result.cases) auto

definition log_ok :: "('s \<Rightarrow> string \<Rightarrow> bytes option) \<Rightarrow> ('s \<Rightarrow> string \<Rightarrow> bytes option) \<Rightarrow> ('s \<Rightarrow> bool)
    \<Rightarrow> 's plog \<Rightarrow> record_batch list list \<Rightarrow> bool" where
  "log_ok segs idx ok l groups \<longleftrightarrow> log_inv segs idx ok l groups \<and> cache_ok segs l"

lemma log_ok_store:
  assumes "log_ok segs idx ok l groups" "ok s'"
    and "\<And>s. s \<in> set (plSegments l) \<Longrightarrow>
           segs s' (segmentKey l (srBase s)) = segs (plS3 l) (segmentKey l (srBase s)) \<and>
           idx s' (indexKey l (srBase s)) = idx (plS3 l) (indexKey l (srBase s))"
    and "core l' = core (l\<lparr>plS3 := s'\<rparr>)" "plCache l' = plCache l" "plPrefetch l' = plPrefetch l"
  shows "log_ok segs idx ok l' groups"
proof -
  have "log_inv segs idx ok l' groups"
    using log_inv_store [of segs idx ok l groups s'] assms(1-3) by (simp add: log_ok_def log_inv_core [OF assms(4)])
  moreover have "cache_ok segs l'"
    by (rule cache_ok_mono [where l = l])
      (use assms(1,3,5,6) in \<open>auto simp: log_ok_def core_fields [OF assms(4)]\<close>)
  ultimately show ?thesis by (simp add: log_ok_def)
qed

lemma log_ok_drained:
  assumes "log_ok segs idx ok l groups"
  shows "log_ok segs idx ok (l\<lparr>plBuffer := snd (Drain (plBuffer l) t)\<rparr>) groups"
proof -
  have "cache_ok segs (l\<lparr>plBuffer := snd (Drain (plBuffer l) t)\<rparr>)"
    by (rule cache_ok_mono [where l = l]) (use assms in \<open>auto simp: log_ok_def\<close>)
  with assms log_inv_drained show ?thesis by (auto simp: log_ok_def)
qed

context s3_contract
begin

lemma flush_err_ok:
  assumes l: "log_ok segs idx ok l groups" and ne: "wbBatches (plBuffer l) \<noteq> []"
    and a: "BuildSegment (pcSegment (plCfg l)) (wbBatches (plBuffer l)) t = Ok a"
    and s': "ok s'" "segs s' = segs (plS3 l) \<or> segs s' = (segs (plS3 l))(segmentKey l (saBaseOffset a) \<mapsto> saSegmentBytes a)"
      "idx s' = idx (plS3 l) \<or> idx s' = (idx (plS3 l))(indexKey l (saBaseOffset a) \<mapsto> saIndexBytes a)"
    and l': "core l' = core (l\<lparr>plBuffer := snd (Drain (plBuffer l) t0), plS3 := s'\<rparr>)"
      "plCache l' = plCache l" "plPrefetch l' = plPrefetch l"
  shows "log_ok segs idx ok l' groups"
proof -
  let ?l1 = "l\<lparr>plBuffer := snd (Drain (plBuffer l) t0)\<rparr>"
  have "log_ok segs idx ok ?l1 groups" using l by (rule log_ok_drained)
  moreover have "segs s' (segmentKey ?l1 (srBase s)) = segs (plS3 ?l1) (segmentKey ?l1 (srBase s)) \<and>
      idx s' (indexKey ?l1 (srBase s)) = idx (plS3 ?l1) (indexKey ?l1 (srBase s))"
    if "s \<in> set (plSegments ?l1)" for s
    using next_base_fresh [OF _ ne a, of segs idx ok groups s] l s'(2,3) that by (auto simp: log_ok_def)
  ultimately show ?thesis
    using log_ok_store [of segs idx ok ?l1 groups s' l'] s'(1) l' by simp
qed

lemma flush_ok_ok:
  assumes l: "log_ok segs idx ok l groups" and ne: "wbBatches (plBuffer l) \<noteq> []"
    and a: "BuildSegment (pcSegment (plCfg l)) (wbBatches (plBuffer l)) t = Ok a"
    and s': "ok s'" "segs s' = (segs (plS3 l))(segmentKey l (saBaseOffset a) \<mapsto> saSegmentBytes a)"
      "idx s' = (idx (plS3 l))(indexKey l (saBaseOffset a) \<mapsto> saIndexBytes a)"
    and l': "core l' = core (flushed a (snd (Drain (plBuffer l) t0)) s' l)" "plPrefetch l' = plPrefetch l"
      "plCache l' = plCache l \<or>
       plCache l' = map_option (SetSegment (cacheTopicKey l) (plPartition l) (saBaseOffset a) (saSegmentBytes a)) (plCache l)"
  shows "log_ok segs idx ok l' (groups @ [wbBatches (plBuffer l)])"
proof -
  let ?l1 = "flushed a (snd (Drain (plBuffer l) t0)) s' l"
  have inv: "log_inv segs idx ok l groups" using l by (simp add: log_ok_def)
  have "log_inv segs idx ok l' (groups @ [wbBatches (plBuffer l)])"
    using log_inv_flushed [where t = t, OF inv ne a s', of t0] by (simp add: log_inv_core [OF l'(1)])
  moreover have l1: "cache_ok segs ?l1"
    by (rule cache_ok_mono [where l = l])
      (use l next_base_fresh [OF inv ne a] s'(2) in \<open>auto simp: log_ok_def flushed_def\<close>)
  have fields: "plCache ?l1 = plCache l" "plPrefetch ?l1 = plPrefetch l" "segmentKey ?l1 = segmentKey l"
    "cacheTopicKey ?l1 = cacheTopicKey l" "plPartition ?l1 = plPartition l"
    using keys_cong [of ?l1 l] by (simp_all add: flushed_def)
  have stored: "saBaseOffset a \<in> srBase ` set (plSegments ?l1)"
    "segs (plS3 ?l1) (segmentKey ?l1 (saBaseOffset a)) = Some (saSegmentBytes a)"
    using s'(2) fields by (simp_all add: flushed_def new_segment_def)
  have "cache_ok segs l'"
    using l'(3)
  proof
    assume "plCache l' = plCache l"
    with l1 l'(2) fields show ?thesis by (simp add: cache_ok_def cache_ok_core [OF l'(1)])
  next
    assume "plCache l' = map_option (SetSegment (cacheTopicKey l) (plPartition l) (saBaseOffset a) (saSegmentBytes a)) (plCache l)"
    with cache_ok_put [OF l1 l'(1) _ _ stored] l'(2) fields show ?thesis by simp
  qed
  ultimately show ?thesis by (simp add: log_ok_def)
qed

text \<open>The ways a flush ends, with what the store holds afterwards.\<close>

lemma flushLocked_cases:
  assumes l: "log_ok segs idx ok l groups" and f: "flushLocked ops clk l = (r, l')"
    and buf: "buf = snd (Drain (plBuffer l) (clk 0))"
  obtains (empty) "wbBatches (plBuffer l) = []" "r = Ok None" "l' = l\<lparr>plBuffer := buf\<rparr>"
  | (failed) a e s' where "wbBatches (plBuffer l) \<noteq> []"
      "BuildSegment (pcSegment (plCfg l)) (wbBatches (plBuffer l)) (clk 1) = Ok a"
      "r = Err e" "ok s'"
      "segs s' = segs (plS3 l) \<or> segs s' = (segs (plS3 l))(segmentKey l (saBaseOffset a) \<mapsto> saSegmentBytes a)"
      "idx s' = idx (plS3 l) \<or> idx s' = (idx (plS3 l))(indexKey l (saBaseOffset a) \<mapsto> saIndexBytes a)"
      "core l' = core (l\<lparr>plBuffer := buf, plS3 := s'\<rparr>)" "plCache l' = plCache l" "plPrefetch l' = plPrefetch l"
  | (stored) a s' l2 where "wbBatches (plBuffer l) \<noteq> []"
      "BuildSegment (pcSegment (plCfg l)) (wbBatches (plBuffer l)) (clk 1) = Ok a"
      "r = Ok (Some a)" "ok s'"
      "segs s' = (segs (plS3 l))(segmentKey l (saBaseOffset a) \<mapsto> saSegmentBytes a)"
      "idx s' = (idx (plS3 l))(indexKey l (saBaseOffset a) \<mapsto> saIndexBytes a)"
      "l' = startPrefetch (int (length (plSegments l))) l2"
      "core l2 = core (flushed a buf s' l)" "plPrefetch l2 = plPrefetch l"
      "plCache l2 = plCache l \<or>
       plCache l2 = map_option (SetSegment (cacheTopicKey l) (plPartition l) (saBaseOffset a) (saSegmentBytes a)) (plCache l)"
proof (cases "wbBatches (plBuffer l) = []")
  case True
  with f flushLocked_empty [of l clk buf ops] empty show thesis by (simp add: Drain_def buf)
next
  case ne: False
  have ok: "ok (plS3 l)" using l by (simp add: log_ok_def log_inv_def)
  have d: "Drain (plBuffer l) (clk 0) = (wbBatches (plBuffer l), buf)" by (simp add: buf Drain_def)
  from l obtain start where "0 \<le> start" "chain start (wbBatches (plBuffer l)) (plNextOffset l)" "plNextOffset l < 2 ^ 63"
    by (auto simp: log_ok_def log_inv_def)
  then obtain a where a: "BuildSegment (pcSegment (plCfg l)) (wbBatches (plBuffer l)) (clk 1) = Ok a"
    using BuildSegment_chain [OF _ ne] by metis
  let ?k = "segmentKey l (saBaseOffset a)" and ?i = "indexKey l (saBaseOffset a)"
  obtain r1 s1 where u1: "s3UploadSegment ops ?k (saSegmentBytes a) (plS3 l) = (r1, s1)" by fastforce
  have s1: "ok s1" "idx s1 = idx (plS3 l)" "r1 \<noteq> Panic"
    using ok_upload [OF ok] upload_idx [OF ok] upload_no_panic u1 by (metis fst_conv snd_conv)+
  obtain r2 s2 where u2: "s3UploadIndex ops ?i (saIndexBytes a) s1 = (r2, s2)" by fastforce
  have s2: "ok s2" "segs s2 = segs s1" "r2 \<noteq> Panic"
    using ok_upload_index [OF s1(1)] upload_index_segs [OF s1(1)] upload_index_no_panic u2 by (metis fst_conv snd_conv)+
  show thesis
  proof (cases r1)
    case (Err e)
    with flushLocked_upload_err [OF d ne a] u1 f failed [OF ne a _ s1(1) _ disjI1 [OF s1(2)]] upload_err [OF ok]
    show thesis by fastforce
  next
    case (Ok x)
    then have u1: "s3UploadSegment ops ?k (saSegmentBytes a) (plS3 l) = (Ok (), s1)" using u1 by simp
    note segs1 = upload_ok [OF ok u1]
    show thesis
    proof (cases r2)
      case (Err e)
      with flushLocked_index_err [OF d ne a u1] u2 f failed [OF ne a _ s2(1)] upload_index_err [OF s1(1)] segs1 s2(2) s1(2)
      show thesis by fastforce
    next
      case (Ok x)
      then have u2: "s3UploadIndex ops ?i (saIndexBytes a) s1 = (Ok (), s2)" using u2 by simp
      from flushLocked_ok [OF d ne a u1 u2] f stored [OF ne a _ s2(1)] upload_index_ok [OF s1(1) u2] segs1 s2(2) s1(2)
      show thesis by auto
    qed (use s2 in simp)
  qed (use s1 in simp)
qed

lemma flushLocked_inv:
  assumes l: "log_ok segs idx ok l groups" and f: "flushLocked ops clk l = (r, l')"
  shows "\<exists>groups'. log_ok segs idx ok l' groups' \<and> flush_result l r l' groups groups' \<and>
           wbBatches (plBuffer l') = [] \<and> plNextOffset l' = plNextOffset l \<and> conf l' = conf l"
  using l f refl
proof (cases rule: flushLocked_cases)
  case empty
  with log_ok_drained [OF l] show ?thesis
    by (intro exI [of _ groups]) (simp add: conf_def Drain_simps)
next
  case (failed a e s')
  from flush_err_ok [OF l failed(1,2,4-9)] failed show ?thesis
    by (intro exI [of _ groups]) (simp add: core_fields [OF failed(7)] Drain_simps conf_def)
next
  case (stored a s' l2)
  have "log_ok segs idx ok l' (groups @ [wbBatches (plBuffer l)])"
    using flush_ok_ok [OF l stored(1,2,4-6,8-10)]
    by (simp add: stored log_ok_def cache_ok_startPrefetch log_inv_core [OF core_startPrefetch])
  with stored show ?thesis
    by (intro exI [of _ "groups @ [wbBatches (plBuffer l)]"])
      (auto simp: core_fields [OF stored(8)] conf_def flushed_def Drain_simps)
qed

end

section \<open>Appending\<close>

definition batch_ok :: "record_batch \<Rightarrow> 's plog \<Rightarrow> bool" where
  "batch_ok b l \<longleftrightarrow> 0 \<le> rbLastOffsetDelta b \<and> 8 \<le> length (rbBytes b) \<and>
     plNextOffset l + rbLastOffsetDelta b + 1 < 2 ^ 63"

definition patched :: "record_batch \<Rightarrow> int \<Rightarrow> record_batch" where
  "patched b off = b\<lparr>rbBytes := be 8 off @ drop 8 (rbBytes b), rbBaseOffset := off\<rparr>"

definition appended :: "record_batch \<Rightarrow> 's plog \<Rightarrow> 's plog" where
  "appended b l = l\<lparr>plNextOffset := plNextOffset l + rbLastOffsetDelta b + 1,
     plBuffer := bufAppend (patched b (plNextOffset l)) (plBuffer l)\<rparr>"

lemma log_ok_appended:
  assumes l: "log_ok segs idx ok l groups" and b: "batch_ok b l"
  shows "log_ok segs idx ok (appended b l) groups"
    and "wbBatches (plBuffer (appended b l)) = wbBatches (plBuffer l) @ [patched b (plNextOffset l)]"
proof -
  let ?l' = "appended b l"
  have inv: "log_inv segs idx ok l groups" using l by (simp add: log_ok_def)
  then have wb: "wb_inv (plBuffer l)" by (simp add: log_inv_def)
  have "list_all2 (seg_stored segs idx ?l') (plSegments l) groups"
    by (rule list_all2_seg_stored_cong [where l = l])
      (use inv keys_cong [of ?l' l] in \<open>auto simp: log_inv_def appended_def\<close>)
  moreover show items: "wbBatches (plBuffer ?l') = wbBatches (plBuffer l) @ [patched b (plNextOffset l)]"
    using wbuf.items_app [OF wb] by (simp add: appended_def)
  moreover have "chain start (wbBatches (plBuffer ?l')) (plNextOffset ?l')"
    if "chain start (wbBatches (plBuffer l)) (plNextOffset l)" for start
    using that b unfolding items chain_append by (simp add: appended_def patched_def batch_ok_def)
  moreover have "wb_inv (plBuffer ?l')"
    using wbuf.inv_app [OF wb] by (simp add: appended_def)
  ultimately have "log_inv segs idx ok ?l' groups"
    using inv b by (auto simp: log_inv_def appended_def batch_ok_def)
  moreover have "cache_ok segs ?l'"
    by (rule cache_ok_mono [where l = l]) (use l in \<open>auto simp: log_ok_def appended_def\<close>)
  ultimately show "log_ok segs idx ok ?l' groups" by (simp add: log_ok_def)
qed

lemma log_ok_next_nonneg: "log_ok segs idx ok l groups \<Longrightarrow> 0 \<le> plNextOffset l"
  using chain_le by (fastforce simp: log_ok_def log_inv_def)

lemma AppendBatch_unfold:
  assumes l: "log_ok segs idx ok l groups" and b: "batch_ok b l"
  shows "AppendBatch ops clk b l =
    (let res = \<lparr>arBaseOffset = plNextOffset l, arLastOffset = plNextOffset l + rbLastOffsetDelta b\<rparr> in
     if ShouldFlush (plBuffer (appended b l)) (clk 0) then
       (case flushLocked ops (\<lambda>i. clk (Suc i)) (appended b l) of
          (Panic, l) \<Rightarrow> (Panic, l)
        | (Err e, l) \<Rightarrow> (Err e, l)
        | (Ok None, l) \<Rightarrow> (Ok res, l)
        | (Ok (Some a), l) \<Rightarrow> (Ok res, callFlush a l))
     else (Ok res, appended b l))"
proof -
  have "i64 (plNextOffset l + rbLastOffsetDelta b + 1) = plNextOffset l + rbLastOffsetDelta b + 1"
    "i64 (plNextOffset l + rbLastOffsetDelta b) = plNextOffset l + rbLastOffsetDelta b"
    using b log_ok_next_nonneg [OF l] by (auto simp: batch_ok_def i64_id in_i64_def)
  then show ?thesis
    using b unfolding AppendBatch_def PatchRecordBatchBaseOffset_def
    by (simp add: batch_ok_def Let_def appended_def patched_def split: prod.splits outcome.splits option.splits)
qed

lemma log_ok_core_cache:
  assumes "log_ok segs idx ok l groups" "core l' = core l" "plCache l' = plCache l" "plPrefetch l' = plPrefetch l"
  shows "log_ok segs idx ok l' groups"
  using assms(1) by (simp add: log_ok_def log_inv_core [OF assms(2)] cache_ok_def cache_ok_core [OF assms(2)] assms(3,4))

text \<open>What an append did: the batch is in the log, or the flush it triggered failed.\<close>

fun append_post :: "record_batch \<Rightarrow> 's plog \<Rightarrow> append_result outcome \<Rightarrow> 's plog \<Rightarrow> record_batch list list
    \<Rightarrow> record_batch list list \<Rightarrow> bool" where
  "append_post b l (Ok res) l' groups groups' \<longleftrightarrow>
     res = \<lparr>arBaseOffset = plNextOffset l, arLastOffset = plNextOffset l + rbLastOffsetDelta b\<rparr> \<and>
     concat groups' @ wbBatches (plBuffer l') = concat groups @ wbBatches (plBuffer l) @ [patched b (plNextOffset l)]"
| "append_post b l (Err e) l' groups groups' \<longleftrightarrow> groups' = groups \<and> wbBatches (plBuffer l') = []"
| "append_post b l Panic l' groups groups' \<longleftrightarrow> False"

context s3_contract
begin

lemma AppendBatch_inv:
  assumes l: "log_ok segs idx ok l groups" and b: "batch_ok b l" and r: "AppendBatch ops clk b l = (r, l')"
  shows "\<exists>groups'. log_ok segs idx ok l' groups' \<and> append_post b l r l' groups groups' \<and>
           plNextOffset l' = plNextOffset l + rbLastOffsetDelta b + 1 \<and> conf l' = conf l \<and>
           prefix groups groups' \<and> prefix (plSegments l) (plSegments l')"
proof (cases "ShouldFlush (plBuffer (appended b l)) (clk 0)")
  case False
  with r AppendBatch_unfold [OF l b, of ops clk] log_ok_appended [OF l b] show ?thesis
    by (intro exI [of _ groups]) (auto simp: Let_def appended_def conf_def)
next
  case True
  obtain fr l1 where f: "flushLocked ops (\<lambda>i. clk (Suc i)) (appended b l) = (fr, l1)" by fastforce
  from flushLocked_inv [OF log_ok_appended(1) [OF l b] f] obtain groups' where g:
    "log_ok segs idx ok l1 groups'" "flush_result (appended b l) fr l1 groups groups'"
    "wbBatches (plBuffer l1) = []" "plNextOffset l1 = plNextOffset (appended b l)" "conf l1 = conf (appended b l)"
    by blast
  have "log_ok segs idx ok (callFlush a l1) groups'" for a
    by (rule log_ok_core_cache [OF g(1)]) simp_all
  with g True r f AppendBatch_unfold [OF l b, of ops clk] log_ok_appended(2) [OF l b] flush_result_prefix [OF g(2)]
  show ?thesis
    by (intro exI [of _ groups'])
      (cases fr, auto simp: Let_def appended_def conf_def split: option.splits outcome.splits)
qed

lemma Flush_inv:
  assumes l: "log_ok segs idx ok l groups" and r: "Flush ops clk l = (r, l')"
  shows "\<exists>groups'. log_ok segs idx ok l' groups' \<and> wbBatches (plBuffer l') = [] \<and>
           plNextOffset l' = plNextOffset l \<and> conf l' = conf l \<and>
           (r = Ok () \<and> concat groups' = concat groups @ wbBatches (plBuffer l) \<or>
            (\<exists>e. r = Err e) \<and> groups' = groups \<and> plSegments l' = plSegments l \<and> wbBatches (plBuffer l) \<noteq> []) \<and>
           prefix groups groups' \<and> prefix (plSegments l) (plSegments l')"
proof -
  obtain fr l1 where f: "flushLocked ops clk l = (fr, l1)" by fastforce
  from flushLocked_inv [OF l f] obtain groups' where g:
    "log_ok segs idx ok l1 groups'" "flush_result l fr l1 groups groups'"
    "wbBatches (plBuffer l1) = []" "plNextOffset l1 = plNextOffset l" "conf l1 = conf l"
    by blast
  have "log_ok segs idx ok (callFlush a l1) groups'" for a
    by (rule log_ok_core_cache [OF g(1)]) simp_all
  with g r f flush_result_prefix [OF g(2)] show ?thesis
    by (intro exI [of _ groups'])
      (cases fr, auto simp: Flush_def Let_def conf_def split: option.splits outcome.splits if_splits)
qed

end

section \<open>Reading\<close>

definition limit :: "int \<Rightarrow> bytes \<Rightarrow> bytes" where
  "limit m xs = (if m > 0 then take (nat m) xs else xs)"

text \<open>
  The entry the search finds in the index of a segment is the one of a batch that does not start
  after the offset; it points to the first byte of that batch.
\<close>

lemma segment_entry:
  assumes a: "BuildSegment cfg g t = Ok a" and base: "rbBaseOffset (hd g) \<le> off"
    and len: "int (length (saSegmentBytes a)) < 2 ^ 31"
  obtains k where "k < length g" "rbBaseOffset (g ! k) \<le> off"
    "iePosition (findIndexEntry (saRelativeIndex a) off) = int (segmentHeaderLen + length (concat (map rbBytes (take k g))))"
    "saRelativeIndex a \<noteq> []"
proof -
  obtain ks where ks: "set ks \<subseteq> {..<length g}" "ks \<noteq> []" "hd ks = 0"
    "saRelativeIndex a = map (batch_entry segmentHeaderLen g) ks"
    using BuildSegment_Ok(6) [OF a] by blast
  then have ne: "saRelativeIndex a \<noteq> []" by simp
  have "hd (saRelativeIndex a) = batch_entry segmentHeaderLen g 0"
    using ks by (simp add: hd_map)
  then have "ieOffset (hd (saRelativeIndex a)) \<le> off"
    using base BuildSegment_Ok(1) [OF a] by (simp add: batch_entry_def hd_conv_nth)
  note safe = findIndexEntry_safe(1) [OF ne, of off] findIndexEntry_safe(2) [OF ne this]
  from safe(1) ks obtain k where k: "k < length g" "findIndexEntry (saRelativeIndex a) off = batch_entry segmentHeaderLen g k"
    by auto
  have "length (concat (map rbBytes (take k g))) \<le> length (concat (map rbBytes g))"
    by (metis append_take_drop_id concat_append length_append le_add1 map_append)
  then have "in_i32 (int (segmentHeaderLen + length (concat (map rbBytes (take k g)))))"
    using len unfolding BuildSegment_Ok(5) [OF a] by (simp add: in_i32_def)
  then have "iePosition (batch_entry segmentHeaderLen g k) = int (segmentHeaderLen + length (concat (map rbBytes (take k g))))"
    by (simp add: batch_entry_def batch_pos_def i32_id)
  with k ne safe(2) that [of k] show thesis by (simp add: batch_entry_def)
qed

lemma segment_tail:
  fixes g :: "record_batch list"
  assumes "length H = h"
  shows "drop (h + length (concat (map rbBytes (take k g)))) (H @ concat (map rbBytes g) @ F) =
           concat (map rbBytes (drop k g)) @ F"
proof -
  have "concat (map rbBytes g) = concat (map rbBytes (take k g)) @ concat (map rbBytes (drop k g))"
    by (metis append_take_drop_id concat_append map_append)
  with assms show ?thesis by simp
qed

text \<open>
  The range that is computed for an offset of a stored segment: it is a proper range of the
  object, and what it denotes are the bytes of the batches from some batch at or before the
  offset on, cut at the limit.
\<close>

lemma segment_range_bytes:
  assumes s: "seg_stored segs idx l s g" and es: "plIndexEntries l (srBase s) = Some es"
    and off: "srBase s \<le> off" and size: "srSize s < 2 ^ 31" and m: "in_i32 m"
  obtains k start stop full where "k < length g" "rbBaseOffset (g ! k) \<le> off" "es \<noteq> []"
    "computeSegmentRange s es off m = (start, stop)"
    "segs (plS3 l) (segmentKey l (srBase s)) = Some full"
    "0 \<le> start" "start \<le> stop" "stop < int (length full)" "0 < srSize s"
    "range_of (Some \<lparr>brStart = start, brEnd = stop\<rparr>) full = limit m (concat (map rbBytes (drop k g)))"
proof -
  from s es obtain t a where a: "BuildSegment (pcSegment (plCfg l)) g t = Ok a"
    and ch: "chain (srBase s) g (srLast s + 1)" and sz: "srSize s = int (length (saSegmentBytes a))"
    and full: "segs (plS3 l) (segmentKey l (srBase s)) = Some (saSegmentBytes a)" and es: "es = saRelativeIndex a"
    by (auto simp: seg_stored_def)
  have "rbBaseOffset (hd g) \<le> off" using chain_hd [OF ch BuildSegment_Ok(1) [OF a]] off by simp
  from segment_entry [OF a this size [unfolded sz]] obtain k where k: "k < length g" "rbBaseOffset (g ! k) \<le> off"
    "iePosition (findIndexEntry es off) = int (segmentHeaderLen + length (concat (map rbBytes (take k g))))" "es \<noteq> []"
    unfolding es by metis
  define L where "L = length (concat (map rbBytes (drop k g)))"
  define start where "start = iePosition (findIndexEntry es off)"
  define n where "n = (if m > 0 \<and> nat m < L then nat m else L)"
  define H where "H = buildHeader (rbBaseOffset (hd g)) (saMessageCount a) t"
  define F where "F = buildFooter (crc32c (concat (map rbBytes g))) (saLastOffset a)"
  have bytes: "saSegmentBytes a = H @ concat (map rbBytes g) @ F"
    using BuildSegment_Ok(5) [OF a] by (simp add: H_def F_def)
  have HF: "length H = segmentHeaderLen" "length F = segmentFooterLen" by (simp_all add: H_def F_def)
  have "rbBytes (g ! k) \<noteq> []" using BuildSegment_Ok(2) [OF a] k(1) by simp
  then have L: "0 < L" using k(1) by (simp add: L_def flip: Cons_nth_drop_Suc)
  have "length (concat (map rbBytes g)) = length (concat (map rbBytes (take k g))) + L"
    unfolding L_def by (metis append_take_drop_id concat_append length_append map_append)
  then have total: "srSize s = start + int L + int segmentFooterLen"
    using HF k(3) by (simp add: sz bytes start_def)
  have start0: "0 \<le> start" using k(3) by (simp add: start_def)
  have mx: "i64 (start + m - 1) = start + m - 1"
    using m size total start0 by (intro i64_id) (simp add: in_i32_def in_i64_def)
  have "computeSegmentRange s es off m = (start, start + int n - 1)"
    using total L start0 mx by (auto simp: computeSegmentRange_def Let_def n_def simp flip: start_def)
  moreover have "drop (nat start) (saSegmentBytes a) = concat (map rbBytes (drop k g)) @ F"
    unfolding bytes start_def k(3) nat_int by (rule segment_tail) (rule HF(1))
  then have "range_of (Some \<lparr>brStart = start, brEnd = start + int n - 1\<rparr>) (saSegmentBytes a) =
      limit m (concat (map rbBytes (drop k g)))"
    by (simp add: n_def limit_def L_def)
  moreover have "0 < n" "n \<le> L" using L by (simp_all add: n_def)
  ultimately show thesis
    using that [OF k(1,2,4) _ full start0] total sz start0 by auto
qed

lemma segment_read_results:
  assumes "es \<noteq> []" "computeSegmentRange s es off m = (start, stop)" "0 \<le> start" "start \<le> stop"
    "stop < int (length full)" "0 < srSize s"
  shows "segmentRangeForOffset s es off m = Some \<lparr>brStart = start, brEnd = stop\<rparr>"
    and "sliceCachedSegment s es off m full = Ok (range_of (Some \<lparr>brStart = start, brEnd = stop\<rparr>) full)"
  using assms by (auto simp: segmentRangeForOffset_def sliceCachedSegment_def goSlice_def Let_def algebra_simps)

text \<open>
  \<open>read_spec g off m d\<close>: \<open>d\<close> are the bytes of the batches of \<open>g\<close> from a batch at or before
  \<open>off\<close> on, cut at the limit \<open>m\<close>; the batch that contains \<open>off\<close> is among them.
\<close>

definition read_spec :: "record_batch list \<Rightarrow> int \<Rightarrow> int \<Rightarrow> bytes \<Rightarrow> bool" where
  "read_spec g off m d \<longleftrightarrow>
     (\<exists>k j. k \<le> j \<and> j < length g \<and>
        rbBaseOffset (g ! j) \<le> off \<and> off \<le> rbBaseOffset (g ! j) + rbLastOffsetDelta (g ! j) \<and>
        d = limit m (concat (map rbBytes (drop k g))))"

lemma read_spec_from:
  assumes "chain s g e" "s \<le> off" "off < e" "k < length g" "rbBaseOffset (g ! k) \<le> off"
  shows "read_spec g off m (limit m (concat (map rbBytes (drop k g))))"
proof -
  from chain_covers [OF assms(1-3)] obtain j where j: "j < length g" "rbBaseOffset (g ! j) \<le> off"
    "off \<le> rbBaseOffset (g ! j) + rbLastOffsetDelta (g ! j)" by blast
  have "k \<le> j"
  proof (rule ccontr)
    assume "\<not> k \<le> j"
    with chain_sorted [OF assms(1), of j k] assms(4,5) j(3) show False by simp
  qed
  with j show ?thesis unfolding read_spec_def by blast
qed

lemma segment_read:
  assumes s: "seg_stored segs idx l s g" and es: "plIndexEntries l (srBase s) = Some es"
    and off: "srBase s \<le> off" "off \<le> srLast s" and size: "srSize s < 2 ^ 31" and m: "in_i32 m"
  obtains rng full where "segmentRangeForOffset s es off m = Some rng"
    "segs (plS3 l) (segmentKey l (srBase s)) = Some full"
    "sliceCachedSegment s es off m full = Ok (range_of (Some rng) full)"
    "read_spec g off m (range_of (Some rng) full)"
    "range_ok (Some rng)" "brStart rng < int (length full)"
proof -
  from segment_range_bytes [OF s es off(1) size m] obtain k start stop full where
    k: "k < length g" "rbBaseOffset (g ! k) \<le> off" "es \<noteq> []"
    and c: "computeSegmentRange s es off m = (start, stop)"
    and full: "segs (plS3 l) (segmentKey l (srBase s)) = Some full"
    and bounds: "0 \<le> start" "start \<le> stop" "stop < int (length full)" "0 < srSize s"
    and d: "range_of (Some \<lparr>brStart = start, brEnd = stop\<rparr>) full = limit m (concat (map rbBytes (drop k g)))"
    by metis
  have "read_spec g off m (range_of (Some \<lparr>brStart = start, brEnd = stop\<rparr>) full)"
    unfolding d using s off k(1,2) by (intro read_spec_from) (auto simp: seg_stored_def)
  with that [OF segment_read_results(1) [OF k(3) c bounds] full segment_read_results(2) [OF k(3) c bounds]] bounds
  show thesis by simp
qed

lemma read_select_Some:
  assumes inv: "log_inv segs idx ok l groups" and sel: "read_select off l = Some (s, es)"
  shows "s \<in> set (plSegments l)" "srBase s \<le> off" "off \<le> srLast s" "plIndexEntries l (srBase s) = Some es"
proof -
  from sel show s: "s \<in> set (plSegments l)" "srBase s \<le> off" "off \<le> srLast s"
    by (auto simp: read_select_def find_Some_iff split: option.splits)
  from log_inv_seg [OF inv s(1)] sel show "plIndexEntries l (srBase s) = Some es"
    by (auto simp: read_select_def seg_stored_def split: option.splits)
qed

lemma log_ok_lookup:
  "log_ok segs idx ok l groups \<Longrightarrow> log_ok segs idx ok (snd (cache_lookup b l)) groups"
  by (simp add: log_ok_def cache_ok_lookup log_inv_core [OF core_cache_lookup])

lemma log_ok_startPrefetch:
  "log_ok segs idx ok l groups \<Longrightarrow> log_ok segs idx ok (startPrefetch i l) groups"
  by (simp add: log_ok_def cache_ok_startPrefetch log_inv_core [OF core_startPrefetch])

lemma log_ok_cache_set:
  assumes "log_ok segs idx ok l groups" "b \<in> srBase ` set (plSegments l)" "segs (plS3 l) (segmentKey l b) = Some d"
  shows "log_ok segs idx ok (cache_set b d l) groups"
proof -
  have "cache_ok segs (cache_set b d l)"
    by (rule cache_ok_put [where l = l]) (use assms in \<open>auto simp: log_ok_def\<close>)
  with assms(1) show ?thesis by (simp add: log_ok_def log_inv_core [OF core_cache_set])
qed

text \<open>Reads and read-ahead change the cache, the events and the tasks only.\<close>

definition only_cache :: "'s plog \<Rightarrow> 's plog \<Rightarrow> bool" where
  "only_cache l l' \<longleftrightarrow> conf l' = conf l \<and> plSegments l' = plSegments l \<and> plBuffer l' = plBuffer l \<and>
     plNextOffset l' = plNextOffset l \<and> plIndexEntries l' = plIndexEntries l"

lemma only_cache_core: "core l' = core (l\<lparr>plS3 := s\<rparr>) \<Longrightarrow> only_cache l l'"
  by (simp add: only_cache_def conf_def core_fields [of l' "l\<lparr>plS3 := s\<rparr>"])

context s3_contract
begin

lemma log_ok_downloaded:
  assumes l: "log_ok segs idx ok l groups" and d: "s3DownloadSegment ops k r (plS3 l) = (res, s')"
  shows "log_ok segs idx ok (callS3Op n t res (l\<lparr>plS3 := s'\<rparr>)) groups"
    and "segs s' = segs (plS3 l)"
proof -
  have ok: "ok (plS3 l)" using l by (simp add: log_ok_def log_inv_def)
  have s': "ok s'" "segs s' = segs (plS3 l)" "idx s' = idx (plS3 l)"
    using ok_download [OF ok] download_segs [OF ok] download_idx [OF ok] d by (metis snd_conv)+
  then show "segs s' = segs (plS3 l)" by simp
  show "log_ok segs idx ok (callS3Op n t res (l\<lparr>plS3 := s'\<rparr>)) groups"
    by (rule log_ok_store [OF l s'(1)]) (use s' in simp_all)
qed

text \<open>
  Fetching for an offset of a recorded segment, at any later moment: the result is right, or it
  is the error of the range download of the segment.
\<close>

lemma read_fetch_correct:
  assumes l: "log_ok segs idx ok l groups" and s: "seg_stored segs idx l s g" "s \<in> set (plSegments l)"
    and es: "plIndexEntries l (srBase s) = Some es"
    and off: "srBase s \<le> off" "off \<le> srLast s" and size: "srSize s < 2 ^ 31" and m: "in_i32 m"
    and f: "read_fetch ops clk s es off m l = (r, l')"
  shows "(\<exists>d. r = Ok d \<and> read_spec g off m d) \<or>
    (\<exists>e rng full. r = Err e \<and> fst (s3DownloadSegment ops (segmentKey l (srBase s)) (Some rng) (plS3 l)) = Err e \<and>
       range_ok (Some rng) \<and> segs (plS3 l) (segmentKey l (srBase s)) = Some full \<and> brStart rng < int (length full))"
    and "log_ok segs idx ok l' groups"
proof -
  from segment_read [OF s(1) es off size m] obtain rng full where
    rr: "segmentRangeForOffset s es off m = Some rng" "sliceCachedSegment s es off m full = Ok (range_of (Some rng) full)"
    and full: "segs (plS3 l) (segmentKey l (srBase s)) = Some full"
    and spec: "read_spec g off m (range_of (Some rng) full)"
    and bounds: "range_ok (Some rng)" "brStart rng < int (length full)"
    by metis
  obtain cached l1 where cl: "cache_lookup (srBase s) l = (cached, l1)" by fastforce
  have l1: "log_ok segs idx ok l1 groups" "plS3 l1 = plS3 l" "segmentKey l1 = segmentKey l"
    using log_ok_lookup [OF l, of "srBase s"] cl core_keys [OF core_cache_lookup [of "srBase s" l]]
      cache_lookup_fields [of "srBase s" l] by simp_all
  obtain res s' where dl: "s3DownloadSegment ops (segmentKey l (srBase s)) (Some rng) (plS3 l) = (res, s')" by fastforce
  have "res \<noteq> Panic" using download_no_panic dl by (metis fst_conv)
  have "\<exists>full'. segs (plS3 l) (segmentKey l (srBase s)) = Some full' \<and> x = range_of (Some rng) full'" if "res = Ok x" for x
    using download_ok [of "plS3 l" "Some rng" "segmentKey l (srBase s)" x] l dl that bounds
    by (simp add: log_ok_def log_inv_def)
  with full have res: "res = Ok x \<Longrightarrow> x = range_of (Some rng) full" for x by auto
  have hit: "cached = Some x \<Longrightarrow> x = full" for x
    using cache_ok_lookup(2) [of segs l "srBase s" x] l cl full by (simp add: log_ok_def)
  note l2 = log_ok_downloaded(1) [OF l1(1), unfolded l1(2), OF dl]
  show "log_ok segs idx ok l' groups"
    using f cl rr l1 l2 dl
    by (auto simp: read_fetch_def Let_def log_ok_startPrefetch split: option.splits outcome.splits)
  show "(\<exists>d. r = Ok d \<and> read_spec g off m d) \<or>
    (\<exists>e rng full. r = Err e \<and> fst (s3DownloadSegment ops (segmentKey l (srBase s)) (Some rng) (plS3 l)) = Err e \<and>
       range_ok (Some rng) \<and> segs (plS3 l) (segmentKey l (srBase s)) = Some full \<and> brStart rng < int (length full))"
  proof (cases cached)
    case (Some x)
    with f cl rr hit spec show ?thesis by (simp add: read_fetch_def)
  next
    case None
    show ?thesis
    proof (cases res)
      case (Ok x)
      with None f cl rr dl l1 have "r = Ok x" by (simp add: read_fetch_def Let_def)
      with res [OF Ok] spec show ?thesis by simp
    next
      case (Err e)
      with None f cl rr dl l1 have "r = Err e" by (simp add: read_fetch_def Let_def)
      with bounds dl Err full show ?thesis by (metis fst_conv)
    qed (use \<open>res \<noteq> Panic\<close> in simp)
  qed
qed

lemma read_fetch_inv:
  assumes l: "log_ok segs idx ok l groups" and s: "s \<in> set (plSegments l)"
    and f: "read_fetch ops clk s es off m l = (r, l')"
  shows "log_ok segs idx ok l' groups \<and> only_cache l l'"
proof -
  obtain cached l1 where cl: "cache_lookup (srBase s) l = (cached, l1)" by fastforce
  have l1: "log_ok segs idx ok l1 groups" "core l1 = core l"
    using log_ok_lookup [OF l, of "srBase s"] core_cache_lookup [of "srBase s" l] cl by simp_all
  note fields = core_fields [OF l1(2)] core_keys [OF l1(2)]
  have l1': "log_ok segs idx ok (startPrefetch i l1) groups \<and> only_cache l (startPrefetch i l1)" for i
    using log_ok_startPrefetch [OF l1(1)] only_cache_core [where l' = "startPrefetch i l1" and l = l and s = "plS3 l"] l1(2)
    by simp
  have dl: "log_ok segs idx ok l2 groups \<and> only_cache l l2 \<and> log_ok segs idx ok (startPrefetch i l2) groups \<and>
      only_cache l (startPrefetch i l2)"
    if "s3DownloadSegment ops (segmentKey l (srBase s)) rng (plS3 l) = (res, s')"
      and "l2 = callS3Op n t res (l1\<lparr>plS3 := s'\<rparr>)" for rng res s' n t l2 i
  proof -
    have "core l2 = core (l\<lparr>plS3 := s'\<rparr>)" "core (startPrefetch i l2) = core (l\<lparr>plS3 := s'\<rparr>)"
      using that(2) core_cong(1) [OF l1(2)] by simp_all
    note this [THEN only_cache_core]
    moreover have "log_ok segs idx ok l2 groups"
      using log_ok_downloaded(1) [OF l1(1), of "segmentKey l (srBase s)" rng res s'] that by (simp add: fields)
    ultimately show ?thesis using log_ok_startPrefetch by blast
  qed
  have full: "log_ok segs idx ok (startPrefetch i (cache_set (srBase s) x l2)) groups \<and>
      only_cache l (startPrefetch i (cache_set (srBase s) x l2))"
    if d: "s3DownloadSegment ops (segmentKey l (srBase s)) None (plS3 l) = (Ok x, s')"
      and l2: "l2 = callS3Op n t (Ok x) (l1\<lparr>plS3 := s'\<rparr>)" for x s' n t l2 i
  proof -
    have "segs (plS3 l) (segmentKey l (srBase s)) = Some x"
      using download_ok [of "plS3 l" None "segmentKey l (srBase s)" x] d l by (simp add: log_ok_def log_inv_def)
    moreover have "segs s' = segs (plS3 l)"
      using log_ok_downloaded(2) [OF l d] .
    ultimately have "log_ok segs idx ok (cache_set (srBase s) x l2) groups"
      using dl [OF d l2] s by (intro log_ok_cache_set) (simp_all add: l2 fields)
    moreover have "core (startPrefetch i (cache_set (srBase s) x l2)) = core (l\<lparr>plS3 := s'\<rparr>)"
      using core_cong(1) [OF l1(2)] l2 by simp
    note this [THEN only_cache_core]
    ultimately show ?thesis by (simp add: log_ok_startPrefetch)
  qed
  show ?thesis
    using f cl l1' dl full
    by (auto simp: read_fetch_def Let_def fields split: option.splits prod.splits outcome.splits if_splits)
qed

lemma prefetch_step_inv:
  assumes l: "log_ok segs idx ok l groups"
  shows "log_ok segs idx ok (prefetch_step ops i l) groups \<and> only_cache l (prefetch_step ops i l)"
proof (cases "i < length (plPrefetch l)")
  case False
  with l show ?thesis by (simp add: prefetch_step_def only_cache_def)
next
  case True
  let ?rest = "take i (plPrefetch l) @ drop (Suc i) (plPrefetch l)"
  have tasks: "list_all (task_ok segs l) (plPrefetch l)"
    using l by (simp add: log_ok_def cache_ok_def)
  have rest: "list_all (task_ok segs l) ?rest"
    using tasks by (auto simp: list_all_iff dest: in_set_takeD in_set_dropD)
  have ti: "task_ok segs l (plPrefetch l ! i)" using tasks True by (simp add: list_all_iff)
  have upd: "log_ok segs idx ok (l1\<lparr>plPrefetch := ts\<rparr>) groups"
    if "log_ok segs idx ok l1 groups" "list_all (task_ok segs l1) ts" for l1 ts
    using that by (simp add: log_ok_def log_inv_core [OF core_plPrefetch] cache_ok_def cache_ok_core [OF core_plPrefetch])
  show ?thesis
  proof (cases "plPrefetch l ! i")
    case (PfDownload seg)
    obtain r s' where d: "s3DownloadSegment ops (segmentKey l (srBase seg)) None (plS3 l) = (r, s')" by fastforce
    have ok: "ok (plS3 l)" using l by (simp add: log_ok_def log_inv_def)
    have s': "ok s'" "segs s' = segs (plS3 l)" "idx s' = idx (plS3 l)"
      using ok_download [OF ok] download_segs [OF ok] download_idx [OF ok] d by (metis snd_conv)+
    have l1: "log_ok segs idx ok (l\<lparr>plS3 := s'\<rparr>) groups"
      by (rule log_ok_store [OF l s'(1)]) (use s' in simp_all)
    have t1: "task_ok segs (l\<lparr>plS3 := s'\<rparr>) = task_ok segs l"
      by (rule ext, rule task_ok_store) (use s' in simp)
    have "segs (plS3 l) (segmentKey l (srBase seg)) = Some x" if "r = Ok x" for x
      using download_ok [OF ok, of None "segmentKey l (srBase seg)" x] d that by simp
    with upd [OF l1, unfolded t1] rest ti PfDownload True d s' show ?thesis
      by (auto simp: prefetch_step_def Let_def only_cache_def conf_def split: outcome.splits)
  next
    case (PfStore seg x)
    let ?l1 = "l\<lparr>plPrefetch := ?rest\<rparr>"
    have "log_ok segs idx ok (cache_set (srBase seg) x ?l1) groups"
      using upd [OF l rest] ti PfStore core_keys [OF core_plPrefetch [where l = l and ts = ?rest]] by (intro log_ok_cache_set) auto
    with True PfStore show ?thesis
      by (simp add: prefetch_step_def Let_def only_cache_def conf_def)
  qed
qed

end

section \<open>Runs of a log\<close>

text \<open>
  The steps of a log in a broker: appends (labelled with their result), flushes, reads, steps of
  the read-ahead goroutines, and steps of the other partitions, which share the store and the
  cache but touch other keys. Reads and read-ahead may come between any two of the others.
\<close>

definition env_ok :: "('s \<Rightarrow> string \<Rightarrow> bytes option) \<Rightarrow> ('s \<Rightarrow> string \<Rightarrow> bytes option) \<Rightarrow> ('s \<Rightarrow> bool)
    \<Rightarrow> 's plog \<Rightarrow> 's \<Rightarrow> segment_cache option \<Rightarrow> bool" where
  "env_ok segs idx ok l s' cache' \<longleftrightarrow>
     ok s' \<and>
     (\<forall>b. segs s' (segmentKey l b) = segs (plS3 l) (segmentKey l b) \<and>
          idx s' (indexKey l b) = idx (plS3 l) (indexKey l b)) \<and>
     (case plCache l of
        None \<Rightarrow> cache' = None
      | Some c \<Rightarrow> (\<exists>c'. cache' = Some c' \<and> cache_inv c' \<and>
          (\<forall>k \<in> own_keys l. \<forall>d. cache_view c' k = Some d \<longrightarrow> cache_view c k = Some d)))"

inductive log_step :: "'s s3_client \<Rightarrow> ('s \<Rightarrow> string \<Rightarrow> bytes option) \<Rightarrow> ('s \<Rightarrow> string \<Rightarrow> bytes option) \<Rightarrow> ('s \<Rightarrow> bool)
    \<Rightarrow> 's plog \<Rightarrow> append_result outcome option \<Rightarrow> 's plog \<Rightarrow> bool"
  for ops segs idx ok where
  step_append: "batch_ok b l \<Longrightarrow> AppendBatch ops clk b l = (r, l') \<Longrightarrow> log_step ops segs idx ok l (Some r) l'"
| step_flush: "Flush ops clk l = (r, l') \<Longrightarrow> log_step ops segs idx ok l None l'"
| step_read: "Read ops clk off m l = (r, l') \<Longrightarrow> log_step ops segs idx ok l None l'"
| step_prefetch: "log_step ops segs idx ok l None (prefetch_step ops i l)"
| step_env: "env_ok segs idx ok l s' c' \<Longrightarrow> log_step ops segs idx ok l None (l\<lparr>plS3 := s', plCache := c'\<rparr>)"

inductive log_run :: "'s s3_client \<Rightarrow> ('s \<Rightarrow> string \<Rightarrow> bytes option) \<Rightarrow> ('s \<Rightarrow> string \<Rightarrow> bytes option) \<Rightarrow> ('s \<Rightarrow> bool)
    \<Rightarrow> 's plog \<Rightarrow> append_result list \<Rightarrow> 's plog \<Rightarrow> bool"
  for ops segs idx ok where
  run_nil: "log_run ops segs idx ok l [] l"
| run_ack: "log_run ops segs idx ok l rs l1 \<Longrightarrow> log_step ops segs idx ok l1 (Some (Ok r)) l2 \<Longrightarrow>
            log_run ops segs idx ok l (rs @ [r]) l2"
| run_other: "log_run ops segs idx ok l rs l1 \<Longrightarrow> log_step ops segs idx ok l1 x l2 \<Longrightarrow> (\<forall>r. x \<noteq> Some (Ok r)) \<Longrightarrow>
              log_run ops segs idx ok l rs l2"

lemma log_ok_env:
  assumes l: "log_ok segs idx ok l groups" and e: "env_ok segs idx ok l s' c'"
  shows "log_ok segs idx ok (l\<lparr>plS3 := s', plCache := c'\<rparr>) groups"
proof -
  let ?l1 = "l\<lparr>plS3 := s'\<rparr>"
  have l1: "log_ok segs idx ok ?l1 groups"
    by (rule log_ok_store [OF l, of s']) (use e in \<open>auto simp: env_ok_def\<close>)
  then have "cache_ok segs (?l1\<lparr>plCache := c'\<rparr>)"
  proof -
    have "lru.coherent (own_keys ?l1) (stored_data segs ?l1) x" if "c' = Some x" for x
      using l1 e that core_keys(5) unfolding log_ok_def cache_ok_def env_ok_def lru.coherent_def
      by (auto simp: own_keys_def cacheTopicKey_def split: option.splits)
    with l1 show ?thesis by (simp add: log_ok_def cache_ok_def cache_ok_core [OF core_plCache])
  qed
  with l1 show ?thesis by (simp add: log_ok_def log_inv_core [OF core_plCache])
qed

text \<open>The first offset that is not in a recorded segment yet.\<close>

definition low :: "'s plog \<Rightarrow> int" where
  "low l = (case wbBatches (plBuffer l) of [] \<Rightarrow> plNextOffset l | b # _ \<Rightarrow> rbBaseOffset b)"

lemma low_cong: "plBuffer l' = plBuffer l \<Longrightarrow> plNextOffset l' = plNextOffset l \<Longrightarrow> low l' = low l"
  by (simp add: low_def split: list.splits)

definition extends :: "'s plog \<Rightarrow> record_batch list list \<Rightarrow> 's plog \<Rightarrow> record_batch list list \<Rightarrow> bool" where
  "extends l groups l' groups' \<longleftrightarrow>
     prefix groups groups' \<and> prefix (plSegments l) (plSegments l') \<and> conf l' = conf l \<and>
     low l \<le> low l' \<and> (\<forall>s \<in> set (plSegments l') - set (plSegments l). low l \<le> srBase s)"

lemma extends_trans: "extends l g l1 g1 \<Longrightarrow> extends l1 g1 l2 g2 \<Longrightarrow> extends l g l2 g2"
  unfolding extends_def by (auto intro: prefix_order.trans) (metis DiffI order.trans)

lemma low_buffer:
  assumes "log_ok segs idx ok l groups"
  shows "low l \<le> plNextOffset l" "b \<in> set (wbBatches (plBuffer l)) \<Longrightarrow> low l \<le> rbBaseOffset b"
proof -
  obtain start where c: "chain start (wbBatches (plBuffer l)) (plNextOffset l)"
    using assms by (auto simp: log_ok_def log_inv_def)
  then have low: "low l = start" by (cases "wbBatches (plBuffer l)") (simp_all add: low_def)
  show "low l \<le> plNextOffset l" using chain_le [OF c] low by simp
  show "b \<in> set (wbBatches (plBuffer l)) \<Longrightarrow> low l \<le> rbBaseOffset b" using chain_base [OF c] low by blast
qed

lemma log_ok_extends:
  assumes l: "log_ok segs idx ok l groups" and l': "log_ok segs idx ok l' groups'"
    and pre: "prefix groups groups'" "prefix (plSegments l) (plSegments l')" "conf l' = conf l"
    and up: "plNextOffset l \<le> plNextOffset l'"
    and content: "(\<exists>y. concat groups' @ wbBatches (plBuffer l') = concat groups @ wbBatches (plBuffer l) @ y \<and>
                    (\<forall>b \<in> set y. plNextOffset l \<le> rbBaseOffset b)) \<or> groups' = groups \<and> wbBatches (plBuffer l') = []"
  shows "extends l groups l' groups'"
proof -
  obtain newg where newg: "groups' = groups @ newg" using pre(1) by (auto simp: prefix_def)
  have all: "low l \<le> rbBaseOffset b" if "b \<in> set (concat newg @ wbBatches (plBuffer l'))" for b
    using content
  proof
    assume "groups' = groups \<and> wbBatches (plBuffer l') = []"
    with that newg show ?thesis by simp
  next
    assume "\<exists>y. concat groups' @ wbBatches (plBuffer l') = concat groups @ wbBatches (plBuffer l) @ y \<and>
                    (\<forall>b \<in> set y. plNextOffset l \<le> rbBaseOffset b)"
    then obtain y where "concat newg @ wbBatches (plBuffer l') = wbBatches (plBuffer l) @ y"
      "\<forall>b \<in> set y. plNextOffset l \<le> rbBaseOffset b" using newg by auto
    with that have "b \<in> set (wbBatches (plBuffer l)) \<or> plNextOffset l \<le> rbBaseOffset b" by (metis Un_iff set_append)
    with low_buffer [OF l] show ?thesis by fastforce
  qed
  have "low l \<le> low l'"
    using all low_buffer(1) [OF l] up by (cases "wbBatches (plBuffer l')") (auto simp: low_def [of l'])
  moreover have "low l \<le> srBase s" if s: "s \<in> set (plSegments l') - set (plSegments l)" for s
  proof -
    from s pre(2) obtain i where i: "i < length (plSegments l')" "s = plSegments l' ! i" "length (plSegments l) \<le> i"
      by (auto simp: in_set_conv_nth prefix_def nth_append split: if_splits)
    have len: "length (plSegments l) = length groups" "length (plSegments l') = length groups'"
      using l l' by (auto simp: log_ok_def log_inv_def list_all2_lengthD)
    have "seg_stored segs idx l' s (groups' ! i)"
      using l' i len by (auto simp: log_ok_def log_inv_def list_all2_conv_all_nth)
    then obtain t a where g: "chain (srBase s) (groups' ! i) (srLast s + 1)" "BuildSegment (pcSegment (plCfg l')) (groups' ! i) t = Ok a"
      by (auto simp: seg_stored_def)
    have ne: "groups' ! i \<noteq> []" by (rule BuildSegment_Ok(1) [OF g(2)])
    have "groups' ! i \<in> set newg" using i len newg by (auto simp: nth_append)
    with hd_in_set [OF ne] have "hd (groups' ! i) \<in> set (concat newg @ wbBatches (plBuffer l'))"
      unfolding set_append set_concat by blast
    from all [OF this] chain_hd [OF g(1) ne] show ?thesis by simp
  qed
  ultimately show ?thesis using pre by (simp add: extends_def)
qed

definition label_ok :: "'s plog \<Rightarrow> append_result outcome option \<Rightarrow> 's plog \<Rightarrow> bool" where
  "label_ok l x l' \<longleftrightarrow> plNextOffset l \<le> plNextOffset l' \<and>
     (\<forall>r. x = Some (Ok r) \<longrightarrow> arBaseOffset r = plNextOffset l \<and> arBaseOffset r \<le> arLastOffset r \<and>
        plNextOffset l' = arLastOffset r + 1)"

context s3_contract
begin

lemma Read_inv:
  assumes l: "log_ok segs idx ok l groups" and r: "Read ops clk off m l = (r, l')"
  shows "log_ok segs idx ok l' groups \<and> only_cache l l'"
proof (cases "read_select off l")
  case None
  with l r show ?thesis by (simp add: Read_def only_cache_def)
next
  case (Some x)
  obtain s es where x: "x = (s, es)" by fastforce
  have "s \<in> set (plSegments l)"
    using read_select_Some(1) l Some x by (auto simp: log_ok_def)
  with read_fetch_inv [OF l] r Some x show ?thesis by (simp add: Read_def)
qed

lemma log_step_inv:
  assumes l: "log_ok segs idx ok l groups" and st: "log_step ops segs idx ok l x l'"
  shows "\<exists>groups'. log_ok segs idx ok l' groups' \<and> extends l groups l' groups' \<and> label_ok l x l'"
  using st
proof (cases rule: log_step.cases)
  case (step_append b clk r)
  from AppendBatch_inv [OF l step_append(2,3)] obtain groups' where
    "log_ok segs idx ok l' groups'" "append_post b l r l' groups groups'"
    "plNextOffset l' = plNextOffset l + rbLastOffsetDelta b + 1" "conf l' = conf l"
    "prefix groups groups'" "prefix (plSegments l) (plSegments l')" by blast
  note g = this
  have "(\<exists>y. concat groups' @ wbBatches (plBuffer l') = concat groups @ wbBatches (plBuffer l) @ y \<and>
      (\<forall>b \<in> set y. plNextOffset l \<le> rbBaseOffset b)) \<or> groups' = groups \<and> wbBatches (plBuffer l') = []"
  proof (cases r)
    case (Ok res)
    with g(2) show ?thesis by (intro disjI1 exI [of _ "[patched b (plNextOffset l)]"]) (simp add: patched_def)
  qed (use g(2) in simp_all)
  with g(3) step_append(2) have "extends l groups l' groups'"
    by (intro log_ok_extends [OF l g(1) g(5,6,4)]) (auto simp: batch_ok_def)
  with g step_append show ?thesis
    by (intro exI [of _ groups']) (cases r, auto simp: label_ok_def batch_ok_def)
next
  case (step_flush clk r)
  from Flush_inv [OF l step_flush(2)] obtain groups' where g: "log_ok segs idx ok l' groups'"
    "prefix groups groups'" "prefix (plSegments l) (plSegments l')" "conf l' = conf l" "plNextOffset l' = plNextOffset l"
    "wbBatches (plBuffer l') = []" "concat groups' = concat groups @ wbBatches (plBuffer l) \<or> groups' = groups" by auto
  have "(\<exists>y. concat groups' @ wbBatches (plBuffer l') = concat groups @ wbBatches (plBuffer l) @ y \<and>
      (\<forall>b \<in> set y. plNextOffset l \<le> rbBaseOffset b)) \<or> groups' = groups \<and> wbBatches (plBuffer l') = []"
    using g(6,7) by (metis append_Nil2 empty_iff empty_set)
  with g(5) have "extends l groups l' groups'" by (intro log_ok_extends [OF l g(1-4)]) simp
  with g step_flush(1) show ?thesis by (auto simp: label_ok_def)
next
  case (step_read clk off m r)
  from Read_inv [OF l step_read(2)] step_read(1) show ?thesis
    by (intro exI [of _ groups]) (auto simp: label_ok_def extends_def only_cache_def low_cong [of l' l])
next
  case (step_prefetch i)
  with prefetch_step_inv [OF l, of i] show ?thesis
    by (intro exI [of _ groups]) (auto simp: label_ok_def extends_def only_cache_def low_cong [of "prefetch_step ops i l" l])
next
  case (step_env s' c')
  with log_ok_env [OF l step_env(3)] show ?thesis
    by (intro exI [of _ groups]) (auto simp: label_ok_def extends_def conf_def low_def split: list.splits)
qed

lemma log_run_inv:
  assumes "log_run ops segs idx ok l rs l'" "log_ok segs idx ok l groups"
  shows "\<exists>groups'. log_ok segs idx ok l' groups' \<and> extends l groups l' groups'"
  using assms
proof (induction rule: log_run.induct)
  case (run_ack l rs l1 r l2)
  then show ?case using log_step_inv [OF _ run_ack(2)] extends_trans by metis
next
  case (run_other l rs l1 x l2)
  then show ?case using log_step_inv [OF _ run_other(2)] extends_trans by metis
qed (auto simp: extends_def)

lemma log_run_offsets:
  assumes "log_run ops segs idx ok l rs l'" "log_ok segs idx ok l groups"
  shows "sorted_wrt (\<lambda>a b. arLastOffset a < arBaseOffset b) rs \<and>
    (\<forall>r \<in> set rs. plNextOffset l \<le> arBaseOffset r \<and> arBaseOffset r \<le> arLastOffset r \<and> arLastOffset r < plNextOffset l') \<and>
    plNextOffset l \<le> plNextOffset l'"
  using assms
proof (induction rule: log_run.induct)
  case (run_ack l rs l1 r l2)
  from log_run_inv [OF run_ack(1,4)] log_step_inv [OF _ run_ack(2)] have "label_ok l1 (Some (Ok r)) l2" by blast
  with run_ack show ?case by (fastforce simp: label_ok_def sorted_wrt_append)
next
  case (run_other l rs l1 x l2)
  from log_run_inv [OF run_other(1,5)] log_step_inv [OF _ run_other(2)] have "label_ok l1 x l2" by blast
  with run_other show ?case by (fastforce simp: label_ok_def)
qed auto

end

section \<open>Locating and reading a stored batch\<close>

lemma log_ok_nth:
  assumes l: "log_ok segs idx ok l groups" and i: "i < length groups"
  shows "i < length (plSegments l)" "seg_stored segs idx l (plSegments l ! i) (groups ! i)"
  using l i by (auto simp: log_ok_def log_inv_def list_all2_conv_all_nth)

lemma read_select_nth:
  assumes l: "log_ok segs idx ok l groups" and i: "i < length groups"
    and off: "srBase (plSegments l ! i) \<le> off" "off \<le> srLast (plSegments l ! i)"
  shows "\<exists>es. read_select off l = Some (plSegments l ! i, es) \<and> plIndexEntries l (srBase (plSegments l ! i)) = Some es"
proof -
  note n = log_ok_nth [OF l i]
  have "sorted_wrt (\<lambda>a b. srLast a < srBase b) (plSegments l)"
    using l by (simp add: log_ok_def log_inv_def)
  then have "\<not> (off \<ge> srBase (plSegments l ! j) \<and> off \<le> srLast (plSegments l ! j))" if "j < i" for j
    using that n(1) off by (fastforce simp: sorted_wrt_iff_nth_less)
  with n(1) off have "List.find (\<lambda>s. off \<ge> srBase s \<and> off \<le> srLast s) (plSegments l) = Some (plSegments l ! i)"
    by (auto simp: find_Some_iff)
  with n(2) show ?thesis by (auto simp: read_select_def seg_stored_def)
qed

lemma prefix_nth: "prefix xs ys \<Longrightarrow> i < length xs \<Longrightarrow> ys ! i = xs ! i \<and> i < length ys"
  by (auto simp: prefix_def nth_append)

lemma BuildSegment_index_time:
  assumes "BuildSegment cfg g t = Ok a" "BuildSegment cfg g t' = Ok a'"
  shows "saRelativeIndex a = saRelativeIndex a'"
  using assms by (auto simp: BuildSegment_def Let_def split: if_splits)

lemma BuildSegment_size:
  assumes "BuildSegment cfg g t = Ok a"
  shows "length (saSegmentBytes a) = 48 + length (concat (map rbBytes g))"
  unfolding BuildSegment_Ok(5) [OF assms] by (simp add: segmentHeaderLen_def segmentFooterLen_def)

context s3_contract
begin

text \<open>A segment chosen earlier is still there, with the same index, after any run.\<close>

lemma stored_after_run:
  assumes l: "log_ok segs idx ok l groups" and run: "log_run ops segs idx ok l rs l'"
    and i: "i < length groups" and es: "plIndexEntries l (srBase (plSegments l ! i)) = Some es"
  shows "\<exists>groups'. log_ok segs idx ok l' groups' \<and> plSegments l ! i \<in> set (plSegments l') \<and>
    seg_stored segs idx l' (plSegments l ! i) (groups ! i) \<and> plIndexEntries l' (srBase (plSegments l ! i)) = Some es"
proof -
  from log_run_inv [OF run l] obtain groups' where g: "log_ok segs idx ok l' groups'" "extends l groups l' groups'"
    by blast
  note n = log_ok_nth [OF l i]
  have pre: "groups' ! i = groups ! i" "i < length groups'" "plSegments l' ! i = plSegments l ! i" "i < length (plSegments l')"
    using g(2) i n(1) prefix_nth [of groups groups' i] prefix_nth [of "plSegments l" "plSegments l'" i]
    by (simp_all add: extends_def)
  have st: "seg_stored segs idx l' (plSegments l ! i) (groups ! i)"
    using log_ok_nth(2) [OF g(1) pre(2)] pre by simp
  moreover have "plIndexEntries l' (srBase (plSegments l ! i)) = Some es"
  proof -
    have "plCfg l' = plCfg l" using g(2) by (simp add: extends_def conf_def)
    with st n(2) es show ?thesis unfolding seg_stored_def by (metis BuildSegment_index_time option.inject)
  qed
  ultimately show ?thesis using g(1) pre by (metis nth_mem)
qed

end

context s3_reliable
begin

lemma read_fetch_reliable:
  assumes l: "log_ok segs idx ok l groups" and s: "seg_stored segs idx l s g" "s \<in> set (plSegments l)"
    and es: "plIndexEntries l (srBase s) = Some es"
    and off: "srBase s \<le> off" "off \<le> srLast s" and size: "srSize s < 2 ^ 31" and m: "in_i32 m"
  shows "\<exists>d. fst (read_fetch ops clk s es off m l) = Ok d \<and> read_spec g off m d"
proof -
  obtain r l' where f: "read_fetch ops clk s es off m l = (r, l')" by fastforce
  have ok: "ok (plS3 l)" using l by (simp add: log_ok_def log_inv_def)
  have "r \<noteq> Err e \<or> (\<forall>rng full. fst (s3DownloadSegment ops (segmentKey l (srBase s)) (Some rng) (plS3 l)) = Err e \<longrightarrow>
      range_ok (Some rng) \<longrightarrow> segs (plS3 l) (segmentKey l (srBase s)) = Some full \<longrightarrow> \<not> brStart rng < int (length full))" for e
    using download_succeeds [OF ok] by (metis option.inject outcome.distinct(1))
  with read_fetch_correct(1) [OF l s es off size m f] f show ?thesis by (metis fst_conv)
qed

lemma flushLocked_reliable:
  assumes l: "log_ok segs idx ok l groups"
  shows "\<exists>x. fst (flushLocked ops clk l) = Ok x"
proof (cases "wbBatches (plBuffer l) = []")
  case True
  then show ?thesis using flushLocked_empty [of l clk "snd (Drain (plBuffer l) (clk 0))" ops] by (simp add: Drain_def)
next
  case False
  have ok: "ok (plS3 l)" using l by (simp add: log_ok_def log_inv_def)
  from l obtain start where "0 \<le> start" "chain start (wbBatches (plBuffer l)) (plNextOffset l)" "plNextOffset l < 2 ^ 63"
    by (auto simp: log_ok_def log_inv_def)
  then obtain a where a: "BuildSegment (pcSegment (plCfg l)) (wbBatches (plBuffer l)) (clk 1) = Ok a"
    using BuildSegment_chain [OF _ False] by metis
  obtain s1 where u1: "s3UploadSegment ops (segmentKey l (saBaseOffset a)) (saSegmentBytes a) (plS3 l) = (Ok (), s1)"
    using upload_succeeds [OF ok] by (metis prod.collapse)
  have "ok s1" using ok_upload [OF ok] u1 by (metis snd_conv)
  then obtain s2 where u2: "s3UploadIndex ops (indexKey l (saBaseOffset a)) (saIndexBytes a) s1 = (Ok (), s2)"
    using upload_index_succeeds by (metis prod.collapse)
  have "Drain (plBuffer l) (clk 0) = (wbBatches (plBuffer l), snd (Drain (plBuffer l) (clk 0)))"
    by (simp add: Drain_def)
  from flushLocked_ok [OF this False a u1 u2] show ?thesis by force
qed

lemma Flush_reliable:
  assumes l: "log_ok segs idx ok l groups" and ne: "wbBatches (plBuffer l) \<noteq> []" and f: "Flush ops clk l = (r, l')"
  shows "r = Ok () \<and> (\<exists>a t. log_ok segs idx ok l' (groups @ [wbBatches (plBuffer l)]) \<and>
    plSegments l' = plSegments l @ [new_segment a] \<and> BuildSegment (pcSegment (plCfg l)) (wbBatches (plBuffer l)) t = Ok a)"
proof -
  obtain fr l1 where fl: "flushLocked ops clk l = (fr, l1)" by fastforce
  from flushLocked_inv [OF l fl] obtain groups' where g: "log_ok segs idx ok l1 groups'" "flush_result l fr l1 groups groups'"
    by blast
  obtain a where fr: "fr = Ok (Some a)"
    using flushLocked_reliable [OF l, of clk] fl g(2) ne by (cases "(l, fr, l1, groups, groups')" rule: flush_result.cases) auto
  have "log_ok segs idx ok (callFlush a l1) groups'" by (rule log_ok_core_cache [OF g(1)]) simp_all
  with g(2) fr fl f show ?thesis by (auto simp: Flush_def)
qed

end

section \<open>Properties of the log\<close>

definition cache_fresh :: "'s plog \<Rightarrow> bool" where
  "cache_fresh l \<longleftrightarrow> (case plCache l of None \<Rightarrow> True
     | Some c \<Rightarrow> cache_inv c \<and> (\<forall>b. cache_view c (cacheTopicKey l, plPartition l, b) = None))"

lemma log_ok_New:
  assumes "l = NewPartitionLog ns topic part start s cache cfg onFlush onS3Op now"
    and "ok s" "0 \<le> start" "start < 2 ^ 63" "cache_fresh l"
  shows "log_ok segs idx ok l []"
proof -
  have "log_inv segs idx ok l []"
    using assms by (simp add: log_inv_def NewPartitionLog_def NewWriteBuffer_def wb_inv_def)
  moreover have "cache_ok segs l"
    using assms(1,5) by (auto simp: cache_ok_def cache_fresh_def lru.coherent_def own_keys_def NewPartitionLog_def)
  ultimately show ?thesis by (simp add: log_ok_def)
qed

text \<open>A small log over the in-memory store, for the witnesses.\<close>

definition demo_cfg :: plog_cfg where
  "demo_cfg = \<lparr>pcBuffer = \<lparr>MaxBytes = 0, MaxMessages = 0, MaxBatches = 0, FlushInterval = 0\<rparr>,
     pcSegment = \<lparr>IndexIntervalMessages = 1\<rparr>, pcReadAheadSegments = 1, pcCacheEnabled = True\<rparr>"

definition demo_batch :: record_batch where
  "demo_batch = \<lparr>rbBaseOffset = 0, rbLastOffsetDelta = 1, rbMessageCount = 2, rbBytes = [9, 9, 9, 9, 9, 9, 9, 9, 5]\<rparr>"

definition demo_log :: "memory_s3 plog" where
  "demo_log = NewPartitionLog ''ns'' ''t'' 0 0 NewMemoryS3Client (Some (NewSegmentCache 1000)) demo_cfg True True 0"

abbreviation mem_log_ok :: "memory_s3 plog \<Rightarrow> record_batch list list \<Rightarrow> bool" where
  "mem_log_ok \<equiv> log_ok mem_segs mem_idx mem_ok"

abbreviation mem_run :: "memory_s3 plog \<Rightarrow> append_result list \<Rightarrow> memory_s3 plog \<Rightarrow> bool" where
  "mem_run \<equiv> log_run memory_client mem_segs mem_idx mem_ok"

lemma cache_view_New [simp]: "cache_view (NewSegmentCache n) k = None"
  by (cases k) (simp add: cache_view_def NewSegmentCache_def find_entry_def)

lemma demo_fresh: "cache_fresh demo_log"
  by (simp add: cache_fresh_def demo_log_def NewPartitionLog_def)

lemma demo_log_ok: "mem_log_ok demo_log []"
  by (rule log_ok_New [OF demo_log_def]) (use demo_fresh in simp_all)

lemma demo_batch_ok: "batch_ok demo_batch demo_log"
  by (simp add: batch_ok_def demo_batch_def demo_log_def NewPartitionLog_def)

lemma demo_append:
  "AppendBatch memory_client clk demo_batch demo_log =
     (Ok \<lparr>arBaseOffset = 0, arLastOffset = 1\<rparr>, appended demo_batch demo_log)"
proof -
  have "\<not> ShouldFlush (plBuffer (appended demo_batch demo_log)) (clk 0)"
    by (simp add: ShouldFlush_def appended_def demo_log_def NewPartitionLog_def demo_cfg_def NewWriteBuffer_def bufAppend_def)
  moreover have "plNextOffset demo_log = 0" "rbLastOffsetDelta demo_batch = 1"
    by (simp_all add: demo_log_def NewPartitionLog_def demo_batch_def)
  ultimately show ?thesis by (simp add: AppendBatch_unfold [OF demo_log_ok demo_batch_ok])
qed

lemma demo_appended_ok: "mem_log_ok (appended demo_batch demo_log) []"
  and demo_buffer: "wbBatches (plBuffer (appended demo_batch demo_log)) = [patched demo_batch 0]"
  using log_ok_appended [OF demo_log_ok demo_batch_ok]
  by (simp_all add: demo_log_def NewPartitionLog_def NewWriteBuffer_def)

lemma demo_run:
  "mem_run demo_log [\<lparr>arBaseOffset = 0, arLastOffset = 1\<rparr>]
     (snd (Flush memory_client clk (appended demo_batch demo_log)))"
proof -
  have "mem_run demo_log ([] @ [\<lparr>arBaseOffset = 0, arLastOffset = 1\<rparr>]) (appended demo_batch demo_log)"
    by (rule run_ack [OF run_nil step_append [OF demo_batch_ok demo_append]])
  then show ?thesis
    using run_other [OF _ step_flush [of memory_client clk "appended demo_batch demo_log"]]
    by (metis append_Nil option.distinct(1) prod.collapse)
qed

text \<open>The same store when every upload of a segment fails.\<close>

definition down_client :: "memory_s3 s3_client" where
  "down_client = memory_client\<lparr>s3UploadSegment := (\<lambda>k b s. (Err (ErrText ''unavailable''), s))\<rparr>"

lemma down_contract: "s3_contract down_client mem_segs mem_idx mem_ok"
  using mem.s3_contract_axioms unfolding s3_contract_def down_client_def by simp

text \<open>
  C3: whatever a broker does with a partition log (appends of well-formed batches, flushes, failed
  uploads, reads, read-ahead, other partitions working on the same store and cache), the offset
  ranges of its segments stay disjoint and ascending, every recorded segment and its index are in
  the store as the serialisation of the batches it was made of, the buffered batches follow
  without a gap up to the next offset, and the cache holds nothing but stored segments.
\<close>

theorem log_invariant:
  assumes "s3_contract ops segs idx ok"
    and "l0 = NewPartitionLog ns topic part start s cache cfg onFlush onS3Op now"
    and "ok s" "0 \<le> start" "start < 2 ^ 63" "cache_fresh l0"
    and "log_run ops segs idx ok l0 rs l"
  shows "\<exists>groups. log_ok segs idx ok l groups"
  using s3_contract.log_run_inv [OF assms(1,7) log_ok_New [where ok = ok, OF assms(2-6)]] by blast

theorem log_invariant_witness:
  "\<exists>groups. mem_log_ok (snd (Flush memory_client (\<lambda>_. 0) (appended demo_batch demo_log))) groups"
  by (rule log_invariant [OF mem.s3_contract_axioms demo_log_def _ _ _ demo_fresh demo_run]) simp_all



text \<open>
  C4: over a store that does not fail, a flush makes every buffered batch durable and readable for
  good: after it, and after anything else the broker does, a read at an offset of such a batch
  returns bytes from the start of a batch at or before it, with the batch that contains the offset
  among them, cut only at the byte limit of the request.
\<close>

theorem flushed_readable:
  assumes R: "s3_reliable ops segs idx ok" and l: "log_ok segs idx ok l groups" and f: "Flush ops clk l = (r, l1)"
    and run: "log_run ops segs idx ok l1 rs l2"
    and b: "b \<in> set (wbBatches (plBuffer l))" "rbBaseOffset b \<le> off" "off \<le> rbBaseOffset b + rbLastOffsetDelta b"
    and size: "48 + int (length (concat (map rbBytes (wbBatches (plBuffer l))))) < 2 ^ 31" and m: "in_i32 m"
  shows "r = Ok () \<and> (\<exists>d. fst (Read ops clk' off m l2) = Ok d \<and> read_spec (wbBatches (plBuffer l)) off m d)"
proof -
  let ?bs = "wbBatches (plBuffer l)" and ?i = "length groups"
  have C: "s3_contract ops segs idx ok" using R by (rule s3_reliable.axioms(1))
  from b(1) have ne: "?bs \<noteq> []" by auto
  from s3_reliable.Flush_reliable [OF R l ne f] obtain a t where r: "r = Ok ()"
    and l1: "log_ok segs idx ok l1 (groups @ [?bs])" "plSegments l1 = plSegments l @ [new_segment a]"
    and a: "BuildSegment (pcSegment (plCfg l)) ?bs t = Ok a" by blast
  from l have len: "length (plSegments l) = ?i" by (auto simp: log_ok_def log_inv_def list_all2_lengthD)
  have at: "plSegments l1 ! ?i = new_segment a" by (metis l1(2) len nth_append_length)
  from log_ok_nth(2) [OF l1(1), of ?i] at have st: "seg_stored segs idx l1 (new_segment a) ?bs" by simp
  then have "chain (saBaseOffset a) ?bs (saLastOffset a + 1)"
    by (auto simp: seg_stored_def new_segment_def)
  note range = chain_base [OF this b(1)] chain_end [OF this b(1)]
  from s3_contract.log_run_inv [OF C run l1(1)] obtain g2 where g2: "log_ok segs idx ok l2 g2" "extends l1 (groups @ [?bs]) l2 g2"
    by blast
  have nth: "g2 ! ?i = ?bs" "?i < length g2" "plSegments l2 ! ?i = new_segment a"
    using g2(2) l1(2) len at prefix_nth [of "groups @ [?bs]" g2 ?i] prefix_nth [of "plSegments l1" "plSegments l2" ?i]
    by (simp_all add: extends_def)
  from read_select_nth [OF g2(1) nth(2), of off] nth range b obtain es where
    es: "read_select off l2 = Some (new_segment a, es)" "plIndexEntries l2 (saBaseOffset a) = Some es"
    by (auto simp: new_segment_def)
  note st2 = log_ok_nth [OF g2(1) nth(2), unfolded nth]
  have "\<exists>d. fst (read_fetch ops clk' (new_segment a) es off m l2) = Ok d \<and> read_spec ?bs off m d"
  proof (rule s3_reliable.read_fetch_reliable [OF R g2(1) st2(2)])
    show "new_segment a \<in> set (plSegments l2)" using st2(1) nth(3) by (metis nth_mem)
  qed (use es range b size m BuildSegment_size [OF a] in \<open>simp_all add: new_segment_def\<close>)
  with r es show ?thesis by (simp add: Read_def)
qed

theorem flushed_readable_witness:
  "let l = appended demo_batch demo_log; l1 = snd (Flush memory_client (\<lambda>_. 0) l) in
     fst (Flush memory_client (\<lambda>_. 0) l) = Ok () \<and>
     (\<exists>d. fst (Read memory_client (\<lambda>_. 0) 1 0 l1) = Ok d \<and> read_spec [patched demo_batch 0] 1 0 d)"
proof -
  let ?l = "appended demo_batch demo_log"
  obtain r l1 where f: "Flush memory_client (\<lambda>_. 0) ?l = (r, l1)" by fastforce
  have "r = Ok () \<and> (\<exists>d. fst (Read memory_client (\<lambda>_. 0) 1 0 l1) = Ok d \<and> read_spec (wbBatches (plBuffer ?l)) 1 0 d)"
    by (rule flushed_readable [OF memr.s3_reliable_axioms demo_appended_ok f run_nil, of "patched demo_batch 0"])
      (simp_all only: demo_buffer, simp_all add: patched_def demo_batch_def in_i32_def)
  with f show ?thesis by (simp add: demo_buffer)
qed

lemma demo_flush:
  obtains a l1 where "Flush memory_client (\<lambda>_. 0) (appended demo_batch demo_log) = (Ok (), l1)"
    "mem_log_ok l1 [[patched demo_batch 0]]" "plSegments l1 = [new_segment a]"
    "saBaseOffset a = 0" "saLastOffset a = 1" "srSize (new_segment a) < 2 ^ 31"
    "mem_segs (plS3 l1) = [segmentKey l1 0 \<mapsto> saSegmentBytes a]" "conf l1 = conf demo_log"
proof -
  let ?l = "appended demo_batch demo_log"
  have l: "plSegments ?l = []" "mem_segs (plS3 ?l) = Map.empty" "conf ?l = conf demo_log"
    by (simp_all add: appended_def demo_log_def NewPartitionLog_def NewMemoryS3Client_def conf_def)
  obtain fr l1 where f: "flushLocked memory_client (\<lambda>_. 0) ?l = (fr, l1)" by fastforce
  from memr.flushLocked_reliable [OF demo_appended_ok, of "\<lambda>_. 0"] f obtain x where fr: "fr = Ok x" by auto
  from demo_appended_ok f refl show thesis
  proof (cases rule: mem.flushLocked_cases)
    case (stored a s' l2)
    have core: "core l1 = core (flushed a (snd (Drain (plBuffer ?l) 0)) s' ?l)" using stored(7,8) by simp
    note a = stored(2) [unfolded demo_buffer]
    have ab: "saBaseOffset a = 0" "saLastOffset a = 1"
      using BuildSegment_Ok(3,4) [OF a] by (simp_all add: patched_def demo_batch_def i64_id in_i64_def)
    have conf: "conf l1 = conf ?l" using conf_core [OF core] by (simp add: flushed_def conf_def)
    have "mem_log_ok l1 [[patched demo_batch 0]]"
      using mem.flushLocked_inv [OF demo_appended_ok f] stored(3) by (auto simp: demo_buffer)
    then have "mem_log_ok (callFlush a l1) [[patched demo_batch 0]]"
      by (rule log_ok_core_cache) simp_all
    moreover have "srSize (new_segment a) < 2 ^ 31"
      using BuildSegment_size [OF a] by (simp add: new_segment_def patched_def demo_batch_def)
    moreover have "mem_segs (plS3 l1) = [segmentKey l1 0 \<mapsto> saSegmentBytes a]"
      using stored(5) core_fields(4) [OF core] l(2) ab conf_keys(1) [OF conf] by (simp add: flushed_def)
    moreover have "conf (callFlush a l1) = conf demo_log" "segmentKey (callFlush a l1) = segmentKey l1"
      using conf l(3) by (simp_all add: conf_core [OF core_callFlush] conf_keys(1) [OF conf_core [OF core_callFlush]])
    moreover have "plSegments l1 = [new_segment a]" using core_fields(8) [OF core] l(1) by (simp add: flushed_def)
    ultimately show thesis
      using that [of "callFlush a l1" a] f stored(3) ab by (simp add: Flush_def)
  qed (use fr demo_buffer in simp_all)
qed

text \<open>
  C11: a read that loses the lock between choosing its segment and fetching it is not disturbed by
  what other goroutines do in between (appends, flushes, evictions, read-ahead, other partitions):
  if it returns bytes, they are the right ones for the segment it chose.
\<close>

theorem interleaved_read:
  assumes C: "s3_contract ops segs idx ok" and l: "log_ok segs idx ok l groups"
    and sel: "read_select off l = Some (s, es)" and run: "log_run ops segs idx ok l rs l'"
    and size: "srSize s < 2 ^ 31" and m: "in_i32 m" and f: "read_fetch ops clk s es off m l' = (Ok d, l'')"
  shows "\<exists>g \<in> set groups. seg_stored segs idx l s g \<and> read_spec g off m d"
proof -
  have inv: "log_inv segs idx ok l groups" using l by (simp add: log_ok_def)
  note s = read_select_Some [OF inv sel]
  from s(1) obtain i where i: "i < length (plSegments l)" "s = plSegments l ! i" by (auto simp: in_set_conv_nth)
  have len: "length (plSegments l) = length groups" using inv by (auto simp: log_inv_def list_all2_lengthD)
  with i have n: "i < length groups" by simp
  from s3_contract.stored_after_run [OF C l run n] i s(4) obtain groups' where
    l': "log_ok segs idx ok l' groups'" "s \<in> set (plSegments l')" "seg_stored segs idx l' s (groups ! i)"
      "plIndexEntries l' (srBase s) = Some es" by auto
  from s3_contract.read_fetch_correct(1) [OF C l'(1,3,2,4) s(2,3) size m f] have "read_spec (groups ! i) off m d" by auto
  with n i log_ok_nth(2) [OF l n] show ?thesis by (intro bexI [of _ "groups ! i"]) auto
qed

theorem interleaved_read_witness:
  "\<exists>l1 es d. l1 = snd (Flush memory_client (\<lambda>_. 0) (appended demo_batch demo_log)) \<and>
     read_select 1 l1 = Some (plSegments l1 ! 0, es) \<and>
     fst (read_fetch memory_client (\<lambda>_. 0) (plSegments l1 ! 0) es 1 0 (prefetch_step memory_client 0 l1)) = Ok d \<and>
     (\<exists>g. seg_stored mem_segs mem_idx l1 (plSegments l1 ! 0) g \<and> read_spec g 1 0 d)"
proof -
  obtain a l1 where f: "Flush memory_client (\<lambda>_. 0) (appended demo_batch demo_log) = (Ok (), l1)"
    and l1: "mem_log_ok l1 [[patched demo_batch 0]]" "plSegments l1 = [new_segment a]"
    and ab: "saBaseOffset a = 0" "saLastOffset a = 1" and size: "srSize (new_segment a) < 2 ^ 31"
    by (rule demo_flush)
  from read_select_nth [OF l1(1), of 0 1] l1(2) ab obtain es where
    es: "read_select 1 l1 = Some (new_segment a, es)" "plIndexEntries l1 0 = Some es"
    by (auto simp: new_segment_def)
  have run: "mem_run l1 [] (prefetch_step memory_client 0 l1)"
    using run_other [OF run_nil step_prefetch] by blast
  let ?l2 = "prefetch_step memory_client 0 l1"
  from mem.stored_after_run [OF l1(1) run, of 0 es] l1(2) ab es(2) obtain groups' where
    l2: "mem_log_ok ?l2 groups'" "new_segment a \<in> set (plSegments ?l2)"
      "seg_stored mem_segs mem_idx ?l2 (new_segment a) [patched demo_batch 0]" "plIndexEntries ?l2 0 = Some es"
    by (auto simp: new_segment_def)
  from memr.read_fetch_reliable [OF l2(1,3,2), of es 1 0 "\<lambda>_. 0"] l2(4) ab size obtain d l3 where
    d: "read_fetch memory_client (\<lambda>_. 0) (new_segment a) es 1 0 ?l2 = (Ok d, l3)"
    by (cases "read_fetch memory_client (\<lambda>_. 0) (new_segment a) es 1 0 ?l2") (auto simp: new_segment_def in_i32_def)
  from interleaved_read [OF mem.s3_contract_axioms l1(1) es(1) run size _ d] es d l1(2) f show ?thesis
    by (intro exI [of _ l1] exI [of _ es] exI [of _ d]) (auto simp: in_i32_def)
qed

text \<open>
  C12: when the upload of a flush fails, the batches it took from the buffer are gone although their
  offsets stay assigned: their appends were acknowledged, yet a read at one of their offsets
  answers ErrOffsetOutOfRange then and after anything the broker does later.
\<close>

theorem failed_flush_loses_batches:
  assumes C: "s3_contract ops segs idx ok" and l: "log_ok segs idx ok l groups"
    and f: "Flush ops clk l = (Err e, l1)" and run: "log_run ops segs idx ok l1 rs l2"
    and b: "b \<in> set (wbBatches (plBuffer l))" "rbBaseOffset b \<le> off" "off \<le> rbBaseOffset b + rbLastOffsetDelta b"
  shows "plNextOffset l1 = plNextOffset l \<and> wbBatches (plBuffer l1) = [] \<and>
    fst (Read ops clk' off m l2) = Err ErrOffsetOutOfRange"
proof -
  from s3_contract.Flush_inv [OF C l f] obtain g1 where g1: "log_ok segs idx ok l1 g1"
    "wbBatches (plBuffer l1) = []" "plNextOffset l1 = plNextOffset l" "plSegments l1 = plSegments l" by auto
  from s3_contract.log_run_inv [OF C run g1(1)] obtain g2 where g2: "extends l1 g1 l2 g2" by blast
  obtain start where start: "\<forall>s \<in> set (plSegments l). srLast s < start" "chain start (wbBatches (plBuffer l)) (plNextOffset l)"
    using l by (auto simp: log_ok_def log_inv_def)
  have off: "start \<le> off" "off < plNextOffset l"
    using chain_base [OF start(2) b(1)] chain_end [OF start(2) b(1)] b by auto
  have "\<not> (off \<ge> srBase s \<and> off \<le> srLast s)" if "s \<in> set (plSegments l2)" for s
  proof (cases "s \<in> set (plSegments l)")
    case True
    with start(1) off show ?thesis by fastforce
  next
    case False
    with g2 that g1 have "plNextOffset l \<le> srBase s" by (auto simp: extends_def low_def)
    with off show ?thesis by simp
  qed
  then have "read_select off l2 = None" by (auto simp: read_select_def find_None_iff split: option.splits)
  with g1 show ?thesis by (simp add: Read_def)
qed

theorem failed_flush_loses_batches_witness:
  "\<exists>l1. Flush down_client (\<lambda>_. 0) (appended demo_batch demo_log) = (Err (ErrText ''unavailable''), l1) \<and>
     plNextOffset l1 = 2 \<and> fst (Read down_client (\<lambda>_. 0) 1 0 l1) = Err ErrOffsetOutOfRange"
proof -
  let ?l = "appended demo_batch demo_log"
  have d: "Drain (plBuffer ?l) 0 = ([patched demo_batch 0], snd (Drain (plBuffer ?l) 0))"
    by (simp add: Drain_def demo_buffer)
  obtain a where a: "BuildSegment (pcSegment (plCfg ?l)) [patched demo_batch 0] 0 = Ok a"
    using BuildSegment_total [of "[patched demo_batch 0]"] by (auto simp: patched_def demo_batch_def)
  have u: "s3UploadSegment down_client k x y = (Err (ErrText ''unavailable''), y)" for k x y
    by (simp add: down_client_def)
  obtain l1 where f: "Flush down_client (\<lambda>_. 0) ?l = (Err (ErrText ''unavailable''), l1)"
    using flushLocked_upload_err [where clk = "\<lambda>_. 0", OF d _ a u] by (force simp: Flush_def)
  have "patched demo_batch 0 \<in> set (wbBatches (plBuffer ?l))" by (simp add: demo_buffer)
  from failed_flush_loses_batches [OF down_contract demo_appended_ok f run_nil this, of 1 "\<lambda>_. 0" 0] f show ?thesis
    by (intro exI [of _ l1]) (auto simp: patched_def demo_batch_def appended_def demo_log_def NewPartitionLog_def)
qed

section \<open>Refinement of an append-only sequence\<close>

text \<open>
  C6: over a store that does not fail, the log implements an append-only sequence of batches: an
  append returns the current end offset and the last offset of the batch, and adds the batch,
  renumbered, at the end of the sequence, whether it stays in the buffer or triggers a flush; a
  flush changes nothing of the sequence.
\<close>

theorem log_refines_sequence:
  assumes R: "s3_reliable ops segs idx ok" and l: "log_ok segs idx ok l groups" and b: "batch_ok b l"
    and hist: "hist = concat groups @ wbBatches (plBuffer l)"
  shows "(\<exists>l' groups'. AppendBatch ops clk b l =
             (Ok \<lparr>arBaseOffset = plNextOffset l, arLastOffset = plNextOffset l + rbLastOffsetDelta b\<rparr>, l') \<and>
           log_ok segs idx ok l' groups' \<and> plNextOffset l' = plNextOffset l + rbLastOffsetDelta b + 1 \<and>
           concat groups' @ wbBatches (plBuffer l') = hist @ [patched b (plNextOffset l)]) \<and>
         (\<exists>l' groups'. Flush ops clk l = (Ok (), l') \<and> log_ok segs idx ok l' groups' \<and>
           plNextOffset l' = plNextOffset l \<and> wbBatches (plBuffer l') = [] \<and> concat groups' = hist)"
proof -
  have C: "s3_contract ops segs idx ok" using R by (rule s3_reliable.axioms(1))
  obtain r l' where ap: "AppendBatch ops clk b l = (r, l')" by fastforce
  obtain fr l2 where fl: "Flush ops clk l = (fr, l2)" by fastforce
  have "\<forall>e. fst (AppendBatch ops clk b l) \<noteq> Err e"
    using s3_reliable.flushLocked_reliable [OF R log_ok_appended(1) [OF l b], of "\<lambda>i. clk (Suc i)"]
    by (auto simp: AppendBatch_unfold [OF l b] Let_def split: prod.splits outcome.splits option.splits)
  with s3_contract.AppendBatch_inv [OF C l b ap] ap hist have
    "\<exists>l' groups'. AppendBatch ops clk b l =
       (Ok \<lparr>arBaseOffset = plNextOffset l, arLastOffset = plNextOffset l + rbLastOffsetDelta b\<rparr>, l') \<and>
     log_ok segs idx ok l' groups' \<and> plNextOffset l' = plNextOffset l + rbLastOffsetDelta b + 1 \<and>
     concat groups' @ wbBatches (plBuffer l') = hist @ [patched b (plNextOffset l)]"
    by (cases r) auto
  moreover have "\<forall>e. fst (Flush ops clk l) \<noteq> Err e"
    using s3_reliable.flushLocked_reliable [OF R l, of clk]
    by (auto simp: Flush_def Let_def split: prod.splits outcome.splits option.splits)
  with s3_contract.Flush_inv [OF C l fl] fl hist have
    "\<exists>l' groups'. Flush ops clk l = (Ok (), l') \<and> log_ok segs idx ok l' groups' \<and>
       plNextOffset l' = plNextOffset l \<and> wbBatches (plBuffer l') = [] \<and> concat groups' = hist"
    by auto
  ultimately show ?thesis by blast
qed

theorem log_refines_sequence_witness:
  "\<exists>l' groups'. AppendBatch memory_client (\<lambda>_. 0) demo_batch demo_log = (Ok \<lparr>arBaseOffset = 0, arLastOffset = 1\<rparr>, l') \<and>
     mem_log_ok l' groups' \<and> plNextOffset l' = 2 \<and> concat groups' @ wbBatches (plBuffer l') = [patched demo_batch 0]"
proof -
  have d: "plNextOffset demo_log = 0" "rbLastOffsetDelta demo_batch = 1" "wbBatches (plBuffer demo_log) = []"
    by (simp_all add: demo_log_def NewPartitionLog_def demo_batch_def NewWriteBuffer_def)
  from log_refines_sequence [OF memr.s3_reliable_axioms demo_log_ok demo_batch_ok refl, of "\<lambda>_. 0"] show ?thesis
    by (simp add: d)
qed

end
