(* ===== verification/Log_Restore.thy ===== *)
theory Log_Restore
  imports Log_Correctness
begin

text \<open>
  Rebuilding a partition log from the store: \<open>RestoreFromS3\<close> recovers exactly the recorded
  segments of the log that wrote them, and what stops it from doing so.
\<close>

section \<open>Operations that only read the store\<close>

definition quiet :: "('s \<Rightarrow> string \<Rightarrow> bytes option) \<Rightarrow> ('s \<Rightarrow> string \<Rightarrow> bytes option) \<Rightarrow> ('s \<Rightarrow> bool)
    \<Rightarrow> 's plog \<Rightarrow> 's plog \<Rightarrow> bool" where
  "quiet segs idx ok l l' \<longleftrightarrow>
     core l' = core (l\<lparr>plS3 := plS3 l'\<rparr>) \<and> plCache l' = plCache l \<and> plPrefetch l' = plPrefetch l \<and>
     (ok (plS3 l) \<longrightarrow> ok (plS3 l') \<and> segs (plS3 l') = segs (plS3 l) \<and> idx (plS3 l') = idx (plS3 l))"

lemma quiet_refl [simp]: "quiet segs idx ok l l"
  by (simp add: quiet_def)

lemma quiet_trans:
  assumes a: "quiet segs idx ok l l1" and b: "quiet segs idx ok l1 l2"
  shows "quiet segs idx ok l l2"
proof -
  have "core l2 = core (l1\<lparr>plS3 := plS3 l2\<rparr>)" using b by (simp add: quiet_def)
  also have "\<dots> = core (l\<lparr>plS3 := plS3 l1, plS3 := plS3 l2\<rparr>)"
    by (rule core_cong) (use a in \<open>simp add: quiet_def\<close>)
  finally show ?thesis using a b by (auto simp: quiet_def)
qed

lemma quiet_fields:
  assumes "quiet segs idx ok l l'"
  shows "plNamespace l' = plNamespace l" "plTopic l' = plTopic l" "plPartition l' = plPartition l" "plCfg l' = plCfg l"
    "plNextOffset l' = plNextOffset l" "plBuffer l' = plBuffer l" "segmentKey l' = segmentKey l" "indexKey l' = indexKey l"
proof -
  have c: "core l' = core (l\<lparr>plS3 := plS3 l'\<rparr>)" using assms by (simp add: quiet_def)
  show f: "plNamespace l' = plNamespace l" "plTopic l' = plTopic l" "plPartition l' = plPartition l" "plCfg l' = plCfg l"
    "plNextOffset l' = plNextOffset l" "plBuffer l' = plBuffer l"
    using core_fields [OF c] by simp_all
  show "segmentKey l' = segmentKey l" "indexKey l' = indexKey l" using keys_cong [OF f(1-3)] by simp_all
qed

context s3_contract
begin

lemma quiet_download:
  "s3DownloadSegment ops k r (plS3 l) = (res, s') \<Longrightarrow> quiet segs idx ok l (callS3Op n t x (l\<lparr>plS3 := s'\<rparr>))"
  using ok_download [of "plS3 l" k r] download_segs [of "plS3 l" k r] download_idx [of "plS3 l" k r]
  by (auto simp: quiet_def)

lemma quiet_download_index:
  "s3DownloadIndex ops k (plS3 l) = (res, s') \<Longrightarrow> quiet segs idx ok l (callS3Op n t x (l\<lparr>plS3 := s'\<rparr>))"
  using ok_download_index [of "plS3 l" k] download_index_segs [of "plS3 l" k] download_index_idx [of "plS3 l" k]
  by (auto simp: quiet_def)

lemma quiet_list:
  "s3ListSegments ops p (plS3 l) = (res, s') \<Longrightarrow> quiet segs idx ok l (l\<lparr>plS3 := s'\<rparr>)"
  using ok_list [of "plS3 l" p] list_segs [of "plS3 l" p] list_idx [of "plS3 l" p]
  by (auto simp: quiet_def)

text \<open>One object of the listing: it is skipped, it stops the restore, or it gives a segment.\<close>

lemma restore_footers_Cons:
  assumes "restore_footers ops clk k (obj # objs) l = (r, l')"
  obtains (skip) "restore_footers ops clk k objs l = (r, l')"
      "\<not> HasSuffix (s3Key obj) ''.kfs'' \<or> parseSegmentBaseOffset (s3Key obj) = None \<or> s3Size obj < int segmentFooterLen"
  | (stop) l1 where "quiet segs idx ok l l1" "l' = l1" "\<forall>es. r \<noteq> Ok es"
  | (take) l1 base off rs where "quiet segs idx ok l l1" "restore_footers ops clk (k + 2) objs l1 = (rs, l')"
      "parseSegmentBaseOffset (s3Key obj) = Some base"
      "r = bindO rs (\<lambda>es. Ok (\<lparr>srBase = base, srLast = off, srSize = s3Size obj\<rparr> # es))"
proof (cases "HasSuffix (s3Key obj) ''.kfs'' \<and> parseSegmentBaseOffset (s3Key obj) \<noteq> None \<and> \<not> s3Size obj < int segmentFooterLen")
  case False
  with assms show thesis by (intro skip) (auto split: option.splits if_splits)
next
  case True
  then obtain base where base: "parseSegmentBaseOffset (s3Key obj) = Some base" by auto
  define rng where "rng = \<lparr>brStart = s3Size obj - int segmentFooterLen, brEnd = s3Size obj - 1\<rparr>"
  obtain res s' where d: "s3DownloadSegment ops (s3Key obj) (Some rng) (plS3 l) = (res, s')" by fastforce
  define l1 where "l1 = callS3Op ''download_segment_footer'' (timeSub (clk (k + 1)) (clk k)) res (l\<lparr>plS3 := s'\<rparr>)"
  have q: "quiet segs idx ok l l1" unfolding l1_def by (rule quiet_download [OF d])
  obtain rs l2 where rest: "restore_footers ops clk (k + 2) objs l1 = (rs, l2)" by fastforce
  show thesis
  proof (cases "bindO res parseSegmentFooter")
    case (Ok off)
    with assms True base d rest have "l' = l2"
      "r = bindO rs (\<lambda>es. Ok (\<lparr>srBase = base, srLast = off, srSize = s3Size obj\<rparr> # es))"
      by (auto simp: Let_def l1_def simp flip: rng_def)
    with take [OF q _ base] rest show thesis by blast
  next
    case (Err e)
    with assms True base d q show thesis
      by (intro stop [OF q]) (auto simp: Let_def l1_def simp flip: rng_def)
  next
    case Panic
    with assms True base d q show thesis
      by (intro stop [OF q]) (auto simp: Let_def l1_def simp flip: rng_def)
  qed
qed

lemma restore_footers_quiet: "restore_footers ops clk k objs l = (r, l') \<Longrightarrow> quiet segs idx ok l l'"
proof (induction objs arbitrary: k l r l')
  case (Cons obj objs)
  from Cons.prems show ?case
    by (cases rule: restore_footers_Cons) (use Cons.IH quiet_trans in blast)+
qed simp

text \<open>A restore that succeeds took every segment object under the prefix.\<close>

lemma restore_footers_bases:
  assumes "restore_footers ops clk k objs l = (Ok es, l')" "obj \<in> set objs" "HasSuffix (s3Key obj) ''.kfs''"
    "parseSegmentBaseOffset (s3Key obj) = Some base" "int segmentFooterLen \<le> s3Size obj"
  shows "base \<in> srBase ` set es"
  using assms(1,2)
proof (induction objs arbitrary: k l es l')
  case (Cons x objs)
  from Cons.prems(1) show ?case
  proof (cases rule: restore_footers_Cons)
    case skip
    with Cons assms(3-5) show ?thesis by auto
  next
    case (take l1 base' off rs)
    then obtain es' where es': "rs = Ok es'" "es = \<lparr>srBase = base', srLast = off, srSize = s3Size x\<rparr> # es'"
      by (cases rs) auto
    with Cons take assms(4) show ?thesis by (cases "obj = x") auto
  qed simp
qed simp

lemma restore_indexes_quiet: "restore_indexes ops clk k es m l = (r, l') \<Longrightarrow> quiet segs idx ok l l'"
proof (induction es arbitrary: k m l r l')
  case (Cons e es)
  obtain res s' where d: "s3DownloadIndex ops (indexKey l (srBase e)) (plS3 l) = (res, s')" by fastforce
  note q = quiet_download_index [OF d]
  show ?case
    using Cons.prems d Cons.IH [THEN quiet_trans [OF q]] q
    by (auto simp: Let_def split: outcome.splits)
qed simp

lemma restore_indexes_needs:
  assumes "restore_indexes ops clk k es m l = (Ok m', l')" "e \<in> set es" "ok (plS3 l)"
  shows "idx (plS3 l) (indexKey l (srBase e)) \<noteq> None"
  using assms
proof (induction es arbitrary: k m l)
  case (Cons x es)
  obtain res s' where d: "s3DownloadIndex ops (indexKey l (srBase x)) (plS3 l) = (res, s')" by fastforce
  define l1 where "l1 = callS3Op ''download_index'' (timeSub (clk (k + 1)) (clk k)) res (l\<lparr>plS3 := s'\<rparr>)"
  have q: "quiet segs idx ok l l1" unfolding l1_def by (rule quiet_download_index [OF d])
  from Cons.prems(1) d obtain bs m1 where bs: "res = Ok bs" "restore_indexes ops clk (k + 2) es m1 l1 = (Ok m', l')"
    by (auto simp: Let_def l1_def split: outcome.splits)
  show ?case
  proof (cases "e = x")
    case True
    with download_index_ok [OF Cons.prems(3), of "indexKey l (srBase x)" bs] d bs(1) show ?thesis by simp
  next
    case False
    with Cons.IH [OF bs(2)] Cons.prems q quiet_fields(8) [OF q] show ?thesis by (auto simp: quiet_def)
  qed
qed simp

end

text \<open>
  C13: a segment object without its index (left behind when the broker dies, or the store fails,
  between the two uploads of a flush) makes the restore of its partition fail, however the calls
  to the store turn out.
\<close>

theorem orphan_segment_blocks_restore:
  assumes C: "s3_contract ops segs idx ok" and ok: "ok (plS3 l)" and ns: "plNamespace l \<noteq> []" and b: "in_i64 b"
    and seg: "segs (plS3 l) (segmentKey l b) = Some full" "segmentFooterLen \<le> length full"
    and no_index: "idx (plS3 l) (indexKey l b) = None"
  shows "\<forall>off. fst (RestoreFromS3 ops clk l) \<noteq> Ok off"
proof (intro allI notI)
  fix off assume "fst (RestoreFromS3 ops clk l) = Ok off"
  then obtain l' where r: "RestoreFromS3 ops clk l = (Ok off, l')" by (metis prod.collapse)
  obtain res s' where li: "s3ListSegments ops (segmentPrefix l) (plS3 l) = (res, s')" by fastforce
  with r obtain objs where objs: "res = Ok objs" by (auto simp: RestoreFromS3_def Let_def split: outcome.splits)
  let ?l1 = "l\<lparr>plS3 := s'\<rparr>"
  let ?o = "\<lparr>s3Key = segmentKey l b, s3Size = int (length full)\<rparr>"
  have pre: "HasPrefix (segmentKey l b) (segmentPrefix l)" by (simp add: segmentKey_prefix [OF ns])
  have "?o \<in> set objs"
    using s3_contract.list_ok [OF C ok, of "segmentPrefix l" objs] li objs seg(1) pre segmentKey_suffix [OF ns] by auto
  obtain rf l2 where rf: "restore_footers ops clk 0 objs ?l1 = (rf, l2)" by fastforce
  with r li objs obtain es where es: "rf = Ok es" by (auto simp: RestoreFromS3_def Let_def split: outcome.splits)
  have bm: "b \<in> srBase ` set es"
    by (rule s3_contract.restore_footers_bases [OF C rf [unfolded es] \<open>?o \<in> set objs\<close>])
      (use segmentKey_suffix [OF ns] parse_segmentKey [OF ns b] seg(2) in simp_all)
  then obtain e where e: "e \<in> set es" "srBase e = b" by auto
  have q: "quiet segs idx ok l l2"
    using quiet_trans s3_contract.quiet_list [OF C li] s3_contract.restore_footers_quiet [OF C rf] by blast
  from r li objs rf es e(1) obtain m l3 where
    "restore_indexes ops clk (2 * length objs) (sort_key srBase es) (\<lambda>_. None) l2 = (Ok m, l3)"
    by (cases es) (auto simp: RestoreFromS3_def Let_def split: outcome.splits prod.splits)
  from s3_contract.restore_indexes_needs [OF C this, of e] e(1) q ok have "idx (plS3 l2) (indexKey l2 b) \<noteq> None"
    by (simp add: quiet_def e(2))
  with q ok no_index quiet_fields(8) [OF q] show False by (simp add: quiet_def)
qed

section \<open>A restore recovers the recorded segments\<close>

text \<open>\<open>seg_obj segs st x s\<close>: object \<open>x\<close> of the listing is the stored segment \<open>s\<close>.\<close>

definition seg_obj :: "('s \<Rightarrow> string \<Rightarrow> bytes option) \<Rightarrow> 's \<Rightarrow> s3_object \<Rightarrow> segment_range \<Rightarrow> bool" where
  "seg_obj segs st x s \<longleftrightarrow>
     parseSegmentBaseOffset (s3Key x) = Some (srBase s) \<and> s3Size x = srSize s \<and>
     (\<exists>pre foot. segs st (s3Key x) = Some (pre @ foot) \<and> length foot = segmentFooterLen \<and>
        srSize s = int (length (pre @ foot)) \<and> parseSegmentFooter foot = Ok (srLast s))"

context s3_reliable
begin

lemma restore_footers_exact:
  assumes "ok (plS3 l)" "\<forall>x \<in> set objs. HasSuffix (s3Key x) ''.kfs'' \<longrightarrow> seg_obj segs (plS3 l) x (sg x)"
  shows "\<exists>l'. restore_footers ops clk k objs l = (Ok (map sg (filter (\<lambda>x. HasSuffix (s3Key x) ''.kfs'') objs)), l')"
  using assms
proof (induction objs arbitrary: k l)
  case (Cons x objs)
  show ?case
  proof (cases "HasSuffix (s3Key x) ''.kfs''")
    case False
    with Cons.IH [OF Cons.prems(1)] Cons.prems(2) show ?thesis by simp
  next
    case True
    with Cons.prems(2) obtain pre foot where x: "parseSegmentBaseOffset (s3Key x) = Some (srBase (sg x))"
      "s3Size x = srSize (sg x)" "segs (plS3 l) (s3Key x) = Some (pre @ foot)" "length foot = segmentFooterLen"
      "srSize (sg x) = int (length (pre @ foot))" "parseSegmentFooter foot = Ok (srLast (sg x))"
      by (auto simp: seg_obj_def)
    define rng where "rng = \<lparr>brStart = s3Size x - int segmentFooterLen, brEnd = s3Size x - 1\<rparr>"
    have "range_of (Some rng) (pre @ foot) = foot" "range_ok (Some rng)" "brStart rng < int (length (pre @ foot))"
      using x(2,4,5) by (simp_all add: rng_def segmentFooterLen_def)
    then obtain s' where d: "s3DownloadSegment ops (s3Key x) (Some rng) (plS3 l) = (Ok foot, s')"
      using download_succeeds [OF Cons.prems(1) x(3), of "Some rng"] by (metis option.inject prod.collapse)
    define l1 where "l1 = callS3Op ''download_segment_footer'' (timeSub (clk (k + 1)) (clk k)) (Ok foot) (l\<lparr>plS3 := s'\<rparr>)"
    have "quiet segs idx ok l l1" unfolding l1_def by (rule quiet_download [OF d])
    then have "ok (plS3 l1)" "segs (plS3 l1) = segs (plS3 l)" using Cons.prems(1) by (simp_all add: quiet_def)
    with Cons.IH [of l1 "k + 2"] Cons.prems(2) obtain l' where
      "restore_footers ops clk (k + 2) objs l1 = (Ok (map sg (filter (\<lambda>x. HasSuffix (s3Key x) ''.kfs'') objs)), l')"
      by (auto simp: seg_obj_def)
    moreover have "\<not> s3Size x < int segmentFooterLen" using x(2,4,5) by simp
    moreover have "\<lparr>srBase = srBase (sg x), srLast = srLast (sg x), srSize = s3Size x\<rparr> = sg x" using x(2) by simp
    ultimately show ?thesis using True x(1,6) d
      by (simp add: Let_def l1_def flip: rng_def)
  qed
qed simp

lemma restore_indexes_exact:
  assumes "ok (plS3 l)" "\<forall>e \<in> set es. \<exists>bs. idx (plS3 l) (indexKey l (srBase e)) = Some bs \<and> ParseIndex bs = Ok (ix (srBase e))"
  shows "\<exists>l'. restore_indexes ops clk k es m l = (Ok (\<lambda>b. if b \<in> srBase ` set es then Some (ix b) else m b), l')"
  using assms
proof (induction es arbitrary: k m l)
  case (Cons e es)
  from Cons.prems(2) obtain bs where bs: "idx (plS3 l) (indexKey l (srBase e)) = Some bs" "ParseIndex bs = Ok (ix (srBase e))"
    by auto
  obtain s' where d: "s3DownloadIndex ops (indexKey l (srBase e)) (plS3 l) = (Ok bs, s')"
    using download_index_succeeds [OF Cons.prems(1) bs(1)] by (metis prod.collapse)
  define l1 where "l1 = callS3Op ''download_index'' (timeSub (clk (k + 1)) (clk k)) (Ok bs) (l\<lparr>plS3 := s'\<rparr>)"
  have q: "quiet segs idx ok l l1" unfolding l1_def by (rule quiet_download_index [OF d])
  then have "ok (plS3 l1)" "\<forall>e \<in> set es. \<exists>bs. idx (plS3 l1) (indexKey l1 (srBase e)) = Some bs \<and> ParseIndex bs = Ok (ix (srBase e))"
    using Cons.prems quiet_fields(8) [OF q] by (simp_all add: quiet_def)
  from Cons.IH [OF this, of "k + 2" "m(srBase e := Some (ix (srBase e)))"] obtain l' where
    "restore_indexes ops clk (k + 2) es (m(srBase e := Some (ix (srBase e)))) l1 =
       (Ok (\<lambda>b. if b \<in> srBase ` set es then Some (ix b) else (m(srBase e := Some (ix (srBase e)))) b), l')"
    by blast
  moreover have "(\<lambda>b. if b \<in> srBase ` set es then Some (ix b) else (m(srBase e := Some (ix (srBase e)))) b) =
      (\<lambda>b. if b \<in> srBase ` set (e # es) then Some (ix b) else m b)"
    by (auto simp: fun_eq_iff)
  ultimately show ?case using d bs by (simp add: Let_def l1_def)
qed simp

end

lemma seg_stored_obj:
  assumes s: "seg_stored segs idx l s g" and ns: "plNamespace l \<noteq> []"
    and x: "s3Key x = segmentKey l (srBase s)" "segs (plS3 l) (s3Key x) = Some full" "s3Size x = int (length full)"
  shows "seg_obj segs (plS3 l) x s"
proof -
  from s obtain t a where a: "BuildSegment (pcSegment (plCfg l)) g t = Ok a" "chain (srBase s) g (srLast s + 1)"
    "0 \<le> srBase s" "srLast s + 1 < 2 ^ 63" "srSize s = int (length (saSegmentBytes a))"
    "segs (plS3 l) (segmentKey l (srBase s)) = Some (saSegmentBytes a)" by (auto simp: seg_stored_def)
  note ne = BuildSegment_Ok(1) [OF a(1)]
  have "saLastOffset a = srLast s"
    using BuildSegment_Ok(4) [OF a(1)] chain_last [OF a(2) ne] chain_less [OF a(2) ne] a(3,4) by (simp add: i64_id in_i64_def)
  moreover have "in_i64 (srLast s)" using chain_less [OF a(2) ne] a(3,4) by (simp add: in_i64_def)
  ultimately have f: "parseSegmentFooter (buildFooter c (saLastOffset a)) = Ok (srLast s)" for c by (simp add: codec_simps)
  show ?thesis
    unfolding seg_obj_def
    using x a(5,6) parse_segmentKey [OF ns] seg_stored_range [OF s] f BuildSegment_Ok(5) [OF a(1)]
    by (intro conjI exI [of _ "buildHeader (rbBaseOffset (hd g)) (saMessageCount a) t @ concat (map rbBytes g)"]
        exI [of _ "buildFooter (crc32c (concat (map rbBytes g))) (saLastOffset a)"]) simp_all
qed

lemma seg_stored_index:
  assumes s: "seg_stored segs idx l s g" and n: "int (length g) < 2 ^ 31"
  obtains bs es where "idx (plS3 l) (indexKey l (srBase s)) = Some bs" "plIndexEntries l (srBase s) = Some es"
    "ParseIndex bs = Ok es"
proof -
  from s obtain t a where a: "BuildSegment (pcSegment (plCfg l)) g t = Ok a" "chain (srBase s) g (srLast s + 1)"
    "0 \<le> srBase s" "srLast s + 1 < 2 ^ 63" "idx (plS3 l) (indexKey l (srBase s)) = Some (saIndexBytes a)"
    "plIndexEntries l (srBase s) = Some (saRelativeIndex a)" by (auto simp: seg_stored_def)
  obtain ks where ks: "sorted_wrt (<) ks" "set ks \<subseteq> {..<length g}" "saRelativeIndex a = map (batch_entry segmentHeaderLen g) ks"
    using BuildSegment_Ok(6) [OF a(1)] by blast
  have "length ks \<le> card {..<length g}"
    using ks(1,2) by (metis card_mono distinct_card finite_lessThan strict_sorted_iff)
  then have len: "int (length (saRelativeIndex a)) < 2 ^ 31" using n ks(3) by simp
  have "in_i64 (rbBaseOffset (g ! k))" if "k \<in> set ks" for k
    using chain_base [OF a(2), of "g ! k"] a(3,4) ks(2) that by (force simp: in_i64_def)
  then have "\<forall>x \<in> set (saRelativeIndex a). entry_ok x"
    by (auto simp: ks(3) entry_ok_def batch_entry_def)
  moreover obtain ib where "BuildBytes ib = Ok (saIndexBytes a)" "ibEntries ib = saRelativeIndex a"
    using BuildSegment_Ok(7) [OF a(1)] by blast
  ultimately have "ParseIndex (saIndexBytes a) = Ok (saRelativeIndex a)"
    using ParseIndex_BuildBytes [of ib] len by simp
  with that a(5,6) show thesis by blast
qed

lemma sort_key_unique:
  fixes f :: "'a \<Rightarrow> 'b :: linorder"
  assumes "distinct (map f xs)" "sorted_wrt (<) (map f ys)" "set xs = set ys"
  shows "sort_key f xs = ys"
proof -
  have "sorted (map f ys)" "distinct (map f ys)" using assms(2) by (simp_all add: strict_sorted_iff)
  moreover have "sorted (map f (sort_key f xs))" "distinct (map f (sort_key f xs))"
    using assms(1) by (simp_all add: distinct_map)
  ultimately have "map f (sort_key f xs) = map f ys"
    using assms(3) by (intro sorted_distinct_set_unique) simp_all
  moreover have "inj_on f (set (sort_key f xs) \<union> set ys)"
    using assms(1,3) by (simp add: distinct_map)
  ultimately show ?thesis by (rule inj_on_map_eq_map [THEN iffD1, rotated])
qed

definition seg_at :: "'s plog \<Rightarrow> string \<Rightarrow> segment_range" where
  "seg_at l k = hd (filter (\<lambda>s. segmentKey l (srBase s) = k) (plSegments l))"

lemma seg_at:
  assumes "s \<in> set (plSegments l)" "segmentKey l (srBase s) = k"
  shows "seg_at l k \<in> set (plSegments l)" "segmentKey l (srBase (seg_at l k)) = k"
proof -
  have "filter (\<lambda>s. segmentKey l (srBase s) = k) (plSegments l) \<noteq> []" using assms by (auto simp: filter_empty_conv)
  from hd_in_set [OF this] show "seg_at l k \<in> set (plSegments l)" "segmentKey l (srBase (seg_at l k)) = k"
    by (auto simp: seg_at_def)
qed

lemma log_ok_bases:
  assumes l: "log_ok segs idx ok l groups"
  shows "sorted_wrt (<) (map srBase (plSegments l))" "s \<in> set (plSegments l) \<Longrightarrow> in_i64 (srBase s)"
proof -
  have inv: "log_inv segs idx ok l groups" using l by (simp add: log_ok_def)
  have "sorted_wrt (\<lambda>a b. srLast a < srBase b) (plSegments l)" using inv by (simp add: log_inv_def)
  then have "sorted_wrt (\<lambda>a b. srBase a < srBase b) (plSegments l)"
    using log_inv_seg [OF inv] seg_stored_range by (elim sorted_wrt_mono_rel [rotated]) fastforce
  then show "sorted_wrt (<) (map srBase (plSegments l))" by (simp add: sorted_wrt_map)
  show "s \<in> set (plSegments l) \<Longrightarrow> in_i64 (srBase s)" using log_inv_seg [OF inv] seg_stored_range by blast
qed

text \<open>The store holds no segment objects under the prefix of the log but the recorded ones.\<close>

definition no_orphans :: "('s \<Rightarrow> string \<Rightarrow> bytes option) \<Rightarrow> 's plog \<Rightarrow> bool" where
  "no_orphans segs l \<longleftrightarrow>
     (\<forall>k. HasPrefix k (segmentPrefix l) \<longrightarrow> HasSuffix k ''.kfs'' \<longrightarrow> segs (plS3 l) k \<noteq> None \<longrightarrow>
        (\<exists>s \<in> set (plSegments l). k = segmentKey l (srBase s)))"

text \<open>The segments a listing of the store stands for are the recorded ones.\<close>

lemma listing_segments:
  assumes l: "log_ok segs idx ok l groups" and orphans: "no_orphans segs l"
    and dis: "distinct (map s3Key (filter (\<lambda>x. HasSuffix (s3Key x) ''.kfs'') objs))"
    and objs: "\<forall>x. HasSuffix (s3Key x) ''.kfs'' \<longrightarrow> (x \<in> set objs \<longleftrightarrow> HasPrefix (s3Key x) (segmentPrefix l) \<and>
       (\<exists>full. segs (plS3 l) (s3Key x) = Some full \<and> s3Size x = int (length full)))"
    and es: "es = map (\<lambda>x. seg_at l (s3Key x)) (filter (\<lambda>x. HasSuffix (s3Key x) ''.kfs'') objs)"
  shows "sort_key srBase es = plSegments l"
    and "\<forall>x \<in> set objs. HasSuffix (s3Key x) ''.kfs'' \<longrightarrow> seg_obj segs (plS3 l) x (seg_at l (s3Key x))"
proof -
  have inv: "log_inv segs idx ok l groups" and ns: "plNamespace l \<noteq> []" using l by (simp_all add: log_ok_def log_inv_def)
  have at: "seg_at l (s3Key x) \<in> set (plSegments l)" "segmentKey l (srBase (seg_at l (s3Key x))) = s3Key x"
    if "x \<in> set objs" "HasSuffix (s3Key x) ''.kfs''" for x
  proof -
    from that objs orphans obtain s where "s \<in> set (plSegments l)" "segmentKey l (srBase s) = s3Key x"
      unfolding no_orphans_def by (metis option.distinct(1))
    from seg_at [OF this] show "seg_at l (s3Key x) \<in> set (plSegments l)"
      "segmentKey l (srBase (seg_at l (s3Key x))) = s3Key x" by simp_all
  qed
  show "\<forall>x \<in> set objs. HasSuffix (s3Key x) ''.kfs'' \<longrightarrow> seg_obj segs (plS3 l) x (seg_at l (s3Key x))"
  proof (intro ballI impI)
    fix x assume x: "x \<in> set objs" "HasSuffix (s3Key x) ''.kfs''"
    then obtain full where "segs (plS3 l) (s3Key x) = Some full" "s3Size x = int (length full)" using objs by blast
    with log_inv_seg [OF inv at(1) [OF x]] seg_stored_obj [OF _ ns at(2) [OF x, symmetric]]
    show "seg_obj segs (plS3 l) x (seg_at l (s3Key x))" by blast
  qed
  have "map (segmentKey l \<circ> srBase) es = map s3Key (filter (\<lambda>x. HasSuffix (s3Key x) ''.kfs'') objs)"
    using at(2) by (auto simp: es)
  with dis have dis': "distinct (map srBase es)" by (metis distinct_map map_map)
  have "s \<in> set es" if s: "s \<in> set (plSegments l)" for s
  proof -
    let ?k = "segmentKey l (srBase s)"
    from log_inv_seg [OF inv s] obtain full where "segs (plS3 l) ?k = Some full" by (auto simp: seg_stored_def)
    then have x: "\<lparr>s3Key = ?k, s3Size = int (length full)\<rparr> \<in> set objs"
      using objs segmentKey_suffix [OF ns] by (simp add: segmentKey_prefix [OF ns])
    have "srBase (seg_at l ?k) = srBase s"
      using seg_at [OF s refl] segmentKey_inj(1) [OF ns log_ok_bases(2) [OF l] log_ok_bases(2) [OF l s]] by blast
    then have "seg_at l ?k = s"
      using log_ok_bases(1) [OF l] seg_at(1) [OF s refl] s by (auto simp: strict_sorted_iff distinct_map dest: inj_onD)
    with x segmentKey_suffix [OF ns, of "srBase s"] show ?thesis by (force simp: es)
  qed
  moreover have "set es \<subseteq> set (plSegments l)" using at(1) by (auto simp: es)
  ultimately show "sort_key srBase es = plSegments l"
    by (intro sort_key_unique [OF dis' log_ok_bases(1) [OF l]]) auto
qed

text \<open>What a restore leaves behind, given what its two loops return.\<close>

definition restored :: "segment_range list \<Rightarrow> (int \<Rightarrow> index_entry list option) \<Rightarrow> 's plog \<Rightarrow> 's plog" where
  "restored es m l = l\<lparr>plSegments := es, plIndexEntries := m,
     plNextOffset := (if srLast (last es) \<ge> plNextOffset l then i64 (srLast (last es) + 1) else plNextOffset l)\<rparr>"

lemma RestoreFromS3_ok:
  assumes "s3ListSegments ops (segmentPrefix l) (plS3 l) = (Ok objs, s')"
    and "restore_footers ops clk 0 objs (l\<lparr>plS3 := s'\<rparr>) = (Ok es, l2)" "es \<noteq> []"
    and "restore_indexes ops clk (2 * length objs) (sort_key srBase es) (\<lambda>_. None) l2 = (Ok m, l3)"
  shows "RestoreFromS3 ops clk l = (Ok (srLast (last (sort_key srBase es))), restored (sort_key srBase es) m l3)"
  using assms by (cases es) (simp_all add: RestoreFromS3_def restored_def Let_def)

context s3_reliable
begin

lemma restore_exact:
  assumes l: "log_ok segs idx ok l groups" and ne: "plSegments l \<noteq> []"
    and small: "\<forall>g \<in> set groups. int (length g) < 2 ^ 31" and orphans: "no_orphans segs l"
    and l0: "conf l0 = conf l" "ok (plS3 l0)" "segs (plS3 l0) = segs (plS3 l)" "idx (plS3 l0) = idx (plS3 l)"
  shows "\<exists>l3. RestoreFromS3 ops clk l0 = (Ok (srLast (last (plSegments l))), restored (plSegments l)
            (\<lambda>b. if b \<in> srBase ` set (plSegments l) then plIndexEntries l b else None) l3) \<and> quiet segs idx ok l0 l3"
proof -
  obtain objs s' where li: "s3ListSegments ops (segmentPrefix l0) (plS3 l0) = (Ok objs, s')"
    using list_succeeds [OF l0(2), of "segmentPrefix l0"] by (metis prod.collapse)
  let ?l1 = "l0\<lparr>plS3 := s'\<rparr>"
  have q1: "quiet segs idx ok l0 ?l1" by (rule quiet_list [OF li])
  then have s1: "ok (plS3 ?l1)" "segs (plS3 ?l1) = segs (plS3 l)" "idx (plS3 ?l1) = idx (plS3 l)"
    using l0 by (simp_all add: quiet_def)
  have "distinct (map s3Key (filter (\<lambda>x. HasSuffix (s3Key x) ''.kfs'') objs))"
    "\<forall>x. HasSuffix (s3Key x) ''.kfs'' \<longrightarrow> (x \<in> set objs \<longleftrightarrow> HasPrefix (s3Key x) (segmentPrefix l) \<and>
       (\<exists>full. segs (plS3 l) (s3Key x) = Some full \<and> s3Size x = int (length full)))"
    using list_ok [OF l0(2), of "segmentPrefix l0" objs] li l0(3) conf_keys(3) [OF l0(1)] by simp_all
  note ls = listing_segments [OF l orphans this refl]
  define es where "es = map (\<lambda>x. seg_at l (s3Key x)) (filter (\<lambda>x. HasSuffix (s3Key x) ''.kfs'') objs)"
  note sorted = ls(1) [folded es_def]
  have "\<forall>x \<in> set objs. HasSuffix (s3Key x) ''.kfs'' \<longrightarrow> seg_obj segs (plS3 ?l1) x (seg_at l (s3Key x))"
    using ls(2) s1(2) by (simp add: seg_obj_def)
  from restore_footers_exact [OF s1(1) this, of clk 0] obtain l2 where rf: "restore_footers ops clk 0 objs ?l1 = (Ok es, l2)"
    unfolding es_def by blast
  note q2 = restore_footers_quiet [OF rf]
  define ix where "ix b = the (plIndexEntries l b)" for b
  have idx_ok: "\<exists>bs. idx (plS3 l2) (indexKey l2 (srBase e)) = Some bs \<and> ParseIndex bs = Ok (ix (srBase e)) \<and>
      plIndexEntries l (srBase e) = Some (ix (srBase e))" if e: "e \<in> set (plSegments l)" for e
  proof -
    from log_inv_seg [of segs idx ok l groups e] l e obtain g where g: "g \<in> set groups" "seg_stored segs idx l e g"
      by (auto simp: log_ok_def)
    from seg_stored_index [OF g(2)] small g(1) obtain bs x where "idx (plS3 l) (indexKey l (srBase e)) = Some bs"
      "plIndexEntries l (srBase e) = Some x" "ParseIndex bs = Ok x" by blast
    moreover have "indexKey l2 = indexKey l"
      using quiet_fields(8) [OF q2] conf_keys(2) [OF l0(1)] by simp
    ultimately show ?thesis using q2 s1 by (simp add: quiet_def ix_def)
  qed
  have "\<forall>e \<in> set (sort_key srBase es). \<exists>bs. idx (plS3 l2) (indexKey l2 (srBase e)) = Some bs \<and> ParseIndex bs = Ok (ix (srBase e))"
    using idx_ok sorted by auto
  moreover have "ok (plS3 l2)" using q2 s1 by (simp add: quiet_def)
  ultimately obtain l3 where "restore_indexes ops clk (2 * length objs) (sort_key srBase es) (\<lambda>_. None) l2 =
      (Ok (\<lambda>b. if b \<in> srBase ` set (sort_key srBase es) then Some (ix b) else None), l3)"
    using restore_indexes_exact [of l2 "sort_key srBase es" ix clk "2 * length objs" "\<lambda>_. None"] by blast
  note ri = this [unfolded arg_cong [OF sorted, of set]]
  have "(\<lambda>b. if b \<in> srBase ` set (plSegments l) then Some (ix b) else None) =
      (\<lambda>b. if b \<in> srBase ` set (plSegments l) then plIndexEntries l b else None)"
    using idx_ok by (fastforce simp: fun_eq_iff)
  moreover have "es \<noteq> []" using sorted ne by auto
  moreover have "quiet segs idx ok l0 l3"
    using quiet_trans [OF quiet_trans [OF q1 q2] restore_indexes_quiet [OF ri]] .
  ultimately show ?thesis using RestoreFromS3_ok [OF li rf _ ri] sorted by auto
qed

end



theorem orphan_segment_blocks_restore_witness:
  "let l = NewPartitionLog ''ns'' ''t'' 0 0
             \<lparr>msData = [(''ns/t/0/segment-00000000000000000000.kfs'', replicate 16 0)], msIndex = [], msBucketReady = True\<rparr>
             None demo_cfg True True 0 in
     segmentKey l 0 = ''ns/t/0/segment-00000000000000000000.kfs'' \<and>
     (\<forall>off. fst (RestoreFromS3 memory_client (\<lambda>_. 0) l) \<noteq> Ok off)"
proof -
  let ?m = "\<lparr>msData = [(''ns/t/0/segment-00000000000000000000.kfs'', replicate 16 0)], msIndex = [], msBucketReady = True\<rparr>"
  let ?l = "NewPartitionLog ''ns'' ''t'' 0 0 ?m None demo_cfg True True 0"
  have k: "segmentKey ?l 0 = ''ns/t/0/segment-00000000000000000000.kfs''"
    unfolding segmentKey_def NewPartitionLog_def by code_simp
  have "\<forall>off. fst (RestoreFromS3 memory_client (\<lambda>_. 0) ?l) \<noteq> Ok off"
    by (rule orphan_segment_blocks_restore [OF mem.s3_contract_axioms, of ?l 0 "replicate 16 0"])
      (simp_all only: k, simp_all add: NewPartitionLog_def mem_ok_def map_wf_def in_i64_def segmentFooterLen_def)
  with k show ?thesis by (simp add: Let_def)
qed

section \<open>The index search\<close>

text \<open>
  The binary search over the sparse index always returns an entry of the index, and one at or
  before the offset when the index starts at or before it, so a read never starts too late.
\<close>

theorem index_search_never_late:
  assumes "es \<noteq> []" "ieOffset (hd es) \<le> off"
  shows "findIndexEntry es off \<in> set es \<and> ieOffset (findIndexEntry es off) \<le> off"
  using findIndexEntry_safe [OF assms(1)] assms(2) by simp

theorem index_search_never_late_witness:
  "let es = [\<lparr>ieOffset = 0, iePosition = 32\<rparr>, \<lparr>ieOffset = 10, iePosition = 90\<rparr>] in
     ieOffset (findIndexEntry es 7) \<le> 7"
  using index_search_never_late [of "[\<lparr>ieOffset = 0, iePosition = 32\<rparr>, \<lparr>ieOffset = 10, iePosition = 90\<rparr>]" 7]
  by (simp add: Let_def)

text \<open>
  The search does not return the last entry at or before the offset: on a sorted index of six
  entries it falls through to the first entry of the segment for offset 15, although the second
  one (offset 10) is the right one. A read at that offset starts 300 bytes too early, so with a
  byte limit below the distance it never reaches the batch asked for.
\<close>

theorem index_search_falls_through:
  "let es = map (\<lambda>i. \<lparr>ieOffset = 10 * i, iePosition = 32 + 300 * i\<rparr>) [0, 1, 2, 3, 4, 5] in
     sorted (map ieOffset es) \<and> ieOffset (es ! 1) \<le> 15 \<and> 15 < ieOffset (es ! 2) \<and>
     findIndexEntry es 15 = es ! 0 \<and> iePosition (es ! 1) - iePosition (findIndexEntry es 15) = 300"
  by code_simp

section \<open>Object keys\<close>

text \<open>
  The names of the segment objects of a partition determine the base offset: parsing the key
  of a segment gives its base offset back, different base offsets have different keys, and every
  key lies under the prefix that a restore lists.
\<close>

theorem segment_key_roundtrip:
  assumes "plNamespace l \<noteq> []" "in_i64 a" "in_i64 b"
  shows "parseSegmentBaseOffset (segmentKey l a) = Some a \<and>
    (segmentKey l a = segmentKey l b \<longleftrightarrow> a = b) \<and> HasPrefix (segmentKey l a) (segmentPrefix l)"
  using parse_segmentKey [OF assms(1,2)] segmentKey_inj(1) [OF assms] by (simp add: segmentKey_prefix [OF assms(1)])

theorem segment_key_roundtrip_witness:
  "parseSegmentBaseOffset (segmentKey demo_log 42) = Some 42"
  using segment_key_roundtrip [of demo_log 42 42] by (simp add: demo_log_def NewPartitionLog_def in_i64_def)

text \<open>
  Nothing keeps a topic name from leaving its namespace: the keys are built with path.Join,
  which resolves dot-dot elements, so a partition of topic \<open>../prod/t\<close> in namespace \<open>dev\<close> has the
  very keys of topic \<open>t\<close> in namespace \<open>prod\<close>.
\<close>

theorem topic_name_escapes_namespace:
  "segmentKey (NewPartitionLog ''dev'' ''../prod/t'' 0 0 s c cfg f o' now) 7 =
     segmentKey (NewPartitionLog ''prod'' ''t'' 0 0 s c cfg f o' now) 7"
proof -
  have "path_Join [''dev'', ''../prod/t'', fmt_d 0, segment_name 7] = path_Join [''prod'', ''t'', fmt_d 0, segment_name 7]"
    by code_simp
  then show ?thesis by (simp add: segmentKey_def NewPartitionLog_def)
qed

end
