(* ===== verification/Wire_Codec.thy ===== *)
theory Wire_Codec
  imports Go_Base
begin

text \<open>
  The byte reader and writer of the Kafka protocol (\<open>protocol/encoding.go\<close>) and the framing of
  messages on a connection (\<open>protocol/frame.go\<close>).

  The state of a \<open>byteReader\<close> is the part of its buffer behind \<open>pos\<close>; a method that reads is a
  function from it to the value and the rest. A method of \<open>byteWriter\<close> is the bytes it appends.
\<close>

section \<open>Readers\<close>

type_synonym 'a reader = "bytes \<Rightarrow> ('a \<times> bytes) outcome"

definition rbind :: "'a reader \<Rightarrow> ('a \<Rightarrow> 'b reader) \<Rightarrow> 'b reader" where
  "rbind p f = (\<lambda>bs. bindO (p bs) (\<lambda>(x, bs). f x bs))"

definition rret :: "'a \<Rightarrow> 'a reader" where
  "rret x = (\<lambda>bs. Ok (x, bs))"

definition rfail :: "string \<Rightarrow> 'a reader" where
  "rfail m = (\<lambda>bs. Err (ErrText m))"

definition rpanic :: "'a reader" where
  "rpanic = (\<lambda>bs. Panic)"

definition rwrap :: "string \<Rightarrow> 'a reader \<Rightarrow> 'a reader" where
  "rwrap m p = (\<lambda>bs. wrapErr m (p bs))"

text \<open>A counted loop that reads one element per turn.\<close>

fun rmany :: "nat \<Rightarrow> 'a reader \<Rightarrow> 'a list reader" where
  "rmany 0 p = rret []"
| "rmany (Suc n) p = rbind p (\<lambda>x. rbind (rmany n p) (\<lambda>xs. rret (x # xs)))"

text \<open>A negative length passes the test of \<open>read\<close> and makes the slice expression panic.\<close>

definition read_n :: "int \<Rightarrow> bytes reader" where
  "read_n n = (\<lambda>bs.
     if int (length bs) < n then Err (ErrText ''insufficient bytes'')
     else if n < 0 then Panic
     else Ok (take (nat n) bs, drop (nat n) bs))"

definition rInt8 :: "int reader" where
  "rInt8 = rbind (read_n 1) (\<lambda>b. rret (i8 (ube b)))"

definition rInt16 :: "int reader" where
  "rInt16 = rbind (read_n 2) (\<lambda>b. rret (i16 (ube b)))"

definition rInt32 :: "int reader" where
  "rInt32 = rbind (read_n 4) (\<lambda>b. rret (i32 (ube b)))"

definition rInt64 :: "int reader" where
  "rInt64 = rbind (read_n 8) (\<lambda>b. rret (i64 (ube b)))"

definition rUUID :: "bytes reader" where
  "rUUID = read_n 16"

definition rBool :: "bool reader" where
  "rBool = rbind (read_n 1) (\<lambda>b.
     if b = [0] then rret False else if b = [1] then rret True else rfail ''invalid bool'')"

text \<open>\<open>binary.Uvarint\<close>: at most ten bytes, and the tenth at most 1.\<close>

fun uvarint :: "nat \<Rightarrow> nat \<Rightarrow> bytes \<Rightarrow> (nat \<times> bytes) option" where
  "uvarint i x [] = None"
| "uvarint i x (b # bs) =
     (if i = 10 then None
      else if unat b < 128 then
        (if i = 9 \<and> unat b > 1 then None else Some (x + unat b * 128 ^ i, bs))
      else uvarint (Suc i) (x + (unat b - 128) * 128 ^ i) bs)"

definition rUVarint :: "nat reader" where
  "rUVarint = (\<lambda>bs. case uvarint 0 0 bs of None \<Rightarrow> Err (ErrText ''read uvarint'') | Some r \<Rightarrow> Ok r)"

definition rCompactLength :: "int reader" where
  "rCompactLength = rbind rUVarint (\<lambda>v. rret (if v = 0 then - 1 else i64 (int v - 1)))"

definition rCompactArrayLen :: "int reader" where
  "rCompactArrayLen = rbind rUVarint (\<lambda>v. rret (if v = 0 then - 1 else i32 (int v - 1)))"

definition rString :: "string reader" where
  "rString = rbind rInt16 (\<lambda>l. if l < 0 then rfail ''invalid string length''
     else rbind (read_n l) (\<lambda>b. rret (string_of_bytes b)))"

definition rNullableString :: "string option reader" where
  "rNullableString = rbind rInt16 (\<lambda>l.
     if l = - 1 then rret None
     else if l < 0 then rfail ''invalid string length''
     else rbind (read_n l) (\<lambda>b. rret (Some (string_of_bytes b))))"

definition rCompactString :: "string reader" where
  "rCompactString = rbind rCompactLength (\<lambda>l. if l < 0 then rfail ''compact string is null''
     else rbind (read_n l) (\<lambda>b. rret (string_of_bytes b)))"

definition rCompactNullableString :: "string option reader" where
  "rCompactNullableString = rbind rCompactLength (\<lambda>l. if l < 0 then rret None
     else rbind (read_n l) (\<lambda>b. rret (Some (string_of_bytes b))))"

definition rBytes :: "bytes reader" where
  "rBytes = rbind rInt32 (\<lambda>l. if l < 0 then rfail ''invalid bytes length'' else read_n l)"

text \<open>A null byte string is the nil slice, which is \<open>None\<close>.\<close>

definition rCompactBytes :: "bytes option reader" where
  "rCompactBytes = rbind rCompactLength (\<lambda>l. if l < 0 then rret None
     else rbind (read_n l) (\<lambda>b. rret (Some b)))"

fun skip_tags :: "nat \<Rightarrow> unit reader" where
  "skip_tags 0 = rret ()"
| "skip_tags (Suc n) =
     rbind rUVarint (\<lambda>_.
     rbind rUVarint (\<lambda>sz.
       if sz = 0 then skip_tags n
       else rbind (read_n (i64 (int sz))) (\<lambda>_. skip_tags n)))"

definition rSkipTaggedFields :: "unit reader" where
  "rSkipTaggedFields = rbind rUVarint skip_tags"

section \<open>Writers\<close>

definition wInt8 :: "int \<Rightarrow> bytes" where "wInt8 v = be 1 v"
definition wInt16 :: "int \<Rightarrow> bytes" where "wInt16 v = be 2 v"
definition wInt32 :: "int \<Rightarrow> bytes" where "wInt32 v = be 4 v"
definition wInt64 :: "int \<Rightarrow> bytes" where "wInt64 v = be 8 v"
definition wUUID :: "bytes \<Rightarrow> bytes" where "wUUID u = u"
definition wBool :: "bool \<Rightarrow> bytes" where "wBool v = (if v then [1] else [0])"

text \<open>\<open>binary.PutUvarint\<close>.\<close>

fun put_uvarint :: "nat \<Rightarrow> bytes" where
  "put_uvarint v = (if v < 128 then [of_nat v] else of_nat (v mod 128 + 128) # put_uvarint (v div 128))"

declare put_uvarint.simps [simp del]

definition wUVarint :: "nat \<Rightarrow> bytes" where "wUVarint v = put_uvarint v"

definition wCompactLength :: "int \<Rightarrow> bytes" where
  "wCompactLength l = (if l < 0 then wUVarint 0 else wUVarint (nat l + 1))"

definition wCompactArrayLen :: "int \<Rightarrow> bytes" where
  "wCompactArrayLen l = (if l < 0 then wUVarint 0 else wUVarint (nat l + 1))"

definition wString :: "string \<Rightarrow> bytes outcome" where
  "wString v = (if v = [] then Ok (wInt16 0)
     else if length v > 0x7fff then Panic
     else Ok (wInt16 (int (length v)) @ bytes_of_string v))"

definition wNullableString :: "string option \<Rightarrow> bytes outcome" where
  "wNullableString v = (case v of None \<Rightarrow> Ok (wInt16 (- 1)) | Some s \<Rightarrow> wString s)"

definition wCompactString :: "string \<Rightarrow> bytes" where
  "wCompactString v = wCompactLength (int (length v)) @ bytes_of_string v"

definition wCompactNullableString :: "string option \<Rightarrow> bytes" where
  "wCompactNullableString v = (case v of None \<Rightarrow> wCompactLength (- 1) | Some s \<Rightarrow> wCompactString s)"

definition wBytesWithLength :: "bytes \<Rightarrow> bytes" where
  "wBytesWithLength b = wInt32 (i32 (int (length b))) @ b"

definition wCompactBytes :: "bytes option \<Rightarrow> bytes" where
  "wCompactBytes v = (case v of None \<Rightarrow> wCompactLength (- 1) | Some b \<Rightarrow> wCompactLength (int (length b)) @ b)"

definition wTaggedFields :: "nat \<Rightarrow> bytes" where
  "wTaggedFields count = wUVarint count"

section \<open>The contract of a codec\<close>

text \<open>Decoding what was encoded gives the value back and leaves the rest alone.\<close>

locale codec =
  fixes dec :: "'a reader" and enc :: "'a \<Rightarrow> bytes" and dom_ok :: "'a \<Rightarrow> bool"
  assumes dec_enc: "dom_ok x \<Longrightarrow> dec (enc x @ r) = Ok (x, r)"
begin

lemma prefix_free: "dom_ok x \<Longrightarrow> dom_ok y \<Longrightarrow> enc x @ r = enc y @ r' \<Longrightarrow> x = y \<and> r = r'"
  by (metis dec_enc outcome.inject(1) prod.inject)

lemma dec_many: "list_all dom_ok xs \<Longrightarrow> rmany (length xs) dec (concat (map enc xs) @ r) = Ok (xs, r)"
  by (induction xs) (simp_all add: rbind_def rret_def dec_enc)

end

lemmas reader_simps = rbind_def rret_def rfail_def

lemma read_n_append [codec_simps]: "n = int (length b) \<Longrightarrow> read_n n (b @ r) = Ok (b, r)"
  by (simp add: read_n_def)

lemma i8_ube_be: "in_i8 x \<Longrightarrow> i8 (ube (be 1 x)) = x"
  using wrapS_mod [of 8 x] unfolding ube_be by (simp add: i8_def wrapS_id in_i8_def)

interpretation int8: codec rInt8 wInt8 in_i8
  by unfold_locales (simp add: rInt8_def wInt8_def reader_simps codec_simps i8_ube_be [unfolded One_nat_def] del: be.simps)

interpretation int16: codec rInt16 wInt16 in_i16
  by unfold_locales (simp add: rInt16_def wInt16_def reader_simps codec_simps)

interpretation int32: codec rInt32 wInt32 in_i32
  by unfold_locales (simp add: rInt32_def wInt32_def reader_simps codec_simps)

interpretation int64: codec rInt64 wInt64 in_i64
  by unfold_locales (simp add: rInt64_def wInt64_def reader_simps codec_simps)

interpretation uuid: codec rUUID wUUID "\<lambda>u. length u = 16"
  by unfold_locales (simp add: rUUID_def wUUID_def codec_simps)

interpretation boolc: codec rBool wBool "\<lambda>_. True"
  by unfold_locales (simp add: rBool_def wBool_def read_n_def reader_simps)

lemma unat_byte: "n < 256 \<Longrightarrow> unat (of_nat n :: byte) = n"
  by (simp add: unat_of_nat)

lemma uvarint_put:
  assumes "v * 128 ^ i < 2 ^ 64" "i \<le> 9"
  shows "uvarint i x (put_uvarint v @ r) = Some (x + v * 128 ^ i, r)"
  using assms
proof (induction v arbitrary: i x rule: put_uvarint.induct)
  case (1 v)
  show ?case
  proof (cases "v < 128")
    case True
    have "i = 9 \<Longrightarrow> v \<le> 1" using "1.prems"(1) by simp
    with True "1.prems" show ?thesis by (auto simp: put_uvarint.simps [of v] unat_byte)
  next
    case False
    have "128 \<le> v" using False by simp
    then have "(128 :: nat) * 128 ^ i \<le> v * 128 ^ i" by (rule mult_le_mono1)
    with "1.prems"(1) have "(128 :: nat) ^ Suc i < 2 ^ 64" unfolding power_Suc by linarith
    moreover have "(2 :: nat) ^ 64 \<le> 128 ^ 10" by simp
    ultimately have "(128 :: nat) ^ Suc i < 128 ^ 10" by linarith
    then have i: "Suc i \<le> 9" by (simp only: power_strict_increasing_iff [of 128 "Suc i" 10])
    have "v div 128 * 128 ^ Suc i \<le> v * 128 ^ i"
      by (simp add: mult.assoc [symmetric] mult_le_mono1)
    then have lt: "v div 128 * 128 ^ Suc i < 2 ^ 64" using "1.prems"(1) by linarith
    have "v * 128 ^ i = (v mod 128 + 128 * (v div 128)) * 128 ^ i" by simp
    also have "\<dots> = v mod 128 * 128 ^ i + v div 128 * 128 ^ Suc i"
      by (simp only: distrib_right distrib_left power_Suc ac_simps)
    finally have sum: "v mod 128 * 128 ^ i + v div 128 * 128 ^ Suc i = v * 128 ^ i" by simp
    have byte: "unat (of_nat (v mod 128 + 128) :: byte) = v mod 128 + 128"
      by (rule unat_byte) simp
    from "1.IH" [OF False lt i] sum False i byte show ?thesis
      by (simp add: put_uvarint.simps [of v] add.assoc del: of_nat_add)
  qed
qed

interpretation uvar: codec rUVarint wUVarint "\<lambda>v. v < 2 ^ 64"
  by unfold_locales (use uvarint_put [of _ 0 0] in \<open>simp add: rUVarint_def wUVarint_def\<close>)

lemma uvarint_len: "l < 2 ^ 63 \<Longrightarrow> nat l + 1 < 2 ^ 64"
  by (cases "0 \<le> l") (auto simp: nat_less_iff)

interpretation clen: codec rCompactLength wCompactLength "\<lambda>l. - 1 \<le> l \<and> l < 2 ^ 63"
proof unfold_locales
  fix l :: int and r assume l: "- 1 \<le> l \<and> l < 2 ^ 63"
  show "rCompactLength (wCompactLength l @ r) = Ok (l, r)"
  proof (cases "l < 0")
    case True
    with l uvar.dec_enc [of 0] show ?thesis by (simp add: rCompactLength_def wCompactLength_def reader_simps)
  next
    case False
    with l have "i64 (int (nat l + 1) - 1) = l" by (simp add: i64_id in_i64_def)
    with False uvar.dec_enc [OF uvarint_len] l show ?thesis
      by (simp add: rCompactLength_def wCompactLength_def reader_simps)
  qed
qed

interpretation calen: codec rCompactArrayLen wCompactArrayLen "\<lambda>l. - 1 \<le> l \<and> l < 2 ^ 31"
proof unfold_locales
  fix l :: int and r assume l: "- 1 \<le> l \<and> l < 2 ^ 31"
  show "rCompactArrayLen (wCompactArrayLen l @ r) = Ok (l, r)"
  proof (cases "l < 0")
    case True
    with l uvar.dec_enc [of 0] show ?thesis by (simp add: rCompactArrayLen_def wCompactArrayLen_def reader_simps)
  next
    case False
    with l have "i32 (int (nat l + 1) - 1) = l" by (simp add: i32_id in_i32_def)
    with False uvar.dec_enc [OF uvarint_len] l show ?thesis
      by (simp add: rCompactArrayLen_def wCompactArrayLen_def reader_simps)
  qed
qed

text \<open>The writers of strings may panic; \<open>bytes_or\<close> is what they write when they do not.\<close>

definition bytes_or :: "bytes outcome \<Rightarrow> bytes" where
  "bytes_or r = (case r of Ok b \<Rightarrow> b | _ \<Rightarrow> [])"

definition short_string :: "string \<Rightarrow> bool" where
  "short_string s \<longleftrightarrow> length s \<le> 0x7fff"

lemma wString_Ok: "short_string s \<Longrightarrow> wString s = Ok (wInt16 (int (length s)) @ bytes_of_string s)"
  by (simp add: wString_def short_string_def bytes_of_string_def)

lemma in_i16_short: "short_string s \<Longrightarrow> in_i16 (int (length s))"
  by (simp add: short_string_def in_i16_def)

lemma in_i16_minus1: "in_i16 (- 1)"
  by (simp add: in_i16_def)

interpretation str: codec rString "\<lambda>s. bytes_or (wString s)" short_string
  by unfold_locales
    (simp add: rString_def wString_Ok bytes_or_def reader_simps int16.dec_enc in_i16_short read_n_append)

interpretation nstr: codec rNullableString "\<lambda>s. bytes_or (wNullableString s)" "\<lambda>s. \<forall>x. s = Some x \<longrightarrow> short_string x"
proof unfold_locales
  fix s r assume "\<forall>x. s = Some x \<longrightarrow> short_string x"
  then show "rNullableString (bytes_or (wNullableString s) @ r) = Ok (s, r)"
    by (cases s) (simp_all add: rNullableString_def wNullableString_def wString_Ok bytes_or_def reader_simps
        int16.dec_enc in_i16_short in_i16_minus1 read_n_append)
qed

interpretation cstr: codec rCompactString wCompactString "\<lambda>s. int (length s) < 2 ^ 63"
  by unfold_locales
    (simp add: rCompactString_def wCompactString_def reader_simps clen.dec_enc read_n_append)

interpretation cnstr: codec rCompactNullableString wCompactNullableString "\<lambda>s. \<forall>x. s = Some x \<longrightarrow> int (length x) < 2 ^ 63"
proof unfold_locales
  fix s :: "string option" and r assume "\<forall>x. s = Some x \<longrightarrow> int (length x) < 2 ^ 63"
  then show "rCompactNullableString (wCompactNullableString s @ r) = Ok (s, r)"
    by (cases s) (simp_all add: rCompactNullableString_def wCompactNullableString_def wCompactString_def reader_simps
        clen.dec_enc read_n_append)
qed

interpretation byt: codec rBytes wBytesWithLength "\<lambda>b. int (length b) < 2 ^ 31"
  by unfold_locales
    (simp add: rBytes_def wBytesWithLength_def reader_simps int32.dec_enc i32_id in_i32_def read_n_append)

interpretation cbyt: codec rCompactBytes wCompactBytes "\<lambda>b. \<forall>x. b = Some x \<longrightarrow> int (length x) < 2 ^ 63"
proof unfold_locales
  fix b :: "bytes option" and r assume "\<forall>x. b = Some x \<longrightarrow> int (length x) < 2 ^ 63"
  then show "rCompactBytes (wCompactBytes b @ r) = Ok (b, r)"
    by (cases b) (simp_all add: rCompactBytes_def wCompactBytes_def reader_simps clen.dec_enc read_n_append)
qed

lemma skip_no_tags [codec_simps]: "rSkipTaggedFields (wTaggedFields 0 @ r) = Ok ((), r)"
  using uvar.dec_enc [of 0 r] by (simp add: rSkipTaggedFields_def wTaggedFields_def reader_simps)

text \<open>
  Every primitive of the wire protocol decodes to what was encoded and consumes exactly its
  bytes: fixed-width integers, booleans, UUIDs, variable-length integers of 64 bits, plain,
  nullable and compact strings and byte strings.
\<close>

theorem wire_roundtrip:
  "(in_i8 a \<longrightarrow> rInt8 (wInt8 a @ r) = Ok (a, r)) \<and>
   (in_i16 a \<longrightarrow> rInt16 (wInt16 a @ r) = Ok (a, r)) \<and>
   (in_i32 a \<longrightarrow> rInt32 (wInt32 a @ r) = Ok (a, r)) \<and>
   (in_i64 a \<longrightarrow> rInt64 (wInt64 a @ r) = Ok (a, r)) \<and>
   rBool (wBool t @ r) = Ok (t, r) \<and>
   (length u = 16 \<longrightarrow> rUUID (wUUID u @ r) = Ok (u, r)) \<and>
   (v < 2 ^ 64 \<longrightarrow> rUVarint (wUVarint v @ r) = Ok (v, r)) \<and>
   (length s \<le> 32767 \<longrightarrow> (\<exists>b. wString s = Ok b \<and> rString (b @ r) = Ok (s, r)) \<and>
      (\<exists>b. wNullableString (Some s) = Ok b \<and> rNullableString (b @ r) = Ok (Some s, r))) \<and>
   (\<exists>b. wNullableString None = Ok b \<and> rNullableString (b @ r) = Ok (None, r)) \<and>
   (int (length s) < 2 ^ 63 \<longrightarrow> rCompactString (wCompactString s @ r) = Ok (s, r) \<and>
      rCompactNullableString (wCompactNullableString (Some s) @ r) = Ok (Some s, r)) \<and>
   rCompactNullableString (wCompactNullableString None @ r) = Ok (None, r) \<and>
   (int (length d) < 2 ^ 31 \<longrightarrow> rBytes (wBytesWithLength d @ r) = Ok (d, r) \<and>
      rCompactBytes (wCompactBytes (Some d) @ r) = Ok (Some d, r))"
proof -
  have "length s \<le> 32767 \<Longrightarrow> (\<exists>b. wString s = Ok b \<and> rString (b @ r) = Ok (s, r)) \<and>
      (\<exists>b. wNullableString (Some s) = Ok b \<and> rNullableString (b @ r) = Ok (Some s, r))"
    using str.dec_enc [of s r] nstr.dec_enc [of "Some s" r]
    by (simp add: short_string_def wNullableString_def wString_Ok bytes_or_def)
  moreover have "\<exists>b. wNullableString None = Ok b \<and> rNullableString (b @ r) = Ok (None, r)"
    using nstr.dec_enc [of None r] by (simp add: wNullableString_def bytes_or_def)
  ultimately show ?thesis
    using int8.dec_enc int16.dec_enc int32.dec_enc int64.dec_enc boolc.dec_enc uuid.dec_enc uvar.dec_enc
      cstr.dec_enc cnstr.dec_enc [of "Some s"] cnstr.dec_enc [of None] byt.dec_enc cbyt.dec_enc [of "Some d"]
    by auto
qed

theorem wire_roundtrip_witness:
  "rUVarint (wUVarint 300 @ [7]) = Ok (300, [7]) \<and> rInt16 (wInt16 (- 2) @ [7]) = Ok (- 2, [7]) \<and>
   rCompactString (wCompactString ''ab'' @ [7]) = Ok (''ab'', [7])"
  using wire_roundtrip [of "- 2" "[7]" True "[]" 300 "''ab''" "[]"] by (simp add: in_i16_def)

section \<open>Frames\<close>

record frame =
  frLength :: int
  frPayload :: bytes

text \<open>\<open>io.ReadFull\<close> from a stream that ends after the given bytes.\<close>

definition io_ReadFull :: "nat \<Rightarrow> bytes reader" where
  "io_ReadFull n = (\<lambda>st. if n \<le> length st then Ok (take n st, drop n st)
     else Err (if st = [] then ErrEOF else ErrUnexpectedEOF))"

definition ReadFrame :: "frame reader" where
  "ReadFrame =
     rbind (rwrap ''read frame size'' (io_ReadFull 4)) (\<lambda>lengthBuf.
       let len = i32 (ube lengthBuf) in
       if len < 0 then rfail ''invalid frame length''
       else rbind (rwrap ''read frame payload'' (io_ReadFull (nat len))) (\<lambda>payload.
         rret \<lparr>frLength = len, frPayload = payload\<rparr>))"

definition WriteFrame :: "bytes \<Rightarrow> bytes outcome" where
  "WriteFrame payload =
     (if length payload > 0x7fffffff then Err (ErrText ''payload too large'')
      else Ok (be 4 (int (length payload)) @ payload))"

lemma ReadFrame_WriteFrame:
  assumes "WriteFrame p = Ok b"
  shows "ReadFrame (b @ st) = Ok (\<lparr>frLength = int (length p), frPayload = p\<rparr>, st)"
proof -
  have b: "b = be 4 (int (length p)) @ p" "in_i32 (int (length p))"
    using assms by (auto simp: WriteFrame_def in_i32_def split: if_splits)
  then show ?thesis
    by (simp add: ReadFrame_def rwrap_def io_ReadFull_def reader_simps i32_ube_be del: be.simps)
qed

lemma ReadFrame_consumes: "ReadFrame st = Ok (f, st') \<Longrightarrow> length st' + 4 \<le> length st"
  by (auto simp: ReadFrame_def rwrap_def io_ReadFull_def reader_simps Let_def split: if_splits)

text \<open>Reading frames until the stream ends or an error occurs.\<close>

function read_frames :: "bytes \<Rightarrow> frame list \<times> go_error option" where
  "read_frames st = (case ReadFrame st of
       Ok (f, st') \<Rightarrow> (case read_frames st' of (fs, e) \<Rightarrow> (f # fs, e))
     | Err e \<Rightarrow> ([], Some e)
     | Panic \<Rightarrow> ([], None))"
  by pat_completeness auto
termination
  by (relation "measure length") (auto dest: ReadFrame_consumes)

declare read_frames.simps [simp del]

text \<open>
  The peer of a connection gets exactly the payloads that were written, one per frame and in
  order, and then the end of the stream.
\<close>

theorem frames_roundtrip:
  assumes "\<forall>p \<in> set ps. length p \<le> 0x7fffffff"
  shows "read_frames (concat (map (\<lambda>p. bytes_or (WriteFrame p)) ps)) =
    (map (\<lambda>p. \<lparr>frLength = int (length p), frPayload = p\<rparr>) ps, Some (ErrWrap ''read frame size'' ErrEOF))"
  using assms
proof (induction ps)
  case Nil
  then show ?case by (simp add: read_frames.simps [of "[]"] ReadFrame_def rwrap_def io_ReadFull_def reader_simps)
next
  case (Cons p ps)
  let ?st = "concat (map (\<lambda>p. bytes_or (WriteFrame p)) ps)"
  obtain b where b: "WriteFrame p = Ok b" using Cons.prems by (simp add: WriteFrame_def)
  have "read_frames (b @ ?st) = (\<lparr>frLength = int (length p), frPayload = p\<rparr> # fst (read_frames ?st), snd (read_frames ?st))"
    using ReadFrame_WriteFrame [OF b, of ?st] by (subst read_frames.simps) (simp add: split_def)
  moreover have "bytes_or (WriteFrame p) = b" using b by (simp add: bytes_or_def)
  ultimately show ?case using Cons by simp
qed

theorem frames_roundtrip_witness:
  "read_frames (bytes_or (WriteFrame [1, 2]) @ bytes_or (WriteFrame [])) =
     ([\<lparr>frLength = 2, frPayload = [1, 2]\<rparr>, \<lparr>frLength = 0, frPayload = []\<rparr>], Some (ErrWrap ''read frame size'' ErrEOF))"
  using frames_roundtrip [of "[[1, 2], []]"] by simp

end
