(* ===== verification/Wire_Request.thy ===== *)
theory Wire_Request
  imports Wire_Codec
begin

text \<open>
  The decoding of requests (\<open>protocol/request.go\<close>, \<open>protocol/api.go\<close>): the request header and
  one parser per API, composed by \<open>ParseRequest\<close>. A slice that can be nil because the wire value
  can be null is an \<open>option\<close>; the other slices are lists.
\<close>

section \<open>API keys\<close>

definition APIKeyProduce :: int where "APIKeyProduce = 0"
definition APIKeyFetch :: int where "APIKeyFetch = 1"
definition APIKeyListOffsets :: int where "APIKeyListOffsets = 2"
definition APIKeyMetadata :: int where "APIKeyMetadata = 3"
definition APIKeyOffsetCommit :: int where "APIKeyOffsetCommit = 8"
definition APIKeyOffsetFetch :: int where "APIKeyOffsetFetch = 9"
definition APIKeyFindCoordinator :: int where "APIKeyFindCoordinator = 10"
definition APIKeyJoinGroup :: int where "APIKeyJoinGroup = 11"
definition APIKeyHeartbeat :: int where "APIKeyHeartbeat = 12"
definition APIKeyLeaveGroup :: int where "APIKeyLeaveGroup = 13"
definition APIKeySyncGroup :: int where "APIKeySyncGroup = 14"
definition APIKeyDescribeGroups :: int where "APIKeyDescribeGroups = 15"
definition APIKeyListGroups :: int where "APIKeyListGroups = 16"
definition APIKeyApiVersion :: int where "APIKeyApiVersion = 18"
definition APIKeyCreateTopics :: int where "APIKeyCreateTopics = 19"
definition APIKeyDeleteTopics :: int where "APIKeyDeleteTopics = 20"
definition APIKeyOffsetForLeaderEpoch :: int where "APIKeyOffsetForLeaderEpoch = 23"
definition APIKeyDescribeConfigs :: int where "APIKeyDescribeConfigs = 32"
definition APIKeyAlterConfigs :: int where "APIKeyAlterConfigs = 33"
definition APIKeyCreatePartitions :: int where "APIKeyCreatePartitions = 37"
definition APIKeyDeleteGroups :: int where "APIKeyDeleteGroups = 42"

lemmas api_keys = APIKeyProduce_def APIKeyFetch_def APIKeyListOffsets_def APIKeyMetadata_def
  APIKeyOffsetCommit_def APIKeyOffsetFetch_def APIKeyFindCoordinator_def APIKeyJoinGroup_def
  APIKeyHeartbeat_def APIKeyLeaveGroup_def APIKeySyncGroup_def APIKeyDescribeGroups_def
  APIKeyListGroups_def APIKeyApiVersion_def APIKeyCreateTopics_def APIKeyDeleteTopics_def
  APIKeyOffsetForLeaderEpoch_def APIKeyDescribeConfigs_def APIKeyAlterConfigs_def
  APIKeyCreatePartitions_def APIKeyDeleteGroups_def

section \<open>Requests\<close>

record request_header =
  rhAPIKey :: int
  rhAPIVersion :: int
  rhCorrelationID :: int
  rhClientID :: "string option"

record api_versions_request =
  avClientSoftwareName :: string
  avClientSoftwareVersion :: string

record produce_partition =
  ppPartition :: int
  ppRecords :: "bytes option"

record produce_topic =
  ptName :: string
  ptPartitions :: "produce_partition list"

record produce_request =
  prAcks :: int
  prTimeoutMs :: int
  prTransactionalID :: "string option"
  prTopics :: "produce_topic list"

record fetch_partition =
  fpPartition :: int
  fpFetchOffset :: int
  fpMaxBytes :: int

record fetch_topic =
  ftName :: string
  ftTopicID :: bytes
  ftPartitions :: "fetch_partition list"

record fetch_request =
  frqReplicaID :: int
  frqMaxWaitMs :: int
  frqMinBytes :: int
  frqMaxBytes :: int
  frqIsolationLevel :: int
  frqSessionID :: int
  frqSessionEpoch :: int
  frqTopics :: "fetch_topic list"

record metadata_request =
  mrTopics :: "string list option"
  mrTopicIDs :: "bytes list option"
  mrAllowAutoTopicCreation :: bool
  mrIncludeClusterAuthOps :: bool
  mrIncludeTopicAuthOps :: bool

record create_topic_config =
  ctName :: string
  ctNumPartitions :: int
  ctReplicationFactor :: int

record create_topics_request =
  ctrTopics :: "create_topic_config list"
  ctrTimeoutMs :: int
  ctrValidateOnly :: bool

record delete_topics_request =
  dtTopicNames :: "string list"
  dtTimeoutMs :: int

record list_offsets_partition =
  loPartition :: int
  loTimestamp :: int
  loMaxNumOffsets :: int
  loCurrentLeaderEpoch :: int

record list_offsets_topic =
  lotName :: string
  lotPartitions :: "list_offsets_partition list"

record list_offsets_request =
  lorReplicaID :: int
  lorIsolationLevel :: int
  lorTopics :: "list_offsets_topic list"

record find_coordinator_request =
  fcKeyType :: int
  fcKey :: string

record join_group_protocol =
  jpName :: string
  jpMetadata :: bytes

record join_group_request =
  jgGroupID :: string
  jgSessionTimeoutMs :: int
  jgRebalanceTimeoutMs :: int
  jgMemberID :: string
  jgProtocolType :: string
  jgProtocols :: "join_group_protocol list"

record sync_group_assignment =
  sgaMemberID :: string
  sgaAssignment :: "bytes option"

record sync_group_request =
  sgGroupID :: string
  sgGenerationID :: int
  sgMemberID :: string
  sgAssignments :: "sync_group_assignment list"

record heartbeat_request =
  hbGroupID :: string
  hbGenerationID :: int
  hbMemberID :: string
  hbInstanceID :: "string option"

record leave_group_request =
  lgGroupID :: string
  lgMemberID :: string

record offset_commit_partition =
  ocPartition :: int
  ocOffset :: int
  ocMetadata :: string

record offset_commit_topic =
  octName :: string
  octPartitions :: "offset_commit_partition list"

record offset_commit_request =
  ocrGroupID :: string
  ocrGenerationID :: int
  ocrMemberID :: string
  ocrRetentionMs :: int
  ocrTopics :: "offset_commit_topic list"

record offset_fetch_topic =
  oftName :: string
  oftPartitions :: "int list"

record offset_fetch_request =
  ofGroupID :: string
  ofTopics :: "offset_fetch_topic list"

record leader_epoch_partition =
  lepPartition :: int
  lepCurrentLeaderEpoch :: int
  lepLeaderEpoch :: int

record leader_epoch_topic =
  letName :: string
  letPartitions :: "leader_epoch_partition list"

record leader_epoch_request =
  lerReplicaID :: int
  lerTopics :: "leader_epoch_topic list"

record describe_configs_resource =
  dcResourceType :: int
  dcResourceName :: string
  dcConfigNames :: "string list option"

record describe_configs_request =
  dcrResources :: "describe_configs_resource list"
  dcrIncludeSynonyms :: bool
  dcrIncludeDocumentation :: bool

record alter_configs_config =
  accName :: string
  accValue :: "string option"

record alter_configs_resource =
  acResourceType :: int
  acResourceName :: string
  acConfigs :: "alter_configs_config list"

record alter_configs_request =
  acrResources :: "alter_configs_resource list"
  acrValidateOnly :: bool

record create_partitions_topic =
  cptName :: string
  cptCount :: int
  cptAssignments :: "int list list option"

record create_partitions_request =
  cprTopics :: "create_partitions_topic list"
  cprTimeoutMs :: int
  cprValidateOnly :: bool

record delete_groups_request =
  dgGroups :: "string list"

record describe_groups_request =
  dsgGroups :: "string list"
  dsgIncludeAuthorizedOperations :: bool

record list_groups_request =
  lsgStatesFilter :: "string list"
  lsgTypesFilter :: "string list"

datatype request =
    ReqApiVersions api_versions_request
  | ReqProduce produce_request
  | ReqFetch fetch_request
  | ReqMetadata metadata_request
  | ReqCreateTopics create_topics_request
  | ReqDeleteTopics delete_topics_request
  | ReqListOffsets list_offsets_request
  | ReqFindCoordinator find_coordinator_request
  | ReqJoinGroup join_group_request
  | ReqSyncGroup sync_group_request
  | ReqHeartbeat heartbeat_request
  | ReqLeaveGroup leave_group_request
  | ReqOffsetCommit offset_commit_request
  | ReqOffsetFetch offset_fetch_request
  | ReqOffsetForLeaderEpoch leader_epoch_request
  | ReqDescribeConfigs describe_configs_request
  | ReqAlterConfigs alter_configs_request
  | ReqCreatePartitions create_partitions_request
  | ReqDeleteGroups delete_groups_request
  | ReqDescribeGroups describe_groups_request
  | ReqListGroups list_groups_request

section \<open>Helpers of the parsers\<close>

definition isFlexibleRequest :: "int \<Rightarrow> int \<Rightarrow> bool" where
  "isFlexibleRequest apiKey version =
     (if apiKey = APIKeyApiVersion then version \<ge> 3
      else if apiKey = APIKeyProduce then version \<ge> 9
      else if apiKey = APIKeyMetadata then version \<ge> 9
      else if apiKey = APIKeyFetch then version \<ge> 12
      else if apiKey = APIKeyFindCoordinator then version \<ge> 3
      else if apiKey = APIKeySyncGroup then version \<ge> 4
      else if apiKey = APIKeyHeartbeat then version \<ge> 4
      else if apiKey = APIKeyListGroups then version \<ge> 3
      else if apiKey = APIKeyDescribeGroups then version \<ge> 5
      else if apiKey = APIKeyOffsetForLeaderEpoch then version \<ge> 4
      else if apiKey = APIKeyDescribeConfigs then version \<ge> 4
      else if apiKey = APIKeyAlterConfigs then version \<ge> 2
      else if apiKey = APIKeyCreatePartitions then version \<ge> 2
      else if apiKey = APIKeyDeleteGroups then version \<ge> 2
      else False)"

definition compactArrayLenNonNull :: "int reader" where
  "compactArrayLenNonNull = rbind rCompactArrayLen (\<lambda>n.
     if n < 0 then rfail ''compact array is null'' else rret n)"

definition str_of :: "bool \<Rightarrow> string reader" where
  "str_of flexible = (if flexible then rCompactString else rString)"

definition nstr_of :: "bool \<Rightarrow> string option reader" where
  "nstr_of flexible = (if flexible then rCompactNullableString else rNullableString)"

definition bytes_of :: "bool \<Rightarrow> bytes option reader" where
  "bytes_of flexible = (if flexible then rCompactBytes else rbind rBytes (\<lambda>b. rret (Some b)))"

text \<open>An array length, as the parsers read it: null or negative lengths are errors.\<close>

definition count_of :: "bool \<Rightarrow> int reader" where
  "count_of flexible = (if flexible then compactArrayLenNonNull
     else rbind rInt32 (\<lambda>n. if n < 0 then rfail ''count invalid'' else rret n))"

text \<open>An array length that may be negative (null).\<close>

definition raw_count_of :: "bool \<Rightarrow> int reader" where
  "raw_count_of flexible = (if flexible then rCompactArrayLen else rInt32)"

definition tags_of :: "bool \<Rightarrow> unit reader" where
  "tags_of flexible = (if flexible then rSkipTaggedFields else rret ())"

text \<open>\<open>make([]T, 0, n)\<close> panics for a negative capacity.\<close>

definition make_cap :: "int \<Rightarrow> unit reader" where
  "make_cap n = (if n < 0 then rpanic else rret ())"

definition rwhen :: "bool \<Rightarrow> 'a \<Rightarrow> 'a reader \<Rightarrow> 'a reader" where
  "rwhen c d p = (if c then p else rret d)"

section \<open>The request header\<close>

definition ParseRequestHeader :: "request_header reader" where
  "ParseRequestHeader =
     rbind (rwrap ''read api key'' rInt16) (\<lambda>apiKey.
     rbind (rwrap ''read api version'' rInt16) (\<lambda>version.
     rbind (rwrap ''read correlation id'' rInt32) (\<lambda>correlationID.
     rbind (rwrap ''read client id'' rNullableString) (\<lambda>clientID.
     rbind (rwrap ''skip header tags'' (tags_of (isFlexibleRequest apiKey version))) (\<lambda>_.
       rret \<lparr>rhAPIKey = apiKey, rhAPIVersion = version, rhCorrelationID = correlationID,
             rhClientID = clientID\<rparr>)))))"

section \<open>The request bodies\<close>

definition parse_ApiVersions :: "int \<Rightarrow> bool \<Rightarrow> request reader" where
  "parse_ApiVersions version flexible =
     (if version \<ge> 3 then
        rbind (str_of flexible) (\<lambda>name.
        rbind (str_of flexible) (\<lambda>vers.
        rbind (tags_of flexible) (\<lambda>_.
          rret (ReqApiVersions \<lparr>avClientSoftwareName = name, avClientSoftwareVersion = vers\<rparr>))))
      else rret (ReqApiVersions \<lparr>avClientSoftwareName = [], avClientSoftwareVersion = []\<rparr>))"

definition parse_produce_partition :: "bool \<Rightarrow> produce_partition reader" where
  "parse_produce_partition flexible =
     rbind (rwrap ''read produce partition index'' rInt32) (\<lambda>index.
     rbind (rwrap ''read produce records'' (bytes_of flexible)) (\<lambda>records.
       rret \<lparr>ppPartition = index, ppRecords = records\<rparr>))"

definition parse_produce_topic :: "bool \<Rightarrow> produce_topic reader" where
  "parse_produce_topic flexible =
     rbind (rwrap ''read produce topic name'' (str_of flexible)) (\<lambda>name.
     rbind (rwrap ''read produce partition count'' (count_of flexible)) (\<lambda>n.
     rbind (make_cap n) (\<lambda>_.
     rbind (rmany (nat n) (parse_produce_partition flexible)) (\<lambda>partitions.
     rbind (rwrap ''skip partition tags'' (tags_of flexible)) (\<lambda>_.
     rbind (rwrap ''skip topic tags'' (tags_of flexible)) (\<lambda>_.
       rret \<lparr>ptName = name, ptPartitions = partitions\<rparr>))))))"

definition parse_Produce :: "int \<Rightarrow> bool \<Rightarrow> request reader" where
  "parse_Produce version flexible =
     rbind (rwhen (version \<ge> 3) None (rwrap ''read produce transactional id'' (nstr_of flexible))) (\<lambda>transactionalID.
     rbind (rwrap ''read produce acks'' rInt16) (\<lambda>acks.
     rbind (rwrap ''read produce timeout'' rInt32) (\<lambda>timeout.
     rbind (rwrap ''read produce topic count'' (count_of flexible)) (\<lambda>n.
     rbind (make_cap n) (\<lambda>_.
     rbind (rmany (nat n) (parse_produce_topic flexible)) (\<lambda>topics.
     rbind (rwrap ''skip produce tags'' (tags_of flexible)) (\<lambda>_.
       rret (ReqProduce \<lparr>prAcks = acks, prTimeoutMs = timeout,
                         prTransactionalID = transactionalID, prTopics = topics\<rparr>))))))))"

text \<open>One topic of a metadata request: the name, if there is one, and the identifier, if the
  version has one.\<close>

definition parse_metadata_topic :: "int \<Rightarrow> bool \<Rightarrow> (string option \<times> bytes option) reader" where
  "parse_metadata_topic version flexible =
     (if version \<ge> 10 then
        rbind (rwrap ''read metadata topic id'' rUUID) (\<lambda>id.
        rbind (rwrap ''read metadata topic name'' (nstr_of flexible)) (\<lambda>name.
        rbind (rwrap ''skip metadata topic tags'' (tags_of flexible)) (\<lambda>_.
          rret (name, Some id))))
      else
        rbind (rwrap ''read metadata topic'' (str_of flexible)) (\<lambda>name.
        rbind (rwrap ''skip metadata topic tags'' (tags_of flexible)) (\<lambda>_.
          rret (Some name, None))))"

definition parse_Metadata :: "int \<Rightarrow> bool \<Rightarrow> request reader" where
  "parse_Metadata version flexible =
     rbind (rwrap ''read metadata topic count'' (raw_count_of flexible)) (\<lambda>count.
     rbind (rwhen (count \<ge> 0) None
              (rbind (rmany (nat count) (parse_metadata_topic version flexible)) (\<lambda>ts. rret (Some ts)))) (\<lambda>ts.
     rbind (rwhen (version \<ge> 4) True (rwrap ''read metadata allow auto topic creation'' rBool)) (\<lambda>allow.
     rbind (rwhen (version \<ge> 8 \<and> version \<le> 10) False
              (rwrap ''read metadata include cluster auth ops'' rBool)) (\<lambda>cluster.
     rbind (rwhen (version \<ge> 8) False (rwrap ''read metadata include topic auth ops'' rBool)) (\<lambda>topic.
     rbind (rwrap ''skip metadata tags'' (tags_of flexible)) (\<lambda>_.
       rret (ReqMetadata \<lparr>mrTopics = map_option (\<lambda>xs. List.map_filter fst xs) ts,
                          mrTopicIDs = map_option (\<lambda>xs. List.map_filter snd xs) ts,
                          mrAllowAutoTopicCreation = allow,
                          mrIncludeClusterAuthOps = cluster,
                          mrIncludeTopicAuthOps = topic\<rparr>)))))))"

definition parse_create_topic :: "create_topic_config reader" where
  "parse_create_topic =
     rbind rString (\<lambda>name.
     rbind rInt32 (\<lambda>partitions.
     rbind rInt16 (\<lambda>repl.
     rbind rInt32 (\<lambda>cfgCount.
     rbind (rmany (nat cfgCount) (rbind rString (\<lambda>_. rString))) (\<lambda>_.
       rret \<lparr>ctName = name, ctNumPartitions = partitions, ctReplicationFactor = repl\<rparr>)))))"

definition parse_CreateTopics :: "int \<Rightarrow> request reader" where
  "parse_CreateTopics version =
     rbind rInt32 (\<lambda>n.
     rbind (make_cap n) (\<lambda>_.
     rbind (rmany (nat n) parse_create_topic) (\<lambda>configs.
     rbind rInt32 (\<lambda>timeoutMs.
     rbind (rwhen (version \<ge> 1) False rBool) (\<lambda>validateOnly.
       rret (ReqCreateTopics \<lparr>ctrTopics = configs, ctrTimeoutMs = timeoutMs,
                              ctrValidateOnly = validateOnly\<rparr>))))))"

definition parse_DeleteTopics :: "request reader" where
  "parse_DeleteTopics =
     rbind rInt32 (\<lambda>n.
     rbind (make_cap n) (\<lambda>_.
     rbind (rmany (nat n) rString) (\<lambda>names.
     rbind rInt32 (\<lambda>timeoutMs.
       rret (ReqDeleteTopics \<lparr>dtTopicNames = names, dtTimeoutMs = timeoutMs\<rparr>)))))"

definition parse_list_offsets_partition :: "int \<Rightarrow> list_offsets_partition reader" where
  "parse_list_offsets_partition version =
     rbind rInt32 (\<lambda>part.
     rbind (rwhen (version \<ge> 4) (- 1) rInt32) (\<lambda>leaderEpoch.
     rbind rInt64 (\<lambda>timestamp.
     rbind (rwhen (version = 0) 1 rInt32) (\<lambda>maxOffsets.
       rret \<lparr>loPartition = part, loTimestamp = timestamp, loMaxNumOffsets = maxOffsets,
             loCurrentLeaderEpoch = leaderEpoch\<rparr>))))"

definition parse_ListOffsets :: "int \<Rightarrow> request reader" where
  "parse_ListOffsets version =
     rbind rInt32 (\<lambda>replicaID.
     rbind (rwhen (version \<ge> 2) 0 rInt8) (\<lambda>isolationLevel.
     rbind rInt32 (\<lambda>n.
     rbind (make_cap n) (\<lambda>_.
     rbind (rmany (nat n)
       (rbind rString (\<lambda>name.
        rbind rInt32 (\<lambda>k.
        rbind (make_cap k) (\<lambda>_.
        rbind (rmany (nat k) (parse_list_offsets_partition version)) (\<lambda>parts.
          rret \<lparr>lotName = name, lotPartitions = parts\<rparr>)))))) (\<lambda>topics.
       rret (ReqListOffsets \<lparr>lorReplicaID = replicaID, lorIsolationLevel = isolationLevel,
                             lorTopics = topics\<rparr>))))))"

definition parse_fetch_partition :: "int \<Rightarrow> bool \<Rightarrow> fetch_partition reader" where
  "parse_fetch_partition version flexible =
     rbind rInt32 (\<lambda>partitionID.
     rbind (rwhen (version \<ge> 9) 0 rInt32) (\<lambda>leaderEpoch.
     rbind rInt64 (\<lambda>fetchOffset.
     rbind (rwhen (version \<ge> 12) 0 rInt32) (\<lambda>lastFetchedEpoch.
     rbind (rwhen (version \<ge> 5) 0 rInt64) (\<lambda>logStartOffset.
     rbind rInt32 (\<lambda>maxBytes.
     rbind (rwrap ''skip fetch partition tags'' (tags_of flexible)) (\<lambda>_.
       rret \<lparr>fpPartition = partitionID, fpFetchOffset = fetchOffset, fpMaxBytes = maxBytes\<rparr>)))))))"

definition parse_fetch_topic :: "int \<Rightarrow> bool \<Rightarrow> fetch_topic reader" where
  "parse_fetch_topic version flexible =
     rbind (if version \<ge> 12 then rbind rUUID (\<lambda>id. rret ([], id))
            else rbind (str_of flexible) (\<lambda>name. rret (name, replicate 16 0))) (\<lambda>(name, topicID).
     rbind (count_of flexible) (\<lambda>n.
     rbind (make_cap n) (\<lambda>_.
     rbind (rmany (nat n) (parse_fetch_partition version flexible)) (\<lambda>partitions.
     rbind (rwrap ''skip fetch topic tags'' (tags_of flexible)) (\<lambda>_.
       rret \<lparr>ftName = name, ftTopicID = topicID, ftPartitions = partitions\<rparr>)))))"

text \<open>The forgotten topics of a fetch session are read and dropped.\<close>

definition parse_forgotten_topic :: "int \<Rightarrow> bool \<Rightarrow> unit reader" where
  "parse_forgotten_topic version flexible =
     rbind (if version \<ge> 12 then rwrap ''read forgotten topic id'' (rbind rUUID (\<lambda>_. rret ()))
            else rwrap ''read forgotten topic name'' (rbind rString (\<lambda>_. rret ()))) (\<lambda>_.
     rbind (rwrap ''read forgotten partitions'' (raw_count_of flexible)) (\<lambda>n.
     rbind (rmany (nat n) (rwrap ''read forgotten partition'' rInt32)) (\<lambda>_.
       rwrap ''skip forgotten topic tags'' (tags_of flexible))))"

definition parse_Fetch :: "int \<Rightarrow> bool \<Rightarrow> request reader" where
  "parse_Fetch version flexible =
     rbind (rwrap ''read fetch replica id'' rInt32) (\<lambda>replicaID.
     rbind rInt32 (\<lambda>maxWaitMs.
     rbind rInt32 (\<lambda>minBytes.
     rbind (rwhen (version \<ge> 3) 0 rInt32) (\<lambda>maxBytes.
     rbind (rwhen (version \<ge> 4) 0 rInt8) (\<lambda>isolationLevel.
     rbind (rwhen (version \<ge> 7) 0 rInt32) (\<lambda>sessionID.
     rbind (rwhen (version \<ge> 7) 0 rInt32) (\<lambda>sessionEpoch.
     rbind (count_of flexible) (\<lambda>n.
     rbind (make_cap n) (\<lambda>_.
     rbind (rmany (nat n) (parse_fetch_topic version flexible)) (\<lambda>topics.
     rbind (rwhen (version \<ge> 7) []
              (rbind (rwrap ''read forgotten topics count'' (raw_count_of flexible)) (\<lambda>k.
                 rmany (nat k) (parse_forgotten_topic version flexible)))) (\<lambda>_.
     rbind (rwhen (version \<ge> 11) None (rwrap ''read rack id'' (nstr_of flexible))) (\<lambda>_.
     rbind (rwrap ''skip fetch request tags'' (tags_of flexible)) (\<lambda>_.
       rret (ReqFetch \<lparr>frqReplicaID = replicaID, frqMaxWaitMs = maxWaitMs, frqMinBytes = minBytes,
                       frqMaxBytes = maxBytes, frqIsolationLevel = isolationLevel,
                       frqSessionID = sessionID, frqSessionEpoch = sessionEpoch,
                       frqTopics = topics\<rparr>))))))))))))))"

definition parse_FindCoordinator :: "int \<Rightarrow> bool \<Rightarrow> request reader" where
  "parse_FindCoordinator version flexible =
     rbind (rwrap ''read coordinator key'' (str_of flexible)) (\<lambda>key.
     rbind (rwhen (version \<ge> 1) 0 (rwrap ''read coordinator key type'' rInt8)) (\<lambda>keyType.
     rbind (rwrap ''skip coordinator tags'' (tags_of flexible)) (\<lambda>_.
       rret (ReqFindCoordinator \<lparr>fcKeyType = keyType, fcKey = key\<rparr>))))"

definition parse_JoinGroup :: "request reader" where
  "parse_JoinGroup =
     rbind rString (\<lambda>groupID.
     rbind rInt32 (\<lambda>sessionTimeout.
     rbind rInt32 (\<lambda>rebalanceTimeout.
     rbind rString (\<lambda>memberID.
     rbind rString (\<lambda>protocolType.
     rbind rInt32 (\<lambda>n.
     rbind (make_cap n) (\<lambda>_.
     rbind (rmany (nat n)
       (rbind rString (\<lambda>name. rbind rBytes (\<lambda>meta. rret \<lparr>jpName = name, jpMetadata = meta\<rparr>)))) (\<lambda>protocols.
       rret (ReqJoinGroup \<lparr>jgGroupID = groupID, jgSessionTimeoutMs = sessionTimeout,
                           jgRebalanceTimeoutMs = rebalanceTimeout, jgMemberID = memberID,
                           jgProtocolType = protocolType, jgProtocols = protocols\<rparr>)))))))))"

definition parse_sync_assignment :: "bool \<Rightarrow> sync_group_assignment reader" where
  "parse_sync_assignment flexible =
     rbind (str_of flexible) (\<lambda>mid.
     rbind (bytes_of flexible) (\<lambda>data.
     rbind (rwrap ''skip sync assignment tags'' (tags_of flexible)) (\<lambda>_.
       rret \<lparr>sgaMemberID = mid, sgaAssignment = data\<rparr>)))"

definition parse_SyncGroup :: "int \<Rightarrow> bool \<Rightarrow> request reader" where
  "parse_SyncGroup version flexible =
     rbind (str_of flexible) (\<lambda>groupID.
     rbind rInt32 (\<lambda>generationID.
     rbind (str_of flexible) (\<lambda>memberID.
     rbind (rwhen (version \<ge> 3) None (nstr_of flexible)) (\<lambda>_.
     rbind (rwhen (version \<ge> 5) None (nstr_of flexible)) (\<lambda>_.
     rbind (rwhen (version \<ge> 5) None (nstr_of flexible)) (\<lambda>_.
     rbind (if flexible then compactArrayLenNonNull else rInt32) (\<lambda>n.
     rbind (make_cap n) (\<lambda>_.
     rbind (rmany (nat n) (parse_sync_assignment flexible)) (\<lambda>assignments.
     rbind (rwrap ''skip sync group tags'' (tags_of flexible)) (\<lambda>_.
       rret (ReqSyncGroup \<lparr>sgGroupID = groupID, sgGenerationID = generationID, sgMemberID = memberID,
                           sgAssignments = assignments\<rparr>)))))))))))"

definition parse_Heartbeat :: "int \<Rightarrow> bool \<Rightarrow> request reader" where
  "parse_Heartbeat version flexible =
     rbind (rwrap ''read heartbeat group id'' (str_of flexible)) (\<lambda>groupID.
     rbind (rwrap ''read heartbeat generation'' rInt32) (\<lambda>generationID.
     rbind (rwrap ''read heartbeat member id'' (str_of flexible)) (\<lambda>memberID.
     rbind (rwhen (version \<ge> 3) None (rwrap ''read heartbeat group instance id'' (nstr_of flexible))) (\<lambda>instanceID.
     rbind (rwrap ''skip heartbeat tags'' (tags_of flexible)) (\<lambda>_.
       rret (ReqHeartbeat \<lparr>hbGroupID = groupID, hbGenerationID = generationID, hbMemberID = memberID,
                           hbInstanceID = instanceID\<rparr>))))))"

definition parse_LeaveGroup :: "request reader" where
  "parse_LeaveGroup =
     rbind rString (\<lambda>groupID.
     rbind rString (\<lambda>memberID.
       rret (ReqLeaveGroup \<lparr>lgGroupID = groupID, lgMemberID = memberID\<rparr>)))"

definition parse_commit_partition :: "offset_commit_partition reader" where
  "parse_commit_partition =
     rbind rInt32 (\<lambda>part.
     rbind rInt64 (\<lambda>offset.
     rbind rNullableString (\<lambda>metaPtr.
       rret \<lparr>ocPartition = part, ocOffset = offset,
             ocMetadata = (case metaPtr of None \<Rightarrow> [] | Some m \<Rightarrow> m)\<rparr>)))"

definition parse_OffsetCommit :: "int \<Rightarrow> request reader" where
  "parse_OffsetCommit version =
     (if version \<noteq> 3 then rfail ''offset commit version not supported''
      else
        rbind rString (\<lambda>groupID.
        rbind rInt32 (\<lambda>generationID.
        rbind rString (\<lambda>memberID.
        rbind (rwhen (version \<ge> 2 \<and> version \<le> 4) 0 rInt64) (\<lambda>retentionMs.
        rbind rInt32 (\<lambda>n.
        rbind (make_cap n) (\<lambda>_.
        rbind (rmany (nat n)
          (rbind rString (\<lambda>name.
           rbind rInt32 (\<lambda>k.
           rbind (make_cap k) (\<lambda>_.
           rbind (rmany (nat k) parse_commit_partition) (\<lambda>partitions.
             rret \<lparr>octName = name, octPartitions = partitions\<rparr>)))))) (\<lambda>topics.
          rret (ReqOffsetCommit \<lparr>ocrGroupID = groupID, ocrGenerationID = generationID,
                                 ocrMemberID = memberID, ocrRetentionMs = retentionMs,
                                 ocrTopics = topics\<rparr>)))))))))"

definition parse_OffsetFetch :: "request reader" where
  "parse_OffsetFetch =
     rbind rString (\<lambda>groupID.
     rbind rInt32 (\<lambda>n.
     rbind (make_cap n) (\<lambda>_.
     rbind (rmany (nat n)
       (rbind rString (\<lambda>name.
        rbind rInt32 (\<lambda>k.
        rbind (make_cap k) (\<lambda>_.
        rbind (rmany (nat k) rInt32) (\<lambda>partitions.
          rret \<lparr>oftName = name, oftPartitions = partitions\<rparr>)))))) (\<lambda>topics.
       rret (ReqOffsetFetch \<lparr>ofGroupID = groupID, ofTopics = topics\<rparr>)))))"

definition parse_epoch_partition :: "int \<Rightarrow> bool \<Rightarrow> leader_epoch_partition reader" where
  "parse_epoch_partition version flexible =
     rbind (rwrap ''read offset for leader epoch partition'' rInt32) (\<lambda>partitionID.
     rbind (rwhen (version \<ge> 2) (- 1)
              (rwrap ''read offset for leader epoch current leader epoch'' rInt32)) (\<lambda>currentLeaderEpoch.
     rbind (rwrap ''read offset for leader epoch leader epoch'' rInt32) (\<lambda>leaderEpoch.
     rbind (rwrap ''skip offset for leader epoch partition tags'' (tags_of flexible)) (\<lambda>_.
       rret \<lparr>lepPartition = partitionID, lepCurrentLeaderEpoch = currentLeaderEpoch,
             lepLeaderEpoch = leaderEpoch\<rparr>))))"

definition parse_OffsetForLeaderEpoch :: "int \<Rightarrow> bool \<Rightarrow> request reader" where
  "parse_OffsetForLeaderEpoch version flexible =
     rbind (rwhen (version \<ge> 3) (- 2) (rwrap ''read offset for leader epoch replica id'' rInt32)) (\<lambda>replicaID.
     rbind (rwrap ''read offset for leader epoch topic count'' (count_of flexible)) (\<lambda>n.
     rbind (make_cap n) (\<lambda>_.
     rbind (rmany (nat n)
       (rbind (rwrap ''read offset for leader epoch topic'' (str_of flexible)) (\<lambda>name.
        rbind (rwrap ''read offset for leader epoch partition count'' (count_of flexible)) (\<lambda>k.
        rbind (make_cap k) (\<lambda>_.
        rbind (rmany (nat k) (parse_epoch_partition version flexible)) (\<lambda>partitions.
        rbind (rwrap ''skip offset for leader epoch topic tags'' (tags_of flexible)) (\<lambda>_.
          rret \<lparr>letName = name, letPartitions = partitions\<rparr>))))))) (\<lambda>topics.
     rbind (rwrap ''skip offset for leader epoch tags'' (tags_of flexible)) (\<lambda>_.
       rret (ReqOffsetForLeaderEpoch \<lparr>lerReplicaID = replicaID, lerTopics = topics\<rparr>))))))"

definition parse_describe_resource :: "bool \<Rightarrow> describe_configs_resource reader" where
  "parse_describe_resource flexible =
     rbind (rwrap ''read describe configs resource type'' rInt8) (\<lambda>resourceType.
     rbind (rwrap ''read describe configs resource name'' (str_of flexible)) (\<lambda>resourceName.
     rbind (rwrap ''read describe configs config count'' (raw_count_of flexible)) (\<lambda>configCount.
     rbind (rwhen (configCount \<ge> 0) None
              (rbind (rmany (nat configCount) (rwrap ''read describe configs config name'' (str_of flexible)))
                 (\<lambda>ns. rret (Some ns)))) (\<lambda>configNames.
     rbind (rwrap ''skip describe configs resource tags'' (tags_of flexible)) (\<lambda>_.
       rret \<lparr>dcResourceType = resourceType, dcResourceName = resourceName, dcConfigNames = configNames\<rparr>)))))"

definition parse_DescribeConfigs :: "int \<Rightarrow> bool \<Rightarrow> request reader" where
  "parse_DescribeConfigs version flexible =
     rbind (rwrap ''read describe configs resource count'' (count_of flexible)) (\<lambda>n.
     rbind (make_cap n) (\<lambda>_.
     rbind (rmany (nat n) (parse_describe_resource flexible)) (\<lambda>resources.
     rbind (rwhen (version \<ge> 1) False (rwrap ''read describe configs include synonyms'' rBool)) (\<lambda>synonyms.
     rbind (rwhen (version \<ge> 3) False (rwrap ''read describe configs include docs'' rBool)) (\<lambda>docs.
     rbind (rwrap ''skip describe configs tags'' (tags_of flexible)) (\<lambda>_.
       rret (ReqDescribeConfigs \<lparr>dcrResources = resources, dcrIncludeSynonyms = synonyms,
                                 dcrIncludeDocumentation = docs\<rparr>)))))))"

definition parse_alter_config :: "bool \<Rightarrow> alter_configs_config reader" where
  "parse_alter_config flexible =
     rbind (rwrap ''read alter configs config name'' (str_of flexible)) (\<lambda>name.
     rbind (rwrap ''read alter configs config value'' (nstr_of flexible)) (\<lambda>val.
     rbind (rwrap ''skip alter configs config tags'' (tags_of flexible)) (\<lambda>_.
       rret \<lparr>accName = name, accValue = val\<rparr>)))"

definition parse_alter_resource :: "bool \<Rightarrow> alter_configs_resource reader" where
  "parse_alter_resource flexible =
     rbind (rwrap ''read alter configs resource type'' rInt8) (\<lambda>resourceType.
     rbind (rwrap ''read alter configs resource name'' (str_of flexible)) (\<lambda>resourceName.
     rbind (rwrap ''read alter configs config count'' (count_of flexible)) (\<lambda>n.
     rbind (make_cap n) (\<lambda>_.
     rbind (rmany (nat n) (parse_alter_config flexible)) (\<lambda>configs.
     rbind (rwrap ''skip alter configs resource tags'' (tags_of flexible)) (\<lambda>_.
       rret \<lparr>acResourceType = resourceType, acResourceName = resourceName, acConfigs = configs\<rparr>))))))"

definition parse_AlterConfigs :: "bool \<Rightarrow> request reader" where
  "parse_AlterConfigs flexible =
     rbind (rwrap ''read alter configs resource count'' (count_of flexible)) (\<lambda>n.
     rbind (make_cap n) (\<lambda>_.
     rbind (rmany (nat n) (parse_alter_resource flexible)) (\<lambda>resources.
     rbind (rwrap ''read alter configs validate only'' rBool) (\<lambda>validateOnly.
     rbind (rwrap ''skip alter configs tags'' (tags_of flexible)) (\<lambda>_.
       rret (ReqAlterConfigs \<lparr>acrResources = resources, acrValidateOnly = validateOnly\<rparr>))))))"

definition parse_assignment :: "bool \<Rightarrow> int list reader" where
  "parse_assignment flexible =
     rbind (rwrap ''read create partitions replica count'' (count_of flexible)) (\<lambda>n.
     rbind (make_cap n) (\<lambda>_.
     rbind (rmany (nat n) (rwrap ''read create partitions replica'' rInt32)) (\<lambda>replicas.
     rbind (rwrap ''skip create partitions assignment tags'' (tags_of flexible)) (\<lambda>_.
       rret replicas))))"

definition parse_partitions_topic :: "bool \<Rightarrow> create_partitions_topic reader" where
  "parse_partitions_topic flexible =
     rbind (rwrap ''read create partitions topic name'' (str_of flexible)) (\<lambda>name.
     rbind (rwrap ''read create partitions topic count'' rInt32) (\<lambda>cnt.
     rbind (rwrap ''read create partitions assignment count'' (raw_count_of flexible)) (\<lambda>n.
     rbind (if n \<ge> 0 then rbind (rmany (nat n) (parse_assignment flexible)) (\<lambda>as. rret (Some as))
            else if n < - 1 then rfail ''create partitions assignment count invalid''
            else rret None) (\<lambda>assignments.
     rbind (rwrap ''skip create partitions topic tags'' (tags_of flexible)) (\<lambda>_.
       rret \<lparr>cptName = name, cptCount = cnt, cptAssignments = assignments\<rparr>)))))"

definition parse_CreatePartitions :: "bool \<Rightarrow> request reader" where
  "parse_CreatePartitions flexible =
     rbind (rwrap ''read create partitions topic count'' (count_of flexible)) (\<lambda>n.
     rbind (make_cap n) (\<lambda>_.
     rbind (rmany (nat n) (parse_partitions_topic flexible)) (\<lambda>topics.
     rbind (rwrap ''read create partitions timeout'' rInt32) (\<lambda>timeoutMs.
     rbind (rwrap ''read create partitions validate only'' rBool) (\<lambda>validateOnly.
     rbind (rwrap ''skip create partitions tags'' (tags_of flexible)) (\<lambda>_.
       rret (ReqCreatePartitions \<lparr>cprTopics = topics, cprTimeoutMs = timeoutMs,
                                  cprValidateOnly = validateOnly\<rparr>)))))))"

definition parse_DeleteGroups :: "bool \<Rightarrow> request reader" where
  "parse_DeleteGroups flexible =
     rbind (rwrap ''read delete groups count'' (count_of flexible)) (\<lambda>n.
     rbind (make_cap n) (\<lambda>_.
     rbind (rmany (nat n) (rwrap ''read delete groups'' (str_of flexible))) (\<lambda>groups.
     rbind (rwrap ''skip delete groups tags'' (tags_of flexible)) (\<lambda>_.
       rret (ReqDeleteGroups \<lparr>dgGroups = groups\<rparr>)))))"

definition parse_DescribeGroups :: "int \<Rightarrow> bool \<Rightarrow> request reader" where
  "parse_DescribeGroups version flexible =
     rbind (rwrap ''read describe groups count'' (count_of flexible)) (\<lambda>n.
     rbind (make_cap n) (\<lambda>_.
     rbind (rmany (nat n) (rwrap ''read describe group'' (str_of flexible))) (\<lambda>groups.
     rbind (rwhen (version \<ge> 3) False (rwrap ''read describe groups include auth ops'' rBool)) (\<lambda>auth.
     rbind (rwrap ''skip describe groups tags'' (tags_of flexible)) (\<lambda>_.
       rret (ReqDescribeGroups \<lparr>dsgGroups = groups, dsgIncludeAuthorizedOperations = auth\<rparr>))))))"

text \<open>One filter of \<open>ListGroups\<close>: a null array of a flexible request is the empty filter.\<close>

definition parse_filter :: "bool \<Rightarrow> string list reader" where
  "parse_filter flexible =
     rbind (if flexible then rCompactArrayLen else count_of False) (\<lambda>n.
       rmany (nat n) (str_of flexible))"

definition parse_ListGroups :: "int \<Rightarrow> bool \<Rightarrow> request reader" where
  "parse_ListGroups version flexible =
     rbind (rwhen (version \<ge> 4) [] (rwrap ''read list groups states'' (parse_filter flexible))) (\<lambda>states.
     rbind (rwhen (version \<ge> 5) [] (rwrap ''read list groups types'' (parse_filter flexible))) (\<lambda>types.
     rbind (rwrap ''skip list groups tags'' (tags_of flexible)) (\<lambda>_.
       rret (ReqListGroups \<lparr>lsgStatesFilter = states, lsgTypesFilter = types\<rparr>))))"

definition parse_body :: "int \<Rightarrow> int \<Rightarrow> bool \<Rightarrow> request reader" where
  "parse_body apiKey version flexible =
     (if apiKey = APIKeyApiVersion then parse_ApiVersions version flexible
      else if apiKey = APIKeyProduce then parse_Produce version flexible
      else if apiKey = APIKeyMetadata then parse_Metadata version flexible
      else if apiKey = APIKeyCreateTopics then parse_CreateTopics version
      else if apiKey = APIKeyDeleteTopics then parse_DeleteTopics
      else if apiKey = APIKeyListOffsets then parse_ListOffsets version
      else if apiKey = APIKeyFetch then parse_Fetch version flexible
      else if apiKey = APIKeyFindCoordinator then parse_FindCoordinator version flexible
      else if apiKey = APIKeyJoinGroup then parse_JoinGroup
      else if apiKey = APIKeySyncGroup then parse_SyncGroup version flexible
      else if apiKey = APIKeyHeartbeat then parse_Heartbeat version flexible
      else if apiKey = APIKeyLeaveGroup then parse_LeaveGroup
      else if apiKey = APIKeyOffsetCommit then parse_OffsetCommit version
      else if apiKey = APIKeyOffsetFetch then parse_OffsetFetch
      else if apiKey = APIKeyOffsetForLeaderEpoch then parse_OffsetForLeaderEpoch version flexible
      else if apiKey = APIKeyDescribeConfigs then parse_DescribeConfigs version flexible
      else if apiKey = APIKeyAlterConfigs then parse_AlterConfigs flexible
      else if apiKey = APIKeyCreatePartitions then parse_CreatePartitions flexible
      else if apiKey = APIKeyDeleteGroups then parse_DeleteGroups flexible
      else if apiKey = APIKeyDescribeGroups then parse_DescribeGroups version flexible
      else if apiKey = APIKeyListGroups then parse_ListGroups version flexible
      else rfail ''unsupported api key'')"

definition ParseRequest :: "bytes \<Rightarrow> (request_header \<times> request) outcome" where
  "ParseRequest b =
     bindO (rbind ParseRequestHeader (\<lambda>header.
              rbind (parse_body (rhAPIKey header) (rhAPIVersion header)
                       (isFlexibleRequest (rhAPIKey header) (rhAPIVersion header))) (\<lambda>req.
                rret (header, req))) b)
       (\<lambda>(r, rest). Ok r)"

fun request_key :: "request \<Rightarrow> int" where
  "request_key (ReqApiVersions _) = APIKeyApiVersion"
| "request_key (ReqProduce _) = APIKeyProduce"
| "request_key (ReqFetch _) = APIKeyFetch"
| "request_key (ReqMetadata _) = APIKeyMetadata"
| "request_key (ReqCreateTopics _) = APIKeyCreateTopics"
| "request_key (ReqDeleteTopics _) = APIKeyDeleteTopics"
| "request_key (ReqListOffsets _) = APIKeyListOffsets"
| "request_key (ReqFindCoordinator _) = APIKeyFindCoordinator"
| "request_key (ReqJoinGroup _) = APIKeyJoinGroup"
| "request_key (ReqSyncGroup _) = APIKeySyncGroup"
| "request_key (ReqHeartbeat _) = APIKeyHeartbeat"
| "request_key (ReqLeaveGroup _) = APIKeyLeaveGroup"
| "request_key (ReqOffsetCommit _) = APIKeyOffsetCommit"
| "request_key (ReqOffsetFetch _) = APIKeyOffsetFetch"
| "request_key (ReqOffsetForLeaderEpoch _) = APIKeyOffsetForLeaderEpoch"
| "request_key (ReqDescribeConfigs _) = APIKeyDescribeConfigs"
| "request_key (ReqAlterConfigs _) = APIKeyAlterConfigs"
| "request_key (ReqCreatePartitions _) = APIKeyCreatePartitions"
| "request_key (ReqDeleteGroups _) = APIKeyDeleteGroups"
| "request_key (ReqDescribeGroups _) = APIKeyDescribeGroups"
| "request_key (ReqListGroups _) = APIKeyListGroups"

end
