(* ===== verification/Request_Safety.thy ===== *)
theory Request_Safety
  imports Wire_Request
begin

text \<open>
  Which frames make \<open>ParseRequest\<close> panic. A reader is safe when it never panics; the safe readers
  are closed under the combinators the parsers are built from, so that only a negative capacity of
  \<open>make\<close> and the skipping of tagged fields remain.
\<close>

section \<open>Safe readers\<close>

named_theorems safe_intros

definition safe :: "'a reader \<Rightarrow> bool" where
  "safe p \<longleftrightarrow> (\<forall>b. p b \<noteq> Panic)"

lemma safe_rret [safe_intros]: "safe (rret x)"
  by (simp add: safe_def rret_def)

lemma safe_rfail [safe_intros]: "safe (rfail m)"
  by (simp add: safe_def rfail_def)

lemma safe_rbind [safe_intros]: "safe p \<Longrightarrow> (\<And>x. safe (f x)) \<Longrightarrow> safe (rbind p f)"
  by (auto simp: safe_def rbind_def bindO_eq_Panic)

lemma safe_rwrap [safe_intros]: "safe p \<Longrightarrow> safe (rwrap m p)"
  unfolding safe_def rwrap_def by (metis wrapErr.simps outcome.distinct outcome.exhaust)

lemma safe_if [safe_intros]: "(c \<Longrightarrow> safe p) \<Longrightarrow> (\<not> c \<Longrightarrow> safe q) \<Longrightarrow> safe (if c then p else q)"
  by simp

lemma safe_rwhen [safe_intros]: "safe p \<Longrightarrow> safe (rwhen c d p)"
  by (simp add: rwhen_def safe_rret)

lemma safe_rmany [safe_intros]: "safe p \<Longrightarrow> safe (rmany n p)"
  by (induction n) (auto intro!: safe_intros)

lemma safe_split [safe_intros]: "(\<And>a b. safe (f a b)) \<Longrightarrow> safe (case x of (a, b) \<Rightarrow> f a b)"
  by (cases x) simp

lemma safe_read_n [safe_intros]: "0 \<le> n \<Longrightarrow> safe (read_n n)"
  by (simp add: safe_def read_n_def)

lemma safe_rUVarint [safe_intros]: "safe rUVarint"
  by (simp add: safe_def rUVarint_def split: option.splits)

lemmas primitive_defs = rInt8_def rInt16_def rInt32_def rInt64_def rUUID_def rBool_def rString_def
  rNullableString_def rCompactLength_def rCompactArrayLen_def rCompactString_def
  rCompactNullableString_def rBytes_def rCompactBytes_def

lemma safe_primitives [safe_intros]:
  "safe rInt8" "safe rInt16" "safe rInt32" "safe rInt64" "safe rUUID" "safe rBool" "safe rString"
  "safe rNullableString" "safe rCompactLength" "safe rCompactArrayLen" "safe rCompactString"
  "safe rCompactNullableString" "safe rBytes" "safe rCompactBytes"
  unfolding primitive_defs by (intro safe_intros; simp)+

lemma safe_choices [safe_intros]:
  "safe (str_of f)" "safe (nstr_of f)" "safe (bytes_of f)" "safe (raw_count_of f)"
  "safe compactArrayLenNonNull" "safe (count_of f)" "safe (tags_of False)"
  unfolding str_of_def nstr_of_def bytes_of_def raw_count_of_def compactArrayLenNonNull_def
    count_of_def tags_of_def
  by (simp_all add: safe_intros)

text \<open>A length that was checked makes the allocation behind it safe.\<close>

lemma nonneg_count:
  "compactArrayLenNonNull b = Ok (n, b') \<Longrightarrow> 0 \<le> n" "count_of f b = Ok (n, b') \<Longrightarrow> 0 \<le> n"
  by (auto simp: count_of_def compactArrayLenNonNull_def reader_simps split: if_splits)

lemma nonneg_wrapped_count: "rwrap m (count_of f) b = Ok (n, b') \<Longrightarrow> 0 \<le> n"
  unfolding rwrap_def by (cases "count_of f b") (auto dest: nonneg_count)

lemma safe_rbind_Ok: "safe p \<Longrightarrow> (\<And>b x b'. p b = Ok (x, b') \<Longrightarrow> safe (f x)) \<Longrightarrow> safe (rbind p f)"
  by (fastforce simp: safe_def rbind_def bindO_eq_Panic)

lemma safe_make_cap: "0 \<le> n \<Longrightarrow> safe g \<Longrightarrow> safe (rbind (make_cap n) (\<lambda>_. g))"
  by (simp add: make_cap_def safe_intros)

lemma safe_counted:
  assumes "\<And>n. safe (g n)"
  shows "safe (rbind (count_of f) (\<lambda>n. rbind (make_cap n) (\<lambda>_. g n)))"
    "safe (rbind (rwrap m (count_of f)) (\<lambda>n. rbind (make_cap n) (\<lambda>_. g n)))"
  by (rule safe_rbind_Ok, rule safe_intros, rule safe_make_cap, erule nonneg_count, rule assms)
     (rule safe_rbind_Ok, rule safe_rwrap, rule safe_intros, rule safe_make_cap, erule nonneg_wrapped_count, rule assms)

section \<open>The parsers that are safe on requests without tagged fields\<close>

lemmas parser_defs = parse_produce_partition_def parse_produce_topic_def parse_metadata_topic_def
  parse_fetch_partition_def parse_fetch_topic_def parse_forgotten_topic_def parse_epoch_partition_def
  parse_describe_resource_def parse_alter_config_def parse_alter_resource_def parse_assignment_def
  parse_partitions_topic_def parse_filter_def

lemmas body_defs = parse_ApiVersions_def parse_Produce_def parse_Metadata_def parse_Fetch_def
  parse_FindCoordinator_def parse_Heartbeat_def parse_LeaveGroup_def parse_OffsetForLeaderEpoch_def
  parse_DescribeConfigs_def parse_AlterConfigs_def parse_CreatePartitions_def parse_DeleteGroups_def
  parse_DescribeGroups_def parse_ListGroups_def

lemma safe_elements [safe_intros]:
  "safe (parse_produce_partition False)" "safe (parse_metadata_topic v False)"
  "safe (parse_fetch_partition v False)" "safe (parse_forgotten_topic v False)"
  "safe (parse_epoch_partition v False)" "safe (parse_describe_resource False)"
  "safe (parse_alter_config False)" "safe (parse_assignment False)" "safe (parse_filter False)"
  unfolding parser_defs by (intro safe_counted safe_intros)+

lemma safe_topics [safe_intros]:
  "safe (parse_produce_topic False)" "safe (parse_fetch_topic v False)"
  "safe (parse_alter_resource False)" "safe (parse_partitions_topic False)"
  unfolding parse_produce_topic_def parse_fetch_topic_def parse_alter_resource_def parse_partitions_topic_def
  by (intro safe_counted safe_intros)+

lemma safe_bodies [safe_intros]:
  "safe (parse_ApiVersions v False)" "safe (parse_Produce v False)" "safe (parse_Metadata v False)"
  "safe (parse_Fetch v False)" "safe (parse_FindCoordinator v False)" "safe (parse_Heartbeat v False)"
  "safe parse_LeaveGroup" "safe (parse_OffsetForLeaderEpoch v False)" "safe (parse_DescribeConfigs v False)"
  "safe (parse_AlterConfigs False)" "safe (parse_CreatePartitions False)" "safe (parse_DeleteGroups False)"
  "safe (parse_DescribeGroups v False)" "safe (parse_ListGroups v False)"
  unfolding body_defs by (intro safe_counted safe_intros)+

text \<open>The APIs whose parsers allocate with a length they have not checked.\<close>

definition unchecked_counts :: "int \<Rightarrow> bool" where
  "unchecked_counts k \<longleftrightarrow> k \<in> {APIKeyCreateTopics, APIKeyDeleteTopics, APIKeyListOffsets, APIKeyJoinGroup,
     APIKeySyncGroup, APIKeyOffsetCommit, APIKeyOffsetFetch}"

lemma safe_parse_body:
  assumes "\<not> unchecked_counts k"
  shows "safe (parse_body k v False)"
  using assms unfolding parse_body_def unchecked_counts_def
  by (intro safe_intros) auto

lemma safe_header_prefix:
  assumes "\<not> isFlexibleRequest (i16 (ube (take 2 b))) (i16 (ube (take 2 (drop 2 b))))"
  shows "ParseRequestHeader b \<noteq> Panic"
proof -
  have *: "safe (rbind (rwrap ''read correlation id'' rInt32) (\<lambda>c. rbind (rwrap ''read client id'' rNullableString) (\<lambda>i.
     rbind (rwrap ''skip header tags'' (tags_of False)) (\<lambda>_. rret \<lparr>rhAPIKey = k, rhAPIVersion = v, rhCorrelationID = c, rhClientID = i\<rparr>))))"
    for k v by (intro safe_intros)
  show ?thesis
    using * [of "i16 (ube (take 2 b))" "i16 (ube (take 2 (drop 2 b)))"] assms
    unfolding ParseRequestHeader_def safe_def
    by (auto simp: rInt16_def read_n_def reader_simps rwrap_def)
qed

lemma header_keys:
  assumes "ParseRequestHeader b = Ok (h, b')"
  shows "rhAPIKey h = i16 (ube (take 2 b)) \<and> rhAPIVersion h = i16 (ube (take 2 (drop 2 b)))"
proof -
  have "wrapErr m r = Ok x \<longleftrightarrow> r = Ok x" for m x and r :: "'z outcome" by (cases r) simp_all
  with assms show ?thesis
    by (auto simp: ParseRequestHeader_def rInt16_def read_n_def reader_simps rwrap_def split: if_splits)
qed

text \<open>
  C21: decoding a request never panics, whatever the bytes are, unless the version named by the
  frame is a flexible one (tagged fields are skipped) or the API is one of the seven whose parsers
  allocate with an unchecked length.
\<close>

theorem parse_request_safe:
  assumes "\<not> isFlexibleRequest (i16 (ube (take 2 b))) (i16 (ube (take 2 (drop 2 b))))"
    and "i16 (ube (take 2 b)) \<notin> {APIKeyCreateTopics, APIKeyDeleteTopics, APIKeyListOffsets, APIKeyJoinGroup,
           APIKeySyncGroup, APIKeyOffsetCommit, APIKeyOffsetFetch}"
  shows "ParseRequest b \<noteq> Panic"
proof
  assume "ParseRequest b = Panic"
  with safe_header_prefix [OF assms(1)] obtain h b' where h: "ParseRequestHeader b = Ok (h, b')"
    "rbind (parse_body (rhAPIKey h) (rhAPIVersion h) (isFlexibleRequest (rhAPIKey h) (rhAPIVersion h)))
       (\<lambda>req. rret (h, req)) b' = Panic"
    by (auto simp: ParseRequest_def rbind_def bindO_eq_Panic split: prod.splits)
  have "safe (rbind (parse_body (rhAPIKey h) (rhAPIVersion h) False) (\<lambda>req. rret (h, req)))"
    using assms(2) header_keys [OF h(1)] by (intro safe_intros safe_parse_body) (simp add: unchecked_counts_def)
  with h(2) assms(1) header_keys [OF h(1)] show False by (simp add: safe_def)
qed

theorem parse_request_safe_witness:
  "ParseRequest [0, 3, 0, 0, 0, 0, 0, 7, 255, 255, 255, 255, 255, 254] \<noteq> Panic \<and>
   (\<exists>h. ParseRequestHeader [0, 3, 0, 0, 0, 0, 0, 7, 255, 255, 255, 255, 255, 254] = Ok (h, [255, 255, 255, 254]))"
proof -
  have "i16 (ube (take 2 [0, 3, 0, 0, 0, 0, 0, 7, 255, 255, 255, 255, 255, 254])) = 3"
    "i16 (ube (take 2 (drop 2 [0, 3, 0, 0, 0, 0, 0, 7, 255, 255, 255, 255, 255, 254]))) = 0"
    by code_simp+
  then have "ParseRequest [0, 3, 0, 0, 0, 0, 0, 7, 255, 255, 255, 255, 255, 254] \<noteq> Panic"
    by (intro parse_request_safe) (simp_all add: isFlexibleRequest_def api_keys)
  moreover have "ParseRequestHeader [0, 3, 0, 0, 0, 0, 0, 7, 255, 255, 255, 255, 255, 254] =
      Ok (\<lparr>rhAPIKey = 3, rhAPIVersion = 0, rhCorrelationID = 7, rhClientID = None\<rparr>, [255, 255, 255, 254])"
    by code_simp
  ultimately show ?thesis by blast
qed

section \<open>Frames that panic\<close>

text \<open>One tagged field whose declared size is \<open>2 ^ 64 - 1\<close>, which is -1 as an \<open>int\<close>.\<close>

definition oversized_tag :: bytes where
  "oversized_tag = [1, 0, 255, 255, 255, 255, 255, 255, 255, 255, 255, 1]"

lemma oversized_tag_panics: "rSkipTaggedFields (oversized_tag @ r) = Panic"
proof -
  have "uvarint 0 0 ([1, 0, 255, 255, 255, 255, 255, 255, 255, 255, 255, 1] @ r) =
      Some (1, [0, 255, 255, 255, 255, 255, 255, 255, 255, 255, 1] @ r)"
    "uvarint 0 0 ([0, 255, 255, 255, 255, 255, 255, 255, 255, 255, 1] @ r) =
      Some (0, [255, 255, 255, 255, 255, 255, 255, 255, 255, 1] @ r)"
    "uvarint 0 0 ([255, 255, 255, 255, 255, 255, 255, 255, 255, 1] @ r) = Some (2 ^ 64 - 1, r)"
    by simp_all
  moreover have "i64 (2 ^ 64 - 1) = - 1" by code_simp
  ultimately show ?thesis
    by (simp add: oversized_tag_def rSkipTaggedFields_def rUVarint_def reader_simps read_n_def)
qed

lemma header_prefix:
  assumes "in_i16 k" "in_i16 v" "in_i32 c" "\<forall>x. cid = Some x \<longrightarrow> short_string x"
  shows "ParseRequestHeader (wInt16 k @ wInt16 v @ wInt32 c @ bytes_or (wNullableString cid) @ r) =
    rbind (rwrap ''skip header tags'' (tags_of (isFlexibleRequest k v))) (\<lambda>_.
      rret \<lparr>rhAPIKey = k, rhAPIVersion = v, rhCorrelationID = c, rhClientID = cid\<rparr>) r"
  using assms unfolding ParseRequestHeader_def
  by (simp add: reader_simps rwrap_def int16.dec_enc int32.dec_enc nstr.dec_enc)

lemma oversized_header_panics:
  assumes "isFlexibleRequest k v" "in_i16 k" "in_i16 v" "in_i32 c"
  shows "ParseRequest (wInt16 k @ wInt16 v @ wInt32 c @ wInt16 (- 1) @ oversized_tag @ r) = Panic"
  using header_prefix [of k v c None "oversized_tag @ r"] oversized_tag_panics [of r] assms
  by (simp add: ParseRequest_def wNullableString_def bytes_or_def reader_simps rwrap_def tags_of_def)

text \<open>
  A negative array length panics the decoding of CreateTopics, DeleteTopics and OffsetFetch
  requests (of any version) and of JoinGroup requests: the length is the capacity of a slice.
\<close>

theorem negative_count_panics:
  assumes "n < 0" "in_i32 n" "in_i16 v" "in_i32 c" "short_string g" "short_string m" "short_string t"
    "in_i32 st" "in_i32 rt"
  shows "ParseRequest (wInt16 APIKeyCreateTopics @ wInt16 v @ wInt32 c @ wInt16 (- 1) @ wInt32 n @ r) = Panic \<and>
    ParseRequest (wInt16 APIKeyDeleteTopics @ wInt16 v @ wInt32 c @ wInt16 (- 1) @ wInt32 n @ r) = Panic \<and>
    ParseRequest (wInt16 APIKeyOffsetFetch @ wInt16 v @ wInt32 c @ wInt16 (- 1) @
      bytes_or (wString g) @ wInt32 n @ r) = Panic \<and>
    ParseRequest (wInt16 APIKeyJoinGroup @ wInt16 v @ wInt32 c @ wInt16 (- 1) @ bytes_or (wString g) @
      wInt32 st @ wInt32 rt @ bytes_or (wString m) @ bytes_or (wString t) @ wInt32 n @ r) = Panic"
proof -
  have start: "ParseRequest (wInt16 k @ wInt16 v @ wInt32 c @ wInt16 (- 1) @ b) = Panic"
    if "in_i16 k" "\<not> isFlexibleRequest k v" "parse_body k v False b = Panic" for k b
    using header_prefix [of k v c None b] assms(3,4) that
    by (simp add: ParseRequest_def wNullableString_def bytes_or_def reader_simps rwrap_def tags_of_def)
  note body = parse_body_def api_keys parse_CreateTopics_def parse_DeleteTopics_def parse_OffsetFetch_def
    parse_JoinGroup_def reader_simps make_cap_def rpanic_def int32.dec_enc str.dec_enc assms
  show ?thesis
    by (intro conjI; rule start; simp add: in_i16_def isFlexibleRequest_def body)
qed

theorem negative_count_panics_witness:
  "ParseRequest (wInt16 APIKeyDeleteTopics @ wInt16 0 @ wInt32 1 @ wInt16 (- 1) @ wInt32 (- 5) @ []) = Panic"
  using negative_count_panics [of "- 5" 0 1 "[]" "[]" "[]" 0 0 "[]"]
  by (simp add: in_i16_def in_i32_def short_string_def)

end
