(* ===== verification/Request_Roundtrip.thy ===== *)
theory Request_Roundtrip
  imports Request_Safety
begin

text \<open>
  Requests in the wire format of the Kafka protocol are decoded to what was encoded. The repository
  has no encoder of requests; the encoders here are the specification of the format, written with
  the writers of \<open>protocol/encoding.go\<close>.
\<close>

section \<open>Arrays\<close>

definition enc_array :: "('a \<Rightarrow> bytes) \<Rightarrow> 'a list \<Rightarrow> bytes" where
  "enc_array e xs = wInt32 (int (length xs)) @ concat (map e xs)"

definition array_ok :: "('a \<Rightarrow> bool) \<Rightarrow> 'a list \<Rightarrow> bool" where
  "array_ok d xs \<longleftrightarrow> list_all d xs \<and> int (length xs) < 2 ^ 31"

context codec
begin

lemma dec_array_unchecked:
  "array_ok dom_ok xs \<Longrightarrow>
   rbind rInt32 (\<lambda>n. rbind (make_cap n) (\<lambda>_. rbind (rmany (nat n) dec) f)) (enc_array enc xs @ r) = f xs r"
  by (simp add: array_ok_def enc_array_def reader_simps make_cap_def int32.dec_enc in_i32_def dec_many)

lemma dec_array:
  "array_ok dom_ok xs \<Longrightarrow>
   rbind (count_of False) (\<lambda>n. rbind (make_cap n) (\<lambda>_. rbind (rmany (nat n) dec) f)) (enc_array enc xs @ r) = f xs r"
  "array_ok dom_ok xs \<Longrightarrow>
   rbind (rwrap m (count_of False)) (\<lambda>n. rbind (make_cap n) (\<lambda>_. rbind (rmany (nat n) dec) f)) (enc_array enc xs @ r) = f xs r"
  by (simp_all add: array_ok_def enc_array_def reader_simps rwrap_def count_of_def make_cap_def int32.dec_enc in_i32_def dec_many)

end

abbreviation wStr :: "string \<Rightarrow> bytes" where
  "wStr s \<equiv> bytes_or (wString s)"

abbreviation wNStr :: "string option \<Rightarrow> bytes" where
  "wNStr s \<equiv> bytes_or (wNullableString s)"

lemmas fixed_dec = int8.dec_enc int16.dec_enc int32.dec_enc int64.dec_enc str.dec_enc nstr.dec_enc byt.dec_enc
lemmas plain_choices = str_of_def nstr_of_def bytes_of_def tags_of_def

section \<open>The elements of arrays\<close>

definition opt_bytes_ok :: "bytes option \<Rightarrow> bool" where
  "opt_bytes_ok b \<longleftrightarrow> (case b of None \<Rightarrow> False | Some x \<Rightarrow> int (length x) < 2 ^ 31)"

definition wRecords :: "bytes option \<Rightarrow> bytes" where
  "wRecords b = (case b of None \<Rightarrow> wInt32 (- 1) | Some x \<Rightarrow> wBytesWithLength x)"

lemma dec_records: "opt_bytes_ok b \<Longrightarrow> rBytes (wRecords b @ r) = Ok (the b, r) \<and> Some (the b) = b"
  by (auto simp: opt_bytes_ok_def wRecords_def byt.dec_enc split: option.splits)

definition enc_produce_partition :: "produce_partition \<Rightarrow> bytes" where
  "enc_produce_partition p = wInt32 (ppPartition p) @ wRecords (ppRecords p)"

definition produce_partition_ok :: "produce_partition \<Rightarrow> bool" where
  "produce_partition_ok p \<longleftrightarrow> in_i32 (ppPartition p) \<and> opt_bytes_ok (ppRecords p)"

interpretation prodp: codec "parse_produce_partition False" enc_produce_partition produce_partition_ok
  by unfold_locales
    (simp add: parse_produce_partition_def enc_produce_partition_def produce_partition_ok_def plain_choices
      reader_simps rwrap_def fixed_dec dec_records)

definition enc_produce_topic :: "produce_topic \<Rightarrow> bytes" where
  "enc_produce_topic t = wStr (ptName t) @ enc_array enc_produce_partition (ptPartitions t)"

definition produce_topic_ok :: "produce_topic \<Rightarrow> bool" where
  "produce_topic_ok t \<longleftrightarrow> short_string (ptName t) \<and> array_ok produce_partition_ok (ptPartitions t)"

lemma rbind_Ok: "p b = Ok (x, b') \<Longrightarrow> rbind p f b = f x b'"
  by (simp add: rbind_def)

lemma rwrap_Ok: "p b = Ok x \<Longrightarrow> rwrap m p b = Ok x"
  by (simp add: rwrap_def)

lemmas steps = rbind_Ok rwrap_Ok fixed_dec rret_def plain_choices rwhen_def

interpretation prodt: codec "parse_produce_topic False" enc_produce_topic produce_topic_ok
  by unfold_locales
    (simp add: parse_produce_topic_def enc_produce_topic_def produce_topic_ok_def steps prodp.dec_array)

definition enc_fetch_partition :: "int \<Rightarrow> fetch_partition \<Rightarrow> bytes" where
  "enc_fetch_partition v p = wInt32 (fpPartition p) @ (if v \<ge> 9 then wInt32 (- 1) else []) @
     wInt64 (fpFetchOffset p) @ (if v \<ge> 5 then wInt64 (- 1) else []) @ wInt32 (fpMaxBytes p)"

definition fetch_partition_ok :: "fetch_partition \<Rightarrow> bool" where
  "fetch_partition_ok p \<longleftrightarrow> in_i32 (fpPartition p) \<and> in_i64 (fpFetchOffset p) \<and> in_i32 (fpMaxBytes p)"

lemma in_minus1: "in_i32 (- 1)" "in_i64 (- 1)"
  by (simp_all add: in_i32_def in_i64_def)

lemma fetchp_codec: "v \<le> 11 \<Longrightarrow> codec (parse_fetch_partition v False) (enc_fetch_partition v) fetch_partition_ok"
  by unfold_locales
    (simp add: parse_fetch_partition_def enc_fetch_partition_def fetch_partition_ok_def steps in_minus1)

definition enc_fetch_topic :: "int \<Rightarrow> fetch_topic \<Rightarrow> bytes" where
  "enc_fetch_topic v t = wStr (ftName t) @ enc_array (enc_fetch_partition v) (ftPartitions t)"

definition fetch_topic_ok :: "fetch_topic \<Rightarrow> bool" where
  "fetch_topic_ok t \<longleftrightarrow> short_string (ftName t) \<and> ftTopicID t = replicate 16 0 \<and>
     array_ok fetch_partition_ok (ftPartitions t)"

lemma fetcht_codec: "v \<le> 11 \<Longrightarrow> codec (parse_fetch_topic v False) (enc_fetch_topic v) fetch_topic_ok"
  by unfold_locales
    (simp add: parse_fetch_topic_def enc_fetch_topic_def fetch_topic_ok_def steps codec.dec_array [OF fetchp_codec])

definition enc_join_protocol :: "join_group_protocol \<Rightarrow> bytes" where
  "enc_join_protocol p = wStr (jpName p) @ wBytesWithLength (jpMetadata p)"

definition join_protocol_ok :: "join_group_protocol \<Rightarrow> bool" where
  "join_protocol_ok p \<longleftrightarrow> short_string (jpName p) \<and> int (length (jpMetadata p)) < 2 ^ 31"

interpretation joinp: codec
  "rbind rString (\<lambda>name. rbind rBytes (\<lambda>meta. rret \<lparr>jpName = name, jpMetadata = meta\<rparr>))"
  enc_join_protocol join_protocol_ok
  by unfold_locales (simp add: enc_join_protocol_def join_protocol_ok_def steps)

definition enc_sync_assignment :: "sync_group_assignment \<Rightarrow> bytes" where
  "enc_sync_assignment a = wStr (sgaMemberID a) @ wRecords (sgaAssignment a)"

definition sync_assignment_ok :: "sync_group_assignment \<Rightarrow> bool" where
  "sync_assignment_ok a \<longleftrightarrow> short_string (sgaMemberID a) \<and> opt_bytes_ok (sgaAssignment a)"

interpretation synca: codec "parse_sync_assignment False" enc_sync_assignment sync_assignment_ok
  by unfold_locales
    (simp add: parse_sync_assignment_def enc_sync_assignment_def sync_assignment_ok_def steps dec_records)

definition enc_commit_partition :: "offset_commit_partition \<Rightarrow> bytes" where
  "enc_commit_partition p = wInt32 (ocPartition p) @ wInt64 (ocOffset p) @ wNStr (Some (ocMetadata p))"

definition commit_partition_ok :: "offset_commit_partition \<Rightarrow> bool" where
  "commit_partition_ok p \<longleftrightarrow> in_i32 (ocPartition p) \<and> in_i64 (ocOffset p) \<and> short_string (ocMetadata p)"

interpretation commitp: codec parse_commit_partition enc_commit_partition commit_partition_ok
  by unfold_locales (simp add: parse_commit_partition_def enc_commit_partition_def commit_partition_ok_def steps)

definition enc_commit_topic :: "offset_commit_topic \<Rightarrow> bytes" where
  "enc_commit_topic t = wStr (octName t) @ enc_array enc_commit_partition (octPartitions t)"

definition commit_topic_ok :: "offset_commit_topic \<Rightarrow> bool" where
  "commit_topic_ok t \<longleftrightarrow> short_string (octName t) \<and> array_ok commit_partition_ok (octPartitions t)"

interpretation committ: codec
  "rbind rString (\<lambda>name. rbind rInt32 (\<lambda>k. rbind (make_cap k) (\<lambda>_.
     rbind (rmany (nat k) parse_commit_partition) (\<lambda>partitions.
       rret \<lparr>octName = name, octPartitions = partitions\<rparr>))))"
  enc_commit_topic commit_topic_ok
  by unfold_locales (simp add: enc_commit_topic_def commit_topic_ok_def steps commitp.dec_array_unchecked)

definition enc_offset_fetch_topic :: "offset_fetch_topic \<Rightarrow> bytes" where
  "enc_offset_fetch_topic t = wStr (oftName t) @ enc_array wInt32 (oftPartitions t)"

definition offset_fetch_topic_ok :: "offset_fetch_topic \<Rightarrow> bool" where
  "offset_fetch_topic_ok t \<longleftrightarrow> short_string (oftName t) \<and> array_ok in_i32 (oftPartitions t)"

interpretation offt: codec
  "rbind rString (\<lambda>name. rbind rInt32 (\<lambda>k. rbind (make_cap k) (\<lambda>_.
     rbind (rmany (nat k) rInt32) (\<lambda>partitions.
       rret \<lparr>oftName = name, oftPartitions = partitions\<rparr>))))"
  enc_offset_fetch_topic offset_fetch_topic_ok
  by unfold_locales (simp add: enc_offset_fetch_topic_def offset_fetch_topic_ok_def steps int32.dec_array_unchecked)

section \<open>Whole requests\<close>

text \<open>The requests of the data path and of the group protocol, at the versions without tagged
  fields. \<open>request_ok\<close> says which values a request of that version can carry.\<close>

fun enc_request :: "int \<Rightarrow> request \<Rightarrow> bytes" where
  "enc_request v (ReqProduce q) =
     (if v \<ge> 3 then wNStr (prTransactionalID q) else []) @ wInt16 (prAcks q) @ wInt32 (prTimeoutMs q) @
     enc_array enc_produce_topic (prTopics q)"
| "enc_request v (ReqFetch q) =
     wInt32 (frqReplicaID q) @ wInt32 (frqMaxWaitMs q) @ wInt32 (frqMinBytes q) @
     wInt32 (frqMaxBytes q) @ wInt8 (frqIsolationLevel q) @
     (if v \<ge> 7 then wInt32 (frqSessionID q) @ wInt32 (frqSessionEpoch q) else []) @
     enc_array (enc_fetch_topic v) (frqTopics q) @
     (if v \<ge> 7 then wInt32 0 else []) @ (if v \<ge> 11 then wNStr (Some []) else [])"
| "enc_request v (ReqJoinGroup q) =
     wStr (jgGroupID q) @ wInt32 (jgSessionTimeoutMs q) @ wInt32 (jgRebalanceTimeoutMs q) @
     wStr (jgMemberID q) @ wStr (jgProtocolType q) @ enc_array enc_join_protocol (jgProtocols q)"
| "enc_request v (ReqSyncGroup q) =
     wStr (sgGroupID q) @ wInt32 (sgGenerationID q) @ wStr (sgMemberID q) @
     (if v \<ge> 3 then wNStr None else []) @ enc_array enc_sync_assignment (sgAssignments q)"
| "enc_request v (ReqHeartbeat q) =
     wStr (hbGroupID q) @ wInt32 (hbGenerationID q) @ wStr (hbMemberID q) @
     (if v \<ge> 3 then wNStr (hbInstanceID q) else [])"
| "enc_request v (ReqLeaveGroup q) = wStr (lgGroupID q) @ wStr (lgMemberID q)"
| "enc_request v (ReqOffsetCommit q) =
     wStr (ocrGroupID q) @ wInt32 (ocrGenerationID q) @ wStr (ocrMemberID q) @ wInt64 (ocrRetentionMs q) @
     enc_array enc_commit_topic (ocrTopics q)"
| "enc_request v (ReqOffsetFetch q) =
     wStr (ofGroupID q) @ enc_array enc_offset_fetch_topic (ofTopics q)"
| "enc_request v _ = []"

definition opt_string_ok :: "string option \<Rightarrow> bool" where
  "opt_string_ok s \<longleftrightarrow> (case s of None \<Rightarrow> True | Some x \<Rightarrow> short_string x)"

lemma opt_string_ok_iff: "opt_string_ok s \<longleftrightarrow> (\<forall>x. s = Some x \<longrightarrow> short_string x)"
  by (simp add: opt_string_ok_def split: option.splits)

fun request_ok :: "int \<Rightarrow> request \<Rightarrow> bool" where
  "request_ok v (ReqProduce q) \<longleftrightarrow> v \<le> 8 \<and> opt_string_ok (prTransactionalID q) \<and>
     (v < 3 \<longrightarrow> prTransactionalID q = None) \<and> in_i16 (prAcks q) \<and> in_i32 (prTimeoutMs q) \<and>
     array_ok produce_topic_ok (prTopics q)"
| "request_ok v (ReqFetch q) \<longleftrightarrow> 4 \<le> v \<and> v \<le> 11 \<and> in_i32 (frqReplicaID q) \<and> in_i32 (frqMaxWaitMs q) \<and>
     in_i32 (frqMinBytes q) \<and> in_i32 (frqMaxBytes q) \<and> in_i8 (frqIsolationLevel q) \<and>
     in_i32 (frqSessionID q) \<and> in_i32 (frqSessionEpoch q) \<and>
     (v < 7 \<longrightarrow> frqSessionID q = 0 \<and> frqSessionEpoch q = 0) \<and> array_ok fetch_topic_ok (frqTopics q)"
| "request_ok v (ReqJoinGroup q) \<longleftrightarrow> short_string (jgGroupID q) \<and> in_i32 (jgSessionTimeoutMs q) \<and>
     in_i32 (jgRebalanceTimeoutMs q) \<and> short_string (jgMemberID q) \<and> short_string (jgProtocolType q) \<and>
     array_ok join_protocol_ok (jgProtocols q)"
| "request_ok v (ReqSyncGroup q) \<longleftrightarrow> v \<le> 3 \<and> short_string (sgGroupID q) \<and> in_i32 (sgGenerationID q) \<and>
     short_string (sgMemberID q) \<and> array_ok sync_assignment_ok (sgAssignments q)"
| "request_ok v (ReqHeartbeat q) \<longleftrightarrow> v \<le> 3 \<and> short_string (hbGroupID q) \<and> in_i32 (hbGenerationID q) \<and>
     short_string (hbMemberID q) \<and> opt_string_ok (hbInstanceID q) \<and> (v < 3 \<longrightarrow> hbInstanceID q = None)"
| "request_ok v (ReqLeaveGroup q) \<longleftrightarrow> short_string (lgGroupID q) \<and> short_string (lgMemberID q)"
| "request_ok v (ReqOffsetCommit q) \<longleftrightarrow> v = 3 \<and> short_string (ocrGroupID q) \<and> in_i32 (ocrGenerationID q) \<and>
     short_string (ocrMemberID q) \<and> in_i64 (ocrRetentionMs q) \<and> array_ok commit_topic_ok (ocrTopics q)"
| "request_ok v (ReqOffsetFetch q) \<longleftrightarrow> short_string (ofGroupID q) \<and> array_ok offset_fetch_topic_ok (ofTopics q)"
| "request_ok v _ \<longleftrightarrow> False"

lemma dec_Produce:
  "request_ok v (ReqProduce q) \<Longrightarrow> parse_Produce v False (enc_request v (ReqProduce q) @ r) = Ok (ReqProduce q, r)"
  by (simp add: parse_Produce_def steps opt_string_ok_iff prodt.dec_array)

lemma dec_Fetch:
  assumes "request_ok v (ReqFetch q)"
  shows "parse_Fetch v False (enc_request v (ReqFetch q) @ r) = Ok (ReqFetch q, r)"
proof -
  have "rInt32 (wInt32 0 @ b) = Ok (0, b)" for b using int32.dec_enc [of 0 b] by (simp add: in_i32_def)
  moreover have "rNullableString (wNStr (Some []) @ b) = Ok (Some [], b)" for b
    using nstr.dec_enc [of "Some []" b] by (simp add: short_string_def)
  ultimately show ?thesis
    using assms by (simp add: parse_Fetch_def steps codec.dec_array [OF fetcht_codec] raw_count_of_def)
qed

lemma dec_JoinGroup:
  "request_ok v (ReqJoinGroup q) \<Longrightarrow> parse_JoinGroup (enc_request v (ReqJoinGroup q) @ r) = Ok (ReqJoinGroup q, r)"
  by (simp add: parse_JoinGroup_def steps joinp.dec_array_unchecked [simplified steps])

lemma dec_SyncGroup:
  "request_ok v (ReqSyncGroup q) \<Longrightarrow> parse_SyncGroup v False (enc_request v (ReqSyncGroup q) @ r) = Ok (ReqSyncGroup q, r)"
  by (simp add: parse_SyncGroup_def steps synca.dec_array_unchecked)

lemma dec_Heartbeat:
  "request_ok v (ReqHeartbeat q) \<Longrightarrow> parse_Heartbeat v False (enc_request v (ReqHeartbeat q) @ r) = Ok (ReqHeartbeat q, r)"
  by (simp add: parse_Heartbeat_def steps opt_string_ok_iff)

lemma dec_LeaveGroup:
  "request_ok v (ReqLeaveGroup q) \<Longrightarrow> parse_LeaveGroup (enc_request v (ReqLeaveGroup q) @ r) = Ok (ReqLeaveGroup q, r)"
  by (simp add: parse_LeaveGroup_def steps)

lemma dec_OffsetCommit:
  "request_ok v (ReqOffsetCommit q) \<Longrightarrow> parse_OffsetCommit v (enc_request v (ReqOffsetCommit q) @ r) = Ok (ReqOffsetCommit q, r)"
  by (simp add: parse_OffsetCommit_def steps committ.dec_array_unchecked [simplified steps])

lemma dec_OffsetFetch:
  "request_ok v (ReqOffsetFetch q) \<Longrightarrow> parse_OffsetFetch (enc_request v (ReqOffsetFetch q) @ r) = Ok (ReqOffsetFetch q, r)"
  by (simp add: parse_OffsetFetch_def steps offt.dec_array_unchecked [simplified steps])

text \<open>The request header; only versions without tagged fields are written here.\<close>

definition enc_header :: "request_header \<Rightarrow> bytes" where
  "enc_header h = wInt16 (rhAPIKey h) @ wInt16 (rhAPIVersion h) @ wInt32 (rhCorrelationID h) @ wNStr (rhClientID h)"

definition header_ok :: "request_header \<Rightarrow> bool" where
  "header_ok h \<longleftrightarrow> in_i16 (rhAPIKey h) \<and> in_i16 (rhAPIVersion h) \<and> in_i32 (rhCorrelationID h) \<and>
     opt_string_ok (rhClientID h)"

lemma dec_header:
  assumes "header_ok h" "\<not> isFlexibleRequest (rhAPIKey h) (rhAPIVersion h)"
  shows "ParseRequestHeader (enc_header h @ r) = Ok (h, r)"
  using assms header_prefix [of "rhAPIKey h" "rhAPIVersion h" "rhCorrelationID h" "rhClientID h" r]
  by (simp add: header_ok_def enc_header_def opt_string_ok_iff reader_simps rwrap_def tags_of_def)

lemma request_ok_plain: "request_ok v q \<Longrightarrow> \<not> isFlexibleRequest (request_key q) v"
  by (cases q) (simp_all add: isFlexibleRequest_def api_keys)

lemma dec_body:
  assumes "request_ok v q"
  shows "parse_body (request_key q) v False (enc_request v q @ r) = Ok (q, r)"
  using assms
proof (cases q)
  case (ReqProduce x)
  with assms dec_Produce [of v x r] show ?thesis by (simp only: parse_body_def request_key.simps) (simp add: api_keys)
next
  case (ReqFetch x)
  with assms dec_Fetch [of v x r] show ?thesis by (simp only: parse_body_def request_key.simps) (simp add: api_keys)
next
  case (ReqJoinGroup x)
  with assms dec_JoinGroup [of v x r] show ?thesis by (simp only: parse_body_def request_key.simps) (simp add: api_keys)
next
  case (ReqSyncGroup x)
  with assms dec_SyncGroup [of v x r] show ?thesis by (simp only: parse_body_def request_key.simps) (simp add: api_keys)
next
  case (ReqHeartbeat x)
  with assms dec_Heartbeat [of v x r] show ?thesis by (simp only: parse_body_def request_key.simps) (simp add: api_keys)
next
  case (ReqLeaveGroup x)
  with assms dec_LeaveGroup [of v x r] show ?thesis by (simp only: parse_body_def request_key.simps) (simp add: api_keys)
next
  case (ReqOffsetCommit x)
  with assms dec_OffsetCommit [of v x r] show ?thesis by (simp only: parse_body_def request_key.simps) (simp add: api_keys)
next
  case (ReqOffsetFetch x)
  with assms dec_OffsetFetch [of v x r] show ?thesis by (simp only: parse_body_def request_key.simps) (simp add: api_keys)
qed simp_all


definition demo_header :: request_header where
  "demo_header = \<lparr>rhAPIKey = 0, rhAPIVersion = 7, rhCorrelationID = 42, rhClientID = Some ''cli''\<rparr>"

definition demo_produce :: request where
  "demo_produce = ReqProduce \<lparr>prAcks = - 1, prTimeoutMs = 1000, prTransactionalID = None,
     prTopics = [\<lparr>ptName = ''orders'', ptPartitions = [\<lparr>ppPartition = 0, ppRecords = Some [1, 2]\<rparr>,
       \<lparr>ppPartition = 3, ppRecords = Some []\<rparr>]\<rparr>]\<rparr>"


text \<open>What every value read by a reader satisfies.\<close>

definition yields :: "('a \<Rightarrow> bool) \<Rightarrow> 'a reader \<Rightarrow> bool" where
  "yields P p \<longleftrightarrow> (\<forall>b x b'. p b = Ok (x, b') \<longrightarrow> P x)"

lemma yields_rbind: "(\<And>x. yields P (f x)) \<Longrightarrow> yields P (rbind p f)"
  by (auto simp: yields_def rbind_def)

lemma yields_rret: "P x \<Longrightarrow> yields P (rret x)"
  by (simp add: yields_def rret_def)

lemma yields_rfail: "yields P (rfail m)"
  by (simp add: yields_def rfail_def)

lemma yields_if: "(c \<Longrightarrow> yields P p) \<Longrightarrow> (\<not> c \<Longrightarrow> yields P q) \<Longrightarrow> yields P (if c then p else q)"
  by simp

lemma yields_body: "yields (\<lambda>q. request_key q = k) (parse_body k v f)"
  unfolding parse_body_def body_defs parse_CreateTopics_def parse_DeleteTopics_def parse_ListOffsets_def
    parse_JoinGroup_def parse_SyncGroup_def parse_OffsetCommit_def parse_OffsetFetch_def
  by (intro yields_if yields_rbind yields_rret yields_rfail) simp_all

text \<open>
  A successful decoding returns a request of the API that the header names, so the type switch
  of the request handler never sees a request of another API.
\<close>

theorem request_key_header:
  assumes "ParseRequest b = Ok (h, q)"
  shows "request_key q = rhAPIKey h"
proof -
  from assms show ?thesis using yields_body unfolding yields_def by (fastforce simp: ParseRequest_def reader_simps)
qed

theorem request_key_header_witness:
  "ParseRequest [0, 13, 0, 0, 0, 0, 0, 7, 255, 255, 0, 1, 103, 0, 1, 109] =
     Ok (\<lparr>rhAPIKey = 13, rhAPIVersion = 0, rhCorrelationID = 7, rhClientID = None\<rparr>,
         ReqLeaveGroup \<lparr>lgGroupID = ''g'', lgMemberID = ''m''\<rparr>) \<and>
   request_key (ReqLeaveGroup \<lparr>lgGroupID = ''g'', lgMemberID = ''m''\<rparr>) = 13"
proof -
  have p: "ParseRequest [0, 13, 0, 0, 0, 0, 0, 7, 255, 255, 0, 1, 103, 0, 1, 109] =
     Ok (\<lparr>rhAPIKey = 13, rhAPIVersion = 0, rhCorrelationID = 7, rhClientID = None\<rparr>,
         ReqLeaveGroup \<lparr>lgGroupID = ''g'', lgMemberID = ''m''\<rparr>)"
    by code_simp
  with request_key_header [OF p] show ?thesis by simp
qed

section \<open>Flexible produce requests\<close>

text \<open>The wire format of versions 9 and later: every partition, every topic and the request end with
  their tagged fields, here none.\<close>

definition enc_flex_partition :: "produce_partition \<Rightarrow> bytes" where
  "enc_flex_partition p = wInt32 (ppPartition p) @ wCompactBytes (ppRecords p) @ wTaggedFields 0"

definition enc_flex_topic :: "produce_topic \<Rightarrow> bytes" where
  "enc_flex_topic t = wCompactString (ptName t) @ wCompactArrayLen (int (length (ptPartitions t))) @
     concat (map enc_flex_partition (ptPartitions t)) @ wTaggedFields 0"

definition enc_flex_produce :: "produce_request \<Rightarrow> bytes" where
  "enc_flex_produce q = wCompactNullableString (prTransactionalID q) @ wInt16 (prAcks q) @ wInt32 (prTimeoutMs q) @
     wCompactArrayLen (int (length (prTopics q))) @ concat (map enc_flex_topic (prTopics q)) @ wTaggedFields 0"

definition flex_partition_ok :: "produce_partition \<Rightarrow> bool" where
  "flex_partition_ok p \<longleftrightarrow> in_i32 (ppPartition p) \<and>
     (case ppRecords p of None \<Rightarrow> True | Some b \<Rightarrow> int (length b) < 2 ^ 63)"

lemma flex_records_ok:
  "flex_partition_ok p \<Longrightarrow> in_i32 (ppPartition p) \<and> (\<forall>b. ppRecords p = Some b \<longrightarrow> int (length b) < 2 ^ 63)"
  by (auto simp: flex_partition_ok_def split: option.splits)

definition flex_topic_ok :: "produce_topic \<Rightarrow> bool" where
  "flex_topic_ok t \<longleftrightarrow> int (length (ptName t)) < 2 ^ 63 \<and> list_all flex_partition_ok (ptPartitions t)"

definition flex_produce_ok :: "produce_request \<Rightarrow> bool" where
  "flex_produce_ok q \<longleftrightarrow> opt_string_ok (prTransactionalID q) \<and> in_i16 (prAcks q) \<and> in_i32 (prTimeoutMs q) \<and>
     array_ok flex_topic_ok (prTopics q)"

lemmas flex_choices = str_of_def nstr_of_def bytes_of_def tags_of_def count_of_def

lemma dec_compact_count:
  "0 \<le> n \<Longrightarrow> n < 2 ^ 31 \<Longrightarrow> compactArrayLenNonNull (wCompactArrayLen n @ r) = Ok (n, r)"
  by (simp add: compactArrayLenNonNull_def rbind_def calen.dec_enc rret_def)

lemma dec_compact_nstr:
  "opt_string_ok s \<Longrightarrow> rCompactNullableString (wCompactNullableString s @ r) = Ok (s, r)"
  by (rule cnstr.dec_enc) (auto simp: opt_string_ok_iff short_string_def)

lemma flex_partition_body:
  assumes "flex_partition_ok p"
  shows "parse_produce_partition True (enc_flex_partition p @ r) = Ok (p, wTaggedFields 0 @ r)"
proof -
  have "rCompactBytes (wCompactBytes (ppRecords p) @ b) = Ok (ppRecords p, b)" for b
    using flex_records_ok [OF assms] by (intro cbyt.dec_enc) blast
  then show ?thesis
    using flex_records_ok [OF assms]
    by (simp add: parse_produce_partition_def enc_flex_partition_def flex_choices rbind_Ok rwrap_Ok int32.dec_enc rret_def)
qed

interpretation flext: codec "parse_produce_topic True" enc_flex_topic
  "\<lambda>t. flex_topic_ok t \<and> length (ptPartitions t) = 1"
proof unfold_locales
  fix t r assume t: "flex_topic_ok t \<and> length (ptPartitions t) = 1"
  then obtain p where p: "ptPartitions t = [p]" by (auto simp: length_Suc_conv)
  with t have "flex_partition_ok p" "int (length (ptName t)) < 2 ^ 63" by (simp_all add: flex_topic_ok_def)
  then show "parse_produce_topic True (enc_flex_topic t @ r) = Ok (t, r)"
    by (simp add: parse_produce_topic_def enc_flex_topic_def p flex_choices make_cap_def rbind_Ok rwrap_Ok rret_def
        cstr.dec_enc dec_compact_count flex_partition_body skip_no_tags)
qed

lemma flex_header:
  assumes "header_ok h" "isFlexibleRequest (rhAPIKey h) (rhAPIVersion h)"
  shows "ParseRequestHeader (enc_header h @ wTaggedFields 0 @ r) = Ok (h, r)"
  using assms header_prefix [of "rhAPIKey h" "rhAPIVersion h" "rhCorrelationID h" "rhClientID h" "wTaggedFields 0 @ r"]
  by (simp add: header_ok_def enc_header_def opt_string_ok_iff reader_simps rwrap_def tags_of_def skip_no_tags)

lemma flex_produce_start:
  assumes "header_ok h" "rhAPIKey h = APIKeyProduce" "rhAPIVersion h \<ge> 9" "flex_produce_ok q"
  shows "ParseRequest (enc_header h @ wTaggedFields 0 @ enc_flex_produce q) =
    bindO (rbind (rmany (length (prTopics q)) (parse_produce_topic True)) (\<lambda>topics.
      rbind (rwrap ''skip produce tags'' rSkipTaggedFields) (\<lambda>_.
        rret (h, ReqProduce \<lparr>prAcks = prAcks q, prTimeoutMs = prTimeoutMs q,
          prTransactionalID = prTransactionalID q, prTopics = topics\<rparr>)))
      (concat (map enc_flex_topic (prTopics q)) @ wTaggedFields 0)) (\<lambda>(r, rest). Ok r)"
proof -
  have f: "isFlexibleRequest (rhAPIKey h) (rhAPIVersion h)" using assms(2,3) by (simp add: isFlexibleRequest_def api_keys)
  have b: "rbind (parse_body APIKeyProduce (rhAPIVersion h) True) (\<lambda>req. rret (h, req)) = 
    rbind (parse_Produce (rhAPIVersion h) True) (\<lambda>req. rret (h, req))" by (simp add: parse_body_def api_keys)
  show ?thesis
    using assms f
    by (simp add: ParseRequest_def rbind_Ok flex_header b)
       (simp add: parse_Produce_def enc_flex_produce_def flex_produce_ok_def rwhen_def flex_choices array_ok_def make_cap_def
          rbind_def rwrap_def rret_def dec_compact_nstr int16.dec_enc int32.dec_enc dec_compact_count bindO_assoc case_prod_beta)
qed

text \<open>
  A produce request of a flexible version is decoded to what was written when every topic in it
  has exactly one partition.
\<close>

theorem flexible_produce_single:
  assumes "header_ok h" "rhAPIKey h = APIKeyProduce" "rhAPIVersion h \<ge> 9" "flex_produce_ok q"
    and "\<forall>t \<in> set (prTopics q). length (ptPartitions t) = 1"
  shows "ParseRequest (enc_header h @ wTaggedFields 0 @ enc_flex_produce q) = Ok (h, ReqProduce q)"
proof -
  have "list_all (\<lambda>t. flex_topic_ok t \<and> length (ptPartitions t) = 1) (prTopics q)"
    using assms(4,5) by (simp add: flex_produce_ok_def array_ok_def list_all_iff)
  from flext.dec_many [OF this, of "wTaggedFields 0"] show ?thesis
    using flex_produce_start [OF assms(1-4)] skip_no_tags [of "[]"] by (simp add: rbind_Ok rwrap_Ok rret_def)
qed

definition flex_demo_header :: request_header where
  "flex_demo_header = demo_header\<lparr>rhAPIVersion := 9\<rparr>"

definition flex_demo :: "produce_partition list \<Rightarrow> produce_request" where
  "flex_demo ps = \<lparr>prAcks = 1, prTimeoutMs = 5, prTransactionalID = None,
     prTopics = [\<lparr>ptName = ''t'', ptPartitions = ps\<rparr>]\<rparr>"

lemmas flex_demo_simps = flex_demo_header_def demo_header_def flex_demo_def header_ok_def flex_produce_ok_def
  opt_string_ok_def array_ok_def flex_topic_ok_def flex_partition_ok_def short_string_def in_i16_def in_i32_def api_keys

theorem flexible_produce_single_witness:
  "ParseRequest (enc_header flex_demo_header @ wTaggedFields 0 @ enc_flex_produce (flex_demo [\<lparr>ppPartition = 2, ppRecords = Some [7]\<rparr>])) =
     Ok (flex_demo_header, ReqProduce (flex_demo [\<lparr>ppPartition = 2, ppRecords = Some [7]\<rparr>]))"
  by (rule flexible_produce_single) (simp_all add: flex_demo_simps)

lemma no_tags: "wTaggedFields 0 = [0]"
  by (simp add: wTaggedFields_def wUVarint_def put_uvarint.simps)

lemma shifted_index:
  assumes "0 \<le> i" "i < 2 ^ 31"
  shows "rInt32 (0 # wInt32 i @ r) = Ok (i div 256, word_of_int i # r)"
proof -
  have be4: "be 4 i = be 3 (i div 256) @ [word_of_int i]"
    by (simp add: numeral_eq_Suc)
  have "ube (0 # be 3 (i div 256)) = ube (be 3 (i div 256))" by (simp add: ube_def del: be.simps)
  also have "\<dots> = i div 256" using assms by (simp add: ube_be)
  finally have u: "ube (0 # be 3 (i div 256)) = i div 256" .
  have "in_i32 (i div 256)"
    using assms zdiv_mono2 [of i 1 256] pos_imp_zdiv_nonneg_iff [of 256 i] by (simp add: in_i32_def)
  then have "i32 (i div 256) = i div 256" by (rule i32_id)
  then show ?thesis
    using read_n_append [of 4 "0 # be 3 (i div 256)" "word_of_int i # r"] u
    by (simp add: rInt32_def wInt32_def be4 reader_simps del: be.simps)
qed

lemma shifted_partition:
  assumes "flex_partition_ok p" "ppPartition p > 0"
    and "parse_produce_partition True (wTaggedFields 0 @ enc_flex_partition p @ r) = Ok (x, b)"
  shows "x \<noteq> p"
proof -
  have i: "0 \<le> ppPartition p" "ppPartition p < 2 ^ 31"
    using assms(1,2) by (simp_all add: flex_partition_ok_def in_i32_def)
  have "ppPartition x = ppPartition p div 256"
    using assms(3) shifted_index [OF i, of "wCompactBytes (ppRecords p) @ wTaggedFields 0 @ r"]
    by (auto simp: parse_produce_partition_def enc_flex_partition_def no_tags rbind_def rwrap_def rret_def)
  with assms(2) show ?thesis by auto
qed

lemma misread_topic:
  assumes "flex_topic_ok t" "ptPartitions t = pa # pb # ps" "ppPartition pb > 0"
    and n: "int (length (ptPartitions t)) < 2 ^ 31"
    and ok: "parse_produce_topic True (enc_flex_topic t @ r) = Ok (t', b)"
  shows "t' \<noteq> t"
proof -
  have t: "int (length (ptName t)) < 2 ^ 63" "flex_partition_ok pa" "flex_partition_ok pb"
    using assms(1,2) by (simp_all add: flex_topic_ok_def)
  let ?rest = "concat (map enc_flex_partition ps) @ wTaggedFields 0 @ r"
  have "\<exists>b'. rmany (Suc (Suc (length ps))) (parse_produce_partition True)
      (enc_flex_partition pa @ enc_flex_partition pb @ ?rest) = Ok (ptPartitions t', b')"
    using ok n assms(2)
    by (auto simp: parse_produce_topic_def enc_flex_topic_def flex_choices make_cap_def rbind_def rwrap_def rret_def
        cstr.dec_enc [OF t(1)] dec_compact_count nat_add_distrib simp del: rmany.simps)
  then obtain x c xs where r: "parse_produce_partition True (wTaggedFields 0 @ enc_flex_partition pb @ ?rest) = Ok (x, c)"
    "pa # x # xs = ptPartitions t'"
    using flex_partition_body [OF t(2)] by (auto simp: rbind_def rret_def)
  from shifted_partition [OF t(3) assms(3) r(1)] r(2) assms(2) show ?thesis by auto
qed

text \<open>
  A topic with a second partition of a positive index is never decoded to what was written in a
  flexible produce request: the tagged fields that end the first partition are not read, so that the
  index of the second partition starts one byte early.
\<close>

theorem flexible_produce_misread:
  assumes "header_ok h" "rhAPIKey h = APIKeyProduce" "rhAPIVersion h \<ge> 9" "flex_produce_ok q"
    and "prTopics q = t # ts" "ptPartitions t = pa # pb # ps" "ppPartition pb > 0"
    and "int (length (ptPartitions t)) < 2 ^ 31"
  shows "ParseRequest (enc_header h @ wTaggedFields 0 @ enc_flex_produce q) \<noteq> Ok (h, ReqProduce q)"
proof
  assume ok: "ParseRequest (enc_header h @ wTaggedFields 0 @ enc_flex_produce q) = Ok (h, ReqProduce q)"
  then obtain topics b where "rmany (length (prTopics q)) (parse_produce_topic True)
      (concat (map enc_flex_topic (prTopics q)) @ wTaggedFields 0) = Ok (topics, b)"
    "\<lparr>prAcks = prAcks q, prTimeoutMs = prTimeoutMs q, prTransactionalID = prTransactionalID q, prTopics = topics\<rparr> = q"
    unfolding flex_produce_start [OF assms(1-4)] rbind_def rret_def by auto
  then have rm: "rmany (length (prTopics q)) (parse_produce_topic True)
      (concat (map enc_flex_topic (prTopics q)) @ wTaggedFields 0) = Ok (prTopics q, b)"
    by (metis produce_request.select_convs(4))
  have "flex_topic_ok t" using assms(4,5) by (simp add: flex_produce_ok_def array_ok_def)
  moreover obtain b where "parse_produce_topic True
      (enc_flex_topic t @ concat (map enc_flex_topic ts) @ wTaggedFields 0) = Ok (t, b)"
    using rm by (auto simp: assms(5) rbind_def rret_def)
  ultimately show False using misread_topic [OF _ assms(6-8)] by blast
qed

theorem flexible_produce_misread_witness:
  "ParseRequest (enc_header flex_demo_header @ wTaggedFields 0 @
       enc_flex_produce (flex_demo [\<lparr>ppPartition = 0, ppRecords = Some [7]\<rparr>, \<lparr>ppPartition = 1, ppRecords = Some [8]\<rparr>])) \<noteq>
     Ok (flex_demo_header, ReqProduce (flex_demo [\<lparr>ppPartition = 0, ppRecords = Some [7]\<rparr>, \<lparr>ppPartition = 1, ppRecords = Some [8]\<rparr>]))"
  by (rule flexible_produce_misread [where t = "\<lparr>ptName = ''t'', ptPartitions =
        [\<lparr>ppPartition = 0, ppRecords = Some [7]\<rparr>, \<lparr>ppPartition = 1, ppRecords = Some [8]\<rparr>]\<rparr>"
        and ts = "[]" and pa = "\<lparr>ppPartition = 0, ppRecords = Some [7]\<rparr>"
        and pb = "\<lparr>ppPartition = 1, ppRecords = Some [8]\<rparr>" and ps = "[]"])
     (simp_all add: flex_demo_simps)

end
