(* ===== verification/Broker_Server.thy ===== *)
theory Broker_Server
  imports Request_Roundtrip
begin

text \<open>
  The connection loop of the broker (\<open>broker/server.go\<close>): read a frame, decode it, hand the request
  to the handler, write the response. The handler is a parameter with a state of its own; the
  connection is the bytes it will deliver before it ends and, for the writes, what the \<open>k\<close>-th write
  returns. A panic is not recovered anywhere in the program, so it ends the process.
\<close>

datatype conn_end =
    ConnEOF
  | ConnReadError go_error
  | ConnParseError go_error
  | ConnHandleError go_error
  | ConnWriteError go_error
  | ConnPanic

type_synonym 'h handler = "'h \<Rightarrow> request_header \<Rightarrow> request \<Rightarrow> 'h \<times> bytes option outcome"

text \<open>The result: the state of the handler, the responses written and why the loop ended.\<close>

function handleConnection ::
  "'h handler \<Rightarrow> (nat \<Rightarrow> go_error option) \<Rightarrow> 'h \<Rightarrow> nat \<Rightarrow> bytes \<Rightarrow> 'h \<times> bytes list \<times> conn_end" where
  "handleConnection hnd wr h k st =
     (case ReadFrame st of
        Panic \<Rightarrow> (h, [], ConnPanic)
      | Err e \<Rightarrow> (h, [], if errors_Is e ErrEOF then ConnEOF else ConnReadError e)
      | Ok (fr, st') \<Rightarrow>
          (case ParseRequest (frPayload fr) of
             Panic \<Rightarrow> (h, [], ConnPanic)
           | Err e \<Rightarrow> (h, [], ConnParseError e)
           | Ok (header, req) \<Rightarrow>
               (case hnd h header req of
                  (h', Panic) \<Rightarrow> (h', [], ConnPanic)
                | (h', Err e) \<Rightarrow> (h', [], ConnHandleError e)
                | (h', Ok None) \<Rightarrow> handleConnection hnd wr h' k st'
                | (h', Ok (Some resp)) \<Rightarrow>
                    (case WriteFrame resp of
                       Panic \<Rightarrow> (h', [], ConnPanic)
                     | Err e \<Rightarrow> (h', [], ConnWriteError e)
                     | Ok w \<Rightarrow>
                         (case wr k of
                            Some e \<Rightarrow> (h', [], ConnWriteError e)
                          | None \<Rightarrow>
                              (case handleConnection hnd wr h' (Suc k) st' of
                                 (h'', out, why) \<Rightarrow> (h'', w # out, why)))))))"
  by pat_completeness auto

termination
  by (relation "measure (\<lambda>(_, _, _, _, st). length st)") (auto dest: ReadFrame_consumes)

declare handleConnection.simps [simp del]

section \<open>Serving a pipelined connection\<close>

text \<open>The specification: the handler applied to the requests one after the other, as long as it
  succeeds, and the responses it gives.\<close>

fun serve :: "'h handler \<Rightarrow> 'h \<Rightarrow> (request_header \<times> request) list \<Rightarrow> ('h \<times> bytes list) option" where
  "serve hnd h [] = Some (h, [])"
| "serve hnd h ((header, req) # rs) =
     (case hnd h header req of
        (h', Ok None) \<Rightarrow> serve hnd h' rs
      | (h', Ok (Some resp)) \<Rightarrow> map_option (\<lambda>(h'', out). (h'', resp # out)) (serve hnd h' rs)
      | _ \<Rightarrow> None)"

definition framed :: "bytes \<Rightarrow> bytes" where
  "framed p = bytes_or (WriteFrame p)"

definition small :: "bytes \<Rightarrow> bool" where
  "small p \<longleftrightarrow> length p \<le> 0x7fffffff"

lemma WriteFrame_small: "small p \<Longrightarrow> WriteFrame p = Ok (framed p)"
  by (simp add: framed_def small_def bytes_or_def WriteFrame_def)

lemma ReadFrame_framed:
  "small p \<Longrightarrow> ReadFrame (framed p @ st) = Ok (\<lparr>frLength = int (length p), frPayload = p\<rparr>, st)"
  by (rule ReadFrame_WriteFrame [OF WriteFrame_small])

lemma handle_end: "handleConnection hnd wr h k [] = (h, [], ConnEOF)"
  by (simp add: handleConnection.simps [of _ _ _ _ "[]"] ReadFrame_def rwrap_def io_ReadFull_def reader_simps)

lemma handle_panic:
  assumes "small p" "ParseRequest p = Panic"
  shows "handleConnection hnd wr h k (framed p @ st) = (h, [], ConnPanic)"
  using assms by (subst handleConnection.simps) (simp add: ReadFrame_framed)

text \<open>Served requests in front of a stream only put their responses in front of the rest.\<close>

lemma handle_served:
  assumes "list_all2 (\<lambda>p r. small p \<and> ParseRequest p = Ok r) ps rs"
    and "serve hnd h rs = Some (h', out)" "list_all small out" "\<And>i. i < k + length out \<Longrightarrow> wr i = None"
  shows "handleConnection hnd wr h k (concat (map framed ps) @ st) =
    (case handleConnection hnd wr h' (k + length out) st of (h'', out', why) \<Rightarrow> (h'', map framed out @ out', why))"
  using assms
proof (induction ps rs arbitrary: h out k rule: list_all2_induct)
  case Nil
  then show ?case by simp
next
  case (Cons p ps r rs)
  obtain header req where r: "r = (header, req)" by (cases r)
  let ?st = "concat (map framed ps) @ st"
  have start: "handleConnection hnd wr h k (framed p @ ?st) =
      (case hnd h header req of
         (h', Panic) \<Rightarrow> (h', [], ConnPanic)
       | (h', Err e) \<Rightarrow> (h', [], ConnHandleError e)
       | (h', Ok None) \<Rightarrow> handleConnection hnd wr h' k ?st
       | (h', Ok (Some resp)) \<Rightarrow>
           (case WriteFrame resp of
              Panic \<Rightarrow> (h', [], ConnPanic)
            | Err e \<Rightarrow> (h', [], ConnWriteError e)
            | Ok w \<Rightarrow> (case wr k of Some e \<Rightarrow> (h', [], ConnWriteError e)
                | None \<Rightarrow> (case handleConnection hnd wr h' (Suc k) ?st of (h'', out, why) \<Rightarrow> (h'', w # out, why)))))"
    using Cons.hyps(1) r by (subst handleConnection.simps) (simp add: ReadFrame_framed)
  obtain h1 o1 where h1: "hnd h header req = (h1, o1)" by (cases "hnd h header req")
  show ?case
  proof (cases o1)
    case (Ok resp)
    show ?thesis
    proof (cases resp)
      case None
      with Ok h1 r Cons.prems(1) have "serve hnd h1 rs = Some (h', out)" by simp
      from Cons.IH [OF this Cons.prems(2,3)] None Ok h1 start show ?thesis by simp
    next
      case (Some b)
      with Ok h1 r Cons.prems(1) obtain out1 where o: "serve hnd h1 rs = Some (h', out1)" "out = b # out1" by auto
      have "small b" "list_all small out1" using Cons.prems(2) o by simp_all
      moreover have "wr k = None" using Cons.prems(3) [of k] o by simp
      moreover have "\<And>i. i < Suc k + length out1 \<Longrightarrow> wr i = None" using Cons.prems(3) o by simp
      ultimately show ?thesis
        using Cons.IH [OF o(1), of "Suc k"] Some Ok h1 start o
        by (simp add: WriteFrame_small split: prod.splits)
    qed
  qed (use h1 r Cons.prems(1) in simp_all)
qed

text \<open>
  C22: a client that sends decodable requests and closes gets, in the order of its requests, exactly
  the responses that the handler gives when it is applied to the requests one after the other, each
  in a frame of its own; requests without a response are skipped.
\<close>

theorem connection_serves_in_order:
  assumes "list_all2 (\<lambda>p r. small p \<and> ParseRequest p = Ok r) ps rs"
    and "serve hnd h rs = Some (h', out)" "list_all small out" "\<And>i. wr i = None"
  shows "handleConnection hnd wr h 0 (concat (map framed ps)) = (h', map framed out, ConnEOF)"
  using handle_served [OF assms(1-3), where k = 0 and st = "[]" and wr = wr] assms(4) handle_end [of hnd wr h']
  by simp

definition echo_handler :: "nat handler" where
  "echo_handler n header req = (Suc n, Ok (if n = 0 then None else Some (wInt32 (rhCorrelationID header))))"

definition leave_frame :: "byte \<Rightarrow> bytes" where
  "leave_frame c = [0, 13, 0, 0, 0, 0, 0, c, 255, 255, 0, 1, 103, 0, 1, 109]"

lemma leave_frame_parse:
  "ParseRequest (leave_frame 7) = Ok (\<lparr>rhAPIKey = 13, rhAPIVersion = 0, rhCorrelationID = 7, rhClientID = None\<rparr>,
     ReqLeaveGroup \<lparr>lgGroupID = ''g'', lgMemberID = ''m''\<rparr>)"
  "ParseRequest (leave_frame 8) = Ok (\<lparr>rhAPIKey = 13, rhAPIVersion = 0, rhCorrelationID = 8, rhClientID = None\<rparr>,
     ReqLeaveGroup \<lparr>lgGroupID = ''g'', lgMemberID = ''m''\<rparr>)"
  unfolding leave_frame_def by code_simp+

theorem connection_serves_in_order_witness:
  "handleConnection echo_handler (\<lambda>_. None) 0 0 (framed (leave_frame 7) @ framed (leave_frame 8)) =
     (2, [framed (wInt32 8)], ConnEOF)"
proof -
  have "list_all2 (\<lambda>p r. small p \<and> ParseRequest p = Ok r) [leave_frame 7, leave_frame 8]
     [(\<lparr>rhAPIKey = 13, rhAPIVersion = 0, rhCorrelationID = 7, rhClientID = None\<rparr>,
       ReqLeaveGroup \<lparr>lgGroupID = ''g'', lgMemberID = ''m''\<rparr>),
      (\<lparr>rhAPIKey = 13, rhAPIVersion = 0, rhCorrelationID = 8, rhClientID = None\<rparr>,
       ReqLeaveGroup \<lparr>lgGroupID = ''g'', lgMemberID = ''m''\<rparr>)]"
    using leave_frame_parse by (simp add: small_def leave_frame_def)
  from connection_serves_in_order [OF this, of echo_handler 0 2 "[wInt32 8]" "\<lambda>_. None"] show ?thesis
    by (simp add: echo_handler_def small_def wInt32_def)
qed

text \<open>
  C23: one frame of a client whose header carries an oversized tagged field ends the process: whatever
  was served before it, the loop ends in an unrecovered panic, and nothing behind it is served.
\<close>

theorem malformed_frame_crashes:
  assumes "list_all2 (\<lambda>p r. small p \<and> ParseRequest p = Ok r) ps rs"
    and "serve hnd h rs = Some (h', out)" "list_all small out" "\<And>i. wr i = None"
    and "isFlexibleRequest k v" "in_i16 k" "in_i16 v" "in_i32 c"
  shows "handleConnection hnd wr h 0 (concat (map framed ps) @
      framed (wInt16 k @ wInt16 v @ wInt32 c @ wInt16 (- 1) @ oversized_tag) @ st) = (h', map framed out, ConnPanic)"
proof -
  let ?p = "wInt16 k @ wInt16 v @ wInt32 c @ wInt16 (- 1) @ oversized_tag"
  have "small ?p" by (simp add: small_def wInt16_def wInt32_def oversized_tag_def)
  moreover have "ParseRequest ?p = Panic" using oversized_header_panics [OF assms(5-8), of "[]"] by simp
  ultimately show ?thesis
    using handle_served [OF assms(1-3), where k = 0 and st = "framed ?p @ st" and wr = wr] assms(4)
    by (simp add: handle_panic)
qed

theorem malformed_frame_crashes_witness:
  "handleConnection echo_handler (\<lambda>_. None) 0 0 (framed (wInt16 18 @ wInt16 3 @ wInt32 1 @ wInt16 (- 1) @ oversized_tag) @ []) =
     (0, [], ConnPanic)"
  using malformed_frame_crashes [of "[]" "[]" echo_handler 0 0 "[]" "\<lambda>_. None" 18 3 1 "[]"]
  by (simp add: isFlexibleRequest_def api_keys in_i16_def in_i32_def)

end
