(* ===== verification/Wire_Response.thy ===== *)
theory Wire_Response
  imports Wire_Codec
begin

text \<open>
  The encoding of responses (\<open>protocol/response.go\<close>). An encoder is the bytes it has written, or the
  error it returns, or \<open>Panic\<close> when a string is too long for its length field. A byte slice that can
  be nil is an \<open>option\<close>, because the compact encoding distinguishes nil from empty.
\<close>

section \<open>Response types\<close>

record api_version =
  apvAPIKey :: int
  apvMinVersion :: int
  apvMaxVersion :: int

record api_versions_response =
  avrCorrelationID :: int
  avrErrorCode :: int
  avrThrottleMs :: int
  avrVersions :: "api_version list"

record metadata_broker =
  mbNodeID :: int
  mbHost :: string
  mbPort :: int
  mbRack :: "string option"

record metadata_partition =
  mpErrorCode :: int
  mpPartitionIndex :: int
  mpLeaderID :: int
  mpLeaderEpoch :: int
  mpReplicaNodes :: "int list"
  mpISRNodes :: "int list"
  mpOfflineReplicas :: "int list"

record metadata_topic =
  mtErrorCode :: int
  mtName :: string
  mtTopicID :: bytes
  mtIsInternal :: bool
  mtPartitions :: "metadata_partition list"
  mtTopicAuthorizedOperations :: int

record metadata_response =
  mdrCorrelationID :: int
  mdrThrottleMs :: int
  mdrBrokers :: "metadata_broker list"
  mdrClusterID :: "string option"
  mdrControllerID :: int
  mdrTopics :: "metadata_topic list"
  mdrClusterAuthorizedOperations :: int

record produce_partition_response =
  pprPartition :: int
  pprErrorCode :: int
  pprBaseOffset :: int
  pprLogAppendTimeMs :: int
  pprLogStartOffset :: int

record produce_topic_response =
  ptrName :: string
  ptrPartitions :: "produce_partition_response list"

record produce_response =
  prrCorrelationID :: int
  prrTopics :: "produce_topic_response list"
  prrThrottleMs :: int

record fetch_aborted_transaction =
  fatProducerID :: int
  fatFirstOffset :: int

record fetch_partition_response =
  fprPartition :: int
  fprErrorCode :: int
  fprHighWatermark :: int
  fprLastStableOffset :: int
  fprLogStartOffset :: int
  fprPreferredReadReplica :: int
  fprRecordSet :: "bytes option"
  fprAbortedTransactions :: "fetch_aborted_transaction list"

record fetch_topic_response =
  ftrName :: string
  ftrTopicID :: bytes
  ftrPartitions :: "fetch_partition_response list"

record fetch_response =
  ferCorrelationID :: int
  ferThrottleMs :: int
  ferErrorCode :: int
  ferSessionID :: int
  ferTopics :: "fetch_topic_response list"

record create_topic_result =
  ctsName :: string
  ctsErrorCode :: int
  ctsErrorMessage :: string

record create_topics_response =
  cterCorrelationID :: int
  cterThrottleMs :: int
  cterTopics :: "create_topic_result list"

record delete_topic_result =
  dtsName :: string
  dtsErrorCode :: int
  dtsErrorMessage :: string

record delete_topics_response =
  dterCorrelationID :: int
  dterThrottleMs :: int
  dterTopics :: "delete_topic_result list"

record list_offsets_partition_response =
  lprPartition :: int
  lprErrorCode :: int
  lprTimestamp :: int
  lprOffset :: int
  lprLeaderEpoch :: int
  lprOldStyleOffsets :: "int list"

record list_offsets_topic_response =
  ltrName :: string
  ltrPartitions :: "list_offsets_partition_response list"

record list_offsets_response =
  lorrCorrelationID :: int
  lorrThrottleMs :: int
  lorrTopics :: "list_offsets_topic_response list"

record find_coordinator_response =
  fcrCorrelationID :: int
  fcrThrottleMs :: int
  fcrErrorCode :: int
  fcrErrorMessage :: "string option"
  fcrNodeID :: int
  fcrHost :: string
  fcrPort :: int

record join_group_member =
  jmMemberID :: string
  jmInstanceID :: "string option"
  jmMetadata :: bytes

record join_group_response =
  jgrCorrelationID :: int
  jgrThrottleMs :: int
  jgrErrorCode :: int
  jgrGenerationID :: int
  jgrProtocolName :: string
  jgrLeaderID :: string
  jgrMemberID :: string
  jgrMembers :: "join_group_member list"

record sync_group_response =
  sgrCorrelationID :: int
  sgrThrottleMs :: int
  sgrErrorCode :: int
  sgrProtocolType :: "string option"
  sgrProtocolName :: "string option"
  sgrAssignment :: "bytes option"

record heartbeat_response =
  hbrCorrelationID :: int
  hbrThrottleMs :: int
  hbrErrorCode :: int

record leave_group_response =
  lgrCorrelationID :: int
  lgrErrorCode :: int

record offset_commit_partition_response =
  ocpPartition :: int
  ocpErrorCode :: int

record offset_commit_topic_response =
  ocsName :: string
  ocsPartitions :: "offset_commit_partition_response list"

record offset_commit_response =
  ocmCorrelationID :: int
  ocmThrottleMs :: int
  ocmTopics :: "offset_commit_topic_response list"

record offset_fetch_partition_response =
  ofpPartition :: int
  ofpOffset :: int
  ofpLeaderEpoch :: int
  ofpMetadata :: "string option"
  ofpErrorCode :: int

record offset_fetch_topic_response =
  ofsName :: string
  ofsPartitions :: "offset_fetch_partition_response list"

record offset_fetch_response =
  ofrCorrelationID :: int
  ofrThrottleMs :: int
  ofrTopics :: "offset_fetch_topic_response list"
  ofrErrorCode :: int

record leader_epoch_partition_response =
  lsPartition :: int
  lsErrorCode :: int
  lsLeaderEpoch :: int
  lsEndOffset :: int

record leader_epoch_topic_response =
  lstName :: string
  lstPartitions :: "leader_epoch_partition_response list"

record leader_epoch_response =
  lsrCorrelationID :: int
  lsrThrottleMs :: int
  lsrTopics :: "leader_epoch_topic_response list"

record describe_groups_member =
  dgmMemberID :: string
  dgmInstanceID :: "string option"
  dgmClientID :: string
  dgmClientHost :: string
  dgmProtocolMetadata :: "bytes option"
  dgmMemberAssignment :: "bytes option"

record describe_groups_group =
  dggErrorCode :: int
  dggGroupID :: string
  dggState :: string
  dggProtocolType :: string
  dggProtocol :: string
  dggMembers :: "describe_groups_member list"
  dggAuthorizedOperations :: int

record describe_groups_response =
  dgsCorrelationID :: int
  dgsThrottleMs :: int
  dgsGroups :: "describe_groups_group list"

record list_groups_group =
  lggGroupID :: string
  lggProtocolType :: string
  lggGroupState :: string
  lggGroupType :: string

record list_groups_response =
  lgsCorrelationID :: int
  lgsThrottleMs :: int
  lgsErrorCode :: int
  lgsGroups :: "list_groups_group list"

record config_synonym =
  csName :: string
  csValue :: "string option"
  csSource :: int

record describe_configs_config =
  dccName :: string
  dccValue :: "string option"
  dccReadOnly :: bool
  dccIsDefault :: bool
  dccSource :: int
  dccIsSensitive :: bool
  dccSynonyms :: "config_synonym list"
  dccConfigType :: int
  dccDocumentation :: "string option"

record describe_configs_resource_response =
  dcsErrorCode :: int
  dcsErrorMessage :: "string option"
  dcsResourceType :: int
  dcsResourceName :: string
  dcsConfigs :: "describe_configs_config list"

record describe_configs_response =
  dcqCorrelationID :: int
  dcqThrottleMs :: int
  dcqResources :: "describe_configs_resource_response list"

record alter_configs_resource_response =
  acsErrorCode :: int
  acsErrorMessage :: "string option"
  acsResourceType :: int
  acsResourceName :: string

record alter_configs_response =
  acqCorrelationID :: int
  acqThrottleMs :: int
  acqResources :: "alter_configs_resource_response list"

record create_partitions_response_topic =
  cpsName :: string
  cpsErrorCode :: int
  cpsErrorMessage :: "string option"

record create_partitions_response =
  cpqCorrelationID :: int
  cpqThrottleMs :: int
  cpqTopics :: "create_partitions_response_topic list"

record delete_groups_response_group =
  degGroup :: string
  degErrorCode :: int

record delete_groups_response =
  deqCorrelationID :: int
  deqThrottleMs :: int
  deqGroups :: "delete_groups_response_group list"

section \<open>Sequences of writes\<close>

type_synonym writer = "bytes outcome"

fun wseq :: "writer list \<Rightarrow> writer" where
  "wseq [] = Ok []"
| "wseq (w # ws) = bindO w (\<lambda>b. bindO (wseq ws) (\<lambda>bs. Ok (b @ bs)))"

definition wif :: "bool \<Rightarrow> writer \<Rightarrow> writer" where
  "wif c w = (if c then w else Ok [])"

definition str_w :: "bool \<Rightarrow> string \<Rightarrow> writer" where
  "str_w flexible s = (if flexible then Ok (wCompactString s) else wString s)"

definition nstr_w :: "bool \<Rightarrow> string option \<Rightarrow> writer" where
  "nstr_w flexible s = (if flexible then Ok (wCompactNullableString s) else wNullableString s)"

definition len_w :: "bool \<Rightarrow> nat \<Rightarrow> writer" where
  "len_w flexible n = Ok (if flexible then wCompactArrayLen (int n) else wInt32 (i32 (int n)))"

definition tags_w :: "bool \<Rightarrow> writer" where
  "tags_w flexible = wif flexible (Ok (wTaggedFields 0))"

text \<open>An array: its length and then its elements.\<close>

definition arr_w :: "bool \<Rightarrow> ('a \<Rightarrow> writer) \<Rightarrow> 'a list \<Rightarrow> writer" where
  "arr_w flexible f xs = wseq (len_w flexible (length xs) # map f xs)"

definition or_nil :: "bytes option \<Rightarrow> bytes" where
  "or_nil b = (case b of None \<Rightarrow> [] | Some x \<Rightarrow> x)"

definition i8w :: "int \<Rightarrow> writer" where "i8w x = Ok (wInt8 x)"
definition i16w :: "int \<Rightarrow> writer" where "i16w x = Ok (wInt16 x)"
definition i32w :: "int \<Rightarrow> writer" where "i32w x = Ok (wInt32 x)"
definition i64w :: "int \<Rightarrow> writer" where "i64w x = Ok (wInt64 x)"
definition boolw :: "bool \<Rightarrow> writer" where "boolw x = Ok (wBool x)"

section \<open>Encoders\<close>

definition EncodeApiVersionsResponse :: "api_versions_response \<Rightarrow> int \<Rightarrow> bytes outcome" where
  "EncodeApiVersionsResponse resp version =
     (if version < 0 \<or> version > 4 then Err (ErrText ''api versions response version not supported'')
      else wseq
        [i32w (avrCorrelationID resp), i16w (avrErrorCode resp),
         arr_w (version \<ge> 3) (\<lambda>v. wseq [i16w (apvAPIKey v), i16w (apvMinVersion v), i16w (apvMaxVersion v),
           tags_w (version \<ge> 3)]) (avrVersions resp),
         wif (version \<ge> 1) (i32w (avrThrottleMs resp)), tags_w (version \<ge> 3)])"

definition enc_metadata_broker :: "int \<Rightarrow> metadata_broker \<Rightarrow> writer" where
  "enc_metadata_broker version b =
     (let flexible = version \<ge> 9 in wseq
        [i32w (mbNodeID b), str_w flexible (mbHost b), i32w (mbPort b),
         wif (version \<ge> 1) (nstr_w flexible (mbRack b)), tags_w flexible])"

definition enc_metadata_partition :: "int \<Rightarrow> metadata_partition \<Rightarrow> writer" where
  "enc_metadata_partition version p =
     (let flexible = version \<ge> 9 in wseq
        [i16w (mpErrorCode p), i32w (mpPartitionIndex p), i32w (mpLeaderID p),
         wif (version \<ge> 7) (i32w (mpLeaderEpoch p)),
         arr_w flexible i32w (mpReplicaNodes p), arr_w flexible i32w (mpISRNodes p),
         wif (version \<ge> 5) (arr_w flexible i32w (mpOfflineReplicas p)), tags_w flexible])"

definition enc_metadata_topic :: "int \<Rightarrow> metadata_topic \<Rightarrow> writer" where
  "enc_metadata_topic version t =
     (let flexible = version \<ge> 9 in wseq
        [i16w (mtErrorCode t),
         if version \<ge> 10 then
           wseq [nstr_w flexible (if mtName t \<noteq> [] then Some (mtName t) else None), Ok (wUUID (mtTopicID t)),
             wif (version \<ge> 1) (boolw (mtIsInternal t))]
         else wseq [str_w flexible (mtName t), wif (version \<ge> 1) (boolw (mtIsInternal t))],
         arr_w flexible (enc_metadata_partition version) (mtPartitions t),
         wif (version \<ge> 8) (i32w (mtTopicAuthorizedOperations t)), tags_w flexible])"

definition EncodeMetadataResponse :: "metadata_response \<Rightarrow> int \<Rightarrow> bytes outcome" where
  "EncodeMetadataResponse resp version =
     (if version < 0 \<or> version > 12 then Err (ErrText ''metadata response version not supported'')
      else let flexible = version \<ge> 9 in wseq
        [i32w (mdrCorrelationID resp), tags_w flexible, wif (version \<ge> 3) (i32w (mdrThrottleMs resp)),
         arr_w flexible (enc_metadata_broker version) (mdrBrokers resp),
         wif (version \<ge> 2) (nstr_w flexible (mdrClusterID resp)),
         wif (version \<ge> 1) (i32w (mdrControllerID resp)),
         arr_w flexible (enc_metadata_topic version) (mdrTopics resp),
         wif (version \<ge> 8) (i32w (mdrClusterAuthorizedOperations resp)), tags_w flexible])"

definition enc_produce_partition_response :: "int \<Rightarrow> produce_partition_response \<Rightarrow> writer" where
  "enc_produce_partition_response version p =
     (let flexible = version \<ge> 9 in wseq
        [i32w (pprPartition p), i16w (pprErrorCode p), i64w (pprBaseOffset p),
         wif (version \<ge> 3) (i64w (pprLogAppendTimeMs p)), wif (version \<ge> 5) (i64w (pprLogStartOffset p)),
         wif (version \<ge> 8) (wseq [len_w flexible 0, nstr_w flexible None]), tags_w flexible])"

definition enc_produce_topic_response :: "int \<Rightarrow> produce_topic_response \<Rightarrow> writer" where
  "enc_produce_topic_response version t =
     (let flexible = version \<ge> 9 in wseq
        [str_w flexible (ptrName t), arr_w flexible (enc_produce_partition_response version) (ptrPartitions t),
         tags_w flexible])"

definition EncodeProduceResponse :: "produce_response \<Rightarrow> int \<Rightarrow> bytes outcome" where
  "EncodeProduceResponse resp version =
     (let flexible = version \<ge> 9 in wseq
        [i32w (prrCorrelationID resp), tags_w flexible,
         arr_w flexible (enc_produce_topic_response version) (prrTopics resp),
         wif (version \<ge> 1) (i32w (prrThrottleMs resp)), tags_w flexible])"

definition enc_fetch_partition_response :: "int \<Rightarrow> fetch_partition_response \<Rightarrow> writer" where
  "enc_fetch_partition_response version p =
     (let flexible = version \<ge> 12 in wseq
        [i32w (fprPartition p), i16w (fprErrorCode p), i64w (fprHighWatermark p),
         wif (version \<ge> 4) (i64w (fprLastStableOffset p)), wif (version \<ge> 5) (i64w (fprLogStartOffset p)),
         wif (version \<ge> 4) (arr_w flexible (\<lambda>a. wseq [i64w (fatProducerID a), i64w (fatFirstOffset a)])
           (fprAbortedTransactions p)),
         wif (version \<ge> 11) (i32w (fprPreferredReadReplica p)),
         if flexible then wseq [Ok (wCompactBytes (Some (or_nil (fprRecordSet p)))), tags_w True]
         else case fprRecordSet p of None \<Rightarrow> i32w 0
              | Some r \<Rightarrow> wseq [i32w (i32 (int (length r))), Ok r]])"

definition enc_fetch_topic_response :: "int \<Rightarrow> fetch_topic_response \<Rightarrow> writer" where
  "enc_fetch_topic_response version t =
     (let flexible = version \<ge> 12 in wseq
        [if flexible then Ok (wUUID (ftrTopicID t)) else wString (ftrName t),
         arr_w flexible (enc_fetch_partition_response version) (ftrPartitions t), tags_w flexible])"

definition EncodeFetchResponse :: "fetch_response \<Rightarrow> int \<Rightarrow> bytes outcome" where
  "EncodeFetchResponse resp version =
     (if version < 1 \<or> version > 13 then Err (ErrText ''fetch response version not supported'')
      else let flexible = version \<ge> 12 in wseq
        [i32w (ferCorrelationID resp), tags_w flexible, i32w (ferThrottleMs resp),
         if version \<ge> 7 then wseq [i16w (ferErrorCode resp), i32w (ferSessionID resp)]
         else if ferErrorCode resp \<noteq> 0 \<or> ferSessionID resp \<noteq> 0
         then Err (ErrText ''fetch version cannot include session fields'') else Ok [],
         arr_w flexible (enc_fetch_topic_response version) (ferTopics resp), tags_w flexible])"

definition EncodeCreateTopicsResponse :: "create_topics_response \<Rightarrow> int \<Rightarrow> bytes outcome" where
  "EncodeCreateTopicsResponse resp version =
     (if version < 0 \<or> version > 2 then Err (ErrText ''create topics response version not supported'')
      else wseq
        [i32w (cterCorrelationID resp), wif (version \<ge> 2) (i32w (cterThrottleMs resp)),
         arr_w False (\<lambda>t. wseq [wString (ctsName t), i16w (ctsErrorCode t),
           wif (version \<ge> 1) (wString (ctsErrorMessage t))]) (cterTopics resp)])"

definition EncodeDeleteTopicsResponse :: "delete_topics_response \<Rightarrow> int \<Rightarrow> bytes outcome" where
  "EncodeDeleteTopicsResponse resp version =
     (if version < 0 \<or> version > 2 then Err (ErrText ''delete topics response version not supported'')
      else wseq
        [i32w (dterCorrelationID resp), wif (version \<ge> 1) (i32w (dterThrottleMs resp)),
         arr_w False (\<lambda>t. wseq [wString (dtsName t), i16w (dtsErrorCode t)]) (dterTopics resp)])"

definition enc_list_offsets_partition :: "int \<Rightarrow> list_offsets_partition_response \<Rightarrow> writer" where
  "enc_list_offsets_partition version p =
     wseq ([i32w (lprPartition p), i16w (lprErrorCode p)] @
       (if version = 0 then [arr_w False i64w (lprOldStyleOffsets p)]
        else [i64w (lprTimestamp p), i64w (lprOffset p), wif (version \<ge> 4) (i32w (lprLeaderEpoch p))]))"

definition EncodeListOffsetsResponse :: "int \<Rightarrow> list_offsets_response \<Rightarrow> bytes outcome" where
  "EncodeListOffsetsResponse version resp =
     (if version < 0 \<or> version > 4 then Err (ErrText ''list offsets response version not supported'')
      else wseq
        [i32w (lorrCorrelationID resp), wif (version \<ge> 2) (i32w (lorrThrottleMs resp)),
         arr_w False (\<lambda>t. wseq [wString (ltrName t),
           arr_w False (enc_list_offsets_partition version) (ltrPartitions t)]) (lorrTopics resp)])"

definition EncodeFindCoordinatorResponse :: "find_coordinator_response \<Rightarrow> int \<Rightarrow> bytes outcome" where
  "EncodeFindCoordinatorResponse resp version =
     (if version \<ge> 4 then Err (ErrText ''find coordinator version not supported'')
      else let flexible = version \<ge> 3 in wseq
        [i32w (fcrCorrelationID resp), tags_w flexible, wif (version \<ge> 1) (i32w (fcrThrottleMs resp)),
         i16w (fcrErrorCode resp), wif (version \<ge> 1) (nstr_w flexible (fcrErrorMessage resp)),
         i32w (fcrNodeID resp), str_w flexible (fcrHost resp), i32w (fcrPort resp), tags_w flexible])"

definition EncodeJoinGroupResponse :: "join_group_response \<Rightarrow> int \<Rightarrow> bytes outcome" where
  "EncodeJoinGroupResponse resp version =
     (if version \<ge> 6 then Err (ErrText ''join group response version not supported'')
      else wseq
        [i32w (jgrCorrelationID resp), wif (version \<ge> 2) (i32w (jgrThrottleMs resp)),
         i16w (jgrErrorCode resp), i32w (jgrGenerationID resp), wString (jgrProtocolName resp),
         wString (jgrLeaderID resp), wString (jgrMemberID resp),
         arr_w False (\<lambda>m. wseq [wString (jmMemberID m),
           wif (version \<ge> 5) (case jmInstanceID m of None \<Rightarrow> i16w (- 1) | Some i \<Rightarrow> wString i),
           Ok (wBytesWithLength (jmMetadata m))]) (jgrMembers resp)])"

definition EncodeSyncGroupResponse :: "sync_group_response \<Rightarrow> int \<Rightarrow> bytes outcome" where
  "EncodeSyncGroupResponse resp version =
     (if version > 5 then Err (ErrText ''sync group response version not supported'')
      else let flexible = version \<ge> 4 in wseq
        [i32w (sgrCorrelationID resp), tags_w flexible, wif (version \<ge> 1) (i32w (sgrThrottleMs resp)),
         i16w (sgrErrorCode resp),
         wif (version \<ge> 5) (wseq [nstr_w flexible (sgrProtocolType resp), nstr_w flexible (sgrProtocolName resp)]),
         if flexible then wseq [Ok (wCompactBytes (sgrAssignment resp)), tags_w True]
         else Ok (wBytesWithLength (or_nil (sgrAssignment resp)))])"

definition EncodeHeartbeatResponse :: "heartbeat_response \<Rightarrow> int \<Rightarrow> bytes outcome" where
  "EncodeHeartbeatResponse resp version =
     (if version > 4 then Err (ErrText ''heartbeat response version not supported'')
      else let flexible = version \<ge> 4 in wseq
        [i32w (hbrCorrelationID resp), tags_w flexible, wif (version \<ge> 1) (i32w (hbrThrottleMs resp)),
         i16w (hbrErrorCode resp), tags_w flexible])"

definition EncodeLeaveGroupResponse :: "leave_group_response \<Rightarrow> bytes outcome" where
  "EncodeLeaveGroupResponse resp = wseq [i32w (lgrCorrelationID resp), i16w (lgrErrorCode resp)]"

definition EncodeOffsetCommitResponse :: "offset_commit_response \<Rightarrow> bytes outcome" where
  "EncodeOffsetCommitResponse resp = wseq
     [i32w (ocmCorrelationID resp), i32w (ocmThrottleMs resp),
      arr_w False (\<lambda>t. wseq [wString (ocsName t),
        arr_w False (\<lambda>p. wseq [i32w (ocpPartition p), i16w (ocpErrorCode p)]) (ocsPartitions t)]) (ocmTopics resp)]"

definition enc_offset_fetch_partition :: "int \<Rightarrow> offset_fetch_partition_response \<Rightarrow> writer" where
  "enc_offset_fetch_partition version p = wseq
     [i32w (ofpPartition p), i64w (ofpOffset p), wif (version \<ge> 5) (i32w (ofpLeaderEpoch p)),
      wNullableString (ofpMetadata p), i16w (ofpErrorCode p)]"

definition EncodeOffsetFetchResponse :: "offset_fetch_response \<Rightarrow> int \<Rightarrow> bytes outcome" where
  "EncodeOffsetFetchResponse resp version =
     (if version < 3 \<or> version > 5 then Err (ErrText ''offset fetch response version not supported'')
      else wseq
        [i32w (ofrCorrelationID resp), wif (version \<ge> 3) (i32w (ofrThrottleMs resp)),
         arr_w False (\<lambda>t. wseq [wString (ofsName t),
           arr_w False (enc_offset_fetch_partition version) (ofsPartitions t)]) (ofrTopics resp),
         wif (version \<ge> 2) (i16w (ofrErrorCode resp))])"

definition EncodeOffsetForLeaderEpochResponse :: "leader_epoch_response \<Rightarrow> int \<Rightarrow> bytes outcome" where
  "EncodeOffsetForLeaderEpochResponse resp version =
     (if version \<noteq> 3 then Err (ErrText ''offset for leader epoch response version not supported'')
      else wseq
        [i32w (lsrCorrelationID resp), wif (version \<ge> 2) (i32w (lsrThrottleMs resp)),
         arr_w False (\<lambda>t. wseq [wString (lstName t),
           arr_w False (\<lambda>p. wseq [i32w (lsPartition p), i16w (lsErrorCode p), i32w (lsLeaderEpoch p),
             i64w (lsEndOffset p)]) (lstPartitions t)]) (lsrTopics resp)])"

definition enc_describe_member :: "bool \<Rightarrow> describe_groups_member \<Rightarrow> writer" where
  "enc_describe_member flexible m =
     (if flexible then wseq
        [Ok (wCompactString (dgmMemberID m)), Ok (wCompactNullableString (dgmInstanceID m)),
         Ok (wCompactString (dgmClientID m)), Ok (wCompactString (dgmClientHost m)),
         Ok (wCompactBytes (dgmProtocolMetadata m)), Ok (wCompactBytes (dgmMemberAssignment m)), tags_w True]
      else wseq
        [wString (dgmMemberID m), wNullableString (dgmInstanceID m), wString (dgmClientID m),
         wString (dgmClientHost m), Ok (wBytesWithLength (or_nil (dgmProtocolMetadata m))),
         Ok (wBytesWithLength (or_nil (dgmMemberAssignment m)))])"

definition enc_describe_group :: "int \<Rightarrow> describe_groups_group \<Rightarrow> writer" where
  "enc_describe_group version g =
     (let flexible = version \<ge> 5 in wseq
        [i16w (dggErrorCode g), str_w flexible (dggGroupID g), str_w flexible (dggState g),
         str_w flexible (dggProtocolType g), str_w flexible (dggProtocol g),
         arr_w flexible (enc_describe_member flexible) (dggMembers g),
         wif (version \<ge> 3) (i32w (dggAuthorizedOperations g)), tags_w flexible])"

definition EncodeDescribeGroupsResponse :: "describe_groups_response \<Rightarrow> int \<Rightarrow> bytes outcome" where
  "EncodeDescribeGroupsResponse resp version =
     (if version \<noteq> 5 then Err (ErrText ''describe groups response version not supported'')
      else let flexible = version \<ge> 5 in wseq
        [i32w (dgsCorrelationID resp), tags_w flexible, wif (version \<ge> 1) (i32w (dgsThrottleMs resp)),
         arr_w flexible (enc_describe_group version) (dgsGroups resp), tags_w flexible])"

definition enc_list_group :: "int \<Rightarrow> list_groups_group \<Rightarrow> writer" where
  "enc_list_group version g =
     (if version \<ge> 3 then wseq
        [Ok (wCompactString (lggGroupID g)), Ok (wCompactString (lggProtocolType g)),
         Ok (wCompactString (lggGroupState g)), Ok (wCompactString (lggGroupType g)), tags_w True]
      else wseq
        [wString (lggGroupID g), wString (lggProtocolType g), wif (version \<ge> 4) (wString (lggGroupState g)),
         wif (version \<ge> 5) (wString (lggGroupType g))])"

definition EncodeListGroupsResponse :: "list_groups_response \<Rightarrow> int \<Rightarrow> bytes outcome" where
  "EncodeListGroupsResponse resp version =
     (if version \<noteq> 5 then Err (ErrText ''list groups response version not supported'')
      else let flexible = version \<ge> 3 in wseq
        [i32w (lgsCorrelationID resp), tags_w flexible, wif (version \<ge> 1) (i32w (lgsThrottleMs resp)),
         i16w (lgsErrorCode resp), arr_w flexible (enc_list_group version) (lgsGroups resp), tags_w flexible])"

definition enc_describe_config :: "bool \<Rightarrow> describe_configs_config \<Rightarrow> writer" where
  "enc_describe_config flexible c = wseq
     [str_w flexible (dccName c), nstr_w flexible (dccValue c), boolw (dccReadOnly c), i8w (dccSource c),
      boolw (dccIsSensitive c),
      arr_w flexible (\<lambda>s. wseq [str_w flexible (csName s), nstr_w flexible (csValue s), i8w (csSource s),
        tags_w flexible]) (dccSynonyms c),
      i8w (dccConfigType c), nstr_w flexible (dccDocumentation c), tags_w flexible]"

definition EncodeDescribeConfigsResponse :: "describe_configs_response \<Rightarrow> int \<Rightarrow> bytes outcome" where
  "EncodeDescribeConfigsResponse resp version =
     (if version \<noteq> 4 then Err (ErrText ''describe configs response version not supported'')
      else let flexible = version \<ge> 4 in wseq
        [i32w (dcqCorrelationID resp), tags_w flexible, i32w (dcqThrottleMs resp),
         arr_w flexible (\<lambda>r. wseq [i16w (dcsErrorCode r), nstr_w flexible (dcsErrorMessage r),
           i8w (dcsResourceType r), str_w flexible (dcsResourceName r),
           arr_w flexible (enc_describe_config flexible) (dcsConfigs r), tags_w flexible]) (dcqResources resp),
         tags_w flexible])"

definition EncodeAlterConfigsResponse :: "alter_configs_response \<Rightarrow> int \<Rightarrow> bytes outcome" where
  "EncodeAlterConfigsResponse resp version =
     (if version \<noteq> 1 then Err (ErrText ''alter configs response version not supported'')
      else wseq
        [i32w (acqCorrelationID resp), i32w (acqThrottleMs resp),
         arr_w False (\<lambda>r. wseq [i16w (acsErrorCode r), wNullableString (acsErrorMessage r),
           i8w (acsResourceType r), wString (acsResourceName r)]) (acqResources resp)])"

definition EncodeCreatePartitionsResponse :: "create_partitions_response \<Rightarrow> int \<Rightarrow> bytes outcome" where
  "EncodeCreatePartitionsResponse resp version =
     (if version < 0 \<or> version > 3 then Err (ErrText ''create partitions response version not supported'')
      else let flexible = version \<ge> 2 in wseq
        [i32w (cpqCorrelationID resp), tags_w flexible, i32w (cpqThrottleMs resp),
         arr_w flexible (\<lambda>t. wseq [str_w flexible (cpsName t), i16w (cpsErrorCode t),
           nstr_w flexible (cpsErrorMessage t), tags_w flexible]) (cpqTopics resp),
         tags_w flexible])"

definition EncodeDeleteGroupsResponse :: "delete_groups_response \<Rightarrow> int \<Rightarrow> bytes outcome" where
  "EncodeDeleteGroupsResponse resp version =
     (if version < 0 \<or> version > 2 then Err (ErrText ''delete groups response version not supported'')
      else let flexible = version \<ge> 2 in wseq
        [i32w (deqCorrelationID resp), tags_w flexible, i32w (deqThrottleMs resp),
         arr_w flexible (\<lambda>g. wseq [str_w flexible (degGroup g), i16w (degErrorCode g), tags_w flexible]) (deqGroups resp),
         tags_w flexible])"

definition EncodeResponse :: "bytes \<Rightarrow> bytes outcome" where
  "EncodeResponse payload =
     (if length payload > 0x7fffffff then Err (ErrText ''response too large'')
      else wseq [i32w (i32 (int (length payload))), Ok payload])"

end
