(* ===== verification/Response_Roundtrip.thy ===== *)
theory Response_Roundtrip
  imports Wire_Response Wire_Request Request_Roundtrip
begin

text \<open>
  What a client reads from the responses. The decoders are the client's side of the Kafka protocol,
  written with the readers of the wire primitives; \<open>reads p w x\<close> says that what \<open>w\<close> has written is
  read by \<open>p\<close> as \<open>x\<close>, whatever follows it.
\<close>

section \<open>Reading what was written\<close>

named_theorems reads_intros

definition reads :: "'a reader \<Rightarrow> writer \<Rightarrow> 'a \<Rightarrow> bool" where
  "reads p w x \<longleftrightarrow> (\<exists>b. w = Ok b \<and> (\<forall>r. p (b @ r) = Ok (x, r)))"

lemma reads_done [reads_intros]: "x = y \<Longrightarrow> reads (rret x) (wseq []) y"
  by (simp add: reads_def rret_def)

lemma reads_step [reads_intros]:
  assumes "reads p w x" "reads (f x) (wseq ws) y"
  shows "reads (rbind p f) (wseq (w # ws)) y"
  using assms by (auto simp: reads_def rbind_def)

text \<open>A single write as a sequence, and a part that only some versions have.\<close>

lemma reads_single: "reads p (wseq [w]) x \<longleftrightarrow> reads p w x"
  unfolding reads_def by (cases w) auto

lemma reads_when [reads_intros]:
  "(c \<Longrightarrow> reads p w x) \<Longrightarrow> (\<not> c \<Longrightarrow> d = x) \<Longrightarrow> reads (rwhen c d p) (wif c w) x"
  by (auto simp: rwhen_def wif_def reads_def rret_def)

lemma reads_tags [reads_intros]: "reads (tags_of flexible) (tags_w flexible) ()"
  by (simp add: tags_of_def tags_w_def wif_def reads_def rret_def skip_no_tags)

lemma reads_ints [reads_intros]:
  "in_i8 a \<Longrightarrow> reads rInt8 (i8w a) a" "in_i16 a \<Longrightarrow> reads rInt16 (i16w a) a"
  "in_i32 a \<Longrightarrow> reads rInt32 (i32w a) a" "in_i64 a \<Longrightarrow> reads rInt64 (i64w a) a"
  "reads rBool (boolw t) t"
  by (simp_all add: reads_def i8w_def i16w_def i32w_def i64w_def boolw_def int8.dec_enc int16.dec_enc
      int32.dec_enc int64.dec_enc boolc.dec_enc)

lemma reads_str [reads_intros]: "short_string s \<Longrightarrow> reads rString (wString s) s"
  using str.dec_enc [of s] by (simp add: reads_def wString_Ok bytes_or_def)

lemma reads_nstr [reads_intros]: "opt_string_ok s \<Longrightarrow> reads rNullableString (wNullableString s) s"
  using nstr.dec_enc [of s]
  by (auto simp: reads_def opt_string_ok_def wNullableString_def wString_Ok bytes_or_def split: option.splits)

lemma reads_str_w [reads_intros]: "short_string s \<Longrightarrow> reads (str_of flexible) (str_w flexible s) s"
  using reads_str [of s] cstr.dec_enc [of s]
  by (auto simp: str_of_def str_w_def short_string_def) (simp add: reads_def)

lemma reads_nstr_w [reads_intros]: "opt_string_ok s \<Longrightarrow> reads (nstr_of flexible) (nstr_w flexible s) s"
  using reads_nstr [of s] dec_compact_nstr [of s] by (auto simp: nstr_of_def nstr_w_def) (simp add: reads_def)

lemma reads_uuid [reads_intros]: "length u = 16 \<Longrightarrow> reads rUUID (Ok (wUUID u)) u"
  by (simp add: reads_def uuid.dec_enc)

lemma reads_bytes [reads_intros]: "int (length b) < 2 ^ 31 \<Longrightarrow> reads rBytes (Ok (wBytesWithLength b)) b"
  by (simp add: reads_def byt.dec_enc)

lemma reads_cbytes [reads_intros]:
  "(\<And>x. b = Some x \<Longrightarrow> int (length x) < 2 ^ 31) \<Longrightarrow> reads rCompactBytes (Ok (wCompactBytes b)) b"
  using cbyt.dec_enc [of b] by (fastforce simp: reads_def)

text \<open>Arrays.\<close>

definition arr_of :: "bool \<Rightarrow> 'a reader \<Rightarrow> 'a list reader" where
  "arr_of flexible p = rbind (count_of flexible) (\<lambda>n. rmany (nat n) p)"

lemma reads_many:
  "list_all (\<lambda>x. reads p (w x) x) xs \<Longrightarrow> reads (rmany (length xs) p) (wseq (map w xs)) xs"
  by (induction xs) (auto simp: reads_def rret_def rbind_def)

lemma reads_arr [reads_intros]:
  assumes "array_ok ok xs" "\<And>x. ok x \<Longrightarrow> reads p (w x) x"
  shows "reads (arr_of flexible p) (arr_w flexible w xs) xs"
proof -
  have "list_all (\<lambda>x. reads p (w x) x) xs" using assms by (simp add: array_ok_def list_all_iff)
  from reads_many [OF this] obtain b where b: "wseq (map w xs) = Ok b" "\<And>r. rmany (length xs) p (b @ r) = Ok (xs, r)"
    by (auto simp: reads_def)
  have n: "in_i32 (int (length xs))" using assms(1) by (simp add: array_ok_def in_i32_def)
  have c: "count_of flexible ((if flexible then wCompactArrayLen (int (length xs)) else wInt32 (int (length xs))) @ r) =
      Ok (int (length xs), r)" for r
    using n assms(1) by (simp add: count_of_def dec_compact_count array_ok_def rbind_def int32.dec_enc rret_def)
  show ?thesis unfolding reads_def
    by (rule exI [of _ "(if flexible then wCompactArrayLen (int (length xs)) else wInt32 (int (length xs))) @ b"])
       (use b c n in \<open>simp add: arr_w_def arr_of_def len_w_def i32_id rbind_Ok\<close>)
qed

lemma reads_empty:
  fixes p :: "'a reader" and w :: "'a \<Rightarrow> writer"
  shows "reads (arr_of flexible p) (arr_w flexible w []) []"
  by (rule reads_arr [where ok = "\<lambda>_. False"]) (simp_all add: array_ok_def)

lemma opt_string_ok_None [simp]: "opt_string_ok None"
  by (simp add: opt_string_ok_def)

section \<open>The client's decoders\<close>

definition dec_produce_partition :: "int \<Rightarrow> produce_partition_response reader" where
  "dec_produce_partition v =
     (let flexible = v \<ge> 9 in
      rbind rInt32 (\<lambda>i. rbind rInt16 (\<lambda>e. rbind rInt64 (\<lambda>bo.
      rbind (rwhen (v \<ge> 3) 0 rInt64) (\<lambda>ts. rbind (rwhen (v \<ge> 5) 0 rInt64) (\<lambda>ls.
      rbind (rwhen (v \<ge> 8) () (rbind (arr_of flexible rInt32) (\<lambda>_. rbind (nstr_of flexible) (\<lambda>_. rret ())))) (\<lambda>_.
      rbind (tags_of flexible) (\<lambda>_.
        rret \<lparr>pprPartition = i, pprErrorCode = e, pprBaseOffset = bo, pprLogAppendTimeMs = ts,
              pprLogStartOffset = ls\<rparr>))))))))"

definition produce_response_partition_ok :: "int \<Rightarrow> produce_partition_response \<Rightarrow> bool" where
  "produce_response_partition_ok v p \<longleftrightarrow> in_i32 (pprPartition p) \<and> in_i16 (pprErrorCode p) \<and>
     in_i64 (pprBaseOffset p) \<and> in_i64 (pprLogAppendTimeMs p) \<and> in_i64 (pprLogStartOffset p) \<and>
     (v < 3 \<longrightarrow> pprLogAppendTimeMs p = 0) \<and> (v < 5 \<longrightarrow> pprLogStartOffset p = 0)"

lemma len_zero_arr: "len_w flexible 0 = arr_w flexible i32w []"
  by (simp add: arr_w_def len_w_def)

lemma reads_produce_partition:
  "produce_response_partition_ok v p \<Longrightarrow> reads (dec_produce_partition v) (enc_produce_partition_response v p) p"
  unfolding dec_produce_partition_def enc_produce_partition_response_def Let_def len_zero_arr
    produce_response_partition_ok_def
  by (elim conjE, (rule reads_intros reads_empty | simp)+)

definition dec_produce_topic :: "int \<Rightarrow> produce_topic_response reader" where
  "dec_produce_topic v =
     rbind (str_of (v \<ge> 9)) (\<lambda>n. rbind (arr_of (v \<ge> 9) (dec_produce_partition v)) (\<lambda>ps.
     rbind (tags_of (v \<ge> 9)) (\<lambda>_. rret \<lparr>ptrName = n, ptrPartitions = ps\<rparr>)))"

definition produce_response_topic_ok :: "int \<Rightarrow> produce_topic_response \<Rightarrow> bool" where
  "produce_response_topic_ok v t \<longleftrightarrow> short_string (ptrName t) \<and>
     array_ok (produce_response_partition_ok v) (ptrPartitions t)"

lemma reads_produce_topic:
  "produce_response_topic_ok v t \<Longrightarrow> reads (dec_produce_topic v) (enc_produce_topic_response v t) t"
  unfolding dec_produce_topic_def enc_produce_topic_response_def Let_def
    produce_response_topic_ok_def
  by (elim conjE, (rule reads_intros reads_produce_partition | assumption | simp)+)

definition dec_ProduceResponse :: "int \<Rightarrow> produce_response reader" where
  "dec_ProduceResponse v =
     rbind rInt32 (\<lambda>c. rbind (tags_of (v \<ge> 9)) (\<lambda>_.
     rbind (arr_of (v \<ge> 9) (dec_produce_topic v)) (\<lambda>ts.
     rbind (rwhen (v \<ge> 1) 0 rInt32) (\<lambda>th. rbind (tags_of (v \<ge> 9)) (\<lambda>_.
       rret \<lparr>prrCorrelationID = c, prrTopics = ts, prrThrottleMs = th\<rparr>)))))"

definition produce_response_ok :: "int \<Rightarrow> produce_response \<Rightarrow> bool" where
  "produce_response_ok v q \<longleftrightarrow> in_i32 (prrCorrelationID q) \<and> in_i32 (prrThrottleMs q) \<and>
     (v < 1 \<longrightarrow> prrThrottleMs q = 0) \<and> array_ok (produce_response_topic_ok v) (prrTopics q)"

lemma reads_ProduceResponse:
  "produce_response_ok v q \<Longrightarrow> reads (dec_ProduceResponse v) (EncodeProduceResponse q v) q"
  unfolding dec_ProduceResponse_def EncodeProduceResponse_def Let_def
    produce_response_ok_def
  by (elim conjE, (rule reads_intros reads_produce_topic | assumption | simp)+)

definition dec_fetch_partition_response :: "int \<Rightarrow> fetch_partition_response reader" where
  "dec_fetch_partition_response v =
     rbind rInt32 (\<lambda>i. rbind rInt16 (\<lambda>e. rbind rInt64 (\<lambda>hw.
     rbind (rwhen (v \<ge> 4) 0 rInt64) (\<lambda>lso. rbind (rwhen (v \<ge> 5) 0 rInt64) (\<lambda>ls.
     rbind (rwhen (v \<ge> 4) [] (arr_of (v \<ge> 12) (rbind rInt64 (\<lambda>a. rbind rInt64 (\<lambda>b.
       rret \<lparr>fatProducerID = a, fatFirstOffset = b\<rparr>))))) (\<lambda>ab.
     rbind (rwhen (v \<ge> 11) 0 rInt32) (\<lambda>pr.
     rbind (if v \<ge> 12 then rbind rCompactBytes (\<lambda>b. rbind (tags_of True) (\<lambda>_. rret b))
            else rbind rBytes (\<lambda>b. rret (Some b))) (\<lambda>rs.
       rret \<lparr>fprPartition = i, fprErrorCode = e, fprHighWatermark = hw, fprLastStableOffset = lso,
             fprLogStartOffset = ls, fprPreferredReadReplica = pr, fprRecordSet = rs,
             fprAbortedTransactions = ab\<rparr>))))))))"

definition aborted_ok :: "fetch_aborted_transaction \<Rightarrow> bool" where
  "aborted_ok a \<longleftrightarrow> in_i64 (fatProducerID a) \<and> in_i64 (fatFirstOffset a)"

definition fetch_response_partition_ok :: "int \<Rightarrow> fetch_partition_response \<Rightarrow> bool" where
  "fetch_response_partition_ok v p \<longleftrightarrow> in_i32 (fprPartition p) \<and> in_i16 (fprErrorCode p) \<and>
     in_i64 (fprHighWatermark p) \<and> in_i64 (fprLastStableOffset p) \<and> in_i64 (fprLogStartOffset p) \<and>
     in_i32 (fprPreferredReadReplica p) \<and> opt_bytes_ok (fprRecordSet p) \<and>
     array_ok aborted_ok (fprAbortedTransactions p) \<and>
     (v < 4 \<longrightarrow> fprLastStableOffset p = 0 \<and> fprAbortedTransactions p = []) \<and>
     (v < 5 \<longrightarrow> fprLogStartOffset p = 0) \<and> (v < 11 \<longrightarrow> fprPreferredReadReplica p = 0)"

lemma reads_aborted:
  "aborted_ok a \<Longrightarrow> reads (rbind rInt64 (\<lambda>a. rbind rInt64 (\<lambda>b. rret \<lparr>fatProducerID = a, fatFirstOffset = b\<rparr>)))
     (wseq [i64w (fatProducerID a), i64w (fatFirstOffset a)]) a"
  unfolding aborted_ok_def by (elim conjE, (rule reads_intros | simp)+)

lemma reads_record_set:
  assumes "opt_bytes_ok b"
  shows "reads (if v \<ge> 12 then rbind rCompactBytes (\<lambda>b. rbind (tags_of True) (\<lambda>_. rret b))
            else rbind rBytes (\<lambda>b. rret (Some b)))
     (if v \<ge> (12 :: int) then wseq [Ok (wCompactBytes (Some (or_nil b))), tags_w True]
      else case b of None \<Rightarrow> i32w 0 | Some r \<Rightarrow> wseq [i32w (i32 (int (length r))), Ok r]) b"
proof -
  from assms obtain r where r: "b = Some r" "int (length r) < 2 ^ 31"
    by (auto simp: opt_bytes_ok_def split: option.splits)
  have "wseq [i32w (i32 (int (length r))), Ok r] = Ok (wBytesWithLength r)"
    by (simp add: i32w_def wBytesWithLength_def)
  moreover have "reads (rbind rBytes (\<lambda>b. rret (Some b))) (Ok (wBytesWithLength r)) (Some r)"
    using byt.dec_enc [OF r(2)] by (simp add: reads_def rbind_Ok rret_def)
  moreover have "reads (rbind rCompactBytes (\<lambda>b. rbind (tags_of True) (\<lambda>_. rret b)))
      (wseq [Ok (wCompactBytes (Some r)), tags_w True]) (Some r)"
    using r(2) by - (rule reads_intros | simp)+
  ultimately show ?thesis by (simp add: r or_nil_def del: wseq.simps)
qed

lemma reads_fetch_partition:
  "fetch_response_partition_ok v p \<Longrightarrow> reads (dec_fetch_partition_response v) (enc_fetch_partition_response v p) p"
  unfolding dec_fetch_partition_response_def enc_fetch_partition_response_def Let_def fetch_response_partition_ok_def
  by (elim conjE, (rule reads_record_set reads_intros reads_aborted | assumption | simp)+)

definition dec_fetch_topic_response :: "int \<Rightarrow> fetch_topic_response reader" where
  "dec_fetch_topic_response v =
     rbind (if v \<ge> 12 then rbind rUUID (\<lambda>u. rret ([], u)) else rbind rString (\<lambda>n. rret (n, replicate 16 0))) (\<lambda>nu.
     rbind (arr_of (v \<ge> 12) (dec_fetch_partition_response v)) (\<lambda>ps. rbind (tags_of (v \<ge> 12)) (\<lambda>_.
       rret \<lparr>ftrName = fst nu, ftrTopicID = snd nu, ftrPartitions = ps\<rparr>)))"

definition fetch_response_topic_ok :: "int \<Rightarrow> fetch_topic_response \<Rightarrow> bool" where
  "fetch_response_topic_ok v t \<longleftrightarrow> short_string (ftrName t) \<and> length (ftrTopicID t) = 16 \<and>
     (if v \<ge> 12 then ftrName t = [] else ftrTopicID t = replicate 16 0) \<and>
     array_ok (fetch_response_partition_ok v) (ftrPartitions t)"

lemma reads_fetch_topic:
  assumes "fetch_response_topic_ok v t"
  shows "reads (dec_fetch_topic_response v) (enc_fetch_topic_response v t) t"
proof -
  have name: "reads (if v \<ge> 12 then rbind rUUID (\<lambda>u. rret ([], u)) else rbind rString (\<lambda>n. rret (n, replicate 16 0)))
     (if v \<ge> 12 then Ok (wUUID (ftrTopicID t)) else wString (ftrName t)) (ftrName t, ftrTopicID t)"
  proof (cases "v \<ge> 12")
    case True
    then show ?thesis
      using assms reads_uuid [of "ftrTopicID t"] by (simp add: fetch_response_topic_ok_def reads_def rbind_def rret_def)
  next
    case False
    then show ?thesis
      using assms reads_str [of "ftrName t"] by (auto simp: fetch_response_topic_ok_def reads_def rbind_def rret_def)
  qed
  have ok: "array_ok (fetch_response_partition_ok v) (ftrPartitions t)"
    using assms by (simp add: fetch_response_topic_ok_def)
  show ?thesis
    unfolding dec_fetch_topic_response_def enc_fetch_topic_response_def Let_def
    by (rule reads_step [OF name] reads_step [OF reads_arr, OF ok reads_fetch_partition]
        reads_step [OF reads_tags] reads_done | simp)+
qed

definition dec_FetchResponse :: "int \<Rightarrow> fetch_response reader" where
  "dec_FetchResponse v =
     rbind rInt32 (\<lambda>c. rbind (tags_of (v \<ge> 12)) (\<lambda>_. rbind rInt32 (\<lambda>th.
     rbind (rwhen (v \<ge> 7) (0, 0) (rbind rInt16 (\<lambda>e. rbind rInt32 (\<lambda>s. rret (e, s))))) (\<lambda>es.
     rbind (arr_of (v \<ge> 12) (dec_fetch_topic_response v)) (\<lambda>ts. rbind (tags_of (v \<ge> 12)) (\<lambda>_.
       rret \<lparr>ferCorrelationID = c, ferThrottleMs = th, ferErrorCode = fst es, ferSessionID = snd es,
             ferTopics = ts\<rparr>))))))"

definition fetch_response_ok :: "int \<Rightarrow> fetch_response \<Rightarrow> bool" where
  "fetch_response_ok v q \<longleftrightarrow> 1 \<le> v \<and> v \<le> 13 \<and> in_i32 (ferCorrelationID q) \<and> in_i32 (ferThrottleMs q) \<and>
     in_i16 (ferErrorCode q) \<and> in_i32 (ferSessionID q) \<and>
     (v < 7 \<longrightarrow> ferErrorCode q = 0 \<and> ferSessionID q = 0) \<and> array_ok (fetch_response_topic_ok v) (ferTopics q)"

lemma reads_session:
  assumes "in_i16 e" "in_i32 s" "v < 7 \<longrightarrow> e = 0 \<and> s = 0"
  shows "reads (rwhen (v \<ge> 7) (0, 0) (rbind rInt16 (\<lambda>e. rbind rInt32 (\<lambda>s. rret (e, s)))))
     (if v \<ge> (7 :: int) then wseq [i16w e, i32w s]
      else if e \<noteq> 0 \<or> s \<noteq> 0 then Err (ErrText ''fetch version cannot include session fields'') else Ok []) (e, s)"
proof -
  have "reads (rbind rInt16 (\<lambda>e. rbind rInt32 (\<lambda>s. rret (e, s)))) (wseq [i16w e, i32w s]) (e, s)"
    using assms(1,2) by - (rule reads_intros | simp)+
  then show ?thesis using assms(3) by (auto simp: rwhen_def) (simp add: reads_def rret_def)
qed

lemma reads_FetchResponse:
  "fetch_response_ok v q \<Longrightarrow> reads (dec_FetchResponse v) (EncodeFetchResponse q v) q"
proof (unfold fetch_response_ok_def, elim conjE)
  assume "1 \<le> v" "v \<le> 13" and a: "in_i32 (ferCorrelationID q)" "in_i32 (ferThrottleMs q)"
     "in_i16 (ferErrorCode q)" "in_i32 (ferSessionID q)" "v < 7 \<longrightarrow> ferErrorCode q = 0 \<and> ferSessionID q = 0"
     "array_ok (fetch_response_topic_ok v) (ferTopics q)"
  then have v: "\<not> (v < 1 \<or> v > 13)" by simp
  show "reads (dec_FetchResponse v) (EncodeFetchResponse q v) q"
    unfolding EncodeFetchResponse_def if_not_P [OF v] dec_FetchResponse_def Let_def
    by (insert a, (rule reads_session reads_intros reads_fetch_topic | assumption | simp)+)
qed

definition dec_join_member :: "int \<Rightarrow> join_group_member reader" where
  "dec_join_member v =
     rbind rString (\<lambda>m. rbind (rwhen (v \<ge> 5) None rNullableString) (\<lambda>i. rbind rBytes (\<lambda>b.
       rret \<lparr>jmMemberID = m, jmInstanceID = i, jmMetadata = b\<rparr>)))"

definition join_member_ok :: "int \<Rightarrow> join_group_member \<Rightarrow> bool" where
  "join_member_ok v m \<longleftrightarrow> short_string (jmMemberID m) \<and> opt_string_ok (jmInstanceID m) \<and>
     (v < 5 \<longrightarrow> jmInstanceID m = None) \<and> int (length (jmMetadata m)) < 2 ^ 31"

lemma instance_writer: "(case i of None \<Rightarrow> i16w (- 1) | Some s \<Rightarrow> wString s) = wNullableString i"
  by (simp add: wNullableString_def i16w_def split: option.splits)

lemma reads_join_member:
  "join_member_ok v m \<Longrightarrow> reads (dec_join_member v) (wseq [wString (jmMemberID m),
     wif (v \<ge> 5) (case jmInstanceID m of None \<Rightarrow> i16w (- 1) | Some i \<Rightarrow> wString i),
     Ok (wBytesWithLength (jmMetadata m))]) m"
  unfolding dec_join_member_def join_member_ok_def instance_writer
  by (elim conjE, (rule reads_intros | assumption | simp)+)

definition dec_JoinGroupResponse :: "int \<Rightarrow> join_group_response reader" where
  "dec_JoinGroupResponse v =
     rbind rInt32 (\<lambda>c. rbind (rwhen (v \<ge> 2) 0 rInt32) (\<lambda>th. rbind rInt16 (\<lambda>e. rbind rInt32 (\<lambda>g.
     rbind rString (\<lambda>pn. rbind rString (\<lambda>l. rbind rString (\<lambda>m.
     rbind (arr_of False (dec_join_member v)) (\<lambda>ms.
       rret \<lparr>jgrCorrelationID = c, jgrThrottleMs = th, jgrErrorCode = e, jgrGenerationID = g,
             jgrProtocolName = pn, jgrLeaderID = l, jgrMemberID = m, jgrMembers = ms\<rparr>))))))))"

definition join_response_ok :: "int \<Rightarrow> join_group_response \<Rightarrow> bool" where
  "join_response_ok v q \<longleftrightarrow> v \<le> 5 \<and> in_i32 (jgrCorrelationID q) \<and> in_i32 (jgrThrottleMs q) \<and>
     (v < 2 \<longrightarrow> jgrThrottleMs q = 0) \<and> in_i16 (jgrErrorCode q) \<and> in_i32 (jgrGenerationID q) \<and>
     short_string (jgrProtocolName q) \<and> short_string (jgrLeaderID q) \<and> short_string (jgrMemberID q) \<and>
     array_ok (join_member_ok v) (jgrMembers q)"

lemma reads_JoinGroupResponse:
  assumes "join_response_ok v q"
  shows "reads (dec_JoinGroupResponse v) (EncodeJoinGroupResponse q v) q"
proof -
  have v: "\<not> v \<ge> 6" using assms by (simp add: join_response_ok_def)
  show ?thesis
    using assms unfolding EncodeJoinGroupResponse_def if_not_P [OF v] dec_JoinGroupResponse_def join_response_ok_def
    by - (elim conjE, (rule reads_join_member reads_intros | assumption | simp)+)
qed

definition dec_SyncGroupResponse :: "int \<Rightarrow> sync_group_response reader" where
  "dec_SyncGroupResponse v =
     rbind rInt32 (\<lambda>c. rbind (tags_of (v \<ge> 4)) (\<lambda>_. rbind (rwhen (v \<ge> 1) 0 rInt32) (\<lambda>th. rbind rInt16 (\<lambda>e.
     rbind (rwhen (v \<ge> 5) (None, None) (rbind (nstr_of (v \<ge> 4)) (\<lambda>a. rbind (nstr_of (v \<ge> 4)) (\<lambda>b. rret (a, b))))) (\<lambda>tn.
     rbind (if v \<ge> 4 then rbind rCompactBytes (\<lambda>b. rbind (tags_of True) (\<lambda>_. rret b))
            else rbind rBytes (\<lambda>b. rret (Some b))) (\<lambda>a.
       rret \<lparr>sgrCorrelationID = c, sgrThrottleMs = th, sgrErrorCode = e, sgrProtocolType = fst tn,
             sgrProtocolName = snd tn, sgrAssignment = a\<rparr>))))))"

definition sync_response_ok :: "int \<Rightarrow> sync_group_response \<Rightarrow> bool" where
  "sync_response_ok v q \<longleftrightarrow> v \<le> 5 \<and> in_i32 (sgrCorrelationID q) \<and> in_i32 (sgrThrottleMs q) \<and>
     (v < 1 \<longrightarrow> sgrThrottleMs q = 0) \<and> in_i16 (sgrErrorCode q) \<and>
     opt_string_ok (sgrProtocolType q) \<and> opt_string_ok (sgrProtocolName q) \<and>
     (v < 5 \<longrightarrow> sgrProtocolType q = None \<and> sgrProtocolName q = None) \<and> opt_bytes_ok (sgrAssignment q)"

lemma reads_assignment:
  assumes "opt_bytes_ok b"
  shows "reads (if v \<ge> 4 then rbind rCompactBytes (\<lambda>b. rbind (tags_of True) (\<lambda>_. rret b))
            else rbind rBytes (\<lambda>b. rret (Some b)))
     (if v \<ge> (4 :: int) then wseq [Ok (wCompactBytes b), tags_w True] else Ok (wBytesWithLength (or_nil b))) b"
proof -
  from assms obtain r where r: "b = Some r" "int (length r) < 2 ^ 31"
    by (auto simp: opt_bytes_ok_def split: option.splits)
  have "reads (rbind rBytes (\<lambda>b. rret (Some b))) (Ok (wBytesWithLength r)) (Some r)"
    using byt.dec_enc [OF r(2)] by (simp add: reads_def rbind_Ok rret_def)
  moreover have "reads (rbind rCompactBytes (\<lambda>b. rbind (tags_of True) (\<lambda>_. rret b)))
      (wseq [Ok (wCompactBytes (Some r)), tags_w True]) (Some r)"
    using r(2) by - (rule reads_intros | simp)+
  ultimately show ?thesis by (simp add: r or_nil_def del: wseq.simps)
qed

lemma reads_protocol:
  assumes "opt_string_ok a" "opt_string_ok b" "v < 5 \<longrightarrow> a = None \<and> b = None"
  shows "reads (rwhen (v \<ge> 5) (None, None) (rbind (nstr_of (v \<ge> 4)) (\<lambda>a. rbind (nstr_of (v \<ge> 4)) (\<lambda>b. rret (a, b)))))
     (wif (v \<ge> (5 :: int)) (wseq [nstr_w (v \<ge> 4) a, nstr_w (v \<ge> 4) b])) (a, b)"
proof (rule reads_when)
  show "reads (rbind (nstr_of (v \<ge> 4)) (\<lambda>a. rbind (nstr_of (v \<ge> 4)) (\<lambda>b. rret (a, b))))
     (wseq [nstr_w (v \<ge> 4) a, nstr_w (v \<ge> 4) b]) (a, b)"
    using assms(1,2) by - (rule reads_intros | assumption | simp)+
  show "\<not> 5 \<le> v \<Longrightarrow> (None, None) = (a, b)" using assms(3) by simp
qed

lemma reads_SyncGroupResponse:
  assumes "sync_response_ok v q"
  shows "reads (dec_SyncGroupResponse v) (EncodeSyncGroupResponse q v) q"
proof -
  have v: "\<not> v > 5" using assms by (simp add: sync_response_ok_def)
  show ?thesis
    using assms unfolding EncodeSyncGroupResponse_def if_not_P [OF v] dec_SyncGroupResponse_def sync_response_ok_def Let_def
    by - (elim conjE, (rule reads_protocol reads_assignment reads_intros | assumption | simp)+)
qed


definition demo_fetch_response :: fetch_response where
  "demo_fetch_response = \<lparr>ferCorrelationID = 9, ferThrottleMs = 0, ferErrorCode = 0, ferSessionID = 0,
     ferTopics = [\<lparr>ftrName = ''orders'', ftrTopicID = replicate 16 0, ftrPartitions =
       [\<lparr>fprPartition = 1, fprErrorCode = 0, fprHighWatermark = 5, fprLastStableOffset = 5, fprLogStartOffset = 0,
         fprPreferredReadReplica = - 1, fprRecordSet = Some [1, 2, 3], fprAbortedTransactions = []\<rparr>]\<rparr>]\<rparr>"


end
