(* ===== verification/S3_Health.thy ===== *)
theory S3_Health
  imports Go_Base Complex_Main
begin

text \<open>
  The health monitor of the object store (\<open>broker/s3_health.go\<close>): a sliding window of samples, the
  mean latency and error rate over it, and the state derived from them. A \<open>float64\<close> is the rational
  number it stands for; the only operation on floats is a division of two counters, which
  \<open>float_div\<close> rounds to 53 bits, ties to even. The clock reading of each call is an argument.
\<close>

section \<open>Quotients of counters in double precision\<close>

text \<open>The scaling that brings the quotient of positive numbers to 53 bits.\<close>

function quotient_shift :: "nat \<Rightarrow> nat \<Rightarrow> nat \<Rightarrow> nat" where
  "quotient_shift e n s = (if 0 < e \<and> e * 2 ^ s < 2 ^ 52 * n then quotient_shift e n (Suc s) else s)"
  by pat_completeness auto
termination
proof (relation "measure (\<lambda>(e, n, s). 2 ^ 52 * n - e * 2 ^ s)")
  fix e n s :: nat assume "0 < e \<and> e * 2 ^ s < 2 ^ 52 * n"
  moreover then have "e * 2 ^ s < e * 2 ^ Suc s" by simp
  ultimately show "((e, n, Suc s), (e, n, s)) \<in> measure (\<lambda>(e, n, s). 2 ^ 52 * n - e * 2 ^ s)"
    by (simp add: diff_less_mono2)
qed simp

declare quotient_shift.simps [simp del]

definition round_even :: "nat \<Rightarrow> nat \<Rightarrow> nat" where
  "round_even a n = (let q = a div n; r = a mod n in
     if 2 * r < n then q else if n < 2 * r then q + 1 else if even q then q else q + 1)"

definition float_div :: "nat \<Rightarrow> nat \<Rightarrow> rat" where
  "float_div e n = (let s = quotient_shift e n 0 in of_nat (round_even (e * 2 ^ s) n) / 2 ^ s)"

section \<open>The monitor\<close>

datatype s3_state = S3StateHealthy | S3StateDegraded | S3StateUnavailable

record s3_health_cfg =
  shWindow :: duration
  shLatencyWarn :: duration
  shLatencyCrit :: duration
  shErrorWarn :: rat
  shErrorCrit :: rat
  shMaxSamples :: int

record s3_sample =
  smTs :: time
  smOp :: string
  smLatency :: duration
  smErr :: bool

record s3_monitor =
  smCfg :: s3_health_cfg
  smSamples :: "s3_sample list"
  smState :: s3_state
  smStateSince :: time
  smAvgLatency :: duration
  smErrorRate :: rat

record s3_snapshot =
  ssState :: s3_state
  ssSince :: time
  ssAvgLatency :: duration
  ssErrorRate :: rat

definition default_cfg :: "s3_health_cfg \<Rightarrow> s3_health_cfg" where
  "default_cfg cfg =
     \<lparr>shWindow = (if shWindow cfg \<le> 0 then 60 * second else shWindow cfg),
      shLatencyWarn = (if shLatencyWarn cfg \<le> 0 then 500 * millisecond else shLatencyWarn cfg),
      shLatencyCrit = (if shLatencyCrit cfg \<le> 0 then 3 * second else shLatencyCrit cfg),
      shErrorWarn = (if shErrorWarn cfg \<le> 0 then float_div 1 5 else shErrorWarn cfg),
      shErrorCrit = (if shErrorCrit cfg \<le> 0 then float_div 3 5 else shErrorCrit cfg),
      shMaxSamples = (if shMaxSamples cfg \<le> 0 then 512 else shMaxSamples cfg)\<rparr>"

definition NewS3HealthMonitor :: "s3_health_cfg \<Rightarrow> time \<Rightarrow> s3_monitor" where
  "NewS3HealthMonitor cfg now =
     \<lparr>smCfg = default_cfg cfg, smSamples = [], smState = S3StateHealthy, smStateSince = now,
      smAvgLatency = 0, smErrorRate = 0\<rparr>"

definition setStateLocked :: "time \<Rightarrow> s3_state \<Rightarrow> s3_monitor \<Rightarrow> s3_monitor" where
  "setStateLocked now nxt m = (if nxt = smState m then m else m\<lparr>smState := nxt, smStateSince := now\<rparr>)"

text \<open>The number of leading samples that are not after the cutoff.\<close>

fun expired_prefix :: "time \<Rightarrow> s3_sample list \<Rightarrow> nat" where
  "expired_prefix cutoff [] = 0"
| "expired_prefix cutoff (x # xs) = (if smTs x > cutoff then 0 else Suc (expired_prefix cutoff xs))"

definition truncateLocked :: "time \<Rightarrow> s3_monitor \<Rightarrow> s3_monitor" where
  "truncateLocked now m =
     (let idx = expired_prefix (now - shWindow (smCfg m)) (smSamples m) in
      if 0 < idx \<and> idx < length (smSamples m) then m\<lparr>smSamples := drop idx (smSamples m)\<rparr>
      else if length (smSamples m) \<le> idx then m\<lparr>smSamples := []\<rparr>
      else m)"

definition total_latency :: "s3_sample list \<Rightarrow> duration" where
  "total_latency xs = foldl (\<lambda>t x. i64 (t + smLatency x)) 0 xs"

definition error_count :: "s3_sample list \<Rightarrow> nat" where
  "error_count xs = length (filter smErr xs)"

definition recomputeLocked :: "time \<Rightarrow> s3_monitor \<Rightarrow> s3_monitor" where
  "recomputeLocked now m =
     (if smSamples m = [] then setStateLocked now S3StateHealthy (m\<lparr>smAvgLatency := 0, smErrorRate := 0\<rparr>)
      else
        let avg = goDiv (total_latency (smSamples m)) (int (length (smSamples m)));
            rate = float_div (error_count (smSamples m)) (length (smSamples m));
            m = m\<lparr>smAvgLatency := avg, smErrorRate := rate\<rparr>;
            nextState =
              (if avg \<ge> shLatencyCrit (smCfg m) \<or> rate \<ge> shErrorCrit (smCfg m) then S3StateUnavailable
               else if avg \<ge> shLatencyWarn (smCfg m) \<or> rate \<ge> shErrorWarn (smCfg m) then S3StateDegraded
               else S3StateHealthy)
        in setStateLocked now nextState m)"

definition RecordOperation :: "string \<Rightarrow> duration \<Rightarrow> bool \<Rightarrow> time \<Rightarrow> s3_monitor \<Rightarrow> s3_monitor" where
  "RecordOperation op latency failed now m =
     (let xs = smSamples m @ [\<lparr>smTs = now, smOp = op, smLatency = latency, smErr = failed\<rparr>];
          xs = (if int (length xs) > shMaxSamples (smCfg m)
                then drop (nat (int (length xs) - shMaxSamples (smCfg m))) xs else xs)
      in recomputeLocked now (truncateLocked now (m\<lparr>smSamples := xs\<rparr>)))"

definition RecordUpload :: "duration \<Rightarrow> bool \<Rightarrow> time \<Rightarrow> s3_monitor \<Rightarrow> s3_monitor" where
  "RecordUpload = RecordOperation ''upload''"

definition Snapshot :: "time \<Rightarrow> s3_monitor \<Rightarrow> s3_snapshot \<times> s3_monitor" where
  "Snapshot now m =
     (let m = recomputeLocked now (truncateLocked now m) in
      (\<lparr>ssState = smState m, ssSince = smStateSince m, ssAvgLatency = smAvgLatency m,
        ssErrorRate = smErrorRate m\<rparr>, m))"

definition State :: "time \<Rightarrow> s3_monitor \<Rightarrow> s3_state \<times> s3_monitor" where
  "State now m = (let m = recomputeLocked now (truncateLocked now m) in (smState m, m))"

section \<open>The window as a function of the history\<close>

text \<open>The calls on a monitor, and the samples they record.\<close>

datatype health_call = CallRecord string duration bool | CallSnapshot | CallState

fun health_step :: "time \<times> health_call \<Rightarrow> s3_monitor \<Rightarrow> s3_monitor" where
  "health_step (now, CallRecord op latency failed) m = RecordOperation op latency failed now m"
| "health_step (now, CallSnapshot) m = snd (Snapshot now m)"
| "health_step (now, CallState) m = snd (State now m)"

fun recorded :: "(time \<times> health_call) list \<Rightarrow> s3_sample list" where
  "recorded [] = []"
| "recorded ((now, CallRecord op latency failed) # cs) =
     \<lparr>smTs = now, smOp = op, smLatency = latency, smErr = failed\<rparr> # recorded cs"
| "recorded (_ # cs) = recorded cs"

definition classify :: "s3_health_cfg \<Rightarrow> s3_sample list \<Rightarrow> s3_state" where
  "classify cfg xs =
     (if xs = [] then S3StateHealthy
      else
        let avg = goDiv (total_latency xs) (int (length xs)); rate = float_div (error_count xs) (length xs) in
        if avg \<ge> shLatencyCrit cfg \<or> rate \<ge> shErrorCrit cfg then S3StateUnavailable
        else if avg \<ge> shLatencyWarn cfg \<or> rate \<ge> shErrorWarn cfg then S3StateDegraded
        else S3StateHealthy)"

text \<open>The samples that count at an instant: of the last \<open>MaxSamples\<close> recorded ones, those in the
  window.\<close>

definition window :: "s3_health_cfg \<Rightarrow> time \<Rightarrow> s3_sample list \<Rightarrow> s3_sample list" where
  "window cfg now hs = filter (\<lambda>x. smTs x > now - shWindow cfg) (drop (length hs - nat (shMaxSamples cfg)) hs)"

definition window_from :: "s3_health_cfg \<Rightarrow> time \<Rightarrow> s3_sample list \<Rightarrow> nat" where
  "window_from cfg now hs = max (length hs - nat (shMaxSamples cfg)) (expired_prefix (now - shWindow cfg) hs)"

abbreviation by_time :: "s3_sample list \<Rightarrow> bool" where
  "by_time hs \<equiv> sorted (map smTs hs)"

lemma expired_prefix_le: "expired_prefix c hs \<le> length hs"
  by (induction hs) auto

lemma expired_prefix_mono: "c \<le> d \<Longrightarrow> expired_prefix c hs \<le> expired_prefix d (hs @ ys)"
  by (induction hs) auto

lemma expired_prefix_filter: "by_time hs \<Longrightarrow> filter (\<lambda>x. smTs x > c) hs = drop (expired_prefix c hs) hs"
proof (induction hs)
  case (Cons a hs)
  have "filter (\<lambda>x. smTs x > c) hs = hs" if "smTs a > c"
    using Cons.prems that by (intro filter_True) fastforce
  with Cons show ?case by simp
qed simp

lemma expired_prefix_drop: "by_time hs \<Longrightarrow> expired_prefix c (drop j hs) = expired_prefix c hs - j"
proof (induction hs arbitrary: j)
  case (Cons x hs)
  have "expired_prefix c (drop i hs) = 0" if "smTs x > c" for i
  proof (cases "drop i hs")
    case (Cons y ys)
    then have "y \<in> set hs" by (metis in_set_dropD list.set_intros(1))
    with Cons.prems that have "smTs y > c" by fastforce
    with Cons show ?thesis by simp
  qed simp
  with Cons show ?case by (cases j) auto
qed simp

lemma window_drop:
  assumes "by_time hs"
  shows "window cfg now hs = drop (window_from cfg now hs) hs"
proof -
  have "by_time (drop k hs)" for k using assms by (metis drop_map sorted_wrt_drop)
  then show ?thesis
    using assms by (simp add: window_def window_from_def expired_prefix_filter expired_prefix_drop max_def)
qed

lemma truncate_drop: "smSamples (truncateLocked now m) =
    drop (expired_prefix (now - shWindow (smCfg m)) (smSamples m)) (smSamples m)"
  using expired_prefix_le [of "now - shWindow (smCfg m)" "smSamples m"]
  by (auto simp: truncateLocked_def Let_def)

lemma truncate_cfg [simp]: "smCfg (truncateLocked now m) = smCfg m"
  by (simp add: truncateLocked_def Let_def)

lemma recompute_simps [simp]:
  "smCfg (recomputeLocked now m) = smCfg m" "smSamples (recomputeLocked now m) = smSamples m"
  by (simp_all add: recomputeLocked_def setStateLocked_def Let_def)

lemma recompute_state: "smState (recomputeLocked now m) = classify (smCfg m) (smSamples m)"
  by (auto simp: recomputeLocked_def setStateLocked_def classify_def Let_def)

text \<open>The monitor holds the window of the history as of its last call.\<close>

definition tracks :: "s3_health_cfg \<Rightarrow> time \<Rightarrow> s3_sample list \<Rightarrow> s3_monitor \<Rightarrow> bool" where
  "tracks cfg t hs m \<longleftrightarrow> smCfg m = cfg \<and> by_time hs \<and> (\<forall>x \<in> set hs. smTs x \<le> t) \<and>
     smSamples m = drop (window_from cfg t hs) hs"

lemma tracks_truncate:
  assumes "tracks cfg t hs m" "t \<le> now"
  shows "smSamples (truncateLocked now m) = drop (window_from cfg now hs) hs"
proof -
  have "expired_prefix (t - shWindow cfg) hs \<le> expired_prefix (now - shWindow cfg) hs"
    using expired_prefix_mono [of "t - shWindow cfg" "now - shWindow cfg" hs "[]"] assms(2) by simp
  then show ?thesis
    using assms(1) by (auto simp: truncate_drop tracks_def expired_prefix_drop window_from_def max_def)
qed

lemma tracks_refresh:
  "tracks cfg t hs m \<Longrightarrow> t \<le> now \<Longrightarrow> tracks cfg now hs (recomputeLocked now (truncateLocked now m))"
  using tracks_truncate [of cfg t hs m now] by (force simp: tracks_def)

lemma tracks_record:
  assumes "tracks cfg t hs m" "t \<le> now" "0 < shMaxSamples cfg"
  shows "tracks cfg now (hs @ [\<lparr>smTs = now, smOp = op, smLatency = latency, smErr = failed\<rparr>])
    (RecordOperation op latency failed now m)"
proof -
  let ?x = "\<lparr>smTs = now, smOp = op, smLatency = latency, smErr = failed\<rparr>" let ?M = "nat (shMaxSamples cfg)"
  let ?c = "now - shWindow cfg"
  let ?J = "window_from cfg t hs"
  have J: "?J \<le> length hs" using expired_prefix_le [of "t - shWindow cfg" hs] by (simp add: window_from_def)
  have mono: "expired_prefix (t - shWindow cfg) hs \<le> expired_prefix ?c (hs @ [?x])"
    using expired_prefix_mono [of "t - shWindow cfg" ?c hs] assms(2) by simp
  have sorted: "by_time (hs @ [?x])" using assms(1,2) by (force simp: tracks_def sorted_append)
  have m: "smCfg m = cfg" "smSamples m = drop ?J hs" using assms(1) by (simp_all add: tracks_def)
  define ys where "ys = (let xs = smSamples m @ [?x] in
    if int (length xs) > shMaxSamples (smCfg m) then drop (nat (int (length xs) - shMaxSamples (smCfg m))) xs else xs)"
  have ys: "ys = drop (max ?J (Suc (length hs) - ?M)) (hs @ [?x])"
  proof -
    have cut: "nat (int k - shMaxSamples cfg) = k - ?M" for k using assms(3) by simp
    have "drop ?J hs @ [?x] = drop ?J (hs @ [?x])" using J by simp
    then have "ys = drop (length (drop ?J (hs @ [?x])) - ?M) (drop ?J (hs @ [?x]))"
      using assms(3) cut by (auto simp: ys_def m Let_def simp del: drop_append length_drop)
    also have "\<dots> = drop (max ?J (Suc (length hs) - ?M)) (hs @ [?x])"
    proof -
      have "length (drop ?J (hs @ [?x])) - ?M + ?J = max ?J (Suc (length hs) - ?M)" using J by (simp add: max_def) arith
      then show ?thesis by (simp only: drop_drop)
    qed
    finally show ?thesis .
  qed
  have r: "RecordOperation op latency failed now m = recomputeLocked now (truncateLocked now (m\<lparr>smSamples := ys\<rparr>))"
    by (simp add: RecordOperation_def ys_def Let_def)
  have "smSamples (RecordOperation op latency failed now m) = drop (expired_prefix ?c ys) ys"
    by (simp add: r truncate_drop m)
  also have "\<dots> = drop (window_from cfg now (hs @ [?x])) (hs @ [?x])"
    using mono by (simp add: ys expired_prefix_drop [OF sorted] del: drop_append)
      (auto simp: window_from_def max_def intro!: arg_cong [where f = "\<lambda>n. drop n (hs @ [?x])"])
  finally show ?thesis using sorted assms(1,2) by (force simp: tracks_def r)
qed

lemma tracks_step:
  assumes "tracks cfg t hs m" "t \<le> now" "0 < shMaxSamples cfg"
  shows "tracks cfg now (hs @ recorded [(now, c)]) (health_step (now, c) m)"
  using tracks_record [OF assms] tracks_refresh [OF assms(1,2)]
  by (cases c) (simp_all add: Snapshot_def State_def Let_def)

lemma recorded_append: "recorded (xs @ ys) = recorded xs @ recorded ys"
  by (induction xs rule: recorded.induct) auto

lemma default_cfg_bounds:
  "0 < shMaxSamples (default_cfg cfg)" "0 < shWindow (default_cfg cfg)"
  by (simp_all add: default_cfg_def second_def millisecond_def)

text \<open>A run: calls at instants that never decrease.\<close>

definition health_run :: "s3_health_cfg \<Rightarrow> time \<Rightarrow> (time \<times> health_call) list \<Rightarrow> s3_monitor" where
  "health_run cfg t cs = fold health_step cs (NewS3HealthMonitor cfg t)"

lemma tracks_run:
  assumes "sorted (t # map fst cs)"
  shows "tracks (default_cfg cfg) (last (t # map fst cs)) (recorded cs) (health_run cfg t cs)"
  using assms
proof (induction cs rule: rev_induct)
  case Nil
  then show ?case
    by (simp add: tracks_def health_run_def NewS3HealthMonitor_def window_from_def)
next
  case (snoc c cs)
  obtain now k where c: "c = (now, k)" by (cases c)
  have "sorted (t # map fst cs)" "last (t # map fst cs) \<le> now"
    using snoc.prems by (auto simp: c sorted_append last_map split: if_splits)
  with tracks_step [OF snoc.IH _ default_cfg_bounds(1), of now k] show ?case
    by (simp add: c health_run_def recorded_append)
qed

lemma health_view:
  assumes "sorted (t # map fst cs @ [now])"
  shows "smSamples (recomputeLocked now (truncateLocked now (health_run cfg t cs))) =
      window (default_cfg cfg) now (recorded cs)"
    and "smCfg (health_run cfg t cs) = default_cfg cfg"
proof -
  have s: "sorted (t # map fst cs)" "last (t # map fst cs) \<le> now"
    using assms by (auto simp: sorted_append last_map split: if_splits)
  note tr = tracks_run [OF s(1), of cfg]
  show "smCfg (health_run cfg t cs) = default_cfg cfg" using tr by (simp add: tracks_def)
  have "by_time (recorded cs)" using tr by (simp add: tracks_def)
  then show "smSamples (recomputeLocked now (truncateLocked now (health_run cfg t cs))) =
      window (default_cfg cfg) now (recorded cs)"
    using tracks_truncate [OF tr s(2)] by (simp add: window_drop)
qed

text \<open>
  C25: whatever calls were made on the monitor at instants that never decrease, the state it reports
  is the classification of the samples recorded in the window before now, of which at most the last
  \<open>MaxSamples\<close> count; when nothing was recorded for a whole window it reports healthy again.
\<close>

theorem health_state_of_window:
  assumes "sorted (t # map fst cs @ [now])"
  shows "fst (State now (health_run cfg t cs)) = classify (default_cfg cfg) (window (default_cfg cfg) now (recorded cs)) \<and>
    ssState (fst (Snapshot now (health_run cfg t cs))) =
      classify (default_cfg cfg) (window (default_cfg cfg) now (recorded cs)) \<and>
    ((\<forall>x \<in> set (recorded cs). smTs x + shWindow (default_cfg cfg) \<le> now) \<longrightarrow>
      fst (State now (health_run cfg t cs)) = S3StateHealthy)"
proof -
  have "fst (State now (health_run cfg t cs)) = classify (default_cfg cfg) (window (default_cfg cfg) now (recorded cs))"
    "ssState (fst (Snapshot now (health_run cfg t cs))) =
      classify (default_cfg cfg) (window (default_cfg cfg) now (recorded cs))"
    using health_view [OF assms, of cfg] by (simp_all add: State_def Snapshot_def Let_def recompute_state)
  moreover have "window (default_cfg cfg) now (recorded cs) = []"
    if "\<forall>x \<in> set (recorded cs). smTs x + shWindow (default_cfg cfg) \<le> now"
    using that by (fastforce simp: window_def filter_empty_conv dest: in_set_dropD)
  ultimately show ?thesis by (auto simp: classify_def)
qed

definition demo_health_cfg :: s3_health_cfg where
  "demo_health_cfg = \<lparr>shWindow = 100, shLatencyWarn = 10, shLatencyCrit = 50, shErrorWarn = 1, shErrorCrit = 1,
     shMaxSamples = 2\<rparr>"

theorem health_state_of_window_witness:
  "fst (State 30 (health_run demo_health_cfg 0 [(5, CallRecord ''get'' 90 False), (10, CallRecord ''put'' 3 False),
      (20, CallState), (25, CallRecord ''put'' 4 False)])) = S3StateHealthy"
proof -
  have "classify (default_cfg demo_health_cfg) (window (default_cfg demo_health_cfg) 30
     (recorded [(5, CallRecord ''get'' 90 False), (10, CallRecord ''put'' 3 False),
      (20, CallState), (25, CallRecord ''put'' 4 False)])) = S3StateHealthy"
    by code_simp
  with health_state_of_window [of 0 "[(5, CallRecord ''get'' 90 False), (10, CallRecord ''put'' 3 False),
      (20, CallState), (25, CallRecord ''put'' 4 False)]" 30 demo_health_cfg] show ?thesis by simp
qed

section \<open>Bounds\<close>

lemma round_even_le: "a \<le> q * n \<Longrightarrow> round_even a n \<le> q"
proof (cases "n = 0")
  case False
  assume a: "a \<le> q * n"
  have "a div n \<le> q" using a by (metis False div_le_mono div_mult_self_is_m neq0_conv)
  moreover have "a div n = q \<Longrightarrow> a mod n = 0"
    using a by (metis False mult.commute add_le_cancel_left add_0_right div_mult_mod_eq le_zero_eq)
  ultimately show ?thesis using False by (cases "a div n = q") (auto simp: round_even_def Let_def)
qed (simp add: round_even_def)

lemma float_div_range: "e \<le> n \<Longrightarrow> 0 \<le> float_div e n \<and> float_div e n \<le> 1"
proof -
  assume "e \<le> n"
  then have "round_even (e * 2 ^ s) n \<le> 2 ^ s" for s by (intro round_even_le) (simp add: mult.commute)
  then have "(of_nat (round_even (e * 2 ^ s) n) :: rat) \<le> of_nat (2 ^ s)" for s by (simp only: of_nat_le_iff)
  then show ?thesis by (simp add: float_div_def Let_def)
qed

lemma float_div_self: "0 < n \<Longrightarrow> float_div n n = 1"
  by (simp add: float_div_def round_even_def Let_def)

text \<open>
  The monitor never keeps more than \<open>MaxSamples\<close> samples and its error rate is always between 0
  and 1; when every sample of the window failed and the critical rate is at most 1 it reports the
  store unavailable.
\<close>

theorem health_bounds:
  assumes "sorted (t # map fst cs @ [now])"
  shows "int (length (smSamples (health_run cfg t cs))) \<le> shMaxSamples (default_cfg cfg) \<and>
    0 \<le> ssErrorRate (fst (Snapshot now (health_run cfg t cs))) \<and>
    ssErrorRate (fst (Snapshot now (health_run cfg t cs))) \<le> 1 \<and>
    (window (default_cfg cfg) now (recorded cs) \<noteq> [] \<and> list_all smErr (window (default_cfg cfg) now (recorded cs)) \<and>
       shErrorCrit (default_cfg cfg) \<le> 1 \<longrightarrow> fst (State now (health_run cfg t cs)) = S3StateUnavailable)"
proof (intro conjI impI)
  let ?W = "window (default_cfg cfg) now (recorded cs)"
  have s: "sorted (t # map fst cs)" using assms by (auto simp: sorted_append)
  have "length (smSamples (health_run cfg t cs)) \<le> nat (shMaxSamples (default_cfg cfg))"
    using tracks_run [OF s, of cfg] by (auto simp: tracks_def window_from_def)
  then show "int (length (smSamples (health_run cfg t cs))) \<le> shMaxSamples (default_cfg cfg)"
    using default_cfg_bounds(1) [of cfg] by linarith
  have "error_count ?W \<le> length ?W" by (simp add: error_count_def)
  note rate = float_div_range [OF this]
  show "0 \<le> ssErrorRate (fst (Snapshot now (health_run cfg t cs)))"
    "ssErrorRate (fst (Snapshot now (health_run cfg t cs))) \<le> 1"
    using rate health_view [OF assms, of cfg]
    by (auto simp: Snapshot_def Let_def recomputeLocked_def setStateLocked_def split: if_splits)
  assume *: "?W \<noteq> [] \<and> list_all smErr ?W \<and> shErrorCrit (default_cfg cfg) \<le> 1"
  then have "error_count ?W = length ?W" by (simp add: error_count_def list_all_iff filter_True)
  with * float_div_self [of "length ?W"] show "fst (State now (health_run cfg t cs)) = S3StateUnavailable"
    using health_view [OF assms, of cfg] by (simp add: State_def Let_def recompute_state classify_def)
qed

theorem health_bounds_witness:
  "fst (State 30 (health_run demo_health_cfg 0
      [(5, CallRecord ''get'' 1 False), (10, CallRecord ''put'' 1 True), (25, CallRecord ''put'' 1 True)])) = S3StateUnavailable"
proof -
  let ?cs = "[(5, CallRecord ''get'' 1 False), (10, CallRecord ''put'' 1 True), (25, CallRecord ''put'' 1 True)]"
  have "window (default_cfg demo_health_cfg) 30 (recorded ?cs) \<noteq> [] \<and>
     list_all smErr (window (default_cfg demo_health_cfg) 30 (recorded ?cs)) \<and>
     shErrorCrit (default_cfg demo_health_cfg) \<le> 1"
    by code_simp
  with health_bounds [of 0 ?cs 30 demo_health_cfg] show ?thesis by simp
qed

end
