(* ===== verification/Topic_Id.thy ===== *)
theory Topic_Id
  imports Go_Base
begin

unbundle bit_operations_syntax

text \<open>
  Topic identifiers (\<open>metadata/topicid.go\<close>): the first 16 bytes of the SHA-1 digest of the name.
  \<open>crypto/sha1\<close> is written out: padding, message schedule and the 80 rounds of a block.
\<close>

type_synonym word32 = "32 word"

definition word32_of :: "bytes \<Rightarrow> word32" where
  "word32_of bs = word_of_int (ube bs)"

definition bytes_of_word32 :: "word32 \<Rightarrow> bytes" where
  "bytes_of_word32 w = be 4 (uint w)"

fun chunks :: "nat \<Rightarrow> nat \<Rightarrow> 'a list \<Rightarrow> 'a list list" where
  "chunks 0 n xs = []"
| "chunks (Suc k) n xs = take n xs # chunks k n (drop n xs)"

definition sha1_pad :: "bytes \<Rightarrow> bytes" where
  "sha1_pad m = (let l = length m; z = (119 - l mod 64) mod 64 in
     m @ [0x80] @ replicate z 0 @ be 8 (8 * int l))"

text \<open>The schedule is kept newest first.\<close>

fun sha1_extend :: "nat \<Rightarrow> word32 list \<Rightarrow> word32 list" where
  "sha1_extend 0 ws = ws"
| "sha1_extend (Suc k) ws =
     sha1_extend k (word_rotl 1 (ws ! 2 XOR ws ! 7 XOR ws ! 13 XOR ws ! 15) # ws)"

definition sha1_schedule :: "bytes \<Rightarrow> word32 list" where
  "sha1_schedule block = rev (sha1_extend 64 (rev (map word32_of (chunks 16 4 block))))"

type_synonym sha1_state = "word32 \<times> word32 \<times> word32 \<times> word32 \<times> word32"

definition sha1_f :: "nat \<Rightarrow> word32 \<Rightarrow> word32 \<Rightarrow> word32 \<Rightarrow> word32" where
  "sha1_f i b c d =
     (if i < 20 then (b AND c) OR (NOT b AND d)
      else if i < 40 then b XOR c XOR d
      else if i < 60 then (b AND c) OR (b AND d) OR (c AND d)
      else b XOR c XOR d)"

definition sha1_k :: "nat \<Rightarrow> word32" where
  "sha1_k i = (if i < 20 then 0x5A827999 else if i < 40 then 0x6ED9EBA1 else if i < 60 then 0x8F1BBCDC else 0xCA62C1D6)"

fun sha1_rounds :: "nat \<Rightarrow> word32 list \<Rightarrow> sha1_state \<Rightarrow> sha1_state" where
  "sha1_rounds i [] st = st"
| "sha1_rounds i (w # ws) (a, b, c, d, e) =
     sha1_rounds (Suc i) ws (word_rotl 5 a + sha1_f i b c d + e + sha1_k i + w, a, word_rotl 30 b, c, d)"

definition sha1_block :: "sha1_state \<Rightarrow> bytes \<Rightarrow> sha1_state" where
  "sha1_block st block = (case (st, sha1_rounds 0 (sha1_schedule block) st) of
     ((a, b, c, d, e), (a', b', c', d', e')) \<Rightarrow> (a + a', b + b', c + c', d + d', e + e'))"

definition sha1 :: "bytes \<Rightarrow> bytes" where
  "sha1 m = (let p = sha1_pad m in
     case foldl sha1_block (0x67452301, 0xEFCDAB89, 0x98BADCFE, 0x10325476, 0xC3D2E1F0)
            (chunks (length p div 64) 64 p) of
       (a, b, c, d, e) \<Rightarrow> concat (map bytes_of_word32 [a, b, c, d, e]))"

definition TopicIDForName :: "string \<Rightarrow> bytes" where
  "TopicIDForName name = take 16 (sha1 (bytes_of_string name))"

lemma length_sha1: "length (sha1 m) = 20"
  by (simp add: sha1_def Let_def bytes_of_word32_def split: prod.splits)

lemma length_TopicIDForName [simp]: "length (TopicIDForName name) = 16"
  by (simp add: TopicIDForName_def length_sha1)

end
