(* ===== verification/Metadata_Store.thy ===== *)
theory Metadata_Store
  imports Wire_Response Topic_Id
begin

text \<open>
  The metadata store (\<open>metadata/store.go\<close>, \<open>metadata/codec.go\<close>): the interface \<open>Store\<close> as a record
  of operations on a state, the in-memory implementation, and the keys of the etcd schema.

  A context is represented by whether it is done when the call starts. A Go map is an association
  list with distinct keys. A time stamp in text form is represented by what \<open>time.Parse\<close> makes of
  it; \<open>RFC3339\<close> keeps whole seconds and \<open>RFC3339Nano\<close> everything.
\<close>

section \<open>Messages\<close>

datatype timestamp = TEmpty | TInstant time | TGarbage string

definition format_RFC3339 :: "time \<Rightarrow> timestamp" where
  "format_RFC3339 t = TInstant (t - t mod second)"

definition format_RFC3339Nano :: "time \<Rightarrow> timestamp" where
  "format_RFC3339Nano t = TInstant t"

record topic_config =
  tcName :: string
  tcPartitions :: int
  tcReplicationFactor :: int
  tcRetentionMs :: int
  tcRetentionBytes :: int
  tcSegmentBytes :: int
  tcCreatedAt :: timestamp
  tcConfig :: "(string \<times> string) list"

record pb_assignment =
  pbaTopic :: string
  pbaPartitions :: "int list"

record pb_member =
  pbmClientId :: string
  pbmClientHost :: string
  pbmHeartbeatAt :: timestamp
  pbmAssignments :: "pb_assignment list"
  pbmSubscriptions :: "string list"
  pbmSessionTimeoutMs :: int

record consumer_group =
  cgGroupId :: string
  cgState :: string
  cgProtocolType :: string
  cgProtocol :: string
  cgLeader :: string
  cgGenerationId :: int
  cgMembers :: "(string \<times> pb_member) list"
  cgRebalanceTimeoutMs :: int

record topic_spec =
  tsName :: string
  tsNumPartitions :: int
  tsReplicationFactor :: int

record consumer_offset =
  coGroup :: string
  coTopic :: string
  coPartition :: int
  coOffset :: int

record cluster_metadata =
  cmBrokers :: "metadata_broker list"
  cmControllerID :: int
  cmTopics :: "metadata_topic list"
  cmClusterName :: "string option"
  cmClusterID :: "string option"

section \<open>The interface\<close>

text \<open>Every operation takes whether the context is done and the state, and returns its result and
  the new state.\<close>

record 's store_ops =
  opMetadata :: "bool \<Rightarrow> string list \<Rightarrow> 's \<Rightarrow> cluster_metadata option outcome \<times> 's"
  opNextOffset :: "bool \<Rightarrow> string \<Rightarrow> int \<Rightarrow> 's \<Rightarrow> int outcome \<times> 's"
  opUpdateOffsets :: "bool \<Rightarrow> string \<Rightarrow> int \<Rightarrow> int \<Rightarrow> 's \<Rightarrow> unit outcome \<times> 's"
  opCommitConsumerOffset :: "bool \<Rightarrow> string \<Rightarrow> string \<Rightarrow> int \<Rightarrow> int \<Rightarrow> string \<Rightarrow> 's \<Rightarrow> unit outcome \<times> 's"
  opFetchConsumerOffset :: "bool \<Rightarrow> string \<Rightarrow> string \<Rightarrow> int \<Rightarrow> 's \<Rightarrow> (int \<times> string) outcome \<times> 's"
  opPutConsumerGroup :: "bool \<Rightarrow> consumer_group \<Rightarrow> 's \<Rightarrow> unit outcome \<times> 's"
  opFetchConsumerGroup :: "bool \<Rightarrow> string \<Rightarrow> 's \<Rightarrow> consumer_group option outcome \<times> 's"
  opListConsumerGroups :: "bool \<Rightarrow> 's \<Rightarrow> consumer_group list outcome \<times> 's"
  opDeleteConsumerGroup :: "bool \<Rightarrow> string \<Rightarrow> 's \<Rightarrow> unit outcome \<times> 's"

section \<open>The in-memory store\<close>

record mem_store =
  msState :: cluster_metadata
  msOffsets :: "(string \<times> int) list"
  msConsumerOffsets :: "(string \<times> int) list"
  msConsumerMeta :: "(string \<times> string) list"
  msConsumerGroups :: "(string \<times> consumer_group) list"
  msTopicConfigs :: "(string \<times> topic_config) list"

text \<open>The deep copies: values are immutable here, so only what a copy changes remains.\<close>

definition zero_id :: bytes where
  "zero_id = replicate 16 0"

definition cloneTopics :: "metadata_topic list \<Rightarrow> metadata_topic list" where
  "cloneTopics topics =
     map (\<lambda>t. if mtTopicID t = zero_id then t\<lparr>mtTopicID := TopicIDForName (mtName t)\<rparr> else t) topics"

definition cloneMetadata :: "cluster_metadata \<Rightarrow> cluster_metadata" where
  "cloneMetadata src = src\<lparr>cmTopics := cloneTopics (cmTopics src)\<rparr>"

definition clone_member :: "pb_member \<Rightarrow> pb_member" where
  "clone_member m =
     \<lparr>pbmClientId = pbmClientId m, pbmClientHost = pbmClientHost m, pbmHeartbeatAt = pbmHeartbeatAt m,
      pbmAssignments = pbmAssignments m, pbmSubscriptions = pbmSubscriptions m, pbmSessionTimeoutMs = 0\<rparr>"

definition cloneConsumerGroup :: "consumer_group \<Rightarrow> consumer_group" where
  "cloneConsumerGroup g =
     \<lparr>cgGroupId = cgGroupId g, cgState = cgState g, cgProtocolType = cgProtocolType g,
      cgProtocol = cgProtocol g, cgLeader = cgLeader g, cgGenerationId = cgGenerationId g,
      cgMembers = map (\<lambda>(k, m). (k, clone_member m)) (cgMembers g), cgRebalanceTimeoutMs = 0\<rparr>"

definition cloneTopicConfig :: "topic_config \<Rightarrow> topic_config" where
  "cloneTopicConfig cfg =
     \<lparr>tcName = tcName cfg, tcPartitions = tcPartitions cfg, tcReplicationFactor = tcReplicationFactor cfg,
      tcRetentionMs = tcRetentionMs cfg, tcRetentionBytes = tcRetentionBytes cfg,
      tcSegmentBytes = tcSegmentBytes cfg, tcCreatedAt = tcCreatedAt cfg, tcConfig = tcConfig cfg\<rparr>"

definition defaultTopicConfigFromTopic :: "metadata_topic \<Rightarrow> int \<Rightarrow> time \<Rightarrow> topic_config" where
  "defaultTopicConfigFromTopic topic replicationFactor now =
     (let rf = (if replicationFactor \<le> 0 \<and> mtPartitions topic \<noteq> []
                then i16 (int (length (mpReplicaNodes (hd (mtPartitions topic))))) else replicationFactor) in
      \<lparr>tcName = mtName topic, tcPartitions = i32 (int (length (mtPartitions topic))), tcReplicationFactor = rf,
       tcRetentionMs = - 1, tcRetentionBytes = - 1, tcSegmentBytes = 0, tcCreatedAt = format_RFC3339 now,
       tcConfig = []\<rparr>)"

definition NewInMemoryStore :: "cluster_metadata \<Rightarrow> mem_store" where
  "NewInMemoryStore state =
     \<lparr>msState = cloneMetadata state, msOffsets = [], msConsumerOffsets = [], msConsumerMeta = [],
      msConsumerGroups = [], msTopicConfigs = []\<rparr>"

definition Update :: "cluster_metadata \<Rightarrow> mem_store \<Rightarrow> mem_store" where
  "Update state s = s\<lparr>msState := cloneMetadata state\<rparr>"

definition unknown_topic :: "string \<Rightarrow> metadata_topic" where
  "unknown_topic name = \<lparr>mtErrorCode = 3, mtName = name, mtTopicID = zero_id, mtIsInternal = False,
     mtPartitions = [], mtTopicAuthorizedOperations = 0\<rparr>"

text \<open>The index keeps the last topic of a name.\<close>

definition filterTopics :: "metadata_topic list \<Rightarrow> string list \<Rightarrow> metadata_topic list" where
  "filterTopics topics requested =
     (if requested = [] then cloneTopics topics
      else
        let index = map_of (rev (map (\<lambda>t. (mtName t, t)) topics)) in
        map (\<lambda>name. case index name of Some t \<Rightarrow> t | None \<Rightarrow> unknown_topic name) requested)"

definition Metadata :: "bool \<Rightarrow> string list \<Rightarrow> mem_store \<Rightarrow> cluster_metadata option outcome \<times> mem_store" where
  "Metadata cancelled topics s =
     (if cancelled then (Err ErrContext, s)
      else
        let state = cloneMetadata (msState s) in
        if topics = [] then (Ok (Some state), s)
        else (Ok (Some (state\<lparr>cmTopics := filterTopics (cmTopics state) topics\<rparr>)), s))"

definition partitionKey :: "string \<Rightarrow> int \<Rightarrow> string" where
  "partitionKey topic part = topic @ '':'' @ fmt_d part"

definition consumerKey :: "string \<Rightarrow> string \<Rightarrow> int \<Rightarrow> string" where
  "consumerKey grp topic part = grp @ '':'' @ topic @ '':'' @ fmt_d part"

text \<open>The first topic of a name decides.\<close>

fun topicHasPartition :: "metadata_topic list \<Rightarrow> string \<Rightarrow> int \<Rightarrow> bool" where
  "topicHasPartition [] name part = False"
| "topicHasPartition (t # ts) name part =
     (if mtName t \<noteq> name then topicHasPartition ts name part
      else list_ex (\<lambda>p. mpPartitionIndex p = part) (mtPartitions t))"

definition get_or :: "'v \<Rightarrow> ('k \<times> 'v) list \<Rightarrow> 'k \<Rightarrow> 'v" where
  "get_or d m k = (case map_of m k of None \<Rightarrow> d | Some v \<Rightarrow> v)"

definition NextOffset :: "bool \<Rightarrow> string \<Rightarrow> int \<Rightarrow> mem_store \<Rightarrow> int outcome \<times> mem_store" where
  "NextOffset cancelled topic part s =
     (if cancelled then (Err ErrContext, s)
      else if \<not> topicHasPartition (cmTopics (msState s)) topic part then (Err ErrUnknownTopic, s)
      else (Ok (get_or 0 (msOffsets s) (partitionKey topic part)), s))"

definition UpdateOffsets :: "bool \<Rightarrow> string \<Rightarrow> int \<Rightarrow> int \<Rightarrow> mem_store \<Rightarrow> unit outcome \<times> mem_store" where
  "UpdateOffsets cancelled topic part lastOffset s =
     (if cancelled then (Err ErrContext, s)
      else (Ok (), s\<lparr>msOffsets := AList.update (partitionKey topic part) (i64 (lastOffset + 1)) (msOffsets s)\<rparr>))"

definition defaultLeaderID :: "mem_store \<Rightarrow> int" where
  "defaultLeaderID s = (case cmBrokers (msState s) of [] \<Rightarrow> cmControllerID (msState s) | b # _ \<Rightarrow> mbNodeID b)"

definition new_partition :: "int \<Rightarrow> int \<Rightarrow> metadata_partition" where
  "new_partition leaderID i = \<lparr>mpErrorCode = 0, mpPartitionIndex = i, mpLeaderID = leaderID, mpLeaderEpoch = 0,
     mpReplicaNodes = [leaderID], mpISRNodes = [leaderID], mpOfflineReplicas = []\<rparr>"

definition CreateTopic :: "bool \<Rightarrow> topic_spec \<Rightarrow> time \<Rightarrow> mem_store \<Rightarrow> metadata_topic outcome \<times> mem_store" where
  "CreateTopic cancelled spec now s =
     (if cancelled then (Err ErrContext, s)
      else if tsName spec = [] \<or> tsNumPartitions spec \<le> 0 then (Err ErrInvalidTopic, s)
      else
        let rf = (if tsReplicationFactor spec \<le> 0 then 1 else tsReplicationFactor spec) in
        if list_ex (\<lambda>t. mtName t = tsName spec) (cmTopics (msState s)) then (Err ErrTopicExists, s)
        else if rf > int (length (cmBrokers (msState s))) then (Err ErrInvalidTopic, s)
        else
          let newTopic = \<lparr>mtErrorCode = 0, mtName = tsName spec, mtTopicID = TopicIDForName (tsName spec),
                mtIsInternal = False,
                mtPartitions = map (new_partition (defaultLeaderID s)) [0..tsNumPartitions spec - 1],
                mtTopicAuthorizedOperations = 0\<rparr>
          in (Ok newTopic,
              s\<lparr>msState := (msState s)\<lparr>cmTopics := cmTopics (msState s) @ [newTopic]\<rparr>,
                msTopicConfigs := AList.update (tsName spec) (defaultTopicConfigFromTopic newTopic rf now) (msTopicConfigs s)\<rparr>))"

definition find_topic :: "metadata_topic list \<Rightarrow> string \<Rightarrow> metadata_topic option" where
  "find_topic ts name = find (\<lambda>t. mtName t = name) ts"

definition FetchTopicConfig :: "bool \<Rightarrow> string \<Rightarrow> time \<Rightarrow> mem_store \<Rightarrow> topic_config outcome \<times> mem_store" where
  "FetchTopicConfig cancelled topic now s =
     (if cancelled then (Err ErrContext, s)
      else case find_topic (cmTopics (msState s)) topic of
        None \<Rightarrow> (Err ErrUnknownTopic, s)
      | Some entry \<Rightarrow>
          (case map_of (msTopicConfigs s) topic of
             Some cfg \<Rightarrow> (Ok (cloneTopicConfig cfg), s)
           | None \<Rightarrow> (Ok (defaultTopicConfigFromTopic entry (i16 (int (length (mtPartitions entry)))) now), s)))"

text \<open>A successful update also fills in the partition count of the caller's message, which is the
  result here.\<close>

definition UpdateTopicConfig :: "bool \<Rightarrow> topic_config option \<Rightarrow> mem_store \<Rightarrow> topic_config outcome \<times> mem_store" where
  "UpdateTopicConfig cancelled cfg s =
     (if cancelled then (Err ErrContext, s)
      else case cfg of
        None \<Rightarrow> (Err ErrInvalidTopic, s)
      | Some cfg \<Rightarrow>
          if tcName cfg = [] then (Err ErrInvalidTopic, s)
          else (case find_topic (cmTopics (msState s)) (tcName cfg) of
             None \<Rightarrow> (Err ErrUnknownTopic, s)
           | Some topic \<Rightarrow>
               let cfg = (if tcPartitions cfg = 0 then cfg\<lparr>tcPartitions := i32 (int (length (mtPartitions topic)))\<rparr> else cfg)
               in (Ok cfg, s\<lparr>msTopicConfigs := AList.update (tcName cfg) (cloneTopicConfig cfg) (msTopicConfigs s)\<rparr>)))"

text \<open>The update of the first topic of a name in place.\<close>

fun update_topic :: "string \<Rightarrow> (metadata_topic \<Rightarrow> metadata_topic) \<Rightarrow> metadata_topic list \<Rightarrow> metadata_topic list" where
  "update_topic name f [] = []"
| "update_topic name f (t # ts) = (if mtName t = name then f t # ts else t # update_topic name f ts)"

definition CreatePartitions :: "bool \<Rightarrow> string \<Rightarrow> int \<Rightarrow> time \<Rightarrow> mem_store \<Rightarrow> unit outcome \<times> mem_store" where
  "CreatePartitions cancelled topic partitionCount now s =
     (if cancelled then (Err ErrContext, s)
      else if topic = [] \<or> partitionCount \<le> 0 then (Err ErrInvalidTopic, s)
      else case find_topic (cmTopics (msState s)) topic of
        None \<Rightarrow> (Err ErrUnknownTopic, s)
      | Some target \<Rightarrow>
          let current = i32 (int (length (mtPartitions target))) in
          if partitionCount \<le> current then (Err ErrInvalidTopic, s)
          else
            let grown = target\<lparr>mtPartitions := mtPartitions target @
                  map (new_partition (defaultLeaderID s)) [current..partitionCount - 1]\<rparr>;
                cfg = (case map_of (msTopicConfigs s) topic of
                    Some c \<Rightarrow> c
                  | None \<Rightarrow> defaultTopicConfigFromTopic grown (i16 (int (length (mtPartitions grown)))) now)
            in (Ok (),
                s\<lparr>msState := (msState s)\<lparr>cmTopics := update_topic topic (\<lambda>_. grown) (cmTopics (msState s))\<rparr>,
                  msTopicConfigs := AList.update topic (cloneTopicConfig (cfg\<lparr>tcPartitions := partitionCount\<rparr>)) (msTopicConfigs s)\<rparr>))"

fun delete_first :: "string \<Rightarrow> metadata_topic list \<Rightarrow> metadata_topic list" where
  "delete_first name [] = []"
| "delete_first name (t # ts) = (if mtName t = name then ts else t # delete_first name ts)"

definition DeleteTopic :: "bool \<Rightarrow> string \<Rightarrow> mem_store \<Rightarrow> unit outcome \<times> mem_store" where
  "DeleteTopic cancelled name s =
     (if cancelled then (Err ErrContext, s)
      else if find_topic (cmTopics (msState s)) name = None then (Err ErrUnknownTopic, s)
      else (Ok (),
            s\<lparr>msState := (msState s)\<lparr>cmTopics := delete_first name (cmTopics (msState s))\<rparr>,
              msOffsets := filter (\<lambda>(k, v). \<not> HasPrefix k (name @ '':'')) (msOffsets s)\<rparr>))"

definition CommitConsumerOffset ::
  "bool \<Rightarrow> string \<Rightarrow> string \<Rightarrow> int \<Rightarrow> int \<Rightarrow> string \<Rightarrow> mem_store \<Rightarrow> unit outcome \<times> mem_store" where
  "CommitConsumerOffset cancelled grp topic part offset meta s =
     (if cancelled then (Err ErrContext, s)
      else let key = consumerKey grp topic part in
        (Ok (), s\<lparr>msConsumerOffsets := AList.update key offset (msConsumerOffsets s),
                  msConsumerMeta := AList.update key meta (msConsumerMeta s)\<rparr>))"

definition FetchConsumerOffset ::
  "bool \<Rightarrow> string \<Rightarrow> string \<Rightarrow> int \<Rightarrow> mem_store \<Rightarrow> (int \<times> string) outcome \<times> mem_store" where
  "FetchConsumerOffset cancelled grp topic part s =
     (if cancelled then (Err ErrContext, s)
      else let key = consumerKey grp topic part in
        (Ok (get_or 0 (msConsumerOffsets s) key, get_or [] (msConsumerMeta s) key), s))"

definition parseConsumerKey :: "string \<Rightarrow> (string \<times> string \<times> int) option" where
  "parseConsumerKey key =
     (case split_on CHR '':'' key of
        [g, t, p] \<Rightarrow> (case ParseInt 32 p of None \<Rightarrow> None | Some i \<Rightarrow> Some (g, t, i))
      | _ \<Rightarrow> None)"

definition ListConsumerOffsets :: "bool \<Rightarrow> mem_store \<Rightarrow> consumer_offset list outcome \<times> mem_store" where
  "ListConsumerOffsets cancelled s =
     (if cancelled then (Err ErrContext, s)
      else (Ok (List.map_filter (\<lambda>(key, offset). case parseConsumerKey key of
                  None \<Rightarrow> None
                | Some (g, t, p) \<Rightarrow> Some \<lparr>coGroup = g, coTopic = t, coPartition = p, coOffset = offset\<rparr>)
              (msConsumerOffsets s)), s))"

definition PutConsumerGroup :: "bool \<Rightarrow> consumer_group \<Rightarrow> mem_store \<Rightarrow> unit outcome \<times> mem_store" where
  "PutConsumerGroup cancelled grp s =
     (if cancelled then (Err ErrContext, s)
      else if cgGroupId grp = [] then (Err (ErrText ''consumer group id required''), s)
      else (Ok (), s\<lparr>msConsumerGroups := AList.update (cgGroupId grp) (cloneConsumerGroup grp) (msConsumerGroups s)\<rparr>))"

definition FetchConsumerGroup :: "bool \<Rightarrow> string \<Rightarrow> mem_store \<Rightarrow> consumer_group option outcome \<times> mem_store" where
  "FetchConsumerGroup cancelled groupID s =
     (if cancelled then (Err ErrContext, s)
      else (Ok (map_option cloneConsumerGroup (map_of (msConsumerGroups s) groupID)), s))"

definition ListConsumerGroups :: "bool \<Rightarrow> mem_store \<Rightarrow> consumer_group list outcome \<times> mem_store" where
  "ListConsumerGroups cancelled s =
     (if cancelled then (Err ErrContext, s)
      else (Ok (map (\<lambda>(k, g). cloneConsumerGroup g) (msConsumerGroups s)), s))"

definition DeleteConsumerGroup :: "bool \<Rightarrow> string \<Rightarrow> mem_store \<Rightarrow> unit outcome \<times> mem_store" where
  "DeleteConsumerGroup cancelled groupID s =
     (if cancelled then (Err ErrContext, s)
      else (Ok (), s\<lparr>msConsumerGroups := AList.delete groupID (msConsumerGroups s)\<rparr>))"

definition mem_ops :: "mem_store store_ops" where
  "mem_ops = \<lparr>opMetadata = Metadata, opNextOffset = NextOffset, opUpdateOffsets = UpdateOffsets,
     opCommitConsumerOffset = CommitConsumerOffset, opFetchConsumerOffset = FetchConsumerOffset,
     opPutConsumerGroup = PutConsumerGroup, opFetchConsumerGroup = FetchConsumerGroup,
     opListConsumerGroups = ListConsumerGroups, opDeleteConsumerGroup = DeleteConsumerGroup\<rparr>"

section \<open>The keys of the etcd schema\<close>

definition topicConfigPrefix :: string where "topicConfigPrefix = ''/kafscale/topics''"
definition consumerGroupPrefix :: string where "consumerGroupPrefix = ''/kafscale/consumers''"
definition brokerRegistrationPath :: string where "brokerRegistrationPath = ''/kafscale/brokers''"
definition assignmentPath :: string where "assignmentPath = ''/kafscale/assignments''"

definition TopicConfigKey :: "string \<Rightarrow> string" where
  "TopicConfigKey topic = topicConfigPrefix @ ''/'' @ topic @ ''/config''"

definition PartitionStateKey :: "string \<Rightarrow> int \<Rightarrow> string" where
  "PartitionStateKey topic part = topicConfigPrefix @ ''/'' @ topic @ ''/partitions/'' @ fmt_d part"

definition ConsumerGroupKey :: "string \<Rightarrow> string" where
  "ConsumerGroupKey groupID = consumerGroupPrefix @ ''/'' @ groupID @ ''/metadata''"

definition ParseConsumerGroupID :: "string \<Rightarrow> string option" where
  "ParseConsumerGroupID key =
     (let prefix = consumerGroupPrefix @ ''/'' in
      if \<not> HasPrefix key prefix \<or> \<not> HasSuffix key ''/metadata'' then None
      else let groupID = TrimSuffix (TrimPrefix key prefix) ''/metadata'' in
        if groupID = [] \<or> CHR ''/'' \<in> set groupID then None else Some groupID)"

definition ConsumerOffsetKey :: "string \<Rightarrow> string \<Rightarrow> int \<Rightarrow> string" where
  "ConsumerOffsetKey groupID topic part =
     consumerGroupPrefix @ ''/'' @ groupID @ ''/offsets/'' @ topic @ ''/'' @ fmt_d part"

definition ParseConsumerOffsetKey :: "string \<Rightarrow> (string \<times> string \<times> int) option" where
  "ParseConsumerOffsetKey key =
     (let prefix = consumerGroupPrefix @ ''/'' in
      if \<not> HasPrefix key prefix then None
      else case split_on CHR ''/'' (TrimPrefix key prefix) of
        [g, lit, t, p] \<Rightarrow>
          if lit \<noteq> ''offsets'' \<or> g = [] \<or> t = [] then None
          else (case ParseInt 32 p of None \<Rightarrow> None | Some i \<Rightarrow> Some (g, t, i))
      | _ \<Rightarrow> None)"

definition BrokerRegistrationKey :: "string \<Rightarrow> string" where
  "BrokerRegistrationKey brokerID = brokerRegistrationPath @ ''/'' @ brokerID"

definition PartitionAssignmentKey :: "string \<Rightarrow> int \<Rightarrow> string" where
  "PartitionAssignmentKey topic part = assignmentPath @ ''/'' @ topic @ ''/'' @ fmt_d part"

end
