(* ===== verification/Group_Coordinator.thy ===== *)
theory Group_Coordinator
  imports Metadata_Store Wire_Request
begin

text \<open>
  The consumer group coordinator (\<open>broker/coordinator.go\<close>). The coordinator holds the groups it has
  loaded and the state of the metadata store it calls. The handlers that change a group and the
  sweep run under its lock, so each is one step; the offset and administration handlers call the
  store without the lock and are taken here as running alone. Clock readings and random numbers
  are arguments. The zero \<open>time.Time\<close> is 0. Go ranges over its maps in any order; here the order is
  that of the association list, on which no result depends but the order of topics in a metadata call.
\<close>

section \<open>Error codes\<close>

definition NONE :: int where "NONE = 0"
definition UNKNOWN_SERVER_ERROR :: int where "UNKNOWN_SERVER_ERROR = - 1"
definition ILLEGAL_GENERATION :: int where "ILLEGAL_GENERATION = 22"
definition UNKNOWN_MEMBER_ID :: int where "UNKNOWN_MEMBER_ID = 25"
definition REBALANCE_IN_PROGRESS :: int where "REBALANCE_IN_PROGRESS = 27"
definition INVALID_REQUEST :: int where "INVALID_REQUEST = 42"
definition GROUP_ID_NOT_FOUND :: int where "GROUP_ID_NOT_FOUND = 69"

lemmas error_codes = NONE_def UNKNOWN_SERVER_ERROR_def ILLEGAL_GENERATION_def UNKNOWN_MEMBER_ID_def
  REBALANCE_IN_PROGRESS_def INVALID_REQUEST_def GROUP_ID_NOT_FOUND_def

section \<open>The state of a group\<close>

definition defaultSessionTimeout :: duration where "defaultSessionTimeout = 30 * second"
definition defaultRebalanceTimeout :: duration where "defaultRebalanceTimeout = 30 * second"

datatype group_phase =
    groupStateEmpty
  | groupStatePreparingRebalance
  | groupStateCompletingRebalance
  | groupStateStable
  | groupStateDead

record member_state =
  mTopics :: "string list"
  mSessionTimeout :: duration
  mLastHeartbeat :: time
  mJoinGeneration :: int

record assignment_topic =
  atName :: string
  atPartitions :: "int list"

text \<open>A nil slice of assigned topics and a missing entry are both the empty list.\<close>

record group_state =
  gProtocolName :: string
  gProtocolType :: string
  gGenerationID :: int
  gLeaderID :: string
  gState :: group_phase
  gMembers :: "(string \<times> member_state) list"
  gAssignments :: "(string \<times> assignment_topic list) list"
  gRebalanceTimeout :: duration
  gRebalanceDeadline :: time

definition defaultCleanupInterval :: duration where "defaultCleanupInterval = 5 * second"

record 's coordinator =
  cStore :: 's
  cBroker :: metadata_broker
  cCleanupInterval :: duration
  cStopped :: bool
  cGroups :: "(string \<times> group_state) list"

definition NewGroupCoordinator :: "'s \<Rightarrow> metadata_broker \<Rightarrow> duration option \<Rightarrow> 's coordinator" where
  "NewGroupCoordinator store broker cfg =
     \<lparr>cStore = store, cBroker = broker,
      cCleanupInterval = (case cfg of None \<Rightarrow> defaultCleanupInterval | Some i \<Rightarrow> if i > 0 then i else defaultCleanupInterval),
      cStopped = False, cGroups = []\<rparr>"

definition sortedMembers :: "group_state \<Rightarrow> string list" where
  "sortedMembers s = sort (map fst (gMembers s))"

definition ensureLeader :: "group_state \<Rightarrow> group_state" where
  "ensureLeader s =
     (if gLeaderID s \<noteq> [] \<and> map_of (gMembers s) (gLeaderID s) \<noteq> None then s
      else if gMembers s = [] then s\<lparr>gLeaderID := []\<rparr>
      else s\<lparr>gLeaderID := hd (sortedMembers s)\<rparr>)"

definition startRebalance :: "duration \<Rightarrow> time \<Rightarrow> group_state \<Rightarrow> group_state" where
  "startRebalance timeout now s =
     (if gMembers s = [] then
        s\<lparr>gState := groupStateEmpty, gAssignments := [], gRebalanceDeadline := 0, gLeaderID := []\<rparr>
      else
        let rt = (if timeout > 0 then timeout
                  else if gRebalanceTimeout s = 0 then defaultRebalanceTimeout else gRebalanceTimeout s);
            s = ensureLeader (s\<lparr>gRebalanceTimeout := rt, gGenerationID := i32 (gGenerationID s + 1),
                  gState := groupStatePreparingRebalance, gAssignments := [], gRebalanceDeadline := now + rt\<rparr>)
        in s\<lparr>gMembers := map (\<lambda>(k, m). (k, m\<lparr>mJoinGeneration := 0\<rparr>)) (gMembers s)\<rparr>)"

definition bumpRebalanceDeadline :: "duration \<Rightarrow> time \<Rightarrow> group_state \<Rightarrow> group_state" where
  "bumpRebalanceDeadline timeout now s =
     (let rt = (if timeout > 0 then timeout else gRebalanceTimeout s);
          rt = (if rt = 0 then defaultRebalanceTimeout else rt)
      in s\<lparr>gRebalanceTimeout := rt, gRebalanceDeadline := now + rt\<rparr>)"

definition completeIfReady :: "group_state \<Rightarrow> bool \<times> group_state" where
  "completeIfReady s =
     (if gMembers s = [] then (False, s)
      else if list_ex (\<lambda>(k, m). mJoinGeneration m \<noteq> gGenerationID s) (gMembers s) then (False, s)
      else (True, s\<lparr>gState := groupStateCompletingRebalance, gRebalanceDeadline := 0\<rparr>))"

definition markStable :: "group_state \<Rightarrow> group_state" where
  "markStable s = (if gState s \<noteq> groupStateDead then s\<lparr>gState := groupStateStable, gRebalanceDeadline := 0\<rparr> else s)"

text \<open>The removal of the members for which \<open>gone\<close> holds, as both sweeps do it.\<close>

definition drop_members :: "(member_state \<Rightarrow> bool) \<Rightarrow> group_state \<Rightarrow> bool \<times> group_state" where
  "drop_members gone s =
     (let dropped = map fst (filter (\<lambda>(k, m). gone m) (gMembers s));
          s = s\<lparr>gMembers := filter (\<lambda>(k, m). \<not> gone m) (gMembers s),
                gAssignments := filter (\<lambda>(k, a). k \<notin> set dropped) (gAssignments s),
                gLeaderID := (if gLeaderID s \<in> set dropped then [] else gLeaderID s)\<rparr>
      in (dropped \<noteq> [], if gMembers s = [] then s\<lparr>gState := groupStateEmpty\<rparr> else s))"

definition session_expired :: "time \<Rightarrow> member_state \<Rightarrow> bool" where
  "session_expired now m \<longleftrightarrow>
     timeSub now (mLastHeartbeat m) > (if mSessionTimeout m = 0 then defaultSessionTimeout else mSessionTimeout m)"

definition removeExpiredMembers :: "time \<Rightarrow> group_state \<Rightarrow> bool \<times> group_state" where
  "removeExpiredMembers now s = drop_members (session_expired now) s"

definition dropRebalanceLaggers :: "time \<Rightarrow> group_state \<Rightarrow> bool \<times> group_state" where
  "dropRebalanceLaggers now s =
     (if gRebalanceDeadline s = 0 \<or> now < gRebalanceDeadline s then (False, s)
      else drop_members (\<lambda>m. mJoinGeneration m \<noteq> gGenerationID s) s)"

section \<open>Persistence\<close>

definition groupPhaseString :: "group_phase \<Rightarrow> string" where
  "groupPhaseString ph = (case ph of
       groupStatePreparingRebalance \<Rightarrow> ''preparing_rebalance''
     | groupStateCompletingRebalance \<Rightarrow> ''completing_rebalance''
     | groupStateStable \<Rightarrow> ''stable''
     | groupStateDead \<Rightarrow> ''dead''
     | groupStateEmpty \<Rightarrow> ''empty'')"

definition parseGroupPhase :: "string \<Rightarrow> group_phase" where
  "parseGroupPhase st =
     (if st = ''preparing_rebalance'' then groupStatePreparingRebalance
      else if st = ''completing_rebalance'' then groupStateCompletingRebalance
      else if st = ''stable'' then groupStateStable
      else if st = ''dead'' then groupStateDead
      else groupStateEmpty)"

definition build_member :: "assignment_topic list \<Rightarrow> member_state \<Rightarrow> pb_member" where
  "build_member as m =
     \<lparr>pbmClientId = [], pbmClientHost = [],
      pbmHeartbeatAt = (if mLastHeartbeat m = 0 then TEmpty else format_RFC3339Nano (mLastHeartbeat m)),
      pbmAssignments = map (\<lambda>a. \<lparr>pbaTopic = atName a, pbaPartitions = atPartitions a\<rparr>) as,
      pbmSubscriptions = mTopics m,
      pbmSessionTimeoutMs = (if mSessionTimeout m > 0 then i32 (goDiv (mSessionTimeout m) millisecond) else 0)\<rparr>"

definition buildConsumerGroup :: "string \<Rightarrow> group_state \<Rightarrow> consumer_group" where
  "buildConsumerGroup groupID s =
     \<lparr>cgGroupId = groupID, cgState = groupPhaseString (gState s), cgProtocolType = gProtocolType s,
      cgProtocol = gProtocolName s, cgLeader = gLeaderID s, cgGenerationId = gGenerationID s,
      cgMembers = map (\<lambda>(k, m). (k, build_member (get_or [] (gAssignments s) k) m)) (gMembers s),
      cgRebalanceTimeoutMs = (if gRebalanceTimeout s > 0 then i32 (goDiv (gRebalanceTimeout s) millisecond) else 0)\<rparr>"

definition restore_member :: "int \<Rightarrow> pb_member \<Rightarrow> member_state" where
  "restore_member generation m =
     \<lparr>mTopics = pbmSubscriptions m,
      mSessionTimeout = (if pbmSessionTimeoutMs m > 0 then pbmSessionTimeoutMs m * millisecond else defaultSessionTimeout),
      mLastHeartbeat = (case pbmHeartbeatAt m of TInstant t \<Rightarrow> t | _ \<Rightarrow> 0),
      mJoinGeneration = generation\<rparr>"

definition restoreGroupState :: "time \<Rightarrow> consumer_group \<Rightarrow> group_state" where
  "restoreGroupState now g =
     (let rt = (if cgRebalanceTimeoutMs g > 0 then cgRebalanceTimeoutMs g * millisecond else defaultRebalanceTimeout);
          ph = parseGroupPhase (cgState g)
      in ensureLeader
        \<lparr>gProtocolName = cgProtocol g, gProtocolType = cgProtocolType g, gGenerationID = cgGenerationId g,
         gLeaderID = cgLeader g, gState = ph,
         gMembers = map (\<lambda>(k, m). (k, restore_member (cgGenerationId g) m)) (cgMembers g),
         gAssignments = map (\<lambda>(k, m). (k, map (\<lambda>a. \<lparr>atName = pbaTopic a, atPartitions = pbaPartitions a\<rparr>) (pbmAssignments m)))
           (filter (\<lambda>(k, m). pbmAssignments m \<noteq> []) (cgMembers g)),
         gRebalanceTimeout = rt,
         gRebalanceDeadline = (if ph = groupStatePreparingRebalance \<or> ph = groupStateCompletingRebalance then now + rt else 0)\<rparr>)"

text \<open>The group a call works on: the loaded one, else the stored one, which is loaded.\<close>

definition loadGroupIfMissing ::
  "'s store_ops \<Rightarrow> bool \<Rightarrow> time \<Rightarrow> string \<Rightarrow> 's coordinator \<Rightarrow> group_state option outcome \<times> 's coordinator" where
  "loadGroupIfMissing ops ctx now groupID c =
     (case map_of (cGroups c) groupID of
        Some s \<Rightarrow> (Ok (Some s), c)
      | None \<Rightarrow>
          (case opFetchConsumerGroup ops ctx groupID (cStore c) of
             (Ok None, st) \<Rightarrow> (Ok None, c\<lparr>cStore := st\<rparr>)
           | (Ok (Some g), st) \<Rightarrow>
               let s = restoreGroupState now g in
               (Ok (Some s), c\<lparr>cStore := st, cGroups := AList.update groupID s (cGroups c)\<rparr>)
           | (Err e, st) \<Rightarrow> (Err e, c\<lparr>cStore := st\<rparr>)
           | (Panic, st) \<Rightarrow> (Panic, c\<lparr>cStore := st\<rparr>)))"

definition empty_group :: group_state where
  "empty_group = \<lparr>gProtocolName = [], gProtocolType = [], gGenerationID = 0, gLeaderID = [],
     gState = groupStateEmpty, gMembers = [], gAssignments = [], gRebalanceTimeout = defaultRebalanceTimeout,
     gRebalanceDeadline = 0\<rparr>"

definition put_group :: "string \<Rightarrow> group_state \<Rightarrow> 's coordinator \<Rightarrow> 's coordinator" where
  "put_group groupID s c = c\<lparr>cGroups := AList.update groupID s (cGroups c)\<rparr>"

definition ensureGroup ::
  "'s store_ops \<Rightarrow> bool \<Rightarrow> time \<Rightarrow> string \<Rightarrow> 's coordinator \<Rightarrow> group_state outcome \<times> 's coordinator" where
  "ensureGroup ops ctx now groupID c =
     (case loadGroupIfMissing ops ctx now groupID c of
        (Ok (Some s), c) \<Rightarrow> (Ok s, c)
      | (Ok None, c) \<Rightarrow> (Ok empty_group, put_group groupID empty_group c)
      | (Err e, c) \<Rightarrow> (Err e, c)
      | (Panic, c) \<Rightarrow> (Panic, c))"

definition persistGroupLocked ::
  "'s store_ops \<Rightarrow> bool \<Rightarrow> string \<Rightarrow> group_state option \<Rightarrow> 's coordinator \<Rightarrow> unit outcome \<times> 's coordinator" where
  "persistGroupLocked ops ctx groupID s c =
     (let (r, st) = (case s of
          None \<Rightarrow> opDeleteConsumerGroup ops ctx groupID (cStore c)
        | Some s \<Rightarrow>
            if gMembers s = [] then opDeleteConsumerGroup ops ctx groupID (cStore c)
            else opPutConsumerGroup ops ctx (buildConsumerGroup groupID s) (cStore c))
      in (r, c\<lparr>cStore := st\<rparr>))"

section \<open>Subscriptions and assignments\<close>

definition newMemberID :: "string \<Rightarrow> int \<Rightarrow> string" where
  "newMemberID groupID rnd = groupID @ ''-'' @ fmt_d rnd"

text \<open>The topic names behind the count, as long as they fit.\<close>

fun parse_topic_names :: "nat \<Rightarrow> bytes \<Rightarrow> string list" where
  "parse_topic_names 0 data = []"
| "parse_topic_names (Suc n) data =
     (if length data < 2 then []
      else
        let nameLen = nat (ube (take 2 data)); data = drop 2 data in
        if nameLen > length data then []
        else string_of_bytes (take nameLen data) # parse_topic_names n (drop nameLen data))"

definition parseSubscriptionTopics :: "join_group_protocol list \<Rightarrow> string list" where
  "parseSubscriptionTopics protocols =
     (case protocols of
        [] \<Rightarrow> []
      | p # _ \<Rightarrow>
          let data = jpMetadata p in
          if length data < 2 then []
          else if length (drop 2 data) < 4 then []
          else parse_topic_names (nat (ube (take 4 (drop 2 data)))) (drop 6 data))"

definition encodeSubscription :: "string list \<Rightarrow> bytes" where
  "encodeSubscription topics =
     be 2 0 @ be 4 (int (length topics)) @
     concat (map (\<lambda>t. be 2 (int (length t)) @ bytes_of_string t) topics) @ be 4 0"

definition encodeMemberSubscriptions :: "group_state \<Rightarrow> join_group_member list" where
  "encodeMemberSubscriptions s =
     map (\<lambda>k. \<lparr>jmMemberID = k, jmInstanceID = None,
                jmMetadata = encodeSubscription (case map_of (gMembers s) k of None \<Rightarrow> [] | Some m \<Rightarrow> mTopics m)\<rparr>)
       (sortedMembers s)"

definition encodeAssignment :: "assignment_topic list \<Rightarrow> bytes" where
  "encodeAssignment topics =
     be 2 0 @ be 4 (int (length topics)) @
     concat (map (\<lambda>t. be 2 (int (length (atName t))) @ bytes_of_string (atName t) @
       be 4 (int (length (atPartitions t))) @ concat (map (be 4) (atPartitions t))) topics) @ be 4 0"

definition memberSubscribes :: "member_state option \<Rightarrow> string \<Rightarrow> bool" where
  "memberSubscribes m topic = (case m of None \<Rightarrow> False | Some m \<Rightarrow> topic \<in> set (mTopics m))"

definition subscriptions :: "group_state \<Rightarrow> string list" where
  "subscriptions s = fold (\<lambda>t acc. if t \<in> set acc then acc else acc @ [t]) (concat (map (mTopics \<circ> snd) (gMembers s))) []"

definition collectTopicPartitions ::
  "'s store_ops \<Rightarrow> bool \<Rightarrow> group_state \<Rightarrow> 's \<Rightarrow> (string \<times> int list) list outcome \<times> 's" where
  "collectTopicPartitions ops ctx s st =
     (if subscriptions s = [] then (Ok [], st)
      else case opMetadata ops ctx (subscriptions s) st of
        (Ok (Some meta), st) \<Rightarrow>
          (Ok (fold (\<lambda>t m. let ps = map mpPartitionIndex (mtPartitions t) in
                 AList.update (mtName t) (sort (if ps = [] then [0] else ps)) m) (cmTopics meta) []), st)
      | (Panic, st) \<Rightarrow> (Panic, st)
      | (_, st) \<Rightarrow> (Ok (map (\<lambda>t. (t, [0])) (subscriptions s)), st))"

text \<open>One partition of a topic goes to the next of the eligible members.\<close>

type_synonym topic_shares = "(string \<times> (string \<times> int list) list) list"

definition give :: "string \<Rightarrow> string \<Rightarrow> int \<Rightarrow> topic_shares \<Rightarrow> topic_shares" where
  "give member topic part result =
     AList.map_entry member (\<lambda>tm. AList.update topic (get_or [] tm topic @ [part]) tm) result"

definition assign_topic :: "group_state \<Rightarrow> string \<times> int list \<Rightarrow> topic_shares \<Rightarrow> topic_shares" where
  "assign_topic s tp result =
     (case tp of (topic, partitions) \<Rightarrow>
        let eligible = filter (\<lambda>k. memberSubscribes (map_of (gMembers s) k) topic) (sortedMembers s) in
        if eligible = [] then result
        else fold (\<lambda>(idx, part). give (eligible ! (idx mod length eligible)) topic part) (enumerate 0 partitions) result)"

definition member_share :: "(string \<times> int list) list \<Rightarrow> assignment_topic list" where
  "member_share tm = map (\<lambda>name. \<lparr>atName = name, atPartitions = sort (get_or [] tm name)\<rparr>) (sort (map fst tm))"

definition shares :: "group_state \<Rightarrow> (string \<times> int list) list \<Rightarrow> topic_shares" where
  "shares s topics = fold (assign_topic s) topics (map (\<lambda>k. (k, [])) (sortedMembers s))"

definition assignPartitions ::
  "'s store_ops \<Rightarrow> bool \<Rightarrow> group_state \<Rightarrow> 's \<Rightarrow> (string \<times> assignment_topic list) list outcome \<times> 's" where
  "assignPartitions ops ctx s st =
     (case collectTopicPartitions ops ctx s st of
        (Ok topics, st) \<Rightarrow> (Ok (if gMembers s = [] then [] else map (\<lambda>(k, tm). (k, member_share tm)) (shares s topics)), st)
      | (Err e, st) \<Rightarrow> (Err e, st)
      | (Panic, st) \<Rightarrow> (Panic, st))"

section \<open>Handlers\<close>

definition FindCoordinatorResponse :: "int \<Rightarrow> int \<Rightarrow> 's coordinator \<Rightarrow> find_coordinator_response" where
  "FindCoordinatorResponse correlationID errorCode c =
     \<lparr>fcrCorrelationID = correlationID, fcrThrottleMs = 0, fcrErrorCode = errorCode, fcrErrorMessage = None,
      fcrNodeID = mbNodeID (cBroker c), fcrHost = mbHost (cBroker c), fcrPort = mbPort (cBroker c)\<rparr>"

text \<open>The member of a join: an existing one, or a new one under a fresh identifier.\<close>

definition join_member :: "int \<Rightarrow> time \<Rightarrow> join_group_request \<Rightarrow> group_state \<Rightarrow> string \<times> bool \<times> group_state" where
  "join_member rnd now req s =
     (let found = (if jgMemberID req = [] then None else map_of (gMembers s) (jgMemberID req));
          memberID = (case found of None \<Rightarrow> newMemberID (jgGroupID req) rnd | Some _ \<Rightarrow> jgMemberID req);
          m = (case found of None \<Rightarrow> \<lparr>mTopics = [], mSessionTimeout = 0, mLastHeartbeat = 0, mJoinGeneration = 0\<rparr> | Some m \<Rightarrow> m);
          m = m\<lparr>mSessionTimeout := (if jgSessionTimeoutMs req > 0 then jgSessionTimeoutMs req * millisecond
                  else if mSessionTimeout m = 0 then defaultSessionTimeout else mSessionTimeout m),
                mTopics := parseSubscriptionTopics (jgProtocols req), mLastHeartbeat := now\<rparr>
      in (memberID, found \<noteq> None, s\<lparr>gMembers := AList.update memberID m (gMembers s)\<rparr>))"

definition join_rebalance :: "string \<Rightarrow> bool \<Rightarrow> duration \<Rightarrow> time \<Rightarrow> group_state \<Rightarrow> group_state" where
  "join_rebalance memberID existed timeout now s =
     (if length (gMembers s) = 1 \<and> gState s = groupStateEmpty then startRebalance timeout now (s\<lparr>gLeaderID := memberID\<rparr>)
      else if gState s = groupStateStable \<and> \<not> existed then startRebalance timeout now s
      else if gState s = groupStateEmpty then startRebalance timeout now s
      else if gState s = groupStatePreparingRebalance \<or> gState s = groupStateCompletingRebalance
      then bumpRebalanceDeadline timeout now s
      else s)"

definition set_joined :: "string \<Rightarrow> group_state \<Rightarrow> group_state" where
  "set_joined memberID s =
     s\<lparr>gMembers := AList.map_entry memberID (\<lambda>m. m\<lparr>mJoinGeneration := gGenerationID s\<rparr>) (gMembers s)\<rparr>"

definition join_ready :: "group_state \<Rightarrow> bool \<times> group_state" where
  "join_ready s =
     (if gState s = groupStateStable \<or> gState s = groupStateCompletingRebalance then (True, s) else completeIfReady s)"

text \<open>The state changes of a join: the member it is for, whether the group is ready, the group.\<close>

definition join_state :: "int \<Rightarrow> (nat \<Rightarrow> time) \<Rightarrow> join_group_request \<Rightarrow> group_state \<Rightarrow> string \<times> bool \<times> group_state" where
  "join_state rnd clk req s =
     (let s = s\<lparr>gProtocolType := jgProtocolType req,
                gProtocolName := (case jgProtocols req of [] \<Rightarrow> gProtocolName s | p # _ \<Rightarrow> jpName p)\<rparr>;
          timeout = jgRebalanceTimeoutMs req * millisecond;
          timeout = (if timeout \<le> 0 then defaultRebalanceTimeout else timeout);
          (memberID, existed, s) = join_member rnd (clk 1) req s;
          s = set_joined memberID (join_rebalance memberID existed timeout (clk 2) s);
          s = (if gLeaderID s = [] then ensureLeader s else s);
          (ready, s) = join_ready s
      in (memberID, ready, s))"

text \<open>An error of the last store call of a handler only changes the error code of its response.\<close>

definition with_persist :: "unit outcome \<Rightarrow> 'a \<Rightarrow> 'a \<Rightarrow> 'a outcome" where
  "with_persist r resp failed = (case r of Ok _ \<Rightarrow> Ok resp | Err _ \<Rightarrow> Ok failed | Panic \<Rightarrow> Panic)"

definition JoinGroup :: "'s store_ops \<Rightarrow> bool \<Rightarrow> int \<Rightarrow> (nat \<Rightarrow> time) \<Rightarrow> join_group_request \<Rightarrow> int \<Rightarrow> 's coordinator
    \<Rightarrow> join_group_response outcome \<times> 's coordinator" where
  "JoinGroup ops ctx rnd clk req correlationID c =
     (case ensureGroup ops ctx (clk 0) (jgGroupID req) c of
        (Err e, c) \<Rightarrow> (Err e, c)
      | (Panic, c) \<Rightarrow> (Panic, c)
      | (Ok s, c) \<Rightarrow>
          let (memberID, ready, s) = join_state rnd clk req s;
              resp = \<lparr>jgrCorrelationID = correlationID, jgrThrottleMs = 0,
                jgrErrorCode = (if ready then NONE else REBALANCE_IN_PROGRESS),
                jgrGenerationID = gGenerationID s, jgrProtocolName = gProtocolName s, jgrLeaderID = gLeaderID s,
                jgrMemberID = memberID,
                jgrMembers = (if ready \<and> memberID = gLeaderID s then encodeMemberSubscriptions s else [])\<rparr>;
              (r, c) = persistGroupLocked ops ctx (jgGroupID req) (Some s) (put_group (jgGroupID req) s c)
          in (with_persist r resp (resp\<lparr>jgrErrorCode := UNKNOWN_SERVER_ERROR\<rparr>), c))"

definition sync_error :: "int \<Rightarrow> int \<Rightarrow> sync_group_response" where
  "sync_error correlationID code = \<lparr>sgrCorrelationID = correlationID, sgrThrottleMs = 0, sgrErrorCode = code,
     sgrProtocolType = None, sgrProtocolName = None, sgrAssignment = None\<rparr>"

definition some_string :: "string \<Rightarrow> string option" where
  "some_string s = (if s = [] then None else Some s)"

definition sync_finish :: "'s store_ops \<Rightarrow> bool \<Rightarrow> sync_group_request \<Rightarrow> int \<Rightarrow> group_state \<Rightarrow> 's coordinator
    \<Rightarrow> sync_group_response outcome \<times> 's coordinator" where
  "sync_finish ops ctx req correlationID s c =
     (let as = get_or [] (gAssignments s) (sgMemberID req) in
      if as = [] \<and> gState s \<noteq> groupStateStable then (Ok (sync_error correlationID REBALANCE_IN_PROGRESS), c)
      else
        let resp = \<lparr>sgrCorrelationID = correlationID, sgrThrottleMs = 0, sgrErrorCode = NONE,
              sgrProtocolType = some_string (gProtocolType s), sgrProtocolName = some_string (gProtocolName s),
              sgrAssignment = Some (encodeAssignment as)\<rparr>;
            (r, c) = persistGroupLocked ops ctx (sgGroupID req) (Some s) c
        in (with_persist r resp (resp\<lparr>sgrErrorCode := UNKNOWN_SERVER_ERROR\<rparr>), c))"

definition SyncGroup :: "'s store_ops \<Rightarrow> bool \<Rightarrow> time \<Rightarrow> sync_group_request \<Rightarrow> int \<Rightarrow> 's coordinator
    \<Rightarrow> sync_group_response outcome \<times> 's coordinator" where
  "SyncGroup ops ctx now req correlationID c =
     (case loadGroupIfMissing ops ctx now (sgGroupID req) c of
        (Err e, c) \<Rightarrow> (Err e, c)
      | (Panic, c) \<Rightarrow> (Panic, c)
      | (Ok None, c) \<Rightarrow> (Ok (sync_error correlationID UNKNOWN_MEMBER_ID), c)
      | (Ok (Some s), c) \<Rightarrow>
          if sgGenerationID req \<noteq> gGenerationID s then (Ok (sync_error correlationID ILLEGAL_GENERATION), c)
          else if map_of (gMembers s) (sgMemberID req) = None then (Ok (sync_error correlationID UNKNOWN_MEMBER_ID), c)
          else if gState s = groupStatePreparingRebalance then (Ok (sync_error correlationID REBALANCE_IN_PROGRESS), c)
          else if gState s = groupStateCompletingRebalance \<and> gAssignments s = [] then
            if sgMemberID req \<noteq> gLeaderID s then (Ok (sync_error correlationID REBALANCE_IN_PROGRESS), c)
            else (case assignPartitions ops ctx s (cStore c) of
                (Ok as, st) \<Rightarrow>
                  let s = markStable (s\<lparr>gAssignments := as\<rparr>) in
                  sync_finish ops ctx req correlationID s (put_group (sgGroupID req) s (c\<lparr>cStore := st\<rparr>))
              | (Err e, st) \<Rightarrow> (Err e, c\<lparr>cStore := st\<rparr>)
              | (Panic, st) \<Rightarrow> (Panic, c\<lparr>cStore := st\<rparr>))
          else sync_finish ops ctx req correlationID s c)"

definition heartbeat_reply :: "int \<Rightarrow> int \<Rightarrow> heartbeat_response" where
  "heartbeat_reply correlationID code = \<lparr>hbrCorrelationID = correlationID, hbrThrottleMs = 0, hbrErrorCode = code\<rparr>"

definition Heartbeat :: "'s store_ops \<Rightarrow> bool \<Rightarrow> (nat \<Rightarrow> time) \<Rightarrow> heartbeat_request \<Rightarrow> int \<Rightarrow> 's coordinator
    \<Rightarrow> heartbeat_response outcome \<times> 's coordinator" where
  "Heartbeat ops ctx clk req correlationID c =
     (case loadGroupIfMissing ops ctx (clk 0) (hbGroupID req) c of
        (Err e, c) \<Rightarrow> (Ok (heartbeat_reply correlationID UNKNOWN_SERVER_ERROR), c)
      | (Panic, c) \<Rightarrow> (Panic, c)
      | (Ok None, c) \<Rightarrow> (Ok (heartbeat_reply correlationID UNKNOWN_MEMBER_ID), c)
      | (Ok (Some s), c) \<Rightarrow>
          (case map_of (gMembers s) (hbMemberID req) of
             None \<Rightarrow> (Ok (heartbeat_reply correlationID UNKNOWN_MEMBER_ID), c)
           | Some m \<Rightarrow>
               if hbGenerationID req \<noteq> gGenerationID s then (Ok (heartbeat_reply correlationID ILLEGAL_GENERATION), c)
               else if gState s \<noteq> groupStateStable then (Ok (heartbeat_reply correlationID REBALANCE_IN_PROGRESS), c)
               else
                 let s = s\<lparr>gMembers := AList.update (hbMemberID req) (m\<lparr>mLastHeartbeat := clk 1\<rparr>) (gMembers s)\<rparr>;
                     (r, c) = persistGroupLocked ops ctx (hbGroupID req) (Some s) (put_group (hbGroupID req) s c)
                 in (with_persist r (heartbeat_reply correlationID NONE) (heartbeat_reply correlationID UNKNOWN_SERVER_ERROR), c)))"

definition leave_reply :: "int \<Rightarrow> int \<Rightarrow> leave_group_response" where
  "leave_reply correlationID code = \<lparr>lgrCorrelationID = correlationID, lgrErrorCode = code\<rparr>"

definition leave_state :: "string \<Rightarrow> time \<Rightarrow> group_state \<Rightarrow> group_state" where
  "leave_state memberID now s =
     (let s = s\<lparr>gMembers := AList.delete memberID (gMembers s), gAssignments := AList.delete memberID (gAssignments s)\<rparr> in
      if gMembers s = [] then s
      else startRebalance 0 now (s\<lparr>gLeaderID := (if gLeaderID s = memberID then [] else gLeaderID s)\<rparr>))"

definition LeaveGroup :: "'s store_ops \<Rightarrow> bool \<Rightarrow> (nat \<Rightarrow> time) \<Rightarrow> leave_group_request \<Rightarrow> int \<Rightarrow> 's coordinator
    \<Rightarrow> leave_group_response outcome \<times> 's coordinator" where
  "LeaveGroup ops ctx clk req correlationID c =
     (case loadGroupIfMissing ops ctx (clk 0) (lgGroupID req) c of
        (Err e, c) \<Rightarrow> (Ok (leave_reply correlationID UNKNOWN_SERVER_ERROR), c)
      | (Panic, c) \<Rightarrow> (Panic, c)
      | (Ok None, c) \<Rightarrow> (Ok (leave_reply correlationID UNKNOWN_MEMBER_ID), c)
      | (Ok (Some s), c) \<Rightarrow>
          if map_of (gMembers s) (lgMemberID req) = None then (Ok (leave_reply correlationID UNKNOWN_MEMBER_ID), c)
          else
            let s = leave_state (lgMemberID req) (clk 1) s;
                (r, c) = (if gMembers s = [] then
                    persistGroupLocked ops ctx (lgGroupID req) None (c\<lparr>cGroups := AList.delete (lgGroupID req) (cGroups c)\<rparr>)
                  else persistGroupLocked ops ctx (lgGroupID req) (Some s) (put_group (lgGroupID req) s c))
            in (with_persist r (leave_reply correlationID NONE) (leave_reply correlationID UNKNOWN_SERVER_ERROR), c))"

section \<open>Offsets\<close>

text \<open>A loop that calls the store once per element: it ends early only when a call panics.\<close>

fun map_calls :: "('a \<Rightarrow> 's \<Rightarrow> 'b outcome \<times> 's) \<Rightarrow> 'a list \<Rightarrow> 's \<Rightarrow> 'b list outcome \<times> 's" where
  "map_calls f [] st = (Ok [], st)"
| "map_calls f (x # xs) st =
     (case f x st of
        (Ok y, st) \<Rightarrow> (case map_calls f xs st of (Ok ys, st) \<Rightarrow> (Ok (y # ys), st) | (Err e, st) \<Rightarrow> (Err e, st) | (Panic, st) \<Rightarrow> (Panic, st))
      | (Err e, st) \<Rightarrow> (Err e, st)
      | (Panic, st) \<Rightarrow> (Panic, st))"

definition commit_partition ::
  "'s store_ops \<Rightarrow> bool \<Rightarrow> int \<Rightarrow> string \<Rightarrow> string \<Rightarrow> offset_commit_partition \<Rightarrow> 's
    \<Rightarrow> offset_commit_partition_response outcome \<times> 's" where
  "commit_partition ops ctx groupErr gid topic part st =
     (if groupErr = NONE then
        case opCommitConsumerOffset ops ctx gid topic (ocPartition part) (ocOffset part) (ocMetadata part) st of
          (r, st) \<Rightarrow>
            (with_persist r \<lparr>ocpPartition = ocPartition part, ocpErrorCode = NONE\<rparr>
               \<lparr>ocpPartition = ocPartition part, ocpErrorCode = UNKNOWN_SERVER_ERROR\<rparr>, st)
      else (Ok \<lparr>ocpPartition = ocPartition part, ocpErrorCode = groupErr\<rparr>, st))"

definition commit_topic ::
  "'s store_ops \<Rightarrow> bool \<Rightarrow> int \<Rightarrow> string \<Rightarrow> offset_commit_topic \<Rightarrow> 's \<Rightarrow> offset_commit_topic_response outcome \<times> 's" where
  "commit_topic ops ctx groupErr gid t st =
     (case map_calls (commit_partition ops ctx groupErr gid (octName t)) (octPartitions t) st of
        (r, st) \<Rightarrow> (bindO r (\<lambda>ps. Ok \<lparr>ocsName = octName t, ocsPartitions = ps\<rparr>), st))"

definition commit_error :: "offset_commit_request \<Rightarrow> group_state option \<Rightarrow> int" where
  "commit_error req s =
     (case s of
        None \<Rightarrow> UNKNOWN_MEMBER_ID
      | Some s \<Rightarrow>
          if map_of (gMembers s) (ocrMemberID req) = None then UNKNOWN_MEMBER_ID
          else if ocrGenerationID req \<noteq> gGenerationID s then ILLEGAL_GENERATION
          else NONE)"

definition OffsetCommit :: "'s store_ops \<Rightarrow> bool \<Rightarrow> time \<Rightarrow> offset_commit_request \<Rightarrow> int \<Rightarrow> 's coordinator
    \<Rightarrow> offset_commit_response outcome \<times> 's coordinator" where
  "OffsetCommit ops ctx now req correlationID c =
     (case loadGroupIfMissing ops ctx now (ocrGroupID req) c of
        (Err e, c) \<Rightarrow> (Err e, c)
      | (Panic, c) \<Rightarrow> (Panic, c)
      | (Ok s, c) \<Rightarrow>
          case map_calls (commit_topic ops ctx (commit_error req s) (ocrGroupID req)) (ocrTopics req) (cStore c) of
            (r, st) \<Rightarrow>
              (bindO r (\<lambda>ts. Ok \<lparr>ocmCorrelationID = correlationID, ocmThrottleMs = 0, ocmTopics = ts\<rparr>), c\<lparr>cStore := st\<rparr>))"

text \<open>A store that fails returns offset 0 and no metadata with its error.\<close>

definition fetch_committed ::
  "'s store_ops \<Rightarrow> bool \<Rightarrow> string \<Rightarrow> string \<Rightarrow> int \<Rightarrow> 's \<Rightarrow> offset_fetch_partition_response outcome \<times> 's" where
  "fetch_committed ops ctx gid topic part st =
     (case opFetchConsumerOffset ops ctx gid topic part st of
        (Ok (offset, md), st) \<Rightarrow>
          (Ok \<lparr>ofpPartition = part, ofpOffset = offset, ofpLeaderEpoch = - 1, ofpMetadata = Some md, ofpErrorCode = NONE\<rparr>, st)
      | (Err e, st) \<Rightarrow>
          (Ok \<lparr>ofpPartition = part, ofpOffset = 0, ofpLeaderEpoch = - 1, ofpMetadata = Some [], ofpErrorCode = UNKNOWN_SERVER_ERROR\<rparr>, st)
      | (Panic, st) \<Rightarrow> (Panic, st))"

definition fetch_committed_topic ::
  "'s store_ops \<Rightarrow> bool \<Rightarrow> string \<Rightarrow> offset_fetch_topic \<Rightarrow> 's \<Rightarrow> offset_fetch_topic_response outcome \<times> 's" where
  "fetch_committed_topic ops ctx gid t st =
     (case map_calls (fetch_committed ops ctx gid (oftName t)) (oftPartitions t) st of
        (r, st) \<Rightarrow> (bindO r (\<lambda>ps. Ok \<lparr>ofsName = oftName t, ofsPartitions = ps\<rparr>), st))"

definition OffsetFetch :: "'s store_ops \<Rightarrow> bool \<Rightarrow> offset_fetch_request \<Rightarrow> int \<Rightarrow> 's coordinator
    \<Rightarrow> offset_fetch_response outcome \<times> 's coordinator" where
  "OffsetFetch ops ctx req correlationID c =
     (case map_calls (fetch_committed_topic ops ctx (ofGroupID req)) (ofTopics req) (cStore c) of
        (r, st) \<Rightarrow>
          (bindO r (\<lambda>ts. Ok \<lparr>ofrCorrelationID = correlationID, ofrThrottleMs = 0, ofrTopics = ts, ofrErrorCode = NONE\<rparr>),
           c\<lparr>cStore := st\<rparr>))"

section \<open>Administration of groups\<close>

definition kafkaGroupState :: "string \<Rightarrow> string" where
  "kafkaGroupState st =
     (if ToLower st = ''preparing_rebalance'' then ''PreparingRebalance''
      else if ToLower st = ''completing_rebalance'' then ''CompletingRebalance''
      else if ToLower st = ''stable'' then ''Stable''
      else if ToLower st = ''dead'' then ''Dead''
      else if ToLower st = ''empty'' then ''Empty''
      else st)"

definition normalizeGroupState :: "string \<Rightarrow> string" where
  "normalizeGroupState st = filter (\<lambda>ch. ch \<noteq> CHR ''_'') (ToLower st)"

definition matchesGroupStateFilter :: "string \<Rightarrow> string list \<Rightarrow> bool" where
  "matchesGroupStateFilter st filters \<longleftrightarrow>
     filters = [] \<or> list_ex (\<lambda>f. normalizeGroupState f = normalizeGroupState st) filters"

text \<open>\<open>strings.EqualFold\<close>, on the letters of ASCII.\<close>

definition EqualFold :: "string \<Rightarrow> string \<Rightarrow> bool" where
  "EqualFold a b \<longleftrightarrow> ToLower a = ToLower b"

definition matchesGroupTypeFilter :: "string \<Rightarrow> string list \<Rightarrow> bool" where
  "matchesGroupTypeFilter groupType filters \<longleftrightarrow> filters = [] \<or> list_ex (\<lambda>f. EqualFold f groupType) filters"

definition protocol_type_or :: "string \<Rightarrow> string" where
  "protocol_type_or pt = (if pt = [] then ''consumer'' else pt)"

definition buildDescribeGroup :: "consumer_group \<Rightarrow> bool \<Rightarrow> describe_groups_group" where
  "buildDescribeGroup g includeAuthorized =
     \<lparr>dggErrorCode = NONE, dggGroupID = cgGroupId g, dggState = kafkaGroupState (cgState g),
      dggProtocolType = protocol_type_or (cgProtocolType g), dggProtocol = cgProtocol g,
      dggMembers = concat (map (\<lambda>k. case map_of (cgMembers g) k of
          None \<Rightarrow> []
        | Some m \<Rightarrow> [\<lparr>dgmMemberID = k, dgmInstanceID = None, dgmClientID = pbmClientId m, dgmClientHost = pbmClientHost m,
                      dgmProtocolMetadata = None, dgmMemberAssignment = None\<rparr>])
        (sort (map fst (cgMembers g)))),
      dggAuthorizedOperations = (if includeAuthorized then 0 else - 2147483648)\<rparr>"

definition describe_error :: "string \<Rightarrow> int \<Rightarrow> describe_groups_group" where
  "describe_error gid code = \<lparr>dggErrorCode = code, dggGroupID = gid, dggState = [], dggProtocolType = [], dggProtocol = [],
     dggMembers = [], dggAuthorizedOperations = 0\<rparr>"

definition describe_group :: "'s store_ops \<Rightarrow> bool \<Rightarrow> bool \<Rightarrow> string \<Rightarrow> 's \<Rightarrow> describe_groups_group outcome \<times> 's" where
  "describe_group ops ctx includeAuthorized gid st =
     (case opFetchConsumerGroup ops ctx gid st of
        (Err e, st) \<Rightarrow> (Ok (describe_error gid UNKNOWN_SERVER_ERROR), st)
      | (Ok None, st) \<Rightarrow> (Ok (describe_error gid GROUP_ID_NOT_FOUND), st)
      | (Ok (Some g), st) \<Rightarrow> (Ok (buildDescribeGroup g includeAuthorized), st)
      | (Panic, st) \<Rightarrow> (Panic, st))"

definition DescribeGroups :: "'s store_ops \<Rightarrow> bool \<Rightarrow> describe_groups_request \<Rightarrow> int \<Rightarrow> 's coordinator
    \<Rightarrow> describe_groups_response outcome \<times> 's coordinator" where
  "DescribeGroups ops ctx req correlationID c =
     (case map_calls (describe_group ops ctx (dsgIncludeAuthorizedOperations req)) (dsgGroups req) (cStore c) of
        (r, st) \<Rightarrow>
          (bindO r (\<lambda>gs. Ok \<lparr>dgsCorrelationID = correlationID, dgsThrottleMs = 0, dgsGroups = gs\<rparr>), c\<lparr>cStore := st\<rparr>))"

definition list_entries :: "list_groups_request \<Rightarrow> consumer_group list \<Rightarrow> list_groups_group list" where
  "list_entries req gs =
     map (\<lambda>g. \<lparr>lggGroupID = cgGroupId g, lggProtocolType = protocol_type_or (cgProtocolType g),
                lggGroupState = kafkaGroupState (cgState g), lggGroupType = ''classic''\<rparr>)
       (filter (\<lambda>g. matchesGroupStateFilter (kafkaGroupState (cgState g)) (lsgStatesFilter req) \<and>
                    matchesGroupTypeFilter ''classic'' (lsgTypesFilter req)) gs)"

definition ListGroups :: "'s store_ops \<Rightarrow> bool \<Rightarrow> list_groups_request \<Rightarrow> int \<Rightarrow> 's coordinator
    \<Rightarrow> list_groups_response outcome \<times> 's coordinator" where
  "ListGroups ops ctx req correlationID c =
     (case opListConsumerGroups ops ctx (cStore c) of
        (Err e, st) \<Rightarrow>
          (Ok \<lparr>lgsCorrelationID = correlationID, lgsThrottleMs = 0, lgsErrorCode = UNKNOWN_SERVER_ERROR, lgsGroups = []\<rparr>,
           c\<lparr>cStore := st\<rparr>)
      | (Panic, st) \<Rightarrow> (Panic, c\<lparr>cStore := st\<rparr>)
      | (Ok gs, st) \<Rightarrow>
          (Ok \<lparr>lgsCorrelationID = correlationID, lgsThrottleMs = 0, lgsErrorCode = NONE, lgsGroups = list_entries req gs\<rparr>,
           c\<lparr>cStore := st\<rparr>))"

definition deleteGroupState :: "string \<Rightarrow> 's coordinator \<Rightarrow> 's coordinator" where
  "deleteGroupState gid c = c\<lparr>cGroups := AList.delete gid (cGroups c)\<rparr>"

definition delete_group ::
  "'s store_ops \<Rightarrow> bool \<Rightarrow> string \<Rightarrow> 's coordinator \<Rightarrow> delete_groups_response_group outcome \<times> 's coordinator" where
  "delete_group ops ctx gid c =
     (let reply = \<lambda>code. Ok \<lparr>degGroup = gid, degErrorCode = code\<rparr> in
      if TrimSpace gid = [] then (reply INVALID_REQUEST, c)
      else case opFetchConsumerGroup ops ctx gid (cStore c) of
        (Err e, st) \<Rightarrow> (reply UNKNOWN_SERVER_ERROR, c\<lparr>cStore := st\<rparr>)
      | (Panic, st) \<Rightarrow> (Panic, c\<lparr>cStore := st\<rparr>)
      | (Ok None, st) \<Rightarrow> (reply GROUP_ID_NOT_FOUND, deleteGroupState gid (c\<lparr>cStore := st\<rparr>))
      | (Ok (Some g), st) \<Rightarrow>
          (case opDeleteConsumerGroup ops ctx gid st of
             (Err e, st) \<Rightarrow> (reply UNKNOWN_SERVER_ERROR, c\<lparr>cStore := st\<rparr>)
           | (Panic, st) \<Rightarrow> (Panic, c\<lparr>cStore := st\<rparr>)
           | (Ok _, st) \<Rightarrow> (reply NONE, deleteGroupState gid (c\<lparr>cStore := st\<rparr>))))"

definition DeleteGroups :: "'s store_ops \<Rightarrow> bool \<Rightarrow> delete_groups_request \<Rightarrow> int \<Rightarrow> 's coordinator
    \<Rightarrow> delete_groups_response outcome \<times> 's coordinator" where
  "DeleteGroups ops ctx req correlationID c =
     (case map_calls (delete_group ops ctx) (dgGroups req) c of
        (r, c) \<Rightarrow> (bindO r (\<lambda>gs. Ok \<lparr>deqCorrelationID = correlationID, deqThrottleMs = 0, deqGroups = gs\<rparr>), c))"

section \<open>The background sweep\<close>

text \<open>One group of the sweep; the second clock reading is the one of the rebalance it may start.\<close>

definition cleanup_group :: "'s store_ops \<Rightarrow> time \<Rightarrow> time \<Rightarrow> string \<Rightarrow> 's coordinator \<Rightarrow> unit outcome \<times> 's coordinator" where
  "cleanup_group ops now later gid c =
     (case map_of (cGroups c) gid of
        None \<Rightarrow> (Ok (), c)
      | Some s \<Rightarrow>
          let (removed, s) = removeExpiredMembers now s;
              (lost, s) = dropRebalanceLaggers now s
          in if gMembers s = [] then
               case persistGroupLocked ops False gid None (deleteGroupState gid c) of
                 (r, c) \<Rightarrow> (with_persist r () (), c)
             else if removed \<or> lost then
               let s = startRebalance 0 later s in
               case persistGroupLocked ops False gid (Some s) (put_group gid s c) of
                 (r, c) \<Rightarrow> (with_persist r () (), c)
             else (Ok (), put_group gid s c))"

definition cleanupGroups :: "'s store_ops \<Rightarrow> (nat \<Rightarrow> time) \<Rightarrow> 's coordinator \<Rightarrow> unit list outcome \<times> 's coordinator" where
  "cleanupGroups ops clk c =
     map_calls (\<lambda>(i, gid). cleanup_group ops (clk 0) (clk (Suc i)) gid) (enumerate 0 (map fst (cGroups c))) c"

definition Stop :: "'s coordinator \<Rightarrow> 's coordinator" where
  "Stop c = (if cStopped c then c else c\<lparr>cStopped := True\<rparr>)"

end
