(* ===== verification/Store_Correctness.thy ===== *)
theory Store_Correctness
  imports Metadata_Store
begin

text \<open>
  Properties of the metadata store: the invariant of the in-memory implementation, the life cycle of
  topics and their offsets, the contract of committed consumer offsets, and the etcd keys.
\<close>

section \<open>The invariant\<close>

definition numbered :: "metadata_topic \<Rightarrow> bool" where
  "numbered t \<longleftrightarrow> map mpPartitionIndex (mtPartitions t) = map int [0..<length (mtPartitions t)]"

definition topic_wf :: "metadata_topic \<Rightarrow> bool" where
  "topic_wf t \<longleftrightarrow> numbered t \<and> int (length (mtPartitions t)) < 2 ^ 31"

definition topics_wf :: "metadata_topic list \<Rightarrow> bool" where
  "topics_wf ts \<longleftrightarrow> distinct (map mtName ts) \<and> list_all topic_wf ts"

definition store_inv :: "mem_store \<Rightarrow> bool" where
  "store_inv s \<longleftrightarrow> topics_wf (cmTopics (msState s)) \<and> map_wf (msOffsets s) \<and> map_wf (msConsumerOffsets s) \<and>
     map_wf (msConsumerMeta s) \<and> map_wf (msConsumerGroups s) \<and> map_wf (msTopicConfigs s) \<and>
     (\<forall>(k, g) \<in> set (msConsumerGroups s). cgGroupId g = k \<and> k \<noteq> [])"

text \<open>The calls that change the store.\<close>

datatype store_call =
    SUpdate cluster_metadata
  | SUpdateOffsets string int int
  | SCreateTopic topic_spec time
  | SUpdateTopicConfig "topic_config option"
  | SCreatePartitions string int time
  | SDeleteTopic string
  | SCommit string string int int string
  | SPutGroup consumer_group
  | SDeleteGroup string

fun store_step :: "bool \<Rightarrow> store_call \<Rightarrow> mem_store \<Rightarrow> mem_store" where
  "store_step c (SUpdate st) s = Update st s"
| "store_step c (SUpdateOffsets t p l) s = snd (UpdateOffsets c t p l s)"
| "store_step c (SCreateTopic spec now) s = snd (CreateTopic c spec now s)"
| "store_step c (SUpdateTopicConfig cfg) s = snd (UpdateTopicConfig c cfg s)"
| "store_step c (SCreatePartitions t n now) s = snd (CreatePartitions c t n now s)"
| "store_step c (SDeleteTopic t) s = snd (DeleteTopic c t s)"
| "store_step c (SCommit g t p off meta) s = snd (CommitConsumerOffset c g t p off meta s)"
| "store_step c (SPutGroup g) s = snd (PutConsumerGroup c g s)"
| "store_step c (SDeleteGroup g) s = snd (DeleteConsumerGroup c g s)"

text \<open>The arguments have the widths of the source: partition counts are 32-bit, and a metadata
  snapshot swapped in from outside lists well-formed topics.\<close>

definition call_ok :: "store_call \<Rightarrow> bool" where
  "call_ok c \<longleftrightarrow> (case c of
       SUpdate st \<Rightarrow> topics_wf (cmTopics st)
     | SCreateTopic spec _ \<Rightarrow> in_i32 (tsNumPartitions spec)
     | SCreatePartitions _ n _ \<Rightarrow> in_i32 n
     | _ \<Rightarrow> True)"

lemma clone_names [simp]: "map mtName (cloneTopics ts) = map mtName ts"
  by (induction ts) (simp_all add: cloneTopics_def)

lemma clone_partitions: "map mtPartitions (cloneTopics ts) = map mtPartitions ts"
  by (induction ts) (simp_all add: cloneTopics_def)

lemma topics_wf_clone: "topics_wf ts \<Longrightarrow> topics_wf (cloneTopics ts)"
  by (auto simp: topics_wf_def list_all_iff topic_wf_def numbered_def cloneTopics_def comp_def if_distrib [of mtName] cong: if_cong)

lemma upto_upt: "[int m..int n - 1] = map int [m..<n]"
  by (rule nth_equalityI) (auto simp: nth_append)

lemma new_partition_indices: "map mpPartitionIndex (map (new_partition l) is) = is"
  by (simp add: new_partition_def comp_def)

lemma find_topic_in: "find_topic ts name = Some t \<Longrightarrow> t \<in> set ts \<and> mtName t = name"
  by (auto simp: find_topic_def find_Some_iff)

lemma update_topic_names: "mtName u = name \<Longrightarrow> map mtName (update_topic name (\<lambda>_. u) ts) = map mtName ts"
  by (induction ts) auto

lemma update_topic_all: "P u \<Longrightarrow> list_all P ts \<Longrightarrow> list_all P (update_topic name (\<lambda>_. u) ts)"
  by (induction ts) auto

lemma delete_first_set: "set (delete_first name ts) \<subseteq> set ts"
  by (induction ts) auto

lemma delete_first_distinct: "distinct (map mtName ts) \<Longrightarrow> distinct (map mtName (delete_first name ts))"
  by (induction ts) (use delete_first_set in fastforce)+

lemma topics_wf_delete: "topics_wf ts \<Longrightarrow> topics_wf (delete_first name ts)"
  using delete_first_set [of name ts] delete_first_distinct [of ts name] by (auto simp: topics_wf_def list_all_iff)

lemma create_wf:
  assumes "topics_wf ts" "\<not> list_ex (\<lambda>t. mtName t = name) ts" "0 < n" "in_i32 n"
  shows "topics_wf (ts @ [\<lparr>mtErrorCode = e, mtName = name, mtTopicID = i, mtIsInternal = b,
    mtPartitions = map (new_partition l) [0..n - 1], mtTopicAuthorizedOperations = a\<rparr>])"
proof -
  have "map mpPartitionIndex (map (new_partition l) [0..n - 1]) = map int [0..<nat n]"
    using upto_upt [of 0 "nat n"] assms(3) by (simp only: new_partition_indices) simp
  then show ?thesis
    using assms by (auto simp: topics_wf_def topic_wf_def numbered_def list_ex_iff in_i32_def simp del: map_map)
qed

lemma grow_wf:
  assumes wf: "topics_wf ts" and t: "find_topic ts name = Some t" and n: "i32 (int (length (mtPartitions t))) < n" "in_i32 n"
  shows "topics_wf (update_topic name (\<lambda>_. t\<lparr>mtPartitions := mtPartitions t @
    map (new_partition l) [i32 (int (length (mtPartitions t)))..n - 1]\<rparr>) ts)"
proof -
  let ?k = "length (mtPartitions t)"
  let ?u = "t\<lparr>mtPartitions := mtPartitions t @ map (new_partition l) [i32 (int ?k)..n - 1]\<rparr>"
  have "t \<in> set ts" "mtName t = name" using find_topic_in [OF t] by simp_all
  then have num: "numbered t" "int ?k < 2 ^ 31" using wf by (auto simp: topics_wf_def topic_wf_def list_all_iff)
  then have k: "i32 (int ?k) = int ?k" by (simp add: i32_id in_i32_def)
  have nn: "n = int (nat n)" using n(1) k by simp
  have "map mpPartitionIndex (mtPartitions ?u) = map int [0..<?k] @ map int [?k..<nat n]"
    using num(1) upto_upt [of ?k "nat n"] nn new_partition_indices [of l "[int ?k..n - 1]"] k
    by (simp add: numbered_def)
  also have "\<dots> = map int [0..<nat n]"
    using n(1) k nn by (metis le_add_same_cancel1 less_imp_le_nat map_append of_nat_less_iff upt_add_eq_append le_add_diff_inverse zero_le)
  finally have "map mpPartitionIndex (mtPartitions ?u) = map int [0..<nat n]" .
  moreover from arg_cong [OF this, of length] have "length (mtPartitions ?u) = nat n" by simp
  ultimately have "topic_wf ?u" using n(2) unfolding topic_wf_def numbered_def in_i32_def by simp
  then show ?thesis
    using wf \<open>mtName t = name\<close> by (simp add: topics_wf_def update_topic_names update_topic_all)
qed

lemma store_inv_new: "topics_wf (cmTopics st) \<Longrightarrow> store_inv (NewInMemoryStore st)"
  by (simp add: store_inv_def NewInMemoryStore_def cloneMetadata_def topics_wf_clone)

lemma store_inv_step:
  assumes "store_inv s" "call_ok c"
  shows "store_inv (store_step cancelled c s)"
proof (cases c)
  case (SCreateTopic spec now)
  then show ?thesis
    using assms by (auto simp: store_inv_def CreateTopic_def call_ok_def Let_def intro!: create_wf)
next
  case (SCreatePartitions t n now)
  show ?thesis
  proof (cases "find_topic (cmTopics (msState s)) t")
    case (Some tp)
    then show ?thesis
      using assms SCreatePartitions grow_wf [OF _ Some] by (auto simp: store_inv_def CreatePartitions_def call_ok_def Let_def)
  qed (use assms SCreatePartitions in \<open>simp add: CreatePartitions_def\<close>)
next
  case (SPutGroup g)
  then show ?thesis
    using assms set_update_subset [of "cgGroupId g" "cloneConsumerGroup g" "msConsumerGroups s"]
    by (auto simp: store_inv_def PutConsumerGroup_def) (auto simp: cloneConsumerGroup_def)
next
  case (SUpdateTopicConfig cfg)
  then show ?thesis
    using assms by (auto simp: store_inv_def UpdateTopicConfig_def Let_def split: option.splits)
next
  case (SDeleteGroup g)
  then show ?thesis
    using assms set_delete_subset [of g "msConsumerGroups s"] by (auto simp: store_inv_def DeleteConsumerGroup_def)
qed (use assms in \<open>auto simp: store_inv_def Update_def UpdateOffsets_def DeleteTopic_def CommitConsumerOffset_def call_ok_def
    cloneMetadata_def topics_wf_clone topics_wf_delete Let_def\<close>)

text \<open>
  C26: whatever calls change the in-memory store, succeeding or failing, its topics keep distinct
  names and partitions numbered from 0 without gaps, its maps keep one entry per key, and every
  stored group is stored under its own non-empty identifier.
\<close>

theorem store_invariant:
  assumes "topics_wf (cmTopics st)" "\<forall>(cancelled, c) \<in> set cs. call_ok c"
  shows "store_inv (fold (\<lambda>(cancelled, c). store_step cancelled c) cs (NewInMemoryStore st))"
proof -
  have "store_inv (fold (\<lambda>(cancelled, c). store_step cancelled c) cs s)" if "store_inv s" for s
    using that assms(2) by (induction cs arbitrary: s) (auto intro: store_inv_step)
  then show ?thesis using store_inv_new [OF assms(1)] by blast
qed

definition demo_cluster :: cluster_metadata where
  "demo_cluster = \<lparr>cmBrokers = [\<lparr>mbNodeID = 1, mbHost = ''h'', mbPort = 9092, mbRack = None\<rparr>], cmControllerID = 1,
     cmTopics = [], cmClusterName = None, cmClusterID = None\<rparr>"

definition demo_spec :: "string \<Rightarrow> topic_spec" where
  "demo_spec name = \<lparr>tsName = name, tsNumPartitions = 2, tsReplicationFactor = 1\<rparr>"

theorem store_invariant_witness:
  "store_inv (fold (\<lambda>(cancelled, c). store_step cancelled c)
     [(False, SCreateTopic (demo_spec ''a'') 0), (False, SCreatePartitions ''a'' 5 0), (True, SDeleteTopic ''a''),
      (False, SCommit ''g'' ''a'' 0 7 [])] (NewInMemoryStore demo_cluster))"
  by (rule store_invariant) (auto simp: topics_wf_def demo_cluster_def call_ok_def demo_spec_def in_i32_def)

section \<open>The life cycle of a topic\<close>

lemma has_partition_find:
  "topicHasPartition ts name part \<longleftrightarrow>
     (case find_topic ts name of None \<Rightarrow> False | Some t \<Rightarrow> \<exists>p \<in> set (mtPartitions t). mpPartitionIndex p = part)"
  by (induction ts) (auto simp: find_topic_def list_ex_iff)

lemma find_delete_other: "name \<noteq> other \<Longrightarrow> find_topic (delete_first name ts) other = find_topic ts other"
  by (induction ts) (auto simp: find_topic_def)

lemma find_delete_same: "distinct (map mtName ts) \<Longrightarrow> find_topic (delete_first name ts) name = None"
  by (induction ts) (auto simp: find_topic_def find_None_iff image_iff)

lemma find_append: "find_topic (ts @ us) name = (case find_topic ts name of None \<Rightarrow> find_topic us name | Some t \<Rightarrow> Some t)"
  by (induction ts) (auto simp: find_topic_def)

lemma key_prefix_iff:
  "HasPrefix (partitionKey topic part) (name @ '':'') \<longleftrightarrow> topic = name \<or> HasPrefix topic (name @ '':'')"
proof
  have free: "CHR '':'' \<notin> set (fmt_d part)" by (rule fmt_d_free) simp_all
  assume "HasPrefix (partitionKey topic part) (name @ '':'')"
  then obtain r where r: "topic @ CHR '':'' # fmt_d part = name @ CHR '':'' # r"
    by (auto simp: HasPrefix_iff partitionKey_def)
  then consider us where "topic = name @ us" "us @ CHR '':'' # fmt_d part = CHR '':'' # r"
    | us where "name = topic @ us" "CHR '':'' # fmt_d part = us @ CHR '':'' # r"
    by (auto simp: append_eq_append_conv2)
  then show "topic = name \<or> HasPrefix topic (name @ '':'')"
  proof cases
    case 1
    then show ?thesis by (cases us) (auto simp: HasPrefix_iff)
  next
    case 2
    then show ?thesis using free by (cases us) auto
  qed
qed (auto simp: HasPrefix_iff partitionKey_def)

lemma lookup_after_delete:
  "map_wf m \<Longrightarrow> get_or d (filter (\<lambda>(k, v). \<not> HasPrefix k (name @ '':'')) m) (partitionKey topic part) =
     (if topic = name \<or> HasPrefix topic (name @ '':'') then d else get_or d m (partitionKey topic part))"
  by (auto simp: get_or_def map_of_filter_wf key_prefix_iff split: option.splits)

lemma DeleteTopic_Ok:
  assumes "DeleteTopic False name s = (Ok (), s1)"
  shows "s1 = s\<lparr>msState := (msState s)\<lparr>cmTopics := delete_first name (cmTopics (msState s))\<rparr>,
    msOffsets := filter (\<lambda>(k, v). \<not> HasPrefix k (name @ '':'')) (msOffsets s)\<rparr>"
  using assms by (auto simp: DeleteTopic_def split: if_splits)

lemma CreateTopic_Ok:
  assumes "CreateTopic False spec now s = (Ok t, s2)"
  shows "mtName t = tsName spec" "set (map mpPartitionIndex (mtPartitions t)) = {0..<tsNumPartitions spec}"
    "cmTopics (msState s2) = cmTopics (msState s) @ [t]" "msOffsets s2 = msOffsets s"
    "find_topic (cmTopics (msState s)) (tsName spec) = None"
proof -
  show "find_topic (cmTopics (msState s)) (tsName spec) = None"
    using assms by (auto simp: CreateTopic_def Let_def find_topic_def find_None_iff list_ex_iff split: if_splits)
  have "set (map mpPartitionIndex (map (new_partition l) [0..n - 1])) = {0..<n}" for l n
    by (simp only: new_partition_indices) auto
  with assms show "set (map mpPartitionIndex (mtPartitions t)) = {0..<tsNumPartitions spec}"
    by (auto simp: CreateTopic_def Let_def split: if_splits simp del: set_map map_map)
qed (use assms in \<open>auto simp: CreateTopic_def Let_def split: if_splits\<close>)

text \<open>
  A topic that is deleted and created again starts at offset 0 on each of its partitions, and
  every topic whose name is not the deleted name followed by a colon keeps its next offsets.
\<close>

theorem recreated_topic_starts_fresh:
  assumes "store_inv s" "DeleteTopic False name s = (Ok (), s1)"
    and "CreateTopic False spec now s1 = (Ok t, s2)" "tsName spec = name"
  shows "(\<forall>p. 0 \<le> p \<and> p < tsNumPartitions spec \<longrightarrow> fst (NextOffset False name p s2) = Ok 0) \<and>
    (\<forall>other p. other \<noteq> name \<and> \<not> HasPrefix other (name @ '':'') \<longrightarrow>
       fst (NextOffset False other p s2) = fst (NextOffset False other p s))"
proof -
  note d = DeleteTopic_Ok [OF assms(2)] note c = CreateTopic_Ok [OF assms(3)]
  have topics: "cmTopics (msState s2) = delete_first name (cmTopics (msState s)) @ [t]" using c(3) d by simp
  have offs: "msOffsets s2 = filter (\<lambda>(k, v). \<not> HasPrefix k (name @ '':'')) (msOffsets s)" using c(4) d by simp
  have wf: "map_wf (msOffsets s)" "distinct (map mtName (cmTopics (msState s)))"
    using assms(1) by (simp_all add: store_inv_def topics_wf_def)
  have t: "mtName t = name" using c(1) assms(4) by simp
  have new: "find_topic (cmTopics (msState s2)) name = Some t"
    using t wf(2) by (simp add: topics find_append find_delete_same) (simp add: find_topic_def)
  have old: "find_topic (cmTopics (msState s2)) other = find_topic (cmTopics (msState s)) other" if "other \<noteq> name" for other
    using t that by (simp add: topics find_append find_delete_other split: option.splits) (simp add: find_topic_def)
  have "topicHasPartition (cmTopics (msState s2)) name p" if "0 \<le> p" "p < tsNumPartitions spec" for p
    using c(2) that by (auto simp: has_partition_find new) (metis atLeastLessThan_iff image_iff)
  then show ?thesis
    using old by (auto simp: NextOffset_def offs lookup_after_delete [OF wf(1)] has_partition_find)
qed

definition demo_store :: mem_store where
  "demo_store = snd (UpdateOffsets False ''a'' 1 41 (snd (CreateTopic False (demo_spec ''a'') 0 (NewInMemoryStore demo_cluster))))"

lemma demo_store_inv: "store_inv demo_store"
proof -
  have "store_inv (store_step False (SUpdateOffsets ''a'' 1 41)
      (store_step False (SCreateTopic (demo_spec ''a'') 0) (NewInMemoryStore demo_cluster)))"
    by (intro store_inv_step store_inv_new)
       (simp_all add: demo_cluster_def topics_wf_def call_ok_def demo_spec_def in_i32_def)
  then show ?thesis by (simp add: demo_store_def)
qed

lemmas demo_store_simps = demo_store_def CreateTopic_def UpdateOffsets_def DeleteTopic_def NewInMemoryStore_def demo_cluster_def
  demo_spec_def cloneMetadata_def cloneTopics_def find_topic_def Let_def

theorem recreated_topic_starts_fresh_witness:
  "fst (NextOffset False ''a'' 1 demo_store) = Ok 42 \<and>
   fst (NextOffset False ''a'' 1 (snd (CreateTopic False (demo_spec ''a'') 5 (snd (DeleteTopic False ''a'' demo_store))))) = Ok 0"
proof
  show "fst (NextOffset False ''a'' 1 demo_store) = Ok 42"
    by (simp add: demo_store_simps NextOffset_def get_or_def new_partition_def upto.simps i64_id in_i64_def)
  let ?s1 = "snd (DeleteTopic False ''a'' demo_store)" let ?r = "CreateTopic False (demo_spec ''a'') 5 ?s1"
  have d: "DeleteTopic False ''a'' demo_store = (Ok (), ?s1)" by (simp add: demo_store_simps)
  obtain t where c: "?r = (Ok t, snd ?r)" by (simp add: demo_store_simps)
  from recreated_topic_starts_fresh [OF demo_store_inv d c] show "fst (NextOffset False ''a'' 1 (snd ?r)) = Ok 0"
    by (simp add: demo_spec_def)
qed

text \<open>
  Deleting a topic also resets the next offset of every partition of every topic whose name is
  the deleted name followed by a colon and more, although that topic stays.
\<close>

theorem delete_topic_resets_others:
  assumes "store_inv s" "DeleteTopic False name s = (Ok (), s1)"
    and "topicHasPartition (cmTopics (msState s)) (name @ '':'' @ rest) p"
  shows "fst (NextOffset False (name @ '':'' @ rest) p s1) = Ok 0"
proof -
  have wf: "map_wf (msOffsets s)" using assms(1) by (simp add: store_inv_def)
  have "HasPrefix (name @ '':'' @ rest) (name @ '':'')" by (simp add: HasPrefix_iff)
  moreover have "topicHasPartition (cmTopics (msState s1)) (name @ '':'' @ rest) p"
    using assms(3) DeleteTopic_Ok [OF assms(2)] by (simp add: has_partition_find find_delete_other)
  ultimately show ?thesis
    using DeleteTopic_Ok [OF assms(2)] lookup_after_delete [OF wf, of 0 name] by (simp add: NextOffset_def)
qed

definition colon_store :: mem_store where
  "colon_store = snd (UpdateOffsets False ''a:b'' 0 41 (snd (CreateTopic False (demo_spec ''a:b'') 0 demo_store)))"

theorem delete_topic_resets_others_witness:
  "fst (NextOffset False ''a:b'' 0 colon_store) = Ok 42 \<and>
   fst (NextOffset False ''a:b'' 0 (snd (DeleteTopic False ''a'' colon_store))) = Ok 0"
proof
  have inv: "store_inv (store_step False (SUpdateOffsets ''a:b'' 0 41) (store_step False (SCreateTopic (demo_spec ''a:b'') 0) demo_store))"
    by (intro store_inv_step demo_store_inv) (simp_all add: call_ok_def demo_spec_def in_i32_def)
  have s: "cmTopics (msState colon_store) \<noteq> []" "topicHasPartition (cmTopics (msState colon_store)) (''a'' @ '':'' @ ''b'') 0"
    "DeleteTopic False ''a'' colon_store = (Ok (), snd (DeleteTopic False ''a'' colon_store))"
    by (simp_all add: colon_store_def demo_store_simps new_partition_def upto.simps)
  show "fst (NextOffset False ''a:b'' 0 colon_store) = Ok 42"
    by (simp add: colon_store_def demo_store_simps NextOffset_def get_or_def new_partition_def upto.simps partitionKey_def
        fmt_d_def i64_id in_i64_def)
  show "fst (NextOffset False ''a:b'' 0 (snd (DeleteTopic False ''a'' colon_store))) = Ok 0"
    using delete_topic_resets_others [OF _ s(3,2)] inv by (simp add: colon_store_def)
qed

section \<open>The contract of committed offsets\<close>

text \<open>
  What a client of the store relies on for committed offsets: a commit that succeeds changes the
  entry of its group, topic and partition and no other one, and a fetch that succeeds returns the
  entry. \<open>named\<close> says which group names are told apart.
\<close>

locale offset_store =
  fixes ops :: "'s store_ops"
    and view :: "'s \<Rightarrow> string \<times> string \<times> int \<Rightarrow> int \<times> string"
    and named :: "string \<Rightarrow> bool"
    and ok :: "'s \<Rightarrow> bool"
  assumes commit_view:
      "ok s \<Longrightarrow> named g \<Longrightarrow> opCommitConsumerOffset ops c g t p off meta s = (Ok u, s') \<Longrightarrow>
         ok s' \<and> (\<forall>g' t' p'. named g' \<longrightarrow> view s' (g', t', p') = (if (g', t', p') = (g, t, p) then (off, meta) else view s (g', t', p')))"
    and commit_failed:
      "ok s \<Longrightarrow> named g \<Longrightarrow> opCommitConsumerOffset ops c g t p off meta s = (Err e, s') \<Longrightarrow>
         ok s' \<and> (\<forall>g' t' p'. named g' \<longrightarrow> (g', t', p') \<noteq> (g, t, p) \<longrightarrow> view s' (g', t', p') = view s (g', t', p'))"
    and commit_no_panic: "fst (opCommitConsumerOffset ops c g t p off meta s) \<noteq> Panic"
    and fetch_view:
      "ok s \<Longrightarrow> named g \<Longrightarrow> opFetchConsumerOffset ops c g t p s = (Ok r, s') \<Longrightarrow>
         ok s' \<and> r = view s (g, t, p) \<and> (\<forall>k. view s' k = view s k)"

lemma consumerKey_inj:
  assumes "CHR '':'' \<notin> set g" "CHR '':'' \<notin> set g'"
  shows "consumerKey g t p = consumerKey g' t' p' \<longleftrightarrow> g = g' \<and> t = t' \<and> p = p'"
proof
  assume "consumerKey g t p = consumerKey g' t' p'"
  then have eq: "g @ CHR '':'' # (t @ CHR '':'' # fmt_d p) = g' @ CHR '':'' # (t' @ CHR '':'' # fmt_d p')"
    by (simp add: consumerKey_def)
  have "takeWhile (\<lambda>c. c \<noteq> CHR '':'') (x @ CHR '':'' # y) = x" if "CHR '':'' \<notin> set x" for x y
    using that by (induction x) auto
  with eq assms have g: "g = g'" by metis
  with eq have "t @ CHR '':'' # fmt_d p = t' @ CHR '':'' # fmt_d p'" by simp
  then have r: "rev (fmt_d p) @ CHR '':'' # rev t = rev (fmt_d p') @ CHR '':'' # rev t'"
    by (metis append.assoc append_Cons append_Nil rev.simps(2) rev_append)
  have "CHR '':'' \<notin> set (rev (fmt_d q))" for q by (simp add: fmt_d_free)
  moreover have "takeWhile (\<lambda>c. c \<noteq> CHR '':'') (x @ CHR '':'' # y) = x" if "CHR '':'' \<notin> set x" for x y
    using that by (induction x) auto
  ultimately have "rev (fmt_d p) = rev (fmt_d p')" using r by metis
  with r have "p = p'" "t = t'" by simp_all
  with g show "g = g' \<and> t = t' \<and> p = p'" by simp
qed simp

definition offset_view :: "mem_store \<Rightarrow> string \<times> string \<times> int \<Rightarrow> int \<times> string" where
  "offset_view s = (\<lambda>(g, t, p). (get_or 0 (msConsumerOffsets s) (consumerKey g t p),
     get_or [] (msConsumerMeta s) (consumerKey g t p)))"

definition colon_free :: "string \<Rightarrow> bool" where
  "colon_free g \<longleftrightarrow> CHR '':'' \<notin> set g"

lemma get_or_update: "get_or d (AList.update k v m) k' = (if k' = k then v else get_or d m k')"
  by (simp add: get_or_def update_conv')

interpretation memo: offset_store mem_ops offset_view colon_free "\<lambda>_. True"
  by unfold_locales
    (auto simp: mem_ops_def CommitConsumerOffset_def FetchConsumerOffset_def offset_view_def colon_free_def Let_def
      get_or_update consumerKey_inj split: if_splits)

section \<open>Keys\<close>

lemma split_slash: "CHR ''/'' \<notin> set a \<Longrightarrow> split_on CHR ''/'' (a @ CHR ''/'' # b) = a # split_on CHR ''/'' b"
  by (simp add: split_on_append)

definition key_name :: "string \<Rightarrow> bool" where
  "key_name s \<longleftrightarrow> s \<noteq> [] \<and> CHR ''/'' \<notin> set s"

lemma fmt_no_slash: "CHR ''/'' \<notin> set (fmt_d p)"
  by (rule fmt_d_free) simp_all

text \<open>
  The etcd keys of committed offsets and of group metadata parse back to the names they were
  built from when these are non-empty and contain no slash, and a key of one kind is never taken for
  one of the other.
\<close>

theorem etcd_keys_roundtrip:
  assumes "key_name g" "key_name t" "in_i32 p"
  shows "ParseConsumerOffsetKey (ConsumerOffsetKey g t p) = Some (g, t, p) \<and>
    ParseConsumerGroupID (ConsumerGroupKey g) = Some g \<and>
    ParseConsumerGroupID (ConsumerOffsetKey g t p) = None \<and>
    ParseConsumerOffsetKey (ConsumerGroupKey g) = None"
proof -
  have n: "CHR ''/'' \<notin> set g" "CHR ''/'' \<notin> set t" "g \<noteq> []" "t \<noteq> []" using assms by (simp_all add: key_name_def)
  let ?P = "consumerGroupPrefix @ ''/''"
  have ok: "ConsumerOffsetKey g t p = ?P @ (g @ CHR ''/'' # ''offsets'' @ CHR ''/'' # t @ CHR ''/'' # fmt_d p)"
    "ConsumerGroupKey g = ?P @ (g @ ''/metadata'')" "ConsumerGroupKey g = ?P @ (g @ CHR ''/'' # ''metadata'')"
    by (simp_all add: ConsumerOffsetKey_def ConsumerGroupKey_def)
  have "split_on CHR ''/'' (g @ CHR ''/'' # ''offsets'' @ CHR ''/'' # t @ CHR ''/'' # fmt_d p) = [g, ''offsets'', t, fmt_d p]"
    using n fmt_no_slash split_slash [of "''offsets''" "t @ CHR ''/'' # fmt_d p"] by (simp add: split_slash)
  then have 1: "ParseConsumerOffsetKey (ConsumerOffsetKey g t p) = Some (g, t, p)"
    using n ParseInt_fmt_d_i32 [OF assms(3)] unfolding ok(1) ParseConsumerOffsetKey_def Let_def
    by (simp only: HasPrefix_append TrimPrefix_append) simp
  have 2: "ParseConsumerGroupID (ConsumerGroupKey g) = Some g"
  proof -
    have h: "HasPrefix (ConsumerGroupKey g) ?P" unfolding ok(2) by (rule HasPrefix_append)
    have "HasSuffix ((?P @ g) @ ''/metadata'') ''/metadata''" by (rule HasSuffix_append)
    then have s: "HasSuffix (ConsumerGroupKey g) ''/metadata''" unfolding ok(2) by (simp only: append.assoc)
    have "TrimSuffix (TrimPrefix (ConsumerGroupKey g) ?P) ''/metadata'' = g"
      unfolding ok(2) by (simp only: TrimPrefix_append TrimSuffix_append)
    with h s n show ?thesis unfolding ParseConsumerGroupID_def Let_def by (simp del: append_Cons)
  qed
  have "split_on CHR ''/'' (g @ CHR ''/'' # ''metadata'') = [g, ''metadata'']"
    using n by (simp add: split_slash)
  then have 3: "ParseConsumerOffsetKey (ConsumerGroupKey g) = None"
    unfolding ok(3) ParseConsumerOffsetKey_def Let_def by (simp only: HasPrefix_append TrimPrefix_append) simp
  have "CHR ''a'' \<notin> set (fmt_d p)" by (rule fmt_d_free) simp_all
  then have "last (fmt_d p) \<noteq> CHR ''a''" by (metis fmt_d_nonempty last_in_set)
  moreover have "last (ConsumerOffsetKey g t p) = last (fmt_d p)" by (simp add: ConsumerOffsetKey_def)
  ultimately have "\<not> HasSuffix (ConsumerOffsetKey g t p) ''/metadata''" by (auto simp: HasSuffix_iff)
  then have "ParseConsumerGroupID (ConsumerOffsetKey g t p) = None" by (simp add: ParseConsumerGroupID_def Let_def)
  with 1 2 3 show ?thesis by blast
qed

theorem etcd_keys_roundtrip_witness:
  "ParseConsumerOffsetKey (ConsumerOffsetKey ''g1'' ''orders'' 12) = Some (''g1'', ''orders'', 12)"
  using etcd_keys_roundtrip [of "''g1''" "''orders''" 12] by (simp add: key_name_def in_i32_def)

end
