(* ===== verification/Group_Correctness.thy ===== *)
theory Group_Correctness
  imports Group_Coordinator Store_Correctness
begin

text \<open>
  Correctness of the group coordinator: the invariant of every reachable group, over any store that
  keeps the groups it is given, and the interpretation of that contract on the in-memory store.
\<close>

section \<open>The invariant of a group\<close>

definition member_ids :: "group_state \<Rightarrow> string set" where
  "member_ids s = fst ` set (gMembers s)"

definition all_joined :: "group_state \<Rightarrow> bool" where
  "all_joined s \<longleftrightarrow> (\<forall>(k, m) \<in> set (gMembers s). mJoinGeneration m = gGenerationID s)"

definition group_shape :: "group_state \<Rightarrow> bool" where
  "group_shape s \<longleftrightarrow>
     map_wf (gMembers s) \<and> map_wf (gAssignments s) \<and> fst ` set (gAssignments s) \<subseteq> member_ids s \<and>
     in_i32 (gGenerationID s) \<and> gState s \<noteq> groupStateDead \<and>
     (gState s = groupStateEmpty \<longleftrightarrow> gMembers s = []) \<and>
     (gMembers s \<noteq> [] \<longrightarrow> gLeaderID s \<in> member_ids s) \<and>
     (gState s = groupStatePreparingRebalance \<or> gState s = groupStateCompletingRebalance \<longrightarrow> gAssignments s = [])"

definition group_ok :: "group_state \<Rightarrow> bool" where
  "group_ok s \<longleftrightarrow> group_shape s \<and>
     (gState s = groupStateCompletingRebalance \<or> gState s = groupStateStable \<longrightarrow> all_joined s)"

text \<open>A group record the coordinator writes: it has members, and assignments only when stable.\<close>

definition good_group :: "consumer_group \<Rightarrow> bool" where
  "good_group g \<longleftrightarrow>
     map_wf (cgMembers g) \<and> cgMembers g \<noteq> [] \<and> in_i32 (cgGenerationId g) \<and>
     cgState g \<in> {''preparing_rebalance'', ''completing_rebalance'', ''stable''} \<and>
     (cgState g \<noteq> ''stable'' \<longrightarrow> (\<forall>(k, m) \<in> set (cgMembers g). pbmAssignments m = []))"

lemma ensureLeader_fields [simp]:
  "gMembers (ensureLeader s) = gMembers s" "gAssignments (ensureLeader s) = gAssignments s"
  "gGenerationID (ensureLeader s) = gGenerationID s" "gState (ensureLeader s) = gState s"
  "gRebalanceTimeout (ensureLeader s) = gRebalanceTimeout s" "gRebalanceDeadline (ensureLeader s) = gRebalanceDeadline s"
  "gProtocolName (ensureLeader s) = gProtocolName s" "gProtocolType (ensureLeader s) = gProtocolType s"
  by (simp_all add: ensureLeader_def)

lemma hd_sorted_member: "gMembers s \<noteq> [] \<Longrightarrow> hd (sortedMembers s) \<in> member_ids s"
  using hd_in_set [of "sortedMembers s"] by (simp add: sortedMembers_def member_ids_def) (metis length_0_conv length_map length_sort)

lemma leader_ensured: "gMembers s \<noteq> [] \<Longrightarrow> gLeaderID (ensureLeader s) \<in> member_ids s"
  using hd_sorted_member [of s] by (auto simp: ensureLeader_def member_ids_def dest: map_of_SomeD) (metis fst_conv image_iff map_of_eq_None_iff option.distinct(1))

lemma ensureLeader_keeps: "gLeaderID s \<noteq> [] \<Longrightarrow> gLeaderID s \<in> member_ids s \<Longrightarrow> ensureLeader s = s"
  by (auto simp: ensureLeader_def member_ids_def map_of_eq_None_iff)

lemma leader_ensured_fst: "gMembers s \<noteq> [] \<Longrightarrow> gLeaderID (ensureLeader s) \<in> fst ` set (gMembers s)"
  using leader_ensured by (simp add: member_ids_def)

lemma startRebalance_members:
  "gMembers s \<noteq> [] \<Longrightarrow> gMembers (startRebalance timeout now s) = map (\<lambda>(k, m). (k, m\<lparr>mJoinGeneration := 0\<rparr>)) (gMembers s)"
  by (simp add: startRebalance_def Let_def)

lemma startRebalance_ok:
  assumes "map_wf (gMembers s)" "gMembers s \<noteq> []"
  shows "group_ok (startRebalance timeout now s)"
proof -
  define s1 where "s1 = s\<lparr>gRebalanceTimeout := (if timeout > 0 then timeout
      else if gRebalanceTimeout s = 0 then defaultRebalanceTimeout else gRebalanceTimeout s),
    gGenerationID := i32 (gGenerationID s + 1), gState := groupStatePreparingRebalance, gAssignments := [],
    gRebalanceDeadline := now + (if timeout > 0 then timeout
      else if gRebalanceTimeout s = 0 then defaultRebalanceTimeout else gRebalanceTimeout s)\<rparr>"
  have "startRebalance timeout now s =
      ensureLeader s1\<lparr>gMembers := map (\<lambda>(k, m). (k, m\<lparr>mJoinGeneration := 0\<rparr>)) (gMembers s)\<rparr>"
    using assms(2) by (simp add: startRebalance_def Let_def s1_def)
  moreover have "gLeaderID (ensureLeader s1) \<in> fst ` set (gMembers s)"
    using leader_ensured_fst [of s1] assms(2) by (simp add: s1_def)
  ultimately show ?thesis
    using assms by (simp add: group_ok_def group_shape_def member_ids_def image_image case_prod_beta comp_def map_wf_def s1_def)
qed

lemma bump_fields [simp]:
  "gMembers (bumpRebalanceDeadline timeout now s) = gMembers s" "gAssignments (bumpRebalanceDeadline timeout now s) = gAssignments s"
  "gGenerationID (bumpRebalanceDeadline timeout now s) = gGenerationID s" "gState (bumpRebalanceDeadline timeout now s) = gState s"
  "gLeaderID (bumpRebalanceDeadline timeout now s) = gLeaderID s"
  by (simp_all add: bumpRebalanceDeadline_def Let_def)

lemma bump_shape: "group_shape (bumpRebalanceDeadline timeout now s) = group_shape s"
  by (simp add: group_shape_def member_ids_def)

lemma drop_members_wf:
  assumes "map_wf (gMembers s)" "drop_members gone s = (changed, s1)"
  shows "map_wf (gMembers s1)" "\<not> changed \<Longrightarrow> gMembers s \<noteq> [] \<Longrightarrow> s1 = s"
proof -
  show "map_wf (gMembers s1)" using assms by (auto simp: drop_members_def Let_def split: if_splits)
  assume "\<not> changed" "gMembers s \<noteq> []"
  then have "filter (\<lambda>(k, m). gone m) (gMembers s) = []" using assms by (simp add: drop_members_def Let_def)
  then have "filter (\<lambda>(k, m). \<not> gone m) (gMembers s) = gMembers s"
    by (auto simp: filter_empty_conv intro!: filter_True)
  moreover have "map fst (filter (\<lambda>(k, m). gone m) (gMembers s)) = []" using assms \<open>\<not> changed\<close> by (simp add: drop_members_def Let_def)
  ultimately show "s1 = s" using assms(2) \<open>gMembers s \<noteq> []\<close> unfolding drop_members_def Let_def by (simp del: set_filter set_map)
qed

lemma sweeps_wf:
  assumes "map_wf (gMembers s)"
  shows "map_wf (gMembers (snd (removeExpiredMembers now s)))" "map_wf (gMembers (snd (dropRebalanceLaggers now s)))"
  using assms drop_members_wf(1) [OF assms]
  by (auto simp: removeExpiredMembers_def dropRebalanceLaggers_def) (metis prod.collapse)+

lemma restore_ok:
  assumes "good_group g"
  shows "group_ok (restoreGroupState now g)"
proof -
  let ?ms = "map (\<lambda>(k, m). (k, restore_member (cgGenerationId g) m)) (cgMembers g)"
  have m: "gMembers (restoreGroupState now g) = ?ms" by (simp add: restoreGroupState_def Let_def)
  have "gLeaderID (restoreGroupState now g) \<in> member_ids (restoreGroupState now g)"
  proof -
    obtain raw where raw: "restoreGroupState now g = ensureLeader raw" unfolding restoreGroupState_def Let_def by blast
    then have "gMembers raw \<noteq> []" using m assms by (simp add: good_group_def)
    from leader_ensured [OF this] show ?thesis by (simp add: raw member_ids_def)
  qed
  moreover have "parseGroupPhase (cgState g) \<in> {groupStatePreparingRebalance, groupStateCompletingRebalance, groupStateStable}"
    "parseGroupPhase (cgState g) = groupStateStable \<longleftrightarrow> cgState g = ''stable''"
    using assms by (auto simp: good_group_def parseGroupPhase_def)
  moreover have "map_wf ?ms" using assms by (simp add: good_group_def map_wf_def comp_def case_prod_beta)
  moreover have "map_wf (gAssignments (restoreGroupState now g))"
    using assms map_wf_filter [of "cgMembers g" "\<lambda>(k, m). pbmAssignments m \<noteq> []"]
    by (simp add: good_group_def restoreGroupState_def Let_def map_wf_def comp_def case_prod_beta)
  moreover have "fst ` set (gAssignments (restoreGroupState now g)) \<subseteq> fst ` set ?ms"
    by (force simp: restoreGroupState_def Let_def)
  moreover have "gAssignments (restoreGroupState now g) = []" if "cgState g \<noteq> ''stable''"
    using assms that by (auto simp: good_group_def restoreGroupState_def Let_def filter_empty_conv)
  moreover have "all_joined (restoreGroupState now g)"
    by (auto simp: all_joined_def m) (simp add: restoreGroupState_def Let_def restore_member_def)
  moreover have "gState (restoreGroupState now g) = parseGroupPhase (cgState g)"
    "gGenerationID (restoreGroupState now g) = cgGenerationId g" "?ms \<noteq> []" "in_i32 (cgGenerationId g)"
    using assms by (simp_all add: restoreGroupState_def Let_def good_group_def)
  ultimately show ?thesis by (simp add: group_ok_def group_shape_def m member_ids_def) fastforce
qed

lemma phase_string_inj: "groupPhaseString p = groupPhaseString q \<longleftrightarrow> p = q"
  by (cases p; cases q) (simp_all add: groupPhaseString_def)

lemma parse_phase_string [simp]: "parseGroupPhase (groupPhaseString p) = p"
  by (cases p) (simp_all add: groupPhaseString_def parseGroupPhase_def)

lemma build_good:
  assumes "group_ok s" "gMembers s \<noteq> []"
  shows "good_group (buildConsumerGroup gid s)"
proof -
  have "gState s \<in> {groupStatePreparingRebalance, groupStateCompletingRebalance, groupStateStable}"
    using assms by (cases "gState s") (auto simp: group_ok_def group_shape_def)
  then show ?thesis
    using assms
    by (auto simp: good_group_def group_ok_def group_shape_def buildConsumerGroup_def groupPhaseString_def map_wf_def comp_def case_prod_beta
        build_member_def get_or_def)
qed

section \<open>The invariant under a join\<close>

lemma set_map_entry: "map_wf xs \<Longrightarrow> set (AList.map_entry k f xs) = (\<lambda>(k', m). (k', if k' = k then f m else m)) ` set xs"
  by (induction xs) (force simp: map_wf_def)+

lemma set_joined_fields [simp]:
  "gAssignments (set_joined k s) = gAssignments s" "gGenerationID (set_joined k s) = gGenerationID s"
  "gState (set_joined k s) = gState s" "gLeaderID (set_joined k s) = gLeaderID s"
  "member_ids (set_joined k s) = member_ids s"
  by (simp_all add: set_joined_def member_ids_def dom_map_entry)

lemma set_joined_members [simp]: "gMembers (set_joined k s) = [] \<longleftrightarrow> gMembers s = []"
  by (cases "gMembers s") (auto simp: set_joined_def)

lemma set_joined_shape: "group_shape s \<Longrightarrow> group_shape (set_joined k s)"
  by (simp add: group_shape_def) (simp add: set_joined_def map_wf_def distinct_map_entry)

definition others_joined :: "string \<Rightarrow> group_state \<Rightarrow> bool" where
  "others_joined k s \<longleftrightarrow> (\<forall>(k', m) \<in> set (gMembers s). k' \<noteq> k \<longrightarrow> mJoinGeneration m = gGenerationID s)"

lemma set_joined_all: "map_wf (gMembers s) \<Longrightarrow> others_joined k s \<Longrightarrow> all_joined (set_joined k s)"
  by (auto simp: all_joined_def others_joined_def set_joined_def set_map_entry)

lemma set_joined_ok:
  assumes "group_shape s" "gState s = groupStateCompletingRebalance \<or> gState s = groupStateStable \<Longrightarrow> others_joined k s"
  shows "group_ok (set_joined k s)"
proof -
  have "map_wf (gMembers s)" using assms(1) by (simp add: group_shape_def)
  then show ?thesis using set_joined_shape [OF assms(1), of k] set_joined_all [of s k] assms(2) by (auto simp: group_ok_def)
qed

lemma set_joined_again: "group_ok s \<Longrightarrow> group_ok (set_joined k s)"
  by (rule set_joined_ok) (auto simp: group_ok_def others_joined_def all_joined_def)

lemma join_member_props:
  assumes "join_member rnd now req s = (k, existed, s1)"
  shows "gAssignments s1 = gAssignments s" "gGenerationID s1 = gGenerationID s" "gState s1 = gState s" "gLeaderID s1 = gLeaderID s"
    "\<exists>m. gMembers s1 = AList.update k m (gMembers s)" "existed \<Longrightarrow> k \<in> member_ids s"
  using assms
  by (auto simp: join_member_def Let_def member_ids_def split: option.splits if_splits dest!: map_of_SomeD intro: rev_image_eqI)

lemma join_rebalance_ok:
  assumes ok: "group_ok s" and jm: "join_member rnd now0 req s = (k, existed, s1)"
  shows "group_ok (set_joined k (join_rebalance k existed timeout now s1))" "gMembers (join_rebalance k existed timeout now s1) \<noteq> []"
proof -
  note p = join_member_props [OF jm]
  obtain m where m: "gMembers s1 = AList.update k m (gMembers s)" using p(5) by blast
  have ids: "member_ids s1 = insert k (member_ids s)" by (simp add: member_ids_def m dom_update)
  have ne: "gMembers s1 \<noteq> []" by (simp add: m)
  have wf: "map_wf (gMembers s1)" using ok by (simp add: m group_ok_def group_shape_def)
  have others: "\<forall>(k', m') \<in> set (gMembers s1). k' \<noteq> k \<longrightarrow> (k', m') \<in> set (gMembers s)"
    using set_update_subset [of k m "gMembers s"] by (auto simp: m)
  have shape: "group_shape s1" if "gState s \<noteq> groupStateEmpty"
    using ok that ne wf by (auto simp: group_ok_def group_shape_def p(1-4) ids)
  have keep: "group_ok (set_joined k t)"
    if "gState s \<noteq> groupStateEmpty" "t = s1 \<or> t = bumpRebalanceDeadline timeout now s1" for t
  proof -
    have t: "group_shape t" "gMembers t = gMembers s1" "gGenerationID t = gGenerationID s" "gState t = gState s"
      using shape [OF that(1)] that(2) p(2,3) by (auto simp: bump_shape)
    show ?thesis
    proof (rule set_joined_ok [OF t(1)])
      assume "gState t = groupStateCompletingRebalance \<or> gState t = groupStateStable"
      then have "all_joined s" using ok t(4) by (simp add: group_ok_def)
      then show "others_joined k t" using others by (fastforce simp: others_joined_def all_joined_def t)
    qed
  qed
  show "group_ok (set_joined k (join_rebalance k existed timeout now s1))"
    using startRebalance_ok [OF wf ne] startRebalance_ok [of "s1\<lparr>gLeaderID := k\<rparr>"] wf ne
    by (simp add: join_rebalance_def p(3) set_joined_again keep)
  show "gMembers (join_rebalance k existed timeout now s1) \<noteq> []"
    using ne by (simp add: join_rebalance_def startRebalance_members)
qed

lemma ensureLeader_ok: "group_ok s \<Longrightarrow> group_ok (ensureLeader s)"
  using leader_ensured [of s] by (auto simp: group_ok_def group_shape_def all_joined_def member_ids_def)

lemma join_ready_ok:
  assumes "group_ok s" "gMembers s \<noteq> []" "join_ready s = (ready, s1)"
  shows "group_ok s1" "gMembers s1 = gMembers s"
    "ready \<longleftrightarrow> gState s1 = groupStateCompletingRebalance \<or> gState s1 = groupStateStable"
proof -
  let ?C = "s\<lparr>gState := groupStateCompletingRebalance, gRebalanceDeadline := 0\<rparr>"
  consider (settled) "gState s = groupStateCompletingRebalance \<or> gState s = groupStateStable" "s1 = s" "ready"
    | (waiting) "gState s = groupStatePreparingRebalance" "s1 = s" "\<not> ready"
    | (complete) "gState s = groupStatePreparingRebalance" "s1 = ?C" "ready" "all_joined s"
  proof (cases "gState s = groupStateCompletingRebalance \<or> gState s = groupStateStable")
    case True
    then show thesis using assms(3) by (intro settled) (auto simp: join_ready_def)
  next
    case False
    then have p: "gState s = groupStatePreparingRebalance"
      using assms(1,2) by (cases "gState s") (simp_all add: group_ok_def group_shape_def)
    show thesis
    proof (cases "all_joined s")
      case True
      then have "completeIfReady s = (True, ?C)" using assms(2) by (auto simp: completeIfReady_def all_joined_def list_ex_iff)
      then show thesis using assms(3) p True by (intro complete) (simp_all add: join_ready_def)
    next
      case False
      then have "completeIfReady s = (False, s)" by (auto simp: completeIfReady_def all_joined_def list_ex_iff)
      then show thesis using assms(3) p by (intro waiting) (simp_all add: join_ready_def)
    qed
  qed
  then have "group_ok s1 \<and> gMembers s1 = gMembers s \<and>
    (ready \<longleftrightarrow> gState s1 = groupStateCompletingRebalance \<or> gState s1 = groupStateStable)"
  proof cases
    case complete
    then show ?thesis using assms(1) by (simp add: group_ok_def group_shape_def all_joined_def member_ids_def)
  qed (use assms(1) in auto)
  then show "group_ok s1" "gMembers s1 = gMembers s"
    "ready \<longleftrightarrow> gState s1 = groupStateCompletingRebalance \<or> gState s1 = groupStateStable" by blast+
qed

lemma join_state_ok:
  assumes "group_ok s" "join_state rnd clk req s = (k, ready, s1)"
  shows "group_ok s1" "gMembers s1 \<noteq> []"
    "ready \<longleftrightarrow> gState s1 = groupStateCompletingRebalance \<or> gState s1 = groupStateStable"
proof -
  define s0 where "s0 = s\<lparr>gProtocolType := jgProtocolType req,
    gProtocolName := (case jgProtocols req of [] \<Rightarrow> gProtocolName s | p # _ \<Rightarrow> jpName p)\<rparr>"
  define timeout where "timeout = (if jgRebalanceTimeoutMs req * millisecond \<le> 0 then defaultRebalanceTimeout
    else jgRebalanceTimeoutMs req * millisecond)"
  have ok: "group_ok s0" using assms(1) by (simp add: s0_def group_ok_def group_shape_def all_joined_def member_ids_def)
  obtain k' ex t where jm: "join_member rnd (clk 1) req s0 = (k', ex, t)" by (metis prod_cases3)
  define u where "u = set_joined k' (join_rebalance k' ex timeout (clk 2) t)"
  define v where "v = (if gLeaderID u = [] then ensureLeader u else u)"
  have v: "group_ok v" "gMembers v \<noteq> []"
    using join_rebalance_ok [OF ok jm] ensureLeader_ok by (simp_all add: u_def v_def)
  have "join_state rnd clk req s = (let (ready, s) = join_ready v in (k', ready, s))"
    by (simp only: join_state_def Let_def s0_def [symmetric] timeout_def [symmetric] jm prod.case u_def [symmetric] v_def [symmetric])
  then have "join_ready v = (ready, s1)" using assms(2) by (simp add: Let_def split: prod.splits)
  from join_ready_ok [OF v this] v show "group_ok s1" "gMembers s1 \<noteq> []"
    "ready \<longleftrightarrow> gState s1 = groupStateCompletingRebalance \<or> gState s1 = groupStateStable" by auto
qed

section \<open>The invariant under the other operations\<close>

lemma leave_state_ok:
  assumes "group_ok s" "gMembers (leave_state k now s) \<noteq> []"
  shows "group_ok (leave_state k now s)"
proof -
  let ?d = "s\<lparr>gMembers := AList.delete k (gMembers s), gAssignments := AList.delete k (gAssignments s)\<rparr>"
  have ne: "AList.delete k (gMembers s) \<noteq> []" using assms(2) by (auto simp: leave_state_def Let_def)
  have "group_ok (startRebalance 0 now (?d\<lparr>gLeaderID := l\<rparr>))" for l
    by (rule startRebalance_ok) (use assms(1) ne in \<open>simp_all add: group_ok_def group_shape_def\<close>)
  then show ?thesis using ne by (simp add: leave_state_def Let_def)
qed

lemma heartbeat_ok:
  assumes "group_ok s" "map_of (gMembers s) k = Some m"
  shows "group_ok (s\<lparr>gMembers := AList.update k (m\<lparr>mLastHeartbeat := t\<rparr>) (gMembers s)\<rparr>)"
proof -
  let ?s = "s\<lparr>gMembers := AList.update k (m\<lparr>mLastHeartbeat := t\<rparr>) (gMembers s)\<rparr>"
  have m: "(k, m) \<in> set (gMembers s)" "k \<in> member_ids s" using map_of_SomeD [OF assms(2)] by (force simp: member_ids_def)+
  then have ids: "member_ids ?s = member_ids s" by (auto simp: member_ids_def dom_update)
  have "gMembers s \<noteq> []" using m(1) by auto
  then have "group_shape ?s" using assms(1) by (simp add: group_ok_def group_shape_def ids)
  moreover have "all_joined ?s" if "all_joined s"
    using set_update_subset [of k "m\<lparr>mLastHeartbeat := t\<rparr>" "gMembers s"] m(1) that by (fastforce simp: all_joined_def)
  ultimately show ?thesis using assms(1) by (simp add: group_ok_def)
qed

lemma map_entry_keys: "map fst (AList.map_entry k f xs) = map fst xs"
  by (induction xs) auto

lemma share_keys [simp]: "map fst (give k t p r) = map fst r"
  by (simp add: give_def map_entry_keys)

lemma fold_give_keys: "map fst (fold (\<lambda>(i, p). give (f i) t p) ips r) = map fst r"
  by (induction ips arbitrary: r) (auto simp: case_prod_beta)

lemma assign_topic_keys [simp]: "map fst (assign_topic s tp r) = map fst r"
  by (simp add: assign_topic_def Let_def fold_give_keys split: prod.splits)

lemma shares_keys [simp]: "map fst (shares s topics) = sortedMembers s"
proof -
  have "map fst (fold (assign_topic s) topics r) = map fst r" for r by (induction topics arbitrary: r) simp_all
  then show ?thesis by (simp add: shares_def comp_def)
qed

lemma assignPartitions_keys:
  assumes "assignPartitions ops ctx s st = (Ok as, st1)"
  shows "map fst as = (if gMembers s = [] then [] else sortedMembers s)"
  using assms shares_keys by (auto simp: assignPartitions_def comp_def case_prod_beta split: prod.splits outcome.splits if_splits)

lemma stable_ok:
  assumes "group_ok s" "gState s = groupStateCompletingRebalance" "assignPartitions ops ctx s st = (Ok as, st1)"
  shows "group_ok (markStable (s\<lparr>gAssignments := as\<rparr>))"
proof -
  have ids: "set (sortedMembers s) = member_ids s" by (simp add: sortedMembers_def member_ids_def)
  have "map_wf as" "fst ` set as \<subseteq> member_ids s"
    using assignPartitions_keys [OF assms(3)] assms(1,2) ids
    by (auto simp: map_wf_def group_ok_def group_shape_def sortedMembers_def set_map [symmetric] simp del: set_map)
  then show ?thesis
    using assms(1,2) by (auto simp: markStable_def group_ok_def group_shape_def all_joined_def member_ids_def)
qed

section \<open>Stores that keep the groups they are given\<close>

text \<open>
  What the coordinator relies on: a store that holds only good groups returns only good groups, and
  no call makes it hold others, as long as only good groups are put into it.
\<close>

locale group_store =
  fixes ops :: "'s store_ops" and stored :: "'s \<Rightarrow> bool"
  assumes fetched: "stored st \<Longrightarrow> opFetchConsumerGroup ops ctx gid st = (Ok (Some g), st1) \<Longrightarrow> good_group g"
    and fetch_keeps: "stored st \<Longrightarrow> stored (snd (opFetchConsumerGroup ops ctx gid st))"
    and put_keeps: "stored st \<Longrightarrow> good_group g \<Longrightarrow> stored (snd (opPutConsumerGroup ops ctx g st))"
    and delete_keeps: "stored st \<Longrightarrow> stored (snd (opDeleteConsumerGroup ops ctx gid st))"
    and list_keeps: "stored st \<Longrightarrow> stored (snd (opListConsumerGroups ops ctx st))"
    and metadata_keeps: "stored st \<Longrightarrow> stored (snd (opMetadata ops ctx ts st))"
    and commit_keeps: "stored st \<Longrightarrow> stored (snd (opCommitConsumerOffset ops ctx gid t p off md st))"
    and fetch_offset_keeps: "stored st \<Longrightarrow> stored (snd (opFetchConsumerOffset ops ctx gid t p st))"
begin

definition coord_ok :: "'s coordinator \<Rightarrow> bool" where
  "coord_ok c \<longleftrightarrow> stored (cStore c) \<and> (\<forall>(gid, s) \<in> set (cGroups c). group_ok s)"

lemma coord_ok_store: "coord_ok c \<Longrightarrow> stored st \<Longrightarrow> coord_ok (c\<lparr>cStore := st\<rparr>)"
  by (simp add: coord_ok_def)

lemma coord_ok_put: "coord_ok c \<Longrightarrow> group_ok s \<Longrightarrow> coord_ok (put_group gid s c)"
  using set_update_subset [of gid s "cGroups c"] by (auto simp: coord_ok_def put_group_def)

lemma coord_ok_delete: "coord_ok c \<Longrightarrow> coord_ok (c\<lparr>cGroups := AList.delete gid (cGroups c)\<rparr>)"
  using set_delete_subset [of gid "cGroups c"] by (auto simp: coord_ok_def)

lemma coord_ok_group: "coord_ok c \<Longrightarrow> map_of (cGroups c) gid = Some s \<Longrightarrow> group_ok s"
  by (auto simp: coord_ok_def dest: map_of_SomeD)

lemma load_keeps:
  assumes "coord_ok c" "loadGroupIfMissing ops ctx now gid c = (r, c1)"
  shows "coord_ok c1" "r = Ok (Some s) \<Longrightarrow> group_ok s"
proof -
  have st: "stored (cStore c)" using assms(1) by (simp add: coord_ok_def)
  show "coord_ok c1" "r = Ok (Some s) \<Longrightarrow> group_ok s"
    using assms fetch_keeps [OF st, of ctx gid] fetched [OF st, of ctx gid]
      coord_ok_put [OF coord_ok_store [OF assms(1)] restore_ok]
    by (auto simp: loadGroupIfMissing_def Let_def put_group_def coord_ok_store restore_ok coord_ok_group
        split: option.splits prod.splits outcome.splits)
qed

lemma ensure_keeps:
  assumes "coord_ok c" "ensureGroup ops ctx now gid c = (r, c1)"
  shows "coord_ok c1" "r = Ok s \<Longrightarrow> group_ok s"
proof -
  have e: "group_ok empty_group" by (simp add: group_ok_def group_shape_def empty_group_def in_i32_def)
  obtain q c2 where l: "loadGroupIfMissing ops ctx now gid c = (q, c2)" by fastforce
  show "coord_ok c1" "r = Ok s \<Longrightarrow> group_ok s"
    using assms(2) load_keeps [OF assms(1) l] e coord_ok_put
    by (auto simp: ensureGroup_def l split: option.splits outcome.splits)
qed

lemma persist_keeps:
  assumes "coord_ok c" "case s of None \<Rightarrow> True | Some s \<Rightarrow> group_ok s" "persistGroupLocked ops ctx gid s c = (r, c1)"
  shows "coord_ok c1"
proof -
  have st: "stored (cStore c)" using assms(1) by (simp add: coord_ok_def)
  show ?thesis
    using assms delete_keeps [OF st, of ctx gid] put_keeps [OF st build_good]
    by (auto simp: persistGroupLocked_def coord_ok_store split: option.splits if_splits prod.splits) (metis coord_ok_store snd_conv)+
qed

end

section \<open>Every handler keeps the invariant\<close>

text \<open>The steps of a running coordinator: one handler, or one sweep, at a time.\<close>

inductive coord_step :: "'s store_ops \<Rightarrow> 's coordinator \<Rightarrow> 's coordinator \<Rightarrow> bool" for ops where
  step_join: "JoinGroup ops ctx rnd clk jreq cid c = (jr, c1) \<Longrightarrow> coord_step ops c c1"
| step_sync: "SyncGroup ops ctx now sreq cid c = (sr, c1) \<Longrightarrow> coord_step ops c c1"
| step_heartbeat: "Heartbeat ops ctx clk hreq cid c = (hr, c1) \<Longrightarrow> coord_step ops c c1"
| step_leave: "LeaveGroup ops ctx clk lreq cid c = (lr, c1) \<Longrightarrow> coord_step ops c c1"
| step_commit: "OffsetCommit ops ctx now creq cid c = (cr, c1) \<Longrightarrow> coord_step ops c c1"
| step_fetch: "OffsetFetch ops ctx freq cid c = (fr, c1) \<Longrightarrow> coord_step ops c c1"
| step_describe: "DescribeGroups ops ctx dreq cid c = (dr, c1) \<Longrightarrow> coord_step ops c c1"
| step_list: "ListGroups ops ctx greq cid c = (gr, c1) \<Longrightarrow> coord_step ops c c1"
| step_delete: "DeleteGroups ops ctx xreq cid c = (xr, c1) \<Longrightarrow> coord_step ops c c1"
| step_cleanup: "cleanupGroups ops clk c = (ur, c1) \<Longrightarrow> coord_step ops c c1"
| step_stop: "coord_step ops c (Stop c)"

lemma map_calls_keeps:
  assumes "map_calls f xs c = (r, c1)" "P c" "\<And>x c r c1. P c \<Longrightarrow> f x c = (r, c1) \<Longrightarrow> P c1"
  shows "P c1"
  using assms(1,2)
proof (induction xs arbitrary: c r c1)
  case (Cons x xs)
  obtain q d where f: "f x c = (q, d)" by fastforce
  then have "P d" using assms(3) Cons.prems(2) by blast
  obtain q1 d1 where m: "map_calls f xs d = (q1, d1)" by fastforce
  then have "P d1" using Cons.IH \<open>P d\<close> by blast
  with \<open>P d\<close> show ?case using Cons.prems(1) by (auto simp: f m split: outcome.splits)
qed simp

context group_store
begin

lemma put_persist_keeps:
  assumes "persistGroupLocked ops ctx gid (Some s) (put_group gid s c) = (r, c1)" "coord_ok c" "group_ok s"
  shows "coord_ok c1"
  by (rule persist_keeps [OF coord_ok_put [OF assms(2,3)] _ assms(1)]) (simp add: assms(3))

lemma drop_persist_keeps:
  assumes "persistGroupLocked ops ctx gid None (c\<lparr>cGroups := AList.delete gid (cGroups c)\<rparr>) = (r, c1)" "coord_ok c"
  shows "coord_ok c1"
  by (rule persist_keeps [OF coord_ok_delete [OF assms(2)] _ assms(1)]) simp

lemma join_keeps:
  assumes "coord_ok c" "JoinGroup ops ctx rnd clk req cid c = (r, c1)"
  shows "coord_ok c1"
proof -
  obtain q c2 where e: "ensureGroup ops ctx (clk 0) (jgGroupID req) c = (q, c2)" by fastforce
  note k = ensure_keeps [OF assms(1) e]
  show ?thesis
  proof (cases q)
    case (Ok s)
    obtain m ready t where j: "join_state rnd clk req s = (m, ready, t)" by (metis prod_cases3)
    obtain p c3 where p: "persistGroupLocked ops ctx (jgGroupID req) (Some t) (put_group (jgGroupID req) t c2) = (p, c3)" by fastforce
    have "group_ok t" using join_state_ok(1) [OF _ j] k(2) Ok by blast
    then have "coord_ok c3" using put_persist_keeps [OF p k(1)] by simp
    then show ?thesis using assms(2) by (simp add: JoinGroup_def e Ok j p Let_def)
  qed (use assms(2) k(1) in \<open>simp_all add: JoinGroup_def e\<close>)
qed

lemma sync_finish_keeps:
  assumes "coord_ok c" "group_ok s" "sync_finish ops ctx req cid s c = (r, c1)"
  shows "coord_ok c1"
  using assms persist_keeps [OF assms(1), of "Some s" ctx "sgGroupID req"]
  by (auto simp: sync_finish_def Let_def split: if_splits prod.splits)

lemma assign_keeps: "stored st \<Longrightarrow> stored (snd (assignPartitions ops ctx s st))"
  using metadata_keeps [of st ctx "subscriptions s"]
  by (auto simp: assignPartitions_def collectTopicPartitions_def split: prod.splits outcome.splits option.splits if_splits)

lemma sync_keeps:
  assumes "coord_ok c" "SyncGroup ops ctx now req cid c = (r, c1)"
  shows "coord_ok c1"
proof -
  obtain q c2 where l: "loadGroupIfMissing ops ctx now (sgGroupID req) c = (q, c2)" by fastforce
  note k = load_keeps [OF assms(1) l]
  show ?thesis
  proof (cases "\<exists>s. q = Ok (Some s)")
    case True
    then obtain s where q: "q = Ok (Some s)" by blast
    note s = k(2) [OF q]
    obtain p st where a: "assignPartitions ops ctx s (cStore c2) = (p, st)" by fastforce
    have "stored st" using assign_keeps [of "cStore c2" ctx s] k(1) a by (simp add: coord_ok_def)
    then have c3: "coord_ok (c2\<lparr>cStore := st\<rparr>)" using k(1) coord_ok_store by blast
    show ?thesis
    proof (cases "gState s = groupStateCompletingRebalance \<and> gAssignments s = []")
      case True
      have "coord_ok c1" if "p = Ok as" "sync_finish ops ctx req cid (markStable (s\<lparr>gAssignments := as\<rparr>))
          (put_group (sgGroupID req) (markStable (s\<lparr>gAssignments := as\<rparr>)) (c2\<lparr>cStore := st\<rparr>)) = (r, c1)" for as
        using stable_ok [OF s] True a that sync_finish_keeps coord_ok_put [OF c3] by metis
      then show ?thesis
        using assms(2) k(1) c3 True by (auto simp: SyncGroup_def l q a Let_def split: if_splits outcome.splits)
    next
      case False
      then show ?thesis
        using assms(2) k(1) sync_finish_keeps [OF k(1) s] by (auto simp: SyncGroup_def l q split: if_splits)
    qed
  qed (use assms(2) k(1) in \<open>auto simp: SyncGroup_def l split: outcome.splits option.splits\<close>)
qed

lemma heartbeat_keeps:
  assumes "coord_ok c" "Heartbeat ops ctx clk req cid c = (r, c1)"
  shows "coord_ok c1"
proof -
  obtain q c2 where l: "loadGroupIfMissing ops ctx (clk 0) (hbGroupID req) c = (q, c2)" by fastforce
  note k = load_keeps [OF assms(1) l]
  show ?thesis
    using assms(2) k
    by (auto simp: Heartbeat_def l Let_def intro: heartbeat_ok elim!: put_persist_keeps split: outcome.splits option.splits if_splits prod.splits)
qed

lemma leave_keeps:
  assumes "coord_ok c" "LeaveGroup ops ctx clk req cid c = (r, c1)"
  shows "coord_ok c1"
proof -
  obtain q c2 where l: "loadGroupIfMissing ops ctx (clk 0) (lgGroupID req) c = (q, c2)" by fastforce
  note k = load_keeps [OF assms(1) l]
  show ?thesis
    using assms(2) k
    by (auto simp: LeaveGroup_def l Let_def intro: leave_state_ok elim!: put_persist_keeps drop_persist_keeps
        split: outcome.splits option.splits if_splits prod.splits)
qed

lemma commit_partition_keeps:
  "stored st \<Longrightarrow> commit_partition ops ctx e gid t p st = (r, st1) \<Longrightarrow> stored st1"
  using commit_keeps [of st ctx gid t "ocPartition p" "ocOffset p" "ocMetadata p"]
  by (auto simp: commit_partition_def split: if_splits prod.splits)

lemma fetch_partition_keeps:
  "stored st \<Longrightarrow> fetch_committed ops ctx gid t p st = (r, st1) \<Longrightarrow> stored st1"
  using fetch_offset_keeps [of st ctx gid t p] by (auto simp: fetch_committed_def split: prod.splits outcome.splits)

lemma describe_group_keeps: "stored st \<Longrightarrow> describe_group ops ctx b gid st = (r, st1) \<Longrightarrow> stored st1"
  using fetch_keeps [of st ctx gid] by (auto simp: describe_group_def split: prod.splits outcome.splits option.splits)

lemma topic_keeps:
  "stored st \<Longrightarrow> commit_topic ops ctx e gid ct st = (r, st1) \<Longrightarrow> stored st1"
  "stored st \<Longrightarrow> fetch_committed_topic ops ctx gid ft st = (q, st1) \<Longrightarrow> stored st1"
  by (auto simp: commit_topic_def fetch_committed_topic_def split: prod.splits
      elim!: map_calls_keeps [where P = stored] intro: commit_partition_keeps fetch_partition_keeps)

lemma calls_keep:
  assumes "coord_ok c" "map_calls f xs (cStore c) = (r, st)" "\<And>x st r st1. stored st \<Longrightarrow> f x st = (r, st1) \<Longrightarrow> stored st1"
  shows "coord_ok (c\<lparr>cStore := st\<rparr>)"
proof (rule coord_ok_store [OF assms(1)])
  have "stored (cStore c)" using assms(1) by (simp add: coord_ok_def)
  then show "stored st" using map_calls_keeps [where P = stored, OF assms(2)] assms(3) by blast
qed

lemma delete_group_keeps:
  assumes "coord_ok c" "delete_group ops ctx gid c = (r, c1)"
  shows "coord_ok c1"
proof -
  have st: "stored (cStore c)" using assms(1) by (simp add: coord_ok_def)
  obtain q st1 where f: "opFetchConsumerGroup ops ctx gid (cStore c) = (q, st1)" by fastforce
  obtain p st2 where d: "opDeleteConsumerGroup ops ctx gid st1 = (p, st2)" by fastforce
  have "stored st1" "stored st2" using fetch_keeps [OF st, of ctx gid] delete_keeps [of st1 ctx gid] f d by auto
  then have "coord_ok (c\<lparr>cStore := st1\<rparr>)" "coord_ok (c\<lparr>cStore := st2\<rparr>)" using assms(1) coord_ok_store by blast+
  then show ?thesis
    using assms coord_ok_delete [of "c\<lparr>cStore := st1\<rparr>" gid] coord_ok_delete [of "c\<lparr>cStore := st2\<rparr>" gid]
    by (auto simp: delete_group_def deleteGroupState_def f d Let_def split: outcome.splits option.splits if_splits)
qed

lemma cleanup_group_keeps:
  assumes "coord_ok c" "cleanup_group ops now later gid c = (r, c1)"
  shows "coord_ok c1"
proof (cases "map_of (cGroups c) gid")
  case (Some s)
  obtain removed s1 where r: "removeExpiredMembers now s = (removed, s1)" by fastforce
  obtain lost s2 where l: "dropRebalanceLaggers now s1 = (lost, s2)" by fastforce
  have ok: "group_ok s" using coord_ok_group [OF assms(1) Some] .
  then have wf: "map_wf (gMembers s)" by (simp add: group_ok_def group_shape_def)
  have wf2: "map_wf (gMembers s2)" using sweeps_wf [OF wf] sweeps_wf(2) [of s1 now] r l by (metis snd_conv)
  have same: "s2 = s" if "gMembers s2 \<noteq> []" "\<not> removed" "\<not> lost"
  proof -
    have "gMembers s \<noteq> []" using that r l by (auto simp: removeExpiredMembers_def dropRebalanceLaggers_def drop_members_def Let_def split: if_splits)
    then have "s1 = s" using drop_members_wf(2) [OF wf] r that by (simp add: removeExpiredMembers_def)
    then show ?thesis using drop_members_wf(2) [OF wf] l that \<open>gMembers s \<noteq> []\<close> by (auto simp: dropRebalanceLaggers_def split: if_splits)
  qed
  show ?thesis
    using assms ok same
    by (auto simp: cleanup_group_def Some r l Let_def deleteGroupState_def intro: startRebalance_ok wf2 coord_ok_put
        elim!: put_persist_keeps drop_persist_keeps split: if_splits prod.splits)
qed (use assms in \<open>simp add: cleanup_group_def\<close>)

lemma step_keeps: "coord_step ops c c1 \<Longrightarrow> coord_ok c \<Longrightarrow> coord_ok c1"
proof (induction rule: coord_step.induct)
  case (step_commit ctx now creq cid c cr c1)
  obtain q c2 where l: "loadGroupIfMissing ops ctx now (ocrGroupID creq) c = (q, c2)" by fastforce
  note k = load_keeps(1) [OF step_commit(2) l]
  show ?case
    using step_commit(1) k by (auto simp: OffsetCommit_def l split: outcome.splits prod.splits intro: calls_keep topic_keeps)
next
  case (step_list ctx greq cid c gr c1)
  then have "stored (snd (opListConsumerGroups ops ctx (cStore c)))" using list_keeps by (simp add: coord_ok_def)
  then show ?case using step_list by (auto simp: ListGroups_def coord_ok_store split: outcome.splits prod.splits)
next
  case (step_delete ctx xreq cid c xr c1)
  then show ?case
    by (auto simp: DeleteGroups_def split: prod.splits intro: map_calls_keeps [where P = coord_ok] delete_group_keeps)
next
  case (step_cleanup clk c ur c1)
  then show ?case
    by (auto simp: cleanupGroups_def intro: map_calls_keeps [where P = coord_ok] cleanup_group_keeps)
next
  case (step_stop c)
  then show ?case by (simp add: Stop_def coord_ok_def)
qed (auto simp: OffsetFetch_def DescribeGroups_def split: prod.splits
    intro: join_keeps sync_keeps heartbeat_keeps leave_keeps calls_keep topic_keeps describe_group_keeps)

lemma reachable_ok: "(coord_step ops)\<^sup>*\<^sup>* c c1 \<Longrightarrow> coord_ok c \<Longrightarrow> coord_ok c1"
  by (induction rule: rtranclp_induct) (auto intro: step_keeps)

end

section \<open>The in-memory store keeps the groups it is given\<close>

definition mem_stored :: "mem_store \<Rightarrow> bool" where
  "mem_stored st \<longleftrightarrow> (\<forall>(gid, g) \<in> set (msConsumerGroups st). good_group g)"

lemma clone_good: "good_group g \<Longrightarrow> good_group (cloneConsumerGroup g)"
  by (auto simp: good_group_def cloneConsumerGroup_def clone_member_def map_wf_def comp_def case_prod_beta)

interpretation memg: group_store mem_ops mem_stored
proof unfold_locales
  fix st ctx gid g st1
  assume "mem_stored st" "opFetchConsumerGroup mem_ops ctx gid st = (Ok (Some g), st1)"
  then show "good_group g"
    by (auto simp: mem_stored_def mem_ops_def FetchConsumerGroup_def clone_good split: if_splits dest!: map_of_SomeD)
next
  fix st g ctx
  assume "mem_stored st" "good_group g"
  then show "mem_stored (snd (opPutConsumerGroup mem_ops ctx g st))"
    using set_update_subset [of "cgGroupId g" "cloneConsumerGroup g" "msConsumerGroups st"] clone_good [of g]
    by (auto simp: mem_stored_def mem_ops_def PutConsumerGroup_def)
next
  fix st ctx gid
  assume "mem_stored st"
  then show "mem_stored (snd (opDeleteConsumerGroup mem_ops ctx gid st))"
    using set_delete_subset [of gid "msConsumerGroups st"] by (auto simp: mem_stored_def mem_ops_def DeleteConsumerGroup_def)
qed (auto simp: mem_ops_def FetchConsumerGroup_def ListConsumerGroups_def Metadata_def CommitConsumerOffset_def
    FetchConsumerOffset_def mem_stored_def Let_def)

text \<open>
  C27: whatever requests and sweeps a coordinator over the in-memory store has handled, in any order
  and with any clock, each of its groups has one entry per member, a leader that is a member,
  assignments only of members and only while it is stable, is empty exactly when it has no member,
  is never dead, and in the completing and stable phases has only members of the current generation.
\<close>

theorem coordinator_invariant:
  assumes "(coord_step mem_ops)\<^sup>*\<^sup>* (NewGroupCoordinator st broker cfg) c" "msConsumerGroups st = []"
    and "map_of (cGroups c) gid = Some s"
  shows "group_ok s"
proof -
  have "memg.coord_ok (NewGroupCoordinator st broker cfg)"
    using assms(2) by (simp add: memg.coord_ok_def NewGroupCoordinator_def mem_stored_def)
  from memg.coord_ok_group [OF memg.reachable_ok [OF assms(1) this] assms(3)] show ?thesis .
qed

definition demo_join :: "string \<Rightarrow> join_group_request" where
  "demo_join member = \<lparr>jgGroupID = ''g'', jgSessionTimeoutMs = 10000, jgRebalanceTimeoutMs = 0, jgMemberID = member,
     jgProtocolType = ''consumer'', jgProtocols = [\<lparr>jpName = ''range'', jpMetadata = encodeSubscription [''a'']\<rparr>]\<rparr>"

definition demo_coordinator :: "mem_store coordinator" where
  "demo_coordinator = NewGroupCoordinator (NewInMemoryStore demo_cluster) \<lparr>mbNodeID = 1, mbHost = ''h'', mbPort = 9092, mbRack = None\<rparr> None"

definition joined_coordinator :: "mem_store coordinator" where
  "joined_coordinator = snd (JoinGroup mem_ops False 8 (\<lambda>i. 100) (demo_join []) 2
     (snd (JoinGroup mem_ops False 7 (\<lambda>i. 100) (demo_join []) 1 demo_coordinator)))"

theorem coordinator_invariant_witness:
  "case map_of (cGroups joined_coordinator) ''g'' of None \<Rightarrow> False | Some s \<Rightarrow> length (gMembers s) = 2 \<and> group_ok s"
proof -
  have r: "(coord_step mem_ops)\<^sup>*\<^sup>* demo_coordinator joined_coordinator"
    unfolding joined_coordinator_def by (metis converse_rtranclp_into_rtranclp prod.collapse r_into_rtranclp step_join)
  have e: "msConsumerGroups (NewInMemoryStore demo_cluster) = []" by (simp add: NewInMemoryStore_def)
  have "case map_of (cGroups joined_coordinator) ''g'' of None \<Rightarrow> False | Some s \<Rightarrow> length (gMembers s) = 2" by code_simp
  then show ?thesis
    using coordinator_invariant [OF r [unfolded demo_coordinator_def] e] by (auto split: option.splits)
qed

end
