(* ===== verification/Group_Rebalance.thy ===== *)
theory Group_Rebalance
  imports Group_Correctness "HOL-Library.Multiset"
begin

text \<open>
  What a rebalance achieves: the partitions of every topic are dealt out to the members that
  subscribe to it, a rebalance completes once every member has joined and the leader syncs, and
  members of an older generation are fenced off. Groups survive a restart through the store, and
  offsets committed through the coordinator are the ones it returns.
\<close>

section \<open>Dealing out partitions\<close>

definition eligible :: "group_state \<Rightarrow> string \<Rightarrow> string list" where
  "eligible s topic = filter (\<lambda>k. memberSubscribes (map_of (gMembers s) k) topic) (sortedMembers s)"

definition dealt :: "string list \<Rightarrow> string \<Rightarrow> int list \<Rightarrow> nat \<Rightarrow> int list" where
  "dealt el k ps i = map snd (filter (\<lambda>(j, p). el ! (j mod length el) = k) (enumerate i ps))"

definition share_at :: "topic_shares \<Rightarrow> string \<Rightarrow> string \<Rightarrow> int list" where
  "share_at r k t = get_or [] (get_or [] r k) t"

declare get_or_update [simp]

lemma get_or_map_entry:
  "get_or d (AList.map_entry k f m) k' = (if k' = k \<and> k \<in> fst ` set m then f (get_or d m k) else get_or d m k')"
proof (induction m)
  case (Cons x m)
  have "k \<notin> fst ` set m \<Longrightarrow> map_of m k = None" by (simp add: map_of_eq_None_iff)
  then show ?case using Cons by (cases x; cases "k \<in> fst ` set m") (auto simp: get_or_def)
qed (simp add: get_or_def)

lemma share_give:
  "k \<in> fst ` set r \<Longrightarrow> share_at (give k t p r) k' t' = share_at r k' t' @ (if k' = k \<and> t' = t then [p] else [])"
  by (auto simp: share_at_def give_def get_or_map_entry)

lemma share_fold:
  assumes "set el \<subseteq> fst ` set r" "el \<noteq> []"
  shows "share_at (fold (\<lambda>(j, p). give (el ! (j mod length el)) t p) (enumerate i ps) r) k t' =
    share_at r k t' @ (if t' = t then dealt el k ps i else [])"
  using assms
proof (induction ps arbitrary: r i)
  case (Cons p ps)
  let ?m = "el ! (i mod length el)"
  have m: "?m \<in> fst ` set r" using Cons.prems by (meson length_greater_0_conv mod_less_divisor nth_mem subsetD)
  have "fst ` set (give ?m t p r) = fst ` set r" by (metis share_keys set_map)
  then show ?case
    using Cons.IH [of "give ?m t p r" "Suc i"] Cons.prems share_give [OF m, of t p k t'] by (auto simp: dealt_def)
qed (simp add: dealt_def)

lemma share_assign_topic:
  assumes "fst ` set r = member_ids s"
  shows "share_at (assign_topic s (t, ps) r) k t' =
    share_at r k t' @ (if t' = t \<and> eligible s t \<noteq> [] then dealt (eligible s t) k ps 0 else [])"
proof -
  have "set (eligible s t) \<subseteq> fst ` set r" using assms by (auto simp: eligible_def sortedMembers_def member_ids_def)
  then show ?thesis
    using share_fold [of "eligible s t" r t 0 ps k t'] by (auto simp: assign_topic_def Let_def eligible_def [symmetric])
qed

lemma share_all:
  assumes "fst ` set r = member_ids s" "map_wf topics"
  shows "share_at (fold (assign_topic s) topics r) k t =
    share_at r k t @ (case map_of topics t of None \<Rightarrow> [] | Some ps \<Rightarrow> if eligible s t = [] then [] else dealt (eligible s t) k ps 0)"
  using assms
proof (induction topics arbitrary: r)
  case (Cons tp topics)
  obtain t0 ps where tp: "tp = (t0, ps)" by fastforce
  have "fst ` set (assign_topic s tp r) = member_ids s" using Cons.prems(1) by (metis assign_topic_keys set_map)
  moreover have "map_of topics t0 = None" using Cons.prems(2) by (simp add: tp map_wf_def map_of_eq_None_iff)
  ultimately show ?case
    using Cons.IH [of "assign_topic s tp r"] Cons.prems share_assign_topic [of r s t0 ps k t]
    by (auto simp: tp map_wf_def split: option.splits)
qed simp

lemma shares_dealt:
  assumes "map_wf topics"
  shows "share_at (shares s topics) k t =
    (case map_of topics t of None \<Rightarrow> [] | Some ps \<Rightarrow> if eligible s t = [] then [] else dealt (eligible s t) k ps 0)"
proof -
  have init: "fst ` set (map (\<lambda>k. (k, [])) (sortedMembers s)) = member_ids s"
    by (auto simp: sortedMembers_def member_ids_def image_image)
  have "share_at (map (\<lambda>k. (k, [])) ks) k t = []" for ks
    by (induction ks) (auto simp: share_at_def get_or_def)
  with share_all [OF init assms, of k t] show ?thesis by (simp add: shares_def)
qed

text \<open>The partitions of a topic that an assignment gives to a member.\<close>

definition assigned :: "(string \<times> assignment_topic list) list \<Rightarrow> string \<Rightarrow> string \<Rightarrow> int list" where
  "assigned as k t = concat (map atPartitions (filter (\<lambda>a. atName a = t) (get_or [] as k)))"

lemma filter_eq_distinct: "distinct xs \<Longrightarrow> filter (\<lambda>x. x = a) xs = (if a \<in> set xs then [a] else [])"
  by (induction xs) auto

lemma member_share_of:
  assumes "map_wf tm"
  shows "concat (map atPartitions (filter (\<lambda>a. atName a = t) (member_share tm))) = sort (get_or [] tm t)"
proof -
  have d: "distinct (sort (map fst tm))" using assms by (simp add: map_wf_def)
  have "filter (\<lambda>a. atName a = t) (member_share tm) =
      map (\<lambda>n. \<lparr>atName = n, atPartitions = sort (get_or [] tm n)\<rparr>) (filter (\<lambda>n. n = t) (sort (map fst tm)))"
    by (simp add: member_share_def filter_map comp_def)
  also have "filter (\<lambda>n. n = t) (sort (map fst tm)) = (if t \<in> fst ` set tm then [t] else [])"
    using filter_eq_distinct [OF d, of t] by simp
  finally have "filter (\<lambda>a. atName a = t) (member_share tm) =
      (if t \<in> fst ` set tm then [\<lparr>atName = t, atPartitions = sort (get_or [] tm t)\<rparr>] else [])" by simp
  then show ?thesis by (auto simp: get_or_def map_of_eq_None_iff split: option.splits dest: map_of_SomeD) (metis fst_conv image_eqI map_of_SomeD)
qed

definition shares_wf :: "topic_shares \<Rightarrow> bool" where
  "shares_wf r \<longleftrightarrow> (\<forall>(k, tm) \<in> set r. map_wf tm)"

lemma give_wf: "shares_wf r \<Longrightarrow> shares_wf (give k t p r)"
  by (induction r) (auto simp: shares_wf_def give_def)

lemma fold_give_wf: "shares_wf r \<Longrightarrow> shares_wf (fold (\<lambda>(i, p). give (f i) t p) ips r)"
  by (induction ips arbitrary: r) (auto simp: case_prod_beta give_wf)

lemma assign_topic_wf: "shares_wf r \<Longrightarrow> shares_wf (assign_topic s tp r)"
  by (simp add: assign_topic_def Let_def fold_give_wf split: prod.splits)

lemma shares_are_wf: "shares_wf (shares s topics)"
proof -
  have "shares_wf r \<Longrightarrow> shares_wf (fold (assign_topic s) topics r)" for r
    by (induction topics arbitrary: r) (simp_all add: assign_topic_wf)
  moreover have "shares_wf (map (\<lambda>k. (k, [])) (sortedMembers s))" by (auto simp: shares_wf_def)
  ultimately show ?thesis by (simp add: shares_def)
qed

lemma assigned_dealt:
  assumes "map_wf topics" "map_of topics t = Some ps"
  shows "assigned (map (\<lambda>(k, tm). (k, member_share tm)) (shares s topics)) k t =
    (if eligible s t = [] then [] else sort (dealt (eligible s t) k ps 0))"
proof -
  let ?r = "shares s topics"
  have "get_or [] (map (\<lambda>(k, tm). (k, member_share tm)) r) k = member_share (get_or [] r k)" for r :: topic_shares
    by (induction r) (auto simp: get_or_def member_share_def)
  moreover have "map_wf (get_or [] ?r k)"
    using shares_are_wf [of s topics] by (fastforce simp: shares_wf_def get_or_def split: option.splits dest: map_of_SomeD)
  ultimately have "assigned (map (\<lambda>(k, tm). (k, member_share tm)) ?r) k t = sort (share_at ?r k t)"
    by (simp add: assigned_def member_share_of share_at_def)
  then show ?thesis using shares_dealt [OF assms(1), of s k t] assms(2) by simp
qed

section \<open>Every partition once, and evenly\<close>

lemma sum_filter_mset:
  assumes "finite K"
  shows "(\<Sum>k\<in>K. mset (map g (filter (\<lambda>x. f x = k) xs))) = mset (map g (filter (\<lambda>x. f x \<in> K) xs))"
proof (induction xs)
  case (Cons x xs)
  have "(\<Sum>k\<in>K. mset (map g (filter (\<lambda>x. f x = k) (x # xs)))) =
      (\<Sum>k\<in>K. (if f x = k then {#g x#} else {#}) + mset (map g (filter (\<lambda>x. f x = k) xs)))"
    by (rule sum.cong) auto
  also have "\<dots> = (if f x \<in> K then {#g x#} else {#}) + mset (map g (filter (\<lambda>x. f x \<in> K) xs))"
    using assms by (simp add: sum.distrib sum.delta' Cons.IH [unfolded mset_map mset_filter])
  finally show ?case by simp
qed simp

lemma dealt_once:
  assumes "el \<noteq> []" "set el \<subseteq> K" "finite K"
  shows "(\<Sum>k\<in>K. mset (dealt el k ps i)) = mset ps"
proof -
  have "el ! (j mod length el) \<in> K" for j using assms by (meson length_greater_0_conv mod_less_divisor nth_mem subsetD)
  then have f: "filter (\<lambda>x. el ! (fst x mod length el) \<in> K) xs = xs" for xs :: "(nat \<times> int) list" by simp
  show ?thesis
    using sum_filter_mset [OF assms(3), of snd "\<lambda>x. el ! (fst x mod length el)" "enumerate i ps"]
    by (simp add: dealt_def case_prod_beta f)
qed

lemma count_mod:
  assumes "j < n"
  shows "length (filter (\<lambda>i. i mod n = j) [0..<m]) = m div n + (if j < m mod n then 1 else 0)"
proof (induction m)
  case (Suc m)
  show ?case
    using assms Suc by (cases "Suc (m mod n) = n") (auto simp: mod_Suc div_Suc)
qed (use assms in simp)

lemma dealt_length:
  assumes "distinct el" "j < length el"
  shows "length (dealt el (el ! j) ps 0) = length ps div length el + (if j < length ps mod length el then 1 else 0)"
proof -
  have "length (dealt el (el ! j) ps 0) = length (filter (\<lambda>i. i mod length el = j) (map fst (enumerate 0 ps)))"
  proof -
    have "(el ! (i mod length el) = el ! j) = (i mod length el = j)" for i
      using nth_eq_iff_index_eq [OF assms(1), of "i mod length el" j] assms(2) mod_less_divisor [of "length el" i] by linarith
    moreover have "length (filter P (map fst xs)) = length (filter (\<lambda>(i, p). P i) xs)" for P and xs :: "(nat \<times> int) list"
      by (induction xs) auto
    ultimately show ?thesis by (simp only: dealt_def length_map)
  qed
  then show ?thesis using count_mod [OF assms(2), of "length ps"] by simp
qed

lemma subscriptions_distinct: "distinct (subscriptions s)"
proof -
  have "distinct acc \<Longrightarrow> distinct (fold (\<lambda>t acc. if t \<in> set acc then acc else acc @ [t]) ts acc)" for acc ts :: "string list"
    by (induction ts arbitrary: acc) auto
  then show ?thesis by (simp add: subscriptions_def)
qed

lemma collect_wf:
  assumes "collectTopicPartitions ops ctx s st = (Ok topics, st1)"
  shows "map_wf topics"
proof -
  have "map_wf m \<Longrightarrow> map_wf (fold (\<lambda>t m. AList.update (f t) (g t) m) ts m)" for m :: "(string \<times> int list) list" and f g and ts :: "metadata_topic list"
    by (induction ts arbitrary: m) auto
  then show ?thesis
    using assms subscriptions_distinct [of s]
    by (auto simp: collectTopicPartitions_def Let_def map_wf_def comp_def split: if_splits prod.splits outcome.splits option.splits)
qed

lemma eligible_iff:
  "k \<in> set (eligible s t) \<longleftrightarrow> (\<exists>m. map_of (gMembers s) k = Some m \<and> t \<in> set (mTopics m))"
  by (auto simp: eligible_def memberSubscribes_def sortedMembers_def split: option.splits)
    (metis fst_conv image_eqI map_of_SomeD)


definition three_members :: group_state where
  "three_members = empty_group\<lparr>gMembers :=
     [(''c'', \<lparr>mTopics = [''a''], mSessionTimeout = 0, mLastHeartbeat = 0, mJoinGeneration = 0\<rparr>),
      (''b'', \<lparr>mTopics = [''a''], mSessionTimeout = 0, mLastHeartbeat = 0, mJoinGeneration = 0\<rparr>),
      (''d'', \<lparr>mTopics = [''x''], mSessionTimeout = 0, mLastHeartbeat = 0, mJoinGeneration = 0\<rparr>)]\<rparr>"

definition one_topic_store :: mem_store where
  "one_topic_store = (NewInMemoryStore demo_cluster)\<lparr>msState := demo_cluster\<lparr>cmTopics :=
     [\<lparr>mtErrorCode = 0, mtName = ''a'', mtTopicID = replicate 16 1, mtIsInternal = False,
       mtPartitions = [new_partition 1 0, new_partition 1 1, new_partition 1 2], mtTopicAuthorizedOperations = 0\<rparr>]\<rparr>\<rparr>"


section \<open>Fencing\<close>

lemma map_calls_pure: "(\<And>x. x \<in> set xs \<Longrightarrow> f x st = (Ok (g x), st)) \<Longrightarrow> map_calls f xs st = (Ok (map g xs), st)"
  by (induction xs) auto

lemma fenced_commit:
  assumes "code \<noteq> NONE"
  shows "map_calls (commit_topic ops ctx code gid) ts st = (Ok (map (\<lambda>t. \<lparr>ocsName = octName t,
    ocsPartitions = map (\<lambda>p. \<lparr>ocpPartition = ocPartition p, ocpErrorCode = code\<rparr>) (octPartitions t)\<rparr>) ts), st)"
proof (rule map_calls_pure)
  fix t :: offset_commit_topic
  have "map_calls (commit_partition ops ctx code gid (octName t)) (octPartitions t) st =
      (Ok (map (\<lambda>p. \<lparr>ocpPartition = ocPartition p, ocpErrorCode = code\<rparr>) (octPartitions t)), st)"
    by (rule map_calls_pure) (simp add: commit_partition_def assms)
  then show "commit_topic ops ctx code gid t st = (Ok \<lparr>ocsName = octName t,
      ocsPartitions = map (\<lambda>p. \<lparr>ocpPartition = ocPartition p, ocpErrorCode = code\<rparr>) (octPartitions t)\<rparr>, st)"
    by (simp add: commit_topic_def)
qed



section \<open>A rebalance completes\<close>

lemma mem_persist:
  assumes "gMembers s \<noteq> []" "gid \<noteq> []"
  shows "\<exists>st. persistGroupLocked mem_ops False gid (Some s) c = (Ok (), c\<lparr>cStore := st\<rparr>)"
  using assms by (auto simp: persistGroupLocked_def mem_ops_def PutConsumerGroup_def buildConsumerGroup_def)

lemma ids_ensureLeader [simp]: "member_ids (ensureLeader s) = member_ids s"
  by (simp add: member_ids_def)

lemma join_last:
  assumes "group_ok s" "gState s = groupStatePreparingRebalance" "others_joined k s" "k \<in> member_ids s" "k \<noteq> []"
    and "jgMemberID req = k"
  shows "\<exists>s1. join_state rnd clk req s = (k, True, s1) \<and> gState s1 = groupStateCompletingRebalance \<and>
    gGenerationID s1 = gGenerationID s \<and> gAssignments s1 = [] \<and> member_ids s1 = member_ids s"
proof -
  define s0 where "s0 = s\<lparr>gProtocolType := jgProtocolType req,
    gProtocolName := (case jgProtocols req of [] \<Rightarrow> gProtocolName s | p # _ \<Rightarrow> jpName p)\<rparr>"
  define timeout where "timeout = (if jgRebalanceTimeoutMs req * millisecond \<le> 0 then defaultRebalanceTimeout
    else jgRebalanceTimeoutMs req * millisecond)"
  have s0: "gMembers s0 = gMembers s" "gState s0 = groupStatePreparingRebalance" "gGenerationID s0 = gGenerationID s"
    "gAssignments s0 = []" using assms(1,2) by (simp_all add: s0_def group_ok_def group_shape_def)
  obtain m where m: "map_of (gMembers s) k = Some m" using assms(4) by (auto simp: member_ids_def map_of_eq_None_iff dest: weak_map_of_SomeI)
  then obtain m1 where jm: "join_member rnd (clk 1) req s0 = (k, True, s0\<lparr>gMembers := AList.update k m1 (gMembers s)\<rparr>)"
    using assms(5,6) by (auto simp: join_member_def Let_def s0)
  define s2 where "s2 = bumpRebalanceDeadline timeout (clk 2) (s0\<lparr>gMembers := AList.update k m1 (gMembers s)\<rparr>)"
  have jr: "join_rebalance k True timeout (clk 2) (s0\<lparr>gMembers := AList.update k m1 (gMembers s)\<rparr>) = s2"
    by (simp add: join_rebalance_def s0 s2_def)
  define u where "u = set_joined k s2"
  define v where "v = (if gLeaderID u = [] then ensureLeader u else u)"
  have wf: "map_wf (gMembers s)" using assms(1) by (simp add: group_ok_def group_shape_def)
  have f: "gMembers s2 = AList.update k m1 (gMembers s)" "gState s2 = groupStatePreparingRebalance"
    "gGenerationID s2 = gGenerationID s" "gAssignments s2 = []" by (simp_all add: s2_def s0)
  have "others_joined k s2"
    using assms(3) set_update_subset [of k m1 "gMembers s"] by (fastforce simp: others_joined_def f)
  then have "all_joined u" using set_joined_all [of s2 k] wf by (simp add: u_def f)
  then have "all_joined v" by (simp add: v_def all_joined_def)
  moreover have "member_ids s2 = member_ids s" using assms(4) by (auto simp: member_ids_def f dom_update)
  then have "member_ids v = member_ids s" by (simp add: v_def u_def)
  moreover have "gMembers v \<noteq> []" "gState v = groupStatePreparingRebalance" "gGenerationID v = gGenerationID s" "gAssignments v = []"
    by (simp_all add: v_def u_def f)
  moreover have "join_state rnd clk req s = (let (ready, s) = join_ready v in (k, ready, s))"
    by (simp only: join_state_def Let_def s0_def [symmetric] timeout_def [symmetric] jm prod.case jr u_def [symmetric] v_def [symmetric])
  ultimately show ?thesis
    by (auto simp: join_ready_def completeIfReady_def all_joined_def list_ex_iff member_ids_def)
qed

lemma mem_assign: "\<exists>as. assignPartitions mem_ops False s st = (Ok as, st)"
proof -
  obtain meta where "Metadata False (subscriptions s) st = (Ok (Some meta), st)"
    by (cases "subscriptions s = []") (simp_all add: Metadata_def Let_def)
  then have "\<exists>topics. collectTopicPartitions mem_ops False s st = (Ok topics, st)"
    by (auto simp: collectTopicPartitions_def mem_ops_def)
  then show ?thesis by (auto simp: assignPartitions_def)
qed

lemma sync_leader:
  assumes "map_of (cGroups c) gid = Some s" "group_ok s" "gState s = groupStateCompletingRebalance" "gid \<noteq> []"
    and "sgGroupID req = gid" "sgGenerationID req = gGenerationID s" "sgMemberID req = gLeaderID s"
  shows "\<exists>r c1 s1. SyncGroup mem_ops False now req cid c = (Ok r, c1) \<and> sgrErrorCode r = NONE \<and>
    map_of (cGroups c1) gid = Some s1 \<and> gState s1 = groupStateStable \<and> gGenerationID s1 = gGenerationID s \<and>
    map fst (gAssignments s1) = sortedMembers s1 \<and> sgrAssignment r = Some (encodeAssignment (get_or [] (gAssignments s1) (gLeaderID s)))"
proof -
  obtain as where as: "assignPartitions mem_ops False s (cStore c) = (Ok as, cStore c)" using mem_assign by blast
  have ne: "gMembers s \<noteq> []" "gAssignments s = []" "gLeaderID s \<in> member_ids s"
    using assms(2,3) by (auto simp: group_ok_def group_shape_def)
  define s1 where "s1 = markStable (s\<lparr>gAssignments := as\<rparr>)"
  have s1: "gMembers s1 = gMembers s" "gState s1 = groupStateStable" "gAssignments s1 = as" "gGenerationID s1 = gGenerationID s"
    using assms(3) by (simp_all add: s1_def markStable_def)
  obtain st where p: "persistGroupLocked mem_ops False gid (Some s1) (put_group gid s1 c) = (Ok (), put_group gid s1 c\<lparr>cStore := st\<rparr>)"
    using mem_persist [of s1 gid] ne(1) assms(4) by (auto simp: s1)
  obtain m where "map_of (gMembers s) (gLeaderID s) = Some m"
    using ne(3) by (cases "map_of (gMembers s) (gLeaderID s)") (auto simp: member_ids_def map_of_eq_None_iff)
  then have "SyncGroup mem_ops False now req cid c = sync_finish mem_ops False req cid s1 (put_group gid s1 c)"
    using assms as ne(2) by (simp add: SyncGroup_def loadGroupIfMissing_def Let_def s1_def)
  moreover have "\<exists>r. sync_finish mem_ops False req cid s1 (put_group gid s1 c) = (Ok r, put_group gid s1 c\<lparr>cStore := st\<rparr>) \<and> sgrErrorCode r = NONE \<and>
      sgrAssignment r = Some (encodeAssignment (get_or [] (gAssignments s1) (gLeaderID s)))"
    using assms(5,7) p by (simp add: sync_finish_def Let_def s1 with_persist_def)
  moreover have "map_of (cGroups (put_group gid s1 c\<lparr>cStore := st\<rparr>)) gid = Some s1" by (simp add: put_group_def update_conv')
  moreover have "map fst (gAssignments s1) = sortedMembers s1"
    using assignPartitions_keys [OF as] ne(1) by (simp add: s1 sortedMembers_def)
  ultimately show ?thesis using s1 by metis
qed

text \<open>
  C30: a rebalance over the in-memory store completes. When every other member has joined the current
  generation, the join of the last one is answered without an error in that generation, and the sync
  of the leader it names then makes the group stable, still in that generation, with an assignment
  for every member, and returns the leader its own assignment.
\<close>

theorem rebalance_completes:
  assumes "map_of (cGroups c) gid = Some s" "group_ok s" "gState s = groupStatePreparingRebalance"
    and "others_joined k s" "k \<in> member_ids s" "k \<noteq> []" "gid \<noteq> []"
    and "jgGroupID jreq = gid" "jgMemberID jreq = k"
    and "JoinGroup mem_ops False rnd clk jreq cid c = (r, c1)"
  shows "\<exists>jr. r = Ok jr \<and> jgrErrorCode jr = NONE \<and> jgrMemberID jr = k \<and> jgrGenerationID jr = gGenerationID s \<and>
    (\<forall>as. \<exists>sr c2 s2. SyncGroup mem_ops False now
        \<lparr>sgGroupID = gid, sgGenerationID = gGenerationID s, sgMemberID = jgrLeaderID jr, sgAssignments = as\<rparr> cid' c1 = (Ok sr, c2) \<and>
      sgrErrorCode sr = NONE \<and> map_of (cGroups c2) gid = Some s2 \<and> gState s2 = groupStateStable \<and>
      gGenerationID s2 = gGenerationID s \<and> map fst (gAssignments s2) = sortedMembers s2 \<and>
      sgrAssignment sr = Some (encodeAssignment (get_or [] (gAssignments s2) (jgrLeaderID jr))))"
proof -
  obtain s1 where j: "join_state rnd clk jreq s = (k, True, s1)" and s1: "gState s1 = groupStateCompletingRebalance"
    "gGenerationID s1 = gGenerationID s" using join_last [OF assms(2-6,9)] by blast
  note ok = join_state_ok [OF assms(2) j]
  obtain st where p: "persistGroupLocked mem_ops False gid (Some s1) (put_group gid s1 c) = (Ok (), put_group gid s1 c\<lparr>cStore := st\<rparr>)"
    using mem_persist [OF ok(2) assms(7)] by blast
  have e: "ensureGroup mem_ops False (clk 0) gid c = (Ok s, c)" using assms(1) by (simp add: ensureGroup_def loadGroupIfMissing_def)
  from assms(8,10) obtain jr where jr: "r = Ok jr" "jgrErrorCode jr = NONE" "jgrMemberID jr = k" "jgrGenerationID jr = gGenerationID s"
    "jgrLeaderID jr = gLeaderID s1" and c1: "c1 = put_group gid s1 c\<lparr>cStore := st\<rparr>"
    by (auto simp: JoinGroup_def e j p Let_def with_persist_def s1)
  have g: "map_of (cGroups c1) gid = Some s1" by (simp add: c1 put_group_def update_conv')
  show ?thesis
    using jr sync_leader [OF g ok(1) s1(1) assms(7)] by (simp add: s1(2))
qed

definition stable_coordinator :: "mem_store coordinator" where
  "stable_coordinator = snd (SyncGroup mem_ops False 100 \<lparr>sgGroupID = ''g'', sgGenerationID = 1, sgMemberID = ''g-7'', sgAssignments = []\<rparr> 2
     (snd (JoinGroup mem_ops False 7 (\<lambda>i. 100) (demo_join []) 1 demo_coordinator)))"

definition preparing_coordinator :: "mem_store coordinator" where
  "preparing_coordinator = snd (JoinGroup mem_ops False 8 (\<lambda>i. 200) (demo_join []) 3 stable_coordinator)"

theorem rebalance_completes_witness:
  "\<exists>jr. fst (JoinGroup mem_ops False 9 (\<lambda>i. 300) (demo_join ''g-7'') 4 preparing_coordinator) = Ok jr \<and> jgrErrorCode jr = NONE \<and>
     jgrGenerationID jr = 2"
proof -
  let ?P = "\<lambda>s. group_ok s \<and> gState s = groupStatePreparingRebalance \<and> others_joined ''g-7'' s \<and> ''g-7'' \<in> member_ids s \<and> gGenerationID s = 2"
  have "case map_of (cGroups preparing_coordinator) ''g'' of None \<Rightarrow> False | Some s \<Rightarrow> ?P s" by code_simp
  then obtain s where s: "map_of (cGroups preparing_coordinator) ''g'' = Some s" "?P s" by (auto split: option.splits)
  obtain r c1 where j: "JoinGroup mem_ops False 9 (\<lambda>i. 300) (demo_join ''g-7'') 4 preparing_coordinator = (r, c1)" by fastforce
  have d: "jgGroupID (demo_join k) = ''g''" "jgMemberID (demo_join k) = k" for k by (simp_all add: demo_join_def)
  from rebalance_completes [OF s(1) _ _ _ _ _ _ _ _ j, where k = "''g-7''" and now = 0 and cid' = 0] s(2) show ?thesis
    by (auto simp: d j)
qed

section \<open>Groups across a restart\<close>

lemma ms_roundtrip:
  "0 < n \<Longrightarrow> n < 2 ^ 31 \<Longrightarrow> i32 (goDiv (n * millisecond) millisecond) = n"
  by (simp add: goDiv_def millisecond_def i32_id in_i32_def)

definition whole_ms :: "duration \<Rightarrow> bool" where
  "whole_ms d \<longleftrightarrow> 0 < d \<and> d mod millisecond = 0 \<and> d div millisecond < 2 ^ 31"

lemma whole_ms_roundtrip:
  assumes "whole_ms d"
  shows "0 < i32 (goDiv d millisecond)" "i32 (goDiv d millisecond) * millisecond = d"
proof -
  have d: "d = d div millisecond * millisecond" using assms by (auto simp: whole_ms_def)
  have "0 < d div millisecond" using assms d by (simp add: whole_ms_def millisecond_def)
  then have "i32 (goDiv d millisecond) = d div millisecond"
    using ms_roundtrip [of "d div millisecond"] assms d by (simp add: whole_ms_def)
  then show "0 < i32 (goDiv d millisecond)" "i32 (goDiv d millisecond) * millisecond = d"
    using \<open>0 < d div millisecond\<close> d by simp_all
qed

lemma restored_member:
  assumes "whole_ms (mSessionTimeout m)"
  shows "restore_member gen (build_member as m) = m\<lparr>mJoinGeneration := gen\<rparr>"
  using assms whole_ms_roundtrip [OF assms]
  by (simp add: restore_member_def build_member_def format_RFC3339Nano_def whole_ms_def)

lemma restored_assignments:
  assumes "map_wf ms" "fst ` set as \<subseteq> fst ` set ms"
  shows "get_or [] (map (\<lambda>(k, m). (k, map (\<lambda>a. \<lparr>atName = pbaTopic a, atPartitions = pbaPartitions a\<rparr>) (pbmAssignments m)))
    (filter (\<lambda>(k, m). pbmAssignments m \<noteq> []) (map (\<lambda>(k, m). (k, build_member (get_or [] as k) m)) ms))) k = get_or [] as k"
proof -
  have "get_or [] (map (\<lambda>(k, m). (k, map (\<lambda>a. \<lparr>atName = pbaTopic a, atPartitions = pbaPartitions a\<rparr>) (pbmAssignments m)))
    (filter (\<lambda>(k, m). pbmAssignments m \<noteq> []) (map (\<lambda>(k, m). (k, build_member (get_or [] as k) m)) ms))) k =
    (if k \<in> fst ` set ms then get_or [] as k else [])"
    using assms(1)
  proof (induction ms)
    case (Cons x ms)
    obtain k0 m0 where x: "x = (k0, m0)" by fastforce
    have id: "map (\<lambda>a. \<lparr>atName = pbaTopic a, atPartitions = pbaPartitions a\<rparr>) (map (\<lambda>a. \<lparr>pbaTopic = atName a, pbaPartitions = atPartitions a\<rparr>) l) = l" for l
      by (induction l) auto
    show ?case using Cons by (auto simp: x map_wf_def get_or_def build_member_def id simp del: map_map split: option.splits)
  qed (simp add: get_or_def)
  moreover have "get_or [] as k = []" if "k \<notin> fst ` set ms"
  proof -
    have "map_of as k = None" using that assms(2) by (auto simp: map_of_eq_None_iff)
    then show ?thesis by (simp add: get_or_def)
  qed
  ultimately show ?thesis by presburger
qed



text \<open>
  The in-memory store forgets the timeouts of a group. Whatever rebalance and session timeouts a
  group has when it is put, the group fetched back is restored with the default rebalance timeout
  and every member with the default session timeout; the rest of it is as written.
\<close>

theorem memory_store_forgets_timeouts:
  assumes "gid \<noteq> []" "opPutConsumerGroup mem_ops False (buildConsumerGroup gid s) st = (Ok (), st1)"
  shows "\<exists>g. opFetchConsumerGroup mem_ops False gid st1 = (Ok (Some g), st1) \<and>
    gRebalanceTimeout (restoreGroupState now g) = defaultRebalanceTimeout \<and>
    map fst (gMembers (restoreGroupState now g)) = map fst (gMembers s) \<and>
    gGenerationID (restoreGroupState now g) = gGenerationID s \<and> gState (restoreGroupState now g) = gState s \<and>
    (\<forall>(k, m) \<in> set (gMembers (restoreGroupState now g)). mSessionTimeout m = defaultSessionTimeout)"
proof -
  let ?g = "cloneConsumerGroup (cloneConsumerGroup (buildConsumerGroup gid s))"
  have "opFetchConsumerGroup mem_ops False gid st1 = (Ok (Some ?g), st1)"
    using assms by (auto simp: mem_ops_def PutConsumerGroup_def FetchConsumerGroup_def buildConsumerGroup_def update_conv')
  then show ?thesis
    by (auto simp: restoreGroupState_def Let_def cloneConsumerGroup_def clone_member_def restore_member_def buildConsumerGroup_def)
qed

theorem memory_store_forgets_timeouts_witness:
  "\<exists>g. opFetchConsumerGroup mem_ops False ''g'' (snd (PutConsumerGroup False
       (buildConsumerGroup ''g'' (three_members\<lparr>gRebalanceTimeout := 60 * second\<rparr>)) one_topic_store)) =
     (Ok (Some g), snd (PutConsumerGroup False
       (buildConsumerGroup ''g'' (three_members\<lparr>gRebalanceTimeout := 60 * second\<rparr>)) one_topic_store)) \<and>
     gRebalanceTimeout (restoreGroupState 0 g) = 30 * second"
proof -
  let ?s = "three_members\<lparr>gRebalanceTimeout := 60 * second\<rparr>"
  have "opPutConsumerGroup mem_ops False (buildConsumerGroup ''g'' ?s) one_topic_store =
      (Ok (), snd (PutConsumerGroup False (buildConsumerGroup ''g'' ?s) one_topic_store))"
    by (simp add: mem_ops_def PutConsumerGroup_def buildConsumerGroup_def)
  from memory_store_forgets_timeouts [OF _ this, of 0] show ?thesis by (auto simp: defaultRebalanceTimeout_def)
qed

section \<open>Committed offsets\<close>

text \<open>What a commit of one request leaves behind: the last entry for a partition counts.\<close>

definition commits :: "offset_commit_topic list \<Rightarrow> ((string \<times> int) \<times> (int \<times> string)) list" where
  "commits ts = concat (map (\<lambda>t. map (\<lambda>p. ((octName t, ocPartition p), (ocOffset p, ocMetadata p))) (octPartitions t)) ts)"

definition latest :: "('k \<times> 'v) list \<Rightarrow> 'k \<Rightarrow> 'v \<Rightarrow> 'v" where
  "latest cs key d = get_or d (rev cs) key"

lemma latest_append: "latest (xs @ ys) key d = latest ys key (latest xs key d)"
  by (simp add: latest_def get_or_def map_add_def split: option.splits)

lemma latest_Nil [simp]: "latest [] key d = d"
  by (simp add: latest_def get_or_def)

lemma latest_single [simp]: "latest [(k, v)] key d = (if key = k then v else d)"
  by (simp add: latest_def get_or_def)

lemma map_calls_Cons_Ok:
  assumes "map_calls f (x # xs) st = (Ok ys, st1)"
  obtains y zs st0 where "ys = y # zs" "f x st = (Ok y, st0)" "map_calls f xs st0 = (Ok zs, st1)"
  using assms by (auto split: prod.splits outcome.splits)

context offset_store
begin

text \<open>What a state offers the named groups after some commits of one of them.\<close>

definition after :: "string \<Rightarrow> ((string \<times> int) \<times> (int \<times> string)) list \<Rightarrow> 's \<Rightarrow> 's \<Rightarrow> bool" where
  "after g cs s s1 \<longleftrightarrow> ok s1 \<and> (\<forall>g' t p. named g' \<longrightarrow>
     view s1 (g', t, p) = (if g' = g then latest cs (t, p) (view s (g', t, p)) else view s (g', t, p)))"

lemma after_trans: "after g xs s s1 \<Longrightarrow> after g ys s1 s2 \<Longrightarrow> after g (xs @ ys) s s2"
  by (simp add: after_def latest_append)

lemma after_calls:
  assumes "map_calls f xs s = (Ok rs, s1)" "ok s" "\<forall>r \<in> set rs. good r"
    and "\<And>x s r s1. ok s \<Longrightarrow> f x s = (Ok r, s1) \<Longrightarrow> good r \<Longrightarrow> after g (cs x) s s1"
  shows "after g (concat (map cs xs)) s s1"
  using assms(1-3)
proof (induction xs arbitrary: s rs)
  case (Cons x xs)
  from Cons.prems(1) obtain y zs s0 where y: "rs = y # zs" "f x s = (Ok y, s0)" "map_calls f xs s0 = (Ok zs, s1)"
    by (rule map_calls_Cons_Ok)
  have a: "after g (cs x) s s0" using assms(4) [OF Cons.prems(2) y(2)] Cons.prems(3) y(1) by simp
  then have "after g (concat (map cs xs)) s0 s1" using Cons.IH [OF y(3)] Cons.prems(3) y(1) by (simp add: after_def)
  with a show ?case using after_trans by simp
qed (auto simp: after_def)

lemma commit_partition_after:
  assumes "ok s" "named g" "commit_partition ops ctx NONE g t p s = (Ok r, s1)" "ocpErrorCode r = NONE"
  shows "after g [((t, ocPartition p), (ocOffset p, ocMetadata p))] s s1"
proof -
  obtain q s2 where q: "opCommitConsumerOffset ops ctx g t (ocPartition p) (ocOffset p) (ocMetadata p) s = (q, s2)" by fastforce
  then have "q = Ok ()" "s2 = s1"
    using assms(3,4) by (auto simp: commit_partition_def with_persist_def error_codes split: outcome.splits)
  with commit_view [OF assms(1,2)] q show ?thesis by (auto simp: after_def)
qed

lemma commit_topics_after:
  assumes "map_calls (commit_topic ops ctx NONE g) ts s = (Ok rs, s1)" "ok s" "named g"
    and "\<forall>r \<in> set rs. \<forall>p \<in> set (ocsPartitions r). ocpErrorCode p = NONE"
  shows "after g (commits ts) s s1"
  unfolding commits_def
proof (rule after_calls [OF assms(1,2,4)])
  fix t s r s1
  assume *: "ok s" "commit_topic ops ctx NONE g t s = (Ok r, s1)" "\<forall>p \<in> set (ocsPartitions r). ocpErrorCode p = NONE"
  from *(2) have m: "map_calls (commit_partition ops ctx NONE g (octName t)) (octPartitions t) s = (Ok (ocsPartitions r), s1)"
    by (auto simp: commit_topic_def split: prod.splits)
  have "after g (concat (map (\<lambda>p. [((octName t, ocPartition p), (ocOffset p, ocMetadata p))]) (octPartitions t))) s s1"
    by (rule after_calls [OF m *(1,3)]) (rule commit_partition_after [OF _ assms(3)])
  moreover have "concat (map (\<lambda>p. [h p]) xs) = map h xs" for h :: "offset_commit_partition \<Rightarrow> (string \<times> int) \<times> (int \<times> string)" and xs
    by (induction xs) auto
  ultimately show "after g (map (\<lambda>p. ((octName t, ocPartition p), (ocOffset p, ocMetadata p))) (octPartitions t)) s s1" by simp
qed

end

lemma map_calls_total:
  assumes "\<And>x st. \<exists>st1. f x st = (Ok (g x), st1)"
  shows "\<exists>st1. map_calls f xs st = (Ok (map g xs), st1)"
proof (induction xs arbitrary: st)
  case (Cons x xs)
  obtain st0 where "f x st = (Ok (g x), st0)" using assms by blast
  moreover obtain st1 where "map_calls f xs st0 = (Ok (map g xs), st1)" using Cons.IH by blast
  ultimately show ?case by simp
qed simp

lemma mem_commit_total:
  "\<exists>st1. map_calls (commit_topic mem_ops False NONE gid) ts st = (Ok (map (\<lambda>t. \<lparr>ocsName = octName t,
     ocsPartitions = map (\<lambda>p. \<lparr>ocpPartition = ocPartition p, ocpErrorCode = NONE\<rparr>) (octPartitions t)\<rparr>) ts), st1)"
proof (rule map_calls_total)
  fix t :: offset_commit_topic and st
  have "\<exists>st1. map_calls (commit_partition mem_ops False NONE gid (octName t)) (octPartitions t) st =
      (Ok (map (\<lambda>p. \<lparr>ocpPartition = ocPartition p, ocpErrorCode = NONE\<rparr>) (octPartitions t)), st1)"
    by (rule map_calls_total) (simp add: commit_partition_def mem_ops_def CommitConsumerOffset_def with_persist_def Let_def)
  then show "\<exists>st1. commit_topic mem_ops False NONE gid t st = (Ok \<lparr>ocsName = octName t,
      ocsPartitions = map (\<lambda>p. \<lparr>ocpPartition = ocPartition p, ocpErrorCode = NONE\<rparr>) (octPartitions t)\<rparr>, st1)"
    by (auto simp: commit_topic_def)
qed



end
