(* ===== verification/Broker_Handler.thy ===== *)
theory Broker_Handler
  imports Group_Coordinator Partition_Log S3_Health
begin

text \<open>
  The request handler of the broker (\<open>cmd/broker/main.go\<close>): it dispatches a decoded request to the
  partition logs, the metadata store and the group coordinator, and encodes the response.

  The state has the fields of \<open>handler\<close>. The metadata store is the one of the coordinator; the object
  store and the segment cache, which all partition logs share, are fields here and are put into a
  log for the time of a call on it. What a log reports through its callbacks is applied after the
  call, in order. Metrics and log messages are left out. An action returns its outcome and the new
  state, or \<open>None\<close> when it never returns. Each call of a component is numbered; it reads its own
  clock, and the context may be done at it.
\<close>

section \<open>Actions\<close>

type_synonym ('b, 'a) act = "'b \<Rightarrow> ('a outcome \<times> 'b) option"

definition aret :: "'a \<Rightarrow> ('b, 'a) act" where
  "aret x b = Some (Ok x, b)"

definition afail :: "go_error \<Rightarrow> ('b, 'a) act" where
  "afail e b = Some (Err e, b)"

definition aout :: "'a outcome \<Rightarrow> ('b, 'a) act" where
  "aout r b = Some (r, b)"

definition abind :: "('b, 'a) act \<Rightarrow> ('a \<Rightarrow> ('b, 'c) act) \<Rightarrow> ('b, 'c) act" where
  "abind m f b = (case m b of
       None \<Rightarrow> None
     | Some (Ok x, b) \<Rightarrow> f x b
     | Some (Err e, b) \<Rightarrow> Some (Err e, b)
     | Some (Panic, b) \<Rightarrow> Some (Panic, b))"

text \<open>A call whose error is looked at: \<open>Inl\<close> is the error.\<close>

definition atry :: "('b, 'a) act \<Rightarrow> ('b, go_error + 'a) act" where
  "atry m b = (case m b of
       None \<Rightarrow> None
     | Some (Ok x, b) \<Rightarrow> Some (Ok (Inr x), b)
     | Some (Err e, b) \<Rightarrow> Some (Ok (Inl e), b)
     | Some (Panic, b) \<Rightarrow> Some (Panic, b))"

fun amap :: "('x \<Rightarrow> ('b, 'a) act) \<Rightarrow> 'x list \<Rightarrow> ('b, 'a list) act" where
  "amap f [] = aret []"
| "amap f (x # xs) = abind (f x) (\<lambda>y. abind (amap f xs) (\<lambda>ys. aret (y # ys)))"

section \<open>Error codes and configuration constants\<close>

definition OFFSET_OUT_OF_RANGE :: int where "OFFSET_OUT_OF_RANGE = 1"
definition UNKNOWN_TOPIC_OR_PARTITION :: int where "UNKNOWN_TOPIC_OR_PARTITION = 3"
definition REQUEST_TIMED_OUT :: int where "REQUEST_TIMED_OUT = 7"
definition INVALID_TOPIC_EXCEPTION :: int where "INVALID_TOPIC_EXCEPTION = 17"
definition TOPIC_AUTHORIZATION_FAILED :: int where "TOPIC_AUTHORIZATION_FAILED = 29"
definition UNSUPPORTED_VERSION :: int where "UNSUPPORTED_VERSION = 35"
definition TOPIC_ALREADY_EXISTS :: int where "TOPIC_ALREADY_EXISTS = 36"
definition INVALID_PARTITIONS :: int where "INVALID_PARTITIONS = 37"
definition INVALID_CONFIG :: int where "INVALID_CONFIG = 40"
definition UNKNOWN_TOPIC_ID :: int where "UNKNOWN_TOPIC_ID = 100"

lemmas handler_codes = error_codes OFFSET_OUT_OF_RANGE_def UNKNOWN_TOPIC_OR_PARTITION_def REQUEST_TIMED_OUT_def
  INVALID_TOPIC_EXCEPTION_def TOPIC_AUTHORIZATION_FAILED_def UNSUPPORTED_VERSION_def TOPIC_ALREADY_EXISTS_def
  INVALID_PARTITIONS_def INVALID_CONFIG_def UNKNOWN_TOPIC_ID_def

definition ConfigResourceTopic :: int where "ConfigResourceTopic = 2"
definition ConfigResourceBroker :: int where "ConfigResourceBroker = 4"
definition ConfigSourceDynamicTopic :: int where "ConfigSourceDynamicTopic = 1"
definition ConfigSourceStaticBroker :: int where "ConfigSourceStaticBroker = 4"
definition ConfigSourceDefaultConfig :: int where "ConfigSourceDefaultConfig = 5"
definition ConfigTypeString :: int where "ConfigTypeString = 2"
definition ConfigTypeInt :: int where "ConfigTypeInt = 3"
definition ConfigTypeLong :: int where "ConfigTypeLong = 5"

text \<open>The text of an error, as \<open>Error()\<close> returns it.\<close>

fun error_text :: "go_error \<Rightarrow> string" where
  "error_text (ErrText m) = m"
| "error_text (ErrWrap m e) = m @ '': '' @ error_text e"
| "error_text ErrEOF = ''EOF''"
| "error_text ErrUnexpectedEOF = ''unexpected EOF''"
| "error_text ErrContext = ''context canceled''"
| "error_text ErrOffsetOutOfRange = ''offset out of range''"
| "error_text ErrTopicExists = ''topic already exists''"
| "error_text ErrInvalidTopic = ''invalid topic configuration''"
| "error_text ErrUnknownTopic = ''unknown topic''"
| "error_text ErrStoreUnavailable = ''metadata store unavailable''"

section \<open>State and services\<close>

record ('m, 's) broker =
  hApiVersions :: "api_version list"
  hCoordinator :: "'m coordinator"
  hS3 :: 's
  hCache :: segment_cache
  hLogs :: "((string \<times> int) \<times> 's plog) list"
  hLogConfig :: plog_cfg
  hHealth :: s3_monitor
  hS3Namespace :: string
  hBrokerInfo :: metadata_broker
  hAutoCreateTopics :: bool
  hAutoCreatePartitions :: int
  hAllowAdminAPIs :: bool
  hCacheSize :: int
  hReadAhead :: int
  hSegmentBytes :: int
  hFlushInterval :: duration
  hFlushOnAck :: bool
  hCalls :: nat

text \<open>
  What the handler calls: the store and its topic operations, whether the store says it is
  available, the object store, the clock of each call, whether the context is done at it, the random
  number drawn in it, the environment variables, how much later than asked a timer fires, and what
  the other connections do to the state while this one sleeps.
\<close>

record ('m, 's) services =
  svStore :: "'m store_ops"
  svCreateTopic :: "bool \<Rightarrow> topic_spec \<Rightarrow> time \<Rightarrow> 'm \<Rightarrow> metadata_topic outcome \<times> 'm"
  svDeleteTopic :: "bool \<Rightarrow> string \<Rightarrow> 'm \<Rightarrow> unit outcome \<times> 'm"
  svCreatePartitions :: "bool \<Rightarrow> string \<Rightarrow> int \<Rightarrow> time \<Rightarrow> 'm \<Rightarrow> unit outcome \<times> 'm"
  svFetchTopicConfig :: "bool \<Rightarrow> string \<Rightarrow> time \<Rightarrow> 'm \<Rightarrow> topic_config outcome \<times> 'm"
  svUpdateTopicConfig :: "bool \<Rightarrow> topic_config option \<Rightarrow> 'm \<Rightarrow> topic_config outcome \<times> 'm"
  svAvailable :: "'m \<Rightarrow> bool"
  svS3 :: "'s s3_client"
  svClock :: "nat \<Rightarrow> nat \<Rightarrow> time"
  svDone :: "nat \<Rightarrow> bool"
  svRandom :: "nat \<Rightarrow> int"
  svEnv :: "string \<Rightarrow> string"
  svLate :: "nat \<Rightarrow> nat"
  svOthers :: "nat \<Rightarrow> ('m, 's) broker \<Rightarrow> ('m, 's) broker"

definition hStore :: "('m, 's) broker \<Rightarrow> 'm" where
  "hStore b = cStore (hCoordinator b)"

definition set_store :: "'m \<Rightarrow> ('m, 's) broker \<Rightarrow> ('m, 's) broker" where
  "set_store st b = b\<lparr>hCoordinator := (hCoordinator b)\<lparr>cStore := st\<rparr>\<rparr>"

definition next_call :: "('m, 's) broker \<Rightarrow> ('m, 's) broker" where
  "next_call b = b\<lparr>hCalls := Suc (hCalls b)\<rparr>"

text \<open>A call of the metadata store.\<close>

definition on_store :: "('m, 's) services \<Rightarrow> (bool \<Rightarrow> time \<Rightarrow> 'm \<Rightarrow> 'a outcome \<times> 'm) \<Rightarrow> (('m, 's) broker, 'a) act" where
  "on_store E f b =
     (case f (svDone E (hCalls b)) (svClock E (hCalls b) 0) (hStore b) of
        (r, st) \<Rightarrow> Some (r, next_call (set_store st b)))"

text \<open>A call of the coordinator.\<close>

definition on_groups :: "('m, 's) services \<Rightarrow> (bool \<Rightarrow> (nat \<Rightarrow> time) \<Rightarrow> int \<Rightarrow> 'm coordinator \<Rightarrow> 'a outcome \<times> 'm coordinator)
    \<Rightarrow> (('m, 's) broker, 'a) act" where
  "on_groups E f b =
     (case f (svDone E (hCalls b)) (svClock E (hCalls b)) (svRandom E (hCalls b)) (hCoordinator b) of
        (r, c) \<Rightarrow> Some (r, next_call (b\<lparr>hCoordinator := c\<rparr>)))"

definition etcdAvailable :: "('m, 's) services \<Rightarrow> ('m, 's) broker \<Rightarrow> bool" where
  "etcdAvailable E b = svAvailable E (hStore b)"

definition recordS3Op :: "string \<Rightarrow> duration \<Rightarrow> go_error option \<Rightarrow> time \<Rightarrow> ('m, 's) broker \<Rightarrow> ('m, 's) broker" where
  "recordS3Op op latency err now b = b\<lparr>hHealth := RecordOperation op latency (err \<noteq> None) now (hHealth b)\<rparr>"

text \<open>The callbacks of a partition log: offsets of a flush go to the store, whose errors are only
  logged, and timings of the object store go to the health monitor.\<close>

definition log_callback ::
  "('m, 's) services \<Rightarrow> string \<Rightarrow> int \<Rightarrow> log_event \<Rightarrow> ('m, 's) broker \<Rightarrow> unit outcome \<times> ('m, 's) broker" where
  "log_callback E topic part ev b =
     (case ev of
        OnFlush artifact \<Rightarrow>
          (case opUpdateOffsets (svStore E) (svDone E (hCalls b)) topic part (saLastOffset artifact) (hStore b) of
             (r, st) \<Rightarrow> (with_persist r () (), next_call (set_store st b)))
      | OnS3Op op latency err \<Rightarrow> (Ok (), next_call (recordS3Op op latency err (svClock E (hCalls b) 0) b)))"

text \<open>An operation of a log, with the shared object store and cache.\<close>

definition run_log :: "('m, 's) services \<Rightarrow> ((nat \<Rightarrow> time) \<Rightarrow> 's plog \<Rightarrow> 'a outcome \<times> 's plog) \<Rightarrow> 's plog \<Rightarrow> ('m, 's) broker
    \<Rightarrow> 'a outcome \<times> 's plog \<times> ('m, 's) broker" where
  "run_log E f l b =
     (case f (svClock E (hCalls b)) (l\<lparr>plS3 := hS3 b, plCache := Some (hCache b), plEvents := []\<rparr>) of
        (r, l1) \<Rightarrow>
          let b = next_call (b\<lparr>hS3 := plS3 l1, hCache := (case plCache l1 of None \<Rightarrow> hCache b | Some c \<Rightarrow> c)\<rparr>) in
          (case map_calls (log_callback E (plTopic l) (plPartition l)) (plEvents l1) b of
             (Panic, b) \<Rightarrow> (Panic, l1\<lparr>plEvents := []\<rparr>, b)
           | (_, b) \<Rightarrow> (r, l1\<lparr>plEvents := []\<rparr>, b)))"

text \<open>The log behind a pointer: the one of that topic and partition, which stays in the map.\<close>

definition on_log :: "('m, 's) services \<Rightarrow> 's plog \<Rightarrow> ((nat \<Rightarrow> time) \<Rightarrow> 's plog \<Rightarrow> 'a outcome \<times> 's plog)
    \<Rightarrow> (('m, 's) broker, 'a) act" where
  "on_log E plog f b =
     (let key = (plTopic plog, plPartition plog);
          l = (case map_of (hLogs b) key of None \<Rightarrow> plog | Some l \<Rightarrow> l)
      in case run_log E f l b of (r, l, b) \<Rightarrow> Some (r, b\<lparr>hLogs := AList.update key l (hLogs b)\<rparr>))"

definition health_state :: "('m, 's) services \<Rightarrow> (('m, 's) broker, s3_state) act" where
  "health_state E b =
     (case State (svClock E (hCalls b) 0) (hHealth b) of (st, m) \<Rightarrow> Some (Ok st, next_call (b\<lparr>hHealth := m\<rparr>)))"

definition backpressureErrorCode :: "('m, 's) services \<Rightarrow> (('m, 's) broker, int) act" where
  "backpressureErrorCode E =
     abind (health_state E) (\<lambda>st. aret (case st of S3StateDegraded \<Rightarrow> REQUEST_TIMED_OUT | _ \<Rightarrow> UNKNOWN_SERVER_ERROR))"

section \<open>Partition logs\<close>

definition ensureTopic :: "('m, 's) services \<Rightarrow> string \<Rightarrow> int \<Rightarrow> (('m, 's) broker, unit) act" where
  "ensureTopic E topic part b =
     (let desired = (if hAutoCreatePartitions b < i32 (part + 1) then i32 (part + 1) else hAutoCreatePartitions b);
          spec = \<lparr>tsName = topic, tsNumPartitions = desired, tsReplicationFactor = 1\<rparr>
      in abind (atry (on_store E (\<lambda>ctx now. svCreateTopic E ctx spec now)))
           (\<lambda>r. case r of Inl e \<Rightarrow> if errors_Is e ErrTopicExists then aret () else afail e | Inr _ \<Rightarrow> aret ()) b)"

text \<open>The opening of a log that is not in the map yet.\<close>

definition open_log :: "('m, 's) services \<Rightarrow> string \<Rightarrow> int \<Rightarrow> int \<Rightarrow> (('m, 's) broker, 's plog) act" where
  "open_log E topic part nextOffset b =
     (let l = NewPartitionLog (hS3Namespace b) topic part nextOffset (hS3 b) (Some (hCache b)) (hLogConfig b) True True
                (svClock E (hCalls b) 0)
      in case run_log E (RestoreFromS3 (svS3 E)) l (next_call b) of
           (Panic, l, b) \<Rightarrow> Some (Panic, b)
         | (Err e, l, b) \<Rightarrow> Some (Err e, b)
         | (Ok lastOffset, l, b) \<Rightarrow>
             abind (if lastOffset \<ge> nextOffset
                    then atry (on_store E (\<lambda>ctx now. opUpdateOffsets (svStore E) ctx topic part lastOffset))
                    else aret (Inr ()))
               (\<lambda>_ b. Some (Ok l, b\<lparr>hLogs := AList.update (topic, part) l (hLogs b)\<rparr>)) b)"

partial_function (option) getPartitionLog ::
  "('m, 's) services \<Rightarrow> string \<Rightarrow> int \<Rightarrow> ('m, 's) broker \<Rightarrow> ('s plog outcome \<times> ('m, 's) broker) option" where
  "getPartitionLog E topic part b =
     (case map_of (hLogs b) (topic, part) of
        Some l \<Rightarrow> Some (Ok l, b)
      | None \<Rightarrow>
          (case opNextOffset (svStore E) (svDone E (hCalls b)) topic part (hStore b) of (r, st) \<Rightarrow>
           let b = next_call (set_store st b) in
           (case r of
              Ok nextOffset \<Rightarrow> open_log E topic part nextOffset b
            | Panic \<Rightarrow> Some (Panic, b)
            | Err e \<Rightarrow>
                if errors_Is e ErrUnknownTopic \<and> hAutoCreateTopics b then
                  (case ensureTopic E topic part b of
                     None \<Rightarrow> None
                   | Some (q, b) \<Rightarrow>
                       (case q of
                          Ok _ \<Rightarrow> getPartitionLog E topic part b
                        | Err e \<Rightarrow> Some (Err e, b)
                        | Panic \<Rightarrow> Some (Panic, b)))
                else Some (Err e, b))))"

section \<open>Produce\<close>

definition produce_error :: "int \<Rightarrow> int \<Rightarrow> produce_partition_response" where
  "produce_error part code = \<lparr>pprPartition = part, pprErrorCode = code, pprBaseOffset = 0, pprLogAppendTimeMs = 0, pprLogStartOffset = 0\<rparr>"

definition produce_backpressure :: "('m, 's) services \<Rightarrow> int \<Rightarrow> (('m, 's) broker, produce_partition_response) act" where
  "produce_backpressure E part = abind (backpressureErrorCode E) (\<lambda>code. aret (produce_error part code))"

definition produce_append :: "('m, 's) services \<Rightarrow> int \<Rightarrow> int \<Rightarrow> int \<Rightarrow> record_batch \<Rightarrow> 's plog
    \<Rightarrow> (('m, 's) broker, produce_partition_response) act" where
  "produce_append E acks now part batch plog =
     abind (atry (on_log E plog (\<lambda>clk. AppendBatch (svS3 E) clk batch))) (\<lambda>r.
       case r of
         Inl e \<Rightarrow> produce_backpressure E part
       | Inr result \<Rightarrow>
           abind (\<lambda>b. if acks \<noteq> 0 \<and> hFlushOnAck b then atry (on_log E plog (Flush (svS3 E))) b else aret (Inr ()) b) (\<lambda>q.
             case q of
               Inl e \<Rightarrow> produce_backpressure E part
             | Inr _ \<Rightarrow> aret \<lparr>pprPartition = part, pprErrorCode = 0, pprBaseOffset = arBaseOffset result,
                 pprLogAppendTimeMs = now, pprLogStartOffset = 0\<rparr>))"

definition produce_one :: "('m, 's) services \<Rightarrow> int \<Rightarrow> int \<Rightarrow> string \<Rightarrow> produce_partition
    \<Rightarrow> (('m, 's) broker, produce_partition_response) act" where
  "produce_one E acks now topic p b =
     (let part = ppPartition p in
      if \<not> etcdAvailable E b then aret (produce_error part REQUEST_TIMED_OUT) b
      else abind (health_state E) (\<lambda>st.
        if st \<noteq> S3StateHealthy then produce_backpressure E part
        else abind (atry (getPartitionLog E topic part)) (\<lambda>r.
          case r of
            Inl e \<Rightarrow> aret (produce_error part UNKNOWN_SERVER_ERROR)
          | Inr plog \<Rightarrow>
              (case NewRecordBatchFromBytes (or_nil (ppRecords p)) of
                 Ok batch \<Rightarrow> produce_append E acks now part batch plog
               | Err e \<Rightarrow> aret (produce_error part UNKNOWN_SERVER_ERROR)
               | Panic \<Rightarrow> aout Panic))) b)"

definition produce_one_topic :: "('m, 's) services \<Rightarrow> int \<Rightarrow> int \<Rightarrow> produce_topic \<Rightarrow> (('m, 's) broker, produce_topic_response) act" where
  "produce_one_topic E acks now t =
     abind (amap (produce_one E acks now (ptName t)) (ptPartitions t))
       (\<lambda>ps. aret \<lparr>ptrName = ptName t, ptrPartitions = ps\<rparr>)"

definition handleProduce :: "('m, 's) services \<Rightarrow> request_header \<Rightarrow> produce_request \<Rightarrow> (('m, 's) broker, bytes option) act" where
  "handleProduce E header req b =
     (let now = unixMilli (svClock E (hCalls b) 0) in
      abind (amap (produce_one_topic E (prAcks req) now) (prTopics req)) (\<lambda>ts.
        if prAcks req = 0 then aret None
        else abind (aout (EncodeProduceResponse
               \<lparr>prrCorrelationID = rhCorrelationID header, prrTopics = ts, prrThrottleMs = 0\<rparr> (rhAPIVersion header)))
             (\<lambda>bs. aret (Some bs))) (next_call b))"

section \<open>Fetch\<close>

definition fetchPollInterval :: duration where "fetchPollInterval = 10 * millisecond"

text \<open>A next offset with the error it came with; a failed call of the store gives offset 0.\<close>

definition next_offset :: "('m, 's) services \<Rightarrow> string \<Rightarrow> int \<Rightarrow> ('m, 's) broker \<Rightarrow> (int \<times> go_error option) outcome \<times> ('m, 's) broker" where
  "next_offset E topic part b =
     (case opNextOffset (svStore E) (svDone E (hCalls b)) topic part (hStore b) of (r, st) \<Rightarrow>
        ((case r of Ok n \<Rightarrow> Ok (n, None) | Err e \<Rightarrow> Ok (0, Some e) | Panic \<Rightarrow> Panic), next_call (set_store st b)))"

text \<open>The polling loop at the instant \<open>t\<close>. A timer never fires early, so the time left shrinks.\<close>

function wait_loop :: "('m, 's) services \<Rightarrow> string \<Rightarrow> int \<Rightarrow> int \<Rightarrow> time \<Rightarrow> time \<Rightarrow> int \<Rightarrow> ('m, 's) broker
    \<Rightarrow> (int \<times> go_error option) outcome \<times> ('m, 's) broker" where
  "wait_loop E topic part fetchOffset deadline t nextOffset b =
     (if deadline - t \<le> 0 then (Ok (nextOffset, None), b)
      else
        let i = hCalls b in
        if svDone E i then (Ok (nextOffset, Some ErrContext), next_call b)
        else
          case next_offset E topic part ((svOthers E i b)\<lparr>hCalls := Suc i\<rparr>) of
            (Ok (n, err), b) \<Rightarrow>
              if err \<noteq> None \<or> fetchOffset < n then (Ok (n, err), b)
              else wait_loop E topic part fetchOffset deadline (t + min fetchPollInterval (deadline - t) + int (svLate E i)) n b
          | (r, b) \<Rightarrow> (r, b))"
  by pat_completeness auto
termination
  by (relation "measure (\<lambda>(E, topic, part, off, deadline, t, n, b). nat (deadline - t))")
    (auto simp: fetchPollInterval_def millisecond_def)

declare wait_loop.simps [simp del]

definition waitForFetchData :: "('m, 's) services \<Rightarrow> string \<Rightarrow> int \<Rightarrow> int \<Rightarrow> duration
    \<Rightarrow> (('m, 's) broker, int \<times> go_error option) act" where
  "waitForFetchData E topic part fetchOffset maxWait b =
     (case next_offset E topic part b of
        (Ok (n, err), b) \<Rightarrow>
          if err \<noteq> None \<or> maxWait = 0 \<or> fetchOffset < n then Some (Ok (n, err), b)
          else
            let now = svClock E (hCalls b) 0 in
            Some (wait_loop E topic part fetchOffset (now + maxWait) now n (next_call b))
      | (r, b) \<Rightarrow> Some (r, b))"

definition fetch_error :: "int \<Rightarrow> int \<Rightarrow> fetch_partition_response" where
  "fetch_error part code = \<lparr>fprPartition = part, fprErrorCode = code, fprHighWatermark = 0, fprLastStableOffset = 0,
     fprLogStartOffset = 0, fprPreferredReadReplica = 0, fprRecordSet = None, fprAbortedTransactions = []\<rparr>"

definition fetch_result :: "int \<Rightarrow> int \<Rightarrow> int \<Rightarrow> bytes option \<Rightarrow> fetch_partition_response" where
  "fetch_result part code highWatermark recordSet = \<lparr>fprPartition = part, fprErrorCode = code, fprHighWatermark = highWatermark,
     fprLastStableOffset = highWatermark, fprLogStartOffset = 0, fprPreferredReadReplica = - 1, fprRecordSet = recordSet,
     fprAbortedTransactions = []\<rparr>"

text \<open>The records at an offset below the high watermark.\<close>

definition fetch_read :: "('m, 's) services \<Rightarrow> 's plog \<Rightarrow> fetch_partition \<Rightarrow> int \<Rightarrow> (('m, 's) broker, fetch_partition_response) act" where
  "fetch_read E plog p nextOffset =
     abind (atry (on_log E plog (\<lambda>clk. Read (svS3 E) clk (fpFetchOffset p) (fpMaxBytes p)))) (\<lambda>r.
       case r of
         Inr recordSet \<Rightarrow> aret (fetch_result (fpPartition p) 0 nextOffset (Some recordSet))
       | Inl e \<Rightarrow>
           if errors_Is e ErrOffsetOutOfRange then aret (fetch_result (fpPartition p) OFFSET_OUT_OF_RANGE nextOffset None)
           else abind (backpressureErrorCode E) (\<lambda>code. aret (fetch_result (fpPartition p) code nextOffset None)))"

definition fetch_partition_data :: "('m, 's) services \<Rightarrow> string \<Rightarrow> duration \<Rightarrow> fetch_partition
    \<Rightarrow> (('m, 's) broker, fetch_partition_response) act" where
  "fetch_partition_data E topic maxWait p =
     abind (health_state E) (\<lambda>st.
       if st = S3StateDegraded \<or> st = S3StateUnavailable
       then abind (backpressureErrorCode E) (\<lambda>code. aret (fetch_error (fpPartition p) code))
       else abind (atry (getPartitionLog E topic (fpPartition p))) (\<lambda>r.
         case r of
           Inl e \<Rightarrow> abind (health_state E) (\<lambda>_ b. aret (fetch_error (fpPartition p)
             (if etcdAvailable E b then UNKNOWN_SERVER_ERROR else REQUEST_TIMED_OUT)) b)
         | Inr plog \<Rightarrow>
             abind (waitForFetchData E topic (fpPartition p) (fpFetchOffset p) maxWait) (\<lambda>(nextOffset, offsetErr) b.
               if (case offsetErr of None \<Rightarrow> False | Some e \<Rightarrow> errors_Is e ErrUnknownTopic)
               then aret (fetch_error (fpPartition p) UNKNOWN_TOPIC_OR_PARTITION) b
               else
                 let nextOffset = (case offsetErr of
                       None \<Rightarrow> nextOffset
                     | Some e \<Rightarrow> if errors_Is e ErrContext then nextOffset
                                 else if \<not> etcdAvailable E b then fpFetchOffset p else 0)
                 in if fpFetchOffset p > nextOffset
                    then aret (fetch_result (fpPartition p) OFFSET_OUT_OF_RANGE nextOffset None) b
                    else if fpFetchOffset p = nextOffset then aret (fetch_result (fpPartition p) 0 nextOffset None) b
                    else fetch_read E plog p nextOffset b)))"

definition fetch_topic_data :: "('m, 's) services \<Rightarrow> (bytes \<times> string) list \<Rightarrow> duration \<Rightarrow> fetch_topic
    \<Rightarrow> (('m, 's) broker, fetch_topic_response) act" where
  "fetch_topic_data E idToName maxWait t =
     (let byID = (ftName t = [] \<and> ftTopicID t \<noteq> zero_id);
          name = (if byID then (case map_of idToName (ftTopicID t) of None \<Rightarrow> [] | Some n \<Rightarrow> n) else ftName t)
      in if byID \<and> map_of idToName (ftTopicID t) = None
         then aret \<lparr>ftrName = ftName t, ftrTopicID = ftTopicID t,
                ftrPartitions = map (\<lambda>p. fetch_error (fpPartition p) UNKNOWN_TOPIC_ID) (ftPartitions t)\<rparr>
         else abind (amap (fetch_partition_data E name maxWait) (ftPartitions t))
                (\<lambda>ps. aret \<lparr>ftrName = name, ftrTopicID = ftTopicID t, ftrPartitions = ps\<rparr>))"

text \<open>Metadata of all topics; a nil result is dereferenced.\<close>

definition load_metadata :: "('m, 's) services \<Rightarrow> string list \<Rightarrow> (('m, 's) broker, cluster_metadata) act" where
  "load_metadata E topics =
     abind (on_store E (\<lambda>ctx now. opMetadata (svStore E) ctx topics))
       (\<lambda>meta. case meta of None \<Rightarrow> aout Panic | Some m \<Rightarrow> aret m)"

definition awrap :: "string \<Rightarrow> ('b, 'a) act \<Rightarrow> ('b, 'a) act" where
  "awrap msg m = abind (atry m) (\<lambda>r. case r of Inl e \<Rightarrow> afail (ErrWrap msg e) | Inr x \<Rightarrow> aret x)"

definition id_names :: "cluster_metadata \<Rightarrow> (bytes \<times> string) list" where
  "id_names meta = fold (\<lambda>t m. AList.update (mtTopicID t) (mtName t) m) (cmTopics meta) []"

definition handleFetch :: "('m, 's) services \<Rightarrow> request_header \<Rightarrow> fetch_request \<Rightarrow> (('m, 's) broker, bytes option) act" where
  "handleFetch E header req =
     (let version = rhAPIVersion header;
          maxWait = (if frqMaxWaitMs req * millisecond < 0 then 0 else frqMaxWaitMs req * millisecond)
      in if version < 11 \<or> version > 13 then afail (ErrText (''fetch version '' @ fmt_d version @ '' not supported''))
         else abind (if list_ex (\<lambda>t. ftTopicID t \<noteq> zero_id) (frqTopics req)
                     then abind (awrap ''load metadata'' (load_metadata E [])) (\<lambda>meta. aret (id_names meta))
                     else aret [])
           (\<lambda>idToName. abind (amap (fetch_topic_data E idToName maxWait) (frqTopics req)) (\<lambda>ts.
              abind (aout (EncodeFetchResponse
                \<lparr>ferCorrelationID = rhCorrelationID header, ferThrottleMs = 0, ferErrorCode = 0, ferSessionID = 0, ferTopics = ts\<rparr> version))
                (\<lambda>bs. aret (Some bs)))))"

section \<open>Topics and configuration\<close>

definition create_result :: "string \<Rightarrow> unit outcome \<Rightarrow> create_topic_result" where
  "create_result name r =
     (case r of
        Err e \<Rightarrow> \<lparr>ctsName = name,
          ctsErrorCode = (if errors_Is e ErrTopicExists then TOPIC_ALREADY_EXISTS
            else if errors_Is e ErrInvalidTopic then INVALID_TOPIC_EXCEPTION else UNKNOWN_SERVER_ERROR),
          ctsErrorMessage = error_text e\<rparr>
      | _ \<Rightarrow> \<lparr>ctsName = name, ctsErrorCode = 0, ctsErrorMessage = []\<rparr>)"

definition validateCreateTopic :: "('m, 's) services \<Rightarrow> create_topic_config \<Rightarrow> (('m, 's) broker, unit) act" where
  "validateCreateTopic E t =
     (if ctName t = [] \<or> ctNumPartitions t \<le> 0 then afail ErrInvalidTopic
      else
        let rf = (if ctReplicationFactor t \<le> 0 then 1 else ctReplicationFactor t) in
        abind (load_metadata E []) (\<lambda>meta.
          if list_ex (\<lambda>x. mtName x = ctName t) (cmTopics meta) then afail ErrTopicExists
          else if rf > int (length (cmBrokers meta)) then afail ErrInvalidTopic
          else aret ()))"

definition create_one :: "('m, 's) services \<Rightarrow> bool \<Rightarrow> create_topic_config \<Rightarrow> (('m, 's) broker, create_topic_result) act" where
  "create_one E validateOnly t =
     abind (atry (if validateOnly then validateCreateTopic E t
        else abind (on_store E (\<lambda>ctx now. svCreateTopic E ctx
          \<lparr>tsName = ctName t, tsNumPartitions = ctNumPartitions t, tsReplicationFactor = ctReplicationFactor t\<rparr> now)) (\<lambda>_. aret ())))
       (\<lambda>r. aret (create_result (ctName t) (case r of Inl e \<Rightarrow> Err e | Inr u \<Rightarrow> Ok u)))"

definition handleCreateTopics :: "('m, 's) services \<Rightarrow> request_header \<Rightarrow> create_topics_request \<Rightarrow> (('m, 's) broker, bytes) act" where
  "handleCreateTopics E header req b =
     (let version = rhAPIVersion header;
          reply = \<lambda>ts. aout (EncodeCreateTopicsResponse
            \<lparr>cterCorrelationID = rhCorrelationID header, cterThrottleMs = 0, cterTopics = ts\<rparr> version)
      in if version < 0 \<or> version > 2
         then afail (ErrText (''create topics version '' @ fmt_d version @ '' not supported'')) b
         else if \<not> hAllowAdminAPIs b
         then reply (map (\<lambda>t. \<lparr>ctsName = ctName t, ctsErrorCode = TOPIC_AUTHORIZATION_FAILED,
                               ctsErrorMessage = ''admin APIs disabled''\<rparr>) (ctrTopics req)) b
         else if \<not> etcdAvailable E b
         then reply (map (\<lambda>t. \<lparr>ctsName = ctName t, ctsErrorCode = REQUEST_TIMED_OUT,
                               ctsErrorMessage = ''etcd unavailable''\<rparr>) (ctrTopics req)) b
         else abind (amap (create_one E (ctrValidateOnly req)) (ctrTopics req)) reply b)"

definition delete_one :: "('m, 's) services \<Rightarrow> string \<Rightarrow> (('m, 's) broker, delete_topic_result) act" where
  "delete_one E name =
     abind (atry (on_store E (\<lambda>ctx now. svDeleteTopic E ctx name))) (\<lambda>r. aret (case r of
         Inl e \<Rightarrow> \<lparr>dtsName = name,
           dtsErrorCode = (if errors_Is e ErrUnknownTopic then UNKNOWN_TOPIC_OR_PARTITION else UNKNOWN_SERVER_ERROR),
           dtsErrorMessage = error_text e\<rparr>
       | Inr _ \<Rightarrow> \<lparr>dtsName = name, dtsErrorCode = 0, dtsErrorMessage = []\<rparr>))"

definition handleDeleteTopics :: "('m, 's) services \<Rightarrow> request_header \<Rightarrow> delete_topics_request \<Rightarrow> (('m, 's) broker, bytes) act" where
  "handleDeleteTopics E header req b =
     (let version = rhAPIVersion header;
          reply = \<lambda>ts. aout (EncodeDeleteTopicsResponse
            \<lparr>dterCorrelationID = rhCorrelationID header, dterThrottleMs = 0, dterTopics = ts\<rparr> version)
      in if version < 0 \<or> version > 2
         then afail (ErrText (''delete topics version '' @ fmt_d version @ '' not supported'')) b
         else if \<not> hAllowAdminAPIs b
         then reply (map (\<lambda>n. \<lparr>dtsName = n, dtsErrorCode = TOPIC_AUTHORIZATION_FAILED,
                               dtsErrorMessage = ''admin APIs disabled''\<rparr>) (dtTopicNames req)) b
         else if \<not> etcdAvailable E b
         then reply (map (\<lambda>n. \<lparr>dtsName = n, dtsErrorCode = REQUEST_TIMED_OUT,
                               dtsErrorMessage = ''etcd unavailable''\<rparr>) (dtTopicNames req)) b
         else abind (amap (delete_one E) (dtTopicNames req)) reply b)"

definition epoch_partition :: "('m, 's) services \<Rightarrow> string \<Rightarrow> metadata_topic option \<Rightarrow> leader_epoch_partition
    \<Rightarrow> (('m, 's) broker, leader_epoch_partition_response) act" where
  "epoch_partition E topic meta p =
     (let part = lepPartition p;
          failed = \<lambda>code. \<lparr>lsPartition = part, lsErrorCode = code, lsLeaderEpoch = - 1, lsEndOffset = - 1\<rparr>
      in case (case meta of None \<Rightarrow> None
               | Some t \<Rightarrow> find (\<lambda>x. mpPartitionIndex x = part) (rev (mtPartitions t))) of
           None \<Rightarrow> aret (failed UNKNOWN_TOPIC_OR_PARTITION)
         | Some metaPart \<Rightarrow>
             abind (atry (on_store E (\<lambda>ctx now. opNextOffset (svStore E) ctx topic part))) (\<lambda>r. aret (case r of
                 Inl e \<Rightarrow> failed UNKNOWN_SERVER_ERROR
               | Inr n \<Rightarrow> \<lparr>lsPartition = part, lsErrorCode = NONE, lsLeaderEpoch = mpLeaderEpoch metaPart, lsEndOffset = n\<rparr>)))"

definition handleOffsetForLeaderEpoch ::
  "('m, 's) services \<Rightarrow> request_header \<Rightarrow> leader_epoch_request \<Rightarrow> (('m, 's) broker, bytes) act" where
  "handleOffsetForLeaderEpoch E header req =
     abind (load_metadata E (map letName (lerTopics req))) (\<lambda>meta.
     abind (amap (\<lambda>t. abind (amap (epoch_partition E (letName t) (find (\<lambda>x. mtName x = letName t) (rev (cmTopics meta)))) (letPartitions t))
                        (\<lambda>ps. aret \<lparr>lstName = letName t, lstPartitions = ps\<rparr>)) (lerTopics req)) (\<lambda>ts.
       aout (EncodeOffsetForLeaderEpochResponse
         \<lparr>lsrCorrelationID = rhCorrelationID header, lsrThrottleMs = 0, lsrTopics = ts\<rparr> (rhAPIVersion header))))"

definition chooseConfigSource :: "bool \<Rightarrow> bool \<Rightarrow> int" where
  "chooseConfigSource isDefault readOnly =
     (if isDefault then ConfigSourceDefaultConfig else if readOnly then ConfigSourceStaticBroker else ConfigSourceDynamicTopic)"

definition appendConfigEntry :: "string list option \<Rightarrow> string \<Rightarrow> string \<Rightarrow> bool \<Rightarrow> int \<Rightarrow> bool
    \<Rightarrow> describe_configs_config list \<Rightarrow> describe_configs_config list" where
  "appendConfigEntry allow name value isDefault configType readOnly entries =
     (if (case allow of None \<Rightarrow> False | Some names \<Rightarrow> name \<notin> set names) then entries
      else entries @ [\<lparr>dccName = name, dccValue = Some value, dccReadOnly = readOnly, dccIsDefault = isDefault,
             dccSource = chooseConfigSource isDefault readOnly, dccIsSensitive = False, dccSynonyms = [],
             dccConfigType = configType, dccDocumentation = None\<rparr>])"

definition normalizeRetention :: "int \<Rightarrow> string \<times> bool" where
  "normalizeRetention value = (let value = (if value = 0 then - 1 else value) in (fmt_d value, value = - 1))"

definition normalizeSegmentBytes :: "int \<Rightarrow> int \<Rightarrow> string \<times> bool" where
  "normalizeSegmentBytes value fallback = (if value \<le> 0 then (fmt_d fallback, True) else (fmt_d value, False))"

definition topicConfigEntries :: "('m, 's) broker \<Rightarrow> topic_config \<Rightarrow> string list option \<Rightarrow> describe_configs_config list" where
  "topicConfigEntries b cfg requested =
     (let (retentionMs, retentionMsDefault) = normalizeRetention (tcRetentionMs cfg);
          (retentionBytes, retentionBytesDefault) = normalizeRetention (tcRetentionBytes cfg);
          (segmentBytes, segmentDefault) = normalizeSegmentBytes (tcSegmentBytes cfg) (hSegmentBytes b)
      in appendConfigEntry requested ''segment.bytes'' segmentBytes segmentDefault ConfigTypeInt False
        (appendConfigEntry requested ''retention.bytes'' retentionBytes retentionBytesDefault ConfigTypeLong False
        (appendConfigEntry requested ''retention.ms'' retentionMs retentionMsDefault ConfigTypeLong False [])))"

definition brokerConfigEntries :: "('m, 's) services \<Rightarrow> ('m, 's) broker \<Rightarrow> string list option \<Rightarrow> describe_configs_config list" where
  "brokerConfigEntries E b requested =
     fold (\<lambda>(name, value, configType). appendConfigEntry requested name value True configType True)
       [(''broker.id'', fmt_d (mbNodeID (hBrokerInfo b)), ConfigTypeInt),
        (''advertised.listeners'', mbHost (hBrokerInfo b) @ '':'' @ fmt_d (mbPort (hBrokerInfo b)), ConfigTypeString),
        (''kafscale.s3.bucket'', svEnv E ''KAFSCALE_S3_BUCKET'', ConfigTypeString),
        (''kafscale.s3.region'', svEnv E ''KAFSCALE_S3_REGION'', ConfigTypeString),
        (''kafscale.s3.endpoint'', svEnv E ''KAFSCALE_S3_ENDPOINT'', ConfigTypeString),
        (''kafscale.cache.bytes'', fmt_d (hCacheSize b), ConfigTypeLong),
        (''kafscale.readahead.segments'', fmt_d (hReadAhead b), ConfigTypeInt),
        (''kafscale.segment.bytes'', fmt_d (hSegmentBytes b), ConfigTypeInt),
        (''kafscale.flush.interval.ms'', fmt_d (goDiv (hFlushInterval b) millisecond), ConfigTypeLong)] []"

definition describe_resource :: "('m, 's) services \<Rightarrow> describe_configs_resource
    \<Rightarrow> (('m, 's) broker, describe_configs_resource_response) act" where
  "describe_resource E r b =
     (let reply = \<lambda>code cs. \<lparr>dcsErrorCode = code, dcsErrorMessage = None, dcsResourceType = dcResourceType r,
            dcsResourceName = dcResourceName r, dcsConfigs = cs\<rparr>
      in if dcResourceType r = ConfigResourceTopic
         then abind (atry (on_store E (\<lambda>ctx now. svFetchTopicConfig E ctx (dcResourceName r) now))) (\<lambda>q b.
                aret (case q of
                    Inl e \<Rightarrow> reply UNKNOWN_TOPIC_OR_PARTITION []
                  | Inr cfg \<Rightarrow> reply NONE (topicConfigEntries b cfg (dcConfigNames r))) b) b
         else if dcResourceType r = ConfigResourceBroker then aret (reply NONE (brokerConfigEntries E b (dcConfigNames r))) b
         else aret (reply INVALID_REQUEST []) b)"

definition handleDescribeConfigs ::
  "('m, 's) services \<Rightarrow> request_header \<Rightarrow> describe_configs_request \<Rightarrow> (('m, 's) broker, bytes) act" where
  "handleDescribeConfigs E header req =
     abind (amap (describe_resource E) (dcrResources req)) (\<lambda>rs. aout (EncodeDescribeConfigsResponse
       \<lparr>dcqCorrelationID = rhCorrelationID header, dcqThrottleMs = 0, dcqResources = rs\<rparr> (rhAPIVersion header)))"

definition parseConfigInt64 :: "string \<Rightarrow> int option" where
  "parseConfigInt64 value = ParseInt 64 (TrimSpace value)"

text \<open>The entries of an alteration in order, up to the first invalid one.\<close>

fun alter_entries :: "alter_configs_config list \<Rightarrow> topic_config \<Rightarrow> int \<times> topic_config" where
  "alter_entries [] cfg = (NONE, cfg)"
| "alter_entries (e # es) cfg =
     (case accValue e of
        None \<Rightarrow> (INVALID_CONFIG, cfg)
      | Some text \<Rightarrow>
          (case parseConfigInt64 text of
             None \<Rightarrow> (INVALID_CONFIG, cfg)
           | Some value \<Rightarrow>
               if accName e = ''retention.ms'' then
                 if value < 0 \<and> value \<noteq> - 1 then (INVALID_CONFIG, cfg) else alter_entries es (cfg\<lparr>tcRetentionMs := value\<rparr>)
               else if accName e = ''retention.bytes'' then
                 if value < 0 \<and> value \<noteq> - 1 then (INVALID_CONFIG, cfg) else alter_entries es (cfg\<lparr>tcRetentionBytes := value\<rparr>)
               else if accName e = ''segment.bytes'' then
                 if value \<le> 0 then (INVALID_CONFIG, cfg) else alter_entries es (cfg\<lparr>tcSegmentBytes := value\<rparr>)
               else (INVALID_CONFIG, cfg)))"

definition alter_resource :: "('m, 's) services \<Rightarrow> bool \<Rightarrow> alter_configs_resource
    \<Rightarrow> (('m, 's) broker, alter_configs_resource_response) act" where
  "alter_resource E validateOnly r =
     (let reply = \<lambda>code. \<lparr>acsErrorCode = code, acsErrorMessage = None, acsResourceType = acResourceType r,
            acsResourceName = acResourceName r\<rparr>
      in if acResourceType r \<noteq> ConfigResourceTopic \<or> acResourceName r = [] then aret (reply INVALID_REQUEST)
         else abind (atry (on_store E (\<lambda>ctx now. svFetchTopicConfig E ctx (acResourceName r) now))) (\<lambda>q.
           case q of
             Inl e \<Rightarrow> aret (reply UNKNOWN_TOPIC_OR_PARTITION)
           | Inr cfg \<Rightarrow>
               (case alter_entries (acConfigs r) cfg of (code, updated) \<Rightarrow>
                  if code = NONE \<and> \<not> validateOnly
                  then abind (atry (on_store E (\<lambda>ctx now. svUpdateTopicConfig E ctx (Some updated))))
                         (\<lambda>u. aret (reply (case u of Inl e \<Rightarrow> UNKNOWN_SERVER_ERROR | Inr _ \<Rightarrow> NONE)))
                  else aret (reply code))))"

definition handleAlterConfigs ::
  "('m, 's) services \<Rightarrow> request_header \<Rightarrow> alter_configs_request \<Rightarrow> (('m, 's) broker, bytes) act" where
  "handleAlterConfigs E header req b =
     (let reply = \<lambda>rs. aout (EncodeAlterConfigsResponse
            \<lparr>acqCorrelationID = rhCorrelationID header, acqThrottleMs = 0, acqResources = rs\<rparr> (rhAPIVersion header))
      in if \<not> etcdAvailable E b
         then reply (map (\<lambda>r. \<lparr>acsErrorCode = REQUEST_TIMED_OUT, acsErrorMessage = None, acsResourceType = acResourceType r,
                               acsResourceName = acResourceName r\<rparr>) (acrResources req)) b
         else abind (amap (alter_resource E (acrValidateOnly req)) (acrResources req)) reply b)"

definition validateCreatePartitions :: "('m, 's) services \<Rightarrow> string \<Rightarrow> int \<Rightarrow> (('m, 's) broker, unit) act" where
  "validateCreatePartitions E topic count =
     abind (load_metadata E [topic]) (\<lambda>meta.
       case cmTopics meta of
         [] \<Rightarrow> afail ErrUnknownTopic
       | t # _ \<Rightarrow>
           if mtErrorCode t \<noteq> 0 then afail ErrUnknownTopic
           else if count \<le> i32 (int (length (mtPartitions t))) then afail ErrInvalidTopic
           else aret ())"

text \<open>One topic of the request; \<open>seen\<close> are the names before it that were not refused as blank.\<close>

definition partitions_one :: "('m, 's) services \<Rightarrow> bool \<Rightarrow> string list \<Rightarrow> create_partitions_topic
    \<Rightarrow> (('m, 's) broker, create_partitions_response_topic) act" where
  "partitions_one E validateOnly seen t =
     (let refuse = \<lambda>code msg. aret \<lparr>cpsName = cptName t, cpsErrorCode = code, cpsErrorMessage = Some msg\<rparr>
      in if TrimSpace (cptName t) = [] then refuse INVALID_TOPIC_EXCEPTION ''invalid topic name''
         else if cptName t \<in> set seen then refuse INVALID_REQUEST ''duplicate topic in request''
         else if cptCount t \<le> 0 then refuse INVALID_PARTITIONS ''invalid partition count''
         else if (case cptAssignments t of None \<Rightarrow> False | Some as \<Rightarrow> as \<noteq> []) then refuse INVALID_REQUEST ''replica assignment not supported''
         else abind (atry (if validateOnly then validateCreatePartitions E (cptName t) (cptCount t)
                           else on_store E (\<lambda>ctx now. svCreatePartitions E ctx (cptName t) (cptCount t) now)))
           (\<lambda>r. case r of
              Inr _ \<Rightarrow> aret \<lparr>cpsName = cptName t, cpsErrorCode = 0, cpsErrorMessage = None\<rparr>
            | Inl e \<Rightarrow> refuse (if errors_Is e ErrUnknownTopic then UNKNOWN_TOPIC_OR_PARTITION
                else if errors_Is e ErrInvalidTopic then INVALID_PARTITIONS else UNKNOWN_SERVER_ERROR) (error_text e)))"

fun partitions_all :: "('m, 's) services \<Rightarrow> bool \<Rightarrow> string list \<Rightarrow> create_partitions_topic list
    \<Rightarrow> (('m, 's) broker, create_partitions_response_topic list) act" where
  "partitions_all E validateOnly seen [] = aret []"
| "partitions_all E validateOnly seen (t # ts) =
     abind (partitions_one E validateOnly seen t) (\<lambda>r.
     abind (partitions_all E validateOnly (if TrimSpace (cptName t) = [] then seen else cptName t # seen) ts) (\<lambda>rs.
       aret (r # rs)))"

definition handleCreatePartitions ::
  "('m, 's) services \<Rightarrow> request_header \<Rightarrow> create_partitions_request \<Rightarrow> (('m, 's) broker, bytes) act" where
  "handleCreatePartitions E header req b =
     (let reply = \<lambda>ts. aout (EncodeCreatePartitionsResponse
            \<lparr>cpqCorrelationID = rhCorrelationID header, cpqThrottleMs = 0, cpqTopics = ts\<rparr> (rhAPIVersion header))
      in if \<not> etcdAvailable E b
         then reply (map (\<lambda>t. \<lparr>cpsName = cptName t, cpsErrorCode = REQUEST_TIMED_OUT,
                               cpsErrorMessage = Some ''etcd unavailable''\<rparr>) (cprTopics req)) b
         else abind (partitions_all E (cprValidateOnly req) [] (cprTopics req)) reply b)"

section \<open>List offsets\<close>

definition list_offset :: "('m, 's) services \<Rightarrow> string \<Rightarrow> list_offsets_partition \<Rightarrow> (('m, 's) broker, int) act" where
  "list_offset E topic p =
     (if loTimestamp p = - 2
      then abind (getPartitionLog E topic (loPartition p)) (\<lambda>plog. on_log E plog (\<lambda>clk l. (Ok (EarliestOffset l), l)))
      else on_store E (\<lambda>ctx now. opNextOffset (svStore E) ctx topic (loPartition p)))"

definition list_partition :: "('m, 's) services \<Rightarrow> int \<Rightarrow> string \<Rightarrow> list_offsets_partition
    \<Rightarrow> (('m, 's) broker, list_offsets_partition_response) act" where
  "list_partition E version topic p =
     abind (atry (list_offset E topic p)) (\<lambda>r. aret (case r of
         Inl e \<Rightarrow> \<lparr>lprPartition = loPartition p, lprErrorCode = UNKNOWN_SERVER_ERROR, lprTimestamp = 0, lprOffset = 0,
           lprLeaderEpoch = - 1, lprOldStyleOffsets = []\<rparr>
       | Inr offset \<Rightarrow> \<lparr>lprPartition = loPartition p, lprErrorCode = 0, lprTimestamp = loTimestamp p, lprOffset = offset,
           lprLeaderEpoch = - 1, lprOldStyleOffsets = (if version = 0 then [offset] else [])\<rparr>))"

definition handleListOffsets :: "('m, 's) services \<Rightarrow> request_header \<Rightarrow> list_offsets_request \<Rightarrow> (('m, 's) broker, bytes) act" where
  "handleListOffsets E header req =
     (let version = rhAPIVersion header in
      if version < 0 \<or> version > 4 then afail (ErrText (''list offsets version '' @ fmt_d version @ '' not supported''))
      else abind (amap (\<lambda>t. abind (amap (list_partition E version (lotName t)) (lotPartitions t))
                              (\<lambda>ps. aret \<lparr>ltrName = lotName t, ltrPartitions = ps\<rparr>)) (lorTopics req)) (\<lambda>ts.
        aout (EncodeListOffsetsResponse version \<lparr>lorrCorrelationID = rhCorrelationID header, lorrThrottleMs = 0, lorrTopics = ts\<rparr>)))"

section \<open>Dispatch\<close>

definition ErrUnsupportedAPI :: go_error where "ErrUnsupportedAPI = ErrText ''unsupported api''"

fun brokerByID :: "metadata_broker list \<Rightarrow> int \<Rightarrow> metadata_broker option" where
  "brokerByID [] i = None"
| "brokerByID (b # bs) i = (if mbNodeID b = i then Some b else brokerByID bs i)"

definition coordinatorBroker :: "('m, 's) services \<Rightarrow> (('m, 's) broker, metadata_broker) act" where
  "coordinatorBroker E =
     abind (atry (load_metadata E [])) (\<lambda>r b. aret (case r of
         Inl e \<Rightarrow> hBrokerInfo b
       | Inr meta \<Rightarrow>
           (case brokerByID (cmBrokers meta) (mbNodeID (hBrokerInfo b)) of
              Some x \<Rightarrow> x
            | None \<Rightarrow> (case cmBrokers meta of [] \<Rightarrow> hBrokerInfo b | x # _ \<Rightarrow> x))) b)"

definition handle_api_versions :: "request_header \<Rightarrow> (('m, 's) broker, bytes) act" where
  "handle_api_versions header b =
     (let unsupported = rhAPIVersion header > 4 in
      aout (EncodeApiVersionsResponse
        \<lparr>avrCorrelationID = rhCorrelationID header, avrErrorCode = (if unsupported then UNSUPPORTED_VERSION else NONE),
         avrThrottleMs = 0, avrVersions = hApiVersions b\<rparr> (if unsupported then 0 else rhAPIVersion header)) b)"

text \<open>The topics named by a metadata request that are not blank are created when that is enabled.\<close>

fun auto_create :: "('m, 's) services \<Rightarrow> string list \<Rightarrow> (('m, 's) broker, unit) act" where
  "auto_create E [] = aret ()"
| "auto_create E (name # names) =
     (if TrimSpace name = [] then auto_create E names
      else abind (awrap (''auto-create topic '' @ name) (ensureTopic E name 0)) (\<lambda>_. auto_create E names))"

definition topics_by_id :: "bytes list \<Rightarrow> metadata_topic list \<Rightarrow> metadata_topic list" where
  "topics_by_id ids topics =
     map (\<lambda>i. case find (\<lambda>t. mtTopicID t = i) (rev topics) of
         Some t \<Rightarrow> t
       | None \<Rightarrow> \<lparr>mtErrorCode = UNKNOWN_TOPIC_ID, mtName = [], mtTopicID = i, mtIsInternal = False, mtPartitions = [],
           mtTopicAuthorizedOperations = 0\<rparr>)
       (filter (\<lambda>i. i \<noteq> zero_id) ids)"

definition request_metadata :: "('m, 's) services \<Rightarrow> metadata_request \<Rightarrow> (('m, 's) broker, cluster_metadata) act" where
  "request_metadata E req =
     (let names = (case mrTopics req of None \<Rightarrow> [] | Some ns \<Rightarrow> ns);
          ids = (case mrTopicIDs req of None \<Rightarrow> [] | Some is \<Rightarrow> is)
      in if \<not> list_ex (\<lambda>i. i \<noteq> zero_id) ids then load_metadata E names
         else abind (load_metadata E []) (\<lambda>all. aret
           \<lparr>cmBrokers = cmBrokers all, cmControllerID = cmControllerID all, cmTopics = topics_by_id ids (cmTopics all),
            cmClusterName = None, cmClusterID = cmClusterID all\<rparr>))"

definition handle_metadata :: "('m, 's) services \<Rightarrow> request_header \<Rightarrow> metadata_request \<Rightarrow> (('m, 's) broker, bytes) act" where
  "handle_metadata E header req b =
     (let names = (case mrTopics req of None \<Rightarrow> [] | Some ns \<Rightarrow> ns) in
      abind (if hAutoCreateTopics b then auto_create E names else aret ()) (\<lambda>_.
      abind (awrap ''load metadata'' (request_metadata E req)) (\<lambda>meta.
        aout (EncodeMetadataResponse
          \<lparr>mdrCorrelationID = rhCorrelationID header, mdrThrottleMs = 0, mdrBrokers = cmBrokers meta,
           mdrClusterID = cmClusterID meta, mdrControllerID = cmControllerID meta, mdrTopics = cmTopics meta,
           mdrClusterAuthorizedOperations = 0\<rparr> (rhAPIVersion header)))) b)"

text \<open>The group requests: an unavailable store is answered at once.\<close>

definition if_available :: "('m, 's) services \<Rightarrow> (('m, 's) broker, bytes) act \<Rightarrow> bytes outcome \<Rightarrow> (('m, 's) broker, bytes) act" where
  "if_available E m timed_out b = (if etcdAvailable E b then m b else aout timed_out b)"

definition handle_group_request :: "('m, 's) services \<Rightarrow> request_header \<Rightarrow> request \<Rightarrow> (('m, 's) broker, bytes) act" where
  "handle_group_request E header r =
     (let cid = rhCorrelationID header; v = rhAPIVersion header; ops = svStore E in
      case r of
        ReqJoinGroup req \<Rightarrow> if_available E
          (abind (on_groups E (\<lambda>ctx clk rnd. JoinGroup ops ctx rnd clk req cid)) (\<lambda>x. aout (EncodeJoinGroupResponse x v)))
          (EncodeJoinGroupResponse \<lparr>jgrCorrelationID = cid, jgrThrottleMs = 0, jgrErrorCode = REQUEST_TIMED_OUT, jgrGenerationID = 0,
             jgrProtocolName = [], jgrLeaderID = [], jgrMemberID = [], jgrMembers = []\<rparr> v)
      | ReqSyncGroup req \<Rightarrow> if_available E
          (abind (on_groups E (\<lambda>ctx clk rnd. SyncGroup ops ctx (clk 0) req cid)) (\<lambda>x. aout (EncodeSyncGroupResponse x v)))
          (EncodeSyncGroupResponse (sync_error cid REQUEST_TIMED_OUT) v)
      | ReqHeartbeat req \<Rightarrow> if_available E
          (abind (on_groups E (\<lambda>ctx clk rnd. Heartbeat ops ctx clk req cid)) (\<lambda>x. aout (EncodeHeartbeatResponse x v)))
          (EncodeHeartbeatResponse (heartbeat_reply cid REQUEST_TIMED_OUT) v)
      | ReqLeaveGroup req \<Rightarrow> if_available E
          (abind (on_groups E (\<lambda>ctx clk rnd. LeaveGroup ops ctx clk req cid)) (\<lambda>x. aout (EncodeLeaveGroupResponse x)))
          (EncodeLeaveGroupResponse (leave_reply cid REQUEST_TIMED_OUT))
      | ReqOffsetCommit req \<Rightarrow> if_available E
          (abind (on_groups E (\<lambda>ctx clk rnd. OffsetCommit ops ctx (clk 0) req cid)) (\<lambda>x. aout (EncodeOffsetCommitResponse x)))
          (EncodeOffsetCommitResponse \<lparr>ocmCorrelationID = cid, ocmThrottleMs = 0,
             ocmTopics = map (\<lambda>t. \<lparr>ocsName = octName t, ocsPartitions = map (\<lambda>p. \<lparr>ocpPartition = ocPartition p,
               ocpErrorCode = REQUEST_TIMED_OUT\<rparr>) (octPartitions t)\<rparr>) (ocrTopics req)\<rparr>)
      | ReqOffsetFetch req \<Rightarrow> if_available E
          (abind (on_groups E (\<lambda>ctx clk rnd. OffsetFetch ops ctx req cid)) (\<lambda>x. aout (EncodeOffsetFetchResponse x v)))
          (EncodeOffsetFetchResponse \<lparr>ofrCorrelationID = cid, ofrThrottleMs = 0,
             ofrTopics = map (\<lambda>t. \<lparr>ofsName = oftName t, ofsPartitions = map (\<lambda>p. \<lparr>ofpPartition = p, ofpOffset = - 1,
               ofpLeaderEpoch = - 1, ofpMetadata = None, ofpErrorCode = REQUEST_TIMED_OUT\<rparr>) (oftPartitions t)\<rparr>) (ofTopics req),
             ofrErrorCode = REQUEST_TIMED_OUT\<rparr> v)
      | ReqDescribeGroups req \<Rightarrow> if_available E
          (abind (on_groups E (\<lambda>ctx clk rnd. DescribeGroups ops ctx req cid)) (\<lambda>x. aout (EncodeDescribeGroupsResponse x v)))
          (EncodeDescribeGroupsResponse \<lparr>dgsCorrelationID = cid, dgsThrottleMs = 0,
             dgsGroups = map (\<lambda>g. describe_error g REQUEST_TIMED_OUT) (dsgGroups req)\<rparr> v)
      | ReqListGroups req \<Rightarrow> if_available E
          (abind (on_groups E (\<lambda>ctx clk rnd. ListGroups ops ctx req cid)) (\<lambda>x. aout (EncodeListGroupsResponse x v)))
          (EncodeListGroupsResponse \<lparr>lgsCorrelationID = cid, lgsThrottleMs = 0, lgsErrorCode = REQUEST_TIMED_OUT, lgsGroups = []\<rparr> v)
      | ReqDeleteGroups req \<Rightarrow> if_available E
          (abind (on_groups E (\<lambda>ctx clk rnd. DeleteGroups ops ctx req cid)) (\<lambda>x. aout (EncodeDeleteGroupsResponse x v)))
          (EncodeDeleteGroupsResponse \<lparr>deqCorrelationID = cid, deqThrottleMs = 0,
             deqGroups = map (\<lambda>g. \<lparr>degGroup = g, degErrorCode = REQUEST_TIMED_OUT\<rparr>) (dgGroups req)\<rparr> v)
      | _ \<Rightarrow> afail ErrUnsupportedAPI)"

definition Handle :: "('m, 's) services \<Rightarrow> request_header \<Rightarrow> request \<Rightarrow> (('m, 's) broker, bytes option) act" where
  "Handle E header r =
     (let full = \<lambda>m. abind m (\<lambda>bs. aret (Some bs)) in
      case r of
        ReqApiVersions req \<Rightarrow> full (handle_api_versions header)
      | ReqMetadata req \<Rightarrow> full (handle_metadata E header req)
      | ReqProduce req \<Rightarrow> handleProduce E header req
      | ReqFetch req \<Rightarrow> handleFetch E header req
      | ReqFindCoordinator req \<Rightarrow> full (abind (coordinatorBroker E) (\<lambda>x. aout (EncodeFindCoordinatorResponse
          \<lparr>fcrCorrelationID = rhCorrelationID header, fcrThrottleMs = 0, fcrErrorCode = NONE, fcrErrorMessage = None,
           fcrNodeID = mbNodeID x, fcrHost = mbHost x, fcrPort = mbPort x\<rparr> (rhAPIVersion header))))
      | ReqOffsetForLeaderEpoch req \<Rightarrow> full (handleOffsetForLeaderEpoch E header req)
      | ReqDescribeConfigs req \<Rightarrow> full (handleDescribeConfigs E header req)
      | ReqAlterConfigs req \<Rightarrow> full (handleAlterConfigs E header req)
      | ReqCreatePartitions req \<Rightarrow> full (handleCreatePartitions E header req)
      | ReqCreateTopics req \<Rightarrow> full (handleCreateTopics E header req)
      | ReqDeleteTopics req \<Rightarrow> full (handleDeleteTopics E header req)
      | ReqListOffsets req \<Rightarrow> full (handleListOffsets E header req)
      | _ \<Rightarrow> full (handle_group_request E header r))"

section \<open>Start-up\<close>

text \<open>Configuration from the environment; the warnings about defaults are left out.\<close>

type_synonym environment = "string \<Rightarrow> string"

definition env_int :: "nat \<Rightarrow> environment \<Rightarrow> string \<Rightarrow> int \<Rightarrow> int" where
  "env_int bits env name fallback =
     (let val = TrimSpace (env name) in
      if val = [] then fallback else case ParseInt bits val of None \<Rightarrow> fallback | Some n \<Rightarrow> n)"

definition parseEnvInt :: "environment \<Rightarrow> string \<Rightarrow> int \<Rightarrow> int" where
  "parseEnvInt = env_int 64"

definition parseEnvInt32 :: "environment \<Rightarrow> string \<Rightarrow> int \<Rightarrow> int" where
  "parseEnvInt32 = env_int 32"

definition intToInt32 :: "int \<Rightarrow> int \<Rightarrow> int" where
  "intToInt32 value fallback = (if value < - (2 ^ 31) \<or> value > 2 ^ 31 - 1 then fallback else value)"

definition envOrDefault :: "environment \<Rightarrow> string \<Rightarrow> string \<Rightarrow> string" where
  "envOrDefault env name fallback = (let val = TrimSpace (env name) in if val = [] then fallback else val)"

definition parseEnvBool :: "environment \<Rightarrow> string \<Rightarrow> bool \<Rightarrow> bool" where
  "parseEnvBool env name fallback =
     (let val = ToLower (TrimSpace (env name)) in
      if val \<in> {''1'', ''true'', ''yes'', ''on''} then True
      else if val \<in> {''0'', ''false'', ''no'', ''off''} then False
      else fallback)"

definition generateApiVersions :: "api_version list" where
  "generateApiVersions =
     map (\<lambda>(k, a, b). \<lparr>apvAPIKey = k, apvMinVersion = a, apvMaxVersion = b\<rparr>)
       [(APIKeyApiVersion, 0, 4), (APIKeyMetadata, 0, 12), (APIKeyProduce, 0, 9), (APIKeyFetch, 11, 13),
        (APIKeyFindCoordinator, 3, 3), (APIKeyListOffsets, 0, 4), (APIKeyJoinGroup, 4, 4), (APIKeySyncGroup, 4, 4),
        (APIKeyHeartbeat, 4, 4), (APIKeyLeaveGroup, 4, 4), (APIKeyOffsetCommit, 3, 3), (APIKeyOffsetFetch, 5, 5),
        (APIKeyDescribeGroups, 5, 5), (APIKeyListGroups, 5, 5), (APIKeyOffsetForLeaderEpoch, 3, 3),
        (APIKeyDescribeConfigs, 4, 4), (APIKeyAlterConfigs, 1, 1), (APIKeyCreatePartitions, 0, 3),
        (APIKeyCreateTopics, 0, 2), (APIKeyDeleteTopics, 0, 2), (APIKeyDeleteGroups, 0, 2)] @
     map (\<lambda>k. \<lparr>apvAPIKey = k, apvMinVersion = - 1, apvMaxVersion = - 1\<rparr>) [4, 5, 6, 7, 21, 22, 24, 25, 26]"

text \<open>The handler of a starting broker; the thresholds of the health monitor are its configuration.\<close>

definition newHandler :: "environment \<Rightarrow> s3_health_cfg \<Rightarrow> time \<Rightarrow> 'm \<Rightarrow> 's \<Rightarrow> metadata_broker \<Rightarrow> ('m, 's) broker" where
  "newHandler env health now store s3Client brokerInfo =
     (let readAhead = parseEnvInt env ''KAFSCALE_READAHEAD_SEGMENTS'' 2;
          cacheSize = parseEnvInt env ''KAFSCALE_CACHE_BYTES'' 0;
          cacheSize = (if cacheSize \<le> 0 then parseEnvInt env ''KAFSCALE_CACHE_SIZE'' 0 else cacheSize);
          cacheSize = (if cacheSize \<le> 0 then 32 * 2 ^ 20 else cacheSize);
          autoPartitions = parseEnvInt32 env ''KAFSCALE_AUTO_CREATE_PARTITIONS'' 1;
          segmentBytes = parseEnvInt env ''KAFSCALE_SEGMENT_BYTES'' (4 * 2 ^ 20);
          flushInterval = i64 (parseEnvInt env ''KAFSCALE_FLUSH_INTERVAL_MS'' 500 * millisecond)
      in \<lparr>hApiVersions = generateApiVersions, hCoordinator = NewGroupCoordinator store brokerInfo None,
          hS3 = s3Client, hCache = NewSegmentCache cacheSize, hLogs = [],
          hLogConfig = \<lparr>pcBuffer = \<lparr>MaxBytes = segmentBytes, MaxMessages = 0, MaxBatches = 0, FlushInterval = flushInterval\<rparr>,
            pcSegment = \<lparr>IndexIntervalMessages = 100\<rparr>, pcReadAheadSegments = readAhead, pcCacheEnabled = True\<rparr>,
          hHealth = NewS3HealthMonitor health now,
          hS3Namespace = envOrDefault env ''KAFSCALE_S3_NAMESPACE'' ''default'', hBrokerInfo = brokerInfo,
          hAutoCreateTopics = parseEnvBool env ''KAFSCALE_AUTO_CREATE_TOPICS'' True,
          hAutoCreatePartitions = (if autoPartitions < 1 then 1 else autoPartitions),
          hAllowAdminAPIs = parseEnvBool env ''KAFSCALE_ALLOW_ADMIN_APIS'' True,
          hCacheSize = cacheSize, hReadAhead = readAhead, hSegmentBytes = segmentBytes, hFlushInterval = flushInterval,
          hFlushOnAck = parseEnvBool env ''KAFSCALE_PRODUCE_SYNC_FLUSH'' True, hCalls = 0\<rparr>)"

definition metadataForBroker :: "metadata_broker \<Rightarrow> cluster_metadata" where
  "metadataForBroker x =
     \<lparr>cmBrokers = [x], cmControllerID = mbNodeID x,
      cmTopics = [\<lparr>mtErrorCode = 0, mtName = ''orders'', mtTopicID = TopicIDForName ''orders'', mtIsInternal = False,
        mtPartitions = [new_partition (mbNodeID x) 0], mtTopicAuthorizedOperations = 0\<rparr>],
      cmClusterName = None, cmClusterID = Some ''kafscale-cluster''\<rparr>"

definition podOrdinal :: "string \<Rightarrow> int option" where
  "podOrdinal name =
     (let parts = split_on CHR ''-'' (TrimSpace name) in
      if length parts < 2 then None else ParseInt 32 (last parts))"

definition resolveBrokerID :: "environment \<Rightarrow> int" where
  "resolveBrokerID env =
     (case ParseInt 32 (TrimSpace (env ''KAFSCALE_BROKER_ID'')) of
        Some n \<Rightarrow> n
      | None \<Rightarrow> (case podOrdinal (env ''POD_NAME'') of Some n \<Rightarrow> n | None \<Rightarrow> 0))"

definition deriveBrokerHost :: "environment \<Rightarrow> string" where
  "deriveBrokerHost env =
     (let podName = TrimSpace (env ''POD_NAME''); namespace = TrimSpace (env ''POD_NAMESPACE'');
          service = TrimSpace (env ''KAFSCALE_BROKER_SERVICE'')
      in if podName = [] \<or> namespace = [] \<or> service = [] then []
         else podName @ ''.'' @ service @ ''.'' @ namespace @ ''.svc.cluster.local'')"

definition verifyMetadata :: "('m, 's) services \<Rightarrow> (('m, 's) broker, unit) act" where
  "verifyMetadata E =
     awrap ''metadata readiness check failed'' (abind (on_store E (\<lambda>ctx now. opMetadata (svStore E) ctx [])) (\<lambda>_. aret ()))"

text \<open>The probe of the object store, repeated until it succeeds or the context is done.\<close>

partial_function (option) probe_loop :: "('m, 's) services \<Rightarrow> string \<Rightarrow> ('m, 's) broker \<Rightarrow> (unit outcome \<times> ('m, 's) broker) option" where
  "probe_loop E key b =
     (case s3UploadSegment (svS3 E) key (bytes_of_string ''kafscale-startup-probe'') (hS3 b) of (r, s3) \<Rightarrow>
      let i = hCalls b;
          b = next_call (recordS3Op ''startup_probe'' (timeSub (svClock E i 1) (svClock E i 0))
                (case r of Err e \<Rightarrow> Some e | _ \<Rightarrow> None) (svClock E i 2) (b\<lparr>hS3 := s3\<rparr>))
      in (case r of
            Ok _ \<Rightarrow> Some (Ok (), b)
          | Panic \<Rightarrow> Some (Panic, b)
          | Err e \<Rightarrow> if svDone E i then Some (Err (ErrWrap ''s3 readiness check failed'' e), b) else probe_loop E key b))"

definition verifyS3 :: "('m, 's) services \<Rightarrow> (('m, 's) broker, unit) act" where
  "verifyS3 E b = probe_loop E (''__health/startup_probe_'' @ fmt_d (svClock E (hCalls b) 0 - 62135596800 * second)) (next_call b)"

definition runStartupChecks :: "('m, 's) services \<Rightarrow> (('m, 's) broker, unit) act" where
  "runStartupChecks E = abind (verifyMetadata E) (\<lambda>_. verifyS3 E)"

definition readiness :: "('m, 's) services \<Rightarrow> (('m, 's) broker, bool \<times> s3_state) act" where
  "readiness E b =
     (case Snapshot (svClock E (hCalls b) 0) (hHealth b) of
        (snap, m) \<Rightarrow> Some (Ok (ssState snap \<noteq> S3StateUnavailable, ssState snap), next_call (b\<lparr>hHealth := m\<rparr>)))"

end
