(* ===== verification/Log_Frame.thy ===== *)
theory Log_Frame
  imports Log_Restore
begin

text \<open>
  What an operation of one partition log leaves alone: the objects and cache entries of other
  partitions. Operations of different partitions of plainly named topics therefore never disturb
  each other, although they share the object store and the cache.
\<close>

section \<open>Keys of different partitions\<close>

lemma path_Join_topic:
  assumes "ns \<noteq> []" "plain_elem t" "plain_elem p"
  shows "path_Join [ns, t, p] = path_Join [ns, t] @ ''/'' @ p"
  using path_Clean_snoc2 [of ns t p] assms by (simp add: path_Join_def join_with_def plain_elem_def)

lemma last_elem_inj:
  assumes "q = [] \<or> last q = CHR ''/''" "q' = [] \<or> last q' = CHR ''/''"
    and "CHR ''/'' \<notin> set a" "CHR ''/'' \<notin> set a'" and eq: "q @ a = q' @ a'"
  shows "a = a'"
proof -
  from eq obtain us where "q = q' @ us \<and> us @ a = a' \<or> q @ us = q' \<and> a = us @ a'"
    by (auto simp: append_eq_append_conv2)
  then have "us = []"
  proof
    assume x: "q = q' @ us \<and> us @ a = a'"
    show "us = []"
    proof (rule ccontr)
      assume "us \<noteq> []"
      with x assms(1) have "last us = CHR ''/''" by (auto simp: last_append)
      with \<open>us \<noteq> []\<close> x assms(4) show False by (metis UnCI last_in_set set_append)
    qed
  next
    assume x: "q @ us = q' \<and> a = us @ a'"
    show "us = []"
    proof (rule ccontr)
      assume "us \<noteq> []"
      with x assms(2) have "last us = CHR ''/''" by (auto simp: last_append)
      with \<open>us \<noteq> []\<close> x assms(3) show False by (metis UnCI last_in_set set_append)
    qed
  qed
  with \<open>q = q' @ us \<and> us @ a = a' \<or> q @ us = q' \<and> a = us @ a'\<close> show ?thesis by auto
qed

lemma topic_key_inj:
  assumes "ns \<noteq> []" "plain_elem t" "plain_elem t'" "path_Join [ns, t] = path_Join [ns, t']"
  shows "t = t'"
proof -
  have "\<exists>q. \<forall>name. plain_elem name \<longrightarrow> path_Clean (ns @ CHR ''/'' # name) = q @ name \<and> (q = [] \<or> last q = CHR ''/'')"
    using path_Clean_snoc [OF assms(1)] by blast
  then obtain q where q: "\<And>name. plain_elem name \<Longrightarrow> path_Clean (ns @ CHR ''/'' # name) = q @ name" by blast
  have "path_Join [ns, x] = q @ x" if "plain_elem x" for x
    using q [OF that] that assms(1) by (simp add: path_Join_def join_with_def plain_elem_def)
  with assms show ?thesis by simp
qed

lemma split_last_slash:
  assumes "a @ CHR ''/'' # x = b @ CHR ''/'' # y" "CHR ''/'' \<notin> set x" "CHR ''/'' \<notin> set y"
  shows "a = b \<and> x = y"
proof -
  have "x = y" by (rule last_elem_inj [of "a @ ''/''" "b @ ''/''"]) (use assms in simp_all)
  with assms(1) show ?thesis by simp
qed

text \<open>A log of a plainly named topic in a namespace.\<close>

definition log_named :: "string \<Rightarrow> string \<times> int \<Rightarrow> 's plog \<Rightarrow> bool" where
  "log_named ns = (\<lambda>(t, p) l. plNamespace l = ns \<and> plTopic l = t \<and> plPartition l = p \<and> plain_elem t)"

lemma prefix_inj:
  assumes "ns \<noteq> []" "log_named ns tp l" "log_named ns tp' l'" "segmentPrefix l = segmentPrefix l'"
  shows "tp = tp'"
proof -
  obtain t p t' p' where tp: "tp = (t, p)" "tp' = (t', p')" by fastforce
  have "path_Join [ns, t] @ CHR ''/'' # fmt_d p = path_Join [ns, t'] @ CHR ''/'' # fmt_d p'"
    using assms path_Join_topic [OF assms(1) _ plain_fmt_d, of t p] path_Join_topic [OF assms(1) _ plain_fmt_d, of t' p']
    by (simp add: segmentPrefix_def log_named_def tp)
  then have "path_Join [ns, t] = path_Join [ns, t'] \<and> fmt_d p = fmt_d p'"
    by (rule split_last_slash) (use plain_fmt_d in \<open>auto simp: plain_elem_def\<close>)
  with topic_key_inj [OF assms(1), of t t'] assms(2,3) fmt_d_inj tp show ?thesis by (auto simp: log_named_def)
qed

lemma other_keys:
  assumes ns: "ns \<noteq> []" and n: "log_named ns tp l" "log_named ns tp' l'" "tp \<noteq> tp'"
  shows "segmentKey l b \<noteq> segmentKey l' b'" and "indexKey l b \<noteq> indexKey l' b'" and "own_keys l \<inter> own_keys l' = {}"
proof -
  have nss: "plNamespace l \<noteq> []" "plNamespace l' \<noteq> []" using n ns by (auto simp: log_named_def split: prod.splits)
  obtain d d' where d: "segmentPrefix l = d @ ''/''" "segmentPrefix l' = d' @ ''/''" by (simp add: segmentPrefix_def)
  have "segmentPrefix l \<noteq> segmentPrefix l'" using prefix_inj [OF ns n(1,2)] n(3) by blast
  then have "d @ CHR ''/'' # x \<noteq> d' @ CHR ''/'' # y" if "CHR ''/'' \<notin> set x" "CHR ''/'' \<notin> set y" for x y
    using split_last_slash [OF _ that] d by auto
  then show "segmentKey l b \<noteq> segmentKey l' b'" "indexKey l b \<noteq> indexKey l' b'"
    using plain_segment_name by (auto simp: segmentKey_prefix [OF nss(1)] segmentKey_prefix [OF nss(2)]
      indexKey_prefix [OF nss(1)] indexKey_prefix [OF nss(2)] d plain_elem_def)
  show "own_keys l \<inter> own_keys l' = {}"
    using n topic_key_inj [OF ns, of "plTopic l" "plTopic l'"]
    by (auto simp: own_keys_def cacheTopicKey_def log_named_def split: prod.splits)
qed

section \<open>Frames\<close>

text \<open>
  \<open>framed segs idx ok l l'\<close>: from \<open>l\<close> to \<open>l'\<close>, only objects and cache entries of the log itself
  have been written; other cache entries may have been evicted.
\<close>

definition framed :: "('s \<Rightarrow> string \<Rightarrow> bytes option) \<Rightarrow> ('s \<Rightarrow> string \<Rightarrow> bytes option) \<Rightarrow> ('s \<Rightarrow> bool)
    \<Rightarrow> 's plog \<Rightarrow> 's plog \<Rightarrow> bool" where
  "framed segs idx ok l l' \<longleftrightarrow>
     (ok (plS3 l) \<longrightarrow>
        conf l' = conf l \<and> ok (plS3 l') \<and>
        (\<forall>k. (\<forall>b. k \<noteq> segmentKey l b) \<longrightarrow> segs (plS3 l') k = segs (plS3 l) k) \<and>
        (\<forall>k. (\<forall>b. k \<noteq> indexKey l b) \<longrightarrow> idx (plS3 l') k = idx (plS3 l) k) \<and>
        (\<forall>c. plCache l = Some c \<longrightarrow> cache_inv c \<longrightarrow>
           (\<exists>c'. plCache l' = Some c' \<and> cache_inv c' \<and>
             (\<forall>k d. k \<notin> own_keys l \<longrightarrow> cache_view c' k = Some d \<longrightarrow> cache_view c k = Some d))))"

lemma framed_refl [simp]: "framed segs idx ok l l"
  by (simp add: framed_def)

lemma framed_trans [trans]:
  assumes "framed segs idx ok l l1" "framed segs idx ok l1 l2"
  shows "framed segs idx ok l l2"
proof (cases "ok (plS3 l)")
  case True
  with assms(1) have c: "conf l1 = conf l" "ok (plS3 l1)" by (simp_all add: framed_def)
  note k = conf_keys [OF c(1)]
  have "\<exists>c'. plCache l2 = Some c' \<and> cache_inv c' \<and>
      (\<forall>k d. k \<notin> own_keys l \<longrightarrow> cache_view c' k = Some d \<longrightarrow> cache_view x k = Some d)"
    if "plCache l = Some x" "cache_inv x" for x
  proof -
    from assms(1) True that obtain y where y: "plCache l1 = Some y" "cache_inv y"
      "\<And>k d. k \<notin> own_keys l \<Longrightarrow> cache_view y k = Some d \<Longrightarrow> cache_view x k = Some d"
      unfolding framed_def by blast
    from assms(2) c(2) y(1,2) obtain z where "plCache l2 = Some z" "cache_inv z"
      "\<And>k d. k \<notin> own_keys l \<Longrightarrow> cache_view z k = Some d \<Longrightarrow> cache_view y k = Some d"
      unfolding framed_def k by blast
    with y(3) show ?thesis by blast
  qed
  moreover from assms True c have "conf l2 = conf l" "ok (plS3 l2)"
    "\<forall>k. (\<forall>b. k \<noteq> segmentKey l b) \<longrightarrow> segs (plS3 l2) k = segs (plS3 l) k"
    "\<forall>k. (\<forall>b. k \<noteq> indexKey l b) \<longrightarrow> idx (plS3 l2) k = idx (plS3 l) k"
    by (simp_all add: framed_def k)
  ultimately show ?thesis by (simp add: framed_def)
qed (simp add: framed_def)

lemma framed_same:
  assumes "core l' = core (l\<lparr>plS3 := plS3 l'\<rparr>)" "plCache l' = plCache l"
    and "ok (plS3 l) \<Longrightarrow> ok (plS3 l') \<and> segs (plS3 l') = segs (plS3 l) \<and> idx (plS3 l') = idx (plS3 l)"
  shows "framed segs idx ok l l'"
proof -
  have "conf l' = conf l" using conf_core [OF assms(1)] by (simp add: conf_def)
  with assms(2,3) show ?thesis by (auto simp: framed_def)
qed

lemma framed_quiet: "quiet segs idx ok l l' \<Longrightarrow> framed segs idx ok l l'"
  by (rule framed_same) (auto simp: quiet_def)

lemma framed_eqI:
  assumes "conf l' = conf l" "plS3 l' = plS3 l" "plCache l' = plCache l"
  shows "framed segs idx ok l l'"
  using assms by (auto simp: framed_def)

lemma framed_cache:
  assumes "core l' = core l"
    and "\<And>c. plCache l = Some c \<Longrightarrow> cache_inv c \<Longrightarrow> \<exists>c'. plCache l' = Some c' \<and> cache_inv c' \<and>
           (\<forall>k d. k \<notin> own_keys l \<longrightarrow> cache_view c' k = Some d \<longrightarrow> cache_view c k = Some d)"
  shows "framed segs idx ok l l'"
  using assms conf_core [OF assms(1)] core_fields(4) [OF assms(1)] by (simp add: framed_def)

lemma framed_cache_set [simp]: "framed segs idx ok l (cache_set b d l)"
proof (rule framed_cache [OF core_cache_set])
  fix c assume c: "plCache l = Some c" "cache_inv c"
  let ?k = "(cacheTopicKey l, plPartition l, b)"
  have "cache_view (cache_put ?k d c) k = Some x \<Longrightarrow> k \<notin> own_keys l \<Longrightarrow> cache_view c k = Some x" for k x
    using lru.view_put [OF c(2), of ?k d k x] by (auto simp: own_keys_def)
  with c lru.inv_put [OF c(2), of ?k d] show "\<exists>c'. plCache (cache_set b d l) = Some c' \<and> cache_inv c' \<and>
      (\<forall>k d. k \<notin> own_keys l \<longrightarrow> cache_view c' k = Some d \<longrightarrow> cache_view c k = Some d)"
    by (auto simp: cache_set_def cache_put_def)
qed

lemma framed_cache_lookup [simp]: "framed segs idx ok l (snd (cache_lookup b l))"
proof (rule framed_cache [OF core_cache_lookup])
  fix c assume c: "plCache l = Some c" "cache_inv c"
  let ?k = "(cacheTopicKey l, plPartition l, b)"
  from c lru.inv_get [OF c(2), of ?k] lru.view_get [OF c(2), of ?k]
  show "\<exists>c'. plCache (snd (cache_lookup b l)) = Some c' \<and> cache_inv c' \<and>
      (\<forall>k d. k \<notin> own_keys l \<longrightarrow> cache_view c' k = Some d \<longrightarrow> cache_view c k = Some d)"
    by (auto simp: cache_lookup_def cache_get_def split: prod.splits)
qed

lemma prefetch_loop_view:
  assumes "prefetch_loop sg t p c ts = (c', ts')" "cache_inv c"
  shows "cache_inv c' \<and> cache_view c' = cache_view c"
  using assms
proof (induction sg t p c ts rule: prefetch_loop.induct)
  case (2 s sg t p c ts)
  obtain r c1 where g: "GetSegment c t p (srBase s) = (r, c1)" by fastforce
  have "cache_inv c1 \<and> cache_view c1 = cache_view c"
    using lru.inv_get [OF 2(4), of "(t, p, srBase s)"] lru.view_get [OF 2(4), of "(t, p, srBase s)"] g
    by (simp add: cache_get_def)
  with 2 g show ?case by (cases r) auto
qed simp

lemma framed_startPrefetch [simp]: "framed segs idx ok l (startPrefetch i l)"
proof (rule framed_cache [OF core_startPrefetch])
  fix c assume c: "plCache l = Some c" "cache_inv c"
  obtain c' ts where p: "prefetch_loop (take (nat (pcReadAheadSegments (plCfg l))) (drop (nat i) (plSegments l)))
      (cacheTopicKey l) (plPartition l) c (plPrefetch l) = (c', ts)" by fastforce
  from prefetch_loop_view [OF p c(2)] c p show "\<exists>c'. plCache (startPrefetch i l) = Some c' \<and> cache_inv c' \<and>
      (\<forall>k d. k \<notin> own_keys l \<longrightarrow> cache_view c' k = Some d \<longrightarrow> cache_view c k = Some d)"
    by (auto simp: startPrefetch_def)
qed

lemma framed_callS3Op: "framed segs idx ok l l' \<Longrightarrow> framed segs idx ok l (callS3Op n d r l')"
  by (rule framed_trans, assumption, rule framed_eqI)
    (simp_all add: conf_core [OF core_callS3Op])

lemma framed_callFlush: "framed segs idx ok l l' \<Longrightarrow> framed segs idx ok l (callFlush a l')"
  by (rule framed_trans, assumption, rule framed_eqI)
    (simp_all add: conf_core [OF core_callFlush])

context s3_contract
begin

lemma framed_upload:
  assumes "s3UploadSegment ops (segmentKey l b) d (plS3 l) = (r, s')"
  shows "framed segs idx ok l (l\<lparr>plS3 := s'\<rparr>)"
proof (cases "ok (plS3 l)")
  case True
  have "r \<noteq> Panic" "ok s'" "idx s' = idx (plS3 l)"
    using upload_no_panic ok_upload [OF True] upload_idx [OF True] assms by (metis fst_conv snd_conv)+
  moreover have "segs s' k = segs (plS3 l) k" if "k \<noteq> segmentKey l b" for k
    using upload_ok [OF True] upload_err [OF True] assms \<open>r \<noteq> Panic\<close> that
    by (cases r) (metis fun_upd_other old.unit.exhaust)+
  ultimately show ?thesis by (auto simp: framed_def conf_def)
qed (simp add: framed_def)

lemma framed_upload_index:
  assumes "s3UploadIndex ops (indexKey l b) d (plS3 l) = (r, s')"
  shows "framed segs idx ok l (l\<lparr>plS3 := s'\<rparr>)"
proof (cases "ok (plS3 l)")
  case True
  have "r \<noteq> Panic" "ok s'" "segs s' = segs (plS3 l)"
    using upload_index_no_panic ok_upload_index [OF True] upload_index_segs [OF True] assms by (metis fst_conv snd_conv)+
  moreover have "idx s' k = idx (plS3 l) k" if "k \<noteq> indexKey l b" for k
    using upload_index_ok [OF True] upload_index_err [OF True] assms \<open>r \<noteq> Panic\<close> that
    by (cases r) (metis fun_upd_other old.unit.exhaust)+
  ultimately show ?thesis by (auto simp: framed_def conf_def)
qed (simp add: framed_def)

lemma framed_flushLocked:
  assumes "flushLocked ops clk l = (r, l')"
  shows "framed segs idx ok l l'"
proof -
  obtain bs buf where d: "Drain (plBuffer l) (clk 0) = (bs, buf)" by fastforce
  let ?l0 = "l\<lparr>plBuffer := buf\<rparr>"
  have l0: "framed segs idx ok l ?l0" by (rule framed_eqI) (simp_all add: conf_def)
  show ?thesis
  proof (cases "bs \<noteq> [] \<and> (\<exists>a. BuildSegment (pcSegment (plCfg l)) bs (clk 1) = Ok a)")
    case False
    then have "l' = ?l0"
      using assms d by (cases "BuildSegment (pcSegment (plCfg l)) bs (clk 1)")
        (auto simp: flushLocked_def Let_def split: if_splits)
    with l0 show ?thesis by simp
  next
    case True
    then obtain a where a: "BuildSegment (pcSegment (plCfg l)) bs (clk 1) = Ok a" by blast
    obtain r1 s1 where u1: "s3UploadSegment ops (segmentKey ?l0 (saBaseOffset a)) (saSegmentBytes a) (plS3 ?l0) = (r1, s1)" by fastforce
    let ?l1 = "callS3Op ''upload_segment'' (timeSub (clk 3) (clk 2)) r1 (?l0\<lparr>plS3 := s1\<rparr>)"
    have l1: "framed segs idx ok l ?l1" by (intro framed_callS3Op framed_trans [OF l0] framed_upload [OF u1])
    obtain r2 s2 where u2: "s3UploadIndex ops (indexKey ?l1 (saBaseOffset a)) (saIndexBytes a) (plS3 ?l1) = (r2, s2)" by fastforce
    let ?l2 = "callS3Op ''upload_index'' (timeSub (clk 5) (clk 4)) r2 (?l1\<lparr>plS3 := s2\<rparr>)"
    have l2: "framed segs idx ok l ?l2" by (intro framed_callS3Op framed_trans [OF l1] framed_upload_index [OF u2])
    have l3: "framed segs idx ok l (startPrefetch i (?l2\<lparr>plSegments := sg, plIndexEntries := ix\<rparr>))"
      "framed segs idx ok l (startPrefetch i (cache_set b d ?l2\<lparr>plSegments := sg, plIndexEntries := ix\<rparr>))" for i sg ix b d
      by (rule framed_trans [OF framed_trans [OF l2 framed_eqI] framed_startPrefetch]
          framed_trans [OF framed_trans [OF framed_trans [OF l2 framed_cache_set] framed_eqI] framed_startPrefetch];
        simp add: conf_def)+
    show ?thesis
      using assms d True a u1 u2 l1 l2 l3
      by (auto simp: flushLocked_def Let_def split: outcome.splits)
  qed
qed

lemma framed_AppendBatch:
  assumes "AppendBatch ops clk b l = (r, l')"
  shows "framed segs idx ok l l'"
proof (cases "PatchRecordBatchBaseOffset b (plNextOffset l)")
  case (Ok b')
  let ?l1 = "l\<lparr>plNextOffset := i64 (plNextOffset l + rbLastOffsetDelta b' + 1), plBuffer := bufAppend b' (plBuffer l)\<rparr>"
  have l1: "framed segs idx ok l ?l1" by (rule framed_eqI) (simp_all add: conf_def)
  obtain fr l2 where f: "flushLocked ops (\<lambda>i. clk (Suc i)) ?l1 = (fr, l2)" by fastforce
  have l2: "framed segs idx ok l l2" by (rule framed_trans [OF l1 framed_flushLocked [OF f]])
  have "l' = ?l1 \<or> l' = l2 \<or> (\<exists>a. l' = callFlush a l2)"
    using assms Ok f by (auto simp: AppendBatch_def Let_def split: outcome.splits option.splits if_splits)
  with l1 l2 framed_callFlush [OF l2] show ?thesis by blast
qed (use assms in \<open>auto simp: AppendBatch_def\<close>)

lemma framed_Flush:
  assumes "Flush ops clk l = (r, l')"
  shows "framed segs idx ok l l'"
proof -
  obtain fr l1 where f: "flushLocked ops clk l = (fr, l1)" by fastforce
  note l1 = framed_flushLocked [OF f]
  have "l' = l1 \<or> (\<exists>a. l' = callFlush a l1)"
    using assms f by (auto simp: Flush_def Let_def split: outcome.splits option.splits if_splits)
  with l1 framed_callFlush [OF l1] show ?thesis by blast
qed

lemma framed_Read:
  assumes "Read ops clk off m l = (r, l')"
  shows "framed segs idx ok l l'"
proof (cases "read_select off l")
  case (Some x)
  obtain s es where x: "x = (s, es)" by fastforce
  obtain cd l1 where c: "cache_lookup (srBase s) l = (cd, l1)" by fastforce
  have l1: "framed segs idx ok l l1" using framed_cache_lookup [of segs idx ok l "srBase s"] c by simp
  show ?thesis
  proof (cases cd)
    case (Some data)
    with assms \<open>read_select off l = _\<close> x c have "l' = startPrefetch (segmentIndex l1 (srBase s) + 1) l1"
      by (simp add: Read_def read_fetch_def)
    with framed_trans [OF l1 framed_startPrefetch] show ?thesis by simp
  next
    case None
    define rng where "rng = segmentRangeForOffset s es off m"
    obtain r1 s1 where dl: "s3DownloadSegment ops (segmentKey l1 (srBase s)) rng (plS3 l1) = (r1, s1)" by fastforce
    have l2: "framed segs idx ok l (callS3Op n d r1 (l1\<lparr>plS3 := s1\<rparr>))" for n d
      by (rule framed_trans [OF l1 framed_quiet [OF quiet_download [OF dl]]])
    have l3: "framed segs idx ok l (startPrefetch i (cache_set b' d' (callS3Op n d r1 (l1\<lparr>plS3 := s1\<rparr>))))"
      "framed segs idx ok l (startPrefetch i (callS3Op n d r1 (l1\<lparr>plS3 := s1\<rparr>)))" for n d i b' d'
      by (intro framed_trans [OF framed_trans [OF l2 framed_cache_set] framed_startPrefetch]
          framed_trans [OF l2 framed_startPrefetch])+
    show ?thesis
      using assms \<open>read_select off l = _\<close> x c None dl l2 l3
      by (cases rng; cases r1) (auto simp: Read_def read_fetch_def rng_def Let_def split: if_splits)
  qed
qed (use assms in \<open>simp add: Read_def\<close>)

lemma framed_RestoreFromS3:
  assumes "RestoreFromS3 ops clk l = (r, l')"
  shows "framed segs idx ok l l'"
proof -
  obtain lr s1 where li: "s3ListSegments ops (segmentPrefix l) (plS3 l) = (lr, s1)" by fastforce
  let ?l1 = "l\<lparr>plS3 := s1\<rparr>"
  note q1 = quiet_list [OF li]
  show ?thesis
  proof (cases lr)
    case (Ok objs)
    obtain fr l2 where rf: "restore_footers ops clk 0 objs ?l1 = (fr, l2)" by fastforce
    note q2 = quiet_trans [OF q1 restore_footers_quiet [OF rf]]
    show ?thesis
    proof (cases fr)
      case fr: (Ok es)
      obtain ir l3 where ri: "restore_indexes ops clk (2 * length objs) (sort_key srBase es) (\<lambda>_. None) l2 = (ir, l3)" by fastforce
      note q3 = framed_quiet [OF quiet_trans [OF q2 restore_indexes_quiet [OF ri]]]
      have l4: "framed segs idx ok l (l3\<lparr>plSegments := sg, plIndexEntries := ix\<rparr>)"
        "framed segs idx ok l (l3\<lparr>plSegments := sg, plIndexEntries := ix, plNextOffset := n\<rparr>)" for sg ix n
        by (rule framed_trans [OF q3 framed_eqI]; simp add: conf_def)+
      show ?thesis
        using assms li Ok rf fr ri framed_quiet [OF q2] q3 l4
        by (cases es; cases ir) (auto simp: RestoreFromS3_def Let_def split: if_splits)
    qed (use assms li Ok rf framed_quiet [OF q2] in \<open>auto simp: RestoreFromS3_def\<close>)
  qed (use assms li framed_quiet [OF q1] in \<open>auto simp: RestoreFromS3_def\<close>)
qed

lemma framed_prefetch_step: "framed segs idx ok l (prefetch_step ops i l)"
proof (cases "i < length (plPrefetch l)")
  case True
  let ?rest = "take i (plPrefetch l) @ drop (Suc i) (plPrefetch l)"
  show ?thesis
  proof (cases "plPrefetch l ! i")
    case (PfDownload s)
    obtain r s' where d: "s3DownloadSegment ops (segmentKey l (srBase s)) None (plS3 l) = (r, s')" by fastforce
    have "framed segs idx ok l (l\<lparr>plS3 := s', plPrefetch := ts\<rparr>)" for ts
      by (rule framed_same) (use ok_download [of "plS3 l"] download_segs [of "plS3 l"] download_idx [of "plS3 l"] d
        in \<open>auto simp: core_def dest: spec\<close>, (metis snd_conv)+)
    with True PfDownload d show ?thesis by (cases r) (simp_all add: prefetch_step_def Let_def)
  next
    case (PfStore s d)
    have "framed segs idx ok l (l\<lparr>plPrefetch := ?rest\<rparr>)" by (rule framed_eqI) (simp_all add: conf_def)
    from framed_trans [OF this framed_cache_set] True PfStore show ?thesis by (simp add: prefetch_step_def Let_def)
  qed
qed (simp add: prefetch_step_def)

end

end
