(* ===== verification/Broker_Logic.thy ===== *)
theory Broker_Logic
  imports Broker_Handler Log_Frame
begin

text \<open>
  A small logic for the actions of the broker: what holds of every state an action leaves behind,
  how it relates to the state the action started in, and what is known of the result. The rules
  follow the structure of the handlers, so a property of the whole handler needs a proof for its
  primitive steps only: calls of the store and the coordinator, of the health monitor, of the
  partition logs, and what other connections do meanwhile.
\<close>

section \<open>A logic of actions\<close>

definition after :: "('b \<Rightarrow> bool) \<Rightarrow> ('b \<Rightarrow> 'b \<Rightarrow> bool) \<Rightarrow> 'b \<Rightarrow> ('a outcome \<times> 'b) option \<Rightarrow> ('a \<Rightarrow> bool) \<Rightarrow> bool" where
  "after I R b m Q \<longleftrightarrow> (\<forall>r b'. m = Some (r, b') \<longrightarrow> I b' \<and> R b b' \<and> (\<forall>x. r = Ok x \<longrightarrow> Q x))"

definition ensures :: "('b \<Rightarrow> bool) \<Rightarrow> ('b \<Rightarrow> 'b \<Rightarrow> bool) \<Rightarrow> ('b, 'a) act \<Rightarrow> ('a \<Rightarrow> bool) \<Rightarrow> bool" where
  "ensures I R m Q \<longleftrightarrow> (\<forall>b. I b \<longrightarrow> after I R b (m b) Q)"

lemma ensuresI: "(\<And>b. I b \<Longrightarrow> after I R b (m b) Q) \<Longrightarrow> ensures I R m Q"
  by (simp add: ensures_def)

lemma ensures_after: "ensures I R m Q \<Longrightarrow> I b \<Longrightarrow> after I R b (m b) Q"
  by (simp add: ensures_def)

lemma ensuresD:
  assumes "ensures I R m Q" "I b" "m b = Some (r, b')"
  shows "I b'" "R b b'" "r = Ok x \<Longrightarrow> Q x"
  using assms by (auto simp: ensures_def after_def)

lemma ensures_weaken: "ensures I R m Q \<Longrightarrow> (\<And>x. Q x \<Longrightarrow> Q' x) \<Longrightarrow> ensures I R m Q'"
  by (auto simp: ensures_def after_def)

lemma ensures_True: "ensures I R m Q \<Longrightarrow> ensures I R m (\<lambda>_. True)"
  by (erule ensures_weaken) simp

locale act_logic =
  fixes I :: "'b \<Rightarrow> bool" and R :: "'b \<Rightarrow> 'b \<Rightarrow> bool"
  assumes R_refl: "I b \<Longrightarrow> R b b"
    and R_trans: "R a b \<Longrightarrow> R b c \<Longrightarrow> R a c"
begin

lemma after_None [simp]: "after I R b None Q"
  by (simp add: after_def)

lemma after_Some: "after I R b (Some (r, b')) Q \<longleftrightarrow> I b' \<and> R b b' \<and> (\<forall>x. r = Ok x \<longrightarrow> Q x)"
  by (auto simp: after_def)

lemma keeps_ret: "Q x \<Longrightarrow> ensures I R (aret x) Q"
  by (auto simp: ensures_def after_Some aret_def R_refl)

lemma keeps_done: "ensures I R (aret x) (\<lambda>_. True)"
  by (rule keeps_ret) simp

lemma after_ret [simp]: "I b \<Longrightarrow> after I R b (aret x b) (\<lambda>_. True)"
  by (rule ensures_after [OF keeps_done])

lemma keeps_fail: "ensures I R (afail e) Q"
  by (auto simp: ensures_def after_Some afail_def R_refl)

lemma keeps_out: "(\<And>x. r = Ok x \<Longrightarrow> Q x) \<Longrightarrow> ensures I R (aout r) Q"
  by (auto simp: ensures_def after_Some aout_def R_refl)

lemma after_bind:
  assumes m: "after I R b (m b) P" and f: "\<And>x. P x \<Longrightarrow> ensures I R (f x) Q"
  shows "after I R b (abind m f b) Q"
proof (cases "m b")
  case (Some y)
  obtain r b1 where y: "y = (r, b1)" by fastforce
  with m Some have b1: "I b1" "R b b1" "\<And>x. r = Ok x \<Longrightarrow> P x" by (auto simp: after_def)
  show ?thesis
  proof (cases r)
    case (Ok x)
    have "after I R b1 (f x b1) Q" using ensures_after [OF f [OF b1(3) [OF Ok]] b1(1)] .
    with b1(2) R_trans Some y Ok show ?thesis by (auto simp: abind_def after_def)
  qed (use Some y b1 in \<open>auto simp: abind_def after_def\<close>)
qed (simp add: abind_def)

lemma keeps_bind:
  assumes m: "ensures I R m P" and f: "\<And>x. P x \<Longrightarrow> ensures I R (f x) Q"
  shows "ensures I R (abind m f) Q"
  by (rule ensuresI, rule after_bind [OF ensures_after [OF m]]) (use f in simp_all)

lemma keeps_seq:
  "ensures I R m (\<lambda>_. True) \<Longrightarrow> (\<And>x. ensures I R (f x) Q) \<Longrightarrow> ensures I R (abind m f) Q"
  by (rule keeps_bind)

lemma keeps_reply: "ensures I R (aout r) (\<lambda>_. True)"
  by (rule keeps_out) simp

lemma after_reply [simp]: "I b \<Longrightarrow> after I R b (aout r b) (\<lambda>_. True)"
  by (rule ensures_after [OF keeps_reply])

lemma after_fail [simp]: "I b \<Longrightarrow> after I R b (afail e b) (\<lambda>_. True)"
  by (rule ensures_after [OF keeps_fail])

lemma after_seq:
  "I b \<Longrightarrow> ensures I R m (\<lambda>_. True) \<Longrightarrow> (\<And>x. ensures I R (f x) Q) \<Longrightarrow> after I R b (abind m f b) Q"
  by (rule ensures_after [OF keeps_seq])

lemma keeps_try: "ensures I R m P \<Longrightarrow> ensures I R (atry m) (\<lambda>r. \<forall>x. r = Inr x \<longrightarrow> P x)"
  by (auto simp: ensures_def after_def atry_def split: option.splits outcome.splits)

lemma keeps_try_True: "ensures I R m (\<lambda>_. True) \<Longrightarrow> ensures I R (atry m) (\<lambda>_. True)"
  by (rule ensures_True [OF keeps_try])

lemma keeps_map: "(\<And>x. x \<in> set xs \<Longrightarrow> ensures I R (f x) (\<lambda>_. True)) \<Longrightarrow> ensures I R (amap f xs) (\<lambda>_. True)"
  by (induction xs) (auto intro!: keeps_seq keeps_ret)

lemma keeps_state: "(\<And>s. ensures I R (f s) Q) \<Longrightarrow> ensures I R (\<lambda>b. f b b) Q"
  by (simp add: ensures_def)

lemma keeps_wrap: "ensures I R m (\<lambda>_. True) \<Longrightarrow> ensures I R (awrap msg m) (\<lambda>_. True)"
  unfolding awrap_def by (rule keeps_seq [OF keeps_try_True]) (auto intro: keeps_ret keeps_fail split: sum.splits)

end

section \<open>The loop that opens a log\<close>

text \<open>An induction rule for what \<open>getPartitionLog\<close> returns, one case per way out of its loop.\<close>

definition after_lookup :: "('m, 's) services \<Rightarrow> string \<Rightarrow> int \<Rightarrow> ('m, 's) broker \<Rightarrow> int outcome \<times> ('m, 's) broker" where
  "after_lookup E t p b =
     (case opNextOffset (svStore E) (svDone E (hCalls b)) t p (hStore b) of (r, st) \<Rightarrow> (r, next_call (set_store st b)))"

lemma getPartitionLog_unfold:
  "getPartitionLog E t p b =
     (case map_of (hLogs b) (t, p) of
        Some l \<Rightarrow> Some (Ok l, b)
      | None \<Rightarrow>
          (case after_lookup E t p b of (r, b) \<Rightarrow>
             (case r of
                Ok n \<Rightarrow> open_log E t p n b
              | Panic \<Rightarrow> Some (Panic, b)
              | Err e \<Rightarrow>
                  if errors_Is e ErrUnknownTopic \<and> hAutoCreateTopics b
                  then abind (ensureTopic E t p) (\<lambda>_. getPartitionLog E t p) b
                  else Some (Err e, b))))"
  by (subst getPartitionLog.simps)
    (auto simp: after_lookup_def abind_def Let_def split: option.splits prod.splits outcome.splits)

lemma getPartitionLog_induct [consumes 1, case_names found lookup again]:
  assumes run: "getPartitionLog E t p b = Some y"
    and found: "\<And>b l. map_of (hLogs b) (t, p) = Some l \<Longrightarrow> P b (Ok l, b)"
    and lookup: "\<And>b r b1 y. map_of (hLogs b) (t, p) = None \<Longrightarrow> after_lookup E t p b = (r, b1) \<Longrightarrow>
          (\<forall>n. r = Ok n \<longrightarrow> open_log E t p n b1 = Some y) \<Longrightarrow>
          (\<forall>e. r = Err e \<longrightarrow> (\<not> (errors_Is e ErrUnknownTopic \<and> hAutoCreateTopics b1) \<and> y = (Err e, b1)) \<or>
             (\<exists>q b2. ensureTopic E t p b1 = Some (q, b2) \<and> (\<forall>u. q \<noteq> Ok u) \<and> snd y = b2 \<and> (\<forall>l. fst y \<noteq> Ok l))) \<Longrightarrow>
          (r = Panic \<longrightarrow> y = (Panic, b1)) \<Longrightarrow> P b y"
    and again: "\<And>b e b1 b2 y. map_of (hLogs b) (t, p) = None \<Longrightarrow> after_lookup E t p b = (Err e, b1) \<Longrightarrow>
          errors_Is e ErrUnknownTopic \<Longrightarrow> hAutoCreateTopics b1 \<Longrightarrow> ensureTopic E t p b1 = Some (Ok (), b2) \<Longrightarrow>
          P b2 y \<Longrightarrow> P b y"
  shows "P b y"
proof -
  have "E' = E \<longrightarrow> t' = t \<longrightarrow> p' = p \<longrightarrow> P b' y'" if "getPartitionLog E' t' p' b' = Some y'" for E' t' p' b' y'
    using that
  proof (rule getPartitionLog.raw_induct [rotated, where P = "\<lambda>E' t' p' b' y'. E' = E \<longrightarrow> t' = t \<longrightarrow> p' = p \<longrightarrow> P b' y'"])
    fix f E' t' p' b' y'
    assume IH: "\<And>E' t' p' b' y'. f E' t' p' b' = Some y' \<Longrightarrow> E' = E \<longrightarrow> t' = t \<longrightarrow> p' = p \<longrightarrow> P b' y'"
      and eq: "(case map_of (hLogs b') (t', p') of
        Some l \<Rightarrow> Some (Ok l, b')
      | None \<Rightarrow>
          (case opNextOffset (svStore E') (svDone E' (hCalls b')) t' p' (hStore b') of (r, st) \<Rightarrow>
           let b = next_call (set_store st b') in
           (case r of
              Ok nextOffset \<Rightarrow> open_log E' t' p' nextOffset b
            | Panic \<Rightarrow> Some (Panic, b)
            | Err e \<Rightarrow>
                if errors_Is e ErrUnknownTopic \<and> hAutoCreateTopics b then
                  (case ensureTopic E' t' p' b of
                     None \<Rightarrow> None
                   | Some (q, b) \<Rightarrow>
                       (case q of
                          Ok _ \<Rightarrow> f E' t' p' b
                        | Err e \<Rightarrow> Some (Err e, b)
                        | Panic \<Rightarrow> Some (Panic, b)))
                else Some (Err e, b)))) = Some y'"
    show "E' = E \<longrightarrow> t' = t \<longrightarrow> p' = p \<longrightarrow> P b' y'"
    proof (intro impI)
      assume [simp]: "E' = E" "t' = t" "p' = p"
      show "P b' y'"
      proof (cases "map_of (hLogs b') (t, p)")
        case (Some l)
        with eq found show ?thesis by auto
      next
        case None
        obtain r b1 where l: "after_lookup E t p b' = (r, b1)" by fastforce
        then obtain st where st: "opNextOffset (svStore E) (svDone E (hCalls b')) t p (hStore b') = (r, st)"
          "b1 = next_call (set_store st b')" by (auto simp: after_lookup_def split: prod.splits)
        consider (loop) e b2 where "r = Err e" "errors_Is e ErrUnknownTopic" "hAutoCreateTopics b1"
            "ensureTopic E t p b1 = Some (Ok (), b2)"
          | (out) "\<forall>e b2. r = Err e \<longrightarrow> errors_Is e ErrUnknownTopic \<longrightarrow> hAutoCreateTopics b1 \<longrightarrow>
              ensureTopic E t p b1 \<noteq> Some (Ok (), b2)" by blast
        then show ?thesis
        proof cases
          case loop
          with eq None st have "f E t p b2 = Some y'" by simp
          with IH again [OF None l [unfolded loop(1)] loop(2-4)] show ?thesis by blast
        next
          case out
          show ?thesis
          proof (rule lookup [OF None l])
            show "\<forall>n. r = Ok n \<longrightarrow> open_log E t p n b1 = Some y'" using eq None st by auto
            show "r = Panic \<longrightarrow> y' = (Panic, b1)" using eq None st by auto
            show "\<forall>e. r = Err e \<longrightarrow> (\<not> (errors_Is e ErrUnknownTopic \<and> hAutoCreateTopics b1) \<and> y' = (Err e, b1)) \<or>
             (\<exists>q b2. ensureTopic E t p b1 = Some (q, b2) \<and> (\<forall>u. q \<noteq> Ok u) \<and> snd y' = b2 \<and> (\<forall>l. fst y' \<noteq> Ok l))"
              using eq None st out by (auto simp: Let_def split: if_splits option.splits prod.splits outcome.splits)
          qed
        qed
      qed
    qed
  qed
  with run show ?thesis by blast
qed

section \<open>The steps of the handler\<close>

text \<open>
  \<open>request_ok T B E b r\<close>: the topics whose logs the request touches satisfy \<open>T\<close>, also those a fetch
  names by their identifier in the metadata, and the record sets it sends satisfy \<open>B\<close>.
\<close>

definition ids_ok :: "(string \<Rightarrow> bool) \<Rightarrow> ('m, 's) services \<Rightarrow> ('m, 's) broker \<Rightarrow> bool" where
  "ids_ok T E b \<longleftrightarrow>
     (case opMetadata (svStore E) (svDone E (hCalls b)) [] (hStore b) of
        (Ok (Some meta), st) \<Rightarrow> \<forall>t \<in> set (cmTopics meta). T (mtName t)
      | _ \<Rightarrow> True)"

definition request_ok :: "(string \<Rightarrow> bool) \<Rightarrow> (bytes \<Rightarrow> bool) \<Rightarrow> ('m, 's) services \<Rightarrow> ('m, 's) broker \<Rightarrow> request \<Rightarrow> bool" where
  "request_ok T B E b r =
     (case r of
        ReqProduce req \<Rightarrow> \<forall>t \<in> set (prTopics req). T (ptName t) \<and> (\<forall>p \<in> set (ptPartitions t). B (or_nil (ppRecords p)))
      | ReqFetch req \<Rightarrow>
          (\<forall>t \<in> set (frqTopics req). T (ftName t) \<or> ftName t = [] \<and> ftTopicID t \<noteq> zero_id) \<and>
          ((\<exists>t \<in> set (frqTopics req). ftTopicID t \<noteq> zero_id) \<longrightarrow> ids_ok T E b)
      | ReqListOffsets req \<Rightarrow> \<forall>t \<in> set (lorTopics req). T (lotName t)
      | _ \<Rightarrow> True)"

text \<open>
  What a property must say of the primitive steps. \<open>plog_ok\<close> holds of the logs in the map,
  \<open>topic_ok\<close> of the topics named in requests, \<open>batch\<close> of the record batches sent.
\<close>

locale handler_steps = act_logic I R
  for I :: "('m, 's) broker \<Rightarrow> bool" and R +
  fixes E :: "('m, 's) services" and plog_ok :: "'s plog \<Rightarrow> bool" and topic_ok :: "string \<Rightarrow> bool"
    and bytes_ok :: "bytes \<Rightarrow> bool"
  assumes coordinator_step: "I b \<Longrightarrow> I (next_call (b\<lparr>hCoordinator := c\<rparr>)) \<and> R b (next_call (b\<lparr>hCoordinator := c\<rparr>))"
    and health_step: "I b \<Longrightarrow> I (next_call (b\<lparr>hHealth := m\<rparr>)) \<and> R b (next_call (b\<lparr>hHealth := m\<rparr>))"
    and others_step: "I b \<Longrightarrow> I ((svOthers E (hCalls b) b)\<lparr>hCalls := Suc (hCalls b)\<rparr>) \<and>
          R b ((svOthers E (hCalls b) b)\<lparr>hCalls := Suc (hCalls b)\<rparr>)"
    and known_log: "I b \<Longrightarrow> map_of (hLogs b) tp = Some l \<Longrightarrow> plog_ok l"
    and open_step: "I b \<Longrightarrow> topic_ok t \<Longrightarrow> map_of (hLogs b) (t, p) = None \<Longrightarrow> after I R b (open_log E t p n b) plog_ok"
    and append_step: "plog_ok l \<Longrightarrow> bytes_ok d \<Longrightarrow> NewRecordBatchFromBytes d = Ok batch \<Longrightarrow>
          ensures I R (on_log E l (\<lambda>clk. AppendBatch (svS3 E) clk batch)) (\<lambda>_. True)"
    and flush_step: "plog_ok l \<Longrightarrow> ensures I R (on_log E l (Flush (svS3 E))) (\<lambda>_. True)"
    and read_step: "plog_ok l \<Longrightarrow> ensures I R (on_log E l (\<lambda>clk. Read (svS3 E) clk off mx)) (\<lambda>_. True)"
    and earliest_step: "plog_ok l \<Longrightarrow> ensures I R (on_log E l (\<lambda>clk l. (Ok (EarliestOffset l), l))) (\<lambda>_. True)"
begin

lemma call_step: "I b \<Longrightarrow> I (next_call b) \<and> R b (next_call b)"
  using coordinator_step [of b "hCoordinator b"] by simp

lemma keeps_store: "ensures I R (on_store E f) (\<lambda>_. True)"
  by (rule ensuresI) (use coordinator_step in \<open>auto simp: on_store_def after_def set_store_def split: prod.splits\<close>)

lemma keeps_groups: "ensures I R (on_groups E f) (\<lambda>_. True)"
  by (rule ensuresI) (use coordinator_step in \<open>auto simp: on_groups_def after_def split: prod.splits\<close>)

lemma keeps_health: "ensures I R (health_state E) (\<lambda>_. True)"
  by (rule ensuresI) (use health_step in \<open>auto simp: health_state_def after_def split: prod.splits\<close>)

lemma keeps_backpressure: "ensures I R (backpressureErrorCode E) (\<lambda>_. True)"
  unfolding backpressureErrorCode_def by (intro keeps_seq keeps_health keeps_ret) simp

lemma keeps_metadata: "ensures I R (load_metadata E ts) (\<lambda>_. True)"
  unfolding load_metadata_def by (rule keeps_seq [OF keeps_store]) (auto intro: keeps_out keeps_ret split: option.splits)

lemma keeps_ensureTopic: "ensures I R (ensureTopic E t p) (\<lambda>_. True)"
proof (rule ensuresI)
  fix b assume b: "I b"
  show "after I R b (ensureTopic E t p b) (\<lambda>_. True)"
    unfolding ensureTopic_def Let_def
    by (rule ensures_after [OF keeps_seq [OF keeps_try_True [OF keeps_store]] b])
      (auto intro: keeps_ret keeps_fail split: sum.splits)
qed

lemma lookup_step:
  assumes "I b" "after_lookup E t p b = (r, b')"
  shows "I b' \<and> R b b' \<and> hLogs b' = hLogs b"
  using assms coordinator_step [OF assms(1)] by (auto simp: after_lookup_def set_store_def next_call_def split: prod.splits)

lemma keeps_getPartitionLog:
  assumes "topic_ok t"
  shows "ensures I R (getPartitionLog E t p) plog_ok"
proof -
  have "I b \<longrightarrow> I (snd y) \<and> R b (snd y) \<and> (\<forall>x. fst y = Ok x \<longrightarrow> plog_ok x)"
    if "getPartitionLog E t p b = Some y" for b y
    using that
  proof (induction rule: getPartitionLog_induct)
    case (found b l)
    then show ?case using known_log R_refl by auto
  next
    case (lookup b r b1 y)
    show ?case
    proof
      assume b: "I b"
      note b1 = lookup_step [OF b lookup(2)]
      show "I (snd y) \<and> R b (snd y) \<and> (\<forall>x. fst y = Ok x \<longrightarrow> plog_ok x)"
      proof (cases r)
        case (Ok n)
        with lookup(3) have "open_log E t p n b1 = Some (fst y, snd y)" by simp
        moreover have "after I R b1 (open_log E t p n b1) plog_ok" using open_step assms b1 lookup(1) by simp
        ultimately show ?thesis using b1 R_trans unfolding after_def by blast
      next
        case (Err e)
        with lookup(4) consider "y = (Err e, b1)"
          | q b2 where "ensureTopic E t p b1 = Some (q, b2)" "snd y = b2" "\<forall>l. fst y \<noteq> Ok l" by blast
        then show ?thesis
        proof cases
          case 2
          with ensuresD [OF keeps_ensureTopic, of b1] b1 R_trans [of b b1] show ?thesis by auto
        qed (use b1 in auto)
      qed (use lookup(5) b1 in auto)
    qed
  next
    case (again b e b1 b2 y)
    then show ?case using lookup_step [OF _ again(2)] ensuresD [OF keeps_ensureTopic _ again(5)] R_trans by blast
  qed
  then show ?thesis by (auto simp: ensures_def after_def)
qed

lemma keeps_produce_backpressure: "ensures I R (produce_backpressure E p) (\<lambda>_. True)"
  unfolding produce_backpressure_def by (intro keeps_seq keeps_backpressure keeps_ret) simp

lemma keeps_produce_append:
  assumes "plog_ok l" "bytes_ok d" "NewRecordBatchFromBytes d = Ok batch"
  shows "ensures I R (produce_append E acks now p batch l) (\<lambda>_. True)"
proof -
  have fl: "ensures I R (\<lambda>b. if acks \<noteq> 0 \<and> hFlushOnAck b then atry (on_log E l (Flush (svS3 E))) b else aret (Inr ()) b) (\<lambda>_. True)"
    using ensures_after [OF keeps_try_True [OF flush_step [OF assms(1)]]] by (auto intro!: ensuresI)
  show ?thesis
    unfolding produce_append_def
    by (rule keeps_seq [OF keeps_try_True [OF append_step [OF assms]]])
      (auto split: sum.splits intro!: keeps_seq [OF fl] keeps_produce_backpressure keeps_ret)
qed

lemma keeps_produce_one:
  assumes "topic_ok t" "bytes_ok (or_nil (ppRecords p))"
  shows "ensures I R (produce_one E acks now t p) (\<lambda>_. True)"
proof (rule ensuresI)
  fix b assume b: "I b"
  have inner: "ensures I R (case NewRecordBatchFromBytes (or_nil (ppRecords p)) of
      Ok batch \<Rightarrow> produce_append E acks now (ppPartition p) batch l
    | Err e \<Rightarrow> aret (produce_error (ppPartition p) UNKNOWN_SERVER_ERROR)
    | Panic \<Rightarrow> aout Panic) (\<lambda>_. True)" if "plog_ok l" for l
    by (cases "NewRecordBatchFromBytes (or_nil (ppRecords p))")
      (auto intro: keeps_produce_append [OF that assms(2)] keeps_ret keeps_out)
  have "ensures I R (abind (health_state E) (\<lambda>st.
      if st \<noteq> S3StateHealthy then produce_backpressure E (ppPartition p)
      else abind (atry (getPartitionLog E t (ppPartition p))) (\<lambda>r. case r of
          Inl e \<Rightarrow> aret (produce_error (ppPartition p) UNKNOWN_SERVER_ERROR)
        | Inr plog \<Rightarrow> (case NewRecordBatchFromBytes (or_nil (ppRecords p)) of
            Ok batch \<Rightarrow> produce_append E acks now (ppPartition p) batch plog
          | Err e \<Rightarrow> aret (produce_error (ppPartition p) UNKNOWN_SERVER_ERROR)
          | Panic \<Rightarrow> aout Panic)))) (\<lambda>_. True)"
    by (rule keeps_seq [OF keeps_health])
      (auto intro!: keeps_produce_backpressure keeps_bind [OF keeps_try [OF keeps_getPartitionLog [OF assms(1)]]]
        keeps_ret inner split: sum.splits)
  from ensures_after [OF this b] b show "after I R b (produce_one E acks now t p b) (\<lambda>_. True)"
    by (simp add: produce_one_def Let_def)
qed

lemma keeps_handleProduce:
  assumes "\<forall>t \<in> set (prTopics req). topic_ok (ptName t) \<and> (\<forall>p \<in> set (ptPartitions t). bytes_ok (or_nil (ppRecords p)))"
  shows "ensures I R (handleProduce E h req) (\<lambda>_. True)"
proof (rule ensuresI)
  fix b assume b: "I b"
  have topics: "ensures I R (amap (produce_one_topic E acks now) (prTopics req)) (\<lambda>_. True)" for acks now
    using assms by (auto simp: produce_one_topic_def intro!: keeps_map keeps_seq keeps_produce_one keeps_ret)
  have "ensures I R (abind (amap (produce_one_topic E (prAcks req) now) (prTopics req)) (\<lambda>ts.
        if prAcks req = 0 then aret None
        else abind (aout (EncodeProduceResponse
               \<lparr>prrCorrelationID = rhCorrelationID h, prrTopics = ts, prrThrottleMs = 0\<rparr> (rhAPIVersion h)))
             (\<lambda>bs. aret (Some bs)))) (\<lambda>_. True)" for now
    by (rule keeps_seq [OF topics]) (auto intro!: keeps_ret keeps_seq keeps_out)
  note f = ensures_after [OF this conjunct1 [OF call_step [OF b]]]
  show "after I R b (handleProduce E h req b) (\<lambda>_. True)"
    unfolding handleProduce_def Let_def using f call_step [OF b] R_trans [of b "next_call b"]
    unfolding after_def by blast
qed

lemma next_offset_step:
  assumes "I b" "next_offset E t p b = (r, b')"
  shows "I b' \<and> R b b'"
  using assms coordinator_step [OF assms(1)] by (auto simp: next_offset_def set_store_def split: prod.splits)

lemma wait_loop_step:
  assumes "I b" "wait_loop E t p off deadline now n b = (r, b')"
  shows "I b' \<and> R b b'"
  using assms
proof (induction "nat (deadline - now)" arbitrary: now n b rule: less_induct)
  case less
  show ?case
  proof (cases "deadline - now \<le> 0 \<or> svDone E (hCalls b)")
    case True
    with less(2,3) show ?thesis
      using R_refl call_step by (subst (asm) wait_loop.simps) (auto simp: Let_def split: if_splits)
  next
    case False
    let ?b1 = "(svOthers E (hCalls b) b)\<lparr>hCalls := Suc (hCalls b)\<rparr>"
    note b1 = others_step [OF less(2)]
    obtain q b2 where o: "next_offset E t p ?b1 = (q, b2)" by fastforce
    note b2 = next_offset_step [OF conjunct1 [OF b1] o]
    then have R: "R b b2" using b1 R_trans by blast
    show ?thesis
    proof (cases "\<exists>m. q = Ok (m, None) \<and> \<not> off < m")
      case True
      then obtain m where q: "q = Ok (m, None)" "\<not> off < m" by blast
      let ?now = "now + min fetchPollInterval (deadline - now) + int (svLate E (hCalls b))"
      from less(3) False o q have "wait_loop E t p off deadline ?now m b2 = (r, b')"
        by (subst (asm) wait_loop.simps) (simp add: Let_def)
      moreover have "nat (deadline - ?now) < nat (deadline - now)"
        using False by (auto simp: fetchPollInterval_def millisecond_def)
      ultimately show ?thesis using less(1) b2 R R_trans by blast
    next
      case False': False
      from less(3) False o False' have "b' = b2"
        by (subst (asm) wait_loop.simps) (auto simp: Let_def split: outcome.splits if_splits prod.splits)
      with b2 R show ?thesis by simp
    qed
  qed
qed

lemma keeps_waitForFetchData: "ensures I R (waitForFetchData E t p off w) (\<lambda>_. True)"
proof (rule ensuresI)
  fix b assume b: "I b"
  obtain r b1 where o: "next_offset E t p b = (r, b1)" by fastforce
  note b1 = next_offset_step [OF b o]
  note b2 = call_step [OF conjunct1 [OF b1]]
  have "I b' \<and> R b b'" if "wait_loop E t p off dl now n (next_call b1) = (q, b')" for dl now n q b'
    using wait_loop_step [OF conjunct1 [OF b2] that] b1 b2 R_trans by blast
  with b1 o show "after I R b (waitForFetchData E t p off w b) (\<lambda>_. True)"
    by (auto simp: waitForFetchData_def after_def Let_def split: outcome.splits prod.splits if_splits)
qed

lemma keeps_fetch_read:
  assumes "plog_ok l"
  shows "ensures I R (fetch_read E l p n) (\<lambda>_. True)"
  unfolding fetch_read_def
  by (rule keeps_seq [OF keeps_try_True [OF read_step [OF assms]]])
    (auto intro!: keeps_done keeps_seq keeps_backpressure split: sum.splits)

lemma keeps_fetch_partition:
  assumes "topic_ok t"
  shows "ensures I R (fetch_partition_data E t w p) (\<lambda>_. True)"
proof -
  have wait: "ensures I R (abind (waitForFetchData E t (fpPartition p) (fpFetchOffset p) w) (\<lambda>(nextOffset, offsetErr) b.
      if (case offsetErr of None \<Rightarrow> False | Some e \<Rightarrow> errors_Is e ErrUnknownTopic)
      then aret (fetch_error (fpPartition p) UNKNOWN_TOPIC_OR_PARTITION) b
      else
        let nextOffset = (case offsetErr of
              None \<Rightarrow> nextOffset
            | Some e \<Rightarrow> if errors_Is e ErrContext then nextOffset
                        else if \<not> etcdAvailable E b then fpFetchOffset p else 0)
        in if fpFetchOffset p > nextOffset
           then aret (fetch_result (fpPartition p) OFFSET_OUT_OF_RANGE nextOffset None) b
           else if fpFetchOffset p = nextOffset then aret (fetch_result (fpPartition p) 0 nextOffset None) b
           else fetch_read E l p nextOffset b)) (\<lambda>_. True)" if "plog_ok l" for l
    by (rule keeps_seq [OF keeps_waitForFetchData], rule ensuresI)
      (use ensures_after [OF keeps_fetch_read [OF that]] in \<open>auto simp: Let_def split: prod.splits\<close>)
  have err: "ensures I R (abind (health_state E) (\<lambda>_ b. aret (fetch_error (fpPartition p)
      (if etcdAvailable E b then UNKNOWN_SERVER_ERROR else REQUEST_TIMED_OUT)) b)) (\<lambda>_. True)"
    by (rule keeps_seq [OF keeps_health]) (simp add: ensures_def)
  show ?thesis
    unfolding fetch_partition_data_def
    by (rule keeps_seq [OF keeps_health])
      (auto intro!: keeps_seq [OF keeps_backpressure] keeps_done keeps_bind [OF keeps_try [OF keeps_getPartitionLog [OF assms]]] err wait
        split: sum.splits)
qed

lemma keeps_fetch_topic:
  assumes "topic_ok (ftName t) \<or> ftName t = [] \<and> ftTopicID t \<noteq> zero_id" "\<forall>x \<in> set ids. topic_ok (snd x)"
  shows "ensures I R (fetch_topic_data E ids w t) (\<lambda>_. True)"
proof -
  have "topic_ok n" if "map_of ids (ftTopicID t) = Some n" for n using map_of_SomeD [OF that] assms(2) by force
  with assms(1) show ?thesis
    unfolding fetch_topic_data_def Let_def
    by (auto intro!: keeps_done keeps_seq keeps_map keeps_fetch_partition split: option.splits)
qed

lemma id_names_range: "x \<in> set (id_names meta) \<Longrightarrow> \<exists>t \<in> set (cmTopics meta). snd x = mtName t"
proof -
  have "x \<in> set (fold (\<lambda>t m. AList.update (mtTopicID t) (mtName t) m) ts m0) \<Longrightarrow>
      x \<in> set m0 \<or> (\<exists>t \<in> set ts. snd x = mtName t)" for ts m0
  proof (induction ts arbitrary: m0)
    case (Cons t ts)
    from Cons(1) [of "AList.update (mtTopicID t) (mtName t) m0"] Cons(2)
    show ?case using set_update_subset [of "mtTopicID t" "mtName t" m0] by auto
  qed simp
  from this [of "cmTopics meta" "[]"] show "x \<in> set (id_names meta) \<Longrightarrow> ?thesis" by (simp add: id_names_def)
qed

lemma after_load_ids:
  assumes b: "I b" and ids: "ids_ok topic_ok E b"
  shows "after I R b (abind (awrap msg (load_metadata E [])) (\<lambda>meta. aret (id_names meta)) b) (\<lambda>m. \<forall>x \<in> set m. topic_ok (snd x))"
proof (rule after_bind)
  have "Q meta" if "load_metadata E [] b = Some (Ok meta, b')" "Q = (\<lambda>meta. \<forall>t \<in> set (cmTopics meta). topic_ok (mtName t))" for meta b' Q
    using that ids by (auto simp: load_metadata_def on_store_def abind_def aret_def aout_def ids_ok_def
      split: prod.splits outcome.splits option.splits)
  with ensuresD [OF keeps_metadata b] show "after I R b (awrap msg (load_metadata E []) b) (\<lambda>meta. \<forall>t \<in> set (cmTopics meta). topic_ok (mtName t))"
    by (auto simp: after_def awrap_def abind_def atry_def aret_def afail_def split: option.splits prod.splits outcome.splits)
qed (use id_names_range in \<open>fastforce intro: keeps_ret\<close>)

lemma after_handleFetch:
  assumes b: "I b" and r: "request_ok topic_ok bytes_ok E b (ReqFetch req)"
  shows "after I R b (handleFetch E h req b) (\<lambda>_. True)"
proof -
  have topics: "ensures I R (abind (amap (fetch_topic_data E ids w) (frqTopics req)) (\<lambda>ts.
      abind (aout (EncodeFetchResponse
        \<lparr>ferCorrelationID = rhCorrelationID h, ferThrottleMs = 0, ferErrorCode = 0, ferSessionID = 0, ferTopics = ts\<rparr> v))
        (\<lambda>bs. aret (Some bs)))) (\<lambda>_. True)" if "\<forall>x \<in> set ids. topic_ok (snd x)" for ids w v
    using r that by (auto simp: request_ok_def intro!: keeps_seq [OF keeps_map] keeps_fetch_topic keeps_seq [OF keeps_out] keeps_done)
  define m where "m = (if list_ex (\<lambda>t. ftTopicID t \<noteq> zero_id) (frqTopics req)
      then abind (awrap ''load metadata'' (load_metadata E [])) (\<lambda>meta. aret (id_names meta)) else aret [])"
  have first: "after I R b (m b) (\<lambda>m. \<forall>x \<in> set m. topic_ok (snd x))"
    using after_load_ids [OF b] r ensures_after [OF keeps_ret b, of "\<lambda>m. \<forall>x \<in> set m. topic_ok (snd x)" "[]"]
    by (auto simp: m_def request_ok_def list_ex_iff)
  from after_bind [where m = m, OF first topics] b show ?thesis
    unfolding handleFetch_def Let_def m_def by auto
qed

lemma keeps_validateCreateTopic: "ensures I R (validateCreateTopic E t) (\<lambda>_. True)"
  unfolding validateCreateTopic_def Let_def by (auto intro!: keeps_fail keeps_seq [OF keeps_metadata] keeps_done)

lemma keeps_create_one: "ensures I R (create_one E v t) (\<lambda>_. True)"
  unfolding create_one_def
  by (auto intro!: keeps_seq keeps_try_True keeps_validateCreateTopic keeps_store keeps_done)

lemma keeps_handleCreateTopics: "ensures I R (handleCreateTopics E h req) (\<lambda>_. True)"
proof (rule ensuresI)
  fix b assume b: "I b"
  show "after I R b (handleCreateTopics E h req b) (\<lambda>_. True)"
    unfolding handleCreateTopics_def Let_def
    using b by (auto intro!: after_seq keeps_map keeps_create_one keeps_reply)
qed

lemma keeps_handleDeleteTopics: "ensures I R (handleDeleteTopics E h req) (\<lambda>_. True)"
proof (rule ensuresI)
  fix b assume b: "I b"
  have one: "ensures I R (delete_one E n) (\<lambda>_. True)" for n
    unfolding delete_one_def by (auto intro!: keeps_seq keeps_try_True keeps_store keeps_done)
  show "after I R b (handleDeleteTopics E h req b) (\<lambda>_. True)"
    unfolding handleDeleteTopics_def Let_def
    using b by (auto intro!: after_seq keeps_map one keeps_reply)
qed

lemma keeps_handleOffsetForLeaderEpoch: "ensures I R (handleOffsetForLeaderEpoch E h req) (\<lambda>_. True)"
proof -
  have one: "ensures I R (epoch_partition E t m p) (\<lambda>_. True)" for t m p
    unfolding epoch_partition_def Let_def
    by (auto intro!: keeps_done keeps_seq keeps_try_True keeps_store split: option.splits)
  show ?thesis
    unfolding handleOffsetForLeaderEpoch_def
    by (auto intro!: keeps_seq keeps_metadata keeps_map one keeps_done keeps_reply)
qed

lemma keeps_handleDescribeConfigs: "ensures I R (handleDescribeConfigs E h req) (\<lambda>_. True)"
proof -
  have one: "ensures I R (describe_resource E r) (\<lambda>_. True)" for r
  proof (rule ensuresI)
    fix b assume b: "I b"
    have "ensures I R (\<lambda>b. aret (f b) b) (\<lambda>_. True)" for f by (simp add: ensures_def)
    then show "after I R b (describe_resource E r b) (\<lambda>_. True)"
      unfolding describe_resource_def Let_def
      using b by (auto intro!: after_seq keeps_try_True keeps_store)
  qed
  show ?thesis
    unfolding handleDescribeConfigs_def by (auto intro!: keeps_seq keeps_map one keeps_reply)
qed

lemma keeps_handleAlterConfigs: "ensures I R (handleAlterConfigs E h req) (\<lambda>_. True)"
proof (rule ensuresI)
  fix b assume b: "I b"
  have one: "ensures I R (alter_resource E v r) (\<lambda>_. True)" for v r
    unfolding alter_resource_def Let_def
    by (auto intro!: keeps_done keeps_seq keeps_try_True keeps_store split: sum.splits prod.splits)
  show "after I R b (handleAlterConfigs E h req b) (\<lambda>_. True)"
    unfolding handleAlterConfigs_def Let_def
    using b by (auto intro!: after_seq keeps_map one keeps_reply)
qed

lemma keeps_partitions_all: "ensures I R (partitions_all E v seen ts) (\<lambda>_. True)"
proof (induction ts arbitrary: seen)
  case (Cons t ts)
  have val: "ensures I R (validateCreatePartitions E n k) (\<lambda>_. True)" for n k
    unfolding validateCreatePartitions_def
    by (rule keeps_seq [OF keeps_metadata]) (auto intro: keeps_fail keeps_done split: list.splits)
  have "ensures I R (partitions_one E v seen t) (\<lambda>_. True)"
    unfolding partitions_one_def Let_def
    by (auto intro!: keeps_done keeps_seq keeps_try_True keeps_store val split: sum.splits)
  with Cons show ?case by (auto intro!: keeps_seq keeps_done)
qed (simp add: keeps_done)

lemma keeps_handleCreatePartitions: "ensures I R (handleCreatePartitions E h req) (\<lambda>_. True)"
proof (rule ensuresI)
  fix b assume b: "I b"
  show "after I R b (handleCreatePartitions E h req b) (\<lambda>_. True)"
    unfolding handleCreatePartitions_def Let_def
    using b by (auto intro!: after_seq keeps_partitions_all keeps_reply)
qed

lemma keeps_handleListOffsets:
  assumes "\<forall>t \<in> set (lorTopics req). topic_ok (lotName t)"
  shows "ensures I R (handleListOffsets E h req) (\<lambda>_. True)"
proof -
  have one: "ensures I R (list_partition E v t p) (\<lambda>_. True)" if "topic_ok t" for v t p
    unfolding list_partition_def list_offset_def
    by (auto intro!: keeps_seq keeps_try_True keeps_done keeps_store keeps_bind [OF keeps_getPartitionLog [OF that]] earliest_step)
  show ?thesis
    unfolding handleListOffsets_def Let_def
    using assms by (auto intro!: keeps_fail keeps_seq keeps_map one keeps_done keeps_reply)
qed

lemma keeps_handle_metadata: "ensures I R (handle_metadata E h req) (\<lambda>_. True)"
proof (rule ensuresI)
  fix b assume b: "I b"
  have create: "ensures I R (auto_create E ns) (\<lambda>_. True)" for ns
    by (induction ns) (auto intro!: keeps_done keeps_seq keeps_wrap keeps_ensureTopic)
  have meta: "ensures I R (request_metadata E req) (\<lambda>_. True)"
    unfolding request_metadata_def Let_def by (auto intro!: keeps_metadata keeps_seq keeps_done)
  show "after I R b (handle_metadata E h req b) (\<lambda>_. True)"
    unfolding handle_metadata_def Let_def
    using b by (auto intro!: after_seq keeps_seq keeps_wrap create meta keeps_done keeps_reply)
qed

lemma keeps_coordinatorBroker: "ensures I R (coordinatorBroker E) (\<lambda>_. True)"
  unfolding coordinatorBroker_def by (rule keeps_seq [OF keeps_try_True [OF keeps_metadata]]) (simp add: ensures_def)

lemma keeps_handle_group_request: "ensures I R (handle_group_request E h r) (\<lambda>_. True)"
proof -
  have avail: "ensures I R (if_available E (abind (on_groups E f) (\<lambda>x. aout (g x))) d) (\<lambda>_. True)"
    for f :: "bool \<Rightarrow> (nat \<Rightarrow> time) \<Rightarrow> int \<Rightarrow> 'm coordinator \<Rightarrow> 'x outcome \<times> 'm coordinator" and g d
    by (rule ensuresI) (auto simp: if_available_def intro!: after_seq keeps_groups keeps_reply)
  show ?thesis
    unfolding handle_group_request_def Let_def by (cases r) (auto intro: avail keeps_fail)
qed

lemma after_Handle:
  assumes b: "I b" and r: "request_ok topic_ok bytes_ok E b r"
  shows "after I R b (Handle E h r b) (\<lambda>_. True)"
proof -
  have full: "ensures I R m (\<lambda>_. True) \<Longrightarrow> after I R b (abind m (\<lambda>bs. aret (Some bs)) b) (\<lambda>_. True)" for m :: "(('m, 's) broker, bytes) act"
    by (rule after_seq [OF b]) (simp_all add: keeps_done)
  have api: "ensures I R (handle_api_versions h) (\<lambda>_. True)"
    by (rule ensuresI) (simp add: handle_api_versions_def Let_def)
  show ?thesis
  proof (cases r)
    case (ReqProduce req)
    with r ensures_after [OF keeps_handleProduce b] show ?thesis by (simp add: Handle_def request_ok_def)
  next
    case (ReqFetch req)
    with after_handleFetch [OF b] r show ?thesis by (simp add: Handle_def)
  next
    case (ReqListOffsets req)
    with r full [OF keeps_handleListOffsets] show ?thesis by (simp add: Handle_def request_ok_def)
  qed (auto simp: Handle_def Let_def intro!: full api keeps_handle_metadata keeps_seq [OF keeps_coordinatorBroker] keeps_reply
      keeps_handleOffsetForLeaderEpoch keeps_handleDescribeConfigs keeps_handleAlterConfigs keeps_handleCreatePartitions
      keeps_handleCreateTopics keeps_handleDeleteTopics keeps_handle_group_request)
qed

end

end
