(* ===== verification/Broker_Correctness.thy ===== *)
theory Broker_Correctness
  imports Broker_Logic
begin

text \<open>
  What the broker guarantees about its partition logs, over any metadata store and any object
  store that keeps the contract, whatever requests arrive: the logs keep their invariant and only
  grow, so records that were acknowledged are still there when they are fetched later.
\<close>

section \<open>The logs of a broker\<close>

text \<open>The log as an operation sees it: with the shared store and cache.\<close>

definition attach :: "('m, 's) broker \<Rightarrow> 's plog \<Rightarrow> 's plog" where
  "attach b l = l\<lparr>plS3 := hS3 b, plCache := Some (hCache b), plEvents := []\<rparr>"

lemma attach_fields [simp]:
  "plS3 (attach b l) = hS3 b" "plCache (attach b l) = Some (hCache b)" "plNextOffset (attach b l) = plNextOffset l"
  "plSegments (attach b l) = plSegments l" "plBuffer (attach b l) = plBuffer l" "conf (attach b l) = conf l"
  "log_named ns tp (attach b l) = log_named ns tp l" "plTopic (attach b l) = plTopic l" "plPartition (attach b l) = plPartition l"
  by (simp_all add: attach_def conf_def log_named_def split: prod.splits)

definition broker_wf :: "('s \<Rightarrow> bool) \<Rightarrow> string \<Rightarrow> ('m, 's) broker \<Rightarrow> bool" where
  "broker_wf ok ns b \<longleftrightarrow> hS3Namespace b = ns \<and> ok (hS3 b) \<and> cache_inv (hCache b) \<and>
     (\<forall>tp l. map_of (hLogs b) tp = Some l \<longrightarrow> log_named ns tp l)"

text \<open>
  \<open>follows segs idx ok tp b b'\<close>: if the log of partition \<open>tp\<close> was in order, it is in order and has only grown;
  each call may have moved its next offset by at most \<open>2\<^sup>3\<^sup>1\<close>.
\<close>

definition follows :: "('s \<Rightarrow> string \<Rightarrow> bytes option) \<Rightarrow> ('s \<Rightarrow> string \<Rightarrow> bytes option) \<Rightarrow> ('s \<Rightarrow> bool) \<Rightarrow> string \<times> int
    \<Rightarrow> ('m, 's) broker \<Rightarrow> ('m, 's) broker \<Rightarrow> bool" where
  "follows segs idx ok tp b b' \<longleftrightarrow>
     hCalls b \<le> hCalls b' \<and>
     (\<forall>l G. map_of (hLogs b) tp = Some l \<longrightarrow> log_ok segs idx ok (attach b l) G \<longrightarrow>
        plNextOffset l + 2 ^ 31 * int (hCalls b' - hCalls b) < 2 ^ 63 \<longrightarrow>
        (\<exists>l' G'. map_of (hLogs b') tp = Some l' \<and> log_ok segs idx ok (attach b' l') G' \<and>
           extends (attach b l) G (attach b' l') G' \<and>
           plNextOffset l' \<le> plNextOffset l + 2 ^ 31 * int (hCalls b' - hCalls b)))"

lemma extends_refl [simp]: "extends l G l G"
  by (simp add: extends_def)

lemma follows_refl: "follows segs idx ok tp b b"
  by (auto simp: follows_def)

lemma follows_trans:
  assumes "follows segs idx ok tp b b1" "follows segs idx ok tp b1 b2"
  shows "follows segs idx ok tp b b2"
  unfolding follows_def
proof (intro conjI allI impI)
  show "hCalls b \<le> hCalls b2" using assms by (auto simp: follows_def)
  fix l G assume l: "map_of (hLogs b) tp = Some l" "log_ok segs idx ok (attach b l) G"
    and room: "plNextOffset l + 2 ^ 31 * int (hCalls b2 - hCalls b) < 2 ^ 63"
  have le: "hCalls b \<le> hCalls b1" "hCalls b1 \<le> hCalls b2" using assms by (auto simp: follows_def)
  then have split: "int (hCalls b2 - hCalls b) = int (hCalls b1 - hCalls b) + int (hCalls b2 - hCalls b1)" by simp
  with room have "plNextOffset l + 2 ^ 31 * int (hCalls b1 - hCalls b) < 2 ^ 63" by simp
  with assms(1) l obtain l1 G1 where l1: "map_of (hLogs b1) tp = Some l1" "log_ok segs idx ok (attach b1 l1) G1"
    "extends (attach b l) G (attach b1 l1) G1" "plNextOffset l1 \<le> plNextOffset l + 2 ^ 31 * int (hCalls b1 - hCalls b)"
    unfolding follows_def by blast
  with room split have "plNextOffset l1 + 2 ^ 31 * int (hCalls b2 - hCalls b1) < 2 ^ 63" by simp
  with assms(2) l1 obtain l2 G2 where l2: "map_of (hLogs b2) tp = Some l2" "log_ok segs idx ok (attach b2 l2) G2"
    "extends (attach b1 l1) G1 (attach b2 l2) G2" "plNextOffset l2 \<le> plNextOffset l1 + 2 ^ 31 * int (hCalls b2 - hCalls b1)"
    unfolding follows_def by blast
  moreover have "extends (attach b l) G (attach b2 l2) G2" using extends_trans [OF l1(3) l2(3)] .
  moreover have "plNextOffset l2 \<le> plNextOffset l + 2 ^ 31 * int (hCalls b2 - hCalls b)" using l1(4) l2(4) split by simp
  ultimately show "\<exists>l' G'. map_of (hLogs b2) tp = Some l' \<and> log_ok segs idx ok (attach b2 l') G' \<and>
      extends (attach b l) G (attach b2 l') G' \<and> plNextOffset l' \<le> plNextOffset l + 2 ^ 31 * int (hCalls b2 - hCalls b)"
    by blast
qed

text \<open>Steps that leave logs, store and cache alone.\<close>

lemma follows_same:
  assumes "hLogs b' = hLogs b" "hS3 b' = hS3 b" "hCache b' = hCache b" "hCalls b \<le> hCalls b'"
  shows "follows segs idx ok tp b b'"
  using assms by (auto simp: follows_def attach_def)

lemma broker_wf_same:
  assumes "broker_wf ok ns b" "hLogs b' = hLogs b" "hS3 b' = hS3 b" "hCache b' = hCache b" "hS3Namespace b' = hS3Namespace b"
  shows "broker_wf ok ns b'"
  using assms by (simp add: broker_wf_def)

lemma broker_wf_named: "broker_wf ok ns b \<Longrightarrow> map_of (hLogs b) tp = Some l \<Longrightarrow> log_named ns tp l"
  unfolding broker_wf_def by blast

section \<open>Operations of a log\<close>

definition same_logs :: "('m, 's) broker \<Rightarrow> ('m, 's) broker \<Rightarrow> bool" where
  "same_logs b b' \<longleftrightarrow> hLogs b' = hLogs b \<and> hS3 b' = hS3 b \<and> hCache b' = hCache b \<and> hS3Namespace b' = hS3Namespace b \<and>
     hFlushOnAck b' = hFlushOnAck b \<and> hCalls b \<le> hCalls b'"

lemma same_logs_callback:
  assumes "log_callback E t p ev b = (r, b')"
  shows "same_logs b b'"
  using assms by (auto simp: log_callback_def same_logs_def next_call_def set_store_def recordS3Op_def
    split: log_event.splits prod.splits)

lemma same_logs_callbacks:
  assumes "map_calls (log_callback E t p) evs b = (r, b')"
  shows "same_logs b b'"
  using assms
proof (induction evs arbitrary: b r b')
  case (Cons ev evs)
  obtain q b1 where q: "log_callback E t p ev b = (q, b1)" by fastforce
  note s = same_logs_callback [OF q]
  show ?case
  proof (cases q)
    case (Ok y)
    obtain q2 b2 where q2: "map_calls (log_callback E t p) evs b1 = (q2, b2)" by fastforce
    with Cons(2) q Ok have "b' = b2" by (auto split: outcome.splits)
    with Cons(1) [OF q2] s show ?thesis by (auto simp: same_logs_def)
  qed (use Cons(2) q s in auto)
qed (simp add: same_logs_def)

lemma callbacks_no_err:
  "fst (map_calls (log_callback E t p) evs b) \<noteq> Err e"
proof (induction evs arbitrary: b)
  case (Cons ev evs)
  obtain q b1 where q: "log_callback E t p ev b = (q, b1)" by fastforce
  have "q \<noteq> Err e'" for e'
    using q by (auto simp: log_callback_def with_persist_def split: log_event.splits prod.splits outcome.splits)
  with q Cons [of b1] show ?case by (cases q) (auto split: prod.splits outcome.splits)
qed simp

lemma run_log_cases:
  assumes "run_log E f l b = (r, l', b')"
  obtains q l1 where "f (svClock E (hCalls b)) (attach b l) = (q, l1)" "l' = l1\<lparr>plEvents := []\<rparr>" "r = q \<or> r = Panic"
    "same_logs (next_call (b\<lparr>hS3 := plS3 l1, hCache := (case plCache l1 of None \<Rightarrow> hCache b | Some c \<Rightarrow> c)\<rparr>)) b'"
proof -
  obtain q l1 where f: "f (svClock E (hCalls b)) (attach b l) = (q, l1)" by fastforce
  let ?b1 = "next_call (b\<lparr>hS3 := plS3 l1, hCache := (case plCache l1 of None \<Rightarrow> hCache b | Some c \<Rightarrow> c)\<rparr>)"
  obtain z b2 where z: "map_calls (log_callback E (plTopic l) (plPartition l)) (plEvents l1) ?b1 = (z, b2)" by fastforce
  from assms f z have "b' = b2" "l' = l1\<lparr>plEvents := []\<rparr>" "r = q \<or> r = Panic"
    by (auto simp: run_log_def attach_def Let_def split: outcome.splits)
  with f same_logs_callbacks [OF z] that show thesis by blast
qed

section \<open>The environment of a broker\<close>

text \<open>A record set whose header gives a last-offset delta that is not negative.\<close>

definition good_records :: "bytes \<Rightarrow> bool" where
  "good_records d \<longleftrightarrow> 0 \<le> i32 (u32_at d 23)"

text \<open>
  The object store keeps its contract, and what other connections do while this one waits keeps
  the state in order and the log of the partition growing.
\<close>

locale broker_env = s3_contract "svS3 E" segs idx ok
  for E :: "('m, 's) services" and segs idx ok +
  fixes ns :: string and tp :: "string \<times> int"
  assumes namespace: "ns \<noteq> []"
    and rely: "broker_wf ok ns b \<Longrightarrow> broker_wf ok ns ((svOthers E (hCalls b) b)\<lparr>hCalls := Suc (hCalls b)\<rparr>) \<and>
          follows segs idx ok tp b ((svOthers E (hCalls b) b)\<lparr>hCalls := Suc (hCalls b)\<rparr>)"
begin

text \<open>An operation on one log, seen from the state and from the logs of other partitions.\<close>

lemma run_log_step:
  assumes b: "broker_wf ok ns b" and l: "log_named ns key l"
    and f: "\<forall>clk l. framed segs idx ok l (snd (f clk l))"
    and run: "run_log E f l b = (r, l', b')"
  shows "broker_wf ok ns b'" and "hLogs b' = hLogs b" and "hCalls b < hCalls b'" and "hFlushOnAck b' = hFlushOnAck b"
    and "attach b' l' = l'" and "conf l' = conf l" and "log_named ns key l'"
    and "\<exists>q l1. f (svClock E (hCalls b)) (attach b l) = (q, l1) \<and> l' = l1\<lparr>plEvents := []\<rparr> \<and> (r = q \<or> r = Panic)"
    and "\<And>key2 l2 G. key2 \<noteq> key \<Longrightarrow> log_named ns key2 l2 \<Longrightarrow> log_ok segs idx ok (attach b l2) G \<Longrightarrow>
           log_ok segs idx ok (attach b' l2) G \<and> extends (attach b l2) G (attach b' l2) G"
proof -
  from run obtain q l1 where q: "f (svClock E (hCalls b)) (attach b l) = (q, l1)" "l' = l1\<lparr>plEvents := []\<rparr>" "r = q \<or> r = Panic"
    "same_logs (next_call (b\<lparr>hS3 := plS3 l1, hCache := (case plCache l1 of None \<Rightarrow> hCache b | Some c \<Rightarrow> c)\<rparr>)) b'"
    by (rule run_log_cases)
  have st: "ok (hS3 b)" "cache_inv (hCache b)" using b by (simp_all add: broker_wf_def)
  have fr: "framed segs idx ok (attach b l) l1" using f q(1) by (metis snd_conv)
  with st have c: "conf l1 = conf l" "ok (plS3 l1)" by (simp_all add: framed_def)
  from fr st obtain ca where ca: "plCache l1 = Some ca" "cache_inv ca"
    "\<And>k d. k \<notin> own_keys (attach b l) \<Longrightarrow> cache_view ca k = Some d \<Longrightarrow> cache_view (hCache b) k = Some d"
    unfolding framed_def by (metis attach_fields(1,2))
  from q(4) ca(1) have b': "hLogs b' = hLogs b" "hS3 b' = plS3 l1" "hCache b' = ca" "hS3Namespace b' = hS3Namespace b"
    "hFlushOnAck b' = hFlushOnAck b" "hCalls b < hCalls b'"
    by (auto simp: same_logs_def next_call_def)
  with b c(2) ca(2) show "broker_wf ok ns b'" "hLogs b' = hLogs b" "hCalls b < hCalls b'" "hFlushOnAck b' = hFlushOnAck b"
    by (simp_all add: broker_wf_def)
  show "attach b' l' = l'" using b' ca(1) q(2) by (simp add: attach_def)
  show conf: "conf l' = conf l" using c(1) q(2) by (simp add: conf_def)
  with l show "log_named ns key l'" by (auto simp: conf_def log_named_def split: prod.splits)
  show "\<exists>q l1. f (svClock E (hCalls b)) (attach b l) = (q, l1) \<and> l' = l1\<lparr>plEvents := []\<rparr> \<and> (r = q \<or> r = Panic)"
    using q(1-3) by blast
  fix key2 l2 G assume k2: "key2 \<noteq> key" "log_named ns key2 l2" "log_ok segs idx ok (attach b l2) G"
  note other = other_keys [OF namespace, of key2 "attach b l2" key "attach b l", unfolded attach_fields, OF k2(2) l k2(1)]
  have "env_ok segs idx ok (attach b l2) (plS3 l1) (Some ca)"
    unfolding env_ok_def
  proof (intro conjI allI)
    fix x
    show "segs (plS3 l1) (segmentKey (attach b l2) x) = segs (plS3 (attach b l2)) (segmentKey (attach b l2) x)"
      using fr st(1) other(1) by (simp add: framed_def)
    show "idx (plS3 l1) (indexKey (attach b l2) x) = idx (plS3 (attach b l2)) (indexKey (attach b l2) x)"
      using fr st(1) other(2) by (simp add: framed_def)
  qed (use c ca other(3) in \<open>auto simp: disjoint_iff\<close>)
  note env = log_ok_env [OF k2(3) this]
  have "(attach b l2)\<lparr>plS3 := plS3 l1, plCache := Some ca\<rparr> = attach b' l2" using b' by (simp add: attach_def)
  with env show "log_ok segs idx ok (attach b' l2) G \<and> extends (attach b l2) G (attach b' l2) G"
    by (simp add: extends_def low_cong [of "attach b' l2" "attach b l2"])
qed

lemma on_log_step:
  assumes b: "broker_wf ok ns b" and l: "log_named ns (plTopic l, plPartition l) l"
    and f: "\<forall>clk l. framed segs idx ok l (snd (f clk l))"
    and own: "\<And>clk l r l' G. log_ok segs idx ok l G \<Longrightarrow> plNextOffset l + 2 ^ 31 < 2 ^ 63 \<Longrightarrow> f clk l = (r, l') \<Longrightarrow>
       \<exists>G'. log_ok segs idx ok l' G' \<and> extends l G l' G' \<and> plNextOffset l' \<le> plNextOffset l + 2 ^ 31"
    and run: "on_log E l f b = Some (r, b')"
  shows "broker_wf ok ns b' \<and> follows segs idx ok tp b b'"
proof -
  let ?key = "(plTopic l, plPartition l)"
  define l0 where "l0 = (case map_of (hLogs b) ?key of None \<Rightarrow> l | Some x \<Rightarrow> x)"
  have l0: "log_named ns ?key l0" using b l by (auto simp: l0_def broker_wf_def split: option.splits)
  obtain q l' b1 where rl: "run_log E f l0 b = (q, l', b1)" by (metis prod_cases3)
  note s = run_log_step [OF b l0 f rl]
  from run rl have b': "b' = b1\<lparr>hLogs := AList.update ?key l' (hLogs b1)\<rparr>" by (simp add: on_log_def Let_def l0_def)
  have logs: "map_of (hLogs b') = (map_of (hLogs b))(?key \<mapsto> l')" using b' s(2) by (simp add: update_conv')
  have at: "attach b' x = attach b1 x" for x by (simp add: b' attach_def)
  have wf: "broker_wf ok ns b'" using s(1,2,7) logs b' by (auto simp: broker_wf_def)
  moreover have "follows segs idx ok tp b b'"
    unfolding follows_def
  proof (intro conjI allI impI)
    show calls: "hCalls b \<le> hCalls b'" using s(3) b' by simp
    fix x G assume x: "map_of (hLogs b) tp = Some x" "log_ok segs idx ok (attach b x) G"
      and room: "plNextOffset x + 2 ^ 31 * int (hCalls b' - hCalls b) < 2 ^ 63"
    have one: "1 \<le> int (hCalls b' - hCalls b)" using s(3) b' by simp
    show "\<exists>l' G'. map_of (hLogs b') tp = Some l' \<and> log_ok segs idx ok (attach b' l') G' \<and>
        extends (attach b x) G (attach b' l') G' \<and> plNextOffset l' \<le> plNextOffset x + 2 ^ 31 * int (hCalls b' - hCalls b)"
    proof (cases "tp = ?key")
      case True
      with x(1) have l0x: "l0 = x" by (simp add: l0_def)
      from s(8) obtain q1 l1 where q1: "f (svClock E (hCalls b)) (attach b x) = (q1, l1)" "l' = l1\<lparr>plEvents := []\<rparr>"
        unfolding l0x by blast
      from one room have "plNextOffset (attach b x) + 2 ^ 31 < 2 ^ 63" by simp
      from own [OF x(2) this q1(1)] obtain G' where G': "log_ok segs idx ok l1 G'" "extends (attach b x) G l1 G'"
        "plNextOffset l1 \<le> plNextOffset x + 2 ^ 31" by auto
      have "log_ok segs idx ok l' G'" by (rule log_ok_core_cache [OF G'(1)]) (simp_all add: q1 core_def)
      moreover have "extends (attach b x) G l' G'"
        using G'(2) low_cong [of l' l1] by (simp add: extends_def q1(2) conf_def)
      ultimately show ?thesis
        using True logs G'(3) one s(5) at q1(2) by (intro exI [of _ l'] exI [of _ G']) auto
    next
      case False
      have "log_named ns tp x" using b x(1) by (rule broker_wf_named)
      from s(9) [OF False this x(2)] False x(1) logs one show ?thesis
        by (intro exI [of _ x] exI [of _ G]) (auto simp: at)
    qed
  qed
  ultimately show ?thesis by simp
qed

lemma step_ensures:
  assumes "\<And>b r b'. broker_wf ok ns b \<Longrightarrow> m b = Some (r, b') \<Longrightarrow> broker_wf ok ns b' \<and> follows segs idx ok tp b b'"
  shows "ensures (broker_wf ok ns) (follows segs idx ok tp) m (\<lambda>_. True)"
  using assms by (auto simp: ensures_def after_def)

lemma on_log_ensures:
  assumes "log_named ns (plTopic l, plPartition l) l" "\<And>clk l. framed segs idx ok l (snd (f clk l))"
    and "\<And>clk l r l' G. log_ok segs idx ok l G \<Longrightarrow> plNextOffset l + 2 ^ 31 < 2 ^ 63 \<Longrightarrow> f clk l = (r, l') \<Longrightarrow>
       \<exists>G'. log_ok segs idx ok l' G' \<and> extends l G l' G' \<and> plNextOffset l' \<le> plNextOffset l + 2 ^ 31"
  shows "ensures (broker_wf ok ns) (follows segs idx ok tp) (on_log E l f) (\<lambda>_. True)"
proof (rule step_ensures)
  fix b r b' assume "broker_wf ok ns b" "on_log E l f b = Some (r, b')"
  then show "broker_wf ok ns b' \<and> follows segs idx ok tp b b'"
    using on_log_step [where f = f, OF _ assms(1)] assms(2,3) by blast
qed

lemma framed_snd:
  "framed segs idx ok l (snd (AppendBatch (svS3 E) clk batch l))" "framed segs idx ok l (snd (Flush (svS3 E) clk l))"
  "framed segs idx ok l (snd (Read (svS3 E) clk off mx l))" "framed segs idx ok l (snd (RestoreFromS3 (svS3 E) clk l))"
  using framed_AppendBatch framed_Flush framed_Read framed_RestoreFromS3 by (metis prod.collapse)+

lemma append_own:
  assumes l: "log_ok segs idx ok l G" "plNextOffset l + 2 ^ 31 < 2 ^ 63"
    and batch: "NewRecordBatchFromBytes d = Ok batch" "0 \<le> rbLastOffsetDelta batch"
    and f: "AppendBatch (svS3 E) clk batch l = (r, l')"
  shows "\<exists>G'. log_ok segs idx ok l' G' \<and> extends l G l' G' \<and> plNextOffset l' \<le> plNextOffset l + 2 ^ 31"
proof -
  have d: "rbLastOffsetDelta batch < 2 ^ 31" "8 \<le> length (rbBytes batch)"
    using batch(1) in_i32_i32 [of "u32_at d 23"]
    by (auto simp: NewRecordBatchFromBytes_def recordBatchHeaderMinSize_def in_i32_def split: if_splits)
  then have "batch_ok batch l" using l(2) batch(2) by (simp add: batch_ok_def)
  then have "log_step (svS3 E) segs idx ok l (Some r) l'" using f by (rule step_append)
  from log_step_inv [OF l(1) this] AppendBatch_inv [OF l(1) \<open>batch_ok batch l\<close> f] d(1) show ?thesis by fastforce
qed

lemma step_own:
  assumes l: "log_ok segs idx ok l G" and s: "log_step (svS3 E) segs idx ok l None l'" "plNextOffset l' = plNextOffset l"
  shows "\<exists>G'. log_ok segs idx ok l' G' \<and> extends l G l' G' \<and> plNextOffset l' \<le> plNextOffset l + 2 ^ 31"
  using log_step_inv [OF l s(1)] s(2) by auto

lemma flush_own:
  assumes "log_ok segs idx ok l G" "Flush (svS3 E) clk l = (r, l')"
  shows "\<exists>G'. log_ok segs idx ok l' G' \<and> extends l G l' G' \<and> plNextOffset l' \<le> plNextOffset l + 2 ^ 31"
  using step_own [OF assms(1) step_flush [OF assms(2)]] Flush_inv [OF assms] by auto

lemma read_own:
  assumes "log_ok segs idx ok l G" "Read (svS3 E) clk off mx l = (r, l')"
  shows "\<exists>G'. log_ok segs idx ok l' G' \<and> extends l G l' G' \<and> plNextOffset l' \<le> plNextOffset l + 2 ^ 31"
  using step_own [OF assms(1) step_read [OF assms(2)]] Read_inv [OF assms] by (auto simp: only_cache_def)

lemma open_log_step:
  assumes b: "broker_wf ok ns b" and t: "plain_elem t" and new: "map_of (hLogs b) (t, p) = None"
  shows "after (broker_wf ok ns) (follows segs idx ok tp) b (open_log E t p n b)
     (\<lambda>l. log_named ns (plTopic l, plPartition l) l)"
proof -
  let ?b1 = "next_call b"
  let ?l0 = "NewPartitionLog (hS3Namespace b) t p n (hS3 b) (Some (hCache b)) (hLogConfig b) True True (svClock E (hCalls b) 0)"
  have b1: "broker_wf ok ns ?b1" "hLogs ?b1 = hLogs b" "follows segs idx ok tp b ?b1"
    by (auto simp: next_call_def intro!: broker_wf_same [OF b] follows_same)
  have l0: "log_named ns (t, p) ?l0"
    using b t namespace by (simp add: broker_wf_def log_named_def NewPartitionLog_def)
  have fr: "\<forall>clk l. framed segs idx ok l (snd (RestoreFromS3 (svS3 E) clk l))" using framed_snd(4) by blast
  obtain q l b2 where run: "run_log E (RestoreFromS3 (svS3 E)) ?l0 ?b1 = (q, l, b2)" by (metis prod_cases3)
  note s = run_log_step [OF b1(1) l0 fr run]
  have key: "log_named ns (plTopic l, plPartition l) l" "plTopic l = t" "plPartition l = p"
    using s(7) by (auto simp: log_named_def)
  have keep: "broker_wf ok ns b3 \<and> follows segs idx ok tp b b3"
    if b3: "hS3 b3 = hS3 b2" "hCache b3 = hCache b2" "hS3Namespace b3 = hS3Namespace b2" "hCalls b2 \<le> hCalls b3"
      "hLogs b3 = hLogs b \<or> hLogs b3 = AList.update (t, p) l (hLogs b)" for b3
  proof
    have at: "attach b3 x = attach b2 x" for x using b3 by (simp add: attach_def)
    show "broker_wf ok ns b3"
      using s(1,7) b b3 unfolding broker_wf_def by (auto simp: update_conv' split: if_splits)
    show "follows segs idx ok tp b b3"
      unfolding follows_def
    proof (intro conjI allI impI)
      show "hCalls b \<le> hCalls b3" using s(3) b3(4) by (simp add: next_call_def)
      fix x G assume x: "map_of (hLogs b) tp = Some x" "log_ok segs idx ok (attach b x) G"
      from new x(1) have tp: "tp \<noteq> (t, p)" by auto
      have "attach ?b1 x = attach b x" by (simp add: attach_def next_call_def)
      with s(9) [OF tp broker_wf_named [OF b x(1)]] x(2) at have
        "log_ok segs idx ok (attach b3 x) G" "extends (attach b x) G (attach b3 x) G" by simp_all
      moreover have "map_of (hLogs b3) tp = Some x" using x(1) b3(5) tp by (auto simp: update_conv')
      ultimately show "\<exists>l' G'. map_of (hLogs b3) tp = Some l' \<and> log_ok segs idx ok (attach b3 l') G' \<and>
          extends (attach b x) G (attach b3 l') G' \<and> plNextOffset l' \<le> plNextOffset x + 2 ^ 31 * int (hCalls b3 - hCalls b)"
        by auto
    qed
  qed
  have logs2: "hLogs b2 = hLogs b" using s(2) b1(2) by simp
  show ?thesis
  proof (cases q)
    case (Ok lastOffset)
    let ?m = "if lastOffset \<ge> n then atry (on_store E (\<lambda>ctx now. opUpdateOffsets (svStore E) ctx t p lastOffset)) else aret (Inr ())"
    have "?m b2 \<noteq> None" by (auto simp: atry_def on_store_def aret_def split: prod.splits outcome.splits)
    then obtain r3 b3 where m: "?m b2 = Some (r3, b3)" by fastforce
    then have b3: "hS3 b3 = hS3 b2" "hCache b3 = hCache b2" "hS3Namespace b3 = hS3Namespace b2" "hCalls b2 \<le> hCalls b3" "hLogs b3 = hLogs b2"
      by (auto simp: atry_def on_store_def aret_def next_call_def set_store_def split: if_splits prod.splits outcome.splits)
    have "open_log E t p n b = (case r3 of
        Ok _ \<Rightarrow> Some (Ok l, b3\<lparr>hLogs := AList.update (t, p) l (hLogs b3)\<rparr>) | Err e \<Rightarrow> Some (Err e, b3) | Panic \<Rightarrow> Some (Panic, b3))"
      using run Ok m by (simp add: open_log_def Let_def abind_def)
    moreover have "broker_wf ok ns b3 \<and> follows segs idx ok tp b b3" using keep [of b3] b3 logs2 by simp
    moreover have "broker_wf ok ns (b3\<lparr>hLogs := AList.update (t, p) l (hLogs b3)\<rparr>) \<and>
        follows segs idx ok tp b (b3\<lparr>hLogs := AList.update (t, p) l (hLogs b3)\<rparr>)"
      using keep [of "b3\<lparr>hLogs := AList.update (t, p) l (hLogs b3)\<rparr>"] b3 logs2 by simp
    ultimately show ?thesis using key(1) by (cases r3) (auto simp: after_def)
  qed (use run keep [of b2] logs2 in \<open>auto simp: open_log_def Let_def after_def\<close>)
qed

end

sublocale broker_env \<subseteq> handler_steps "broker_wf ok ns" "follows segs idx ok tp" E
  "\<lambda>l. log_named ns (plTopic l, plPartition l) l" plain_elem good_records
proof (unfold_locales, goal_cases)
  case (1 b)
  show ?case by (rule follows_refl)
next
  case (2 a b c)
  then show ?case by (rule follows_trans)
next
  case (3 b c)
  then show ?case by (auto simp: next_call_def intro!: broker_wf_same [OF 3] follows_same)
next
  case (4 b m)
  then show ?case by (auto simp: next_call_def intro!: broker_wf_same [OF 4] follows_same)
next
  case (6 b tp' l)
  from broker_wf_named [OF this] show ?case by (auto simp: log_named_def split: prod.splits)
next
  case (8 l d batch)
  then have "0 \<le> rbLastOffsetDelta batch" by (auto simp: good_records_def NewRecordBatchFromBytes_def split: if_splits)
  then show ?case using append_own [OF _ _ 8(3)] by (intro on_log_ensures [OF 8(1)] framed_snd)
next
  case (9 l)
  show ?case by (rule on_log_ensures [OF 9 framed_snd(2) flush_own])
next
  case (10 l off mx)
  show ?case by (rule on_log_ensures [OF 10 framed_snd(3) read_own])
next
  case (11 l)
  show ?case by (rule on_log_ensures [OF 11]) auto
qed (use rely open_log_step in auto)

section \<open>Produce\<close>

lemma on_log_returns: "\<exists>r b'. on_log E l f b = Some (r, b')"
  by (cases "run_log E f (case map_of (hLogs b) (plTopic l, plPartition l) of None \<Rightarrow> l | Some x \<Rightarrow> x) b")
    (auto simp: on_log_def Let_def)

lemma atry_Some: "m b = Some (r, b') \<Longrightarrow> atry m b =
    Some (case r of Ok x \<Rightarrow> Ok (Inr x) | Err e \<Rightarrow> Ok (Inl e) | Panic \<Rightarrow> Panic, b')"
  by (simp add: atry_def split: outcome.splits)

context broker_env
begin

lemma on_log_own:
  assumes b: "broker_wf ok ns b" and l: "map_of (hLogs b) key = Some l" and pl: "(plTopic pl, plPartition pl) = key"
    and f: "\<And>clk l. framed segs idx ok l (snd (f clk l))" and run: "on_log E pl f b = Some (r, b')"
  obtains q l1 clk where "f clk (attach b l) = (q, l1)" "r = q \<or> r = Panic" "map_of (hLogs b') key = Some (l1\<lparr>plEvents := []\<rparr>)"
    "attach b' (l1\<lparr>plEvents := []\<rparr>) = l1\<lparr>plEvents := []\<rparr>" "hFlushOnAck b' = hFlushOnAck b"
proof -
  obtain q l' b1 where rl: "run_log E f l b = (q, l', b1)" by (metis prod_cases3)
  have "\<forall>clk l. framed segs idx ok l (snd (f clk l))" using f by blast
  note s = run_log_step [OF b broker_wf_named [OF b l] this rl]
  from run rl l pl have b': "b' = b1\<lparr>hLogs := AList.update key l' (hLogs b1)\<rparr>" "r = q" by (simp_all add: on_log_def Let_def)
  from s(8) obtain q1 l1 where q1: "f (svClock E (hCalls b)) (attach b l) = (q1, l1)" "l' = l1\<lparr>plEvents := []\<rparr>" "q = q1 \<or> q = Panic"
    by blast
  have "attach b' l' = l'" using s(5) by (simp add: b' attach_def)
  with that [OF q1(1)] q1 b' s(4) show thesis by (simp add: update_conv')
qed

lemma log_ok_events: "log_ok segs idx ok l G \<Longrightarrow> log_ok segs idx ok (l\<lparr>plEvents := []\<rparr>) G"
  by (erule log_ok_core_cache) (simp_all add: core_def)

lemma backpressure_code:
  assumes "produce_backpressure E p b = Some (Ok resp, b')"
  shows "pprErrorCode resp \<noteq> 0"
  using assms by (auto simp: produce_backpressure_def backpressureErrorCode_def health_state_def abind_def aret_def produce_error_def
    handler_codes split: prod.splits s3_state.splits)

text \<open>An acknowledged produce request has put its batch into a recorded segment.\<close>

lemma append_acked:
  assumes b: "broker_wf ok ns b" and l: "map_of (hLogs b) tp = Some l" "log_ok segs idx ok (attach b l) G"
    and pl: "(plTopic pl, plPartition pl) = tp" and plok: "log_named ns (plTopic pl, plPartition pl) pl"
    and room: "plNextOffset l + 2 ^ 31 < 2 ^ 63"
    and batch: "NewRecordBatchFromBytes d = Ok batch" "0 \<le> rbLastOffsetDelta batch"
    and acks: "acks \<noteq> 0" "hFlushOnAck b"
    and run: "produce_append E acks now part batch pl b = Some (Ok resp, b')" "pprErrorCode resp = 0"
  shows "\<exists>l' G'. map_of (hLogs b') tp = Some l' \<and> log_ok segs idx ok (attach b' l') G' \<and> broker_wf ok ns b' \<and>
     pprBaseOffset resp = plNextOffset l \<and>
     concat G' = concat G @ wbBatches (plBuffer l) @ [patched batch (plNextOffset l)] \<and>
     plNextOffset l' = plNextOffset l + rbLastOffsetDelta batch + 1"
proof -
  let ?ap = "\<lambda>clk. AppendBatch (svS3 E) clk batch"
  have d: "rbLastOffsetDelta batch < 2 ^ 31" "8 \<le> length (rbBytes batch)"
    using batch(1) in_i32_i32 [of "u32_at d 23"]
    by (auto simp: NewRecordBatchFromBytes_def recordBatchHeaderMinSize_def in_i32_def split: if_splits)
  have bok: "batch_ok batch (attach b l)" using d batch(2) room by (simp add: batch_ok_def)
  obtain r1 b1 where r1: "on_log E pl ?ap b = Some (r1, b1)" using on_log_returns by blast
  from on_log_own [OF b l(1) pl framed_snd(1) r1] obtain q l1 clk where q: "AppendBatch (svS3 E) clk batch (attach b l) = (q, l1)"
    "r1 = q \<or> r1 = Panic" "map_of (hLogs b1) tp = Some (l1\<lparr>plEvents := []\<rparr>)"
    "attach b1 (l1\<lparr>plEvents := []\<rparr>) = l1\<lparr>plEvents := []\<rparr>" "hFlushOnAck b1 = hFlushOnAck b" .
  from AppendBatch_inv [OF l(2) bok q(1)] obtain G1 where G1: "log_ok segs idx ok l1 G1" "append_post batch (attach b l) q l1 G G1"
    "plNextOffset l1 = plNextOffset l + rbLastOffsetDelta batch + 1" by auto
  have "\<exists>res. r1 = Ok res"
    using run r1 backpressure_code by (cases r1) (auto simp: produce_append_def abind_def atry_def)
  then obtain res where res: "r1 = Ok res" "q = Ok res" using q(2) by auto
  with G1(2) have ap: "arBaseOffset res = plNextOffset l"
    "concat G1 @ wbBatches (plBuffer l1) = concat G @ wbBatches (plBuffer l) @ [patched batch (plNextOffset l)]" by auto
  obtain r2 b2 where r2: "on_log E pl (Flush (svS3 E)) b1 = Some (r2, b2)" using on_log_returns by blast
  have "good_records d" using batch by (auto simp: good_records_def NewRecordBatchFromBytes_def split: if_splits)
  then have wf1: "broker_wf ok ns b1" by (rule ensuresD(1) [OF append_step [OF plok _ batch(1)] b r1])
  from on_log_own [OF wf1 q(3) pl framed_snd(2) r2] obtain q2 l2 clk2 where
    q2: "Flush (svS3 E) clk2 (attach b1 (l1\<lparr>plEvents := []\<rparr>)) = (q2, l2)" "r2 = q2 \<or> r2 = Panic"
    "map_of (hLogs b2) tp = Some (l2\<lparr>plEvents := []\<rparr>)" "attach b2 (l2\<lparr>plEvents := []\<rparr>) = l2\<lparr>plEvents := []\<rparr>"
    by metis
  from Flush_inv [OF log_ok_events [OF G1(1)] q2(1) [unfolded q(4)]] obtain G2 where G2: "log_ok segs idx ok l2 G2"
    "plNextOffset l2 = plNextOffset l1" "q2 = Ok () \<Longrightarrow> concat G2 = concat G1 @ wbBatches (plBuffer l1)" by auto
  have flush: "r2 = Ok () \<and> b' = b2 \<and> pprBaseOffset resp = arBaseOffset res"
    using run r1 res(1) r2 acks q(5) backpressure_code
    by (cases r2) (auto simp: produce_append_def abind_def atry_def aret_def)
  have wf2: "broker_wf ok ns b2" by (rule ensuresD(1) [OF flush_step [OF plok] wf1 r2])
  have "concat G2 = concat G @ wbBatches (plBuffer l) @ [patched batch (plNextOffset l)]" using ap(2) G2(3) flush q2(2) by auto
  with flush ap(1) G2 G1(3) q2 wf2 log_ok_events [OF G2(1)] show ?thesis
    by (intro exI [of _ "l2\<lparr>plEvents := []\<rparr>"] exI [of _ G2]) simp
qed

lemma produce_acked:
  assumes b: "broker_wf ok ns b" and l: "map_of (hLogs b) tp = Some l" "log_ok segs idx ok (attach b l) G"
    and tp: "tp = (t, ppPartition p)" and room: "plNextOffset l + 2 ^ 31 < 2 ^ 63"
    and batch: "NewRecordBatchFromBytes (or_nil (ppRecords p)) = Ok batch" "0 \<le> rbLastOffsetDelta batch"
    and acks: "acks \<noteq> 0" "hFlushOnAck b"
    and run: "produce_one E acks now t p b = Some (Ok resp, b')" "pprErrorCode resp = 0"
  shows "\<exists>l' G'. map_of (hLogs b') tp = Some l' \<and> log_ok segs idx ok (attach b' l') G' \<and> broker_wf ok ns b' \<and>
     pprBaseOffset resp = plNextOffset l \<and>
     concat G' = concat G @ wbBatches (plBuffer l) @ [patched batch (plNextOffset l)] \<and>
     plNextOffset l' = plNextOffset l + rbLastOffsetDelta batch + 1"
proof -
  obtain st m where hs: "State (svClock E (hCalls b) 0) (hHealth b) = (st, m)" by fastforce
  let ?b1 = "next_call (b\<lparr>hHealth := m\<rparr>)"
  have b1: "broker_wf ok ns ?b1" using health_step [OF b] by blast
  have l1: "map_of (hLogs ?b1) tp = Some l" "log_ok segs idx ok (attach ?b1 l) G" "hFlushOnAck ?b1"
    using l acks by (simp_all add: next_call_def attach_def)
  have named: "log_named ns tp l" by (rule broker_wf_named [OF b l(1)])
  then have pl: "(plTopic l, plPartition l) = tp" "log_named ns (plTopic l, plPartition l) l" by (auto simp: log_named_def tp)
  have get: "getPartitionLog E t (ppPartition p) ?b1 = Some (Ok l, ?b1)"
    using l1(1) by (subst getPartitionLog.simps) (simp add: tp)
  have "produce_append E acks now (ppPartition p) batch l ?b1 = Some (Ok resp, b')"
    using run batch(1) hs get backpressure_code
    by (auto simp: produce_one_def Let_def abind_def atry_def health_state_def aret_def produce_error_def handler_codes
      split: if_splits)
  from append_acked [OF b1 l1(1,2) pl room batch acks(1) l1(3) this run(2)] show ?thesis by blast
qed

lemma fetch_served:
  assumes b: "broker_wf ok ns b" and l: "map_of (hLogs b) tp = Some l" "log_ok segs idx ok (attach b l) G"
    and tp: "tp = (t, fpPartition p)" and room: "plNextOffset l + 2 ^ 31 * int (hCalls b' - hCalls b) < 2 ^ 63"
    and run: "fetch_partition_data E t w p b = Some (Ok resp, b')" "fprRecordSet resp = Some d"
    and i: "i < length G" "x \<in> set (G ! i)"
    and off: "rbBaseOffset x \<le> fpFetchOffset p" "fpFetchOffset p \<le> rbBaseOffset x + rbLastOffsetDelta x"
    and size: "srSize (plSegments l ! i) < 2 ^ 31" and m: "in_i32 (fpMaxBytes p)"
  shows "read_spec (G ! i) (fpFetchOffset p) (fpMaxBytes p) d"
proof -
  obtain st hm where hs: "State (svClock E (hCalls b) 0) (hHealth b) = (st, hm)" by fastforce
  let ?b1 = "next_call (b\<lparr>hHealth := hm\<rparr>)"
  have b1: "broker_wf ok ns ?b1" "follows segs idx ok tp b ?b1" using health_step [OF b] by blast+
  have l1: "map_of (hLogs ?b1) tp = Some l" using l by (simp add: next_call_def)
  have get: "getPartitionLog E t (fpPartition p) ?b1 = Some (Ok l, ?b1)"
    using l1 by (subst getPartitionLog.simps) (simp add: tp)
  have named: "log_named ns tp l" by (rule broker_wf_named [OF b l(1)])
  then have pl: "(plTopic l, plPartition l) = tp" "log_named ns (plTopic l, plPartition l) l" by (auto simp: log_named_def tp)
  have "\<exists>n b2. waitForFetchData E t (fpPartition p) (fpFetchOffset p) w ?b1 = Some (Ok n, b2) \<and>
      (\<exists>k. fetch_read E l p k b2 = Some (Ok resp, b'))"
    using run hs get
    by (auto simp: fetch_partition_data_def abind_def atry_def health_state_def aret_def fetch_error_def fetch_result_def
      backpressureErrorCode_def Let_def split: if_splits option.splits outcome.splits prod.splits)
  then obtain n b2 k where w: "waitForFetchData E t (fpPartition p) (fpFetchOffset p) w ?b1 = Some (Ok n, b2)"
    and fr: "fetch_read E l p k b2 = Some (Ok resp, b')" by blast
  note b2 = ensuresD [OF keeps_waitForFetchData b1(1) w]
  have f2: "follows segs idx ok tp b b2" using follows_trans [OF b1(2) b2(2)] .
  have "follows segs idx ok tp b2 b'" by (rule ensuresD(2) [OF keeps_fetch_read [OF pl(2)] b2(1) fr])
  then have "hCalls b2 \<le> hCalls b'" by (simp add: follows_def)
  with room have "plNextOffset l + 2 ^ 31 * int (hCalls b2 - hCalls b) < 2 ^ 63" by (simp add: diff_le_mono)
  with f2 l obtain l2 G2 where l2: "map_of (hLogs b2) tp = Some l2" "log_ok segs idx ok (attach b2 l2) G2"
    "extends (attach b l) G (attach b2 l2) G2" unfolding follows_def by blast
  have nth: "G2 ! i = G ! i" "i < length G2" "plSegments l2 ! i = plSegments l ! i"
  proof -
    have "i < length (plSegments l)" using log_ok_nth(1) [OF l(2) i(1)] by simp
    with l2(3) i(1) show "G2 ! i = G ! i" "i < length G2" "plSegments l2 ! i = plSegments l ! i"
      using prefix_nth [of G G2 i] prefix_nth [of "plSegments l" "plSegments l2" i] by (simp_all add: extends_def)
  qed
  let ?s = "plSegments l2 ! i"
  note st = log_ok_nth [OF l2(2) nth(2), unfolded attach_fields nth(1)]
  then have chain: "chain (srBase ?s) (G ! i) (srLast ?s + 1)" by (auto simp: seg_stored_def)
  have rng: "srBase ?s \<le> fpFetchOffset p" "fpFetchOffset p \<le> srLast ?s"
    using chain_base [OF chain i(2)] chain_end [OF chain i(2)] off by simp_all
  obtain r3 b3 where r3: "on_log E l (\<lambda>clk. Read (svS3 E) clk (fpFetchOffset p) (fpMaxBytes p)) b2 = Some (r3, b3)"
    using on_log_returns by blast
  from on_log_own [OF b2(1) l2(1) pl(1) framed_snd(3) r3] obtain q l3 clk where
    q: "Read (svS3 E) clk (fpFetchOffset p) (fpMaxBytes p) (attach b2 l2) = (q, l3)" "r3 = q \<or> r3 = Panic" by metis
  have "r3 = Ok d" using fr r3 run(2)
    by (cases r3) (auto simp: fetch_read_def abind_def atry_def aret_def fetch_result_def backpressureErrorCode_def
      health_state_def split: if_splits prod.splits)
  with q have read: "Read (svS3 E) clk (fpFetchOffset p) (fpMaxBytes p) (attach b2 l2) = (Ok d, l3)" by auto
  from read_select_nth [OF l2(2) nth(2), unfolded attach_fields, OF rng] obtain es where
    es: "read_select (fpFetchOffset p) (attach b2 l2) = Some (?s, es)" "plIndexEntries (attach b2 l2) (srBase ?s) = Some es" by blast
  have rf: "read_fetch (svS3 E) clk ?s es (fpFetchOffset p) (fpMaxBytes p) (attach b2 l2) = (Ok d, l3)"
    using read es(1) by (simp add: Read_def)
  have s: "?s \<in> set (plSegments (attach b2 l2))" "srSize ?s < 2 ^ 31"
    using nth_mem [OF st(1)] size nth(3) by simp_all
  from read_fetch_correct(1) [OF l2(2) st(2) s(1) es(2) rng s(2) m rf] show ?thesis by auto
qed

end

section \<open>Runs of a broker\<close>

text \<open>
  What a broker does between two moments: it serves requests, of any kind and in any order, the
  read-ahead goroutines of its logs make steps, and the coordinator sweeps its groups. Requests
  name topics by plain names, and the record sets they send have a header with a last-offset delta
  that is not negative.
\<close>

inductive serves :: "('m, 's) services \<Rightarrow> ('m, 's) broker \<Rightarrow> ('m, 's) broker \<Rightarrow> bool"
  for E where
  serve_start: "serves E b b"
| serve_request: "serves E b b1 \<Longrightarrow> request_ok plain_elem good_records E b1 r \<Longrightarrow> Handle E h r b1 = Some (x, b2) \<Longrightarrow> serves E b b2"
| serve_read_ahead: "serves E b b1 \<Longrightarrow> map_of (hLogs b1) key = Some l \<Longrightarrow>
    on_log E l (\<lambda>clk l. (Ok (), prefetch_step (svS3 E) i l)) b1 = Some (u, b2) \<Longrightarrow> serves E b b2"
| serve_sweep: "serves E b b1 \<Longrightarrow>
    on_groups E (\<lambda>ctx clk rnd. cleanupGroups (svStore E) clk) b1 = Some (us, b2) \<Longrightarrow> serves E b b2"

context broker_env
begin

lemma serves_follows:
  assumes "serves E b b'" "broker_wf ok ns b"
  shows "broker_wf ok ns b' \<and> follows segs idx ok tp b b'"
  using assms
proof (induction rule: serves.induct)
  case (serve_start b)
  then show ?case by (simp add: follows_refl)
next
  case (serve_request b b1 r h x b2)
  then have b1: "broker_wf ok ns b1" "follows segs idx ok tp b b1" by simp_all
  have "broker_wf ok ns b2" "follows segs idx ok tp b1 b2"
    using after_Handle [of b1 r h] serve_request b1 by (auto simp: after_def)
  with b1 follows_trans [OF b1(2)] show ?case by blast
next
  case (serve_read_ahead b b1 key l i u b2)
  then have b1: "broker_wf ok ns b1" "follows segs idx ok tp b b1" by simp_all
  have l: "log_named ns (plTopic l, plPartition l) l"
    using broker_wf_named [OF b1(1) serve_read_ahead(2)] by (auto simp: log_named_def split: prod.splits)
  have "ensures (broker_wf ok ns) (follows segs idx ok tp) (on_log E l (\<lambda>clk l. (Ok (), prefetch_step (svS3 E) i l))) (\<lambda>_. True)"
  proof (rule on_log_ensures [OF l])
    show "framed segs idx ok l (snd (Ok (), prefetch_step (svS3 E) i l))" for l by (simp add: framed_prefetch_step)
    fix l r l' G assume "log_ok segs idx ok l G" "(Ok (), prefetch_step (svS3 E) i l) = (r, l')"
    then show "\<exists>G'. log_ok segs idx ok l' G' \<and> extends l G l' G' \<and> plNextOffset l' \<le> plNextOffset l + 2 ^ 31"
      using step_own [OF _ step_prefetch, of l G i] prefetch_step_inv [of l G i] by (auto simp: only_cache_def)
  qed
  from ensuresD [OF this b1(1) serve_read_ahead(3)] b1 follows_trans show ?case by blast
next
  case (serve_sweep b b1 us b2)
  then show ?case using ensuresD [OF keeps_groups _ serve_sweep(2)] follows_trans by blast
qed

lemma acked_durable:
  assumes tp: "tp = (t, part)"
    and b0: "broker_wf ok ns b0" "map_of (hLogs b0) (t, part) = Some l0" "log_ok segs idx ok (attach b0 l0) G0"
    and produce: "produce_one E acks now t p b0 = Some (Ok resp, b1)" "ppPartition p = part" "pprErrorCode resp = 0"
      "acks \<noteq> 0" "hFlushOnAck b0"
    and batch: "NewRecordBatchFromBytes (or_nil (ppRecords p)) = Ok batch" "0 \<le> rbLastOffsetDelta batch"
    and later: "serves E b1 b2"
    and fetch: "fetch_partition_data E t w q b2 = Some (Ok fresp, b3)" "fpPartition q = part" "fprRecordSet fresp = Some d"
    and off: "pprBaseOffset resp \<le> fpFetchOffset q" "fpFetchOffset q \<le> pprBaseOffset resp + rbLastOffsetDelta batch"
    and limits: "in_i32 (fpMaxBytes q)" "plNextOffset l0 + 2 ^ 31 * int (Suc (hCalls b3)) < 2 ^ 63"
      "\<forall>l. map_of (hLogs b1) (t, part) = Some l \<longrightarrow> (\<forall>s \<in> set (plSegments l). srSize s < 2 ^ 31)"
  shows "pprBaseOffset resp = plNextOffset l0 \<and>
    (\<exists>g. patched batch (pprBaseOffset resp) \<in> set g \<and> read_spec g (fpFetchOffset q) (fpMaxBytes q) d)"
proof -
  have "rbLastOffsetDelta batch < 2 ^ 31"
    using batch(1) in_i32_i32 by (auto simp: NewRecordBatchFromBytes_def in_i32_def split: if_splits)
  have "plNextOffset l0 + 2 ^ 31 < 2 ^ 63" using limits(2) by (simp add: algebra_simps)
  then obtain l1 G1 where l1: "map_of (hLogs b1) tp = Some l1" "log_ok segs idx ok (attach b1 l1) G1" "broker_wf ok ns b1"
    "pprBaseOffset resp = plNextOffset l0" "concat G1 = concat G0 @ wbBatches (plBuffer l0) @ [patched batch (plNextOffset l0)]"
    "plNextOffset l1 = plNextOffset l0 + rbLastOffsetDelta batch + 1"
    using produce_acked [OF b0(1) _ _ _ _ batch produce(4,5) produce(1,3)] b0 produce(2) tp by blast
  then have "patched batch (plNextOffset l0) \<in> set (concat G1)" by simp
  then obtain g where g: "g \<in> set G1" "patched batch (plNextOffset l0) \<in> set g" by auto
  then obtain i where i: "i < length G1" "patched batch (plNextOffset l0) \<in> set (G1 ! i)"
    by (metis in_set_conv_nth)
  note s = serves_follows [OF later l1(3)]
  have wf2: "broker_wf ok ns b2" and f2: "follows segs idx ok tp b1 b2" using s by blast+
  have "plain_elem t" using broker_wf_named [OF b0(1,2)] by (simp add: log_named_def)
  then have "hCalls b2 \<le> hCalls b3"
    using ensuresD(2) [OF keeps_fetch_partition wf2 fetch(1)] by (simp add: follows_def)
  then have room: "plNextOffset l1 + 2 ^ 31 * int (hCalls b2 - hCalls b1) < 2 ^ 63"
    "plNextOffset l1 + 2 ^ 31 * int (hCalls b2 - hCalls b1) + 2 ^ 31 * int (hCalls b3 - hCalls b2) < 2 ^ 63"
    using limits(2) l1(6) \<open>rbLastOffsetDelta batch < 2 ^ 31\<close> by simp_all
  from f2 l1 room(1) obtain l2 G2 where l2: "map_of (hLogs b2) tp = Some l2" "log_ok segs idx ok (attach b2 l2) G2"
    "extends (attach b1 l1) G1 (attach b2 l2) G2" "plNextOffset l2 \<le> plNextOffset l1 + 2 ^ 31 * int (hCalls b2 - hCalls b1)"
    unfolding follows_def by blast
  have n: "i < length (plSegments l1)" using log_ok_nth(1) [OF l1(2) i(1)] by simp
  with l2(3) i(1) have nth: "G2 ! i = G1 ! i" "i < length G2" "plSegments l2 ! i = plSegments l1 ! i"
    using prefix_nth [of G1 G2 i] prefix_nth [of "plSegments l1" "plSegments l2" i] by (simp_all add: extends_def)
  have "read_spec (G2 ! i) (fpFetchOffset q) (fpMaxBytes q) d"
    using fetch_served [OF wf2 l2(1,2) _ _ fetch(1,3) nth(2), of "patched batch (plNextOffset l0)"]
      nth n i room(2) l2(4) off limits(1,3) l1(1,4) fetch(2) tp by (simp add: patched_def)
  with l1(4) i(2) nth(1) show ?thesis by (intro conjI exI [of _ "G1 ! i"]) simp_all
qed

end

end
