(* ===== verification/Broker_Liveness.thy ===== *)
theory Broker_Liveness
  imports Broker_Correctness
begin

text \<open>
  A broker with the in-memory store, over an object store that does not fail: a produce request is
  acknowledged, the offset it reaches becomes the high watermark, and its records are returned by
  the next fetch. The broker of a single process, with both in-memory back ends, is the instance.
\<close>

section \<open>Operations that succeed\<close>

context s3_reliable
begin

lemma AppendBatch_reliable:
  assumes "log_ok segs idx ok l G" "batch_ok b l"
  shows "\<exists>res. fst (AppendBatch ops clk b l) = Ok res"
proof -
  obtain r l1 where f: "flushLocked ops (\<lambda>i. clk (Suc i)) (appended b l) = (r, l1)" by fastforce
  with flushLocked_reliable [OF log_ok_appended(1) [OF assms]] obtain x where "r = Ok x" by (metis fst_conv)
  with f show ?thesis by (simp add: AppendBatch_unfold [OF assms] Let_def split: option.splits)
qed

lemma Flush_succeeds:
  assumes "log_ok segs idx ok l G"
  shows "fst (Flush ops clk l) = Ok ()"
proof -
  obtain r l1 where f: "flushLocked ops clk l = (r, l1)" by fastforce
  with flushLocked_reliable [OF assms] obtain x where "r = Ok x" by (metis fst_conv)
  with f show ?thesis by (simp add: Flush_def Let_def split: option.splits)
qed

lemma Read_reliable:
  assumes l: "log_ok segs idx ok l G" and i: "i < length G"
    and off: "srBase (plSegments l ! i) \<le> off" "off \<le> srLast (plSegments l ! i)"
    and size: "srSize (plSegments l ! i) < 2 ^ 31" and m: "in_i32 m"
  shows "\<exists>d. fst (Read ops clk off m l) = Ok d \<and> read_spec (G ! i) off m d"
proof -
  from read_select_nth [OF l i off] obtain es where es: "read_select off l = Some (plSegments l ! i, es)"
    "plIndexEntries l (srBase (plSegments l ! i)) = Some es" by blast
  note st = log_ok_nth [OF l i]
  from read_fetch_reliable [OF l st(2) nth_mem [OF st(1)] es(2) off size m, of clk] es(1) show ?thesis
    by (simp add: Read_def)
qed

end

section \<open>What a log reports\<close>

text \<open>The timings of calls that succeeded.\<close>

definition calm_event :: "(nat \<Rightarrow> time) \<Rightarrow> log_event \<Rightarrow> bool" where
  "calm_event clk ev = (case ev of OnFlush a \<Rightarrow> True | OnS3Op op d e \<Rightarrow> e = None \<and> (\<exists>i j. d = timeSub (clk i) (clk j)))"

lemma calm_events [simp]: "calm_event clk (OnFlush a)" "calm_event clk (OnS3Op op (timeSub (clk i) (clk j)) None)"
  by (auto simp: calm_event_def)

lemma calm_shift: "\<forall>ev \<in> S. calm_event (\<lambda>i. clk (Suc i)) ev \<Longrightarrow> ev \<in> S \<Longrightarrow> calm_event clk ev"
  by (fastforce simp: calm_event_def split: log_event.splits)

lemma startPrefetch_reports [simp]: "plEvents (startPrefetch i l) = plEvents l" "plHasOnFlush (startPrefetch i l) = plHasOnFlush l"
  by (simp_all add: startPrefetch_def split: option.splits prod.splits)

lemma cache_set_reports [simp]: "plEvents (cache_set i d l) = plEvents l" "plHasOnFlush (cache_set i d l) = plHasOnFlush l"
  "plHasOnS3Op (cache_set i d l) = plHasOnS3Op l"
  by (simp_all add: cache_set_def split: option.splits)

lemma flushLocked_reports:
  assumes "flushLocked ops clk l = (Ok x, l')"
  shows "plHasOnFlush l' = plHasOnFlush l \<and> (\<exists>evs. plEvents l' = plEvents l @ evs \<and> length evs \<le> 2 \<and> (\<forall>ev \<in> set evs. calm_event clk ev))"
  using assms
  by (auto simp: flushLocked_def Let_def callS3Op_def split: prod.splits if_splits outcome.splits)

lemma flushLocked_reports_later:
  assumes "flushLocked ops (\<lambda>i. clk (Suc i)) l = (Ok x, l')"
  shows "plHasOnFlush l' = plHasOnFlush l \<and> (\<exists>evs. plEvents l' = plEvents l @ evs \<and> length evs \<le> 2 \<and> (\<forall>ev \<in> set evs. calm_event clk ev))"
  using flushLocked_reports [OF assms] calm_shift [of _ clk] by blast

lemma AppendBatch_reports:
  assumes "AppendBatch ops clk b l = (Ok res, l')"
  shows "plHasOnFlush l' = plHasOnFlush l \<and> (\<exists>evs. plEvents l' = plEvents l @ evs \<and> length evs \<le> 3 \<and> (\<forall>ev \<in> set evs. calm_event clk ev))"
  using assms
  by (auto simp: AppendBatch_def Let_def callFlush_def split: prod.splits if_splits outcome.splits option.splits
      dest!: flushLocked_reports_later)

lemma Read_reports: "length (plEvents (snd (Read ops clk off m l))) \<le> length (plEvents l) + 1"
  by (auto simp: Read_def read_fetch_def cache_lookup_def callS3Op_def Let_def split: option.splits prod.splits outcome.splits)

text \<open>A flush that succeeded has reported the last offset of the log.\<close>

lemma Flush_reports:
  assumes l: "log_ok segs idx ok l G" "plHasOnFlush l" "0 < plNextOffset l" and f: "Flush ops clk l = (Ok (), l')"
  shows "\<exists>evs a. plEvents l' = plEvents l @ evs @ [OnFlush a] \<and> saLastOffset a = plNextOffset l - 1 \<and>
    length evs \<le> 2 \<and> (\<forall>ev \<in> set evs. calm_event clk ev)"
proof -
  obtain r l1 where fl: "flushLocked ops clk l = (r, l1)" by fastforce
  with f obtain x where r: "r = Ok x" by (cases r) (auto simp: Flush_def)
  note rep = flushLocked_reports [OF fl [unfolded r]]
  from l obtain start where chain: "0 \<le> start" "chain start (wbBatches (plBuffer l)) (plNextOffset l)" "plNextOffset l < 2 ^ 63"
    by (auto simp: log_ok_def log_inv_def)
  show ?thesis
  proof (cases x)
    case None
    then have "plNextOffset l1 = plNextOffset l"
      using fl r by (auto simp: flushLocked_def Let_def split: prod.splits if_splits outcome.splits)
    with rep l None chain(3) f fl r show ?thesis
      by (auto simp: Flush_def callFlush_def Let_def last_offset_artifact_def i64_id in_i64_def)
  next
    case (Some a)
    with fl r have a: "BuildSegment (pcSegment (plCfg l)) (wbBatches (plBuffer l)) (clk 1) = Ok a"
      by (auto simp: flushLocked_def Let_def Drain_def split: prod.splits if_splits outcome.splits)
    with BuildSegment_Ok(1) BuildSegment_chain [OF chain(2) _ chain(1,3)] have "saLastOffset a = plNextOffset l - 1"
      by (metis outcome.inject(1))
    with rep l Some f fl r show ?thesis by (auto simp: Flush_def callFlush_def)
  qed
qed

section \<open>Callbacks over the in-memory store\<close>

fun reported :: "string \<Rightarrow> int \<Rightarrow> log_event \<Rightarrow> mem_store \<Rightarrow> mem_store" where
  "reported t p (OnFlush a) s = snd (UpdateOffsets False t p (saLastOffset a) s)"
| "reported t p (OnS3Op op d e) s = s"

text \<open>A property of the health monitor that calls without an error keep.\<close>

definition health_kept :: "('m, 's) services \<Rightarrow> (s3_monitor \<Rightarrow> bool) \<Rightarrow> bool" where
  "health_kept E P \<longleftrightarrow> (\<forall>m now. P m \<longrightarrow> P (snd (State now m))) \<and>
     (\<forall>m op n i j now. P m \<longrightarrow> P (RecordOperation op (timeSub (svClock E n i) (svClock E n j)) False now m))"

lemma callbacks_mem:
  assumes E: "svStore E = mem_ops" "svDone E = (\<lambda>_. False)"
  shows "\<exists>us b'. map_calls (log_callback E t p) evs b = (Ok us, b') \<and> hCalls b' = hCalls b + length evs \<and> hStore b' = fold (reported t p) evs (hStore b) \<and>
    (\<forall>P n. health_kept E P \<longrightarrow> (\<forall>ev \<in> set evs. calm_event (svClock E n) ev) \<longrightarrow> P (hHealth b) \<longrightarrow> P (hHealth b'))"
proof (induction evs arbitrary: b)
  case (Cons ev evs)
  have "\<exists>b1. log_callback E t p ev b = (Ok (), b1) \<and> hCalls b1 = Suc (hCalls b) \<and> hStore b1 = reported t p ev (hStore b) \<and>
      (\<forall>P n. health_kept E P \<longrightarrow> calm_event (svClock E n) ev \<longrightarrow> P (hHealth b) \<longrightarrow> P (hHealth b1))"
    by (cases ev) (auto simp: log_callback_def E mem_ops_def UpdateOffsets_def with_persist_def hStore_def next_call_def
      set_store_def recordS3Op_def health_kept_def calm_event_def)
  then obtain b1 where b1: "log_callback E t p ev b = (Ok (), b1)" "hCalls b1 = Suc (hCalls b)" "hStore b1 = reported t p ev (hStore b)"
    "\<forall>P n. health_kept E P \<longrightarrow> calm_event (svClock E n) ev \<longrightarrow> P (hHealth b) \<longrightarrow> P (hHealth b1)" by blast
  from Cons [of b1] obtain us b2 where b2: "map_calls (log_callback E t p) evs b1 = (Ok us, b2)"
    "hCalls b2 = hCalls b1 + length evs" "hStore b2 = fold (reported t p) evs (hStore b1)"
    "\<forall>P n. health_kept E P \<longrightarrow> (\<forall>ev \<in> set evs. calm_event (svClock E n) ev) \<longrightarrow> P (hHealth b1) \<longrightarrow> P (hHealth b2)" by blast
  have "\<forall>P n. health_kept E P \<longrightarrow> (\<forall>ev \<in> set (ev # evs). calm_event (svClock E n) ev) \<longrightarrow> P (hHealth b) \<longrightarrow> P (hHealth b2)"
    using b1(4) b2(4) by (metis list.set_intros(1,2))
  with b1(1-3) b2(1-3) show ?case by auto
qed simp

lemma reported_state [simp]: "msState (fold (reported t p) evs s) = msState s"
proof (induction evs arbitrary: s)
  case (Cons ev evs)
  then show ?case by (cases ev) (simp_all add: UpdateOffsets_def)
qed simp

text \<open>An operation of a log of a broker with the in-memory store, whose context is not done.\<close>

locale local_broker = broker_env E segs idx ok ns tp + s3_reliable "svS3 E" segs idx ok
  for E :: "(mem_store, 's) services" and segs idx ok ns tp +
  assumes store: "svStore E = mem_ops" "svDone E = (\<lambda>_. False)" "svAvailable E = (\<lambda>_. True)"
begin

lemma on_log_store:
  assumes b: "broker_wf ok ns b" and l: "map_of (hLogs b) key = Some l" and pl: "(plTopic pl, plPartition pl) = key"
    and f: "\<And>clk l. framed segs idx ok l (snd (f clk l))"
    and run: "f (svClock E (hCalls b)) (attach b l) = (q, l1)"
  obtains b' where "on_log E pl f b = Some (q, b')" "map_of (hLogs b') key = Some (l1\<lparr>plEvents := []\<rparr>)"
    "attach b' (l1\<lparr>plEvents := []\<rparr>) = l1\<lparr>plEvents := []\<rparr>" "hFlushOnAck b' = hFlushOnAck b"
    "hStore b' = fold (reported (fst key) (snd key)) (plEvents l1) (hStore b)"
    "\<forall>P. health_kept E P \<longrightarrow> (\<forall>ev \<in> set (plEvents l1). calm_event (svClock E (hCalls b)) ev) \<longrightarrow> P (hHealth b) \<longrightarrow> P (hHealth b')"
    "hCalls b' = hCalls b + 1 + length (plEvents l1)"
proof -
  obtain r l' b1 where rl: "run_log E f l b = (r, l', b1)" by (metis prod_cases3)
  have "\<forall>clk l. framed segs idx ok l (snd (f clk l))" using f by blast
  note s = run_log_step [OF b broker_wf_named [OF b l] this rl]
  have lt: "plTopic l = fst key" "plPartition l = snd key"
    using broker_wf_named [OF b l] by (auto simp: log_named_def split: prod.splits)
  let ?b0 = "next_call (b\<lparr>hS3 := plS3 l1, hCache := (case plCache l1 of None \<Rightarrow> hCache b | Some c \<Rightarrow> c)\<rparr>)"
  obtain us b2 where cb: "map_calls (log_callback E (plTopic l) (plPartition l)) (plEvents l1) ?b0 = (Ok us, b2)"
    "hStore b2 = fold (reported (plTopic l) (plPartition l)) (plEvents l1) (hStore ?b0)"
    "\<forall>P n. health_kept E P \<longrightarrow> (\<forall>ev \<in> set (plEvents l1). calm_event (svClock E n) ev) \<longrightarrow> P (hHealth ?b0) \<longrightarrow> P (hHealth b2)"
    "hCalls b2 = hCalls ?b0 + length (plEvents l1)"
    using callbacks_mem [OF store(1,2), of "plTopic l" "plPartition l" "plEvents l1" ?b0] by blast
  with rl run have r: "r = q" "l' = l1\<lparr>plEvents := []\<rparr>" "b1 = b2" by (auto simp: run_log_def attach_def Let_def)
  let ?b' = "b1\<lparr>hLogs := AList.update key l' (hLogs b1)\<rparr>"
  have "on_log E pl f b = Some (q, ?b')" using rl l pl r(1) by (simp add: on_log_def Let_def)
  moreover have "attach ?b' l' = l'" using s(5) by (simp add: attach_def)
  moreover have "hStore ?b' = fold (reported (fst key) (snd key)) (plEvents l1) (hStore b)"
    using cb(2) r(3) lt by (simp add: hStore_def next_call_def)
  moreover have "\<forall>P. health_kept E P \<longrightarrow> (\<forall>ev \<in> set (plEvents l1). calm_event (svClock E (hCalls b)) ev) \<longrightarrow> P (hHealth b) \<longrightarrow> P (hHealth ?b')"
    using cb(3) r(3) by (auto simp: next_call_def)
  moreover have "hCalls ?b' = hCalls b + 1 + length (plEvents l1)" using cb(4) r(3) by (simp add: next_call_def)
  ultimately show thesis using that [of ?b'] s(4) r by (simp add: update_conv')
qed

section \<open>Produce, then fetch\<close>

lemma produce_live:
  assumes b: "broker_wf ok ns b" and l: "map_of (hLogs b) tp = Some l" "log_ok segs idx ok (attach b l) G" "plHasOnFlush l"
    and tp: "tp = (t, ppPartition p)" and room: "plNextOffset l + 2 ^ 31 < 2 ^ 63"
    and batch: "NewRecordBatchFromBytes (or_nil (ppRecords p)) = Ok batch" "0 \<le> rbLastOffsetDelta batch"
    and acks: "acks \<noteq> 0" "hFlushOnAck b" and healthy: "fst (State (svClock E (hCalls b) 0) (hHealth b)) = S3StateHealthy"
  shows "\<exists>resp b'. produce_one E acks now t p b = Some (Ok resp, b') \<and> pprErrorCode resp = 0 \<and>
    msState (hStore b') = msState (hStore b) \<and>
    map_of (msOffsets (hStore b')) (partitionKey t (ppPartition p)) = Some (plNextOffset l + rbLastOffsetDelta batch + 1) \<and>
    (\<forall>P. health_kept E P \<longrightarrow> P (hHealth b) \<longrightarrow> P (hHealth b')) \<and> hCalls b' \<le> hCalls b + 10"
proof -
  obtain m where hs: "State (svClock E (hCalls b) 0) (hHealth b) = (S3StateHealthy, m)" using healthy by (metis prod.collapse)
  let ?b1 = "next_call (b\<lparr>hHealth := m\<rparr>)"
  have b1: "broker_wf ok ns ?b1" using health_step [OF b] by blast
  have l1: "map_of (hLogs ?b1) tp = Some l" "log_ok segs idx ok (attach ?b1 l) G" "hFlushOnAck ?b1" "hStore ?b1 = hStore b"
    using l acks by (simp_all add: next_call_def attach_def hStore_def)
  have pl: "(plTopic l, plPartition l) = tp" using broker_wf_named [OF b l(1)] by (auto simp: log_named_def tp)
  have get: "getPartitionLog E t (ppPartition p) ?b1 = Some (Ok l, ?b1)"
    using l1(1) by (subst getPartitionLog.simps) (simp add: tp)
  have d: "rbLastOffsetDelta batch < 2 ^ 31" "8 \<le> length (rbBytes batch)"
    using batch(1) in_i32_i32 [of "u32_at (or_nil (ppRecords p)) 23"]
    by (auto simp: NewRecordBatchFromBytes_def recordBatchHeaderMinSize_def in_i32_def split: if_splits)
  have bok: "batch_ok batch (attach ?b1 l)" using d batch(2) room by (simp add: batch_ok_def)
  obtain q2 la where a: "AppendBatch (svS3 E) (svClock E (hCalls ?b1)) batch (attach ?b1 l) = (q2, la)" by fastforce
  with AppendBatch_reliable [OF l1(2) bok] obtain res where res: "q2 = Ok res" by (metis fst_conv)
  from on_log_store [where f = "\<lambda>clk. AppendBatch (svS3 E) clk batch", OF b1 l1(1) pl framed_snd(1) a] obtain b2 where
    r2: "on_log E l (\<lambda>clk. AppendBatch (svS3 E) clk batch) ?b1 = Some (q2, b2)" "map_of (hLogs b2) tp = Some (la\<lparr>plEvents := []\<rparr>)"
    "attach b2 (la\<lparr>plEvents := []\<rparr>) = la\<lparr>plEvents := []\<rparr>" "hFlushOnAck b2 = hFlushOnAck ?b1"
    "hStore b2 = fold (reported (fst tp) (snd tp)) (plEvents la) (hStore ?b1)"
    "\<forall>P. health_kept E P \<longrightarrow> (\<forall>ev \<in> set (plEvents la). calm_event (svClock E (hCalls ?b1)) ev) \<longrightarrow> P (hHealth ?b1) \<longrightarrow> P (hHealth b2)"
    "hCalls b2 = hCalls ?b1 + 1 + length (plEvents la)" .
  from AppendBatch_inv [OF l1(2) bok a] obtain Ga where Ga: "log_ok segs idx ok la Ga"
    "plNextOffset la = plNextOffset l + rbLastOffsetDelta batch + 1" by auto
  have has: "plHasOnFlush la" "\<forall>ev \<in> set (plEvents la). calm_event (svClock E (hCalls ?b1)) ev"
    "length (plEvents la) \<le> 3"
    using AppendBatch_reports [OF a [unfolded res]] l(3) by (auto simp: attach_def)
  have "good_records (or_nil (ppRecords p))" using batch by (auto simp: good_records_def NewRecordBatchFromBytes_def split: if_splits)
  moreover have "log_named ns (plTopic l, plPartition l) l" using broker_wf_named [OF b l(1)] pl by simp
  ultimately have wf2: "broker_wf ok ns b2" by (rule ensuresD(1) [OF append_step [OF _ _ batch(1)] b1 r2(1), rotated 1])
  let ?la = "la\<lparr>plEvents := []\<rparr>"
  obtain q3 lf where f: "Flush (svS3 E) (svClock E (hCalls b2)) (attach b2 ?la) = (q3, lf)" by fastforce
  have q3: "q3 = Ok ()" using Flush_succeeds [OF log_ok_events [OF Ga(1)]] f r2(3) by (metis fst_conv)
  from on_log_store [where f = "Flush (svS3 E)", OF wf2 r2(2) pl framed_snd(2) f] obtain b3 where
    r3: "on_log E l (Flush (svS3 E)) b2 = Some (q3, b3)" "hStore b3 = fold (reported (fst tp) (snd tp)) (plEvents lf) (hStore b2)"
    "\<forall>P. health_kept E P \<longrightarrow> (\<forall>ev \<in> set (plEvents lf). calm_event (svClock E (hCalls b2)) ev) \<longrightarrow> P (hHealth b2) \<longrightarrow> P (hHealth b3)"
    "hCalls b3 = hCalls b2 + 1 + length (plEvents lf)" by metis
  have "0 < plNextOffset ?la" using Ga(2) batch(2) log_ok_next_nonneg [OF l(2)] by simp
  from Flush_reports [OF log_ok_events [OF Ga(1)] _ this f [unfolded r2(3) q3]] has obtain evs art where
    evs: "plEvents lf = evs @ [OnFlush art]" "saLastOffset art = plNextOffset la - 1"
      "\<forall>ev \<in> set evs. calm_event (svClock E (hCalls b2)) ev" "length evs \<le> 2" by auto
  have calls: "hCalls b3 \<le> hCalls b + 10" using r3(4) r2(7) has(3) evs(1,4) by (simp add: next_call_def)
  have health: "P (hHealth b3)" if P: "health_kept E P" "P (hHealth b)" for P
  proof -
    have "P (hHealth ?b1)" using P hs by (auto simp: health_kept_def next_call_def) (metis snd_conv)
    with r2(6) r3(3) P(1) has(2) evs(1,3) show ?thesis by auto
  qed
  have "produce_append E acks now (ppPartition p) batch l ?b1 = Some (Ok \<lparr>pprPartition = ppPartition p, pprErrorCode = 0,
      pprBaseOffset = arBaseOffset res, pprLogAppendTimeMs = now, pprLogStartOffset = 0\<rparr>, b3)"
    using r2 r3 res q3 acks l1(3) by (simp add: produce_append_def abind_def atry_def aret_def)
  then have "produce_one E acks now t p b = Some (Ok \<lparr>pprPartition = ppPartition p, pprErrorCode = 0,
      pprBaseOffset = arBaseOffset res, pprLogAppendTimeMs = now, pprLogStartOffset = 0\<rparr>, b3)"
    using batch(1) hs get by (simp add: produce_one_def Let_def abind_def atry_def health_state_def etcdAvailable_def store)
  moreover have "i64 (plNextOffset la) = plNextOffset la"
    using Ga(2) room d(1) batch(2) log_ok_next_nonneg [OF l(2)] by (simp add: i64_id in_i64_def)
  ultimately show ?thesis using r3(2) r2(5) evs(1,2) l1(4) Ga(2) tp health calls
    by (auto simp: UpdateOffsets_def update_conv')
qed

lemma fetch_live:
  assumes b: "broker_wf ok ns b" and l: "map_of (hLogs b) tp = Some l" "log_ok segs idx ok (attach b l) G"
    and tp: "tp = (t, fpPartition q)" and healthy: "fst (State (svClock E (hCalls b) 0) (hHealth b)) = S3StateHealthy"
    and mark: "NextOffset False t (fpPartition q) (hStore b) = (Ok n, hStore b)" "fpFetchOffset q < n"
    and i: "i < length G" "x \<in> set (G ! i)"
    and off: "rbBaseOffset x \<le> fpFetchOffset q" "fpFetchOffset q \<le> rbBaseOffset x + rbLastOffsetDelta x"
    and size: "srSize (plSegments l ! i) < 2 ^ 31" and m: "in_i32 (fpMaxBytes q)"
  shows "\<exists>d b'. fetch_partition_data E t w q b = Some (Ok (fetch_result (fpPartition q) 0 n (Some d)), b') \<and>
    read_spec (G ! i) (fpFetchOffset q) (fpMaxBytes q) d \<and> hCalls b' \<le> hCalls b + 10"
proof -
  obtain hm where hs: "State (svClock E (hCalls b) 0) (hHealth b) = (S3StateHealthy, hm)" using healthy by (metis prod.collapse)
  let ?b1 = "next_call (b\<lparr>hHealth := hm\<rparr>)" let ?b2 = "next_call ?b1"
  have b2: "broker_wf ok ns ?b2" by (rule broker_wf_same [OF b]) (simp_all add: next_call_def)
  have l2: "map_of (hLogs ?b1) tp = Some l" "map_of (hLogs ?b2) tp = Some l" "log_ok segs idx ok (attach ?b2 l) G"
    "hStore ?b1 = hStore b" "set_store (hStore b) ?b1 = ?b1"
    using l by (simp_all add: next_call_def attach_def hStore_def set_store_def)
  have pl: "(plTopic l, plPartition l) = tp" using broker_wf_named [OF b l(1)] by (auto simp: log_named_def tp)
  have get: "getPartitionLog E t (fpPartition q) ?b1 = Some (Ok l, ?b1)"
    using l2(1) by (subst getPartitionLog.simps) (simp add: tp)
  have next_off: "next_offset E t (fpPartition q) ?b1 = (Ok (n, None), ?b2)"
    using mark(1) l2(4,5) by (simp add: next_offset_def store mem_ops_def)
  note st = log_ok_nth [OF l2(3) i(1)]
  then have chain: "chain (srBase (plSegments l ! i)) (G ! i) (srLast (plSegments l ! i) + 1)" by (auto simp: seg_stored_def)
  have rng: "srBase (plSegments l ! i) \<le> fpFetchOffset q" "fpFetchOffset q \<le> srLast (plSegments l ! i)"
    using chain_base [OF chain i(2)] chain_end [OF chain i(2)] off by simp_all
  obtain r l3 where rd: "Read (svS3 E) (svClock E (hCalls ?b2)) (fpFetchOffset q) (fpMaxBytes q) (attach ?b2 l) = (r, l3)"
    by fastforce
  from Read_reliable [OF l2(3) i(1), unfolded attach_fields, OF rng size m] rd obtain d where
    d: "r = Ok d" "read_spec (G ! i) (fpFetchOffset q) (fpMaxBytes q) d" by (metis fst_conv)
  from on_log_store [where f = "\<lambda>clk. Read (svS3 E) clk (fpFetchOffset q) (fpMaxBytes q)", OF b2 l2(2) pl framed_snd(3) rd]
  obtain b3 where b3: "on_log E l (\<lambda>clk. Read (svS3 E) clk (fpFetchOffset q) (fpMaxBytes q)) ?b2 = Some (r, b3)"
    "hCalls b3 = hCalls ?b2 + 1 + length (plEvents l3)" by metis
  have "length (plEvents l3) \<le> 1"
    using Read_reports [of "svS3 E" "svClock E (hCalls ?b2)" "fpFetchOffset q" "fpMaxBytes q" "attach ?b2 l"] rd by (simp add: attach_def)
  with b3(2) have "hCalls b3 \<le> hCalls b + 10" by (simp add: next_call_def)
  from b3(1) have "fetch_read E l q n ?b2 = Some (Ok (fetch_result (fpPartition q) 0 n (Some d)), b3)"
    by (simp add: fetch_read_def abind_def atry_def aret_def d(1))
  then have "fetch_partition_data E t w q b = Some (Ok (fetch_result (fpPartition q) 0 n (Some d)), b3)"
    using hs get next_off mark(2) by (simp add: fetch_partition_data_def abind_def atry_def health_state_def waitForFetchData_def)
  with d(2) \<open>hCalls b3 \<le> hCalls b + 10\<close> show ?thesis by blast
qed

lemma produce_then_fetch:
  assumes tp: "tp = (t, part)" "ppPartition p = part" "topicHasPartition (cmTopics (msState (hStore b))) t part"
    and b: "broker_wf ok ns b" "map_of (hLogs b) (t, part) = Some l" "log_ok segs idx ok (attach b l) G" "plHasOnFlush l"
    and room: "plNextOffset l + 2 ^ 31 < 2 ^ 63"
    and batch: "NewRecordBatchFromBytes (or_nil (ppRecords p)) = Ok batch" "0 \<le> rbLastOffsetDelta batch"
    and acks: "acks \<noteq> 0" "hFlushOnAck b" and healthy: "fst (State (svClock E (hCalls b) 0) (hHealth b)) = S3StateHealthy"
  shows "\<exists>resp b1. produce_one E acks now t p b = Some (Ok resp, b1) \<and> pprErrorCode resp = 0 \<and>
    pprBaseOffset resp = plNextOffset l \<and>
    (\<forall>q w. fpPartition q = part \<and> pprBaseOffset resp \<le> fpFetchOffset q \<and>
       fpFetchOffset q \<le> pprBaseOffset resp + rbLastOffsetDelta batch \<and> in_i32 (fpMaxBytes q) \<and>
       fst (State (svClock E (hCalls b1) 0) (hHealth b1)) = S3StateHealthy \<and>
       (\<forall>l. map_of (hLogs b1) (t, part) = Some l \<longrightarrow> (\<forall>s \<in> set (plSegments l). srSize s < 2 ^ 31)) \<longrightarrow>
       (\<exists>fresp b2 d g. fetch_partition_data E t w q b1 = Some (Ok fresp, b2) \<and> fprErrorCode fresp = 0 \<and>
          fprHighWatermark fresp = pprBaseOffset resp + rbLastOffsetDelta batch + 1 \<and> fprRecordSet fresp = Some d \<and>
          patched batch (pprBaseOffset resp) \<in> set g \<and> read_spec g (fpFetchOffset q) (fpMaxBytes q) d))"
proof -
  have tp': "tp = (t, ppPartition p)" using tp by simp
  have b': "map_of (hLogs b) tp = Some l" using b(2) tp(1) by simp
  from produce_live [OF b(1) b' b(3,4) tp' room batch acks healthy] obtain resp b1 where
    r: "produce_one E acks now t p b = Some (Ok resp, b1)" "pprErrorCode resp = 0"
      "msState (hStore b1) = msState (hStore b)"
      "map_of (msOffsets (hStore b1)) (partitionKey t (ppPartition p)) = Some (plNextOffset l + rbLastOffsetDelta batch + 1)" by metis
  from produce_acked [OF b(1) b' b(3) tp' room batch acks r(1,2)] obtain l1 G1 where
    l1: "map_of (hLogs b1) tp = Some l1" "log_ok segs idx ok (attach b1 l1) G1" "broker_wf ok ns b1"
      "pprBaseOffset resp = plNextOffset l" "concat G1 = concat G @ wbBatches (plBuffer l) @ [patched batch (plNextOffset l)]" by blast
  then have "patched batch (plNextOffset l) \<in> set (concat G1)" by simp
  then obtain g where "g \<in> set G1" "patched batch (plNextOffset l) \<in> set g" by auto
  then obtain i where i: "i < length G1" "patched batch (plNextOffset l) \<in> set (G1 ! i)" by (metis in_set_conv_nth)
  have seg: "plSegments l1 ! i \<in> set (plSegments l1)" using log_ok_nth(1) [OF l1(2) i(1)] by simp
  have next_off: "NextOffset False t part (hStore b1) = (Ok (plNextOffset l + rbLastOffsetDelta batch + 1), hStore b1)"
    using r(3,4) tp by (simp add: NextOffset_def get_or_def)
  have "\<exists>fresp b2 d g. fetch_partition_data E t w q b1 = Some (Ok fresp, b2) \<and> fprErrorCode fresp = 0 \<and>
      fprHighWatermark fresp = pprBaseOffset resp + rbLastOffsetDelta batch + 1 \<and> fprRecordSet fresp = Some d \<and>
      patched batch (pprBaseOffset resp) \<in> set g \<and> read_spec g (fpFetchOffset q) (fpMaxBytes q) d"
    if q: "fpPartition q = part" "pprBaseOffset resp \<le> fpFetchOffset q" "fpFetchOffset q \<le> pprBaseOffset resp + rbLastOffsetDelta batch"
      "in_i32 (fpMaxBytes q)" "fst (State (svClock E (hCalls b1) 0) (hHealth b1)) = S3StateHealthy"
      "\<forall>l. map_of (hLogs b1) (t, part) = Some l \<longrightarrow> (\<forall>s \<in> set (plSegments l). srSize s < 2 ^ 31)" for q w
  proof -
    have "tp = (t, fpPartition q)" using tp(1) q(1) by simp
    moreover have "srSize (plSegments l1 ! i) < 2 ^ 31" using q(6) l1(1) seg tp(1) by blast
    ultimately obtain d b2 where "fetch_partition_data E t w q b1 =
        Some (Ok (fetch_result part 0 (plNextOffset l + rbLastOffsetDelta batch + 1) (Some d)), b2)"
      "read_spec (G1 ! i) (fpFetchOffset q) (fpMaxBytes q) d"
      using fetch_live [OF l1(3,1,2) _ q(5) _ _ i, where q = q and w = w and n = "plNextOffset l + rbLastOffsetDelta batch + 1"] q next_off l1(4)
      by (auto simp: patched_def)
    with i(2) l1(4) show ?thesis by (simp add: fetch_result_def) blast
  qed
  with r(1,2) l1(4) show ?thesis by blast
qed

end

section \<open>The broker of one process\<close>

text \<open>The services of a broker with both in-memory back ends, that serves one connection; its clock stands
  still.\<close>

definition local_services :: "(mem_store, memory_s3) services" where
  "local_services = \<lparr>svStore = mem_ops, svCreateTopic = CreateTopic, svDeleteTopic = DeleteTopic,
     svCreatePartitions = CreatePartitions, svFetchTopicConfig = FetchTopicConfig, svUpdateTopicConfig = UpdateTopicConfig,
     svAvailable = (\<lambda>_. True), svS3 = memory_client, svClock = (\<lambda>_ _. 0), svDone = (\<lambda>_. False), svRandom = (\<lambda>_. 0),
     svEnv = (\<lambda>_. []), svLate = (\<lambda>_. 0), svOthers = (\<lambda>_ b. b)\<rparr>"

lemma local_services_simps [simp]:
  "svStore local_services = mem_ops" "svS3 local_services = memory_client" "svDone local_services = (\<lambda>_. False)"
  "svAvailable local_services = (\<lambda>_. True)" "svOthers local_services = (\<lambda>_ b. b)" "svClock local_services = (\<lambda>_ _. 0)"
  "svCreateTopic local_services = CreateTopic"
  by (simp_all add: local_services_def)

interpretation memb: local_broker local_services mem_segs mem_idx mem_ok "''default''" tp for tp
proof -
  have c: "s3_contract (svS3 local_services) mem_segs mem_idx mem_ok" "s3_reliable (svS3 local_services) mem_segs mem_idx mem_ok"
    by (simp_all add: mem.s3_contract_axioms memr.s3_reliable_axioms)
  have "broker_env_axioms local_services mem_segs mem_idx mem_ok ''default'' tp"
    by unfold_locales (auto intro: broker_wf_same follows_same)
  with c show "local_broker local_services mem_segs mem_idx mem_ok ''default'' tp"
    by (simp add: local_broker_def local_broker_axioms_def broker_env_def)
qed

definition demo_info :: metadata_broker where
  "demo_info = \<lparr>mbNodeID = 1, mbHost = ''localhost'', mbPort = 9092, mbRack = None\<rparr>"

definition demo_health :: s3_health_cfg where
  "demo_health = \<lparr>shWindow = 0, shLatencyWarn = 0, shLatencyCrit = 0, shErrorWarn = 1 / 2, shErrorCrit = 1, shMaxSamples = 0\<rparr>"

definition demo_topic :: metadata_topic where
  "demo_topic = \<lparr>mtErrorCode = 0, mtName = ''t'', mtTopicID = replicate 16 1, mtIsInternal = False,
     mtPartitions = [new_partition 1 0], mtTopicAuthorizedOperations = 0\<rparr>"

definition demo_store :: mem_store where
  "demo_store = NewInMemoryStore ((metadataForBroker demo_info)\<lparr>cmTopics := [demo_topic]\<rparr>)"

definition idle_broker :: "(mem_store, memory_s3) broker" where
  "idle_broker = newHandler (\<lambda>_. []) demo_health 0 demo_store NewMemoryS3Client demo_info"

definition open_plog :: "memory_s3 plog" where
  "open_plog = NewPartitionLog ''default'' ''t'' 0 0 NewMemoryS3Client (Some (hCache idle_broker)) (hLogConfig idle_broker) True True 0"

definition open_broker :: "(mem_store, memory_s3) broker" where
  "open_broker = idle_broker\<lparr>hLogs := [((''t'', 0), open_plog)]\<rparr>"

definition demo_records :: bytes where
  "demo_records =
    [0, 0, 0, 0, 0, 0, 0, 0, 0, 0, 0, 0, 0, 0, 0, 0, 0, 0, 0, 0, 0, 0, 0, 0, 0, 0, 1, 0, 0, 0, 0, 0, 0, 0, 0, 0,
     0, 0, 0, 0, 0, 0, 0, 0, 0, 0, 0, 0, 0, 0, 0, 0, 0, 0, 0, 0, 0, 0, 0, 0, 2, 7]"

definition demo_produce :: produce_partition where
  "demo_produce = \<lparr>ppPartition = 0, ppRecords = Some demo_records\<rparr>"

definition demo_fetch :: fetch_partition where
  "demo_fetch = \<lparr>fpPartition = 0, fpFetchOffset = 1, fpMaxBytes = 1000\<rparr>"

definition demo_record_batch :: record_batch where
  "demo_record_batch = \<lparr>rbBaseOffset = 0, rbLastOffsetDelta = 1, rbMessageCount = 2, rbBytes = demo_records\<rparr>"

lemma demo_parse: "NewRecordBatchFromBytes demo_records = Ok demo_record_batch"
  by (simp add: NewRecordBatchFromBytes_def demo_record_batch_def demo_records_def recordBatchHeaderMinSize_def
    u64_at_def u32_at_def ube_def i64_id i32_id in_i64_def in_i32_def)

lemma idle_fields:
  "hS3Namespace idle_broker = ''default''" "hFlushOnAck idle_broker" "hStore idle_broker = demo_store" "hS3 idle_broker = NewMemoryS3Client"
  "hHealth idle_broker = NewS3HealthMonitor demo_health 0" "hCalls idle_broker = 0" "\<exists>n. hCache idle_broker = NewSegmentCache n"
  by (auto simp add: idle_broker_def newHandler_def Let_def hStore_def NewGroupCoordinator_def envOrDefault_def parseEnvBool_def TrimSpace_def ToLower_def)

text \<open>A monitor that has seen only fast calls without an error says that the store is healthy.\<close>

definition calm :: "s3_monitor \<Rightarrow> bool" where
  "calm m \<longleftrightarrow> smCfg m = default_cfg demo_health \<and> (\<forall>x \<in> set (smSamples m). smLatency x = 0 \<and> \<not> smErr x)"

lemma calm_healthy:
  assumes "calm m"
  shows "fst (State now m) = S3StateHealthy"
proof -
  have "\<forall>x \<in> set (smSamples (truncateLocked now m)). smLatency x = 0 \<and> \<not> smErr x"
    using assms by (auto simp: calm_def truncate_drop dest: in_set_dropD)
  moreover have "total_latency xs = 0" if "\<forall>x \<in> set xs. smLatency x = 0" for xs
    using that by (induction xs) (auto simp: total_latency_def i64_id in_i64_def)
  moreover have "float_div 0 n = 0" for n by (simp add: float_div_def Let_def round_even_def)
  ultimately show ?thesis
    using assms by (simp add: State_def Let_def recompute_state classify_def calm_def error_count_def
      default_cfg_def demo_health_def goDiv_def second_def millisecond_def cong: if_cong) 
qed

lemma calm_stable: "health_kept local_services calm"
  by (auto simp: health_kept_def calm_def State_def RecordOperation_def Let_def truncate_drop timeSub_def dest!: in_set_dropD)

lemma segment_sizes:
  assumes "log_ok segs idx ok l G" "s \<in> set (plSegments l)"
  shows "srSize s \<le> 48 + int (length (concat (map rbBytes (concat G))))"
proof -
  obtain i where i: "i < length G" "s = plSegments l ! i"
    using assms by (metis in_set_conv_nth list_all2_lengthD log_inv_def log_ok_def)
  from log_ok_nth(2) [OF assms(1) i(1)] i(2) obtain t a where "BuildSegment (pcSegment (plCfg l)) (G ! i) t = Ok a"
    "srSize s = int (length (saSegmentBytes a))" by (auto simp: seg_stored_def)
  with BuildSegment_size have "srSize s = 48 + int (length (concat (map rbBytes (G ! i))))" by fastforce
  moreover have "length (concat (map rbBytes (G ! i))) \<le> length (concat (map rbBytes (concat G)))"
    using i(1) by (subst (2) id_take_nth_drop [OF i(1)]) simp
  ultimately show ?thesis by simp
qed

lemma open_broker_ok:
  "broker_wf mem_ok ''default'' open_broker" "map_of (hLogs open_broker) (''t'', 0) = Some open_plog"
  "mem_log_ok (attach open_broker open_plog) []" "plHasOnFlush open_plog" "plNextOffset open_plog = 0" "wbBatches (plBuffer open_plog) = []"
  "fst (State (svClock local_services (hCalls open_broker) 0) (hHealth open_broker)) = S3StateHealthy"
  "hFlushOnAck open_broker" "calm (hHealth open_broker)" "topicHasPartition (cmTopics (msState (hStore open_broker))) ''t'' 0"
proof -
  obtain n where n: "hCache idle_broker = NewSegmentCache n" using idle_fields by blast
  then have "cache_fresh open_plog"
    by (simp add: cache_fresh_def open_plog_def NewPartitionLog_def)
  then have "mem_log_ok open_plog []" by (intro log_ok_New [OF open_plog_def]) simp_all
  moreover have "attach open_broker open_plog = open_plog"
    by (simp add: attach_def open_broker_def open_plog_def NewPartitionLog_def idle_fields)
  ultimately show "mem_log_ok (attach open_broker open_plog) []" by simp
  show "broker_wf mem_ok ''default'' open_broker"
    by (simp add: broker_wf_def open_broker_def idle_fields n open_plog_def NewPartitionLog_def log_named_def plain_elem_def)
  show "plHasOnFlush open_plog" "plNextOffset open_plog = 0" "wbBatches (plBuffer open_plog) = []" "map_of (hLogs open_broker) (''t'', 0) = Some open_plog"
    by (simp_all add: open_plog_def NewPartitionLog_def NewWriteBuffer_def open_broker_def)
  show "calm (hHealth open_broker)" by (simp add: open_broker_def idle_fields calm_def NewS3HealthMonitor_def)
  then show "fst (State (svClock local_services (hCalls open_broker) 0) (hHealth open_broker)) = S3StateHealthy" by (rule calm_healthy)
  show "hFlushOnAck open_broker" by (simp add: open_broker_def idle_fields)
  have "hStore open_broker = demo_store" using idle_fields(3) by (simp add: open_broker_def hStore_def)
  then show "topicHasPartition (cmTopics (msState (hStore open_broker))) ''t'' 0"
    by (simp add: demo_store_def NewInMemoryStore_def cloneMetadata_def metadataForBroker_def demo_topic_def new_partition_def cloneTopics_def)
qed


lemma demo_produce_facts:
  "(''t'', 0) = (''t'', ppPartition demo_produce)" "NewRecordBatchFromBytes (or_nil (ppRecords demo_produce)) = Ok demo_record_batch"
  "0 \<le> rbLastOffsetDelta demo_record_batch" "plNextOffset open_plog + 2 ^ 31 < 2 ^ 63" "(1::int) \<noteq> 0" "ppPartition demo_produce = 0"
  using demo_parse by (simp_all add: demo_produce_def open_broker_ok or_nil_def, simp_all add: demo_record_batch_def)

lemma demo_delta: "rbLastOffsetDelta demo_record_batch = 1" "hCalls open_broker = 0"
  by (simp_all add: demo_record_batch_def open_broker_def idle_fields)

lemma demo_produced:
  obtains resp b1 where "produce_one local_services 1 0 ''t'' demo_produce open_broker = Some (Ok resp, b1)" "pprErrorCode resp = 0"
    "fst (State 0 (hHealth b1)) = S3StateHealthy"
    "\<forall>l. map_of (hLogs b1) (''t'', 0) = Some l \<longrightarrow> (\<forall>s \<in> set (plSegments l). srSize s < 2 ^ 31)"
    "pprBaseOffset resp = 0"
    "\<exists>d b2. fetch_partition_data local_services ''t'' 0 demo_fetch b1 = Some (Ok (fetch_result 0 0 2 (Some d)), b2) \<and> hCalls b2 \<le> 20"
proof -
  note p = demo_produce_facts
  from memb.produce_live [OF open_broker_ok(1-4) p(1,4,2,3,5) open_broker_ok(8,7), of 0] obtain resp b1 where
    r: "produce_one local_services 1 0 ''t'' demo_produce open_broker = Some (Ok resp, b1)" "pprErrorCode resp = 0" "calm (hHealth b1)"
      "msState (hStore b1) = msState (hStore open_broker)" "map_of (msOffsets (hStore b1)) (partitionKey ''t'' 0) = Some 2"
      "hCalls b1 \<le> 10"
    unfolding open_broker_ok p(6) demo_delta using calm_stable open_broker_ok(9) by auto
  from memb.produce_acked [OF open_broker_ok(1-3) p(1,4,2,3,5) open_broker_ok(8) r(1,2)] obtain l1 G1 where
    l1: "map_of (hLogs b1) (''t'', 0) = Some l1" "mem_log_ok (attach b1 l1) G1" "concat G1 = [patched demo_record_batch 0]"
      "broker_wf mem_ok ''default'' b1" "pprBaseOffset resp = 0"
    by (auto simp: open_broker_ok)
  have "srSize s < 2 ^ 31" if "s \<in> set (plSegments l1)" for s
    using segment_sizes [OF l1(2), of s] that l1(3) by (simp add: patched_def demo_record_batch_def demo_records_def)
  then have sizes: "\<forall>l. map_of (hLogs b1) (''t'', 0) = Some l \<longrightarrow> (\<forall>s \<in> set (plSegments l). srSize s < 2 ^ 31)"
    using l1(1) by simp
  have "patched demo_record_batch 0 \<in> set (concat G1)" using l1(3) by simp
  then obtain i where i: "i < length G1" "patched demo_record_batch 0 \<in> set (G1 ! i)" by (auto simp: in_set_conv_nth) metis
  have "plSegments l1 ! i \<in> set (plSegments l1)" using log_ok_nth(1) [OF l1(2) i(1)] by simp
  then have size: "srSize (plSegments l1 ! i) < 2 ^ 31" using sizes l1(1) by blast
  have q: "(''t'', 0) = (''t'', fpPartition demo_fetch)" "NextOffset False ''t'' (fpPartition demo_fetch) (hStore b1) = (Ok 2, hStore b1)"
    "fpFetchOffset demo_fetch < 2" "in_i32 (fpMaxBytes demo_fetch)"
    "rbBaseOffset (patched demo_record_batch 0) \<le> fpFetchOffset demo_fetch"
    "fpFetchOffset demo_fetch \<le> rbBaseOffset (patched demo_record_batch 0) + rbLastOffsetDelta (patched demo_record_batch 0)"
    using r(4,5) open_broker_ok(10)
    by (simp_all add: demo_fetch_def in_i32_def NextOffset_def get_or_def patched_def demo_record_batch_def)
  have "fst (State (svClock local_services (hCalls b1) 0) (hHealth b1)) = S3StateHealthy" using calm_healthy [OF r(3)] by simp
  from memb.fetch_live [OF l1(4,1,2) q(1) this q(2,3) i q(5,6) size q(4), of 0] r(6)
  have "\<exists>d b2. fetch_partition_data local_services ''t'' 0 demo_fetch b1 = Some (Ok (fetch_result 0 0 2 (Some d)), b2) \<and> hCalls b2 \<le> 20"
    by (fastforce simp: demo_fetch_def)
  from that [OF r(1,2) calm_healthy [OF r(3)] sizes l1(5) this] show thesis .
qed




end
