(* ===== verification/Broker_Behaviour.thy ===== *)
theory Broker_Behaviour
  imports Broker_Liveness
begin

text \<open>
  Single properties of the handler: when the opening of a partition log comes to an end, what a
  broker does when it must refuse, the shape of its answers, and what record sets with a negative
  last-offset delta do to a log.
\<close>

section \<open>Opening a log\<close>

lemma topicHasPartition_exists: "topicHasPartition ts t p \<Longrightarrow> list_ex (\<lambda>x. mtName x = t) ts"
  by (induction ts t p rule: topicHasPartition.induct) (auto split: if_splits)

lemma topicHasPartition_append:
  "\<not> list_ex (\<lambda>x. mtName x = t) ts \<Longrightarrow> topicHasPartition (ts @ us) t p = topicHasPartition us t p"
  by (induction ts) auto

lemma open_log_returns: "\<exists>y. open_log E t p n b = Some y"
proof -
  let ?l = "NewPartitionLog (hS3Namespace b) t p n (hS3 b) (Some (hCache b)) (hLogConfig b) True True (svClock E (hCalls b) 0)"
  obtain r l1 b1 where "run_log E (RestoreFromS3 (svS3 E)) ?l (next_call b) = (r, l1, b1)" by (metis prod_cases3)
  then show ?thesis
    by (cases r) (auto simp: open_log_def Let_def abind_def atry_def aret_def on_store_def split: prod.splits outcome.splits)
qed

text \<open>The partition count of a topic that is created for a partition.\<close>

definition desired :: "('m, 's) broker \<Rightarrow> int \<Rightarrow> int" where
  "desired b p = (if hAutoCreatePartitions b < i32 (p + 1) then i32 (p + 1) else hAutoCreatePartitions b)"

text \<open>A request for a partition that its topic does not have, or will not have once it is created.\<close>

definition cannot_open :: "string \<Rightarrow> int \<Rightarrow> (mem_store, 's) broker \<Rightarrow> bool" where
  "cannot_open t p b \<longleftrightarrow> (let st = msState (hStore b); known = list_ex (\<lambda>x. mtName x = t) (cmTopics st) in
     map_of (hLogs b) (t, p) = None \<and> hAutoCreateTopics b \<and> t \<noteq> [] \<and> \<not> topicHasPartition (cmTopics st) t p \<and>
     (known \<or> cmBrokers st \<noteq> [] \<and> \<not> (0 \<le> p \<and> p < desired b p)))"

lemma partition_created:
  "list_ex (\<lambda>x. mpPartitionIndex x = p) (map (new_partition i) [0..n - 1]) \<longleftrightarrow> 0 \<le> p \<and> p < n"
  by (auto simp: list_ex_iff new_partition_def)

locale memory_services =
  fixes E :: "(mem_store, 's) services"
  assumes ops: "svStore E = mem_ops" "svCreateTopic E = CreateTopic" "svDone E = (\<lambda>_. False)"
begin

lemma lookup_memory:
  "after_lookup E t p b = (if topicHasPartition (cmTopics (msState (hStore b))) t p
     then (Ok (get_or 0 (msOffsets (hStore b)) (partitionKey t p)), next_call b) else (Err ErrUnknownTopic, next_call b))"
  by (simp add: after_lookup_def ops mem_ops_def NextOffset_def set_store_def hStore_def)

text \<open>What \<open>ensureTopic\<close> does for a partition that was not found.\<close>

lemma ensure_memory:
  assumes auto: "1 \<le> hAutoCreatePartitions b"
  obtains (invalid) e b' where "ensureTopic E t p b = Some (Err e, b')"
      "t = [] \<or> \<not> list_ex (\<lambda>x. mtName x = t) (cmTopics (msState (hStore b))) \<and> cmBrokers (msState (hStore b)) = []"
  | (known) b' where "ensureTopic E t p b = Some (Ok (), b')" "t \<noteq> []" "list_ex (\<lambda>x. mtName x = t) (cmTopics (msState (hStore b)))"
      "b' = next_call b"
  | (created) b' x where "ensureTopic E t p b = Some (Ok (), b')" "t \<noteq> []" "cmBrokers (msState (hStore b)) \<noteq> []"
      "\<not> list_ex (\<lambda>x. mtName x = t) (cmTopics (msState (hStore b)))"
      "cmTopics (msState (hStore b')) = cmTopics (msState (hStore b)) @ [x]" "mtName x = t"
      "mtPartitions x = map (new_partition (defaultLeaderID (hStore b))) [0..desired b p - 1]"
      "hLogs b' = hLogs b" "hAutoCreateTopics b' = hAutoCreateTopics b" "hAutoCreatePartitions b' = hAutoCreatePartitions b"
proof -
  let ?s = "\<lparr>tsName = t, tsNumPartitions = desired b p, tsReplicationFactor = 1\<rparr>"
  have d: "1 \<le> desired b p" using auto by (simp add: desired_def)
  have en: "ensureTopic E t p b = abind (atry (on_store E (\<lambda>ctx now. CreateTopic ctx ?s now)))
      (\<lambda>r. case r of Inl e \<Rightarrow> if errors_Is e ErrTopicExists then aret () else afail e | Inr _ \<Rightarrow> aret ()) b"
    by (simp add: ensureTopic_def Let_def desired_def ops)
  consider "t = [] \<or> \<not> list_ex (\<lambda>x. mtName x = t) (cmTopics (msState (hStore b))) \<and> cmBrokers (msState (hStore b)) = []"
    | "t \<noteq> []" "list_ex (\<lambda>x. mtName x = t) (cmTopics (msState (hStore b)))"
    | "t \<noteq> []" "\<not> list_ex (\<lambda>x. mtName x = t) (cmTopics (msState (hStore b)))" "cmBrokers (msState (hStore b)) \<noteq> []" by blast
  then show thesis
  proof cases
    case 1
    with en d invalid show thesis
      by (auto simp: abind_def atry_def on_store_def ops CreateTopic_def aret_def afail_def)
  next
    case 2
    with en d known show thesis
      by (simp add: abind_def atry_def on_store_def ops CreateTopic_def aret_def set_store_def hStore_def)
  next
    case 3
    with en d created show thesis
      by (cases "cmBrokers (msState (hStore b))")
        (simp_all add: abind_def atry_def on_store_def ops CreateTopic_def aret_def set_store_def hStore_def Let_def next_call_def)
  qed
qed

lemma next_call_same [simp]:
  "hStore (next_call b) = hStore b" "hLogs (next_call b) = hLogs b" "hAutoCreateTopics (next_call b) = hAutoCreateTopics b"
  "hAutoCreatePartitions (next_call b) = hAutoCreatePartitions b" "cannot_open t p (next_call b) = cannot_open t p b"
  "desired (next_call b) p = desired b p"
  by (simp_all add: next_call_def hStore_def cannot_open_def desired_def)

lemma never_opened:
  assumes "getPartitionLog E t p b = Some y"
  shows "1 \<le> hAutoCreatePartitions b \<longrightarrow> \<not> cannot_open t p b"
  using assms
proof (induction rule: getPartitionLog_induct)
  case (found b l)
  then show ?case by (simp add: cannot_open_def)
next
  case (lookup b r b1 y)
  show ?case
  proof (intro impI notI)
    assume b: "1 \<le> hAutoCreatePartitions b" "cannot_open t p b"
    with lookup(2) have r: "r = Err ErrUnknownTopic" "b1 = next_call b" by (auto simp: lookup_memory cannot_open_def Let_def)
    with lookup(4) b(2) obtain q b2 where q: "ensureTopic E t p b1 = Some (q, b2)" "\<forall>u. q \<noteq> Ok u"
      by (auto simp: cannot_open_def Let_def)
    have "1 \<le> hAutoCreatePartitions b1" using b(1) r(2) by simp
    then show False
      by (rule ensure_memory [of b1 t p]) (use b(2) q r in \<open>auto simp: cannot_open_def Let_def\<close>)
  qed
next
  case (again b e b1 b2 y)
  have "cannot_open t p b2 \<and> 1 \<le> hAutoCreatePartitions b2" if b: "1 \<le> hAutoCreatePartitions b" "cannot_open t p b"
  proof -
    have b1: "b1 = next_call b" using again(2) b(2) by (auto simp: lookup_memory cannot_open_def Let_def)
    then have "1 \<le> hAutoCreatePartitions b1" using b(1) by simp
    then show ?thesis
    proof (cases rule: ensure_memory [of b1 t p, consumes 1, case_names invalid known created])
      case (known b')
      with again(5) b b1 show ?thesis by simp
    next
      case (created b' x)
      have "\<not> topicHasPartition (cmTopics (msState (hStore b'))) t p"
        using created b(2) b1 by (auto simp: topicHasPartition_append partition_created cannot_open_def Let_def desired_def)
      moreover have "b' = b2" using created(1) again(5) by simp
      ultimately show ?thesis using created b b1 by (auto simp: cannot_open_def Let_def)
    qed (use again(5) in simp)
  qed
  with again(6) show ?case by blast
qed

lemma opened:
  assumes b: "1 \<le> hAutoCreatePartitions b" "\<not> cannot_open t p b"
  shows "\<exists>y. getPartitionLog E t p b = Some y"
proof (cases "map_of (hLogs b) (t, p)")
  case None
  have found: "\<exists>y. getPartitionLog E t p b' = Some y" if "topicHasPartition (cmTopics (msState (hStore b'))) t p" for b'
    using that open_log_returns
    by (cases "map_of (hLogs b') (t, p)") (simp_all add: getPartitionLog_unfold [of E t p b'] lookup_memory)
  show ?thesis
  proof (cases "topicHasPartition (cmTopics (msState (hStore b))) t p \<or> \<not> hAutoCreateTopics b")
    case True
    with found [of b] None show ?thesis 
      by (cases "hAutoCreateTopics b") (auto simp: getPartitionLog_unfold [of E t p b] lookup_memory)
  next
    case False
    then have unf: "getPartitionLog E t p b = abind (ensureTopic E t p) (\<lambda>_. getPartitionLog E t p) (next_call b)"
      using None by (subst getPartitionLog_unfold) (simp add: lookup_memory)
    have "1 \<le> hAutoCreatePartitions (next_call b)" using b(1) by simp
    then show ?thesis
    proof (cases rule: ensure_memory [of "next_call b" t p, consumes 1, case_names invalid known created])
      case (invalid e b')
      then show ?thesis by (simp add: unf abind_def)
    next
      case (known b')
      with None False b(2) show ?thesis by (simp add: cannot_open_def Let_def)
    next
      case (created b' x)
      with None False b(2) have "0 \<le> p \<and> p < desired b p" by (simp add: cannot_open_def Let_def)
      with created have "topicHasPartition (cmTopics (msState (hStore b'))) t p"
        by (simp add: topicHasPartition_append partition_created)
      from found [OF this] created(1) show ?thesis by (simp add: unf abind_def)
    qed
  qed
qed (subst getPartitionLog_unfold, simp)

end

interpretation mems: memory_services local_services
  by unfold_locales simp_all

text \<open>
  C16: over the in-memory store and without cancellation, opening the log of a partition comes to an
  end unless automatic topic creation is on and the topic does not get the partition: because it
  exists without it, or because the created topic does not reach it. A request for such a
  partition makes the broker loop for ever, since the topic that exists already counts as
  created.
\<close>

theorem getPartitionLog_returns:
  assumes "svStore E = mem_ops" "svCreateTopic E = CreateTopic" "svDone E = (\<lambda>_. False)" "1 \<le> hAutoCreatePartitions b"
  shows "(\<exists>y. getPartitionLog E t p b = Some y) \<longleftrightarrow>
    (let st = msState (hStore b); count = (if hAutoCreatePartitions b < i32 (p + 1) then i32 (p + 1) else hAutoCreatePartitions b) in
     map_of (hLogs b) (t, p) \<noteq> None \<or> \<not> hAutoCreateTopics b \<or> t = [] \<or> topicHasPartition (cmTopics st) t p \<or>
     (\<not> list_ex (\<lambda>x. mtName x = t) (cmTopics st) \<and> (cmBrokers st = [] \<or> 0 \<le> p \<and> p < count)))"
proof -
  have "memory_services E" using assms(1-3) by unfold_locales
  from memory_services.never_opened [OF this] memory_services.opened [OF this assms(4)]
  have "(\<exists>y. getPartitionLog E t p b = Some y) \<longleftrightarrow> \<not> cannot_open t p b" using assms(4) by blast
  then show ?thesis by (auto simp: cannot_open_def Let_def desired_def)
qed

lemma open_broker_auto: "hAutoCreateTopics open_broker" "hAutoCreatePartitions open_broker = 1"
  by (simp_all add: open_broker_def idle_broker_def newHandler_def Let_def parseEnvBool_def parseEnvInt32_def env_int_def
    TrimSpace_def ToLower_def)

lemma open_broker_topics: "cmTopics (msState (hStore open_broker)) = [demo_topic]"
  using idle_fields(3) by (simp add: open_broker_def hStore_def demo_store_def NewInMemoryStore_def cloneMetadata_def
    metadataForBroker_def demo_topic_def cloneTopics_def zero_id_def numeral_eq_Suc)

theorem getPartitionLog_returns_witness: "getPartitionLog local_services ''t'' 5 open_broker = None"
proof -
  have "map_of (hLogs open_broker) (''t'', 5) = None" by (simp add: open_broker_def)
  moreover have "\<not> topicHasPartition (cmTopics (msState (hStore open_broker))) ''t'' 5"
    "list_ex (\<lambda>x. mtName x = ''t'') (cmTopics (msState (hStore open_broker)))"
    unfolding open_broker_topics by (simp_all add: demo_topic_def new_partition_def)
  ultimately have "\<nexists>y. getPartitionLog local_services ''t'' 5 open_broker = Some y"
    using getPartitionLog_returns [of local_services open_broker "''t''" 5] open_broker_auto by (simp add: Let_def)
  then show ?thesis by (cases "getPartitionLog local_services ''t'' 5 open_broker") auto
qed

section \<open>Refusals\<close>

text \<open>
  C17: a broker whose metadata store is unavailable, or whose object store is not healthy, answers
  the records of a partition with an error and leaves the logs, the objects, the cache and the
  metadata as they are: nothing of a refused record set is kept.
\<close>

theorem produce_refused:
  assumes "\<not> etcdAvailable E b \<or> fst (State (svClock E (hCalls b) 0) (hHealth b)) \<noteq> S3StateHealthy"
  shows "\<exists>code b'. produce_one E acks now t p b = Some (Ok (produce_error (ppPartition p) code), b') \<and> code \<noteq> 0 \<and>
    hLogs b' = hLogs b \<and> hS3 b' = hS3 b \<and> hCache b' = hCache b \<and> hCoordinator b' = hCoordinator b"
proof (cases "etcdAvailable E b")
  case True
  with assms show ?thesis
    by (auto simp: produce_one_def Let_def abind_def aret_def health_state_def produce_backpressure_def backpressureErrorCode_def
      handler_codes next_call_def split: prod.splits s3_state.splits)
qed (auto simp: produce_one_def aret_def handler_codes)

theorem produce_refused_witness:
  "\<exists>code b'. produce_one (local_services\<lparr>svAvailable := (\<lambda>_. False)\<rparr>) 1 0 ''t'' demo_produce open_broker =
     Some (Ok (produce_error 0 code), b') \<and> code \<noteq> 0 \<and> hLogs b' = hLogs open_broker"
  using produce_refused [of "local_services\<lparr>svAvailable := (\<lambda>_. False)\<rparr>" open_broker 1 0 "''t''" demo_produce]
  by (auto simp: etcdAvailable_def demo_produce_facts)

section \<open>The shape of the answers\<close>

text \<open>What an action returns, whatever it does to the state.\<close>

abbreviation yields :: "('b, 'a) act \<Rightarrow> ('a \<Rightarrow> bool) \<Rightarrow> bool" where
  "yields \<equiv> ensures (\<lambda>_. True) (\<lambda>_ _. True)"

interpretation results: act_logic "\<lambda>_. True" "\<lambda>_ _. True"
  by unfold_locales

lemma yields_any: "yields m (\<lambda>_. True)"
  by (simp add: ensures_def after_def)

lemmas yields_seq = results.keeps_seq [OF yields_any]

lemma yieldsD: "yields m Q \<Longrightarrow> m b = Some (Ok x, b') \<Longrightarrow> Q x"
  unfolding ensures_def after_def by blast

lemma yields_amap:
  assumes "\<And>x. yields (f x) (R x)"
  shows "yields (amap f xs) (list_all2 R xs)"
  by (induction xs) (auto intro!: results.keeps_ret results.keeps_bind [OF assms] intro: results.keeps_bind)

lemma produce_backpressure_yields: "yields (produce_backpressure E part) (\<lambda>r. pprPartition r = part)"
  unfolding produce_backpressure_def by (rule yields_seq) (simp add: results.keeps_ret produce_error_def)

lemma produce_append_yields: "yields (produce_append E acks now part batch l) (\<lambda>r. pprPartition r = part)"
  unfolding produce_append_def
  by (rule yields_seq) (auto intro!: yields_seq results.keeps_ret produce_backpressure_yields split: sum.splits)

lemma produce_one_yields: "yields (produce_one E acks now t p) (\<lambda>r. pprPartition r = ppPartition p)"
proof (rule ensuresI)
  fix b
  have "yields (abind (health_state E) (\<lambda>st. if st \<noteq> S3StateHealthy then produce_backpressure E (ppPartition p)
        else abind (atry (getPartitionLog E t (ppPartition p))) (\<lambda>r.
          case r of
            Inl e \<Rightarrow> aret (produce_error (ppPartition p) UNKNOWN_SERVER_ERROR)
          | Inr plog \<Rightarrow>
              (case NewRecordBatchFromBytes (or_nil (ppRecords p)) of
                 Ok batch \<Rightarrow> produce_append E acks now (ppPartition p) batch plog
               | Err e \<Rightarrow> aret (produce_error (ppPartition p) UNKNOWN_SERVER_ERROR)
               | Panic \<Rightarrow> aout Panic)))) (\<lambda>r. pprPartition r = ppPartition p)"
    by (rule yields_seq) (auto intro!: yields_seq results.keeps_ret results.keeps_out produce_backpressure_yields produce_append_yields
      simp: produce_error_def split: sum.splits outcome.splits)
  from ensures_after [OF this, of b]
  show "after (\<lambda>_. True) (\<lambda>_ _. True) b (produce_one E acks now t p b) (\<lambda>r. pprPartition r = ppPartition p)"
    by (simp add: produce_one_def Let_def aret_def produce_error_def results.after_Some)
qed

lemma list_all2_map_eq: "list_all2 (\<lambda>x y. f y = g x) xs ys \<longleftrightarrow> map f ys = map g xs"
  by (induction xs arbitrary: ys) (auto simp: list_all2_Cons1 Cons_eq_map_conv)

abbreviation same_partitions :: "produce_topic \<Rightarrow> produce_topic_response \<Rightarrow> bool" where
  "same_partitions t r \<equiv> ptrName r = ptName t \<and> map pprPartition (ptrPartitions r) = map ppPartition (ptPartitions t)"

lemma produce_topic_yields: "yields (produce_one_topic E acks now t) (same_partitions t)"
  unfolding produce_one_topic_def
  by (rule results.keeps_bind [OF yields_amap [OF produce_one_yields]]) (simp add: results.keeps_ret list_all2_map_eq)

text \<open>
  C18: a produce request that asks for no acknowledgement is never answered. Any other is answered
  with exactly the topics and partitions it has, in its order.
\<close>

theorem produce_answer:
  assumes "handleProduce E h req b = Some (Ok answer, b')"
  shows "if prAcks req = 0 then answer = None
    else \<exists>ts bs. answer = Some bs \<and> EncodeProduceResponse \<lparr>prrCorrelationID = rhCorrelationID h, prrTopics = ts, prrThrottleMs = 0\<rparr>
        (rhAPIVersion h) = Ok bs \<and>
      list_all2 (\<lambda>t r. ptrName r = ptName t \<and> map pprPartition (ptrPartitions r) = map ppPartition (ptPartitions t)) (prTopics req) ts"
proof -
  from assms obtain ts b1 where ts: "amap (produce_one_topic E (prAcks req) (unixMilli (svClock E (hCalls b) 0))) (prTopics req)
      (next_call b) = Some (Ok ts, b1)" and
    rest: "(if prAcks req = 0 then aret None else abind (aout (EncodeProduceResponse
        \<lparr>prrCorrelationID = rhCorrelationID h, prrTopics = ts, prrThrottleMs = 0\<rparr> (rhAPIVersion h))) (\<lambda>bs. aret (Some bs))) b1 = Some (Ok answer, b')"
    unfolding handleProduce_def Let_def abind_def [of "amap _ _"] by (auto split: option.splits prod.splits outcome.splits)
  from yieldsD [OF yields_amap [OF produce_topic_yields] ts] have "list_all2 same_partitions (prTopics req) ts" .
  with rest show ?thesis by (auto simp: abind_def aret_def aout_def split: outcome.splits if_splits)
qed

theorem produce_answer_witness:
  "\<exists>b'. handleProduce local_services \<lparr>rhAPIKey = 0, rhAPIVersion = 3, rhCorrelationID = 7, rhClientID = None\<rparr>
      \<lparr>prAcks = 0, prTimeoutMs = 0, prTransactionalID = None, prTopics = []\<rparr> open_broker = Some (Ok None, b')"
  using produce_answer [of local_services "\<lparr>rhAPIKey = 0, rhAPIVersion = 3, rhCorrelationID = 7, rhClientID = None\<rparr>"
      "\<lparr>prAcks = 0, prTimeoutMs = 0, prTransactionalID = None, prTopics = []\<rparr>" open_broker None "next_call open_broker"]
  by (simp add: handleProduce_def Let_def abind_def aret_def)

section \<open>Record sets with a negative last-offset delta\<close>

lemma next_offset_kept [simp]: "plNextOffset (startPrefetch i l) = plNextOffset l" "plNextOffset (cache_set i d l) = plNextOffset l"
  by (simp_all add: startPrefetch_def cache_set_def split: option.splits prod.splits)

lemma flushLocked_next: "flushLocked ops clk l = (Ok x, l') \<Longrightarrow> plNextOffset l' = plNextOffset l"
  by (auto simp: flushLocked_def Let_def callS3Op_def split: prod.splits if_splits outcome.splits)

lemma AppendBatch_next:
  assumes "AppendBatch ops clk b l = (Ok res, l')"
  shows "arBaseOffset res = plNextOffset l \<and> plNextOffset l' = i64 (plNextOffset l + rbLastOffsetDelta b + 1)"
  using assms by (auto simp: AppendBatch_def PatchRecordBatchBaseOffset_def Let_def callFlush_def dest!: flushLocked_next
    split: prod.splits if_splits outcome.splits option.splits)


lemma append_buffered:
  assumes "wbCfg (plBuffer l) = pcBuffer demo_cfg" "8 \<le> length (rbBytes b)"
  shows "\<exists>res l1. AppendBatch ops clk b l = (Ok res, l1) \<and> wbCfg (plBuffer l1) = pcBuffer demo_cfg"
proof -
  have "\<not> ShouldFlush (bufAppend x (plBuffer l)) t" "wbCfg (bufAppend x (plBuffer l)) = wbCfg (plBuffer l)" for x t
    using assms(1) by (simp_all add: ShouldFlush_def bufAppend_def demo_cfg_def)
  with assms show ?thesis by (simp add: AppendBatch_def PatchRecordBatchBaseOffset_def Let_def)
qed


end
