(* ===== verification/Segment_Decoder.thy ===== *)
theory Segment_Decoder
  imports Log_Restore Wire_Codec
begin

text \<open>
  The segment decoders of the processors
  (\<open>addons/processors/sql-processor/internal/decoder/decoder.go\<close> and
  \<open>addons/processors/iceberg-processor/internal/decoder/decoder.go\<close>), which read the objects the
  broker has written. Both have the same structure and differ in how they read a varint: with 32
  bits and an arithmetic shift, or with 64 bits. The steps they share take the reader as an
  argument.

  The lemmas give the round trip with the record format of the clients, the segment a partition log
  stores is decoded to the records with the offsets they were acknowledged with, and show where
  the two decoders disagree.
\<close>

unbundle bit_operations_syntax

section \<open>Readers of the standard library\<close>

definition ReadByte :: "byte reader" where
  "ReadByte bs = (case bs of [] \<Rightarrow> Err ErrEOF | b # bs \<Rightarrow> Ok (b, bs))"

text \<open>\<open>io.ReadFull\<close> into a slice of \<open>n\<close> bytes.\<close>

definition ReadFull :: "nat \<Rightarrow> bytes reader" where
  "ReadFull n bs =
     (if n \<le> length bs then Ok (take n bs, drop n bs) else Err (if bs = [] then ErrEOF else ErrUnexpectedEOF))"

text \<open>\<open>make\<close> panics on a negative length and on one beyond the address space.\<close>

definition maxAlloc :: int where "maxAlloc = 2 ^ 48"

definition make_ok :: "int \<Rightarrow> int \<Rightarrow> bool" where
  "make_ok elem n \<longleftrightarrow> 0 \<le> n \<and> elem * n \<le> maxAlloc"

section \<open>Records\<close>

record kheader =
  hdKey :: string
  hdValue :: "bytes option"

record krecord =
  rcTopic :: string
  rcPartition :: int
  rcOffset :: int
  rcTimestamp :: int
  rcKey :: "bytes option"
  rcValue :: "bytes option"
  rcHeaders :: "kheader list"

section \<open>Varints\<close>

text \<open>The loop over the bytes of a varint; a decoder fixes the width of the accumulator and the largest
  shift.\<close>

fun varint_loop :: "nat \<Rightarrow> string \<Rightarrow> nat \<Rightarrow> 'a::len word \<Rightarrow> 'a word reader" where
  "varint_loop lim msg shift value [] = Err ErrEOF"
| "varint_loop lim msg shift value (b # bs) =
     (let value = value OR push_bit shift (ucast (b AND 0x7f)) in
      if b AND 0x80 = 0 then Ok (value, bs)
      else if shift + 7 > lim then Err (ErrText msg)
      else varint_loop lim msg (shift + 7) value bs)"

text \<open>The decoder of the SQL processor accumulates an \<open>int32\<close> and shifts it with its sign.\<close>

definition zigZagDecode :: "32 word \<Rightarrow> 32 word" where
  "zigZagDecode value = signed_drop_bit 1 value XOR - (value AND 1)"

definition readVarint :: "int reader" where
  "readVarint = rbind (varint_loop 28 ''varint too long'' 0 0) (\<lambda>value. rret (sint (zigZagDecode value)))"

definition readNullableBytes :: "int \<Rightarrow> bytes option reader" where
  "readNullableBytes len =
     (if len < 0 then rret None else rbind (ReadFull (nat len)) (\<lambda>data. rret (Some data)))"

text \<open>The decoder of the Iceberg processor accumulates a \<open>uint64\<close>.\<close>

definition decodeZigZag :: "64 word \<Rightarrow> 64 word" where
  "decodeZigZag value = (if value AND 1 = 0 then drop_bit 1 value else - (drop_bit 1 value + 1))"

definition iceberg_readVarint :: "int reader" where
  "iceberg_readVarint = rbind (varint_loop 63 ''varint overflow'' 0 0) (\<lambda>value. rret (sint (decodeZigZag value)))"

definition iceberg_readNullableBytes :: "int \<Rightarrow> bytes option reader" where
  "iceberg_readNullableBytes len =
     (if len < 0 then rret None
      else if len = 0 then rret (Some [])
      else if \<not> make_ok 1 len then rpanic
      else rbind (ReadFull (nat len)) (\<lambda>data. rret (Some data)))"

section \<open>Decoding\<close>

text \<open>What the decoders differ in: the reader of a varint and of a nullable byte string.\<close>

record record_reader =
  rdVarint :: "int reader"
  rdBytes :: "int \<Rightarrow> bytes option reader"

definition sql_reader :: record_reader where
  "sql_reader = \<lparr>rdVarint = readVarint, rdBytes = readNullableBytes\<rparr>"

definition iceberg_reader :: record_reader where
  "iceberg_reader = \<lparr>rdVarint = iceberg_readVarint, rdBytes = iceberg_readNullableBytes\<rparr>"

definition read_sized :: "record_reader \<Rightarrow> bytes option reader" where
  "read_sized R = rbind (rdVarint R) (rdBytes R)"

definition decode_header :: "record_reader \<Rightarrow> kheader reader" where
  "decode_header R =
     rbind (read_sized R) (\<lambda>key. rbind (read_sized R) (\<lambda>val.
       rret \<lparr>hdKey = (case key of None \<Rightarrow> [] | Some k \<Rightarrow> string_of_bytes k), hdValue = val\<rparr>))"

text \<open>The fields of a record, from its own bytes. The slice of headers is made with the count that was read; a
  header takes 40 bytes.\<close>

definition decode_fields :: "record_reader \<Rightarrow> int \<Rightarrow> int \<Rightarrow> string \<Rightarrow> int \<Rightarrow> krecord reader" where
  "decode_fields R baseOffset baseTimestamp topic part =
     rbind ReadByte (\<lambda>_.
     rbind (rdVarint R) (\<lambda>timestampDelta.
     rbind (rdVarint R) (\<lambda>offsetDelta.
     rbind (read_sized R) (\<lambda>key.
     rbind (read_sized R) (\<lambda>val.
     rbind (rdVarint R) (\<lambda>headerCount.
       if \<not> make_ok 40 headerCount then rpanic
       else rbind (rmany (nat headerCount) (decode_header R)) (\<lambda>headers.
         rret \<lparr>rcTopic = topic, rcPartition = part, rcOffset = i64 (baseOffset + offsetDelta),
               rcTimestamp = i64 (baseTimestamp + timestampDelta), rcKey = key, rcValue = val, rcHeaders = headers\<rparr>)))))))"

definition decodeRecord :: "record_reader \<Rightarrow> int \<Rightarrow> int \<Rightarrow> string \<Rightarrow> int \<Rightarrow> krecord reader" where
  "decodeRecord R baseOffset baseTimestamp topic part =
     rbind (rdVarint R) (\<lambda>len.
       if len < 0 then rfail ''invalid record length''
       else if \<not> make_ok 1 len then rpanic
       else rbind (ReadFull (nat len)) (\<lambda>recordData bs.
         bindO (decode_fields R baseOffset baseTimestamp topic part recordData) (\<lambda>(r, _). Ok (r, bs))))"

definition compressionType :: "int \<Rightarrow> int" where
  "compressionType attributes = attributes AND 0x07"

definition decodeBatchRecords :: "record_reader \<Rightarrow> bytes \<Rightarrow> string \<Rightarrow> int \<Rightarrow> krecord list outcome" where
  "decodeBatchRecords R batch topic part =
     (if length batch < 61 then Err (ErrText ''record batch too small'')
      else if compressionType (i16 (ube (take 2 (drop 21 batch)))) \<noteq> 0
      then Err (ErrText ''compressed batches are not supported'')
      else
        let baseOffset = i64 (u64_at batch 0); firstTimestamp = i64 (u64_at batch 27); recordCount = i32 (u32_at batch 57) in
        if recordCount \<le> 0 then Ok []
        else bindO (rmany (nat recordCount) (decodeRecord R baseOffset firstTimestamp topic part) (drop 61 batch))
               (\<lambda>(records, _). Ok records))"

text \<open>The loop over the frames; the argument is the part of the body behind \<open>offset\<close>.\<close>

function decodeRecordBatches :: "record_reader \<Rightarrow> bytes \<Rightarrow> string \<Rightarrow> int \<Rightarrow> krecord list outcome" where
  "decodeRecordBatches R data topic part =
     (if length data < 12 then Ok []
      else
        let batchLen = nat (u32_at data 8) in
        if batchLen = 0 \<or> length data < 12 + batchLen then Ok []
        else
          bindO (decodeBatchRecords R (take (12 + batchLen) data) topic part) (\<lambda>rs.
          bindO (decodeRecordBatches R (drop (12 + batchLen) data) topic part) (\<lambda>rest. Ok (rs @ rest))))"
  by pat_completeness auto
termination
  by (relation "measure (\<lambda>(R, data, t, p). length data)") auto

declare decodeRecordBatches.simps [simp del]

definition decodeSegment :: "record_reader \<Rightarrow> bytes \<Rightarrow> string \<Rightarrow> int \<Rightarrow> krecord list outcome" where
  "decodeSegment R segment topic part =
     (if length segment < segmentHeaderLen + segmentFooterLen then Err (ErrText ''segment too small'')
      else if take 4 segment \<noteq> segmentMagic then Err (ErrText ''invalid segment magic'')
      else decodeRecordBatches R (take (length segment - segmentFooterLen - segmentHeaderLen) (drop segmentHeaderLen segment))
             topic part)"

fun index_loop :: "nat \<Rightarrow> bytes \<Rightarrow> index_entry list outcome" where
  "index_loop 0 data = Ok []"
| "index_loop (Suc n) data =
     (if length data < 12 then Err (ErrText ''index entry out of bounds'')
      else bindO (index_loop n (drop 12 data)) (\<lambda>es.
        Ok (\<lparr>ieOffset = i64 (u64_at data 0), iePosition = i32 (u32_at data 8)\<rparr> # es)))"

definition sql_parseIndex :: "bytes \<Rightarrow> index_entry list outcome" where
  "sql_parseIndex data =
     (if length data < 16 then Err (ErrText ''index too small'')
      else if take 4 data \<noteq> indexMagic then Err (ErrText ''invalid index magic'')
      else index_loop (nat (u32_at data 6)) (drop 16 data))"

text \<open>The Iceberg processor has a copy of the reader of the broker.\<close>

definition iceberg_parseIndex :: "bytes \<Rightarrow> index_entry list outcome" where
  "iceberg_parseIndex data = ParseIndex data"

text \<open>The Iceberg processor has its own copy of the steps, over its readers.\<close>

definition iceberg_decodeRecord :: "int \<Rightarrow> int \<Rightarrow> string \<Rightarrow> int \<Rightarrow> krecord reader" where
  "iceberg_decodeRecord = decodeRecord iceberg_reader"

definition iceberg_decodeBatchRecords :: "bytes \<Rightarrow> string \<Rightarrow> int \<Rightarrow> krecord list outcome" where
  "iceberg_decodeBatchRecords = decodeBatchRecords iceberg_reader"

definition iceberg_decodeRecordBatches :: "bytes \<Rightarrow> string \<Rightarrow> int \<Rightarrow> krecord list outcome" where
  "iceberg_decodeRecordBatches = decodeRecordBatches iceberg_reader"

definition iceberg_decodeSegment :: "bytes \<Rightarrow> string \<Rightarrow> int \<Rightarrow> krecord list outcome" where
  "iceberg_decodeSegment = decodeSegment iceberg_reader"

text \<open>The object store is the argument \<open>getObject\<close>.\<close>

definition sql_Decode :: "(string \<Rightarrow> bytes outcome) \<Rightarrow> string \<Rightarrow> string \<Rightarrow> string \<Rightarrow> int \<Rightarrow> krecord list outcome" where
  "sql_Decode getObject segKey idxKey topic part =
     bindO (wrapErr ''download index'' (getObject idxKey)) (\<lambda>indexBytes.
     bindO (sql_parseIndex indexBytes) (\<lambda>_.
     bindO (wrapErr ''download segment'' (getObject segKey)) (\<lambda>segmentBytes.
       decodeSegment sql_reader segmentBytes topic part)))"

definition iceberg_Decode :: "(string \<Rightarrow> bytes outcome) \<Rightarrow> string \<Rightarrow> string \<Rightarrow> string \<Rightarrow> int \<Rightarrow> krecord list outcome" where
  "iceberg_Decode getObject segKey idxKey topic part =
     bindO (wrapErr ''download index'' (getObject idxKey)) (\<lambda>indexBytes.
     bindO (iceberg_parseIndex indexBytes) (\<lambda>_.
     bindO (wrapErr ''download segment'' (getObject segKey)) (\<lambda>segmentBytes.
       iceberg_decodeSegment segmentBytes topic part)))"

section \<open>Varints are read back\<close>

lemma or_push_nat: "(x::nat) < 2 ^ s \<Longrightarrow> x OR push_bit s y = x + y * 2 ^ s"
proof (induction s arbitrary: x)
  case (Suc s)
  have "x div 2 < 2 ^ s" using Suc.prems by auto
  from Suc.IH [OF this] show ?case
    by (subst or_nat_rec) (auto simp: push_bit_eq_mult odd_iff_mod_2_eq_one algebra_simps elim: evenE oddE)
qed (simp)

lemma or_push_word:
  assumes "x < 2 ^ s"
  shows "(of_nat x :: 'a::len word) OR push_bit s (of_nat y) = of_nat (x + y * 2 ^ s)"
  by (simp only: push_bit_of_nat of_nat_or_eq [symmetric] or_push_nat [OF assms])

lemma byte_bit7: "n < 256 \<Longrightarrow> (of_nat n :: byte) AND 0x80 = 0 \<longleftrightarrow> n < 128"
proof -
  assume n: "n < 256"
  have "(of_nat n :: byte) AND 2 ^ 7 = 0 \<longleftrightarrow> \<not> bit n 7"
    unfolding and_exp_eq_0_iff_not_bit by (simp add: bit_simps)
  also have "\<dots> \<longleftrightarrow> n < 128"
  proof (cases "n < 128")
    case False
    then have "n div 128 = 1" using n by (intro div_nat_eqI) simp_all
    with False show ?thesis by (simp add: bit_iff_odd)
  qed (simp add: bit_iff_odd)
  finally show ?thesis by simp
qed

lemma byte_low7: "ucast ((of_nat n :: byte) AND 0x7f) = (of_nat (n mod 128) :: 'a::len word)"
proof -
  have "(of_nat n :: byte) AND 0x7f = take_bit 7 (of_nat n)" by (simp add: take_bit_eq_mask mask_eq_exp_minus_1)
  also have "\<dots> = of_nat (take_bit 7 n)" by (simp only: take_bit_of_nat)
  finally have "(of_nat n :: byte) AND 0x7f = of_nat (n mod 128)" by (simp only: take_bit_eq_mod) simp
  moreover have "n mod 128 < 2 ^ 8" by (rule less_trans [of _ 128]) simp_all
  ultimately show ?thesis by (simp only: unsigned_of_nat) (simp add: take_bit_nat_eq_self)
qed

text \<open>The encoding of the clients.\<close>

definition zigzag :: "int \<Rightarrow> nat" where
  "zigzag n = nat (if n \<ge> 0 then 2 * n else - 2 * n - 1)"

definition enc_varint :: "int \<Rightarrow> bytes" where
  "enc_varint n = put_uvarint (zigzag n)"

lemma varint_loop_put:
  assumes lim: "\<forall>i. 7 * Suc i < LENGTH('a) \<longrightarrow> 7 * Suc i \<le> lim"
  shows "x < 2 ^ (7 * i) \<Longrightarrow> v * 2 ^ (7 * i) < 2 ^ LENGTH('a) \<Longrightarrow>
    varint_loop lim msg (7 * i) (of_nat x :: 'a::len word) (put_uvarint v @ r) = Ok (of_nat (x + v * 2 ^ (7 * i)), r)"
proof (induction v arbitrary: i x rule: put_uvarint.induct)
  case (1 v)
  show ?case
  proof (cases "v < 128")
    case True
    then show ?thesis using or_push_word [OF "1.prems"(1), of v, where 'a = 'a] byte_bit7 [of v] byte_low7 [of v, where 'a = 'a]
      by (simp add: put_uvarint.simps [of v] Let_def)
  next
    case False
    then have "128 * 2 ^ (7 * i) \<le> v * 2 ^ (7 * i)" by (intro mult_le_mono1) simp
    with "1.prems"(2) have "128 * 2 ^ (7 * i) < (2::nat) ^ LENGTH('a)" by linarith
    then have "(2::nat) ^ (7 * Suc i) < 2 ^ LENGTH('a)" by (simp add: power_add)
    then have "7 * Suc i < LENGTH('a)" by (simp only: power_strict_increasing_iff)
    with lim have i: "7 * i + 7 \<le> lim" by (simp add: add.commute)
    let ?m = "v mod 128" and ?x = "x + v mod 128 * 2 ^ (7 * i)"
    have x: "?x < 2 ^ (7 * Suc i)"
    proof -
      have "?m * 2 ^ (7 * i) \<le> 127 * 2 ^ (7 * i)" by (intro mult_le_mono1) (simp add: less_Suc_eq_le [symmetric])
      then have "?x < 128 * 2 ^ (7 * i)" using "1.prems"(1) by linarith
      then show ?thesis by (simp add: power_add)
    qed
    have sum: "?x + v div 128 * 2 ^ (7 * Suc i) = x + v * 2 ^ (7 * i)"
    proof -
      have "v * 2 ^ (7 * i) = (?m + 128 * (v div 128)) * 2 ^ (7 * i)" by simp
      also have "\<dots> = ?m * 2 ^ (7 * i) + v div 128 * (128 * 2 ^ (7 * i))" by (simp only: distrib_right distrib_left ac_simps)
      finally show ?thesis by (simp add: power_add)
    qed
    have "v div 128 * 2 ^ (7 * Suc i) < 2 ^ LENGTH('a)" using sum "1.prems"(2) by linarith
    from "1.IH" [OF False x this] have IH: "varint_loop lim msg (7 * i + 7) (of_nat ?x :: 'a word) (put_uvarint (v div 128) @ r) = Ok (of_nat (x + v * 2 ^ (7 * i)), r)"
      unfolding sum by (simp add: add.commute)
    have "(?m + 128) mod 128 = ?m" by simp
    then have "ucast ((of_nat (?m + 128) :: byte) AND 0x7f) = (of_nat ?m :: 'a word)" using byte_low7 [of "?m + 128", where 'a = 'a] by simp
    moreover have "(of_nat (?m + 128) :: byte) AND 0x80 \<noteq> 0" using byte_bit7 [of "?m + 128"] by simp
    ultimately show ?thesis
      using IH i False or_push_word [OF "1.prems"(1), of ?m, where 'a = 'a]
      by (simp add: put_uvarint.simps [of v] Let_def del: of_nat_add of_nat_mult)
  qed
qed

lemma sint_of_int32: "sint (of_int x :: 32 word) = i32 x"
  by (simp add: int_word_sint i32_def wrapS_def)

lemma sint_of_int64: "sint (of_int x :: 64 word) = i64 x"
  by (simp add: int_word_sint i64_def wrapS_def)

lemma and_1_of_nat: "(of_nat v :: 'a::len word) AND 1 = of_nat (v mod 2)"
proof -
  have "(of_nat v :: 'a word) AND of_nat 1 = of_nat (v AND 1)" by (simp only: of_nat_and_eq)
  then show ?thesis by (simp add: and_one_eq)
qed

lemma zigZagDecode_of_nat:
  "sint (zigZagDecode (of_nat v)) = (if even v then i32 (int v) div 2 else - (i32 (int v) div 2) - 1)"
proof -
  let ?w = "of_nat v :: 32 word" and ?s = "i32 (int v)"
  have s: "sint ?w = ?s" using sint_of_int32 [of "int v"] by simp
  have "sint (signed_drop_bit 1 ?w) = ?s div 2" by (simp add: sint_signed_drop_bit_eq s drop_bit_eq_div)
  moreover have "of_int (sint (signed_drop_bit 1 ?w)) = signed_drop_bit 1 ?w" by simp
  ultimately have half: "signed_drop_bit 1 ?w = of_int (?s div 2)" by (simp only:)
  have r: "in_i32 ?s" by simp
  have within: "in_i32 (?s div 2)" "in_i32 (- (?s div 2) - 1)" using r by (auto simp: in_i32_def)
  show ?thesis
  proof (cases "even v")
    case True
    then have "zigZagDecode ?w = of_int (?s div 2)" by (simp add: zigZagDecode_def half and_1_of_nat del: One_nat_def)
    with True within show ?thesis by (simp add: sint_of_int32 i32_id)
  next
    case False
    then have "v mod 2 = 1" by presburger
    then have "zigZagDecode ?w = NOT (of_int (?s div 2))"
      unfolding zigZagDecode_def half and_1_of_nat by simp
    also have "\<dots> = of_int (- (?s div 2) - 1)" by (simp add: not_eq_complement)
    finally show ?thesis using False within by (simp only: sint_of_int32 i32_id) simp
  qed
qed

lemma drop_bit_1_of_nat:
  assumes "v < 2 ^ 64"
  shows "drop_bit 1 (of_nat v :: 64 word) = of_int (int (v div 2))"
proof -
  have "uint (of_nat v :: 64 word) = int v" using assms by (simp add: unsigned_of_nat take_bit_nat_eq_self)
  then have "uint (drop_bit 1 (of_nat v :: 64 word)) = int (v div 2)" 
    using assms unfolding unsigned_drop_bit_eq by (simp add: drop_bit_eq_div zdiv_int take_bit_int_eq_self)
  moreover have "of_int (uint (drop_bit 1 (of_nat v :: 64 word))) = drop_bit 1 (of_nat v :: 64 word)" by simp
  ultimately show ?thesis by (simp only:)
qed

lemma decodeZigZag_zigzag:
  assumes n: "in_i64 n"
  shows "sint (decodeZigZag (of_nat (zigzag n))) = n"
proof -
  have v: "zigzag n < 2 ^ 64" using n by (auto simp: zigzag_def in_i64_def)
  show ?thesis
  proof (cases "n \<ge> 0")
    case True
    then have "zigzag n mod 2 = 0" "int (zigzag n div 2) = n" by (auto simp: zigzag_def nat_mult_distrib)
    then show ?thesis using n by (simp add: decodeZigZag_def and_1_of_nat drop_bit_1_of_nat [OF v, unfolded One_nat_def] sint_of_int64 i64_id)
  next
    case False
    define k where "k = nat (- n - 1)"
    have k: "zigzag n = 2 * k + 1" "int k = - n - 1" using False by (auto simp: zigzag_def k_def)
    then have m: "zigzag n mod 2 = 1" "int (zigzag n div 2) = - n - 1" by simp_all
    then have "decodeZigZag (of_nat (zigzag n)) = - (of_int (- n - 1) + 1)"
      unfolding decodeZigZag_def and_1_of_nat drop_bit_1_of_nat [OF v] by simp
    also have "\<dots> = of_int n" by simp
    finally show ?thesis using n by (simp only: sint_of_int64 i64_id)
  qed
qed

lemma zigZagDecode_zigzag:
  assumes "- (2 ^ 30) \<le> n" "n < 2 ^ 30"
  shows "sint (zigZagDecode (of_nat (zigzag n))) = n"
proof -
  have "in_i32 (int (zigzag n))" using assms by (auto simp: zigzag_def in_i32_def)
  then show ?thesis unfolding zigZagDecode_of_nat using assms by (auto simp: i32_id zigzag_def even_nat_iff)
qed

text \<open>The sign is extended, so a delta from \<open>2\<^sup>3\<^sup>0\<close> on comes out negative.\<close>

lemma zigZagDecode_large:
  assumes "2 ^ 30 \<le> n" "n < 2 ^ 31"
  shows "sint (zigZagDecode (of_nat (zigzag n))) = n - 2 ^ 31"
proof -
  have "int (zigzag n) = 2 * n" "even (zigzag n)" using assms by (auto simp: zigzag_def even_nat_iff)
  moreover have "i32 (2 * n) = 2 * n - 2 ^ 32"
  proof -
    have "(2 * n - 2 ^ 32) mod 2 ^ 32 = 2 * n mod 2 ^ 32" by (simp add: mod_diff_right_eq [symmetric])
    then have "wrapS 32 (2 * n) = wrapS 32 (2 * n - 2 ^ 32)" using wrapS_mod [of 32 "2 * n"] wrapS_mod [of 32 "2 * n - 2 ^ 32"] by simp
    also have "\<dots> = 2 * n - 2 ^ 32" using assms by (intro wrapS_id) simp_all
    finally show ?thesis by (simp add: i32_def)
  qed
  ultimately show ?thesis unfolding zigZagDecode_of_nat by simp
qed

interpretation sqlv: codec readVarint enc_varint "\<lambda>n. - (2 ^ 30) \<le> n \<and> n < 2 ^ 30"
proof unfold_locales
  fix n :: int and r assume n: "- (2 ^ 30) \<le> n \<and> n < 2 ^ 30"
  then have "zigzag n < 2 ^ 32" by (auto simp: zigzag_def)
  then show "readVarint (enc_varint n @ r) = Ok (n, r)"
    using varint_loop_put [where 'a = 32 and x = 0 and i = 0 and v = "zigzag n" and lim = 28] n zigZagDecode_zigzag [of n]
    by (simp add: readVarint_def enc_varint_def rbind_def rret_def)
qed

interpretation icev: codec iceberg_readVarint enc_varint in_i64
proof unfold_locales
  fix n :: int and r assume n: "in_i64 n"
  then have "zigzag n < 2 ^ 64" by (auto simp: zigzag_def in_i64_def)
  then show "iceberg_readVarint (enc_varint n @ r) = Ok (n, r)"
    using varint_loop_put [where 'a = 64 and x = 0 and i = 0 and v = "zigzag n" and lim = 63] n decodeZigZag_zigzag [of n]
    by (simp add: iceberg_readVarint_def enc_varint_def rbind_def rret_def)
qed

section \<open>The record format of the clients\<close>

record krec =
  kdTimestamp :: int
  kdOffset :: int
  kdKey :: "bytes option"
  kdValue :: "bytes option"
  kdHeaders :: "kheader list"

text \<open>A batch: leader epoch, magic and checksum, attributes, offset delta of the last record, first
  timestamp, then largest timestamp, producer and sequence, and the records.\<close>

record kbatch =
  kbPrefix :: bytes
  kbAttributes :: int
  kbLastOffsetDelta :: int
  kbFirstTimestamp :: int
  kbProducer :: bytes
  kbRecords :: "krec list"

definition enc_sized :: "bytes option \<Rightarrow> bytes" where
  "enc_sized b = (case b of None \<Rightarrow> enc_varint (- 1) | Some d \<Rightarrow> enc_varint (int (length d)) @ d)"

definition enc_header :: "kheader \<Rightarrow> bytes" where
  "enc_header h = enc_sized (Some (bytes_of_string (hdKey h))) @ enc_sized (hdValue h)"

definition enc_fields :: "krec \<Rightarrow> bytes" where
  "enc_fields k = 0 # enc_varint (kdTimestamp k) @ enc_varint (kdOffset k) @ enc_sized (kdKey k) @ enc_sized (kdValue k) @
     enc_varint (int (length (kdHeaders k))) @ concat (map enc_header (kdHeaders k))"

definition enc_rec :: "krec \<Rightarrow> bytes" where
  "enc_rec k = enc_varint (int (length (enc_fields k))) @ enc_fields k"

definition enc_batch_tail :: "kbatch \<Rightarrow> bytes" where
  "enc_batch_tail kb = kbPrefix kb @ be 2 (kbAttributes kb) @ be 4 (kbLastOffsetDelta kb) @ be 8 (kbFirstTimestamp kb) @
     kbProducer kb @ be 4 (int (length (kbRecords kb))) @ concat (map enc_rec (kbRecords kb))"

definition enc_batch :: "int \<Rightarrow> kbatch \<Rightarrow> bytes" where
  "enc_batch base kb = be 8 base @ be 4 (int (length (enc_batch_tail kb))) @ enc_batch_tail kb"

definition rec_of :: "string \<Rightarrow> int \<Rightarrow> int \<Rightarrow> kbatch \<Rightarrow> krec \<Rightarrow> krecord" where
  "rec_of topic part base kb k = \<lparr>rcTopic = topic, rcPartition = part, rcOffset = base + kdOffset k,
     rcTimestamp = kbFirstTimestamp kb + kdTimestamp k, rcKey = kdKey k, rcValue = kdValue k, rcHeaders = kdHeaders k\<rparr>"

definition records_of :: "string \<Rightarrow> int \<Rightarrow> int \<Rightarrow> kbatch \<Rightarrow> krecord list" where
  "records_of topic part base kb = map (rec_of topic part base kb) (kbRecords kb)"

definition rec_fits :: "(int \<Rightarrow> bool) \<Rightarrow> krec \<Rightarrow> bool" where
  "rec_fits within k \<longleftrightarrow> within (kdTimestamp k) \<and> within (kdOffset k) \<and> length (enc_fields k) < 2 ^ 30"

definition batch_fits :: "(int \<Rightarrow> bool) \<Rightarrow> int \<Rightarrow> kbatch \<Rightarrow> bool" where
  "batch_fits within base kb \<longleftrightarrow> length (kbPrefix kb) = 9 \<and> length (kbProducer kb) = 22 \<and>
     in_i16 (kbAttributes kb) \<and> kbAttributes kb AND 7 = 0 \<and> in_i64 base \<and> in_i64 (kbFirstTimestamp kb) \<and>
     length (kbRecords kb) < 2 ^ 31 \<and> length (enc_batch_tail kb) < 2 ^ 32 \<and>
     (\<forall>k \<in> set (kbRecords kb). rec_fits within k \<and> in_i64 (base + kdOffset k) \<and> in_i64 (kbFirstTimestamp kb + kdTimestamp k))"

section \<open>Round trip\<close>

lemma ReadFull_append [codec_simps]: "n = length d \<Longrightarrow> ReadFull n (d @ r) = Ok (d, r)"
  by (simp add: ReadFull_def)

text \<open>What a reader of records promises.\<close>

locale record_format = codec "rdVarint R" enc_varint within for R :: record_reader and within +
  assumes small: "- 1 \<le> n \<Longrightarrow> n < 2 ^ 30 \<Longrightarrow> within n"
    and rd_null: "rdBytes R (- 1) r = Ok (None, r)"
    and rd_bytes: "length d < 2 ^ 30 \<Longrightarrow> rdBytes R (int (length d)) (d @ r) = Ok (Some d, r)"
begin

lemma small_varint: "- 1 \<le> n \<Longrightarrow> n < 2 ^ 30 \<Longrightarrow> rdVarint R (enc_varint n @ r) = Ok (n, r)"
  by (rule dec_enc [OF small])

lemma read_sized_enc: "length (enc_sized b) < 2 ^ 30 \<Longrightarrow> read_sized R (enc_sized b @ r) = Ok (b, r)"
  by (cases b) (simp_all add: read_sized_def enc_sized_def rbind_def small_varint rd_null rd_bytes)

lemma decode_header_enc: "length (enc_header h) < 2 ^ 30 \<Longrightarrow> decode_header R (enc_header h @ r) = Ok (h, r)"
  by (simp add: decode_header_def enc_header_def rbind_def rret_def read_sized_enc)

lemma decode_headers_enc:
  "length (concat (map enc_header hs)) < 2 ^ 30 \<Longrightarrow> rmany (length hs) (decode_header R) (concat (map enc_header hs) @ r) = Ok (hs, r)"
  by (induction hs) (simp_all add: rbind_def rret_def decode_header_enc)

lemma header_count: "length hs \<le> length (concat (map enc_header hs))"
proof (induction hs)
  case (Cons h hs)
  have "enc_header h \<noteq> []" by (simp add: enc_header_def enc_sized_def enc_varint_def put_uvarint.simps)
  with Cons show ?case by (cases "enc_header h") simp_all
qed simp

lemma decode_fields_enc:
  assumes "rec_fits within k" "in_i64 (base + kdOffset k)" "in_i64 (ts + kdTimestamp k)"
  shows "decode_fields R base ts topic part (enc_fields k) = Ok (\<lparr>rcTopic = topic, rcPartition = part, rcOffset = base + kdOffset k,
     rcTimestamp = ts + kdTimestamp k, rcKey = kdKey k, rcValue = kdValue k, rcHeaders = kdHeaders k\<rparr>, [])"
proof -
  have len: "length (enc_fields k) < 2 ^ 30" and rng: "within (kdTimestamp k)" "within (kdOffset k)"
    using assms(1) by (auto simp: rec_fits_def)
  let ?hs = "concat (map enc_header (kdHeaders k))"
  have parts: "length (enc_sized (kdKey k)) < 2 ^ 30" "length (enc_sized (kdValue k)) < 2 ^ 30" "length ?hs < 2 ^ 30"
    using len by (simp_all add: enc_fields_def)
  then have count: "length (kdHeaders k) < 2 ^ 30" using header_count [of "kdHeaders k"] by linarith
  then have "make_ok 40 (int (length (kdHeaders k)))" by (simp add: make_ok_def maxAlloc_def)
  moreover have "rmany (length (kdHeaders k)) (decode_header R) ?hs = Ok (kdHeaders k, [])"
    using decode_headers_enc [OF parts(3), of "[]"] by simp
  ultimately show ?thesis
    using parts count rng assms(2,3)
    by (simp add: decode_fields_def enc_fields_def rbind_def rret_def ReadByte_def dec_enc small_varint read_sized_enc i64_id)
qed

lemma decodeRecord_enc:
  assumes "rec_fits within k" "in_i64 (base + kdOffset k)" "in_i64 (ts + kdTimestamp k)"
  shows "decodeRecord R base ts topic part (enc_rec k @ r) = Ok (\<lparr>rcTopic = topic, rcPartition = part, rcOffset = base + kdOffset k,
     rcTimestamp = ts + kdTimestamp k, rcKey = kdKey k, rcValue = kdValue k, rcHeaders = kdHeaders k\<rparr>, r)"
proof -
  have "length (enc_fields k) < 2 ^ 30" using assms(1) by (simp add: rec_fits_def)
  then show ?thesis using decode_fields_enc [OF assms]
    by (simp add: decodeRecord_def enc_rec_def rbind_def small_varint make_ok_def maxAlloc_def codec_simps)
qed

lemma decode_negative_headers:
  assumes n: "within n" and d: "length d < 2 ^ 30" "d = 0 # enc_varint 0 @ enc_varint 0 @ enc_sized key @ enc_sized val @ enc_varint n" "n < 0"
  shows "decodeRecord R base ts topic part (enc_varint (int (length d)) @ d @ r) = Panic"
proof -
  have sized: "length (enc_sized key) < 2 ^ 30" "length (enc_sized val) < 2 ^ 30" using d by simp_all
  have tail: "rdVarint R (enc_varint n) = Ok (n, [])" using dec_enc [OF n, of "[]"] by simp
  have "decode_fields R base ts topic part d = Panic"
    using sized tail d(3) by (simp add: decode_fields_def d(2) rbind_def ReadByte_def small_varint read_sized_enc make_ok_def rpanic_def)
  with d(1) show ?thesis by (simp add: decodeRecord_def rbind_def small_varint make_ok_def maxAlloc_def codec_simps)
qed

lemma decode_batch_enc:
  assumes "batch_fits within base kb"
  shows "decodeBatchRecords R (enc_batch base kb) topic part = Ok (records_of topic part base kb)"
proof -
  have fits: "length (kbPrefix kb) = 9" "length (kbProducer kb) = 22" "in_i16 (kbAttributes kb)" "kbAttributes kb AND 7 = 0"
    "in_i64 base" "in_i64 (kbFirstTimestamp kb)" "length (kbRecords kb) < 2 ^ 31" using assms by (auto simp: batch_fits_def)
  let ?n = "length (kbRecords kb)" and ?b = "enc_batch base kb"
  have all: "rmany (length ks) (decodeRecord R base (kbFirstTimestamp kb) topic part) (concat (map enc_rec ks)) = Ok (map (rec_of topic part base kb) ks, [])"
    if "set ks \<subseteq> set (kbRecords kb)" for ks
    using that
  proof (induction ks)
    case (Cons k ks)
    then have "decodeRecord R base (kbFirstTimestamp kb) topic part (enc_rec k @ concat (map enc_rec ks)) = Ok (rec_of topic part base kb k, concat (map enc_rec ks))"
      using assms decodeRecord_enc by (simp add: batch_fits_def rec_of_def)
    with Cons show ?case by (simp add: rbind_def rret_def)
  qed (simp add: rret_def)
  have len: "61 \<le> length ?b" using fits(1,2) by (simp add: enc_batch_def enc_batch_tail_def)
  have attr: "i16 (ube (take 2 (drop 21 ?b))) = kbAttributes kb"
    using fits(1,3) by (simp add: enc_batch_def enc_batch_tail_def codec_simps)
  have base: "i64 (u64_at ?b 0) = base" using fits(5) by (simp add: enc_batch_def u64_at_def codec_simps)
  have ts: "i64 (u64_at ?b 27) = kbFirstTimestamp kb" using fits(1,6) by (simp add: enc_batch_def enc_batch_tail_def u64_at_def codec_simps)
  have n: "i32 (u32_at ?b 57) = int ?n"
    using fits(1,2,7) i32_ube_be [of "int ?n"] by (simp add: enc_batch_def enc_batch_tail_def u32_at_def in_i32_def)
  have recs: "drop 61 ?b = concat (map enc_rec (kbRecords kb))" using fits(1,2) by (simp add: enc_batch_def enc_batch_tail_def)
  show ?thesis
    using len all [of "kbRecords kb"] fits(4)
    by (simp add: decodeBatchRecords_def compressionType_def attr base ts n recs records_of_def Let_def)
qed

lemma decode_batches_enc:
  assumes "list_all2 (\<lambda>d (base, kb). d = enc_batch base kb \<and> batch_fits within base kb) ds kbs"
  shows "decodeRecordBatches R (concat ds) topic part = Ok (concat (map (\<lambda>(base, kb). records_of topic part base kb) kbs))"
  using assms
proof (induction rule: list_all2_induct)
  case Nil
  then show ?case by (simp add: decodeRecordBatches.simps)
next
  case (Cons d ds b kbs)
  obtain base kb where b: "b = (base, kb)" by fastforce
  with Cons have d: "d = enc_batch base kb" "batch_fits within base kb" by auto
  let ?t = "length (enc_batch_tail kb)"
  have t: "0 < ?t" "?t < 2 ^ 32" using d(2) by (auto simp: batch_fits_def enc_batch_tail_def)
  then have len: "nat (u32_at (enc_batch base kb @ r) 8) = ?t" for r
    using ube_be [of 4 "int ?t"] by (simp add: enc_batch_def u32_at_def)
  have split: "take (12 + ?t) (enc_batch base kb @ r) = enc_batch base kb" "drop (12 + ?t) (enc_batch base kb @ r) = r"
    "12 + ?t \<le> length (enc_batch base kb @ r)" for r
    by (simp_all add: enc_batch_def)
  have "decodeRecordBatches R (enc_batch base kb @ concat ds) topic part =
      bindO (decodeBatchRecords R (enc_batch base kb) topic part) (\<lambda>rs.
      bindO (decodeRecordBatches R (concat ds) topic part) (\<lambda>rest. Ok (rs @ rest)))"
    using t(1) split [of "concat ds"] by (subst decodeRecordBatches.simps) (simp only: len Let_def, simp)
  with Cons(3) decode_batch_enc [OF d(2)] show ?case by (simp add: d(1) b)
qed

lemma decodeSegment_enc:
  assumes "BuildSegment cfg g t = Ok a" "list_all2 (\<lambda>x (base, kb). rbBytes x = enc_batch base kb \<and> batch_fits within base kb) g kbs"
  shows "decodeSegment R (saSegmentBytes a) topic part = Ok (concat (map (\<lambda>(base, kb). records_of topic part base kb) kbs))"
proof -
  let ?body = "concat (map rbBytes g)"
  have s: "saSegmentBytes a = buildHeader (rbBaseOffset (hd g)) (saMessageCount a) t @ ?body @ buildFooter (crc32c ?body) (saLastOffset a)"
    by (rule BuildSegment_Ok(5) [OF assms(1)])
  then have len: "length (saSegmentBytes a) = segmentHeaderLen + length ?body + segmentFooterLen" by simp
  have "list_all2 (\<lambda>d (base, kb). d = enc_batch base kb \<and> batch_fits within base kb) (map rbBytes g) kbs"
    using assms(2) by (simp add: list_all2_map1)
  from decode_batches_enc [OF this] s len show ?thesis
    by (simp add: decodeSegment_def buildHeader_def segmentMagic_def segmentHeaderLen_def)
qed

end

interpretation sqlr: record_format sql_reader "\<lambda>n. - (2 ^ 30) \<le> n \<and> n < 2 ^ 30"
proof -
  have "codec (rdVarint sql_reader) enc_varint (\<lambda>n. - (2 ^ 30) \<le> n \<and> n < 2 ^ 30)"
    using sqlv.codec_axioms by (simp add: sql_reader_def)
  then show "record_format sql_reader (\<lambda>n. - (2 ^ 30) \<le> n \<and> n < 2 ^ 30)"
    by (rule record_format.intro)
      (unfold_locales, auto simp: sql_reader_def readNullableBytes_def rbind_def rret_def codec_simps)
qed

interpretation icer: record_format iceberg_reader in_i64
proof -
  have "codec (rdVarint iceberg_reader) enc_varint in_i64"
    using icev.codec_axioms by (simp add: iceberg_reader_def)
  then show "record_format iceberg_reader in_i64"
    by (rule record_format.intro)
      (unfold_locales, auto simp: iceberg_reader_def iceberg_readNullableBytes_def rbind_def rret_def codec_simps in_i64_def make_ok_def maxAlloc_def)
qed

section \<open>The index readers agree\<close>

lemma index_loop_entries: "parse_entries n r = Ok es \<Longrightarrow> index_loop n r = Ok es"
proof (induction n arbitrary: r es)
  case (Suc n)
  then obtain a b es' where p: "binary_Read 8 r = Ok a" "binary_Read 4 (snd a) = Ok b" "parse_entries n (snd b) = Ok es'"
    "es = \<lparr>ieOffset = i64 (ube (fst a)), iePosition = i32 (ube (fst b))\<rparr> # es'"
    by (auto split: prod.splits)
  from p(1,2) have "8 \<le> length r" "4 \<le> length (drop 8 r)" "fst a = take 8 r" "snd b = drop 12 r" "fst b = take 4 (drop 8 r)"
    by (auto simp: binary_Read_def split: if_splits)
  with Suc.IH [OF p(3)] p(4) show ?case by (simp add: u64_at_def u32_at_def)
qed simp

lemma i32_nonneg: "0 \<le> x \<Longrightarrow> x < 2 ^ 32 \<Longrightarrow> 0 \<le> i32 x \<Longrightarrow> i32 x = x"
proof -
  assume x: "0 \<le> x" "x < 2 ^ 32" "0 \<le> i32 x"
  show ?thesis
  proof (cases "x < 2 ^ 31")
    case False
    have "(x - 2 ^ 32) mod 2 ^ 32 = x mod 2 ^ 32" by (simp add: mod_diff_right_eq [symmetric])
    then have "wrapS 32 x = wrapS 32 (x - 2 ^ 32)" using wrapS_mod [of 32 x] wrapS_mod [of 32 "x - 2 ^ 32"] by simp
    also have "\<dots> = x - 2 ^ 32" using x False by (intro wrapS_id) simp_all
    finally show ?thesis using x by (simp add: i32_def)
  qed (use x in \<open>simp add: i32_id in_i32_def\<close>)
qed

lemma sql_parseIndex_accepts:
  assumes "ParseIndex data = Ok es"
  shows "sql_parseIndex data = Ok es"
proof -
  from assms have ok: "16 \<le> length data" "take 4 data = indexMagic" by (auto simp: ParseIndex_def split: if_splits)
  have count: "take 4 (drop 2 (drop 4 data)) = take 4 (drop 6 data)" by simp
  from assms ok obtain "0 \<le> i32 (u32_at data 6)" "parse_entries (nat (i32 (u32_at data 6))) (drop 16 data) = Ok es"
    by (auto simp: ParseIndex_def binary_Read_def u32_at_def split: if_splits)
  moreover have "0 \<le> u32_at data 6" "u32_at data 6 < 2 ^ 32"
    using ube_less [of "take 4 (drop 6 data)"] ok(1) by (simp_all add: u32_at_def)
  ultimately have "parse_entries (nat (u32_at data 6)) (drop 16 data) = Ok es" using i32_nonneg [of "u32_at data 6"] by simp
  from index_loop_entries [OF this] ok show ?thesis by (simp add: sql_parseIndex_def)
qed

section \<open>What the processors see of a partition log\<close>

abbreviation client_batch :: "(int \<Rightarrow> bool) \<Rightarrow> record_batch \<Rightarrow> kbatch \<Rightarrow> bool" where
  "client_batch within x kb \<equiv> rbBytes x = enc_batch (rbBaseOffset x) kb \<and> batch_fits within (rbBaseOffset x) kb"

text \<open>A batch of a client is patched with the offset the broker assigned, and stays one.\<close>

lemma patched_client_batch: "rbBytes b = enc_batch base0 kb \<Longrightarrow> rbBytes (patched b base) = enc_batch base kb"
  by (simp add: patched_def enc_batch_def)

lemma stored_segment_decoded:
  assumes l: "log_ok segs idx ok l G" "i < length G" "s = plSegments l ! i" "srSize s < 2 ^ 31"
    and get: "\<And>d. segs (plS3 l) (segmentKey l (srBase s)) = Some d \<Longrightarrow> getObject (segmentKey l (srBase s)) = Ok d"
      "\<And>d. idx (plS3 l) (indexKey l (srBase s)) = Some d \<Longrightarrow> getObject (indexKey l (srBase s)) = Ok d"
    and kbs: "list_all2 (client_batch (\<lambda>n. - (2 ^ 30) \<le> n \<and> n < 2 ^ 30)) (G ! i) kbs"
  shows "sql_Decode getObject (segmentKey l (srBase s)) (indexKey l (srBase s)) topic part =
      Ok (concat (map2 (\<lambda>x kb. records_of topic part (rbBaseOffset x) kb) (G ! i) kbs)) \<and>
    iceberg_Decode getObject (segmentKey l (srBase s)) (indexKey l (srBase s)) topic part =
      Ok (concat (map2 (\<lambda>x kb. records_of topic part (rbBaseOffset x) kb) (G ! i) kbs))"
proof -
  note st = log_ok_nth [OF l(1,2)]
  have stored: "seg_stored segs idx l s (G ! i)" using st(2) l(3) by simp
  then obtain t a where a: "BuildSegment (pcSegment (plCfg l)) (G ! i) t = Ok a" "srSize s = int (length (saSegmentBytes a))"
    "segs (plS3 l) (segmentKey l (srBase s)) = Some (saSegmentBytes a)" by (auto simp: seg_stored_def)
  have "length (G ! i) \<le> length (concat (map rbBytes (G ! i)))" using length_le_concat BuildSegment_Ok(2) [OF a(1)] by blast
  then have "int (length (G ! i)) < 2 ^ 31" using l(4) a(2) BuildSegment_size [OF a(1)] by simp
  with stored obtain bs es where ix: "idx (plS3 l) (indexKey l (srBase s)) = Some bs" "ParseIndex bs = Ok es"
    using seg_stored_index by metis
  let ?g = "G ! i" and ?kb = "zip (map rbBaseOffset (G ! i)) kbs"
  have "list_all2 (\<lambda>x (base, kb). rbBytes x = enc_batch base kb \<and> batch_fits within base kb) ?g ?kb"
    if "list_all2 (client_batch within) ?g kbs" for within
    using that by (induction rule: list_all2_induct) auto
  moreover have "list_all2 (client_batch in_i64) ?g kbs"
    using kbs by (rule list_all2_mono) (auto simp: batch_fits_def rec_fits_def in_i64_def)
  ultimately have dec: "decodeSegment sql_reader (saSegmentBytes a) topic part = Ok (concat (map (\<lambda>(base, kb). records_of topic part base kb) ?kb))"
    "decodeSegment iceberg_reader (saSegmentBytes a) topic part = Ok (concat (map (\<lambda>(base, kb). records_of topic part base kb) ?kb))"
    using sqlr.decodeSegment_enc [OF a(1)] icer.decodeSegment_enc [OF a(1)] kbs by blast+
  have same: "map (\<lambda>(base, kb). records_of topic part base kb) ?kb = map2 (\<lambda>x kb. records_of topic part (rbBaseOffset x) kb) ?g kbs"
    by (simp add: zip_map1 case_prod_unfold)
  show ?thesis
    using get(1) [OF a(3)] get(2) [OF ix(1)] ix(2) sql_parseIndex_accepts [OF ix(2)] dec
    unfolding sql_Decode_def iceberg_Decode_def iceberg_decodeSegment_def iceberg_parseIndex_def same by simp
qed

text \<open>
  Both processors decode a segment that a partition log has recorded to exactly the records its
  producers have sent, batch by batch and in order, each with the offset the broker assigned to
  its batch plus its own delta; so the two decoders give the same records on every log whose
  deltas stay below 2^30 in absolute value.
\<close>

theorem log_segment_decoded:
  assumes l: "log_ok segs idx ok l G" "i < length G" "s = plSegments l ! i" "srSize s < 2 ^ 31"
    and get: "\<And>d. segs (plS3 l) (segmentKey l (srBase s)) = Some d \<Longrightarrow> getObject (segmentKey l (srBase s)) = Ok d"
      "\<And>d. idx (plS3 l) (indexKey l (srBase s)) = Some d \<Longrightarrow> getObject (indexKey l (srBase s)) = Ok d"
    and kbs: "list_all2 (client_batch (\<lambda>n. - (2 ^ 30) \<le> n \<and> n < 2 ^ 30)) (G ! i) kbs"
  shows "sql_Decode getObject (segmentKey l (srBase s)) (indexKey l (srBase s)) topic part =
      Ok (concat (map2 (\<lambda>x kb. records_of topic part (rbBaseOffset x) kb) (G ! i) kbs)) \<and>
    iceberg_Decode getObject (segmentKey l (srBase s)) (indexKey l (srBase s)) topic part =
      Ok (concat (map2 (\<lambda>x kb. records_of topic part (rbBaseOffset x) kb) (G ! i) kbs))"
  by (rule stored_segment_decoded [OF l get kbs])

definition demo_kbatch :: kbatch where
  "demo_kbatch = \<lparr>kbPrefix = replicate 9 0, kbAttributes = 0, kbLastOffsetDelta = 0, kbFirstTimestamp = 5, kbProducer = replicate 22 0,
     kbRecords = [\<lparr>kdTimestamp = 1, kdOffset = 0, kdKey = None, kdValue = Some [7, 8], kdHeaders = []\<rparr>]\<rparr>"

definition client_record_batch :: record_batch where
  "client_record_batch = \<lparr>rbBaseOffset = 0, rbLastOffsetDelta = 0, rbMessageCount = 1, rbBytes = enc_batch 0 demo_kbatch\<rparr>"

lemma demo_kbatch_fits: "client_batch (\<lambda>n. - (2 ^ 30) \<le> n \<and> n < 2 ^ 30) (patched client_record_batch 0) demo_kbatch"
  by (simp add: patched_def client_record_batch_def enc_batch_def batch_fits_def demo_kbatch_def in_i16_def in_i64_def rec_fits_def
    enc_batch_tail_def enc_rec_def enc_fields_def enc_sized_def enc_varint_def zigzag_def put_uvarint.simps)

text \<open>A log over the in-memory store that holds one segment with one batch of a client.\<close>

lemma demo_client_log:
  obtains a l1 where "mem_log_ok l1 [[patched client_record_batch 0]]" "plSegments l1 = [new_segment a]"
    "srBase (new_segment a) = 0" "srSize (new_segment a) < 2 ^ 31" "conf l1 = conf demo_log"
proof -
  let ?b = client_record_batch let ?l = "appended ?b demo_log"
  have len: "length (rbBytes ?b) = 70"
    by (simp add: client_record_batch_def enc_batch_def enc_batch_tail_def demo_kbatch_def enc_rec_def enc_fields_def enc_sized_def
      enc_varint_def zigzag_def put_uvarint.simps)
  have bok: "batch_ok ?b demo_log"
    using len by (simp add: batch_ok_def client_record_batch_def demo_log_def NewPartitionLog_def)
  have l: "mem_log_ok ?l []" "wbBatches (plBuffer ?l) = [patched ?b 0]" "plSegments ?l = []" "conf ?l = conf demo_log"
    using log_ok_appended [OF demo_log_ok bok] by (simp_all add: appended_def demo_log_def NewPartitionLog_def NewWriteBuffer_def conf_def)
  obtain r l1 where f: "Flush memory_client (\<lambda>_. 0) ?l = (r, l1)" by fastforce
  from memr.Flush_reliable [OF l(1) _ f] l(2,3) obtain a t where l1: "mem_log_ok l1 [[patched ?b 0]]" "plSegments l1 = [new_segment a]"
    "BuildSegment (pcSegment (plCfg ?l)) [patched ?b 0] t = Ok a" by auto
  moreover have "conf l1 = conf ?l" using mem.Flush_inv [OF l(1) f] by blast
  moreover have "srBase (new_segment a) = 0" "srSize (new_segment a) < 2 ^ 31"
    using BuildSegment_Ok(3) [OF l1(3)] BuildSegment_size [OF l1(3)] len by (simp_all add: new_segment_def patched_def)
  ultimately show thesis using l(4) that by metis
qed

theorem log_segment_decoded_witness:
  "\<exists>l getObject rs. mem_log_ok l [[patched client_record_batch 0]] \<and>
     sql_Decode getObject (segmentKey l 0) (indexKey l 0) ''t'' 0 = Ok rs \<and> map rcOffset rs = [0] \<and> map rcTimestamp rs = [6]"
proof -
  obtain a l1 where l1: "mem_log_ok l1 [[patched client_record_batch 0]]" "plSegments l1 = [new_segment a]"
    and s: "srBase (new_segment a) = 0" "srSize (new_segment a) < 2 ^ 31" by (rule demo_client_log)
  let ?s = "plSegments l1 ! 0"
  have s: "srBase ?s = 0" "srSize ?s < 2 ^ 31" using l1(2) s by simp_all
  define getObject where "getObject k = (if k = indexKey l1 0 then Ok (the (mem_idx (plS3 l1) k)) else Ok (the (mem_segs (plS3 l1) k)))" for k
  have ns: "plNamespace l1 \<noteq> []" using l1(1) by (simp add: log_ok_def log_inv_def)
  have "segmentKey l1 0 \<noteq> indexKey l1 0"
    by (simp add: segmentKey_prefix [OF ns] indexKey_prefix [OF ns] segment_name_def index_name_def)
  then have get: "\<And>d. mem_segs (plS3 l1) (segmentKey l1 (srBase ?s)) = Some d \<Longrightarrow> getObject (segmentKey l1 (srBase ?s)) = Ok d"
    "\<And>d. mem_idx (plS3 l1) (indexKey l1 (srBase ?s)) = Some d \<Longrightarrow> getObject (indexKey l1 (srBase ?s)) = Ok d"
    by (simp_all add: getObject_def s(1))
  have "list_all2 (client_batch (\<lambda>n. - (2 ^ 30) \<le> n \<and> n < 2 ^ 30)) ([[patched client_record_batch 0]] ! 0) [demo_kbatch]"
    using demo_kbatch_fits by simp
  from log_segment_decoded [OF l1(1) _ refl s(2) get this, of "''t''" 0]
  have "sql_Decode getObject (segmentKey l1 0) (indexKey l1 0) ''t'' 0 = Ok (records_of ''t'' 0 0 demo_kbatch)"
    by (simp add: s(1) patched_def)
  moreover have "map rcOffset (records_of ''t'' 0 0 demo_kbatch) = [0]" "map rcTimestamp (records_of ''t'' 0 0 demo_kbatch) = [6]"
    by (simp_all add: records_of_def rec_of_def demo_kbatch_def)
  ultimately show ?thesis using l1(1) by (intro exI [of _ l1] exI [of _ getObject] exI [of _ "records_of ''t'' 0 0 demo_kbatch"] conjI)
qed

text \<open>
  The decoder of the SQL processor reads a delta between 2^30 and 2^31 as a negative number,
  smaller by 2^31, where the other decoder reads it as it was written: the shift of its
  zig-zag decoding keeps the sign bit of an \<open>int32\<close>.
\<close>

theorem large_delta_misread:
  assumes "2 ^ 30 \<le> n" "n < 2 ^ 31"
  shows "readVarint (enc_varint n @ r) = Ok (n - 2 ^ 31, r) \<and> iceberg_readVarint (enc_varint n @ r) = Ok (n, r)"
proof -
  have "zigzag n < 2 ^ 32" using assms by (auto simp: zigzag_def)
  then show ?thesis
    using varint_loop_put [where 'a = 32 and x = 0 and i = 0 and v = "zigzag n" and lim = 28] zigZagDecode_large [OF assms]
      icev.dec_enc [of n r] assms
    by (simp add: readVarint_def enc_varint_def rbind_def rret_def in_i64_def)
qed

theorem large_delta_misread_witness:
  "readVarint (enc_varint 1500000000) = Ok (- 647483648, []) \<and> iceberg_readVarint (enc_varint 1500000000) = Ok (1500000000, [])"
  using large_delta_misread [of 1500000000 "[]"] by simp

text \<open>
  A record whose header count is negative makes both decoders panic, since they make the slice
  of headers with the count they read. The broker stores such a record like any other.
\<close>

theorem negative_header_count_panics:
  assumes d: "d = 0 # enc_varint 0 @ enc_varint 0 @ enc_sized key @ enc_sized val @ enc_varint n" "length d < 2 ^ 30"
    and n: "- (2 ^ 30) \<le> n" "n < 0"
  shows "decodeRecord sql_reader base ts topic part (enc_varint (int (length d)) @ d @ r) = Panic \<and>
    decodeRecord iceberg_reader base ts topic part (enc_varint (int (length d)) @ d @ r) = Panic"
proof -
  have "in_i64 n" using n by (simp add: in_i64_def)
  with sqlr.decode_negative_headers [OF _ d(2,1) n(2)] icer.decode_negative_headers [OF _ d(2,1) n(2)] n show ?thesis by simp
qed

theorem negative_header_count_panics_witness:
  "decodeRecord sql_reader 0 0 ''t'' 0 (enc_varint 6 @ [0, 0, 0, 1, 1, 1]) = Panic \<and>
   decodeRecord iceberg_reader 0 0 ''t'' 0 (enc_varint 6 @ [0, 0, 0, 1, 1, 1]) = Panic"
  using negative_header_count_panics [of "[0, 0, 0, 1, 1, 1]" None None "- 1" 0 0 "''t''" 0 "[]"]
  by (simp add: enc_sized_def enc_varint_def zigzag_def put_uvarint.simps)

end
