(* ===== verification/Segment_Discovery.thy ===== *)
theory Segment_Discovery
  imports Segment_Decoder Metadata_Store "HOL-Library.Product_Lexorder"
begin

text \<open>
  How the processors find the segments of the broker
  (\<open>addons/processors/iceberg-processor/internal/discovery/discovery.go\<close> and
  \<open>addons/processors/sql-processor/internal/discovery/*.go\<close>): listing the objects of the
  namespace and pairing segments with their indexes, the filter from the metadata snapshot, the
  manifest, the time index, the cache in front of a listing and the lease of the background builders.

  The S3 client is an argument: the pages of a listing in the order of the calls, and what a
  ranged download of the end of an object returns. JSON documents are given by the values they
  hold, metrics are left out.
\<close>

section \<open>Object keys\<close>

definition Trim_slash :: "string \<Rightarrow> string" where
  "Trim_slash s = rev (dropWhile (\<lambda>c. c = CHR ''/'') (rev (dropWhile (\<lambda>c. c = CHR ''/'') s)))"

definition normalizePrefix :: "string \<Rightarrow> string" where
  "normalizePrefix namespace =
     (let trimmed = Trim_slash namespace in if trimmed = [] then [] else trimmed @ ''/'')"

text \<open>\<open>segmentKey{topic, partition, baseOffset}\<close>, compared field by field as the listing sorts it.\<close>

type_synonym seg_id = "string \<times> int \<times> int"

datatype seg_kind = KindKfs | KindIndex

definition parseSegmentFile :: "string \<Rightarrow> (int \<times> seg_kind) option" where
  "parseSegmentFile filename =
     (if \<not> HasPrefix filename ''segment-'' then None
      else
        let parse = (\<lambda>sfx kind.
          let baseStr = TrimSuffix (TrimPrefix filename ''segment-'') sfx in
          if baseStr = [] then None
          else (case ParseInt 64 baseStr of None \<Rightarrow> None | Some baseOffset \<Rightarrow> Some (baseOffset, kind)))
        in if HasSuffix filename ''.kfs'' then parse ''.kfs'' KindKfs
           else if HasSuffix filename ''.index'' then parse ''.index'' KindIndex
           else None)"

definition parseSegmentKey :: "string \<Rightarrow> string \<Rightarrow> (seg_id \<times> seg_kind) option" where
  "parseSegmentKey prfx key =
     (if prfx \<noteq> [] \<and> \<not> HasPrefix key prfx then None
      else
        case split_on CHR ''/'' (if prfx \<noteq> [] then TrimPrefix key prfx else key) of
          [topic, part, file] \<Rightarrow>
            if topic = [] then None
            else (case ParseInt 32 part of
                    None \<Rightarrow> None
                  | Some partitionID \<Rightarrow>
                      (case parseSegmentFile file of
                         None \<Rightarrow> None
                       | Some (baseOffset, kind) \<Rightarrow> Some ((topic, partitionID, baseOffset), kind)))
        | _ \<Rightarrow> None)"

text \<open>The SQL processor's copy takes the prefix off without requiring it, accepts further elements behind
  the file name and truncates the partition to 32 bits.\<close>

definition parseBaseOffset :: "string \<Rightarrow> string \<Rightarrow> string \<Rightarrow> int option" where
  "parseBaseOffset filename prfx sfx =
     (let v = TrimSuffix (TrimPrefix filename prfx) sfx in if v = [] then None else ParseInt 64 v)"

definition sql_parseSegmentKey :: "string \<Rightarrow> string \<Rightarrow> (seg_id \<times> seg_kind) option" where
  "sql_parseSegmentKey prfx key =
     (case split_on CHR ''/'' (TrimPrefix key prfx) of
        topic # part # filename # _ \<Rightarrow>
          (case ParseInt 64 part of
             None \<Rightarrow> None
           | Some pt \<Rightarrow>
               if HasPrefix filename ''segment-'' \<and> HasSuffix filename ''.kfs'' then
                 (case parseBaseOffset filename ''segment-'' ''.kfs'' of
                    None \<Rightarrow> None | Some base \<Rightarrow> Some ((topic, i32 pt, base), KindKfs))
               else if HasPrefix filename ''segment-'' \<and> HasSuffix filename ''.index'' then
                 (case parseBaseOffset filename ''segment-'' ''.index'' of
                    None \<Rightarrow> None | Some base \<Rightarrow> Some ((topic, i32 pt, base), KindIndex))
               else None)
      | _ \<Rightarrow> None)"

section \<open>Listing\<close>

text \<open>An object of a page.\<close>

record list_object =
  loKey :: string
  loSize :: int
  loModified :: time

record segment_ref =
  sgTopic :: string
  sgPartition :: int
  sgBaseOffset :: int
  sgSegmentKey :: string
  sgIndexKey :: string

record seg_entry =
  seKfsKey :: string
  seIndexKey :: string

text \<open>One object: the entry of its segment is looked up or made, and its field set.\<close>

definition add_object ::
  "(string \<Rightarrow> (seg_id \<times> seg_kind) option) \<Rightarrow> (seg_kind \<Rightarrow> list_object \<Rightarrow> 'e \<Rightarrow> 'e) \<Rightarrow> 'e \<Rightarrow> (seg_id \<times> 'e) list \<Rightarrow> list_object \<Rightarrow>
   (seg_id \<times> 'e) list" where
  "add_object parse upd new entries obj =
     (case parse (loKey obj) of
        None \<Rightarrow> entries
      | Some (parsed, kind) \<Rightarrow>
          AList.update parsed (upd kind obj (case map_of entries parsed of None \<Rightarrow> new | Some e \<Rightarrow> e)) entries)"

fun scan_pages :: "('m \<Rightarrow> list_object \<Rightarrow> 'm) \<Rightarrow> 'm \<Rightarrow> list_object list outcome list \<Rightarrow> 'm outcome" where
  "scan_pages add entries [] = Ok entries"
| "scan_pages add entries (page # pages) =
     bindO (wrapErr ''list objects'' page) (\<lambda>contents. scan_pages add (foldl add entries contents) pages)"

definition set_entry :: "seg_kind \<Rightarrow> list_object \<Rightarrow> seg_entry \<Rightarrow> seg_entry" where
  "set_entry kind obj e = (if kind = KindKfs then e\<lparr>seKfsKey := loKey obj\<rparr> else e\<lparr>seIndexKey := loKey obj\<rparr>)"

text \<open>\<open>getTail n key\<close> is a download with the range header \<open>bytes=-n\<close>.\<close>

definition hasFooterMagic :: "(nat \<Rightarrow> string \<Rightarrow> bytes outcome) \<Rightarrow> string \<Rightarrow> bool outcome" where
  "hasFooterMagic getTail key =
     bindO (getTail 4 key) (\<lambda>data.
       Ok (if length data < length footerMagic then False else drop (length data - length footerMagic) data = footerMagic))"

definition ref_id :: "'r segment_ref_scheme \<Rightarrow> seg_id" where
  "ref_id r = (sgTopic r, sgPartition r, sgBaseOffset r)"

type_synonym topic_filter = "(string \<times> int list) list"

definition filterAllows :: "topic_filter \<Rightarrow> string \<Rightarrow> int \<Rightarrow> bool" where
  "filterAllows flt topic part = (case map_of flt topic of None \<Rightarrow> False | Some parts \<Rightarrow> part \<in> set parts)"

definition filtered_parse :: "topic_filter option \<Rightarrow> string \<Rightarrow> string \<Rightarrow> (seg_id \<times> seg_kind) option" where
  "filtered_parse flt prfx key =
     (case parseSegmentKey prfx key of
        None \<Rightarrow> None
      | Some ((topic, part, base), kind) \<Rightarrow>
          if \<exists>f. flt = Some f \<and> \<not> filterAllows f topic part then None else Some ((topic, part, base), kind))"

definition ref_of_entry :: "seg_id \<times> seg_entry \<Rightarrow> segment_ref" where
  "ref_of_entry = (\<lambda>((topic, part, base), e).
     \<lparr>sgTopic = topic, sgPartition = part, sgBaseOffset = base, sgSegmentKey = seKfsKey e, sgIndexKey = seIndexKey e\<rparr>)"

definition entry_complete :: "(nat \<Rightarrow> string \<Rightarrow> bytes outcome) \<Rightarrow> 'e seg_entry_scheme \<Rightarrow> bool" where
  "entry_complete getTail e \<longleftrightarrow>
     seKfsKey e \<noteq> [] \<and> seIndexKey e \<noteq> [] \<and> hasFooterMagic getTail (seKfsKey e) = Ok True"

definition listCompleted ::
  "list_object list outcome list \<Rightarrow> (nat \<Rightarrow> string \<Rightarrow> bytes outcome) \<Rightarrow> string \<Rightarrow> topic_filter option \<Rightarrow> segment_ref list outcome" where
  "listCompleted pages getTail prfx flt =
     bindO (scan_pages (add_object (filtered_parse flt prfx) set_entry \<lparr>seKfsKey = [], seIndexKey = []\<rparr>) [] pages) (\<lambda>entries.
       Ok (sort_key ref_id (map ref_of_entry (filter (\<lambda>(k, e). entry_complete getTail e) entries))))"

section \<open>The filter from the metadata snapshot\<close>

definition buildTopicPartitionFilter :: "cluster_metadata \<Rightarrow> topic_filter" where
  "buildTopicPartitionFilter snapshot =
     foldl (\<lambda>flt topic.
        if mtErrorCode topic \<noteq> 0 then flt
        else
          let partitions = map mpPartitionIndex (filter (\<lambda>p. mpErrorCode p = 0) (mtPartitions topic)) in
          if partitions = [] then flt
          else AList.update (mtName topic) partitions flt) [] (cmTopics snapshot)"

text \<open>\<open>etcdLister.ListCompleted\<close>; the snapshot is what the read of its key returned, \<open>None\<close> without the key.\<close>

definition etcd_ListCompleted ::
  "bool \<Rightarrow> cluster_metadata option outcome \<Rightarrow> (topic_filter option \<Rightarrow> segment_ref list outcome) \<Rightarrow> segment_ref list outcome" where
  "etcd_ListCompleted strict snapshot listing =
     (case snapshot of
        Panic \<Rightarrow> Panic
      | Err e \<Rightarrow> if strict then Err e else listing None
      | Ok None \<Rightarrow> if strict then Err (ErrText ''metadata snapshot not found in etcd'') else listing None
      | Ok (Some m) \<Rightarrow> listing (Some (buildTopicPartitionFilter m)))"

section \<open>The listing of the SQL processor\<close>

record sql_ref = segment_ref +
  sgSizeBytes :: int
  sgLastModified :: time
  sgMinOffset :: "int option"
  sgMaxOffset :: "int option"
  sgMinTimestamp :: "int option"
  sgMaxTimestamp :: "int option"

record sql_entry = seg_entry +
  seKfsSize :: int
  seKfsModified :: time

definition sql_set_entry :: "seg_kind \<Rightarrow> list_object \<Rightarrow> sql_entry \<Rightarrow> sql_entry" where
  "sql_set_entry kind obj e =
     (if kind = KindKfs then e\<lparr>seKfsKey := loKey obj, seKfsSize := loSize obj, seKfsModified := loModified obj\<rparr>
      else e\<lparr>seIndexKey := loKey obj\<rparr>)"

text \<open>The time index of a segment: one footer with the bounds of its records.\<close>

definition timeIndexFooterMagic :: bytes where "timeIndexFooterMagic = [75, 70, 84, 70]"
definition timeIndexFooterSize :: nat where "timeIndexFooterSize = 40"

record time_footer =
  tfMinTS :: int
  tfMaxTS :: int
  tfMinOffset :: int
  tfMaxOffset :: int

definition encodeTimeIndexFooter :: "int \<Rightarrow> int \<Rightarrow> int \<Rightarrow> int \<Rightarrow> bytes" where
  "encodeTimeIndexFooter minTS maxTS minOffset maxOffset =
     timeIndexFooterMagic @ be 4 1 @ be 8 minTS @ be 8 maxTS @ be 8 minOffset @ be 8 maxOffset"

definition parseTimeIndexFooter :: "bytes \<Rightarrow> time_footer outcome" where
  "parseTimeIndexFooter data =
     (if length data < timeIndexFooterSize then Err (ErrText ''time index footer too short'')
      else
        let footer = drop (length data - timeIndexFooterSize) data in
        if take 4 footer \<noteq> timeIndexFooterMagic then Err (ErrText ''invalid time index footer magic'')
        else Ok \<lparr>tfMinTS = i64 (u64_at footer 8), tfMaxTS = i64 (u64_at footer 16),
                 tfMinOffset = i64 (u64_at footer 24), tfMaxOffset = i64 (u64_at footer 32)\<rparr>)"

definition timeIndexKey :: "string \<Rightarrow> string \<Rightarrow> string" where
  "timeIndexKey keySuffix segKey =
     (if \<not> HasSuffix segKey ''.kfs'' then [] else TrimSuffix segKey ''.kfs'' @ keySuffix)"

definition readFooter :: "(nat \<Rightarrow> string \<Rightarrow> bytes outcome) \<Rightarrow> string \<Rightarrow> time_footer outcome" where
  "readFooter getTail key = bindO (getTail timeIndexFooterSize key) parseTimeIndexFooter"

definition if_nil :: "int \<Rightarrow> int option \<Rightarrow> int option" where
  "if_nil v p = (case p of None \<Rightarrow> Some v | Some x \<Rightarrow> Some x)"

definition enrich :: "(nat \<Rightarrow> string \<Rightarrow> bytes outcome) \<Rightarrow> string \<Rightarrow> sql_ref \<Rightarrow> sql_ref" where
  "enrich getTail keySuffix seg =
     (if sgSegmentKey seg = [] then seg
      else if sgMinTimestamp seg \<noteq> None \<and> sgMaxTimestamp seg \<noteq> None \<and> sgMinOffset seg \<noteq> None \<and> sgMaxOffset seg \<noteq> None then seg
      else
        let key = timeIndexKey keySuffix (sgSegmentKey seg) in
        if key = [] then seg
        else
          (case readFooter getTail key of
             Ok footer \<Rightarrow>
               seg\<lparr>sgMinTimestamp := if_nil (tfMinTS footer) (sgMinTimestamp seg),
                   sgMaxTimestamp := if_nil (tfMaxTS footer) (sgMaxTimestamp seg),
                   sgMinOffset := if_nil (tfMinOffset footer) (sgMinOffset seg),
                   sgMaxOffset := if_nil (tfMaxOffset footer) (sgMaxOffset seg)\<rparr>
           | _ \<Rightarrow> seg))"

definition sql_ref_of_entry :: "(sql_ref \<Rightarrow> sql_ref) \<Rightarrow> seg_id \<times> sql_entry \<Rightarrow> sql_ref" where
  "sql_ref_of_entry timeIndex = (\<lambda>((topic, part, base), e).
     timeIndex
       \<lparr>sgTopic = topic, sgPartition = part, sgBaseOffset = base, sgSegmentKey = seKfsKey e, sgIndexKey = seIndexKey e,
        sgSizeBytes = seKfsSize e, sgLastModified = seKfsModified e, sgMinOffset = Some base, sgMaxOffset = None,
        sgMinTimestamp = None, sgMaxTimestamp = None\<rparr>)"

text \<open>The segment behind the first of a list, if it is of the same partition.\<close>

definition findNextSegment :: "sql_ref list \<Rightarrow> sql_ref option" where
  "findNextSegment segments =
     (case segments of
        current # next # _ \<Rightarrow>
          if sgTopic next \<noteq> sgTopic current \<or> sgPartition next \<noteq> sgPartition current then None else Some next
      | _ \<Rightarrow> None)"

fun set_max_offsets :: "sql_ref list \<Rightarrow> sql_ref list" where
  "set_max_offsets [] = []"
| "set_max_offsets (seg # segs) =
     (case findNextSegment (seg # segs) of
        None \<Rightarrow> seg
      | Some next \<Rightarrow>
          if sgBaseOffset next > 0 then seg\<lparr>sgMaxOffset := Some (sgBaseOffset next - 1)\<rparr> else seg) # set_max_offsets segs"

text \<open>\<open>keySuffix\<close> is that of the time index reader, \<open>None\<close> without one.\<close>

definition sql_ListCompleted ::
  "list_object list outcome list \<Rightarrow> (nat \<Rightarrow> string \<Rightarrow> bytes outcome) \<Rightarrow> string \<Rightarrow> string option \<Rightarrow> sql_ref list outcome" where
  "sql_ListCompleted pages getTail prfx keySuffix =
     bindO (scan_pages (add_object (sql_parseSegmentKey prfx) sql_set_entry
        \<lparr>seKfsKey = [], seIndexKey = [], seKfsSize = 0, seKfsModified = 0\<rparr>) [] pages) (\<lambda>entries.
       let timeIndex = (case keySuffix of None \<Rightarrow> (\<lambda>seg. seg) | Some sfx \<Rightarrow> enrich getTail sfx) in
       Ok (set_max_offsets (sort_key ref_id
             (map (sql_ref_of_entry timeIndex) (filter (\<lambda>(k, e). entry_complete getTail e) entries)))))"

section \<open>The cache in front of a listing\<close>

record cached_lister =
  clTtl :: duration
  clMaxEntries :: int
  clExpiresAt :: time
  clSegments :: "sql_ref list"

definition newCachedLister :: "duration \<Rightarrow> int \<Rightarrow> cached_lister" where
  "newCachedLister ttl maxEntries = \<lparr>clTtl = ttl, clMaxEntries = maxEntries, clExpiresAt = 0, clSegments = []\<rparr>"

definition cached_ListCompleted ::
  "('w \<Rightarrow> sql_ref list outcome \<times> 'w) \<Rightarrow> time \<Rightarrow> cached_lister \<times> 'w \<Rightarrow> sql_ref list outcome \<times> cached_lister \<times> 'w" where
  "cached_ListCompleted listing now = (\<lambda>(c, w).
     if clSegments c \<noteq> [] \<and> now < clExpiresAt c then (Ok (clSegments c), c, w)
     else
       (case listing w of
          (Ok segments, w) \<Rightarrow>
            if clMaxEntries c > 0 \<and> int (length segments) > clMaxEntries c then (Ok segments, c, w)
            else (Ok segments, c\<lparr>clSegments := segments, clExpiresAt := now + clTtl c\<rparr>, w)
        | (Err e, w) \<Rightarrow> (Err e, c, w)
        | (Panic, w) \<Rightarrow> (Panic, c, w)))"

section \<open>The manifest\<close>

record manifest_entry =
  meTopic :: string
  mePartition :: "int option"
  meSegmentKey :: string
  meIndexKey :: string
  meSizeBytes :: int
  meMinOffset :: "int option"
  meMaxOffset :: "int option"
  meMinTimestamp :: "int option"
  meMaxTimestamp :: "int option"
  meLastModified :: timestamp
  meUpdatedAt :: timestamp

definition joinKey :: "string \<Rightarrow> string \<Rightarrow> string" where
  "joinKey prfx key =
     (let clean = dropWhile (\<lambda>c. c = CHR ''/'') key in
      if prfx = [] then clean else if HasPrefix clean prfx then clean else prfx @ clean)"

definition trimPrefix :: "string \<Rightarrow> string \<Rightarrow> string" where
  "trimPrefix prfx key =
     (if prfx = [] then key
      else let clean = TrimPrefix key prfx in if clean = [] then key else TrimPrefix clean ''/'')"

definition parseBaseOffsetFromKey :: "string \<Rightarrow> int option" where
  "parseBaseOffsetFromKey key =
     (let file = last (split_on CHR ''/'' key); file = (if file = [] then key else file) in
      if HasSuffix file ''.kfs'' then parseBaseOffset file ''segment-'' ''.kfs'' else None)"

definition parseManifestTime :: "timestamp \<Rightarrow> time option" where
  "parseManifestTime v = (case v of TInstant t \<Rightarrow> Some t | _ \<Rightarrow> None)"

definition formatManifestTime :: "time \<Rightarrow> timestamp" where
  "formatManifestTime ts = (if ts = 0 then TEmpty else format_RFC3339Nano ts)"

definition manifest_segment :: "string \<Rightarrow> manifest_entry \<Rightarrow> sql_ref option" where
  "manifest_segment prfx entry =
     (if meSegmentKey entry = [] \<or> meIndexKey entry = [] then None
      else
        let segKey = joinKey prfx (meSegmentKey entry);
            idxKey = joinKey prfx (meIndexKey entry);
            parsed = sql_parseSegmentKey prfx segKey;
            baseOffset = (case parseBaseOffsetFromKey segKey of None \<Rightarrow> 0 | Some b \<Rightarrow> b);
            topic = (if meTopic entry = [] then (case parsed of None \<Rightarrow> [] | Some ((t, _), _) \<Rightarrow> t) else meTopic entry);
            pt = (case mePartition entry of
                    Some p \<Rightarrow> p
                  | None \<Rightarrow> (case parsed of None \<Rightarrow> 0 | Some ((_, p, _), _) \<Rightarrow> p))
        in if topic = [] then None
           else Some
             \<lparr>sgTopic = topic, sgPartition = pt, sgBaseOffset = baseOffset, sgSegmentKey = segKey, sgIndexKey = idxKey,
              sgSizeBytes = meSizeBytes entry,
              sgLastModified = (case parseManifestTime (meLastModified entry) of None \<Rightarrow> 0 | Some ts \<Rightarrow> ts),
              sgMinOffset = meMinOffset entry, sgMaxOffset = meMaxOffset entry,
              sgMinTimestamp = meMinTimestamp entry, sgMaxTimestamp = meMaxTimestamp entry\<rparr>)"

definition manifestEntriesToSegments :: "string \<Rightarrow> manifest_entry list \<Rightarrow> sql_ref list" where
  "manifestEntriesToSegments prfx entries = List.map_filter (manifest_segment prfx) entries"

definition manifest_entry_of :: "string \<Rightarrow> time \<Rightarrow> sql_ref \<Rightarrow> manifest_entry" where
  "manifest_entry_of prfx now seg =
     \<lparr>meTopic = sgTopic seg, mePartition = Some (sgPartition seg), meSegmentKey = trimPrefix prfx (sgSegmentKey seg),
      meIndexKey = trimPrefix prfx (sgIndexKey seg), meSizeBytes = sgSizeBytes seg, meMinOffset = sgMinOffset seg,
      meMaxOffset = sgMaxOffset seg, meMinTimestamp = sgMinTimestamp seg, meMaxTimestamp = sgMaxTimestamp seg,
      meLastModified = formatManifestTime (sgLastModified seg), meUpdatedAt = format_RFC3339Nano now\<rparr>"

definition manifest_entries :: "string \<Rightarrow> time \<Rightarrow> sql_ref list \<Rightarrow> manifest_entry list" where
  "manifest_entries prfx now segments =
     map (manifest_entry_of prfx now) (filter (\<lambda>seg. sgSegmentKey seg \<noteq> [] \<and> sgIndexKey seg \<noteq> []) segments)"

definition manifestEstimatedBytes :: "sql_ref list \<Rightarrow> int" where
  "manifestEstimatedBytes segments =
     foldl (\<lambda>acc seg. if sgSizeBytes seg > 0 then i64 (acc + sgSizeBytes seg) else acc) 0 segments"

text \<open>The lister that prefers the manifest; \<open>load\<close> reads the object under its key and gives the entries.\<close>

record manifest_lister =
  mlKey :: string
  mlPrefix :: string
  mlTtl :: duration
  mlExpiresAt :: time
  mlSegments :: "sql_ref list"

definition newManifestLister :: "string \<Rightarrow> string \<Rightarrow> duration \<Rightarrow> manifest_lister" where
  "newManifestLister prfx key ttl =
     \<lparr>mlKey = joinKey prfx (if key = [] then ''manifest.json'' else key), mlPrefix = prfx, mlTtl = ttl,
      mlExpiresAt = 0, mlSegments = []\<rparr>"

definition manifest_ListCompleted ::
  "(string \<Rightarrow> 'w \<Rightarrow> manifest_entry list outcome \<times> 'w) \<Rightarrow> ('w \<Rightarrow> sql_ref list outcome \<times> 'w) option \<Rightarrow> time \<Rightarrow>
   manifest_lister \<times> 'w \<Rightarrow> sql_ref list outcome \<times> manifest_lister \<times> 'w" where
  "manifest_ListCompleted load fallback now = (\<lambda>(m, w).
     if mlSegments m \<noteq> [] \<and> now < mlExpiresAt m then (Ok (mlSegments m), m, w)
     else
       (case load (mlKey m) w of
          (Panic, w) \<Rightarrow> (Panic, m, w)
        | (Err e, w) \<Rightarrow>
            (case fallback of None \<Rightarrow> (Err e, m, w) | Some listing \<Rightarrow> (case listing w of (r, w) \<Rightarrow> (r, m, w)))
        | (Ok entries, w) \<Rightarrow>
            let segments = manifestEntriesToSegments (mlPrefix m) entries in
            if segments = [] then
              (case fallback of None \<Rightarrow> (Ok [], m, w) | Some listing \<Rightarrow> (case listing w of (r, w) \<Rightarrow> (r, m, w)))
            else if mlTtl m > 0 then (Ok segments, m\<lparr>mlSegments := segments, mlExpiresAt := now + mlTtl m\<rparr>, w)
            else (Ok segments, m, w)))"

section \<open>The lease of the builders\<close>

record build_lease =
  blHolder :: string
  blExpiresAt :: time

definition newBuildLease :: build_lease where
  "newBuildLease = \<lparr>blHolder = [], blExpiresAt = 0\<rparr>"

definition lease_release :: "string \<Rightarrow> build_lease \<Rightarrow> build_lease" where
  "lease_release holder l = (if blHolder l = holder then \<lparr>blHolder = [], blExpiresAt = 0\<rparr> else l)"

definition Acquire :: "bool \<Rightarrow> string \<Rightarrow> duration \<Rightarrow> time \<Rightarrow> build_lease \<Rightarrow> unit outcome \<times> build_lease" where
  "Acquire cancelled holder ttl now l =
     (let ttl = (if ttl \<le> 0 then 30 * second else ttl) in
      if holder = [] then (Err (ErrText ''lease holder required''), l)
      else if blHolder l \<noteq> [] \<and> now < blExpiresAt l then (Err (ErrText ''build lease already held''), l)
      else
        let l = \<lparr>blHolder = holder, blExpiresAt = now + ttl\<rparr> in
        if cancelled then (Err ErrContext, lease_release holder l) else (Ok (), l))"

section \<open>The builders\<close>

record manifest_builder =
  mbKey :: string
  mbPrefix :: string
  mbMaxSegments :: int
  mbMaxBytes :: int
  mbLease :: build_lease
  mbLeaseTTL :: duration

definition newManifestBuilder :: "string \<Rightarrow> string \<Rightarrow> int \<Rightarrow> int \<Rightarrow> manifest_builder" where
  "newManifestBuilder prfx key maxSegments maxBytes =
     \<lparr>mbKey = joinKey prfx (if key = [] then ''manifest.json'' else key), mbPrefix = prfx, mbMaxSegments = maxSegments,
      mbMaxBytes = maxBytes, mbLease = newBuildLease, mbLeaseTTL = 120 * second\<rparr>"

text \<open>Between acquiring the lease and the deferred release; \<open>put\<close> stores the document under the key.\<close>

definition build_manifest ::
  "('w \<Rightarrow> sql_ref list outcome \<times> 'w) option \<Rightarrow> (string \<Rightarrow> manifest_entry list \<Rightarrow> 'w \<Rightarrow> unit outcome \<times> 'w) \<Rightarrow> time \<Rightarrow>
   manifest_builder \<Rightarrow> 'w \<Rightarrow> unit outcome \<times> 'w" where
  "build_manifest lister put now b w =
     (case lister of
        None \<Rightarrow> (Err (ErrText ''manifest builder requires a lister''), w)
      | Some listing \<Rightarrow>
          (case listing w of
             (Err e, w) \<Rightarrow> (Err e, w)
           | (Panic, w) \<Rightarrow> (Panic, w)
           | (Ok segments, w) \<Rightarrow>
               if mbMaxSegments b > 0 \<and> int (length segments) > mbMaxSegments b
               then (Err (ErrText ''manifest build exceeds max segments''), w)
               else if mbMaxBytes b > 0 \<and> manifestEstimatedBytes segments > mbMaxBytes b
               then (Err (ErrText ''manifest build exceeds max bytes''), w)
               else
                 (case put (mbKey b) (manifest_entries (mbPrefix b) now segments) w of
                    (r, w) \<Rightarrow> (wrapErr ''put manifest'' r, w))))"

definition manifest_Build ::
  "('w \<Rightarrow> sql_ref list outcome \<times> 'w) option \<Rightarrow> (string \<Rightarrow> manifest_entry list \<Rightarrow> 'w \<Rightarrow> unit outcome \<times> 'w) \<Rightarrow> bool \<Rightarrow> time \<Rightarrow>
   time \<Rightarrow> manifest_builder \<times> 'w \<Rightarrow> unit outcome \<times> manifest_builder \<times> 'w" where
  "manifest_Build lister put cancelled now updated = (\<lambda>(b, w).
     (case Acquire cancelled ''manifest'' (mbLeaseTTL b) now (mbLease b) of
        (Ok _, l) \<Rightarrow>
          (case build_manifest lister put updated b w of
             (r, w) \<Rightarrow> (r, b\<lparr>mbLease := lease_release ''manifest'' l\<rparr>, w))
      | (Err e, l) \<Rightarrow> (Err e, b\<lparr>mbLease := l\<rparr>, w)
      | (Panic, l) \<Rightarrow> (Panic, b\<lparr>mbLease := l\<rparr>, w)))"

record bounds =
  bdMinTS :: int
  bdMaxTS :: int
  bdMinOffset :: int
  bdMaxOffset :: int

definition widen :: "bounds \<Rightarrow> krecord \<Rightarrow> bounds" where
  "widen b r =
     \<lparr>bdMinTS = (if rcTimestamp r < bdMinTS b then rcTimestamp r else bdMinTS b),
      bdMaxTS = (if rcTimestamp r > bdMaxTS b then rcTimestamp r else bdMaxTS b),
      bdMinOffset = (if rcOffset r < bdMinOffset b then rcOffset r else bdMinOffset b),
      bdMaxOffset = (if rcOffset r > bdMaxOffset b then rcOffset r else bdMaxOffset b)\<rparr>"

definition scanSegment :: "krecord list outcome \<Rightarrow> bounds option" where
  "scanSegment decoded =
     (case decoded of
        Ok (r # rs) \<Rightarrow>
          Some (foldl widen \<lparr>bdMinTS = rcTimestamp r, bdMaxTS = rcTimestamp r, bdMinOffset = rcOffset r, bdMaxOffset = rcOffset r\<rparr> rs)
      | _ \<Rightarrow> None)"

text \<open>The loop of \<open>TimeIndexBuilder.Build\<close> over the listed segments. \<open>cancelled\<close> tells for every turn whether the
  context has ended; \<open>put\<close> stores an object.\<close>

fun build_time_indexes ::
  "(sql_ref \<Rightarrow> krecord list outcome) \<Rightarrow> (string \<Rightarrow> bytes \<Rightarrow> 'w \<Rightarrow> unit outcome \<times> 'w) \<Rightarrow> string \<Rightarrow> (nat \<Rightarrow> bool) \<Rightarrow>
   sql_ref list \<Rightarrow> 'w \<Rightarrow> unit outcome \<times> 'w" where
  "build_time_indexes dec put keySuffix cancelled [] w = (Ok (), w)"
| "build_time_indexes dec put keySuffix cancelled (seg # segs) w =
     (let next = build_time_indexes dec put keySuffix (\<lambda>n. cancelled (Suc n)) segs in
      if cancelled 0 then (Err ErrContext, w)
      else if sgSegmentKey seg = [] \<or> sgIndexKey seg = [] then next w
      else if dec seg = Panic then (Panic, w)
      else
        (case scanSegment (dec seg) of
           None \<Rightarrow> next w
         | Some b \<Rightarrow>
             let key = timeIndexKey keySuffix (sgSegmentKey seg) in
             if key = [] then next w
             else
               (case put key (encodeTimeIndexFooter (bdMinTS b) (bdMaxTS b) (bdMinOffset b) (bdMaxOffset b)) w of
                  (Ok _, w) \<Rightarrow> next w
                | (r, w) \<Rightarrow> (wrapErr ''put time index'' r, w))))"

record time_index_builder =
  tbKeySuffix :: string
  tbMaxSegments :: int
  tbMaxBytes :: int
  tbLease :: build_lease
  tbLeaseTTL :: duration

definition newTimeIndexBuilder :: "string \<Rightarrow> int \<Rightarrow> int \<Rightarrow> time_index_builder" where
  "newTimeIndexBuilder keySuffix maxSegments maxBytes =
     \<lparr>tbKeySuffix = (if keySuffix = [] then ''.kfst'' else keySuffix), tbMaxSegments = maxSegments, tbMaxBytes = maxBytes,
      tbLease = newBuildLease, tbLeaseTTL = 120 * second\<rparr>"

definition segmentsSizeBytes :: "sql_ref list \<Rightarrow> int" where
  "segmentsSizeBytes segments =
     foldl (\<lambda>acc seg. if sgSizeBytes seg > 0 then i64 (acc + sgSizeBytes seg) else acc) 0 segments"

definition build_time_index ::
  "('w \<Rightarrow> sql_ref list outcome \<times> 'w) option \<Rightarrow> (sql_ref \<Rightarrow> krecord list outcome) option \<Rightarrow>
   (string \<Rightarrow> bytes \<Rightarrow> 'w \<Rightarrow> unit outcome \<times> 'w) \<Rightarrow> (nat \<Rightarrow> bool) \<Rightarrow> time_index_builder \<Rightarrow> 'w \<Rightarrow> unit outcome \<times> 'w" where
  "build_time_index lister decoder put cancelled b w =
     (case (lister, decoder) of
        (Some listing, Some dec) \<Rightarrow>
          (case listing w of
             (Err e, w) \<Rightarrow> (Err e, w)
           | (Panic, w) \<Rightarrow> (Panic, w)
           | (Ok segments, w) \<Rightarrow>
               if tbMaxSegments b > 0 \<and> int (length segments) > tbMaxSegments b
               then (Err (ErrText ''time index build exceeds max segments''), w)
               else if tbMaxBytes b > 0 \<and> segmentsSizeBytes segments > tbMaxBytes b
               then (Err (ErrText ''time index build exceeds max bytes''), w)
               else build_time_indexes dec put (tbKeySuffix b) cancelled segments w)
      | _ \<Rightarrow> (Err (ErrText ''time index builder requires lister and decoder''), w))"

definition time_index_Build ::
  "('w \<Rightarrow> sql_ref list outcome \<times> 'w) option \<Rightarrow> (sql_ref \<Rightarrow> krecord list outcome) option \<Rightarrow>
   (string \<Rightarrow> bytes \<Rightarrow> 'w \<Rightarrow> unit outcome \<times> 'w) \<Rightarrow> bool \<Rightarrow> (nat \<Rightarrow> bool) \<Rightarrow> time \<Rightarrow> time_index_builder \<times> 'w \<Rightarrow>
   unit outcome \<times> time_index_builder \<times> 'w" where
  "time_index_Build lister decoder put cancelled ended now = (\<lambda>(b, w).
     (case Acquire cancelled ''time-index'' (tbLeaseTTL b) now (tbLease b) of
        (Ok _, l) \<Rightarrow>
          (case build_time_index lister decoder put ended b w of
             (r, w) \<Rightarrow> (r, b\<lparr>tbLease := lease_release ''time-index'' l\<rparr>, w))
      | (Err e, l) \<Rightarrow> (Err e, b\<lparr>tbLease := l\<rparr>, w)
      | (Panic, l) \<Rightarrow> (Panic, b\<lparr>tbLease := l\<rparr>, w)))"

end
