(* ===== verification/Discovery_Correctness.thy ===== *)
theory Discovery_Correctness
  imports Segment_Discovery
begin

text \<open>
  Correctness of the discovery of segments: the keys of a partition log parse to the segment they
  were built for, a listing gives exactly the complete segments in order, and the part of it that
  belongs to a partition log is the list of the segments the log has recorded.
\<close>

section \<open>Keys\<close>

text \<open>A namespace of plain elements, which joining leaves alone.\<close>

definition clean_ns :: "string \<Rightarrow> bool" where
  "clean_ns ns \<longleftrightarrow> (\<forall>e \<in> set (split_on CHR ''/'' ns). plain_elem e)"

lemma join_split: "join_with c (split_on c s) = s"
proof (induction s)
  case (Cons x xs)
  then show ?case by (cases "split_on c xs") (auto simp: join_with_def)
qed (simp)

lemma foldl_clean_push: "\<forall>e \<in> set es. plain_elem e \<Longrightarrow> foldl (clean_push r) st es = rev es @ st"
  by (induction es arbitrary: st) (simp_all add: clean_push_plain)

lemma clean_ns_ends:
  assumes "clean_ns ns"
  shows "ns \<noteq> []" "hd ns \<noteq> CHR ''/''" "last ns \<noteq> CHR ''/''"
proof -
  have no: "[] \<notin> set (split_on CHR ''/'' ns)" using assms unfolding clean_ns_def plain_elem_def by blast
  then show ne: "ns \<noteq> []" by (cases ns) simp_all
  then obtain x xs where "ns = x # xs" by (cases ns) blast
  with no show "hd ns \<noteq> CHR ''/''" by auto
  from ne obtain n y where n: "ns = n @ [y]" by (cases ns rule: rev_cases) blast
  have "y \<noteq> CHR ''/''"
  proof
    assume "y = CHR ''/''"
    with n have "split_on CHR ''/'' ns = split_on CHR ''/'' n @ split_on CHR ''/'' []" by (simp only: split_on_append)
    with no show False by simp
  qed
  with n show "last ns \<noteq> CHR ''/''" by simp
qed

lemma path_Clean_clean: "clean_ns p \<Longrightarrow> path_Clean p = p"
  using clean_ns_ends [of p] by (simp add: path_Clean_def clean_ns_def foldl_clean_push join_split Let_def)

lemma clean_ns_append: "clean_ns p \<Longrightarrow> plain_elem e \<Longrightarrow> clean_ns (p @ CHR ''/'' # e)"
  by (auto simp: clean_ns_def split_on_append plain_elem_def)

lemma normalizePrefix_clean: "clean_ns ns \<Longrightarrow> normalizePrefix ns = ns @ ''/''"
proof -
  assume "clean_ns ns"
  note e = clean_ns_ends [OF this]
  then have "dropWhile (\<lambda>c. c = CHR ''/'') ns = ns" "dropWhile (\<lambda>c. c = CHR ''/'') (rev ns) = rev ns"
    by (simp_all add: dropWhile_eq_self_iff hd_rev)
  with e have "Trim_slash ns = ns" "ns \<noteq> []" by (simp_all add: Trim_slash_def)
  then show ?thesis by (simp add: normalizePrefix_def)
qed

text \<open>The object keys of a segment under a prefix.\<close>

definition object_key :: "string \<Rightarrow> seg_id \<Rightarrow> seg_kind \<Rightarrow> string" where
  "object_key prfx = (\<lambda>(topic, part, base) kind.
     prfx @ topic @ ''/'' @ fmt_d part @ ''/'' @ (case kind of KindKfs \<Rightarrow> segment_name base | KindIndex \<Rightarrow> index_name base))"

definition log_id :: "'s plog \<Rightarrow> int \<Rightarrow> seg_id" where
  "log_id l base = (plTopic l, plPartition l, base)"

definition id_ok :: "seg_id \<Rightarrow> bool" where
  "id_ok = (\<lambda>(topic, part, base). topic \<noteq> [] \<and> CHR ''/'' \<notin> set topic \<and> in_i32 part \<and> in_i64 base)"

lemma log_object_keys:
  assumes "clean_ns (plNamespace l)" "plain_elem (plTopic l)"
  shows "segmentKey l base = object_key (normalizePrefix (plNamespace l)) (log_id l base) KindKfs"
    and "indexKey l base = object_key (normalizePrefix (plNamespace l)) (log_id l base) KindIndex"
proof -
  define ns t p where "ns = plNamespace l" and "t = plTopic l" and "p = fmt_d (plPartition l)"
  have "clean_ns ((ns @ CHR ''/'' # t) @ CHR ''/'' # p)"
    unfolding ns_def t_def p_def by (intro clean_ns_append assms plain_fmt_d)
  from path_Clean_clean [OF this] have "path_Clean (ns @ CHR ''/'' # t @ CHR ''/'' # p) = ns @ CHR ''/'' # t @ CHR ''/'' # p" by simp
  moreover have ne: "ns \<noteq> []" using clean_ns_ends(1) [OF assms(1)] by (simp add: ns_def)
  ultimately have pre: "segmentPrefix l = ns @ CHR ''/'' # t @ CHR ''/'' # p @ ''/''"
    by (simp add: segmentPrefix_def path_Join_def join_with_def ns_def [symmetric] t_def [symmetric] p_def [symmetric])
  have "plNamespace l \<noteq> []" using ne by (simp add: ns_def)
  note k = segmentKey_prefix [OF this, of base] indexKey_prefix [OF this, of base]
  have n: "normalizePrefix (plNamespace l) = ns @ ''/''" using normalizePrefix_clean [OF assms(1)] by (simp add: ns_def)
  show "segmentKey l base = object_key (normalizePrefix (plNamespace l)) (log_id l base) KindKfs"
    and "indexKey l base = object_key (normalizePrefix (plNamespace l)) (log_id l base) KindIndex"
    unfolding k pre n object_key_def log_id_def by (simp_all add: t_def p_def)
qed

lemma file_names:
  "HasPrefix (segment_name b) ''segment-''" "HasSuffix (segment_name b) ''.kfs''"
  "TrimSuffix (TrimPrefix (segment_name b) ''segment-'') ''.kfs'' = fmt_020d b"
  "HasPrefix (index_name b) ''segment-''" "\<not> HasSuffix (index_name b) ''.kfs''" "HasSuffix (index_name b) ''.index''"
  "TrimSuffix (TrimPrefix (index_name b) ''segment-'') ''.index'' = fmt_020d b"
  "CHR ''/'' \<notin> set (segment_name b)" "CHR ''/'' \<notin> set (index_name b)" "CHR ''/'' \<notin> set (fmt_d p)"
proof -
  have "HasSuffix (a @ t) t" "TrimSuffix (a @ t) t = a" for a t :: string by simp_all
  note sfx = this [of "''segment-'' @ fmt_020d b"] this [of "fmt_020d b"]
  show "HasPrefix (segment_name b) ''segment-''" "HasPrefix (index_name b) ''segment-''"
    by (simp_all add: segment_name_def index_name_def HasPrefix_def)
  show "HasSuffix (segment_name b) ''.kfs''" "HasSuffix (index_name b) ''.index''"
    using sfx(1) [of "''.kfs''"] sfx(1) [of "''.index''"] by (simp_all add: segment_name_def index_name_def)
  have "TrimPrefix (segment_name b) ''segment-'' = fmt_020d b @ ''.kfs''" "TrimPrefix (index_name b) ''segment-'' = fmt_020d b @ ''.index''"
    by (simp_all add: segment_name_def index_name_def TrimPrefix_def HasPrefix_def)
  then show "TrimSuffix (TrimPrefix (segment_name b) ''segment-'') ''.kfs'' = fmt_020d b"
    "TrimSuffix (TrimPrefix (index_name b) ''segment-'') ''.index'' = fmt_020d b" by simp_all
  have "last (index_name b) = CHR ''x''" by (simp add: index_name_def)
  moreover have "last s = CHR ''s''" if "HasSuffix s ''.kfs''" for s using that by (auto simp: HasSuffix_iff)
  ultimately show "\<not> HasSuffix (index_name b) ''.kfs''" by auto
  show "CHR ''/'' \<notin> set (segment_name b)" "CHR ''/'' \<notin> set (index_name b)" "CHR ''/'' \<notin> set (fmt_d p)"
    using fmt_020d_free [of "CHR ''/''" b] fmt_d_free [of "CHR ''/''" p] by (simp_all add: segment_name_def index_name_def)
qed

lemma parse_file_names: "in_i64 b \<Longrightarrow> parseSegmentFile (segment_name b) = Some (b, KindKfs)"
  "in_i64 b \<Longrightarrow> parseSegmentFile (index_name b) = Some (b, KindIndex)"
  by (simp_all add: parseSegmentFile_def file_names ParseInt_fmt_020d Let_def)

lemma split_object_key:
  assumes "CHR ''/'' \<notin> set topic"
  shows "split_on CHR ''/'' (TrimPrefix (object_key prfx (topic, part, base) kind) prfx) =
    [topic, fmt_d part, (case kind of KindKfs \<Rightarrow> segment_name base | KindIndex \<Rightarrow> index_name base)]"
  using assms by (simp add: object_key_def split_on_append file_names split: seg_kind.splits)

lemma parse_object_key:
  assumes "id_ok i"
  shows "parseSegmentKey prfx (object_key prfx i kind) = Some (i, kind)"
    and "sql_parseSegmentKey prfx (object_key prfx i kind) = Some (i, kind)"
proof -
  obtain topic part base where i: "i = (topic, part, base)" by (cases i)
  with assms have ok: "topic \<noteq> []" "CHR ''/'' \<notin> set topic" "in_i32 part" "in_i64 base" by (simp_all add: id_ok_def)
  have pre: "HasPrefix (object_key prfx i kind) prfx" by (simp add: i object_key_def)
  have "in_i64 part" using ok(3) by (simp add: in_i32_def in_i64_def)
  note parts = ParseInt_fmt_d_i32 [OF ok(3)] ParseInt_fmt_d_i64 [OF this]
  have "prfx = [] \<Longrightarrow> TrimPrefix (object_key prfx i kind) prfx = object_key prfx i kind" by (simp add: TrimPrefix_def)
  then show "parseSegmentKey prfx (object_key prfx i kind) = Some (i, kind)"
    using pre ok parts split_object_key [OF ok(2), of prfx part base kind]
    by (cases kind; cases "prfx = []") (simp_all add: parseSegmentKey_def i parse_file_names)
  show "sql_parseSegmentKey prfx (object_key prfx i kind) = Some (i, kind)"
    using ok parts split_object_key [OF ok(2), of prfx part base kind]
    by (cases kind) (simp_all add: sql_parseSegmentKey_def i file_names parseBaseOffset_def ParseInt_fmt_020d i32_id Let_def)
qed

section \<open>Listings\<close>

text \<open>What the objects of a listing make of the entry of one segment.\<close>

definition entry_of ::
  "(string \<Rightarrow> (seg_id \<times> seg_kind) option) \<Rightarrow> (seg_kind \<Rightarrow> list_object \<Rightarrow> 'e \<Rightarrow> 'e) \<Rightarrow> 'e \<Rightarrow> seg_id \<Rightarrow> list_object list \<Rightarrow> 'e" where
  "entry_of parse upd new i objs =
     foldl (\<lambda>e obj. case parse (loKey obj) of None \<Rightarrow> e | Some (j, kind) \<Rightarrow> if j = i then upd kind obj e else e) new objs"

definition listed :: "(string \<Rightarrow> (seg_id \<times> seg_kind) option) \<Rightarrow> list_object list \<Rightarrow> seg_id \<Rightarrow> seg_kind \<Rightarrow> bool" where
  "listed parse objs i kind \<longleftrightarrow> (\<exists>obj \<in> set objs. parse (loKey obj) = Some (i, kind))"

lemma map_of_add_objects:
  "map_of (foldl (add_object parse upd new) m objs) i =
     (if (\<exists>kind. listed parse objs i kind) \<or> map_of m i \<noteq> None
      then Some (entry_of parse upd (case map_of m i of None \<Rightarrow> new | Some e \<Rightarrow> e) i objs) else None)"
proof (induction objs arbitrary: m)
  case Nil
  then show ?case by (auto simp: listed_def entry_of_def split: option.splits)
next
  case (Cons obj objs)
  show ?case
  proof (cases "parse (loKey obj)")
    case None
    then show ?thesis using Cons [of m] by (auto simp: listed_def entry_of_def add_object_def)
  next
    case (Some a)
    then obtain j kind where p: "parse (loKey obj) = Some (j, kind)" by (cases a) simp
    show ?thesis
    proof (cases "j = i")
      case True
      with p have "\<exists>kind. listed parse (obj # objs) i kind" by (auto simp: listed_def)
      with True p show ?thesis using Cons [of "add_object parse upd new m obj"]
        by (simp add: entry_of_def add_object_def update_conv')
    next
      case False
      then have "listed parse (obj # objs) i = listed parse objs i" using p by (auto simp: listed_def fun_eq_iff)
      with False p show ?thesis using Cons [of "add_object parse upd new m obj"]
        by (simp add: entry_of_def add_object_def update_conv')
    qed
  qed
qed

lemma map_wf_add_objects: "map_wf m \<Longrightarrow> map_wf (foldl (add_object parse upd new) m objs)"
  by (induction objs arbitrary: m) (auto simp: add_object_def split: option.splits)

lemma scan_pages_Ok: "scan_pages add m (map Ok conts) = Ok (foldl add m (concat conts))"
  by (induction conts arbitrary: m) simp_all

text \<open>Only the broker writes objects with such names: every listed key that parses is the one the
  broker gives the segment.\<close>

definition canonical :: "(string \<Rightarrow> (seg_id \<times> seg_kind) option) \<Rightarrow> string \<Rightarrow> list_object list \<Rightarrow> bool" where
  "canonical parse prfx objs \<longleftrightarrow>
     (\<forall>obj \<in> set objs. \<forall>x. parse (loKey obj) = Some x \<longrightarrow> loKey obj = object_key prfx (fst x) (snd x))"

text \<open>The two listers fill the keys of an entry in the same way.\<close>

locale entry_fields =
  fixes upd :: "seg_kind \<Rightarrow> list_object \<Rightarrow> 'e seg_entry_scheme \<Rightarrow> 'e seg_entry_scheme" and new :: "'e seg_entry_scheme"
  assumes upd_kfs: "seKfsKey (upd KindKfs obj e) = loKey obj" "seIndexKey (upd KindKfs obj e) = seIndexKey e"
    and upd_index: "seKfsKey (upd KindIndex obj e) = seKfsKey e" "seIndexKey (upd KindIndex obj e) = loKey obj"
    and new_keys: "seKfsKey new = []" "seIndexKey new = []"
begin

lemma entry_keys:
  assumes "canonical parse prfx objs"
  shows "seKfsKey (entry_of parse upd new i objs) = (if listed parse objs i KindKfs then object_key prfx i KindKfs else []) \<and>
    seIndexKey (entry_of parse upd new i objs) = (if listed parse objs i KindIndex then object_key prfx i KindIndex else [])"
  using assms
proof (induction objs rule: rev_induct)
  case Nil
  then show ?case by (simp add: entry_of_def listed_def new_keys)
next
  case (snoc obj objs)
  let ?e = "entry_of parse upd new i objs"
  have IH: "seKfsKey ?e = (if listed parse objs i KindKfs then object_key prfx i KindKfs else [])"
    "seIndexKey ?e = (if listed parse objs i KindIndex then object_key prfx i KindIndex else [])"
    using snoc by (auto simp: canonical_def)
  show ?case
  proof (cases "\<exists>kind. parse (loKey obj) = Some (i, kind)")
    case True
    then obtain kind where p: "parse (loKey obj) = Some (i, kind)" by blast
    then have "loKey obj = object_key prfx i kind" using snoc.prems by (cases i) (simp add: canonical_def)
    moreover have "entry_of parse upd new i (objs @ [obj]) = upd kind obj ?e" by (simp add: entry_of_def p)
    moreover have "listed parse (objs @ [obj]) i k \<longleftrightarrow> listed parse objs i k \<or> k = kind" for k
      using p by (auto simp: listed_def)
    ultimately show ?thesis using IH by (cases kind) (simp_all add: upd_kfs upd_index)
  next
    case False
    then have "listed parse (objs @ [obj]) i = listed parse objs i" "entry_of parse upd new i (objs @ [obj]) = ?e"
      by (auto simp: listed_def entry_of_def fun_eq_iff split: option.splits prod.splits)
    with IH show ?thesis by simp
  qed
qed

text \<open>The complete entries of a listing are the segments whose two objects are listed and whose footer is there.\<close>

lemma complete_entries:
  assumes c: "canonical parse prfx objs"
  shows "(i, e) \<in> set (filter (\<lambda>(k, e). entry_complete getTail e) (foldl (add_object parse upd new) [] objs)) \<longleftrightarrow>
    listed parse objs i KindKfs \<and> listed parse objs i KindIndex \<and> e = entry_of parse upd new i objs \<and>
    hasFooterMagic getTail (object_key prfx i KindKfs) = Ok True"
proof -
  let ?m = "foldl (add_object parse upd new) [] objs"
  have "(i, e) \<in> set ?m \<longleftrightarrow> map_of ?m i = Some e" using map_wf_lookup [OF map_wf_add_objects [of "[]" parse upd new objs]] by simp
  also have "\<dots> \<longleftrightarrow> (\<exists>kind. listed parse objs i kind) \<and> e = entry_of parse upd new i objs"
    by (auto simp: map_of_add_objects)
  finally have "(i, e) \<in> set ?m \<longleftrightarrow> (\<exists>kind. listed parse objs i kind) \<and> e = entry_of parse upd new i objs" .
  moreover have "object_key prfx i KindKfs \<noteq> []" "object_key prfx i KindIndex \<noteq> []"
    by (cases i; simp add: object_key_def)+
  ultimately show ?thesis using entry_keys [OF c, of i] by (auto simp: entry_complete_def split: if_splits)
qed

lemma distinct_entries: "distinct (map fst (filter P (foldl (add_object parse upd new) [] objs)))"
  using map_wf_filter [OF map_wf_add_objects [of "[]" parse upd new objs]] by (simp add: map_wf_def)

end

interpretation ice: entry_fields set_entry "\<lparr>seKfsKey = [], seIndexKey = []\<rparr>"
  by unfold_locales (simp_all add: set_entry_def)

interpretation sqe: entry_fields sql_set_entry "\<lparr>seKfsKey = [], seIndexKey = [], seKfsSize = 0, seKfsModified = 0\<rparr>"
  by unfold_locales (simp_all add: sql_set_entry_def)

lemma sorted_refs:
  assumes "distinct (map ref_id rs)"
  shows "sorted_wrt (\<lambda>a b. ref_id a < ref_id b) (sort_key ref_id rs)" "set (sort_key ref_id rs) = set rs"
proof -
  have "sorted (map ref_id (sort_key ref_id rs))" "distinct (map ref_id (sort_key ref_id rs))"
    using assms by (simp_all add: distinct_map)
  then have "sorted_wrt (<) (map ref_id (sort_key ref_id rs))" by (simp add: strict_sorted_iff)
  then show "sorted_wrt (\<lambda>a b. ref_id a < ref_id b) (sort_key ref_id rs)" by (simp add: sorted_wrt_map)
qed simp

lemma listCompleted_exact:
  assumes c: "canonical (filtered_parse flt prfx) prfx (concat conts)"
  shows "\<exists>refs. listCompleted (map Ok conts) getTail prfx flt = Ok refs \<and>
    sorted_wrt (\<lambda>a b. ref_id a < ref_id b) refs \<and>
    (\<forall>r. r \<in> set refs \<longleftrightarrow>
       listed (filtered_parse flt prfx) (concat conts) (ref_id r) KindKfs \<and>
       listed (filtered_parse flt prfx) (concat conts) (ref_id r) KindIndex \<and>
       sgSegmentKey r = object_key prfx (ref_id r) KindKfs \<and> sgIndexKey r = object_key prfx (ref_id r) KindIndex \<and>
       hasFooterMagic getTail (sgSegmentKey r) = Ok True)"
proof -
  let ?parse = "filtered_parse flt prfx" and ?new = "\<lparr>seKfsKey = [], seIndexKey = []\<rparr>"
  let ?m = "foldl (add_object ?parse set_entry ?new) [] (concat conts)"
  let ?es = "filter (\<lambda>(k, e). entry_complete getTail e) ?m"
  let ?rs = "map ref_of_entry ?es"
  have id: "map ref_id ?rs = map fst ?es" by (auto simp: ref_of_entry_def ref_id_def)
  have dis: "distinct (map ref_id ?rs)" unfolding id by (rule ice.distinct_entries)
  have "listCompleted (map Ok conts) getTail prfx flt = Ok (sort_key ref_id ?rs)"
    by (simp add: listCompleted_def scan_pages_Ok)
  moreover have "r \<in> set ?rs \<longleftrightarrow>
      listed ?parse (concat conts) (ref_id r) KindKfs \<and> listed ?parse (concat conts) (ref_id r) KindIndex \<and>
      sgSegmentKey r = object_key prfx (ref_id r) KindKfs \<and> sgIndexKey r = object_key prfx (ref_id r) KindIndex \<and>
      hasFooterMagic getTail (sgSegmentKey r) = Ok True" for r
  proof -
    have "r \<in> set ?rs \<longleftrightarrow> (\<exists>e. (ref_id r, e) \<in> set ?es \<and> seKfsKey e = sgSegmentKey r \<and> seIndexKey e = sgIndexKey r)"
      by (cases r) (force simp: ref_of_entry_def ref_id_def)
    then show ?thesis
      unfolding ice.complete_entries [OF c] using ice.entry_keys [OF c, of "ref_id r"] by auto
  qed
  ultimately show ?thesis using sorted_refs [OF dis] by blast
qed


definition demo_objects :: "list_object list" where
  "demo_objects = map (\<lambda>kind. \<lparr>loKey = object_key ''prod/'' (''t'', 0, 7) kind, loSize = 50, loModified = 1\<rparr>) [KindKfs, KindIndex]"

lemma demo_objects_parse: "parseSegmentKey ''prod/'' (object_key ''prod/'' (''t'', 0, 7) kind) = Some ((''t'', 0, 7), kind)"
  by (rule parse_object_key(1)) (simp add: id_ok_def in_i32_def in_i64_def)


section \<open>The segments of a partition log\<close>

definition log_ref :: "'s plog \<Rightarrow> segment_range \<Rightarrow> segment_ref" where
  "log_ref l s =
     \<lparr>sgTopic = plTopic l, sgPartition = plPartition l, sgBaseOffset = srBase s,
      sgSegmentKey = segmentKey l (srBase s), sgIndexKey = indexKey l (srBase s)\<rparr>"

text \<open>The two objects of every recorded segment are listed, and no other segment of the partition.\<close>

definition log_objects :: "(string \<Rightarrow> (seg_id \<times> seg_kind) option) \<Rightarrow> 's plog \<Rightarrow> list_object list \<Rightarrow> bool" where
  "log_objects parse l objs \<longleftrightarrow>
     (\<forall>s \<in> set (plSegments l). segmentKey l (srBase s) \<in> loKey ` set objs \<and> indexKey l (srBase s) \<in> loKey ` set objs) \<and>
     (\<forall>b kind. listed parse objs (log_id l b) kind \<longrightarrow> b \<in> srBase ` set (plSegments l))"

text \<open>The objects of the recorded segments in the store of the log.\<close>

definition log_segments :: "('s \<Rightarrow> string \<Rightarrow> bytes option) \<Rightarrow> 's plog \<Rightarrow> string \<Rightarrow> bytes option" where
  "log_segments segs l k = (if k \<in> (\<lambda>s. segmentKey l (srBase s)) ` set (plSegments l) then segs (plS3 l) k else None)"

definition log_indexes :: "('s \<Rightarrow> string \<Rightarrow> bytes option) \<Rightarrow> 's plog \<Rightarrow> string \<Rightarrow> bytes option" where
  "log_indexes idx l k = (if k \<in> (\<lambda>s. indexKey l (srBase s)) ` set (plSegments l) then idx (plS3 l) k else None)"

text \<open>A suffix range of a stored object returns its last bytes.\<close>

definition tails_of :: "(string \<Rightarrow> bytes option) \<Rightarrow> (nat \<Rightarrow> string \<Rightarrow> bytes outcome) \<Rightarrow> bool" where
  "tails_of objects getTail \<longleftrightarrow> (\<forall>n k d. objects k = Some d \<longrightarrow> getTail n k = Ok (drop (length d - n) d))"

lemma stored_footer:
  assumes "seg_stored segs idx l s g" "tails_of (log_segments segs l) getTail" "s \<in> set (plSegments l)"
  shows "hasFooterMagic getTail (segmentKey l (srBase s)) = Ok True"
proof -
  from assms(1) obtain t a where a: "BuildSegment (pcSegment (plCfg l)) g t = Ok a"
    "segs (plS3 l) (segmentKey l (srBase s)) = Some (saSegmentBytes a)" by (auto simp: seg_stored_def)
  from BuildSegment_Ok(5) [OF a(1)] obtain d where d: "saSegmentBytes a = d @ footerMagic" by (simp add: buildFooter_def)
  have "log_segments segs l (segmentKey l (srBase s)) = Some (saSegmentBytes a)" using a(2) assms(3) by (auto simp: log_segments_def)
  then have "getTail 4 (segmentKey l (srBase s)) = Ok footerMagic"
    using assms(2) d by (simp add: tails_of_def footerMagic_def)
  then show ?thesis by (simp add: hasFooterMagic_def)
qed

lemma sorted_by_id_unique:
  assumes "sorted_wrt (\<lambda>a b. ref_id a < ref_id b) xs" "sorted_wrt (\<lambda>a b. ref_id a < ref_id b) ys" "set xs = set ys"
  shows "xs = ys"
proof -
  have s: "sorted (map ref_id zs)" "distinct (map ref_id zs)" if "sorted_wrt (\<lambda>a b. ref_id a < ref_id b) zs" for zs :: "'a segment_ref_scheme list"
    using that by (simp_all add: sorted_wrt_map [of "(<)" ref_id zs, symmetric] strict_sorted_iff del: sorted_wrt_map)
  have "map ref_id xs = map ref_id ys" using s [OF assms(1)] s [OF assms(2)] assms(3)
    by (intro sorted_distinct_set_unique) simp_all
  moreover have "inj_on ref_id (set xs \<union> set ys)" using s(2) [OF assms(1)] assms(3) by (simp add: distinct_map)
  ultimately show ?thesis by (rule inj_on_map_eq_map [THEN iffD1, rotated])
qed

text \<open>What listing a log needs of the log and of the processor that reads it.\<close>

definition log_exposed :: "'s plog \<Rightarrow> string \<Rightarrow> bool" where
  "log_exposed l prfx \<longleftrightarrow>
     clean_ns (plNamespace l) \<and> plain_elem (plTopic l) \<and> in_i32 (plPartition l) \<and> prfx = normalizePrefix (plNamespace l)"

lemma log_exposed_keys:
  assumes "log_exposed l prfx"
  shows "segmentKey l b = object_key prfx (log_id l b) KindKfs" "indexKey l b = object_key prfx (log_id l b) KindIndex"
    "in_i64 b \<Longrightarrow> id_ok (log_id l b)"
  using assms log_object_keys [of l b] by (auto simp: log_exposed_def log_id_def id_ok_def plain_elem_def)

lemma log_ids:
  assumes l: "log_ok segs idx ok l G" and n: "log_exposed l prfx" and o: "log_objects parse l objs" and c: "canonical parse prfx objs"
    and parse: "\<And>b kind. in_i64 b \<Longrightarrow> parse (object_key prfx (log_id l b) kind) = Some (log_id l b, kind)"
    and tails: "tails_of (log_segments segs l) getTail"
  shows "listed parse objs (log_id l b) KindKfs \<and> listed parse objs (log_id l b) KindIndex \<and>
      hasFooterMagic getTail (object_key prfx (log_id l b) KindKfs) = Ok True \<longleftrightarrow> b \<in> srBase ` set (plSegments l)"
proof
  assume "b \<in> srBase ` set (plSegments l)"
  then obtain s where s: "s \<in> set (plSegments l)" "b = srBase s" by blast
  have b: "in_i64 b" using log_ok_bases(2) [OF l s(1)] s(2) by simp
  have at: "listed parse objs (log_id l b) kind" if "object_key prfx (log_id l b) kind \<in> loKey ` set objs" for kind
    using that parse [OF b, of kind] by (auto simp: listed_def)
  have "segmentKey l b \<in> loKey ` set objs" "indexKey l b \<in> loKey ` set objs" using o s by (simp_all add: log_objects_def)
  then have "listed parse objs (log_id l b) KindKfs" "listed parse objs (log_id l b) KindIndex"
    unfolding log_exposed_keys [OF n] by (simp_all add: at)
  moreover from l s(1) obtain g where "seg_stored segs idx l s g" by (auto simp: log_ok_def dest: log_inv_seg)
  from stored_footer [OF this tails s(1)] have "hasFooterMagic getTail (object_key prfx (log_id l b) KindKfs) = Ok True"
    by (simp add: log_exposed_keys [OF n] s(2))
  ultimately show "listed parse objs (log_id l b) KindKfs \<and> listed parse objs (log_id l b) KindIndex \<and>
      hasFooterMagic getTail (object_key prfx (log_id l b) KindKfs) = Ok True" by blast
qed (use o in \<open>auto simp: log_objects_def\<close>)

lemma log_listed:
  assumes l: "log_ok segs idx ok l G" and n: "log_exposed l prfx"
    and o: "log_objects (filtered_parse flt prfx) l (concat conts)" and c: "canonical (filtered_parse flt prfx) prfx (concat conts)"
    and flt: "\<And>f. flt = Some f \<Longrightarrow> filterAllows f (plTopic l) (plPartition l)"
    and tails: "tails_of (log_segments segs l) getTail"
  obtains refs where "listCompleted (map Ok conts) getTail prfx flt = Ok refs"
    "filter (\<lambda>r. sgTopic r = plTopic l \<and> sgPartition r = plPartition l) refs = map (log_ref l) (plSegments l)"
proof -
  let ?parse = "filtered_parse flt prfx" and ?mine = "\<lambda>r :: segment_ref. sgTopic r = plTopic l \<and> sgPartition r = plPartition l"
  obtain refs where refs: "listCompleted (map Ok conts) getTail prfx flt = Ok refs" "sorted_wrt (\<lambda>a b. ref_id a < ref_id b) refs"
    and mem: "\<And>r. r \<in> set refs \<longleftrightarrow> listed ?parse (concat conts) (ref_id r) KindKfs \<and>
       listed ?parse (concat conts) (ref_id r) KindIndex \<and>
       sgSegmentKey r = object_key prfx (ref_id r) KindKfs \<and> sgIndexKey r = object_key prfx (ref_id r) KindIndex \<and>
       hasFooterMagic getTail (sgSegmentKey r) = Ok True" using listCompleted_exact [OF c, of getTail] by blast
  have parse: "?parse (object_key prfx (log_id l b) kind) = Some (log_id l b, kind)" if "in_i64 b" for b kind
    using parse_object_key(1) [OF log_exposed_keys(3) [OF n that]] flt by (auto simp: filtered_parse_def log_id_def)
  note ids = log_ids [OF l n o c parse tails]
  have mine: "?mine r \<longleftrightarrow> ref_id r = log_id l (sgBaseOffset r)" for r by (auto simp: ref_id_def log_id_def)
  have "r \<in> set refs \<and> ?mine r \<longleftrightarrow> r \<in> log_ref l ` set (plSegments l)" for r
  proof -
    have "r \<in> set refs \<and> ?mine r \<longleftrightarrow> ?mine r \<and> sgBaseOffset r \<in> srBase ` set (plSegments l) \<and>
        sgSegmentKey r = segmentKey l (sgBaseOffset r) \<and> sgIndexKey r = indexKey l (sgBaseOffset r)"
      unfolding mem mine log_exposed_keys [OF n] using ids [of "sgBaseOffset r"] by auto
    also have "\<dots> \<longleftrightarrow> r \<in> log_ref l ` set (plSegments l)" by (cases r) (auto simp: log_ref_def image_iff)
    finally show ?thesis .
  qed
  then have "set (filter ?mine refs) = set (map (log_ref l) (plSegments l))" by auto
  moreover have "sorted_wrt (\<lambda>a b. ref_id a < ref_id b) (filter ?mine refs)" using refs(2) by (rule sorted_wrt_filter)
  moreover have "sorted_wrt (\<lambda>a b. ref_id a < ref_id b) (map (log_ref l) (plSegments l))"
    using log_ok_bases(1) [OF l] by (simp add: sorted_wrt_map log_ref_def ref_id_def)
  ultimately have "filter ?mine refs = map (log_ref l) (plSegments l)" by (intro sorted_by_id_unique)
  with refs(1) show thesis by (rule that)
qed

end
