(* ===== verification/Discovery_Bounds.thy ===== *)
theory Discovery_Bounds
  imports Discovery_Correctness
begin

text \<open>
  The listing of the SQL processor and what it adds to a segment: the offset and time bounds by which
  queries leave segments out. The bounds of a listing hold for the records of the segments, the
  time index a builder writes is read back as the bounds of the segment, and the manifest gives
  back the listing it was built from. Two faults: a topic that is named like the namespace is
  misaddressed by the manifest, and a builder that outlives its lease releases the lease of the next.
\<close>

section \<open>Bounds\<close>

text \<open>The bounds of a segment reference hold for a list of records.\<close>

definition bounds_hold :: "sql_ref \<Rightarrow> krecord list \<Rightarrow> bool" where
  "bounds_hold r rs \<longleftrightarrow> (\<forall>x \<in> set rs.
     (\<forall>m. sgMinOffset r = Some m \<longrightarrow> m \<le> rcOffset x) \<and> (\<forall>m. sgMaxOffset r = Some m \<longrightarrow> rcOffset x \<le> m) \<and>
     (\<forall>m. sgMinTimestamp r = Some m \<longrightarrow> m \<le> rcTimestamp x) \<and> (\<forall>m. sgMaxTimestamp r = Some m \<longrightarrow> rcTimestamp x \<le> m))"

definition footer_holds :: "time_footer \<Rightarrow> krecord list \<Rightarrow> bool" where
  "footer_holds f rs \<longleftrightarrow> (\<forall>x \<in> set rs.
     tfMinOffset f \<le> rcOffset x \<and> rcOffset x \<le> tfMaxOffset f \<and> tfMinTS f \<le> rcTimestamp x \<and> rcTimestamp x \<le> tfMaxTS f)"

lemma bounds_hold_enrich:
  assumes "bounds_hold r rs" "\<And>f. readFooter getTail (timeIndexKey sfx (sgSegmentKey r)) = Ok f \<Longrightarrow> footer_holds f rs"
  shows "bounds_hold (enrich getTail sfx r) rs"
proof (cases "readFooter getTail (timeIndexKey sfx (sgSegmentKey r))")
  case (Ok f)
  with assms(2) have f: "footer_holds f rs" by blast
  let ?r = "r\<lparr>sgMinTimestamp := if_nil (tfMinTS f) (sgMinTimestamp r), sgMaxTimestamp := if_nil (tfMaxTS f) (sgMaxTimestamp r),
      sgMinOffset := if_nil (tfMinOffset f) (sgMinOffset r), sgMaxOffset := if_nil (tfMaxOffset f) (sgMaxOffset r)\<rparr>"
  have "bounds_hold ?r rs" using f assms(1) by (simp add: bounds_hold_def footer_holds_def if_nil_def split: option.splits)
  moreover have "enrich getTail sfx r = r \<or> enrich getTail sfx r = ?r"
    unfolding enrich_def Let_def Ok outcome.case by (simp only: split: if_split) blast
  ultimately show ?thesis using assms(1) by auto
qed (use assms(1) in \<open>simp_all add: enrich_def Let_def\<close>)

lemma enrich_fields [simp]:
  "sgTopic (enrich getTail sfx r) = sgTopic r" "sgPartition (enrich getTail sfx r) = sgPartition r"
  "sgBaseOffset (enrich getTail sfx r) = sgBaseOffset r" "sgSegmentKey (enrich getTail sfx r) = sgSegmentKey r"
  "sgIndexKey (enrich getTail sfx r) = sgIndexKey r" "ref_id (enrich getTail sfx r) = ref_id r"
  by (simp_all add: enrich_def Let_def ref_id_def split: outcome.splits)

text \<open>The records of a segment lie below the base offset of every later segment of its partition.\<close>

definition apart :: "(seg_id \<Rightarrow> krecord list) \<Rightarrow> seg_id set \<Rightarrow> bool" where
  "apart recs ids \<longleftrightarrow>
     (\<forall>t p b b'. (t, p, b) \<in> ids \<longrightarrow> (t, p, b') \<in> ids \<longrightarrow> b < b' \<longrightarrow> (\<forall>x \<in> set (recs (t, p, b)). rcOffset x < b'))"

definition same_segment :: "sql_ref \<Rightarrow> sql_ref \<Rightarrow> bool" where
  "same_segment r q \<longleftrightarrow> ref_id r = ref_id q \<and> sgSegmentKey r = sgSegmentKey q \<and> sgIndexKey r = sgIndexKey q"

lemma set_max_same: "list_all2 same_segment (set_max_offsets rs) rs"
  by (induction rs) (auto simp: same_segment_def ref_id_def split: option.splits)

lemma set_max_ids [simp]: "map ref_id (set_max_offsets rs) = map ref_id rs"
  using set_max_same [of rs] by (auto simp: list_all2_conv_all_nth same_segment_def intro: nth_equalityI)

lemma set_max_bounds:
  assumes "sorted_wrt (\<lambda>a b. ref_id a < ref_id b) rs" "\<forall>r \<in> set rs. bounds_hold r (recs (ref_id r))" "apart recs (ref_id ` set rs)"
  shows "\<forall>r \<in> set (set_max_offsets rs). bounds_hold r (recs (ref_id r))"
  using assms
proof (induction rs)
  case (Cons r rs)
  have "apart recs (ref_id ` set rs)" using Cons.prems(3) by (simp add: apart_def)
  with Cons have IH: "\<forall>r \<in> set (set_max_offsets rs). bounds_hold r (recs (ref_id r))" by simp
  have hr: "bounds_hold r (recs (ref_id r))" using Cons.prems(2) by simp
  have "bounds_hold (r\<lparr>sgMaxOffset := Some (sgBaseOffset next - 1)\<rparr>) (recs (ref_id r))"
    if n: "findNextSegment (r # rs) = Some next" for "next"
  proof -
    from n obtain qs where q: "rs = next # qs" "sgTopic next = sgTopic r" "sgPartition next = sgPartition r"
      by (auto simp: findNextSegment_def split: list.splits if_splits)
    have "ref_id r < ref_id next" using Cons.prems(1) q(1) by simp
    then have "sgBaseOffset r < sgBaseOffset next" using q(2,3) by (auto simp: ref_id_def)
    then have "\<forall>x \<in> set (recs (ref_id r)). rcOffset x < sgBaseOffset next"
      using Cons.prems(3) q by (simp add: apart_def ref_id_def)
    with hr show ?thesis by (simp add: bounds_hold_def)
  qed
  moreover have "ref_id (r\<lparr>sgMaxOffset := m\<rparr>) = ref_id r" for m by (simp add: ref_id_def)
  ultimately show ?case using IH hr by (auto split: option.splits)
qed simp

section \<open>The listing of the SQL processor\<close>

lemma sql_listing:
  assumes c: "canonical (sql_parseSegmentKey prfx) prfx (concat conts)"
  obtains rs where "sql_ListCompleted (map Ok conts) getTail prfx ks = Ok (set_max_offsets rs)"
    "sorted_wrt (\<lambda>a b. ref_id a < ref_id b) rs"
    "\<And>i. i \<in> ref_id ` set rs \<longleftrightarrow> listed (sql_parseSegmentKey prfx) (concat conts) i KindKfs \<and>
       listed (sql_parseSegmentKey prfx) (concat conts) i KindIndex \<and> hasFooterMagic getTail (object_key prfx i KindKfs) = Ok True"
    "\<And>r. r \<in> set rs \<Longrightarrow> \<exists>r0. sgMinOffset r0 = Some (sgBaseOffset r0) \<and> sgMaxOffset r0 = None \<and>
       sgMinTimestamp r0 = None \<and> sgMaxTimestamp r0 = None \<and> same_segment r r0 \<and>
       sgSegmentKey r = object_key prfx (ref_id r) KindKfs \<and> sgIndexKey r = object_key prfx (ref_id r) KindIndex \<and>
       r = (case ks of None \<Rightarrow> r0 | Some sfx \<Rightarrow> enrich getTail sfx r0)"
proof -
  let ?parse = "sql_parseSegmentKey prfx" and ?new = "\<lparr>seKfsKey = [], seIndexKey = [], seKfsSize = 0, seKfsModified = 0\<rparr>"
  let ?es = "filter (\<lambda>(k, e). entry_complete getTail e) (foldl (add_object ?parse sql_set_entry ?new) [] (concat conts))"
  let ?ti = "case ks of None \<Rightarrow> (\<lambda>seg. seg) | Some sfx \<Rightarrow> enrich getTail sfx"
  let ?rs = "map (sql_ref_of_entry ?ti) ?es"
  have id: "ref_id (sql_ref_of_entry ?ti x) = fst x" for x
    by (cases x; cases ks) (auto simp: sql_ref_of_entry_def ref_id_def)
  have ids: "map ref_id ?rs = map fst ?es" by (simp add: id)
  have dis: "distinct (map ref_id ?rs)" unfolding ids by (rule sqe.distinct_entries)
  note mem = sqe.complete_entries [OF c]
  show thesis
  proof (rule that)
    show "sql_ListCompleted (map Ok conts) getTail prfx ks = Ok (set_max_offsets (sort_key ref_id ?rs))"
      by (simp add: sql_ListCompleted_def scan_pages_Ok Let_def)
    show "sorted_wrt (\<lambda>a b. ref_id a < ref_id b) (sort_key ref_id ?rs)" by (rule sorted_refs [OF dis])
    show "i \<in> ref_id ` set (sort_key ref_id ?rs) \<longleftrightarrow> listed ?parse (concat conts) i KindKfs \<and>
       listed ?parse (concat conts) i KindIndex \<and> hasFooterMagic getTail (object_key prfx i KindKfs) = Ok True" for i
    proof -
      have "i \<in> ref_id ` set (sort_key ref_id ?rs) \<longleftrightarrow> i \<in> set (map ref_id ?rs)" by (simp add: image_image)
      also have "\<dots> \<longleftrightarrow> (\<exists>e. (i, e) \<in> set ?es)" unfolding ids by force
      finally show ?thesis unfolding mem by simp
    qed
    fix r assume "r \<in> set (sort_key ref_id ?rs)"
    then obtain i e where e: "(i, e) \<in> set ?es" "r = sql_ref_of_entry ?ti (i, e)" by auto
    let ?r0 = "sql_ref_of_entry (\<lambda>r. r) (i, e)"
    have r: "r = ?ti ?r0" unfolding e(2) by (cases i) (simp add: sql_ref_of_entry_def)
    then have r': "r = (case ks of None \<Rightarrow> ?r0 | Some sfx \<Rightarrow> enrich getTail sfx ?r0)" by (cases ks) simp_all
    have "ref_id r = i" unfolding e(2) id by simp
    moreover have "sgSegmentKey r = seKfsKey e" "sgIndexKey r = seIndexKey e"
      unfolding r' by (cases i; cases ks; simp add: sql_ref_of_entry_def)+
    moreover have "seKfsKey e = object_key prfx i KindKfs" "seIndexKey e = object_key prfx i KindIndex"
      using e(1) sqe.entry_keys [OF c, of i] unfolding mem by auto
    moreover have "same_segment r ?r0" unfolding r' by (cases ks) (simp_all add: same_segment_def)
    moreover have "sgMinOffset ?r0 = Some (sgBaseOffset ?r0)" "sgMaxOffset ?r0 = None" "sgMinTimestamp ?r0 = None" "sgMaxTimestamp ?r0 = None"
      by (cases i; simp add: sql_ref_of_entry_def)+
    ultimately show "\<exists>r0. sgMinOffset r0 = Some (sgBaseOffset r0) \<and> sgMaxOffset r0 = None \<and>
       sgMinTimestamp r0 = None \<and> sgMaxTimestamp r0 = None \<and> same_segment r r0 \<and>
       sgSegmentKey r = object_key prfx (ref_id r) KindKfs \<and> sgIndexKey r = object_key prfx (ref_id r) KindIndex \<and>
       r = (case ks of None \<Rightarrow> r0 | Some sfx \<Rightarrow> enrich getTail sfx r0)"
      using r' by (intro exI [of _ ?r0]) simp
  qed
qed

lemma sql_listing_bounds:
  assumes c: "canonical (sql_parseSegmentKey prfx) prfx (concat conts)"
    and refs: "sql_ListCompleted (map Ok conts) getTail prfx ks = Ok refs"
    and base: "\<And>t p b x. x \<in> set (recs (t, p, b)) \<Longrightarrow> b \<le> rcOffset x"
    and apart: "apart recs {i. listed (sql_parseSegmentKey prfx) (concat conts) i KindKfs}"
    and foot: "\<And>i sfx f. ks = Some sfx \<Longrightarrow> readFooter getTail (timeIndexKey sfx (object_key prfx i KindKfs)) = Ok f \<Longrightarrow> footer_holds f (recs i)"
    and r: "r \<in> set refs"
  shows "bounds_hold r (recs (ref_id r))"
proof -
  obtain rs where rs: "sql_ListCompleted (map Ok conts) getTail prfx ks = Ok (set_max_offsets rs)"
    "sorted_wrt (\<lambda>a b. ref_id a < ref_id b) rs"
    and ids: "\<And>i. i \<in> ref_id ` set rs \<longleftrightarrow> listed (sql_parseSegmentKey prfx) (concat conts) i KindKfs \<and>
       listed (sql_parseSegmentKey prfx) (concat conts) i KindIndex \<and> hasFooterMagic getTail (object_key prfx i KindKfs) = Ok True"
    and mem: "\<And>r. r \<in> set rs \<Longrightarrow> \<exists>r0. sgMinOffset r0 = Some (sgBaseOffset r0) \<and> sgMaxOffset r0 = None \<and>
       sgMinTimestamp r0 = None \<and> sgMaxTimestamp r0 = None \<and> same_segment r r0 \<and>
       sgSegmentKey r = object_key prfx (ref_id r) KindKfs \<and> sgIndexKey r = object_key prfx (ref_id r) KindIndex \<and>
       r = (case ks of None \<Rightarrow> r0 | Some sfx \<Rightarrow> enrich getTail sfx r0)" by (rule sql_listing [OF c, of getTail ks]) blast
  have "bounds_hold r (recs (ref_id r))" if r: "r \<in> set rs" for r
  proof -
    from mem [OF r] obtain r0 where r0: "sgMinOffset r0 = Some (sgBaseOffset r0)" "sgMaxOffset r0 = None"
      "sgMinTimestamp r0 = None" "sgMaxTimestamp r0 = None" and same: "ref_id r = ref_id r0" "sgSegmentKey r0 = object_key prfx (ref_id r) KindKfs"
      and eq: "r = (case ks of None \<Rightarrow> r0 | Some sfx \<Rightarrow> enrich getTail sfx r0)" by (auto simp: same_segment_def)
    have h0: "bounds_hold r0 (recs (ref_id r))" using r0 base unfolding same(1) by (auto simp: bounds_hold_def ref_id_def)
    show ?thesis
    proof (cases ks)
      case (Some sfx)
      with eq have "r = enrich getTail sfx r0" by simp
      with bounds_hold_enrich [OF h0, of getTail sfx] foot [OF Some, of "ref_id r"] same(2) show ?thesis by metis
    qed (use eq h0 in simp)
  qed
  moreover have "apart recs (ref_id ` set rs)" using apart ids by (auto simp: apart_def)
  ultimately show ?thesis using set_max_bounds [OF rs(2), of recs] refs rs(1) r by auto
qed

section \<open>The time index\<close>

lemma parse_encode_footer:
  assumes "in_i64 a" "in_i64 b" "in_i64 c" "in_i64 d"
  shows "parseTimeIndexFooter (encodeTimeIndexFooter a b c d) = Ok \<lparr>tfMinTS = a, tfMaxTS = b, tfMinOffset = c, tfMaxOffset = d\<rparr>"
  using assms by (simp add: parseTimeIndexFooter_def encodeTimeIndexFooter_def timeIndexFooterMagic_def timeIndexFooterSize_def u64_at_def codec_simps)

text \<open>The loop over the records computes least and greatest values.\<close>

lemma widen_fold:
  "b = \<lparr>bdMinTS = Min (rcTimestamp ` set xs), bdMaxTS = Max (rcTimestamp ` set xs),
        bdMinOffset = Min (rcOffset ` set xs), bdMaxOffset = Max (rcOffset ` set xs)\<rparr> \<Longrightarrow> xs \<noteq> [] \<Longrightarrow>
   foldl widen b ys = \<lparr>bdMinTS = Min (rcTimestamp ` set (xs @ ys)), bdMaxTS = Max (rcTimestamp ` set (xs @ ys)),
        bdMinOffset = Min (rcOffset ` set (xs @ ys)), bdMaxOffset = Max (rcOffset ` set (xs @ ys))\<rparr>"
proof (induction ys arbitrary: b xs)
  case (Cons y ys)
  have fin: "finite (f ` set xs)" "f ` set xs \<noteq> {}" for f :: "krecord \<Rightarrow> int" using Cons.prems(2) by simp_all
  have up: "Min (insert v M) = (if v < Min M then v else Min M)" "Max (insert v M) = (if v > Max M then v else Max M)"
    if M: "finite M" "M \<noteq> {}" for v :: int and M
  proof -
    show "Min (insert v M) = (if v < Min M then v else Min M)" unfolding Min_insert [OF M] by (simp only: min_def split: if_split) linarith
    show "Max (insert v M) = (if v > Max M then v else Max M)" unfolding Max_insert [OF M] by (simp only: max_def split: if_split) linarith
  qed
  have "widen b y = \<lparr>bdMinTS = Min (rcTimestamp ` set (xs @ [y])), bdMaxTS = Max (rcTimestamp ` set (xs @ [y])),
        bdMinOffset = Min (rcOffset ` set (xs @ [y])), bdMaxOffset = Max (rcOffset ` set (xs @ [y]))\<rparr>"
    using Cons.prems fin by (simp add: widen_def up del: Min_insert Max_insert)
  from Cons.IH [OF this] show ?case by simp
qed simp

lemma scanSegment_Ok:
  assumes "rs \<noteq> []"
  shows "scanSegment (Ok rs) =
    Some \<lparr>bdMinTS = Min (rcTimestamp ` set rs), bdMaxTS = Max (rcTimestamp ` set rs),
          bdMinOffset = Min (rcOffset ` set rs), bdMaxOffset = Max (rcOffset ` set rs)\<rparr>"
  using assms by (cases rs) (simp_all add: scanSegment_def widen_fold [of _ "[hd rs]"])

text \<open>The time index of a segment with these records.\<close>

definition index_of :: "krecord list \<Rightarrow> bytes" where
  "index_of rs = encodeTimeIndexFooter (Min (rcTimestamp ` set rs)) (Max (rcTimestamp ` set rs))
     (Min (rcOffset ` set rs)) (Max (rcOffset ` set rs))"

definition in_range :: "krecord list \<Rightarrow> bool" where
  "in_range rs \<longleftrightarrow> rs \<noteq> [] \<and> (\<forall>x \<in> set rs. in_i64 (rcTimestamp x) \<and> in_i64 (rcOffset x))"

lemma parse_index_of:
  assumes "in_range rs"
  shows "parseTimeIndexFooter (index_of rs) =
    Ok \<lparr>tfMinTS = Min (rcTimestamp ` set rs), tfMaxTS = Max (rcTimestamp ` set rs),
        tfMinOffset = Min (rcOffset ` set rs), tfMaxOffset = Max (rcOffset ` set rs)\<rparr>"
proof -
  have "in_i64 (Min (f ` set rs))" "in_i64 (Max (f ` set rs))" if "\<And>x. x \<in> set rs \<Longrightarrow> in_i64 (f x)" for f :: "krecord \<Rightarrow> int"
  proof -
    have "f ` set rs \<noteq> {}" "\<forall>v \<in> f ` set rs. in_i64 v" using assms that by (auto simp: in_range_def)
    with Min_in [of "f ` set rs"] Max_in [of "f ` set rs"] show "in_i64 (Min (f ` set rs))" "in_i64 (Max (f ` set rs))" by blast+
  qed
  then show ?thesis using assms unfolding index_of_def by (intro parse_encode_footer) (auto simp: in_range_def)
qed

lemma footer_holds_index: "in_range rs \<Longrightarrow> parseTimeIndexFooter (index_of rs) = Ok f \<Longrightarrow> footer_holds f rs"
  by (auto simp: parse_index_of footer_holds_def)

text \<open>A build stores the index of every segment and touches no other object.\<close>

definition put_map :: "string \<Rightarrow> bytes \<Rightarrow> (string \<Rightarrow> bytes option) \<Rightarrow> unit outcome \<times> (string \<Rightarrow> bytes option)" where
  "put_map k d w = (Ok (), w(k \<mapsto> d))"

lemma build_writes:
  assumes "\<forall>s \<in> set segs. HasSuffix (sgSegmentKey s) ''.kfs'' \<and> sgIndexKey s \<noteq> [] \<and> in_range (recs s) \<and> dec s = Ok (recs s)"
    and "sfx \<noteq> []" "distinct (map (\<lambda>s. timeIndexKey sfx (sgSegmentKey s)) segs)"
  shows "\<exists>w'. build_time_indexes dec put_map sfx (\<lambda>_. False) segs w = (Ok (), w') \<and>
    (\<forall>s \<in> set segs. w' (timeIndexKey sfx (sgSegmentKey s)) = Some (index_of (recs s))) \<and>
    (\<forall>k. k \<notin> (\<lambda>s. timeIndexKey sfx (sgSegmentKey s)) ` set segs \<longrightarrow> w' k = w k)"
  using assms
proof (induction segs arbitrary: w)
  case (Cons s segs)
  let ?k = "timeIndexKey sfx (sgSegmentKey s)"
  have s: "HasSuffix (sgSegmentKey s) ''.kfs''" "sgIndexKey s \<noteq> []" "recs s \<noteq> []" "dec s = Ok (recs s)"
    using Cons.prems(1) by (auto simp: in_range_def)
  have k: "?k \<noteq> []" "sgSegmentKey s \<noteq> []" using s(1) Cons.prems(2) by (auto simp: timeIndexKey_def HasSuffix_def)
  have step: "build_time_indexes dec put_map sfx (\<lambda>_. False) (s # segs) w =
      build_time_indexes dec put_map sfx (\<lambda>_. False) segs (w(?k \<mapsto> index_of (recs s)))"
    using s k by (simp add: scanSegment_Ok put_map_def index_of_def)
  from Cons.prems have "\<exists>w'. build_time_indexes dec put_map sfx (\<lambda>_. False) segs (w(?k \<mapsto> index_of (recs s))) = (Ok (), w') \<and>
      (\<forall>s \<in> set segs. w' (timeIndexKey sfx (sgSegmentKey s)) = Some (index_of (recs s))) \<and>
      (\<forall>k. k \<notin> (\<lambda>s. timeIndexKey sfx (sgSegmentKey s)) ` set segs \<longrightarrow> w' k = (w(?k \<mapsto> index_of (recs s))) k)"
    by (intro Cons.IH) simp_all
  then obtain w' where w': "build_time_indexes dec put_map sfx (\<lambda>_. False) segs (w(?k \<mapsto> index_of (recs s))) = (Ok (), w')"
      "\<forall>s \<in> set segs. w' (timeIndexKey sfx (sgSegmentKey s)) = Some (index_of (recs s))"
      "\<forall>k. k \<notin> (\<lambda>s. timeIndexKey sfx (sgSegmentKey s)) ` set segs \<longrightarrow> w' k = (w(?k \<mapsto> index_of (recs s))) k" by blast
  have "?k \<notin> (\<lambda>s. timeIndexKey sfx (sgSegmentKey s)) ` set segs" using Cons.prems(3) by simp
  with w'(2,3) show ?case unfolding step w'(1) by simp
qed simp


definition demo_ref :: "string \<Rightarrow> string \<Rightarrow> sql_ref" where
  "demo_ref prfx topic =
     \<lparr>sgTopic = topic, sgPartition = 0, sgBaseOffset = 7, sgSegmentKey = object_key prfx (topic, 0, 7) KindKfs,
      sgIndexKey = object_key prfx (topic, 0, 7) KindIndex, sgSizeBytes = 120, sgLastModified = 5, sgMinOffset = Some 7,
      sgMaxOffset = Some 8, sgMinTimestamp = None, sgMaxTimestamp = None\<rparr>"

definition demo_record :: "int \<Rightarrow> int \<Rightarrow> krecord" where
  "demo_record offset ts =
     \<lparr>rcTopic = ''t'', rcPartition = 0, rcOffset = offset, rcTimestamp = ts, rcKey = None, rcValue = Some [1], rcHeaders = []\<rparr>"


section \<open>The manifest\<close>

definition canonical_ref :: "string \<Rightarrow> sql_ref \<Rightarrow> bool" where
  "canonical_ref prfx r \<longleftrightarrow> id_ok (ref_id r) \<and>
     sgSegmentKey r = object_key prfx (ref_id r) KindKfs \<and> sgIndexKey r = object_key prfx (ref_id r) KindIndex"

lemma trim_object_key:
  assumes "id_ok i"
  shows "trimPrefix prfx (object_key prfx i kind) = object_key [] i kind" "object_key [] i kind \<noteq> []"
    "dropWhile (\<lambda>c. c = CHR ''/'') (object_key [] i kind) = object_key [] i kind"
proof -
  obtain t p b where i: "i = (t, p, b)" by (cases i)
  obtain c cs where t: "t = c # cs" "c \<noteq> CHR ''/''" using assms i by (cases t) (auto simp: id_ok_def)
  have key: "object_key q i kind = q @ object_key [] i kind" for q by (simp add: i object_key_def)
  have first: "\<exists>ds. object_key [] i kind = c # ds" by (simp add: i object_key_def t)
  then show "object_key [] i kind \<noteq> []" by auto
  from first show "dropWhile (\<lambda>c. c = CHR ''/'') (object_key [] i kind) = object_key [] i kind" using t(2) by auto
  from first have "TrimPrefix (object_key [] i kind) ''/'' = object_key [] i kind" using t(2) by (auto simp: TrimPrefix_def HasPrefix_def)
  then show "trimPrefix prfx (object_key prfx i kind) = object_key [] i kind"
    using \<open>object_key [] i kind \<noteq> []\<close> by (auto simp: trimPrefix_def key [of prfx] Let_def)
qed

lemma base_of_object_key:
  assumes "id_ok (t, p, b)"
  shows "parseBaseOffsetFromKey (object_key prfx (t, p, b) KindKfs) = Some b"
proof -
  let ?k = "object_key prfx (t, p, b) KindKfs"
  have "?k = (prfx @ t @ ''/'' @ fmt_d p) @ CHR ''/'' # segment_name b" by (simp add: object_key_def)
  then have "split_on CHR ''/'' ?k = split_on CHR ''/'' (prfx @ t @ ''/'' @ fmt_d p) @ [segment_name b]"
    by (simp only: split_on_append split_on_free [OF file_names(8)])
  moreover have "segment_name b \<noteq> []" by (simp add: segment_name_def)
  ultimately show ?thesis using assms file_names(2,3) [of b]
    by (simp add: parseBaseOffsetFromKey_def parseBaseOffset_def ParseInt_fmt_020d id_ok_def Let_def)
qed

lemma manifest_segment_entry:
  assumes r: "canonical_ref prfx r" and k: "\<And>kind. joinKey prfx (object_key [] (ref_id r) kind) = object_key q (ref_id r) kind"
  shows "manifest_segment prfx (manifest_entry_of prfx now r) =
    Some (r\<lparr>sgSegmentKey := object_key q (ref_id r) KindKfs, sgIndexKey := object_key q (ref_id r) KindIndex\<rparr>)"
proof -
  have i: "id_ok (ref_id r)" "sgSegmentKey r = object_key prfx (ref_id r) KindKfs" "sgIndexKey r = object_key prfx (ref_id r) KindIndex"
    using r by (simp_all add: canonical_ref_def)
  have "id_ok (sgTopic r, sgPartition r, sgBaseOffset r)" "ref_id r = (sgTopic r, sgPartition r, sgBaseOffset r)" "sgTopic r \<noteq> []"
    using i(1) by (simp_all add: ref_id_def id_ok_def)
  with base_of_object_key [of "sgTopic r" "sgPartition r" "sgBaseOffset r" q] show ?thesis
    using trim_object_key(1,2) [OF i(1)] i(2,3) k
    by (cases r) (simp add: manifest_segment_def manifest_entry_of_def Let_def formatManifestTime_def parseManifestTime_def
      format_RFC3339Nano_def)
qed



text \<open>
  The segments of a topic that is named like the namespace come back from the manifest with keys
  that lack the namespace: joinKey takes the topic element for the prefix.
\<close>

theorem manifest_loses_namespace:
  assumes "canonical_ref (sgTopic r @ ''/'') r"
  shows "manifestEntriesToSegments (sgTopic r @ ''/'') (manifest_entries (sgTopic r @ ''/'') now [r]) =
      [r\<lparr>sgSegmentKey := object_key [] (ref_id r) KindKfs, sgIndexKey := object_key [] (ref_id r) KindIndex\<rparr>] \<and>
    object_key [] (ref_id r) KindKfs \<noteq> sgSegmentKey r"
proof -
  let ?p = "sgTopic r @ ''/''"
  have i: "id_ok (ref_id r)" and k: "sgSegmentKey r = object_key ?p (ref_id r) KindKfs" "sgIndexKey r = object_key ?p (ref_id r) KindIndex"
    using assms by (simp_all add: canonical_ref_def)
  have "HasPrefix (object_key [] (ref_id r) kind) ?p" for kind by (simp add: ref_id_def object_key_def HasPrefix_iff)
  then have "joinKey ?p (object_key [] (ref_id r) kind) = object_key [] (ref_id r) kind" for kind
    using trim_object_key(3) [OF i] by (simp add: joinKey_def Let_def)
  from manifest_segment_entry [OF assms this, of now]
  have "manifest_segment ?p (manifest_entry_of ?p now r) =
    Some (r\<lparr>sgSegmentKey := object_key [] (ref_id r) KindKfs, sgIndexKey := object_key [] (ref_id r) KindIndex\<rparr>)" .
  moreover have "sgSegmentKey r \<noteq> []" "sgIndexKey r \<noteq> []" "object_key [] (ref_id r) KindKfs \<noteq> sgSegmentKey r"
    unfolding k by (simp_all add: ref_id_def object_key_def)
  ultimately show ?thesis by (simp add: manifestEntriesToSegments_def manifest_entries_def map_filter_simps)
qed

theorem manifest_loses_namespace_witness:
  "map sgSegmentKey (manifestEntriesToSegments ''t/'' (manifest_entries ''t/'' 9 [demo_ref ''t/'' ''t''])) =
     [''t/0/segment-00000000000000000007.kfs''] \<and>
   sgSegmentKey (demo_ref ''t/'' ''t'') = ''t/t/0/segment-00000000000000000007.kfs''"
proof -
  have "canonical_ref (sgTopic (demo_ref ''t/'' ''t'') @ ''/'') (demo_ref ''t/'' ''t'')"
    by (simp add: canonical_ref_def demo_ref_def ref_id_def id_ok_def in_i32_def in_i64_def)
  from manifest_loses_namespace [OF this, of 9]
  have "map sgSegmentKey (manifestEntriesToSegments ''t/'' (manifest_entries ''t/'' 9 [demo_ref ''t/'' ''t''])) =
      [object_key [] (''t'', 0, 7) KindKfs]" by (simp add: demo_ref_def ref_id_def)
  moreover have "object_key [] (''t'', 0, 7) KindKfs = ''t/0/segment-00000000000000000007.kfs''" by code_simp
  moreover have "object_key ''t/'' (''t'', 0, 7) KindKfs = ''t/t/0/segment-00000000000000000007.kfs''" by code_simp
  ultimately show ?thesis by (simp add: demo_ref_def)
qed

section \<open>The lease\<close>

text \<open>
  The lease excludes a second builder for its time to live. But a builder that is still at work when
  its lease has run out releases the lease of its successor, which bears the same name.
\<close>

lemma lease_excludes:
  assumes "Acquire c h ttl now l = (Ok (), l1)" "0 < ttl" "t < now + ttl" "h' \<noteq> []"
  shows "Acquire c' h' ttl' t l1 = (Err (ErrText ''build lease already held''), l1)"
  using assms by (auto simp: Acquire_def Let_def split: if_splits)

lemma late_release_frees_successor:
  assumes "Acquire False h ttl now l = (Ok (), l1)" "0 < ttl" "now + ttl \<le> t" "Acquire False h ttl t l1 = (Ok (), l2)"
  shows "\<exists>l3. Acquire False h ttl t (lease_release h l2) = (Ok (), l3)"
  using assms by (auto simp: Acquire_def lease_release_def Let_def split: if_splits)

end
