(* ===== verification/Checkpoint_Store.thy ===== *)
theory Checkpoint_Store
  imports Go_Base
begin

text \<open>
  The checkpoint stores of the processors
  (\<open>addons/processors/iceberg-processor/internal/checkpoint/checkpoint.go\<close> and \<open>etcd.go\<close>): the
  interface as a record of operations over the state of the world, the store that keeps nothing,
  and the store in etcd with its leases, offsets and watermarks.

  The etcd client is an argument, a record of the calls that the store makes; what is assumed of it is
  the locale \<open>etcd_contract\<close>. JSON documents are given by the values they hold. The clock is an
  argument.
\<close>

section \<open>The interface\<close>

record lease =
  lnTopic :: string
  lnPartition :: int
  lnOwnerID :: string
  lnExpiresAt :: int
  lnLeaseID :: int

record offset_state =
  osTopic :: string
  osPartition :: int
  osOffset :: int
  osTimestamp :: int

record 'w checkpoint_store =
  csClaimLease :: "string \<Rightarrow> int \<Rightarrow> string \<Rightarrow> 'w \<Rightarrow> lease outcome \<times> 'w"
  csRenewLease :: "lease \<Rightarrow> 'w \<Rightarrow> unit outcome \<times> 'w"
  csReleaseLease :: "lease \<Rightarrow> 'w \<Rightarrow> unit outcome \<times> 'w"
  csLoadOffset :: "string \<Rightarrow> int \<Rightarrow> 'w \<Rightarrow> offset_state outcome \<times> 'w"
  csCommitOffset :: "offset_state \<Rightarrow> 'w \<Rightarrow> unit outcome \<times> 'w"

text \<open>\<open>noopStore\<close>, the store without a backend.\<close>

definition noopStore :: "'w checkpoint_store" where
  "noopStore =
     \<lparr>csClaimLease = (\<lambda>topic part owner w. (Ok \<lparr>lnTopic = topic, lnPartition = part, lnOwnerID = owner, lnExpiresAt = 0, lnLeaseID = 0\<rparr>, w)),
      csRenewLease = (\<lambda>_ w. (Ok (), w)), csReleaseLease = (\<lambda>_ w. (Ok (), w)),
      csLoadOffset = (\<lambda>topic part w. (Ok \<lparr>osTopic = topic, osPartition = part, osOffset = 0, osTimestamp = 0\<rparr>, w)),
      csCommitOffset = (\<lambda>_ w. (Ok (), w))\<rparr>"

section \<open>The store in etcd\<close>

record lease_doc =
  ldOwnerID :: string
  ldLeaseExpiresAt :: int
  ldGeneration :: int

record offset_doc =
  odOffset :: int
  odLastTimestampMs :: int
  odUpdatedAt :: int

text \<open>What a key of etcd holds: one of the documents of the store or some other text.\<close>

datatype etcd_doc = DocLease lease_doc | DocOffset offset_doc | DocText string

text \<open>\<open>json.Unmarshal\<close> into an \<open>offsetState\<close>: unknown fields are skipped, so a lease document gives the zero
  value; a text that is no such document is an error.\<close>

fun unmarshal_offset :: "etcd_doc \<Rightarrow> offset_doc outcome" where
  "unmarshal_offset (DocOffset d) = Ok d"
| "unmarshal_offset (DocLease _) = Ok \<lparr>odOffset = 0, odLastTimestampMs = 0, odUpdatedAt = 0\<rparr>"
| "unmarshal_offset (DocText t) = Err (ErrText ''invalid json'')"

text \<open>The calls of the client: \<open>Grant\<close>, \<open>Revoke\<close>, \<open>KeepAliveOnce\<close>, the transaction that creates a key with a
  lease if it has version 0, \<open>Put\<close> with and without a lease, \<open>Get\<close>, \<open>Get\<close> with a prefix, \<open>Delete\<close>.\<close>

record 'w etcd_client =
  ecGrant :: "int \<Rightarrow> 'w \<Rightarrow> int outcome \<times> 'w"
  ecRevoke :: "int \<Rightarrow> 'w \<Rightarrow> unit outcome \<times> 'w"
  ecKeepAliveOnce :: "int \<Rightarrow> 'w \<Rightarrow> unit outcome \<times> 'w"
  ecCreate :: "string \<Rightarrow> etcd_doc \<Rightarrow> int \<Rightarrow> 'w \<Rightarrow> bool outcome \<times> 'w"
  ecPutLease :: "string \<Rightarrow> etcd_doc \<Rightarrow> int \<Rightarrow> 'w \<Rightarrow> unit outcome \<times> 'w"
  ecPut :: "string \<Rightarrow> etcd_doc \<Rightarrow> 'w \<Rightarrow> unit outcome \<times> 'w"
  ecGet :: "string \<Rightarrow> 'w \<Rightarrow> etcd_doc list outcome \<times> 'w"
  ecGetPrefix :: "string \<Rightarrow> 'w \<Rightarrow> etcd_doc list outcome \<times> 'w"
  ecDelete :: "string \<Rightarrow> 'w \<Rightarrow> unit outcome \<times> 'w"

record etcd_store =
  esPrefix :: string
  esLeaseTTLSeconds :: int

definition NewEtcdStore :: "string list \<Rightarrow> string \<Rightarrow> int \<Rightarrow> etcd_store outcome" where
  "NewEtcdStore endpoints keyPrefix leaseTTLSeconds =
     (if endpoints = [] then Err (ErrText ''etcd.endpoints is required for etcd offsets'')
      else Ok \<lparr>esPrefix = (if keyPrefix = [] then ''processors'' else keyPrefix),
               esLeaseTTLSeconds = (if leaseTTLSeconds \<le> 0 then 30 else leaseTTLSeconds)\<rparr>)"

definition leaseKey :: "etcd_store \<Rightarrow> string \<Rightarrow> int \<Rightarrow> string" where
  "leaseKey s topic part = esPrefix s @ ''/leases/'' @ topic @ ''/'' @ fmt_d part"

definition offsetKey :: "etcd_store \<Rightarrow> string \<Rightarrow> int \<Rightarrow> string" where
  "offsetKey s topic part = esPrefix s @ ''/offsets/'' @ topic @ ''/'' @ fmt_d part"

definition partitionWatermarkKey :: "etcd_store \<Rightarrow> string \<Rightarrow> int \<Rightarrow> string" where
  "partitionWatermarkKey s topic part = esPrefix s @ ''/watermarks/'' @ topic @ ''/'' @ fmt_d part"

definition topicWatermarkKey :: "etcd_store \<Rightarrow> string \<Rightarrow> string" where
  "topicWatermarkKey s topic = esPrefix s @ ''/watermarks/'' @ topic"

definition partitionWatermarkPrefix :: "etcd_store \<Rightarrow> string \<Rightarrow> string" where
  "partitionWatermarkPrefix s topic = esPrefix s @ ''/watermarks/'' @ topic @ ''/''"

definition lease_expiry :: "etcd_store \<Rightarrow> time \<Rightarrow> int" where
  "lease_expiry s now = unixMilli (now + i64 (esLeaseTTLSeconds s * second))"

definition ClaimLease :: "'w etcd_client \<Rightarrow> etcd_store \<Rightarrow> time \<Rightarrow> string \<Rightarrow> int \<Rightarrow> string \<Rightarrow> 'w \<Rightarrow> lease outcome \<times> 'w" where
  "ClaimLease C s now topic part ownerID w =
     (case ecGrant C (esLeaseTTLSeconds s) w of
        (Err e, w) \<Rightarrow> (Err e, w)
      | (Panic, w) \<Rightarrow> (Panic, w)
      | (Ok leaseID, w) \<Rightarrow>
          let payload = \<lparr>ldOwnerID = ownerID, ldLeaseExpiresAt = lease_expiry s now, ldGeneration = 1\<rparr> in
          (case ecCreate C (leaseKey s topic part) (DocLease payload) leaseID w of
             (Panic, w) \<Rightarrow> (Panic, w)
           | (Err e, w) \<Rightarrow> (Err e, snd (ecRevoke C leaseID w))
           | (Ok succeeded, w) \<Rightarrow>
               if \<not> succeeded then (Err (ErrText ''lease already held''), snd (ecRevoke C leaseID w))
               else (Ok \<lparr>lnTopic = topic, lnPartition = part, lnOwnerID = ownerID, lnExpiresAt = ldLeaseExpiresAt payload,
                         lnLeaseID = leaseID\<rparr>, w)))"

definition RenewLease :: "'w etcd_client \<Rightarrow> etcd_store \<Rightarrow> time \<Rightarrow> lease \<Rightarrow> 'w \<Rightarrow> unit outcome \<times> 'w" where
  "RenewLease C s now ls w =
     (if lnLeaseID ls = 0 then (Ok (), w)
      else
        (case ecKeepAliveOnce C (lnLeaseID ls) w of
           (Ok _, w) \<Rightarrow>
             ecPutLease C (leaseKey s (lnTopic ls) (lnPartition ls))
               (DocLease \<lparr>ldOwnerID = lnOwnerID ls, ldLeaseExpiresAt = lease_expiry s now, ldGeneration = 1\<rparr>) (lnLeaseID ls) w
         | (r, w) \<Rightarrow> (r, w)))"

definition ReleaseLease :: "'w etcd_client \<Rightarrow> etcd_store \<Rightarrow> lease \<Rightarrow> 'w \<Rightarrow> unit outcome \<times> 'w" where
  "ReleaseLease C s ls w =
     ecDelete C (leaseKey s (lnTopic ls) (lnPartition ls)) (if lnLeaseID ls \<noteq> 0 then snd (ecRevoke C (lnLeaseID ls) w) else w)"

definition LoadOffset :: "'w etcd_client \<Rightarrow> etcd_store \<Rightarrow> string \<Rightarrow> int \<Rightarrow> 'w \<Rightarrow> offset_state outcome \<times> 'w" where
  "LoadOffset C s topic part w =
     (case ecGet C (offsetKey s topic part) w of
        (Err e, w) \<Rightarrow> (Err e, w)
      | (Panic, w) \<Rightarrow> (Panic, w)
      | (Ok [], w) \<Rightarrow> (Ok \<lparr>osTopic = topic, osPartition = part, osOffset = - 1, osTimestamp = 0\<rparr>, w)
      | (Ok (d # _), w) \<Rightarrow>
          (bindO (unmarshal_offset d) (\<lambda>st.
             Ok \<lparr>osTopic = topic, osPartition = part, osOffset = odOffset st, osTimestamp = odLastTimestampMs st\<rparr>), w))"

fun min_loop :: "offset_doc option \<Rightarrow> etcd_doc list \<Rightarrow> offset_doc option outcome" where
  "min_loop m [] = Ok m"
| "min_loop m (kv # kvs) =
     bindO (unmarshal_offset kv) (\<lambda>st.
       min_loop (case m of None \<Rightarrow> Some st | Some x \<Rightarrow> if odOffset st < odOffset x then Some st else Some x) kvs)"

definition minWatermark :: "etcd_doc list \<Rightarrow> offset_doc outcome" where
  "minWatermark kvs =
     bindO (min_loop None kvs) (\<lambda>m. case m of None \<Rightarrow> Err (ErrText ''no watermark entries'') | Some x \<Rightarrow> Ok x)"

definition updateTopicWatermark :: "'w etcd_client \<Rightarrow> etcd_store \<Rightarrow> string \<Rightarrow> 'w \<Rightarrow> unit outcome \<times> 'w" where
  "updateTopicWatermark C s topic w =
     (case ecGetPrefix C (partitionWatermarkPrefix s topic) w of
        (Err e, w) \<Rightarrow> (Err e, w)
      | (Panic, w) \<Rightarrow> (Panic, w)
      | (Ok kvs, w) \<Rightarrow>
          if kvs = [] then (Ok (), w)
          else (case minWatermark kvs of
                  Err e \<Rightarrow> (Err e, w)
                | Panic \<Rightarrow> (Panic, w)
                | Ok m \<Rightarrow> ecPut C (topicWatermarkKey s topic) (DocOffset m) w))"

definition CommitOffset :: "'w etcd_client \<Rightarrow> etcd_store \<Rightarrow> time \<Rightarrow> offset_state \<Rightarrow> 'w \<Rightarrow> unit outcome \<times> 'w" where
  "CommitOffset C s now st w =
     (let data = DocOffset \<lparr>odOffset = osOffset st, odLastTimestampMs = osTimestamp st, odUpdatedAt = unixMilli now\<rparr> in
      case ecPut C (offsetKey s (osTopic st) (osPartition st)) data w of
        (Ok _, w) \<Rightarrow>
          (case ecPut C (partitionWatermarkKey s (osTopic st) (osPartition st)) data w of
             (Ok _, w) \<Rightarrow> updateTopicWatermark C s (osTopic st) w
           | (r, w) \<Rightarrow> (r, w))
      | (r, w) \<Rightarrow> (r, w))"

definition etcd_checkpoints :: "'w etcd_client \<Rightarrow> etcd_store \<Rightarrow> time \<Rightarrow> 'w checkpoint_store" where
  "etcd_checkpoints C s now =
     \<lparr>csClaimLease = ClaimLease C s now, csRenewLease = RenewLease C s now, csReleaseLease = ReleaseLease C s,
      csLoadOffset = LoadOffset C s, csCommitOffset = CommitOffset C s now\<rparr>"

section \<open>Keys\<close>

lemma sprintf_key_inj: "p @ t @ ''/'' @ fmt_d a = p @ u @ ''/'' @ fmt_d b \<longleftrightarrow> t = u \<and> a = b"
proof -
  have "CHR ''/'' \<notin> set (fmt_d a)" "CHR ''/'' \<notin> set (fmt_d b)" by (simp_all add: fmt_d_free)
  from append_sep_inj [OF this, of t u] show ?thesis by simp
qed

lemma offsetKey_inj [simp]: "offsetKey s t a = offsetKey s u b \<longleftrightarrow> t = u \<and> a = b"
  using sprintf_key_inj [of "esPrefix s @ ''/offsets/''" t a u b] by (simp add: offsetKey_def)

lemma partitionWatermarkKey_inj [simp]: "partitionWatermarkKey s t a = partitionWatermarkKey s u b \<longleftrightarrow> t = u \<and> a = b"
  using sprintf_key_inj [of "esPrefix s @ ''/watermarks/''" t a u b] by (simp add: partitionWatermarkKey_def)

lemma keys_apart [simp]:
  "offsetKey s t a \<noteq> partitionWatermarkKey s u b" "offsetKey s t a \<noteq> topicWatermarkKey s u" "offsetKey s t a \<noteq> leaseKey s u b"
  "partitionWatermarkKey s u b \<noteq> offsetKey s t a" "topicWatermarkKey s u \<noteq> offsetKey s t a" "leaseKey s u b \<noteq> offsetKey s t a"
  "leaseKey s t a \<noteq> partitionWatermarkKey s u b" "leaseKey s t a \<noteq> topicWatermarkKey s u"
  "partitionWatermarkKey s u b \<noteq> leaseKey s t a" "topicWatermarkKey s u \<noteq> leaseKey s t a"
  by (simp_all add: offsetKey_def partitionWatermarkKey_def topicWatermarkKey_def leaseKey_def)

section \<open>The contract of etcd\<close>

text \<open>
  \<open>kv\<close> is what the keys hold that are never written with a lease, \<open>plain\<close> those keys. A read returns
  what is there; a write that succeeds takes effect, one that fails may have; the calls about leases
  and lease keys do not touch plain keys (a lease may run out at any time, which is why nothing is
  said of the others here).
\<close>

locale etcd_contract =
  fixes C :: "'w etcd_client" and kv :: "'w \<Rightarrow> string \<Rightarrow> etcd_doc option" and plain :: "string \<Rightarrow> bool"
  assumes get: "ecGet C k w = (r, w') \<Longrightarrow> kv w' = kv w \<and> (\<forall>ds. r = Ok ds \<longrightarrow> plain k \<longrightarrow> ds = (case kv w k of None \<Rightarrow> [] | Some d \<Rightarrow> [d]))"
    and get_prefix: "ecGetPrefix C p w = (r, w') \<Longrightarrow> kv w' = kv w \<and>
      (\<forall>ds. r = Ok ds \<longrightarrow> (\<forall>k. HasPrefix k p \<longrightarrow> plain k) \<longrightarrow> set ds = {d. \<exists>k. HasPrefix k p \<and> kv w k = Some d})"
    and put: "plain k \<Longrightarrow> ecPut C k d w = (q, w') \<Longrightarrow>
      (q = Ok () \<longrightarrow> kv w' = (kv w)(k \<mapsto> d)) \<and> (kv w' = kv w \<or> kv w' = (kv w)(k \<mapsto> d))"
    and leases: "kv (snd (ecGrant C n w)) = kv w" "kv (snd (ecRevoke C i w)) = kv w" "kv (snd (ecKeepAliveOnce C i w)) = kv w"
    and lease_keys: "\<not> plain k \<Longrightarrow> kv (snd (ecCreate C k d i w)) = kv w" "\<not> plain k \<Longrightarrow> kv (snd (ecPutLease C k d i w)) = kv w"
      "\<not> plain k \<Longrightarrow> kv (snd (ecDelete C k w)) = kv w"

text \<open>The committed offset of a partition, -1 without one.\<close>

definition etcd_committed :: "('w \<Rightarrow> string \<Rightarrow> etcd_doc option) \<Rightarrow> etcd_store \<Rightarrow> 'w \<Rightarrow> string \<times> int \<Rightarrow> int" where
  "etcd_committed kv s w =
     (\<lambda>(t, p). case kv w (offsetKey s t p) of Some (DocOffset d) \<Rightarrow> odOffset d | Some _ \<Rightarrow> 0 | None \<Rightarrow> - 1)"

text \<open>The store uses plain keys for offsets and watermarks and leased keys for the leases.\<close>

locale etcd_checkpoint = etcd_contract C kv plain for C :: "'w etcd_client" and kv plain +
  fixes s :: etcd_store
  assumes plain_keys: "plain (offsetKey s t p)" "\<not> plain (leaseKey s t p)" "HasPrefix k (esPrefix s @ ''/watermarks/'') \<Longrightarrow> plain k"
begin

lemma plain_watermarks [simp]: "plain (partitionWatermarkKey s t p)" "plain (topicWatermarkKey s t)"
  by (rule plain_keys(3), simp add: partitionWatermarkKey_def topicWatermarkKey_def HasPrefix_iff)+

lemma load:
  assumes "LoadOffset C s t p w = (r, w')"
  shows "kv w' = kv w" "r = Ok st \<Longrightarrow> osOffset st = etcd_committed kv s w (t, p) \<and> osTopic st = t \<and> osPartition st = p"
proof -
  obtain g w1 where g: "ecGet C (offsetKey s t p) w = (g, w1)" by fastforce
  have w1: "w' = w1" using assms g by (auto simp: LoadOffset_def split: outcome.splits list.splits)
  then show "kv w' = kv w" using get [OF g] by simp
  show "osOffset st = etcd_committed kv s w (t, p) \<and> osTopic st = t \<and> osPartition st = p" if r: "r = Ok st"
  proof -
    from assms g r obtain ds where ds: "g = Ok ds" by (auto simp: LoadOffset_def split: outcome.splits)
    then have "ds = (case kv w (offsetKey s t p) of None \<Rightarrow> [] | Some d \<Rightarrow> [d])" using get [OF g] plain_keys(1) by blast
    with assms g r ds show ?thesis
      by (auto simp: LoadOffset_def etcd_committed_def split: option.splits etcd_doc.splits elim!: unmarshal_offset.elims)
  qed
qed

lemma watermark_update:
  assumes "updateTopicWatermark C s t w = (r, w')"
  shows "etcd_committed kv s w' = etcd_committed kv s w"
proof -
  obtain g w1 where g: "ecGetPrefix C (partitionWatermarkPrefix s t) w = (g, w1)" by fastforce
  then have k1: "kv w1 = kv w" using get_prefix by blast
  then have c1: "etcd_committed kv s w1 = etcd_committed kv s w" by (simp add: etcd_committed_def)
  have "etcd_committed kv s w2 = etcd_committed kv s w1" if "ecPut C (topicWatermarkKey s t) (DocOffset m) w1 = (r2, w2)" for m r2 w2
    using put [OF plain_watermarks(2) that] by (auto simp: etcd_committed_def)
  with c1 assms g show ?thesis
    by (fastforce simp: updateTopicWatermark_def split: outcome.splits if_splits)
qed

lemma commit:
  assumes c: "CommitOffset C s now st w = (r, w')"
  shows "r = Ok () \<Longrightarrow> etcd_committed kv s w' = (etcd_committed kv s w)((osTopic st, osPartition st) := osOffset st)"
    and "etcd_committed kv s w' = etcd_committed kv s w \<or> etcd_committed kv s w' = (etcd_committed kv s w)((osTopic st, osPartition st) := osOffset st)"
proof -
  let ?d = "DocOffset \<lparr>odOffset = osOffset st, odLastTimestampMs = osTimestamp st, odUpdatedAt = unixMilli now\<rparr>"
  let ?new = "(etcd_committed kv s w)((osTopic st, osPartition st) := osOffset st)"
  obtain r1 w1 where p1: "ecPut C (offsetKey s (osTopic st) (osPartition st)) ?d w = (r1, w1)" by fastforce
  note l1 = put [OF plain_keys(1) p1]
  have upd: "etcd_committed kv s v = ?new" if "kv v = (kv w)(offsetKey s (osTopic st) (osPartition st) \<mapsto> ?d)" for v
    using that by (auto simp: etcd_committed_def fun_eq_iff)
  have c1: "r1 = Ok () \<Longrightarrow> etcd_committed kv s w1 = ?new" "etcd_committed kv s w1 = etcd_committed kv s w \<or> etcd_committed kv s w1 = ?new"
    using l1 upd by (auto simp: etcd_committed_def)
  obtain r2 w2 where p2: "ecPut C (partitionWatermarkKey s (osTopic st) (osPartition st)) ?d w1 = (r2, w2)" by fastforce
  have c2: "etcd_committed kv s w2 = etcd_committed kv s w1" using put [OF plain_watermarks(1) p2] by (auto simp: etcd_committed_def)
  have rest: "r1 = Ok () \<and> etcd_committed kv s w' = etcd_committed kv s w1 \<or> r = r1 \<and> w' = w1 \<and> r1 \<noteq> Ok ()"
  proof (cases "r1 = Ok ()")
    case True
    obtain r3 w3 where p3: "updateTopicWatermark C s (osTopic st) w2 = (r3, w3)" by fastforce
    from True c p1 p2 p3 have "w' = w2 \<or> w' = w3" by (auto simp: CommitOffset_def Let_def split: outcome.splits)
    with True watermark_update [OF p3] c2 show ?thesis by auto
  next
    case False
    with c p1 show ?thesis by (auto simp: CommitOffset_def Let_def split: outcome.splits)
  qed
  show "r = Ok () \<Longrightarrow> etcd_committed kv s w' = ?new" using rest c1(1) by auto
  show "etcd_committed kv s w' = etcd_committed kv s w \<or> etcd_committed kv s w' = ?new" using rest c1 by auto
qed

lemma lease_calls:
  "etcd_committed kv s (snd (ClaimLease C s now t p ownerID w)) = etcd_committed kv s w" "etcd_committed kv s (snd (RenewLease C s now ls w)) = etcd_committed kv s w"
  "etcd_committed kv s (snd (ReleaseLease C s ls w)) = etcd_committed kv s w"
proof -
  have kv: "kv (snd (ClaimLease C s now t p ownerID w)) = kv w"
  proof -
    obtain g w1 where g: "ecGrant C (esLeaseTTLSeconds s) w = (g, w1)" by fastforce
    have k1: "kv w1 = kv w" using leases(1) [of "esLeaseTTLSeconds s" w] g by simp
    have "kv w2 = kv w" if "ecCreate C (leaseKey s t p) d i w1 = (x, w2)" for d i x w2
      using lease_keys(1) [OF plain_keys(2) [of t p], of d i w1] that k1 by simp
    then show ?thesis using g k1
      by (auto simp: ClaimLease_def Let_def leases split: outcome.splits prod.splits)
  qed
  have kv': "kv (snd (RenewLease C s now ls w)) = kv w"
  proof -
    obtain g w1 where g: "ecKeepAliveOnce C (lnLeaseID ls) w = (g, w1)" by fastforce
    have k1: "kv w1 = kv w" using leases(3) [of "lnLeaseID ls" w] g by simp
    then show ?thesis using g lease_keys(2) [OF plain_keys(2)]
      by (auto simp: RenewLease_def split: outcome.splits)
  qed
  have "kv (snd (ReleaseLease C s ls w)) = kv w"
    using lease_keys(3) [OF plain_keys(2)] leases(2) by (simp add: ReleaseLease_def)
  with kv kv' show "etcd_committed kv s (snd (ClaimLease C s now t p ownerID w)) = etcd_committed kv s w"
    "etcd_committed kv s (snd (RenewLease C s now ls w)) = etcd_committed kv s w" "etcd_committed kv s (snd (ReleaseLease C s ls w)) = etcd_committed kv s w"
    by (simp_all add: etcd_committed_def)
qed

end

end
