(* ===== verification/Iceberg_Processor.thy ===== *)
theory Iceberg_Processor
  imports Segment_Discovery Checkpoint_Store
begin

text \<open>
  The loop of the processors
  (\<open>addons/processors/iceberg-processor/internal/processor/processor.go\<close> and the copy in the SQL
  processor): on every tick the completed segments are listed, the partition of the first segment
  that can be claimed is leased, and the records of its segments behind the committed offset are
  validated, written to the sink and committed.

  Discovery, decoder, checkpoint store, sink and validator are the fields of an environment over the
  state of the world. What the select statement of \<open>Run\<close> waits for are events: a tick, the loss of
  the lease, the end of the context, and a turn of the goroutine that renews the lease. The lemmas
  hold for every sequence of events: the committed offsets never go back, what is committed has
  been written, and what was committed is not written again.
\<close>

section \<open>Records of the sink\<close>

record sink_record =
  skTopic :: string
  skPartition :: int
  skOffset :: int
  skTimestamp :: int
  skKey :: "bytes option"
  skValue :: "bytes option"
  skHeaders :: "kheader list"

definition sink_of :: "krecord \<Rightarrow> sink_record" where
  "sink_of r =
     \<lparr>skTopic = rcTopic r, skPartition = rcPartition r, skOffset = rcOffset r, skTimestamp = rcTimestamp r,
      skKey = rcKey r, skValue = rcValue r, skHeaders = rcHeaders r\<rparr>"

definition mapRecords :: "krecord list \<Rightarrow> sink_record list" where
  "mapRecords records = map sink_of records"

text \<open>The records of the SQL processor have a payload only; the fields they lack are zero.\<close>

definition sql_mapRecords :: "krecord list \<Rightarrow> sink_record list" where
  "sql_mapRecords records =
     map (\<lambda>r. \<lparr>skTopic = rcTopic r, skPartition = rcPartition r, skOffset = rcOffset r, skTimestamp = 0, skKey = None,
                skValue = rcValue r, skHeaders = []\<rparr>) records"

definition filterRecords :: "sink_record list \<Rightarrow> int \<Rightarrow> sink_record list" where
  "filterRecords records offset = (if records = [] then records else filter (\<lambda>r. skOffset r > offset) records)"

section \<open>The environment\<close>

datatype schema_mode = ModeOff | ModeLenient | ModeStrict

record 'w validator =
  vdMode :: schema_mode
  vdValidate :: "string \<Rightarrow> bytes option \<Rightarrow> 'w \<Rightarrow> unit outcome \<times> 'w"

record 'w processor_env =
  peListCompleted :: "'w \<Rightarrow> segment_ref list outcome \<times> 'w"
  peDecode :: "string \<Rightarrow> string \<Rightarrow> string \<Rightarrow> int \<Rightarrow> 'w \<Rightarrow> krecord list outcome \<times> 'w"
  peStore :: "time \<Rightarrow> 'w checkpoint_store"
  peWrite :: "sink_record list \<Rightarrow> 'w \<Rightarrow> unit outcome \<times> 'w"
  peClose :: "'w \<Rightarrow> unit outcome \<times> 'w"
  peValidator :: "'w validator option"

fun validate_loop :: "'w validator \<Rightarrow> sink_record list \<Rightarrow> 'w \<Rightarrow> (sink_record list \<times> nat) outcome \<times> 'w" where
  "validate_loop V [] w = (Ok ([], 0), w)"
| "validate_loop V (r # rs) w =
     (case vdValidate V (skTopic r) (skValue r) w of
        (Panic, w) \<Rightarrow> (Panic, w)
      | (Err e, w) \<Rightarrow>
          if vdMode V = ModeStrict then (Err e, w)
          else (case validate_loop V rs w of
                  (Ok (valid, invalid), w) \<Rightarrow> (Ok (valid, Suc invalid), w)
                | (r, w) \<Rightarrow> (r, w))
      | (Ok _, w) \<Rightarrow>
          (case validate_loop V rs w of
             (Ok (valid, invalid), w) \<Rightarrow> (Ok (r # valid, invalid), w)
           | (r, w) \<Rightarrow> (r, w)))"

definition validateRecords :: "'w validator option \<Rightarrow> sink_record list \<Rightarrow> 'w \<Rightarrow> (sink_record list \<times> nat) outcome \<times> 'w" where
  "validateRecords vo records w =
     (case vo of
        None \<Rightarrow> (Ok (records, 0), w)
      | Some V \<Rightarrow> if vdMode V = ModeOff then (Ok (records, 0), w) else validate_loop V records w)"

section \<open>One segment\<close>

text \<open>\<open>Ok ()\<close> goes on with the next segment, an error is what \<open>Run\<close> returns.\<close>

definition commit_state :: "sink_record \<Rightarrow> time \<Rightarrow> offset_state" where
  "commit_state r now = \<lparr>osTopic = skTopic r, osPartition = skPartition r, osOffset = skOffset r, osTimestamp = unixMilli now\<rparr>"

definition write_and_commit :: "'w processor_env \<Rightarrow> time \<Rightarrow> sink_record list \<Rightarrow> 'w \<Rightarrow> unit outcome \<times> 'w" where
  "write_and_commit E now records w =
     (if records = [] then (Ok (), w)
      else
        (case peWrite E records w of
           (Panic, w) \<Rightarrow> (Panic, w)
         | (Err _, w) \<Rightarrow> (Ok (), w)
         | (Ok _, w) \<Rightarrow>
             (case csCommitOffset (peStore E now) (commit_state (last records) now) w of
                (Panic, w) \<Rightarrow> (Panic, w)
              | (_, w) \<Rightarrow> (Ok (), w))))"

definition process_segment :: "'w processor_env \<Rightarrow> time \<Rightarrow> segment_ref \<Rightarrow> 'w \<Rightarrow> unit outcome \<times> 'w" where
  "process_segment E now seg w =
     (case csLoadOffset (peStore E now) (sgTopic seg) (sgPartition seg) w of
        (Panic, w) \<Rightarrow> (Panic, w)
      | (Err _, w) \<Rightarrow> (Ok (), w)
      | (Ok state, w) \<Rightarrow>
          (case peDecode E (sgSegmentKey seg) (sgIndexKey seg) (sgTopic seg) (sgPartition seg) w of
             (Panic, w) \<Rightarrow> (Panic, w)
           | (Err _, w) \<Rightarrow> (Ok (), w)
           | (Ok decoded, w) \<Rightarrow>
               (case validateRecords (peValidator E) (filterRecords (mapRecords decoded) (osOffset state)) w of
                  (Panic, w) \<Rightarrow> (Panic, w)
                | (Err e, w) \<Rightarrow> (Err e, w)
                | (Ok (records, invalid), w) \<Rightarrow> write_and_commit E now records w)))"

text \<open>The SQL processor does not validate; the topic lock around its write orders nothing, since only the loop writes.\<close>

definition sql_process_segment :: "'w processor_env \<Rightarrow> time \<Rightarrow> segment_ref \<Rightarrow> 'w \<Rightarrow> unit outcome \<times> 'w" where
  "sql_process_segment E now seg w =
     (case csLoadOffset (peStore E now) (sgTopic seg) (sgPartition seg) w of
        (Panic, w) \<Rightarrow> (Panic, w)
      | (Err _, w) \<Rightarrow> (Ok (), w)
      | (Ok state, w) \<Rightarrow>
          (case peDecode E (sgSegmentKey seg) (sgIndexKey seg) (sgTopic seg) (sgPartition seg) w of
             (Panic, w) \<Rightarrow> (Panic, w)
           | (Err _, w) \<Rightarrow> (Ok (), w)
           | (Ok records, w) \<Rightarrow>
               if records = [] then (Ok (), w)
               else write_and_commit E now (filterRecords (sql_mapRecords records) (osOffset state)) w))"

section \<open>The loop\<close>

datatype run_status = Running | Returned "unit outcome"

record 'w processor =
  prWorld :: 'w
  prActiveLease :: lease
  prHasLease :: bool
  prRenewing :: bool
  prLeaseLost :: "go_error option"
  prStatus :: run_status

definition new_processor :: "'w \<Rightarrow> 'w processor" where
  "new_processor w =
     \<lparr>prWorld = w, prActiveLease = \<lparr>lnTopic = [], lnPartition = 0, lnOwnerID = [], lnExpiresAt = 0, lnLeaseID = 0\<rparr>, prHasLease = False,
      prRenewing = False, prLeaseLost = None, prStatus = Running\<rparr>"

fun claim_first :: "'w checkpoint_store \<Rightarrow> string \<Rightarrow> segment_ref list \<Rightarrow> 'w \<Rightarrow> lease option outcome \<times> 'w" where
  "claim_first S ownerID [] w = (Ok None, w)"
| "claim_first S ownerID (seg # segs) w =
     (case csClaimLease S (sgTopic seg) (sgPartition seg) ownerID w of
        (Panic, w) \<Rightarrow> (Panic, w)
      | (Err _, w) \<Rightarrow> claim_first S ownerID segs w
      | (Ok l, w) \<Rightarrow> (Ok (Some l), w))"

fun process_segments :: "(time \<Rightarrow> segment_ref \<Rightarrow> 'w \<Rightarrow> unit outcome \<times> 'w) \<Rightarrow> (nat \<Rightarrow> time) \<Rightarrow> lease \<Rightarrow> segment_ref list \<Rightarrow> 'w \<Rightarrow> unit outcome \<times> 'w" where
  "process_segments process clk l [] w = (Ok (), w)"
| "process_segments process clk l (seg # segs) w =
     (if sgTopic seg \<noteq> lnTopic l \<or> sgPartition seg \<noteq> lnPartition l then process_segments process (\<lambda>n. clk (Suc n)) l segs w
      else
        (case process (clk 0) seg w of
           (Ok _, w) \<Rightarrow> process_segments process (\<lambda>n. clk (Suc n)) l segs w
         | (r, w) \<Rightarrow> (r, w)))"

definition release_lease :: "'w processor_env \<Rightarrow> time \<Rightarrow> 'w processor \<Rightarrow> 'w processor" where
  "release_lease E now p =
     (if prHasLease p then
        p\<lparr>prRenewing := False, prHasLease := False, prWorld := snd (csReleaseLease (peStore E now) (prActiveLease p) (prWorld p))\<rparr>
      else p)"

definition return_with :: "'w processor_env \<Rightarrow> time \<Rightarrow> unit outcome \<Rightarrow> 'w processor \<Rightarrow> 'w processor" where
  "return_with E now r p = (release_lease E now p)\<lparr>prStatus := Returned r\<rparr>"

definition claim_step :: "'w processor_env \<Rightarrow> string \<Rightarrow> time \<Rightarrow> segment_ref list \<Rightarrow> 'w processor \<Rightarrow> unit outcome \<times> 'w processor" where
  "claim_step E ownerID now segments p =
     (if prHasLease p then (Ok (), p)
      else
        (case claim_first (peStore E now) ownerID segments (prWorld p) of
           (Panic, w) \<Rightarrow> (Panic, p\<lparr>prWorld := w\<rparr>)
         | (Err e, w) \<Rightarrow> (Err e, p\<lparr>prWorld := w\<rparr>)
         | (Ok None, w) \<Rightarrow> (Ok (), p\<lparr>prWorld := w\<rparr>)
         | (Ok (Some l), w) \<Rightarrow> (Ok (), p\<lparr>prWorld := w, prActiveLease := l, prHasLease := True, prRenewing := True\<rparr>)))"

definition tick ::
  "(time \<Rightarrow> segment_ref \<Rightarrow> 'w \<Rightarrow> unit outcome \<times> 'w) \<Rightarrow> 'w processor_env \<Rightarrow> string \<Rightarrow> (nat \<Rightarrow> time) \<Rightarrow> 'w processor \<Rightarrow> unit outcome \<times> 'w processor" where
  "tick process E ownerID clk p =
     (case peListCompleted E (prWorld p) of
        (Panic, w) \<Rightarrow> (Panic, p\<lparr>prWorld := w\<rparr>)
      | (Err _, w) \<Rightarrow> (Ok (), p\<lparr>prWorld := w\<rparr>)
      | (Ok segments, w) \<Rightarrow>
          (case claim_step E ownerID (clk 0) segments (p\<lparr>prWorld := w\<rparr>) of
             (Ok _, p) \<Rightarrow>
               if \<not> prHasLease p then (Ok (), p)
               else (case process_segments process (\<lambda>n. clk (Suc n)) (prActiveLease p) segments (prWorld p) of
                       (r, w) \<Rightarrow> (r, p\<lparr>prWorld := w\<rparr>))
           | (r, p) \<Rightarrow> (r, p)))"

datatype proc_event = EvDone time | EvLeaseLost time | EvTick "nat \<Rightarrow> time" | EvRenew time

definition run_event ::
  "(time \<Rightarrow> segment_ref \<Rightarrow> 'w \<Rightarrow> unit outcome \<times> 'w) \<Rightarrow> 'w processor_env \<Rightarrow> string \<Rightarrow> proc_event \<Rightarrow> 'w processor \<Rightarrow> 'w processor" where
  "run_event process E ownerID ev p =
     (if prStatus p \<noteq> Running then p
      else
        case ev of
          EvDone now \<Rightarrow> return_with E now (Ok ()) (p\<lparr>prWorld := snd (peClose E (prWorld p))\<rparr>)
        | EvLeaseLost now \<Rightarrow>
            (case prLeaseLost p of None \<Rightarrow> p | Some e \<Rightarrow> release_lease E now (p\<lparr>prLeaseLost := None\<rparr>))
        | EvTick clk \<Rightarrow>
            (case tick process E ownerID clk p of (Ok _, p) \<Rightarrow> p | (r, p) \<Rightarrow> return_with E (clk 0) r p)
        | EvRenew now \<Rightarrow>
            if \<not> prRenewing p then p
            else
              (case csRenewLease (peStore E now) (prActiveLease p) (prWorld p) of
                 (Ok _, w) \<Rightarrow> p\<lparr>prWorld := w\<rparr>
               | (Err e, w) \<Rightarrow>
                   p\<lparr>prWorld := w, prRenewing := False, prLeaseLost := (case prLeaseLost p of None \<Rightarrow> Some e | Some x \<Rightarrow> Some x)\<rparr>
               | (Panic, w) \<Rightarrow> p\<lparr>prWorld := w, prStatus := Returned Panic\<rparr>))"

definition iceberg_Run :: "'w processor_env \<Rightarrow> string \<Rightarrow> proc_event list \<Rightarrow> 'w processor \<Rightarrow> 'w processor" where
  "iceberg_Run E ownerID evs p = foldl (\<lambda>p ev. run_event (process_segment E) E ownerID ev p) p evs"

definition sql_Run :: "'w processor_env \<Rightarrow> string \<Rightarrow> proc_event list \<Rightarrow> 'w processor \<Rightarrow> 'w processor" where
  "sql_Run E ownerID evs p = foldl (\<lambda>p ev. run_event (sql_process_segment E) E ownerID ev p) p evs"

section \<open>What the environment promises\<close>

text \<open>
  \<open>offs\<close> are the committed offsets and \<open>out\<close> what the sink has taken. Loading returns the committed
  offset, a commit sets it or leaves it, a successful write appends the
  records and a failed one may have appended some of the first; nothing else changes either. The
  decoder gives the records the topic and partition it was asked for.
\<close>

locale processor_contract =
  fixes E :: "'w processor_env" and offs :: "'w \<Rightarrow> string \<times> int \<Rightarrow> int" and out :: "'w \<Rightarrow> sink_record list"
  assumes list_keeps: "peListCompleted E w = (a1, w') \<Longrightarrow> offs w' = offs w \<and> out w' = out w"
    and decode_keeps: "peDecode E k i t p w = (a2, w') \<Longrightarrow> offs w' = offs w \<and> out w' = out w"
    and decode_labels: "peDecode E k i t p w = (Ok rs, w') \<Longrightarrow> r \<in> set rs \<Longrightarrow> rcTopic r = t \<and> rcPartition r = p"
    and claim_keeps: "csClaimLease (peStore E now) t p ownerID w = (a3, w') \<Longrightarrow> offs w' = offs w \<and> out w' = out w"
    and renew_keeps: "csRenewLease (peStore E now) l w = (a4, w') \<Longrightarrow> offs w' = offs w \<and> out w' = out w"
    and release_keeps: "csReleaseLease (peStore E now) l w = (a5, w') \<Longrightarrow> offs w' = offs w \<and> out w' = out w"
    and load_keeps: "csLoadOffset (peStore E now) t p w = (a6, w') \<Longrightarrow> offs w' = offs w \<and> out w' = out w"
    and load_value: "csLoadOffset (peStore E now) t p w = (Ok st, w') \<Longrightarrow> osOffset st = offs w (t, p)"
    and commit_keeps: "csCommitOffset (peStore E now) st w = (a7, w') \<Longrightarrow> out w' = out w"
    and commit_any: "csCommitOffset (peStore E now) st w = (a7, w') \<Longrightarrow>
      offs w' = offs w \<or> offs w' = (offs w)((osTopic st, osPartition st) := osOffset st)"
    and write_keeps: "peWrite E rs' w = (a8, w') \<Longrightarrow> offs w' = offs w"
    and write_ok: "peWrite E rs' w = (Ok (), w') \<Longrightarrow> out w' = out w @ rs'"
    and write_any: "peWrite E rs' w = (a8, w') \<Longrightarrow> \<exists>n. out w' = out w @ take n rs'"
    and close_keeps: "peClose E w = (a9, w') \<Longrightarrow> offs w' = offs w \<and> out w' = out w"
    and validate_keeps: "peValidator E = Some V \<Longrightarrow> vdValidate V t v w = (a10, w') \<Longrightarrow> offs w' = offs w \<and> out w' = out w"
begin

text \<open>
  A step of the processor: the committed offsets do not go back, the sink only grows, by records behind
  the committed offset of their partition, and an offset that has moved is that of a new record.
\<close>

definition advances :: "'w \<Rightarrow> 'w \<Rightarrow> bool" where
  "advances w w' \<longleftrightarrow>
     (\<exists>new. out w' = out w @ new \<and> (\<forall>r \<in> set new. offs w (skTopic r, skPartition r) < skOffset r) \<and>
        (\<forall>tp. offs w tp \<le> offs w' tp) \<and>
        (\<forall>tp. offs w' tp \<noteq> offs w tp \<longrightarrow> (\<exists>r \<in> set new. (skTopic r, skPartition r) = tp \<and> skOffset r = offs w' tp)))"

lemma advances_same: "offs w' = offs w \<Longrightarrow> out w' = out w \<Longrightarrow> advances w w'"
  by (simp add: advances_def)

lemma advances_trans:
  assumes "advances w w'" "advances w' w''"
  shows "advances w w''"
proof -
  from assms obtain a b where a: "out w' = out w @ a" "\<forall>r \<in> set a. offs w (skTopic r, skPartition r) < skOffset r"
      "\<forall>tp. offs w tp \<le> offs w' tp" "\<forall>tp. offs w' tp \<noteq> offs w tp \<longrightarrow> (\<exists>r \<in> set a. (skTopic r, skPartition r) = tp \<and> skOffset r = offs w' tp)"
    and b: "out w'' = out w' @ b" "\<forall>r \<in> set b. offs w' (skTopic r, skPartition r) < skOffset r"
      "\<forall>tp. offs w' tp \<le> offs w'' tp" "\<forall>tp. offs w'' tp \<noteq> offs w' tp \<longrightarrow> (\<exists>r \<in> set b. (skTopic r, skPartition r) = tp \<and> skOffset r = offs w'' tp)"
    unfolding advances_def by blast
  have new: "\<exists>r \<in> set (a @ b). (skTopic r, skPartition r) = tp \<and> skOffset r = offs w'' tp" if "offs w'' tp \<noteq> offs w tp" for tp
  proof (cases "offs w'' tp = offs w' tp")
    case True
    with that have "offs w' tp \<noteq> offs w tp" by simp
    with a(4) obtain r where "r \<in> set a" "(skTopic r, skPartition r) = tp" "skOffset r = offs w' tp" by blast
    with True show ?thesis by (intro bexI [of _ r]) simp_all
  next
    case False
    with b(4) obtain r where "r \<in> set b" "(skTopic r, skPartition r) = tp" "skOffset r = offs w'' tp" by blast
    then show ?thesis by (intro bexI [of _ r]) simp_all
  qed
  have "\<forall>r \<in> set (a @ b). offs w (skTopic r, skPartition r) < skOffset r"
  proof
    fix r assume "r \<in> set (a @ b)"
    then consider "r \<in> set a" | "r \<in> set b" by auto
    then show "offs w (skTopic r, skPartition r) < skOffset r"
    proof cases
      case 2
      with b(2) have "offs w' (skTopic r, skPartition r) < skOffset r" by blast
      moreover have "offs w (skTopic r, skPartition r) \<le> offs w' (skTopic r, skPartition r)" using a(3) by blast
      ultimately show ?thesis by linarith
    qed (use a(2) in blast)
  qed
  moreover have "\<forall>tp. offs w tp \<le> offs w'' tp" using a(3) b(3) order_trans by blast
  ultimately show ?thesis unfolding advances_def using new a(1) b(1) by (intro exI [of _ "a @ b"]) simp
qed

lemma validate_loop_keeps:
  assumes "peValidator E = Some V" "validate_loop V rs w = (res, w')"
  shows "offs w' = offs w \<and> out w' = out w \<and> (\<forall>vs n. res = Ok (vs, n) \<longrightarrow> set vs \<subseteq> set rs)"
  using assms(2)
proof (induction rs arbitrary: w res w')
  case (Cons r rs)
  obtain x w1 where x: "vdValidate V (skTopic r) (skValue r) w = (x, w1)" by fastforce
  obtain y w2 where y: "validate_loop V rs w1 = (y, w2)" by fastforce
  from validate_keeps [OF assms(1) x] have k: "offs w1 = offs w" "out w1 = out w" by simp_all
  from Cons.prems x y have "(w' = w1 \<and> (\<forall>vs n. res \<noteq> Ok (vs, n))) \<or>
      (w' = w2 \<and> (\<forall>vs n. res = Ok (vs, n) \<longrightarrow> (\<exists>us m. y = Ok (us, m) \<and> (vs = us \<or> vs = r # us))))"
    by (cases x; cases y) (auto split: if_splits)
  with Cons.IH [OF y] k show ?case by (elim disjE) (auto, blast+)
qed simp

lemma validateRecords_keeps:
  assumes "validateRecords (peValidator E) rs w = (res, w')"
  shows "offs w' = offs w" "out w' = out w" "res = Ok (vs, n) \<Longrightarrow> set vs \<subseteq> set rs"
  using assms validate_loop_keeps by (auto simp: validateRecords_def split: option.splits if_splits)

lemma write_and_commit_advances:
  assumes run: "write_and_commit E now rs w = (res, w')"
    and new: "\<forall>r \<in> set rs. (skTopic r, skPartition r) = tp \<and> offs w tp < skOffset r"
  shows "advances w w'"
proof (cases "rs = []")
  case True
  with run show ?thesis by (simp add: write_and_commit_def advances_same)
next
  case False
  let ?st = "commit_state (last rs) now"
  obtain a w1 where a: "peWrite E rs w = (a, w1)" by fastforce
  obtain b w2 where b: "csCommitOffset (peStore E now) ?st w1 = (b, w2)" by fastforce
  have l: "(skTopic (last rs), skPartition (last rs)) = tp" "offs w tp < skOffset (last rs)" using new False by simp_all
  from write_any [OF a] obtain n where n: "out w1 = out w @ take n rs" by blast
  have o1: "offs w1 = offs w" by (rule write_keeps [OF a])
  have w1: "advances w w1" unfolding advances_def using n o1 new
    by (intro exI [of _ "take n rs"]) (auto dest: in_set_takeD)
  show ?thesis
  proof (cases "a = Ok ()")
    case True
    then have out1: "out w1 = out w @ rs" using write_ok a by blast
    from run False a b True have "w' = w2" by (auto simp: write_and_commit_def split: outcome.splits)
    moreover have "offs w2 = offs w \<or> offs w2 = (offs w)(tp := skOffset (last rs))"
      using commit_any [OF b] o1 l(1) by (simp add: commit_state_def)
    moreover have "out w2 = out w @ rs" using commit_keeps [OF b] out1 by simp
    ultimately have w': "out w' = out w @ rs" "offs w' = offs w \<or> offs w' = (offs w)(tp := skOffset (last rs))" by simp_all
    have in_rs: "last rs \<in> set rs" using False by simp
    have "\<forall>x. offs w x \<le> offs w' x" using w'(2) l(2) by auto
    moreover have "x = tp \<and> offs w' x = skOffset (last rs)" if "offs w' x \<noteq> offs w x" for x
      using that w'(2) by (auto split: if_splits)
    moreover have "\<exists>r \<in> set rs. (skTopic r, skPartition r) = x \<and> skOffset r = offs w' x" if "offs w' x \<noteq> offs w x" for x
      using calculation(2) [OF that] l(1) by (intro bexI [OF _ in_rs]) auto
    moreover have "\<forall>r \<in> set rs. offs w (skTopic r, skPartition r) < skOffset r" using new by simp
    ultimately show ?thesis unfolding advances_def using w'(1) by (intro exI [of _ rs]) simp
  next
    case noOk: False
    from run False a noOk have "w' = w1" by (auto simp: write_and_commit_def split: outcome.splits)
    with w1 show ?thesis by simp
  qed
qed

lemma filtered_new:
  assumes "\<And>x. x \<in> set decoded \<Longrightarrow> rcTopic x = t \<and> rcPartition x = p"
  shows "r \<in> set (filterRecords (mapRecords decoded) c) \<Longrightarrow> (skTopic r, skPartition r) = (t, p) \<and> c < skOffset r"
    "r \<in> set (filterRecords (sql_mapRecords decoded) c) \<Longrightarrow> (skTopic r, skPartition r) = (t, p) \<and> c < skOffset r"
  using assms by (auto simp: filterRecords_def mapRecords_def sql_mapRecords_def sink_of_def split: if_splits)

lemma process_segment_advances:
  assumes run: "process_segment E now seg w = (res, w')"
  shows "advances w w'"
proof -
  let ?t = "sgTopic seg" and ?p = "sgPartition seg"
  obtain a w1 where a: "csLoadOffset (peStore E now) ?t ?p w = (a, w1)" by fastforce
  obtain b w2 where b: "peDecode E (sgSegmentKey seg) (sgIndexKey seg) ?t ?p w1 = (b, w2)" by fastforce
  have k1: "offs w1 = offs w" "out w1 = out w" using load_keeps [OF a] by simp_all
  have k2: "offs w2 = offs w" "out w2 = out w" using decode_keeps [OF b] k1 by simp_all
  show ?thesis
  proof (cases "\<exists>st decoded. a = Ok st \<and> b = Ok decoded")
    case False
    with run a b have "w' = w1 \<or> w' = w2" by (auto simp: process_segment_def split: outcome.splits)
    with k1 k2 show ?thesis by (auto intro: advances_same)
  next
    case True
    then obtain st decoded where ab: "a = Ok st" "b = Ok decoded" by blast
    let ?rs = "filterRecords (mapRecords decoded) (osOffset st)"
    obtain c w3 where c: "validateRecords (peValidator E) ?rs w2 = (c, w3)" by fastforce
    note v = validateRecords_keeps [OF c]
    have step: "advances w w3" using v(1,2) k2 by (intro advances_same) simp_all
    show ?thesis
    proof (cases c)
      case (Ok x)
      then obtain vs n where x: "c = Ok (vs, n)" by (cases x) simp
      have "osOffset st = offs w (?t, ?p)" using load_value a ab(1) by blast
      moreover have "rcTopic r = ?t \<and> rcPartition r = ?p" if "r \<in> set decoded" for r using decode_labels b ab(2) that by blast
      ultimately have "\<forall>r \<in> set vs. (skTopic r, skPartition r) = (?t, ?p) \<and> offs w3 (?t, ?p) < skOffset r"
        using v(3) [OF x] filtered_new [of decoded ?t ?p _ "osOffset st"] v(1) k2(1) by auto
      moreover have "write_and_commit E now vs w3 = (res, w')" using run a b c ab x by (simp add: process_segment_def)
      ultimately show ?thesis using advances_trans [OF step] write_and_commit_advances by blast
    qed (use run a b c ab step in \<open>simp_all add: process_segment_def\<close>)
  qed
qed

lemma sql_process_segment_advances:
  assumes run: "sql_process_segment E now seg w = (res, w')"
  shows "advances w w'"
proof -
  let ?t = "sgTopic seg" and ?p = "sgPartition seg"
  obtain a w1 where a: "csLoadOffset (peStore E now) ?t ?p w = (a, w1)" by fastforce
  obtain b w2 where b: "peDecode E (sgSegmentKey seg) (sgIndexKey seg) ?t ?p w1 = (b, w2)" by fastforce
  have k1: "offs w1 = offs w" "out w1 = out w" using load_keeps [OF a] by simp_all
  have k2: "offs w2 = offs w" "out w2 = out w" using decode_keeps [OF b] k1 by simp_all
  show ?thesis
  proof (cases "\<exists>st decoded. a = Ok st \<and> b = Ok decoded \<and> decoded \<noteq> []")
    case False
    with run a b have "w' = w1 \<or> w' = w2" by (auto simp: sql_process_segment_def split: outcome.splits if_splits)
    with k1 k2 show ?thesis by (auto intro: advances_same)
  next
    case True
    then obtain st decoded where ab: "a = Ok st" "b = Ok decoded" "decoded \<noteq> []" by blast
    let ?rs = "filterRecords (sql_mapRecords decoded) (osOffset st)"
    have "osOffset st = offs w (?t, ?p)" using load_value a ab(1) by blast
    moreover have "rcTopic r = ?t \<and> rcPartition r = ?p" if "r \<in> set decoded" for r using decode_labels b ab(2) that by blast
    ultimately have "\<forall>r \<in> set ?rs. (skTopic r, skPartition r) = (?t, ?p) \<and> offs w2 (?t, ?p) < skOffset r"
      using filtered_new [of decoded ?t ?p _ "osOffset st"] k2(1) by auto
    moreover have "write_and_commit E now ?rs w2 = (res, w')" using run a b ab by (simp add: sql_process_segment_def)
    moreover have "advances w w2" using k2 by (rule advances_same)
    ultimately show ?thesis using advances_trans write_and_commit_advances by blast
  qed
qed

lemma process_segments_advances:
  assumes "\<And>now seg w res w'. process now seg w = (res, w') \<Longrightarrow> advances w w'" "process_segments process clk l segs w = (res, w')"
  shows "advances w w'"
  using assms(2)
proof (induction segs arbitrary: clk w)
  case (Cons seg segs)
  show ?case
  proof (cases "sgTopic seg \<noteq> lnTopic l \<or> sgPartition seg \<noteq> lnPartition l")
    case True
    with Cons show ?thesis by auto
  next
    case False
    obtain a w1 where a: "process (clk 0) seg w = (a, w1)" by fastforce
    from assms(1) [OF a] have s: "advances w w1" .
    show ?thesis
    proof (cases a)
      case (Ok u)
      with False Cons.prems a have "process_segments process (\<lambda>n. clk (Suc n)) l segs w1 = (res, w')" by simp
      from advances_trans [OF s Cons.IH [OF this]] show ?thesis .
    qed (use False Cons.prems a s in auto)
  qed
qed (simp add: advances_same)

lemma claim_first_keeps: "claim_first (peStore E now) ownerID segs w = (res, w') \<Longrightarrow> offs w' = offs w \<and> out w' = out w"
proof (induction segs arbitrary: w)
  case (Cons seg segs)
  obtain a w1 where a: "csClaimLease (peStore E now) (sgTopic seg) (sgPartition seg) ownerID w = (a, w1)" by fastforce
  show ?case using Cons claim_keeps [OF a] a by (cases a) fastforce+
qed simp

lemma release_advances: "advances (prWorld p) (prWorld (release_lease E now p))"
proof -
  obtain a w1 where a: "csReleaseLease (peStore E now) (prActiveLease p) (prWorld p) = (a, w1)" by fastforce
  from release_keeps [OF a] a show ?thesis by (auto simp: release_lease_def intro!: advances_same)
qed

lemma tick_advances:
  assumes "\<And>now seg w res w'. process now seg w = (res, w') \<Longrightarrow> advances w w'" "tick process E ownerID clk p = (res, p')"
  shows "advances (prWorld p) (prWorld p')"
proof -
  obtain a w1 where a: "peListCompleted E (prWorld p) = (a, w1)" by fastforce
  have s1: "advances (prWorld p) w1" using list_keeps [OF a] by (intro advances_same) simp_all
  show ?thesis
  proof (cases a)
    case (Ok segs)
    obtain b p1 where b: "claim_step E ownerID (clk 0) segs (p\<lparr>prWorld := w1\<rparr>) = (b, p1)" by fastforce
    obtain c w2 where c: "claim_first (peStore E (clk 0)) ownerID segs w1 = (c, w2)" by fastforce
    from b c claim_first_keeps [OF c] have s2: "advances w1 (prWorld p1)"
      by (cases c) (auto simp: claim_step_def split: if_splits option.splits intro!: advances_same)
    obtain d w3 where d: "process_segments process (\<lambda>n. clk (Suc n)) (prActiveLease p1) segs (prWorld p1) = (d, w3)" by fastforce
    from process_segments_advances [OF assms(1) d] have s3: "advances (prWorld p1) w3" .
    from assms(2) a Ok b d have "prWorld p' = prWorld p1 \<or> prWorld p' = w3"
      by (cases b) (auto simp: tick_def split: if_splits)
    with s1 s2 s3 show ?thesis using advances_trans by metis
  qed (use assms(2) a s1 in \<open>auto simp: tick_def\<close>)
qed

lemma run_event_advances:
  assumes "\<And>now seg w res w'. process now seg w = (res, w') \<Longrightarrow> advances w w'"
  shows "advances (prWorld p) (prWorld (run_event process E ownerID ev p))"
proof (cases "prStatus p = Running")
  case True
  show ?thesis
  proof (cases ev)
    case (EvDone now)
    obtain a w1 where a: "peClose E (prWorld p) = (a, w1)" by fastforce
    have "advances (prWorld p) w1" using close_keeps [OF a] by (intro advances_same) simp_all
    moreover have "advances w1 (prWorld (release_lease E now (p\<lparr>prWorld := w1\<rparr>)))" using release_advances [of "p\<lparr>prWorld := w1\<rparr>"] by simp
    ultimately show ?thesis using True EvDone a advances_trans by (simp add: run_event_def return_with_def)
  next
    case (EvLeaseLost now)
    have "advances (prWorld p) (prWorld (release_lease E now (p\<lparr>prLeaseLost := None\<rparr>)))" using release_advances [of "p\<lparr>prLeaseLost := None\<rparr>"] by simp
    with True EvLeaseLost show ?thesis by (simp add: run_event_def advances_same split: option.splits)
  next
    case (EvTick clk)
    obtain a p1 where a: "tick process E ownerID clk p = (a, p1)" by fastforce
    from tick_advances [OF assms a] have s: "advances (prWorld p) (prWorld p1)" .
    have "advances (prWorld p) (prWorld (release_lease E (clk 0) p1))" by (rule advances_trans [OF s release_advances])
    with True EvTick a s show ?thesis by (cases a) (simp_all add: run_event_def return_with_def)
  next
    case (EvRenew now)
    obtain a w1 where a: "csRenewLease (peStore E now) (prActiveLease p) (prWorld p) = (a, w1)" by fastforce
    have "advances (prWorld p) w1" using renew_keeps [OF a] by (intro advances_same) simp_all
    with True EvRenew a show ?thesis by (cases a) (simp_all add: run_event_def advances_same)
  qed
qed (simp add: run_event_def advances_same)

lemma run_advances:
  assumes "\<And>now seg w res w'. process now seg w = (res, w') \<Longrightarrow> advances w w'"
  shows "advances (prWorld p) (prWorld (foldl (\<lambda>p ev. run_event process E ownerID ev p) p evs))"
proof (induction evs arbitrary: p)
  case (Cons ev evs)
  show ?case using advances_trans [OF run_event_advances [of process, OF assms] Cons.IH] by simp
qed (simp add: advances_same)

end

end
