(* ===== verification/Processor_Node.thy ===== *)
theory Processor_Node
  imports Iceberg_Processor
begin

text \<open>
  A node on which the contracts of the processors hold: the objects of a store, an etcd in memory and a
  sink that may refuse batches, with the listing, the decoder and the checkpoint store of the code. Then
  what holds of every run of a processor.
\<close>

section \<open>Records carry the partition that was asked for\<close>

lemma rmany_all:
  assumes "\<And>bs x bs'. p bs = Ok (x, bs') \<Longrightarrow> P x"
  shows "rmany n p bs = Ok (xs, bs') \<Longrightarrow> x \<in> set xs \<Longrightarrow> P x"
proof (induction n arbitrary: bs xs)
  case (Suc n)
  then obtain y bs1 ys where "p bs = Ok (y, bs1)" "rmany n p bs1 = Ok (ys, bs')" "xs = y # ys"
    by (auto simp: rbind_def rret_def split: prod.splits)
  with Suc assms show ?case by auto
qed (simp add: rret_def)

lemma decodeRecord_labels:
  assumes "decodeRecord R base ts t p bs = Ok (r, bs')"
  shows "rcTopic r = t \<and> rcPartition r = p"
  using assms by (auto simp: decodeRecord_def decode_fields_def rbind_def rret_def rfail_def rpanic_def split: if_splits)

lemma decodeBatchRecords_labels:
  assumes "decodeBatchRecords R b t p = Ok rs" "r \<in> set rs"
  shows "rcTopic r = t \<and> rcPartition r = p"
proof -
  have "rmany n (decodeRecord R base ts t p) bs = Ok (rs, bs') \<Longrightarrow> ?thesis" for n base ts bs bs'
    using rmany_all [of "decodeRecord R base ts t p" "\<lambda>r. rcTopic r = t \<and> rcPartition r = p"] decodeRecord_labels assms(2) by blast
  with assms show ?thesis by (auto simp: decodeBatchRecords_def Let_def split: if_splits)
qed

lemma decodeRecordBatches_labels:
  "decodeRecordBatches R d t p = Ok rs \<Longrightarrow> r \<in> set rs \<Longrightarrow> rcTopic r = t \<and> rcPartition r = p"
proof (induction R d t p arbitrary: rs rule: decodeRecordBatches.induct)
  case (1 R d t p)
  let ?n = "12 + nat (u32_at d 8)"
  show ?case
  proof (cases "length d < 12 \<or> nat (u32_at d 8) = 0 \<or> length d < ?n")
    case True
    with "1.prems" show ?thesis by (subst (asm) decodeRecordBatches.simps) (auto simp: Let_def split: if_splits)
  next
    case False
    then have "decodeRecordBatches R d t p = bindO (decodeBatchRecords R (take ?n d) t p) (\<lambda>rs.
        bindO (decodeRecordBatches R (drop ?n d) t p) (\<lambda>rest. Ok (rs @ rest)))"
      by (subst decodeRecordBatches.simps) (simp add: Let_def)
    with "1.prems"(1) obtain xs ys where xy: "decodeBatchRecords R (take ?n d) t p = Ok xs" "decodeRecordBatches R (drop ?n d) t p = Ok ys" "rs = xs @ ys"
      by auto
    have "r \<in> set ys \<Longrightarrow> rcTopic r = t \<and> rcPartition r = p" using "1.IH" [OF _ refl _ xy(2)] False by auto
    with xy(3) decodeBatchRecords_labels [OF xy(1)] "1.prems"(2) show ?thesis by auto
  qed
qed

lemma iceberg_Decode_labels: "iceberg_Decode getObject k i t p = Ok rs \<Longrightarrow> r \<in> set rs \<Longrightarrow> rcTopic r = t \<and> rcPartition r = p"
  by (auto simp: iceberg_Decode_def iceberg_decodeSegment_def decodeSegment_def dest: decodeRecordBatches_labels split: if_splits)

section \<open>A node\<close>

record node =
  ndPlain :: "(string \<times> offset_doc) list"
  ndLeased :: "(string \<times> etcd_doc \<times> int) list"
  ndNextLease :: int
  ndLive :: "int list"
  ndSink :: "sink_record list"

definition new_node :: node where
  "new_node = \<lparr>ndPlain = [], ndLeased = [], ndNextLease = 1, ndLive = [], ndSink = []\<rparr>"

definition is_lease_key :: "etcd_store \<Rightarrow> string \<Rightarrow> bool" where
  "is_lease_key s k \<longleftrightarrow> HasPrefix k (esPrefix s @ ''/leases/'')"

text \<open>An etcd that keeps the keys under the lease prefix with their leases and offset documents under the others.\<close>

definition mem_etcd :: "etcd_store \<Rightarrow> node etcd_client" where
  "mem_etcd s =
     \<lparr>ecGrant = (\<lambda>ttl w. (Ok (ndNextLease w), w\<lparr>ndNextLease := ndNextLease w + 1, ndLive := ndNextLease w # ndLive w\<rparr>)),
      ecRevoke = (\<lambda>i w. (Ok (), w\<lparr>ndLive := removeAll i (ndLive w), ndLeased := filter (\<lambda>(k, d, j). j \<noteq> i) (ndLeased w)\<rparr>)),
      ecKeepAliveOnce = (\<lambda>i w. (if i \<in> set (ndLive w) then Ok () else Err (ErrText ''requested lease not found''), w)),
      ecCreate = (\<lambda>k d i w.
        if \<not> is_lease_key s k then (Err (ErrText ''unsupported''), w)
        else if map_of (ndLeased w) k = None then (Ok True, w\<lparr>ndLeased := AList.update k (d, i) (ndLeased w)\<rparr>) else (Ok False, w)),
      ecPutLease = (\<lambda>k d i w.
        if \<not> is_lease_key s k then (Err (ErrText ''unsupported''), w) else (Ok (), w\<lparr>ndLeased := AList.update k (d, i) (ndLeased w)\<rparr>)),
      ecPut = (\<lambda>k d w. case d of DocOffset x \<Rightarrow> (Ok (), w\<lparr>ndPlain := AList.update k x (ndPlain w)\<rparr>) | _ \<Rightarrow> (Err (ErrText ''unsupported''), w)),
      ecGet = (\<lambda>k w. (Ok (case map_of (ndPlain w) k of None \<Rightarrow> [] | Some d \<Rightarrow> [DocOffset d]), w)),
      ecGetPrefix = (\<lambda>p w. (Ok (map (\<lambda>k. DocOffset (the (map_of (ndPlain w) k))) (filter (\<lambda>k. HasPrefix k p) (map fst (ndPlain w)))), w)),
      ecDelete = (\<lambda>k w. (Ok (), w\<lparr>ndLeased := AList.delete k (ndLeased w)\<rparr>))\<rparr>"

definition node_kv :: "node \<Rightarrow> string \<Rightarrow> etcd_doc option" where
  "node_kv w k = map_option DocOffset (map_of (ndPlain w) k)"

definition node_tail :: "(string \<Rightarrow> bytes option) \<Rightarrow> nat \<Rightarrow> string \<Rightarrow> bytes outcome" where
  "node_tail objects n k = (case objects k of None \<Rightarrow> Err (ErrText ''NoSuchKey'') | Some d \<Rightarrow> Ok (drop (length d - n) d))"

definition node_get :: "(string \<Rightarrow> bytes option) \<Rightarrow> string \<Rightarrow> bytes outcome" where
  "node_get objects k = (case objects k of None \<Rightarrow> Err (ErrText ''NoSuchKey'') | Some d \<Rightarrow> Ok d)"

definition node_env ::
  "etcd_store \<Rightarrow> string \<Rightarrow> (string \<Rightarrow> bytes option) \<Rightarrow> list_object list \<Rightarrow> (sink_record list \<Rightarrow> bool) \<Rightarrow> node processor_env" where
  "node_env s prfx objects listing bad =
     \<lparr>peListCompleted = (\<lambda>w. (listCompleted [Ok listing] (node_tail objects) prfx None, w)),
      peDecode = (\<lambda>k i t p w. (iceberg_Decode (node_get objects) k i t p, w)),
      peStore = etcd_checkpoints (mem_etcd s) s,
      peWrite = (\<lambda>rs w. if bad rs then (Err (ErrText ''sink''), w) else (Ok (), w\<lparr>ndSink := ndSink w @ rs\<rparr>)),
      peClose = (\<lambda>w. (Ok (), w)), peValidator = None\<rparr>"

interpretation nodc: etcd_checkpoint "mem_etcd s" node_kv "\<lambda>k. \<not> is_lease_key s k" s for s
proof unfold_locales
  fix p w r w' assume "ecGetPrefix (mem_etcd s) p w = (r, w')"
  then have g: "r = Ok (map (\<lambda>k. DocOffset (the (map_of (ndPlain w) k))) (filter (\<lambda>k. HasPrefix k p) (map fst (ndPlain w))))" "w' = w"
    by (auto simp: mem_etcd_def)
  have "set (map (\<lambda>k. DocOffset (the (map_of (ndPlain w) k))) (filter (\<lambda>k. HasPrefix k p) (map fst (ndPlain w)))) =
      {d. \<exists>k. HasPrefix k p \<and> node_kv w k = Some d}" (is "?l = ?r")
  proof
    show "?l \<subseteq> ?r" using map_of_eq_None_iff [of "ndPlain w"] by (force simp: node_kv_def)
    show "?r \<subseteq> ?l"
    proof
      fix d assume "d \<in> ?r"
      then obtain k x where k: "HasPrefix k p" "map_of (ndPlain w) k = Some x" "d = DocOffset x" by (auto simp: node_kv_def)
      from map_of_SomeD [OF k(2)] have "k \<in> set (map fst (ndPlain w))" by force
      with k show "d \<in> ?l" by force
    qed
  qed
  with g show "node_kv w' = node_kv w \<and> (\<forall>ds. r = Ok ds \<longrightarrow> (\<forall>k. HasPrefix k p \<longrightarrow> \<not> is_lease_key s k) \<longrightarrow>
      set ds = {d. \<exists>k. HasPrefix k p \<and> node_kv w k = Some d})" by simp
next
  fix k assume "HasPrefix k (esPrefix s @ ''/watermarks/'')"
  then show "\<not> is_lease_key s k" by (auto simp: is_lease_key_def HasPrefix_iff)
qed (auto simp: mem_etcd_def node_kv_def is_lease_key_def offsetKey_def leaseKey_def HasPrefix_iff update_conv' fun_eq_iff
    split: option.splits etcd_doc.splits if_splits)

lemma node_sink:
  "ndSink (snd (ClaimLease (mem_etcd s) s now t p ownerID w)) = ndSink w" "ndSink (snd (RenewLease (mem_etcd s) s now ls w)) = ndSink w"
  "ndSink (snd (ReleaseLease (mem_etcd s) s ls w)) = ndSink w" "ndSink (snd (LoadOffset (mem_etcd s) s t p w)) = ndSink w"
  by (auto simp: ClaimLease_def RenewLease_def ReleaseLease_def LoadOffset_def mem_etcd_def Let_def split: outcome.splits option.splits)

lemma node_commit:
  "ndSink (snd (CommitOffset (mem_etcd s) s now st w)) = ndSink w" "fst (CommitOffset (mem_etcd s) s now st w) = Ok ()"
proof -
  have min: "\<exists>m'. min_loop m (map (\<lambda>k. DocOffset (f k)) ks) = Ok m' \<and> (m \<noteq> None \<or> ks \<noteq> [] \<longrightarrow> m' \<noteq> None)" for m f and ks :: "string list"
  proof (induction ks arbitrary: m)
    case (Cons k ks)
    obtain x where x: "min_loop m (map (\<lambda>k. DocOffset (f k)) (k # ks)) = min_loop (Some x) (map (\<lambda>k. DocOffset (f k)) ks)"
      by (cases m; cases "odOffset (f k) < odOffset (the m)") auto
    from Cons.IH [of "Some x"] show ?case unfolding x by auto
  qed simp
  have up: "fst (updateTopicWatermark (mem_etcd s) s t v) = Ok () \<and> ndSink (snd (updateTopicWatermark (mem_etcd s) s t v)) = ndSink v" for t v
  proof -
    let ?ks = "filter (\<lambda>k. HasPrefix k (partitionWatermarkPrefix s t)) (map fst (ndPlain v))"
    let ?ds = "map (\<lambda>k. DocOffset (the (map_of (ndPlain v) k))) ?ks"
    obtain m where m: "min_loop None ?ds = Ok m" "?ks \<noteq> [] \<longrightarrow> m \<noteq> None"
      using min [of None "\<lambda>k. the (map_of (ndPlain v) k)" ?ks] by blast
    show ?thesis
    proof (cases "?ks = []")
      case False
      with m(2) obtain x where "m = Some x" by auto
      with m(1) have "minWatermark ?ds = Ok x" by (simp add: minWatermark_def)
      with False show ?thesis by (simp add: updateTopicWatermark_def mem_etcd_def)
    qed (simp add: updateTopicWatermark_def mem_etcd_def)
  qed
  have put: "ecPut (mem_etcd s) k (DocOffset x) v = (Ok (), v\<lparr>ndPlain := AList.update k x (ndPlain v)\<rparr>)" for k x v
    by (simp add: mem_etcd_def)
  show "ndSink (snd (CommitOffset (mem_etcd s) s now st w)) = ndSink w" "fst (CommitOffset (mem_etcd s) s now st w) = Ok ()"
    unfolding CommitOffset_def Let_def put prod.case outcome.case by (simp_all add: up)
qed

interpretation nodp: processor_contract "node_env s prfx objects listing bad" "etcd_committed node_kv s" ndSink for s prfx objects listing bad
proof unfold_locales
  fix k i t p w rs w' r
  assume "peDecode (node_env s prfx objects listing bad) k i t p w = (Ok rs, w')" "r \<in> set rs"
  then show "rcTopic r = t \<and> rcPartition r = p" using iceberg_Decode_labels by (auto simp: node_env_def)
next
  fix now t p w and a6 :: "offset_state outcome" and w' assume "csLoadOffset (peStore (node_env s prfx objects listing bad) now) t p w = (a6, w')"
  then have a: "LoadOffset (mem_etcd s) s t p w = (a6, w')" by (simp add: node_env_def etcd_checkpoints_def)
  then show "etcd_committed node_kv s w' = etcd_committed node_kv s w \<and> ndSink w' = ndSink w"
    using nodc.load(1) [OF a] node_sink(4) [of s t p w] by (simp add: etcd_committed_def)
next
  fix now t p w st w' assume "csLoadOffset (peStore (node_env s prfx objects listing bad) now) t p w = (Ok st, w')"
  then show "osOffset st = etcd_committed node_kv s w (t, p)"
    using nodc.load(2) [of s t p w "Ok st" w' st] by (simp add: node_env_def etcd_checkpoints_def)
next
  fix now st w and a7 :: "unit outcome" and w' assume "csCommitOffset (peStore (node_env s prfx objects listing bad) now) st w = (a7, w')"
  then have a: "CommitOffset (mem_etcd s) s now st w = (a7, w')" by (simp add: node_env_def etcd_checkpoints_def)
  then show "ndSink w' = ndSink w" using node_commit(1) [of s now st w] by simp
  show "etcd_committed node_kv s w' = etcd_committed node_kv s w \<or>
      etcd_committed node_kv s w' = (etcd_committed node_kv s w)((osTopic st, osPartition st) := osOffset st)"
    by (rule nodc.commit(2) [OF a])
next
  fix now t p ownerID w and a3 :: "lease outcome" and w'
  assume "csClaimLease (peStore (node_env s prfx objects listing bad) now) t p ownerID w = (a3, w')"
  then have "w' = snd (ClaimLease (mem_etcd s) s now t p ownerID w)" by (simp add: node_env_def etcd_checkpoints_def)
  then show "etcd_committed node_kv s w' = etcd_committed node_kv s w \<and> ndSink w' = ndSink w"
    by (simp add: nodc.lease_calls node_sink)
next
  fix now ls w and a4 :: "unit outcome" and w'
  assume "csRenewLease (peStore (node_env s prfx objects listing bad) now) ls w = (a4, w')"
  then have "w' = snd (RenewLease (mem_etcd s) s now ls w)" by (simp add: node_env_def etcd_checkpoints_def)
  then show "etcd_committed node_kv s w' = etcd_committed node_kv s w \<and> ndSink w' = ndSink w"
    by (simp add: nodc.lease_calls node_sink)
next
  fix now ls w and a4 :: "unit outcome" and w'
  assume "csReleaseLease (peStore (node_env s prfx objects listing bad) now) ls w = (a4, w')"
  then have "w' = snd (ReleaseLease (mem_etcd s) s ls w)" by (simp add: node_env_def etcd_checkpoints_def)
  then show "etcd_committed node_kv s w' = etcd_committed node_kv s w \<and> ndSink w' = ndSink w"
    by (simp add: nodc.lease_calls node_sink)
next
  fix rs' w and a8 :: "unit outcome" and w' assume "peWrite (node_env s prfx objects listing bad) rs' w = (a8, w')"
  then show "\<exists>n. ndSink w' = ndSink w @ take n rs'"
    by (auto simp: node_env_def split: if_splits intro: exI [of _ 0] exI [of _ "length rs'"])
qed (auto simp: node_env_def etcd_committed_def node_kv_def split: if_splits)

section \<open>Every run\<close>

text \<open>
  C9: whatever happens to a processor - ticks, lost leases, failing listings, decodings, writes and
  commits - the committed offset of a partition never goes back; the sink only ever gets records
  behind the offset that was committed when the run began; and an offset that has moved is the offset
  of a record that the run has written.
\<close>

theorem processor_checkpoints:
  assumes "processor_contract E offs out" "p' = iceberg_Run E ownerID evs p \<or> p' = sql_Run E ownerID evs p"
  shows "\<exists>new. out (prWorld p') = out (prWorld p) @ new \<and>
    (\<forall>r \<in> set new. offs (prWorld p) (skTopic r, skPartition r) < skOffset r) \<and>
    (\<forall>tp. offs (prWorld p) tp \<le> offs (prWorld p') tp) \<and>
    (\<forall>tp. offs (prWorld p') tp \<noteq> offs (prWorld p) tp \<longrightarrow>
       (\<exists>r \<in> set new. (skTopic r, skPartition r) = tp \<and> skOffset r = offs (prWorld p') tp))"
proof -
  note adv = processor_contract.run_advances [OF assms(1), where p = p and ownerID = ownerID and evs = evs]
  have "processor_contract.advances offs out (prWorld p) (prWorld (iceberg_Run E ownerID evs p))"
    unfolding iceberg_Run_def by (rule adv, rule processor_contract.process_segment_advances [OF assms(1)])
  moreover have "processor_contract.advances offs out (prWorld p) (prWorld (sql_Run E ownerID evs p))"
    unfolding sql_Run_def by (rule adv, rule processor_contract.sql_process_segment_advances [OF assms(1)])
  ultimately have "processor_contract.advances offs out (prWorld p) (prWorld p')" using assms(2) by blast
  then show ?thesis unfolding processor_contract.advances_def [OF assms(1)] .
qed

definition demo_store :: etcd_store where
  "demo_store = \<lparr>esPrefix = ''processors'', esLeaseTTLSeconds = 30\<rparr>"

definition committed_node :: node where
  "committed_node = new_node\<lparr>ndPlain := [(offsetKey demo_store ''t'' 0, \<lparr>odOffset = 5, odLastTimestampMs = 0, odUpdatedAt = 0\<rparr>)]\<rparr>"

theorem processor_checkpoints_witness:
  "etcd_committed node_kv demo_store committed_node (''t'', 0) = 5 \<and>
   5 \<le> etcd_committed node_kv demo_store
     (prWorld (iceberg_Run (node_env demo_store ''ns/'' (\<lambda>_. None) [] (\<lambda>_. False)) ''me'' [EvTick (\<lambda>_. 0), EvDone 1] (new_processor committed_node))) (''t'', 0)"
proof -
  have c: "etcd_committed node_kv demo_store committed_node (''t'', 0) = 5"
    by (simp add: etcd_committed_def node_kv_def committed_node_def)
  let ?E = "node_env demo_store ''ns/'' (\<lambda>_. None) [] (\<lambda>_. False)" and ?p = "new_processor committed_node"
  let ?run = "iceberg_Run ?E ''me'' [EvTick (\<lambda>_. 0), EvDone 1] ?p"
  have "etcd_committed node_kv demo_store (prWorld ?p) (''t'', 0) \<le> etcd_committed node_kv demo_store (prWorld ?run) (''t'', 0)"
    using processor_checkpoints [OF nodp.processor_contract_axioms, of ?run demo_store "''ns/''" "\<lambda>_. None" "[]" "\<lambda>_. False" "''me''" "[EvTick (\<lambda>_. 0), EvDone 1]" ?p] by blast
  with c show ?thesis by (simp add: new_processor_def)
qed

end
