(* ===== verification/Processor_Export.thy ===== *)
theory Processor_Export
  imports Processor_Node Discovery_Correctness
begin

text \<open>
  The processors at work. Over a reliable environment a tick exports exactly the records behind the
  committed offset, once and in order; composed with the listing, the decoder and the log of the
  broker, the sink gets the records the producers sent.
\<close>

section \<open>Exactly once\<close>

locale reliable_processor = processor_contract E offs out for E :: "'w processor_env" and offs out +
  assumes no_validator: "peValidator E = None"
    and load_total: "\<exists>st w'. csLoadOffset (peStore E now) t p w = (Ok st, w')"
    and write_total: "\<exists>w'. peWrite E rs w = (Ok (), w')"
    and commit_total: "\<exists>r w'. csCommitOffset (peStore E now) st w = (r, w') \<and> r \<noteq> Panic \<and> offs w' = (offs w)((osTopic st, osPartition st) := osOffset st)"
begin

lemma write_and_commit_exact:
  assumes "rs \<noteq> []"
  obtains w' where "write_and_commit E now rs w = (Ok (), w')" "out w' = out w @ rs"
    "offs w' = (offs w)((skTopic (last rs), skPartition (last rs)) := skOffset (last rs))"
proof -
  obtain w1 where w1: "peWrite E rs w = (Ok (), w1)" using write_total by blast
  obtain c w2 where w2: "csCommitOffset (peStore E now) (commit_state (last rs) now) w1 = (c, w2)" "c \<noteq> Panic"
    "offs w2 = (offs w1)((skTopic (last rs), skPartition (last rs)) := skOffset (last rs))"
    using commit_total [of now "commit_state (last rs) now" w1] by (auto simp: commit_state_def)
  show thesis
  proof (rule that)
    show "write_and_commit E now rs w = (Ok (), w2)" using assms w1 w2(1,2) by (cases c) (simp_all add: write_and_commit_def)
    show "out w2 = out w @ rs" using write_ok [OF w1] commit_keeps [OF w2(1)] by simp
    show "offs w2 = (offs w)((skTopic (last rs), skPartition (last rs)) := skOffset (last rs))"
      using w2(3) write_keeps [OF w1] by simp
  qed
qed

definition behind :: "'w \<Rightarrow> string \<times> int \<Rightarrow> sink_record list \<Rightarrow> sink_record list" where
  "behind w tp rs = filter (\<lambda>r. offs w tp < skOffset r) rs"

lemma process_segment_exact:
  assumes dec: "\<And>w. \<exists>w'. peDecode E (sgSegmentKey seg) (sgIndexKey seg) (sgTopic seg) (sgPartition seg) w = (Ok rs, w')"
  obtains w' where "process_segment E now seg w = (Ok (), w')"
    "out w' = out w @ behind w (sgTopic seg, sgPartition seg) (mapRecords rs)"
    "offs w' = (offs w)((sgTopic seg, sgPartition seg) :=
       (if behind w (sgTopic seg, sgPartition seg) (mapRecords rs) = [] then offs w (sgTopic seg, sgPartition seg)
        else skOffset (last (behind w (sgTopic seg, sgPartition seg) (mapRecords rs)))))"
proof -
  let ?tp = "(sgTopic seg, sgPartition seg)"
  obtain st w1 where l: "csLoadOffset (peStore E now) (sgTopic seg) (sgPartition seg) w = (Ok st, w1)" using load_total by blast
  obtain w2 where d: "peDecode E (sgSegmentKey seg) (sgIndexKey seg) (sgTopic seg) (sgPartition seg) w1 = (Ok rs, w2)" using dec by blast
  have k: "offs w2 = offs w" "out w2 = out w" using load_keeps [OF l] decode_keeps [OF d] by simp_all
  have f: "filterRecords (mapRecords rs) (osOffset st) = behind w ?tp (mapRecords rs)"
    using load_value [OF l] by (simp add: filterRecords_def behind_def)
  have run: "process_segment E now seg w = write_and_commit E now (behind w ?tp (mapRecords rs)) w2"
    using l d f by (simp add: process_segment_def validateRecords_def no_validator)
  show thesis
  proof (cases "behind w ?tp (mapRecords rs) = []")
    case True
    with run k show thesis by (intro that [of w2]) (simp_all add: write_and_commit_def)
  next
    case False
    obtain w3 where w3: "write_and_commit E now (behind w ?tp (mapRecords rs)) w2 = (Ok (), w3)"
      "out w3 = out w2 @ behind w ?tp (mapRecords rs)"
      "offs w3 = (offs w2)((skTopic (last (behind w ?tp (mapRecords rs))), skPartition (last (behind w ?tp (mapRecords rs)))) :=
         skOffset (last (behind w ?tp (mapRecords rs))))" by (rule write_and_commit_exact [OF False])
    have "last (behind w ?tp (mapRecords rs)) \<in> set (behind w ?tp (mapRecords rs))" using False by (rule last_in_set)
    then obtain x where "x \<in> set rs" "last (behind w ?tp (mapRecords rs)) = sink_of x" by (auto simp: behind_def mapRecords_def)
    with decode_labels [OF d] have "(skTopic (last (behind w ?tp (mapRecords rs))), skPartition (last (behind w ?tp (mapRecords rs)))) = ?tp"
      by (simp add: sink_of_def)
    with w3 k False run show thesis by (intro that [of w3]) simp_all
  qed
qed

lemma behind_append: "behind w tp (xs @ ys) = behind w tp xs @ behind w tp ys"
  by (simp add: behind_def)

text \<open>The segments of the leased partition, whose records ascend: all records behind the committed offset are
  written in order and the last is committed.\<close>

lemma process_segments_exact:
  assumes "\<And>seg w. seg \<in> set segs \<Longrightarrow> sgTopic seg = lnTopic l \<Longrightarrow> sgPartition seg = lnPartition l \<Longrightarrow>
      \<exists>w'. peDecode E (sgSegmentKey seg) (sgIndexKey seg) (sgTopic seg) (sgPartition seg) w = (Ok (recs seg), w')"
    and "tp = (lnTopic l, lnPartition l)"
    and "all = concat (map (\<lambda>seg. mapRecords (recs seg)) (filter (\<lambda>seg. sgTopic seg = lnTopic l \<and> sgPartition seg = lnPartition l) segs))"
    and "sorted_wrt (<) (map skOffset all)"
  shows "\<exists>w'. process_segments (process_segment E) clk l segs w = (Ok (), w') \<and> out w' = out w @ behind w tp all \<and>
    offs w' = (offs w)(tp := (if behind w tp all = [] then offs w tp else skOffset (last (behind w tp all))))"
  using assms
proof (induction segs arbitrary: clk w all)
  case (Cons seg segs)
  let ?mine = "\<lambda>seg. sgTopic seg = lnTopic l \<and> sgPartition seg = lnPartition l"
  let ?rest = "concat (map (\<lambda>seg. mapRecords (recs seg)) (filter ?mine segs))"
  show ?case
  proof (cases "?mine seg")
    case False
    then have "all = ?rest" using Cons.prems(3) by (auto simp only: filter.simps if_False)
    with Cons False show ?thesis by auto
  next
    case True
    let ?one = "mapRecords (recs seg)"
    have all: "all = ?one @ ?rest" using Cons.prems(3) True by simp
    have tp: "(sgTopic seg, sgPartition seg) = tp" using True Cons.prems(2) by simp
    have "\<exists>w'. peDecode E (sgSegmentKey seg) (sgIndexKey seg) (sgTopic seg) (sgPartition seg) w = (Ok (recs seg), w')" for w
      using Cons.prems(1) [of seg w] True by simp
    from process_segment_exact [of seg, OF this, of "clk 0" w] obtain w1 where w1: "process_segment E (clk 0) seg w = (Ok (), w1)"
      "out w1 = out w @ behind w tp ?one"
      "offs w1 = (offs w)(tp := (if behind w tp ?one = [] then offs w tp else skOffset (last (behind w tp ?one))))"
      unfolding tp by blast
    have srt: "sorted_wrt (<) (map skOffset ?rest)" and lt: "\<And>r q. r \<in> set ?one \<Longrightarrow> q \<in> set ?rest \<Longrightarrow> skOffset r < skOffset q"
      using Cons.prems(4) unfolding all by (auto simp: sorted_wrt_append)
    have "\<exists>w'. process_segments (process_segment E) (\<lambda>n. clk (Suc n)) l segs w1 = (Ok (), w') \<and> out w' = out w1 @ behind w1 tp ?rest \<and>
      offs w' = (offs w1)(tp := (if behind w1 tp ?rest = [] then offs w1 tp else skOffset (last (behind w1 tp ?rest))))"
      by (rule Cons.IH [OF _ Cons.prems(2) refl srt]) (rule Cons.prems(1), simp_all)
    then obtain w' where w': "process_segments (process_segment E) (\<lambda>n. clk (Suc n)) l segs w1 = (Ok (), w')"
      "out w' = out w1 @ behind w1 tp ?rest"
      "offs w' = (offs w1)(tp := (if behind w1 tp ?rest = [] then offs w1 tp else skOffset (last (behind w1 tp ?rest))))" by blast
    have same: "behind w1 tp ?rest = behind w tp ?rest"
    proof (cases "behind w tp ?one = []")
      case True
      then show ?thesis by (simp add: behind_def w1(3))
    next
      case ne: False
      let ?x = "last (behind w tp ?one)"
      have x: "?x \<in> set ?one" "offs w tp < skOffset ?x" using last_in_set [OF ne] by (simp_all add: behind_def)
      have "skOffset ?x < skOffset q" "offs w tp < skOffset q" if "q \<in> set ?rest" for q using lt [OF x(1) that] x(2) by simp_all
      then show ?thesis using ne by (simp add: behind_def w1(3) cong: filter_cong)
    qed
    have "process_segments (process_segment E) clk l (seg # segs) w = (Ok (), w')" using True w1(1) w'(1) by simp
    moreover have "out w' = out w @ behind w tp all" using w1(2) w'(2) same by (simp add: all behind_append)
    moreover have "offs w' = (offs w)(tp := (if behind w tp all = [] then offs w tp else skOffset (last (behind w tp all))))"
      using w1(3) w'(3) same by (auto simp: all behind_append fun_eq_iff)
    ultimately show ?thesis by blast
  qed
qed (simp add: behind_def)

lemma tick_exact:
  assumes run: "prStatus p = Running" "prHasLease p" "prActiveLease p = l"
    and list: "\<And>w. \<exists>w'. peListCompleted E w = (Ok segs, w')"
    and dec: "\<And>seg w. seg \<in> set segs \<Longrightarrow> sgTopic seg = lnTopic l \<Longrightarrow> sgPartition seg = lnPartition l \<Longrightarrow>
      \<exists>w'. peDecode E (sgSegmentKey seg) (sgIndexKey seg) (sgTopic seg) (sgPartition seg) w = (Ok (recs seg), w')"
    and all: "all = concat (map (\<lambda>seg. mapRecords (recs seg)) (filter (\<lambda>seg. sgTopic seg = lnTopic l \<and> sgPartition seg = lnPartition l) segs))"
      "sorted_wrt (<) (map skOffset all)" "tp = (lnTopic l, lnPartition l)"
  shows "\<exists>w'. run_event (process_segment E) E ownerID (EvTick clk) p = p\<lparr>prWorld := w'\<rparr> \<and>
    out w' = out (prWorld p) @ filter (\<lambda>r. offs (prWorld p) tp < skOffset r) all \<and>
    offs w' = (offs (prWorld p))(tp := (if filter (\<lambda>r. offs (prWorld p) tp < skOffset r) all = [] then offs (prWorld p) tp
      else skOffset (last (filter (\<lambda>r. offs (prWorld p) tp < skOffset r) all))))"
proof -
  obtain w1 where w1: "peListCompleted E (prWorld p) = (Ok segs, w1)" using list by blast
  have k: "offs w1 = offs (prWorld p)" "out w1 = out (prWorld p)" using list_keeps [OF w1] by simp_all
  from process_segments_exact [OF dec all(3,1,2), of "\<lambda>n. clk (Suc n)" w1] obtain w' where
    w': "process_segments (process_segment E) (\<lambda>n. clk (Suc n)) l segs w1 = (Ok (), w')" "out w' = out w1 @ behind w1 tp all"
      "offs w' = (offs w1)(tp := (if behind w1 tp all = [] then offs w1 tp else skOffset (last (behind w1 tp all))))" by blast
  have "run_event (process_segment E) E ownerID (EvTick clk) p = p\<lparr>prWorld := w'\<rparr>"
    using run w1 w'(1) by (simp add: run_event_def tick_def claim_step_def)
  with w'(2,3) k show ?thesis by (auto simp: behind_def)
qed

end

interpretation nodr: reliable_processor "node_env s prfx objects listing (\<lambda>_. False)" "etcd_committed node_kv s" ndSink for s prfx objects listing
proof unfold_locales
  fix now t p w
  show "\<exists>st w'. csLoadOffset (peStore (node_env s prfx objects listing (\<lambda>_. False)) now) t p w = (Ok st, w')"
    by (simp add: node_env_def etcd_checkpoints_def LoadOffset_def mem_etcd_def split: option.splits)
next
  fix now st w
  obtain r w' where c: "CommitOffset (mem_etcd s) s now st w = (r, w')" by fastforce
  then have r: "r = Ok ()" using node_commit(2) [of s now st w] by simp
  then show "\<exists>r w'. csCommitOffset (peStore (node_env s prfx objects listing (\<lambda>_. False)) now) st w = (r, w') \<and> r \<noteq> Panic \<and>
      etcd_committed node_kv s w' = (etcd_committed node_kv s w)((osTopic st, osPartition st) := osOffset st)"
    using nodc.commit(1) [OF c] c by (simp add: node_env_def etcd_checkpoints_def)
qed (simp_all add: node_env_def)

section \<open>The records of a log\<close>

text \<open>The records of the batches of a segment, and of all segments of a log.\<close>

definition segment_records :: "string \<Rightarrow> int \<Rightarrow> record_batch list \<Rightarrow> kbatch list \<Rightarrow> krecord list" where
  "segment_records topic part g kbs = concat (map2 (\<lambda>x kb. records_of topic part (rbBaseOffset x) kb) g kbs)"

definition log_records :: "string \<Rightarrow> int \<Rightarrow> record_batch list list \<Rightarrow> kbatch list list \<Rightarrow> krecord list" where
  "log_records topic part G kbss = concat (map2 (segment_records topic part) G kbss)"

text \<open>The offset deltas of a batch ascend within the range the batch claims.\<close>

definition deltas_ok :: "record_batch \<Rightarrow> kbatch \<Rightarrow> bool" where
  "deltas_ok x kb \<longleftrightarrow> sorted_wrt (<) (map kdOffset (kbRecords kb)) \<and>
     (\<forall>k \<in> set (kbRecords kb). 0 \<le> kdOffset k \<and> kdOffset k \<le> rbLastOffsetDelta x)"

lemma chain_records:
  assumes "chain s g e" "list_all2 deltas_ok g kbs"
  shows "sorted_wrt (<) (map rcOffset (segment_records t p g kbs)) \<and> (\<forall>r \<in> set (segment_records t p g kbs). s \<le> rcOffset r \<and> rcOffset r < e) \<and> s \<le> e"
  using assms(2,1)
proof (induction arbitrary: s rule: list_all2_induct)
  case (Cons x g kb kbs)
  let ?b = "records_of t p (rbBaseOffset x) kb" and ?s = "s + rbLastOffsetDelta x + 1"
  have c: "rbBaseOffset x = s" "0 \<le> rbLastOffsetDelta x" "chain ?s g e" using Cons.prems by simp_all
  have rest: "sorted_wrt (<) (map rcOffset (segment_records t p g kbs))" "\<forall>r \<in> set (segment_records t p g kbs). ?s \<le> rcOffset r \<and> rcOffset r < e" "?s \<le> e"
    using Cons.IH [OF c(3)] by simp_all
  have "map rcOffset ?b = map (\<lambda>d. s + d) (map kdOffset (kbRecords kb))" using c(1) by (simp add: records_of_def rec_of_def)
  moreover have "sorted_wrt (<) (map (\<lambda>d. s + d) (map kdOffset (kbRecords kb)))"
    using Cons.hyps(1) by (simp add: deltas_ok_def sorted_wrt_map)
  ultimately have "sorted_wrt (<) (map rcOffset ?b)" by simp
  moreover have b: "\<forall>r \<in> set ?b. s \<le> rcOffset r \<and> rcOffset r < ?s"
    using Cons.hyps(1) c(1) by (auto simp: records_of_def rec_of_def deltas_ok_def)
  moreover have "segment_records t p (x # g) (kb # kbs) = ?b @ segment_records t p g kbs" by (simp add: segment_records_def)
  ultimately show ?case using rest c(2) by (fastforce simp: sorted_wrt_append)
qed (simp add: segment_records_def)

lemma log_segment_records:
  assumes l: "log_ok segs idx ok l G" and k: "list_all2 (list_all2 deltas_ok) G kbss" and i: "i < length G"
  shows "sorted_wrt (<) (map rcOffset (segment_records t p (G ! i) (kbss ! i)))"
    "r \<in> set (segment_records t p (G ! i) (kbss ! i)) \<Longrightarrow> srBase (plSegments l ! i) \<le> rcOffset r \<and> rcOffset r \<le> srLast (plSegments l ! i)"
proof -
  have "seg_stored segs idx l (plSegments l ! i) (G ! i)" using log_ok_nth [OF l i] by simp
  then have "chain (srBase (plSegments l ! i)) (G ! i) (srLast (plSegments l ! i) + 1)" by (auto simp: seg_stored_def)
  moreover have "list_all2 deltas_ok (G ! i) (kbss ! i)" using k i by (rule list_all2_nthD)
  ultimately have c: "sorted_wrt (<) (map rcOffset (segment_records t p (G ! i) (kbss ! i))) \<and>
      (\<forall>r \<in> set (segment_records t p (G ! i) (kbss ! i)). srBase (plSegments l ! i) \<le> rcOffset r \<and> rcOffset r < srLast (plSegments l ! i) + 1) \<and>
      srBase (plSegments l ! i) \<le> srLast (plSegments l ! i) + 1" by (rule chain_records)
  then show "sorted_wrt (<) (map rcOffset (segment_records t p (G ! i) (kbss ! i)))" by blast
  show "r \<in> set (segment_records t p (G ! i) (kbss ! i)) \<Longrightarrow> srBase (plSegments l ! i) \<le> rcOffset r \<and> rcOffset r \<le> srLast (plSegments l ! i)"
    using c by force
qed

lemma sorted_concat:
  assumes "\<forall>xs \<in> set xss. sorted_wrt (<) (map f xs)"
    and "\<And>i j x y. i < j \<Longrightarrow> j < length xss \<Longrightarrow> x \<in> set (xss ! i) \<Longrightarrow> y \<in> set (xss ! j) \<Longrightarrow> f x < (f y :: int)"
  shows "sorted_wrt (<) (map f (concat xss))"
  using assms
proof (induction xss)
  case (Cons xs xss)
  have "sorted_wrt (<) (map f (concat xss))"
  proof (rule Cons.IH)
    show "f x < f y" if "i < j" "j < length xss" "x \<in> set (xss ! i)" "y \<in> set (xss ! j)" for i j x y
      using Cons.prems(2) [of "Suc i" "Suc j" x y] that by simp
  qed (use Cons.prems(1) in simp)
  moreover have "f x < f y" if "x \<in> set xs" "y \<in> set (concat xss)" for x y
  proof -
    from that(2) obtain ys where "ys \<in> set xss" "y \<in> set ys" by auto
    then obtain j where "j < length xss" "y \<in> set (xss ! j)" by (metis in_set_conv_nth)
    with Cons.prems(2) [of 0 "Suc j" x y] that(1) show ?thesis by simp
  qed
  ultimately show ?case using Cons.prems(1) by (auto simp: sorted_wrt_append)
qed simp

lemma log_records_ascend:
  assumes l: "log_ok segs idx ok l G" and k: "list_all2 (list_all2 deltas_ok) G kbss"
  shows "sorted_wrt (<) (map rcOffset (log_records t p G kbss))"
proof -
  let ?xss = "map2 (segment_records t p) G kbss"
  have len: "length G = length kbss" using k by (rule list_all2_lengthD)
  have at: "?xss ! i = segment_records t p (G ! i) (kbss ! i)" if "i < length G" for i using that len by simp
  have ns: "length (plSegments l) = length G" using l by (auto simp: log_ok_def log_inv_def dest: list_all2_lengthD)
  have srt: "sorted_wrt (\<lambda>a b. srLast a < srBase b) (plSegments l)" using l by (simp add: log_ok_def log_inv_def)
  show ?thesis unfolding log_records_def
  proof (rule sorted_concat)
    show "\<forall>xs \<in> set ?xss. sorted_wrt (<) (map rcOffset xs)"
      using log_segment_records(1) [OF l k] len by (auto simp: in_set_conv_nth)
    fix i j x y assume ij: "i < j" "j < length ?xss" and x: "x \<in> set (?xss ! i)" and y: "y \<in> set (?xss ! j)"
    have il: "i < length G" "j < length G" using ij len by simp_all
    have "rcOffset x \<le> srLast (plSegments l ! i)" using log_segment_records(2) [OF l k il(1)] x at [OF il(1)] by simp
    moreover have "srLast (plSegments l ! i) < srBase (plSegments l ! j)" using sorted_wrt_nth_less [OF srt ij(1)] il ns by simp
    moreover have "srBase (plSegments l ! j) \<le> rcOffset y" using log_segment_records(2) [OF l k il(2)] y at [OF il(2)] by simp
    ultimately show "rcOffset x < rcOffset y" by linarith
  qed
qed

section \<open>From the log to the sink\<close>

text \<open>The deltas of the clients fit the narrower of the two decoders.\<close>

abbreviation small_delta :: "int \<Rightarrow> bool" where
  "small_delta n \<equiv> - (2 ^ 30) \<le> n \<and> n < 2 ^ 30"

text \<open>
  C7: a tick of an Iceberg processor that holds the lease of a partition, over services that do not
  fail, appends to the sink exactly the records of the log of that partition behind the committed
  offset - those the producers sent, with the offsets the broker acknowledged, each once and in
  order - and commits the offset of the last. From the appended batches through segments, listing
  and decoder nothing is lost, added or reordered.
\<close>

theorem log_exported:
  assumes E: "reliable_processor E offs out"
    and run: "prStatus pr = Running" "prHasLease pr" "lnTopic (prActiveLease pr) = plTopic l" "lnPartition (prActiveLease pr) = plPartition l"
    and l: "log_ok segs idx ok l G" "\<forall>s \<in> set (plSegments l). srSize s < 2 ^ 31" and named: "log_exposed l prfx"
    and kbs: "list_all2 (list_all2 (client_batch small_delta)) G kbss" "list_all2 (list_all2 deltas_ok) G kbss"
    and listing: "\<And>w. \<exists>w'. peListCompleted E w = (listCompleted (map Ok conts) getTail prfx None, w')"
      "log_objects (filtered_parse None prfx) l (concat conts)" "canonical (filtered_parse None prfx) prfx (concat conts)"
      "tails_of (log_segments segs l) getTail"
    and dec: "\<And>k i t p w. \<exists>w'. peDecode E k i t p w = (iceberg_Decode getObject k i t p, w')"
    and get: "\<And>k d. log_segments segs l k = Some d \<Longrightarrow> getObject k = Ok d" "\<And>k d. log_indexes idx l k = Some d \<Longrightarrow> getObject k = Ok d"
    and tp: "tp = (plTopic l, plPartition l)" and new: "new = filter (\<lambda>r. offs (prWorld pr) tp < skOffset r) (mapRecords (log_records (plTopic l) (plPartition l) G kbss))"
  shows "\<exists>w'. run_event (process_segment E) E ownerID (EvTick clk) pr = pr\<lparr>prWorld := w'\<rparr> \<and>
    out w' = out (prWorld pr) @ new \<and>
    offs w' = (offs (prWorld pr))(tp := (if new = [] then offs (prWorld pr) tp else skOffset (last new)))"
proof -
  let ?t = "plTopic l" and ?p = "plPartition l"
  have len: "length (plSegments l) = length G" "length G = length kbss"
    using l(1) list_all2_lengthD [OF kbs(1)] by (auto simp: log_ok_def log_inv_def dest: list_all2_lengthD)
  have flt: "filterAllows f (plTopic l) (plPartition l)" if "None = Some f" for f :: topic_filter using that by simp
  obtain refs where refs: "listCompleted (map Ok conts) getTail prfx None = Ok refs"
    "filter (\<lambda>r. sgTopic r = ?t \<and> sgPartition r = ?p) refs = map (log_ref l) (plSegments l)"
    using log_listed [OF l(1) named listing(2,3) flt listing(4)] by blast
  define recs where "recs ref = (case iceberg_Decode getObject (sgSegmentKey ref) (sgIndexKey ref) (sgTopic ref) (sgPartition ref) of Ok rs \<Rightarrow> rs | _ \<Rightarrow> [])"
    for ref :: segment_ref
  have seg: "iceberg_Decode getObject (segmentKey l (srBase (plSegments l ! i))) (indexKey l (srBase (plSegments l ! i))) ?t ?p =
      Ok (segment_records ?t ?p (G ! i) (kbss ! i))" if i: "i < length G" for i
    unfolding segment_records_def
    by (rule stored_segment_decoded [OF l(1) i refl _ get(1) get(2), THEN conjunct2])
       (use l(2) len(1) i list_all2_nthD [OF kbs(1) i] in \<open>auto simp: log_segments_def log_indexes_def\<close>)
  have decoded: "iceberg_Decode getObject (sgSegmentKey ref) (sgIndexKey ref) (sgTopic ref) (sgPartition ref) = Ok (recs ref)"
    if ref: "ref \<in> set refs" "sgTopic ref = ?t" "sgPartition ref = ?p" for ref
  proof -
    from ref have "ref \<in> set (filter (\<lambda>r. sgTopic r = ?t \<and> sgPartition r = ?p) refs)" by simp
    then obtain i where "i < length G" "ref = log_ref l (plSegments l ! i)" unfolding refs(2) using len(1) by (auto simp: in_set_conv_nth)
    then show ?thesis using seg by (simp add: recs_def log_ref_def)
  qed
  have "map recs (map (log_ref l) (plSegments l)) = map2 (segment_records ?t ?p) G kbss"
    using seg len by (intro nth_equalityI) (simp_all add: recs_def log_ref_def)
  moreover have "concat (map (\<lambda>ref. mapRecords (recs ref)) xs) = mapRecords (concat (map recs xs))" for xs
    by (induction xs) (simp_all add: mapRecords_def)
  ultimately have "concat (map (\<lambda>ref. mapRecords (recs ref)) (map (log_ref l) (plSegments l))) = mapRecords (log_records ?t ?p G kbss)"
    by (simp only: log_records_def)
  with refs(2) have all: "mapRecords (log_records ?t ?p G kbss) =
      concat (map (\<lambda>seg. mapRecords (recs seg)) (filter (\<lambda>seg. sgTopic seg = lnTopic (prActiveLease pr) \<and> sgPartition seg = lnPartition (prActiveLease pr)) refs))"
    using run(3,4) by simp
  have "map skOffset (mapRecords (log_records ?t ?p G kbss)) = map rcOffset (log_records ?t ?p G kbss)"
    by (simp add: mapRecords_def sink_of_def)
  then have srt: "sorted_wrt (<) (map skOffset (mapRecords (log_records ?t ?p G kbss)))" using log_records_ascend [OF l(1) kbs(2)] by simp
  have list: "\<exists>w'. peListCompleted E w = (Ok refs, w')" for w using listing(1) [of w] refs(1) by simp
  have "\<exists>w'. peDecode E (sgSegmentKey seg) (sgIndexKey seg) (sgTopic seg) (sgPartition seg) w = (Ok (recs seg), w')"
    if "seg \<in> set refs" "sgTopic seg = lnTopic (prActiveLease pr)" "sgPartition seg = lnPartition (prActiveLease pr)" for seg w
    using dec [of "sgSegmentKey seg" "sgIndexKey seg" "sgTopic seg" "sgPartition seg" w] decoded [OF that(1)] that(2,3) run(3,4) by simp
  moreover have "tp = (lnTopic (prActiveLease pr), lnPartition (prActiveLease pr))" using tp run(3,4) by simp
  ultimately show ?thesis
    using reliable_processor.tick_exact [OF E run(1,2) refl list _ all srt, of tp ownerID clk] unfolding new by blast
qed

text \<open>A node with the objects of a log, and a processor that holds the lease of its partition.\<close>

definition log_node_objects :: "memory_s3 plog \<Rightarrow> string \<Rightarrow> bytes option" where
  "log_node_objects l k = (case log_segments mem_segs l k of None \<Rightarrow> log_indexes mem_idx l k | Some d \<Rightarrow> Some d)"

definition log_node_listing :: "memory_s3 plog \<Rightarrow> list_object list" where
  "log_node_listing l = concat (map (\<lambda>s. map (\<lambda>k. \<lparr>loKey = k, loSize = 100, loModified = 1\<rparr>) [segmentKey l (srBase s), indexKey l (srBase s)]) (plSegments l))"

definition holding :: "string \<Rightarrow> int \<Rightarrow> node \<Rightarrow> node processor" where
  "holding t p w = (new_processor w)\<lparr>prHasLease := True, prRenewing := True,
     prActiveLease := \<lparr>lnTopic = t, lnPartition = p, lnOwnerID = ''me'', lnExpiresAt = 0, lnLeaseID = 1\<rparr>\<rparr>"

theorem log_exported_witness:
  "\<exists>l w'. mem_log_ok l [[patched client_record_batch 0]] \<and>
     run_event (process_segment (node_env demo_store ''ns/'' (log_node_objects l) (log_node_listing l) (\<lambda>_. False)))
       (node_env demo_store ''ns/'' (log_node_objects l) (log_node_listing l) (\<lambda>_. False)) ''me'' (EvTick (\<lambda>_. 0)) (holding ''t'' 0 new_node) =
       (holding ''t'' 0 new_node)\<lparr>prWorld := w'\<rparr> \<and>
     map skValue (ndSink w') = [Some [7, 8]] \<and> etcd_committed node_kv demo_store w' (''t'', 0) = 0"
proof -
  obtain a l where l: "mem_log_ok l [[patched client_record_batch 0]]" "plSegments l = [new_segment a]"
    "srBase (new_segment a) = 0" "srSize (new_segment a) < 2 ^ 31" "conf l = conf demo_log" by (rule demo_client_log)
  have f: "plNamespace l = ''ns''" "plTopic l = ''t''" "plPartition l = 0"
    using l(5) by (simp_all add: conf_def demo_log_def NewPartitionLog_def)
  let ?E = "node_env demo_store ''ns/'' (log_node_objects l) (log_node_listing l) (\<lambda>_. False)"
  let ?pr = "holding ''t'' 0 new_node" and ?offs = "etcd_committed node_kv demo_store"
  have named: "log_exposed l ''ns/''"
    using f by (simp add: log_exposed_def clean_ns_def plain_elem_def in_i32_def normalizePrefix_def Trim_slash_def)
  note keys = log_exposed_keys [OF named, of 0]
  have objs: "concat [log_node_listing l] = map (\<lambda>k. \<lparr>loKey = k, loSize = 100, loModified = 1\<rparr>) [segmentKey l 0, indexKey l 0]"
    using l(2,3) by (simp add: log_node_listing_def)
  have parse: "filtered_parse None ''ns/'' (object_key ''ns/'' (log_id l 0) kind) = Some (log_id l 0, kind)" for kind
    using parse_object_key(1) [OF keys(3)] by (simp add: filtered_parse_def in_i64_def)
  have lo: "log_objects (filtered_parse None ''ns/'') l (concat [log_node_listing l])"
    unfolding objs log_objects_def listed_def keys(1,2) using l(2,3) parse keys(1,2) by (auto simp: log_id_def)
  have ca: "canonical (filtered_parse None ''ns/'') ''ns/'' (concat [log_node_listing l])"
    unfolding objs canonical_def keys(1,2) using parse by auto
  have ne: "segmentKey l 0 \<noteq> indexKey l 0" unfolding keys(1,2) by (simp add: object_key_def log_id_def segment_name_def index_name_def)
  have get: "log_segments mem_segs l k = Some d \<Longrightarrow> node_get (log_node_objects l) k = Ok d"
    "log_indexes mem_idx l k = Some d \<Longrightarrow> node_get (log_node_objects l) k = Ok d" for k d
    using ne l(2,3) by (auto simp: node_get_def log_node_objects_def log_segments_def log_indexes_def split: if_splits)
  have tails: "tails_of (log_segments mem_segs l) (node_tail (log_node_objects l))"
    by (simp add: tails_of_def node_tail_def log_node_objects_def)
  have d: "list_all2 (list_all2 deltas_ok) [[patched client_record_batch 0]] [[demo_kbatch]]"
    by (simp add: deltas_ok_def demo_kbatch_def patched_def client_record_batch_def)
  have "\<exists>w'. run_event (process_segment ?E) ?E ''me'' (EvTick (\<lambda>_. 0)) ?pr = ?pr\<lparr>prWorld := w'\<rparr> \<and>
    ndSink w' = ndSink (prWorld ?pr) @ mapRecords (log_records ''t'' 0 [[patched client_record_batch 0]] [[demo_kbatch]]) \<and>
    ?offs w' = (?offs (prWorld ?pr))((''t'', 0) := 0)"
  proof -
    have new: "mapRecords (log_records ''t'' 0 [[patched client_record_batch 0]] [[demo_kbatch]]) =
      filter (\<lambda>r. ?offs (prWorld ?pr) (''t'', 0) < skOffset r) (mapRecords (log_records (plTopic l) (plPartition l) [[patched client_record_batch 0]] [[demo_kbatch]]))"
      by (simp add: log_records_def segment_records_def records_of_def rec_of_def demo_kbatch_def mapRecords_def sink_of_def patched_def
        holding_def new_processor_def etcd_committed_def node_kv_def new_node_def f)
    have "mapRecords (log_records ''t'' 0 [[patched client_record_batch 0]] [[demo_kbatch]]) \<noteq> []"
      "skOffset (last (mapRecords (log_records ''t'' 0 [[patched client_record_batch 0]] [[demo_kbatch]]))) = 0"
      by (simp_all add: log_records_def segment_records_def records_of_def rec_of_def demo_kbatch_def mapRecords_def sink_of_def patched_def)
    moreover note log_exported [OF nodr.reliable_processor_axioms _ _ _ _ l(1) _ named _ d _ lo ca tails _ get _ new,
      where ownerID = "''me''" and clk = "\<lambda>_. 0"]
    ultimately show ?thesis using l(2,4) f demo_kbatch_fits
      by (simp add: holding_def new_processor_def node_env_def)
  qed
  then obtain w' where w': "run_event (process_segment ?E) ?E ''me'' (EvTick (\<lambda>_. 0)) ?pr = ?pr\<lparr>prWorld := w'\<rparr>"
    "ndSink w' = ndSink (prWorld ?pr) @ mapRecords (log_records ''t'' 0 [[patched client_record_batch 0]] [[demo_kbatch]])"
    "?offs w' = (?offs (prWorld ?pr))((''t'', 0) := 0)" by blast
  from w'(2) have "map skValue (ndSink w') = [Some [7, 8]]"
    by (simp add: holding_def new_processor_def new_node_def log_records_def segment_records_def records_of_def rec_of_def demo_kbatch_def mapRecords_def sink_of_def)
  with l(1) w'(1,3) show ?thesis by (intro exI [of _ l] exI [of _ w']) simp
qed

end
