(* ===== verification/Processor_Faults.thy ===== *)
theory Processor_Faults
  imports Processor_Export
begin

text \<open>
  Faults of the processors: a write that fails is skipped for good when a later segment of the same
  tick is written; the store without a backend drops the first record of every partition; and a
  processor that has lost its lease takes the lease from the new owner when it releases it.
\<close>

section \<open>A failed write\<close>

lemma process_segment_write:
  assumes "processor_contract E offs out" "peValidator E = None" "csLoadOffset (peStore E now) (sgTopic seg) (sgPartition seg) w = (Ok st, w1)"
    "peDecode E (sgSegmentKey seg) (sgIndexKey seg) (sgTopic seg) (sgPartition seg) w1 = (Ok rs, w2)"
  shows "process_segment E now seg w = write_and_commit E now (filterRecords (mapRecords rs) (offs w (sgTopic seg, sgPartition seg))) w2"
    "offs w2 = offs w" "out w2 = out w"
  using assms processor_contract.load_value [OF assms(1,3)] processor_contract.load_keeps [OF assms(1,3)]
    processor_contract.decode_keeps [OF assms(1,4)]
  by (simp_all add: process_segment_def validateRecords_def)

lemma run_after:
  assumes E: "processor_contract E offs out" and p': "p' = iceberg_Run E ownerID evs p"
  shows "\<exists>new. out (prWorld p') = out (prWorld p) @ new \<and> (\<forall>r \<in> set new. offs (prWorld p) (skTopic r, skPartition r) < skOffset r)"
proof -
  have "processor_contract.advances offs out (prWorld p) (prWorld p')"
    unfolding p' iceberg_Run_def by (rule processor_contract.run_advances [OF E], rule processor_contract.process_segment_advances [OF E])
  then show ?thesis unfolding processor_contract.advances_def [OF E] by blast
qed


text \<open>A decoder or a store may be exchanged in an environment that keeps the contract.\<close>

lemma contract_with_decoder:
  assumes "processor_contract E offs out" "\<And>k i t p rs r. dec k i t p = Ok rs \<Longrightarrow> r \<in> set rs \<Longrightarrow> rcTopic r = t \<and> rcPartition r = p"
  shows "processor_contract (E\<lparr>peDecode := \<lambda>k i t p w. (dec k i t p, w)\<rparr>) offs out"
  using assms unfolding processor_contract_def by simp

lemma contract_without_store:
  assumes "processor_contract E offs out"
  shows "processor_contract (E\<lparr>peStore := \<lambda>_. noopStore\<rparr>) (\<lambda>_ _. 0) out"
  using assms unfolding processor_contract_def by (simp add: noopStore_def)

definition demo_krecord :: "string \<Rightarrow> int \<Rightarrow> int \<Rightarrow> krecord" where
  "demo_krecord t p n =
     \<lparr>rcTopic = t, rcPartition = p, rcOffset = n, rcTimestamp = 0, rcKey = None, rcValue = Some [7], rcHeaders = []\<rparr>"

definition demo_dec :: "string \<Rightarrow> string \<Rightarrow> string \<Rightarrow> int \<Rightarrow> krecord list outcome" where
  "demo_dec k i t p = Ok [demo_krecord t p (if k = ''a'' then 1 else 2)]"

text \<open>A node whose sink refuses the record at offset 1.\<close>

definition poison_env :: "node processor_env" where
  "poison_env = (node_env demo_store ''ns/'' (\<lambda>_. None) [] (\<lambda>rs. rs = [sink_of (demo_krecord ''t'' 0 1)]))
     \<lparr>peDecode := \<lambda>k i t p w. (demo_dec k i t p, w)\<rparr>"


section \<open>The store without a backend\<close>

text \<open>
  With the store that keeps nothing, the default when no backend is configured, no run of a
  processor ever writes the record at offset 0 of any partition: loading returns the offset 0, and only
  records behind the loaded offset are written.
\<close>

theorem noop_store_drops_first:
  assumes "processor_contract E offs out" "E' = E\<lparr>peStore := \<lambda>_. noopStore\<rparr>"
  shows "\<exists>new. out (prWorld (iceberg_Run E' ownerID evs p)) = out (prWorld p) @ new \<and> (\<forall>r \<in> set new. 0 < skOffset r)"
  using run_after [OF contract_without_store [OF assms(1)] refl, of ownerID evs p] unfolding assms(2) by simp

theorem noop_store_drops_first_witness:
  "list_all (\<lambda>r. 0 < skOffset r) (ndSink (prWorld (iceberg_Run ((node_env demo_store ''ns/'' (\<lambda>_. None) demo_objects (\<lambda>_. False))\<lparr>peStore := \<lambda>_. noopStore\<rparr>)
     ''me'' [EvTick (\<lambda>_. 0)] (new_processor new_node))))"
  using noop_store_drops_first [OF nodp.processor_contract_axioms [of demo_store "''ns/''" "\<lambda>_. None" demo_objects "\<lambda>_. False"] refl,
      of "''me''" "[EvTick (\<lambda>_. 0)]" "new_processor new_node"]
  by (auto simp: new_processor_def new_node_def list_all_iff)

section \<open>Releasing a lost lease\<close>

text \<open>
  A processor that is told it has lost its lease releases it by deleting the key of the
  partition, whoever holds it: while another processor holds the lease, alive in etcd, a third one
  can claim it, so two processors export the same partition.
\<close>

theorem lost_lease_evicts_owner:
  assumes p: "prStatus p = Running" "prHasLease p" "prLeaseLost p = Some e" "prActiveLease p = old"
    and claim: "ClaimLease (mem_etcd s) s now (lnTopic old) (lnPartition old) owner w = (Ok new, prWorld p)"
    and other: "lnLeaseID new \<noteq> lnLeaseID old"
    and E: "peStore E = etcd_checkpoints (mem_etcd s) s"
  shows "\<exists>l w'. ClaimLease (mem_etcd s) s now' (lnTopic old) (lnPartition old) third (prWorld (run_event process E ownerID (EvLeaseLost now') p)) = (Ok l, w') \<and>
    lnLeaseID new \<in> set (ndLive w')"
proof -
  let ?c = "ClaimLease (mem_etcd s) s now (lnTopic old) (lnPartition old) owner w"
  have "fst ?c = Ok new \<Longrightarrow> lnLeaseID new \<in> set (ndLive (snd ?c))"
    by (auto simp: ClaimLease_def mem_etcd_def Let_def split: if_splits)
  then have live: "lnLeaseID new \<in> set (ndLive (prWorld p))" by (simp add: claim)
  let ?w = "prWorld (run_event process E ownerID (EvLeaseLost now') p)"
  have "?w = snd (ReleaseLease (mem_etcd s) s old (prWorld p))"
    using p E by (simp add: run_event_def release_lease_def etcd_checkpoints_def)
  then have w: "map_of (ndLeased ?w) (leaseKey s (lnTopic old) (lnPartition old)) = None" "lnLeaseID new \<in> set (ndLive ?w)"
    using live other by (simp_all add: ReleaseLease_def mem_etcd_def delete_conv')
  then show ?thesis by (simp add: ClaimLease_def mem_etcd_def Let_def is_lease_key_def leaseKey_def HasPrefix_iff)
qed

theorem lost_lease_evicts_owner_witness:
  "\<exists>p e l w'. prHasLease p \<and> prLeaseLost p = Some e \<and>
     ClaimLease (mem_etcd demo_store) demo_store 9 ''t'' 0 ''third''
       (prWorld (run_event (\<lambda>_ _ w. (Ok (), w)) (node_env demo_store ''ns/'' (\<lambda>_. None) [] (\<lambda>_. False)) ''me'' (EvLeaseLost 9) p)) = (Ok l, w') \<and>
     2 \<in> set (ndLive w')"
proof -
  let ?c = "ClaimLease (mem_etcd demo_store) demo_store 5 ''t'' 0 ''other'' (new_node\<lparr>ndNextLease := 2\<rparr>)"
  have c: "?c = (Ok (case fst ?c of Ok l \<Rightarrow> l), snd ?c)" "lnLeaseID (case fst ?c of Ok l \<Rightarrow> l) = 2"
    by (simp_all add: ClaimLease_def mem_etcd_def Let_def is_lease_key_def leaseKey_def HasPrefix_iff new_node_def demo_store_def)
  let ?p = "(holding ''t'' 0 (snd ?c))\<lparr>prLeaseLost := Some (ErrText ''requested lease not found'')\<rparr>"
  let ?old = "\<lparr>lnTopic = ''t'', lnPartition = 0, lnOwnerID = ''me'', lnExpiresAt = 0, lnLeaseID = 1\<rparr>"
  have p: "prStatus ?p = Running" "prHasLease ?p" "prLeaseLost ?p = Some (ErrText ''requested lease not found'')" "prActiveLease ?p = ?old"
    by (simp_all add: holding_def new_processor_def)
  have claim: "ClaimLease (mem_etcd demo_store) demo_store 5 (lnTopic ?old) (lnPartition ?old) ''other'' (new_node\<lparr>ndNextLease := 2\<rparr>) =
      (Ok (case fst ?c of Ok l \<Rightarrow> l), prWorld ?p)" using c(1) by (simp add: holding_def new_processor_def)
  have E: "peStore (node_env demo_store ''ns/'' (\<lambda>_. None) [] (\<lambda>_. False)) = etcd_checkpoints (mem_etcd demo_store) demo_store"
    by (simp add: node_env_def)
  have ne: "lnLeaseID (case fst ?c of Ok l \<Rightarrow> l) \<noteq> lnLeaseID ?old" unfolding c(2) by simp
  from lost_lease_evicts_owner [OF p claim ne E, of 9 "''third''" "\<lambda>_ _ w. (Ok (), w)" "''me''"] p(2,3) c(2)
  show ?thesis by (metis lease.select_convs(1,2))
qed

end
