(* ===== verification/Sql_Query.thy ===== *)
theory Sql_Query
  imports Go_Base
begin

text \<open>
  The query language of the SQL processor
  (\<open>addons/processors/sql-processor/internal/sql/ast.go\<close> and \<open>parser.go\<close>): the parsed query and the
  parser, which looks for its clauses with regular expressions and in the list of the
  blank-separated fields of the statement.

  Query texts are ASCII, so lower case keeps the positions of a text. Each regular expression of the
  source is written out as the function that finds its leftmost match. What \<open>time.Parse\<close> makes of a
  text in one of the three layouts is an argument.
\<close>

section \<open>Queries\<close>

datatype query_type = QueryUnknown | QueryShowTopics | QueryShowPartitions | QueryDescribe | QuerySelect | QueryExplain

datatype select_kind =
  SelectColumnUnknown | SelectColumnStar | SelectColumnField | SelectColumnJSONValue | SelectColumnJSONQuery |
  SelectColumnJSONExists | SelectColumnAggregate

record select_column =
  slRaw :: string
  slAlias :: string
  slKind :: select_kind
  slSource :: string
  slColumn :: string
  slJSONPath :: string
  slAggFunc :: string
  slAggColumn :: string
  slAggJSONPath :: string
  slAggStar :: bool
  slAggSource :: string

definition no_column :: select_column where
  "no_column = \<lparr>slRaw = [], slAlias = [], slKind = SelectColumnUnknown, slSource = [], slColumn = [], slJSONPath = [],
     slAggFunc = [], slAggColumn = [], slAggJSONPath = [], slAggStar = False, slAggSource = []\<rparr>"

definition star_column :: select_column where
  "star_column = no_column\<lparr>slKind := SelectColumnStar, slRaw := ''*''\<rparr>"

datatype join_expr_kind = JoinExprKey | JoinExprJSON

record join_expr =
  jeKind :: join_expr_kind
  jeSource :: string
  jeSide :: string
  jeJSONPath :: string

record join_condition =
  jcLeft :: join_expr
  jcRight :: join_expr

record query =
  qType :: query_type
  qTopic :: string
  qTopicAlias :: string
  qJoinTopic :: string
  qJoinAlias :: string
  qJoinType :: string
  qJoinOn :: "join_condition option"
  qSelect :: "select_column list"
  qGroupBy :: "string list"
  qOrderBy :: string
  qOrderDesc :: bool
  qLimit :: string
  qPartition :: "int option"
  qOffsetMin :: "int option"
  qOffsetMax :: "int option"
  qTsMin :: "int option"
  qTsMax :: "int option"
  qTimeWindow :: string
  qLast :: string
  qTail :: string
  qScanFull :: bool

text \<open>The query behind \<open>Explain\<close> is a select, which has none itself.\<close>

record explain_query = query +
  qExplain :: "query option"

definition no_query :: query where
  "no_query = \<lparr>qType = QueryUnknown, qTopic = [], qTopicAlias = [], qJoinTopic = [], qJoinAlias = [], qJoinType = [],
     qJoinOn = None, qSelect = [], qGroupBy = [], qOrderBy = [], qOrderDesc = False, qLimit = [], qPartition = None,
     qOffsetMin = None, qOffsetMax = None, qTsMin = None, qTsMax = None, qTimeWindow = [], qLast = [], qTail = [],
     qScanFull = False\<rparr>"

section \<open>Text\<close>

fun split_when :: "(char \<Rightarrow> bool) \<Rightarrow> string \<Rightarrow> string list" where
  "split_when p [] = [[]]"
| "split_when p (c # cs) =
     (if p c then [] # split_when p cs
      else (case split_when p cs of [] \<Rightarrow> [[c]] | w # ws \<Rightarrow> (c # w) # ws))"

definition Fields :: "string \<Rightarrow> string list" where
  "Fields s = filter (\<lambda>w. w \<noteq> []) (split_when is_space s)"

text \<open>The classes \<open>\s\<close>, \<open>\d\<close> and the word characters of the regular expressions.\<close>

definition re_space :: "char \<Rightarrow> bool" where
  "re_space c \<longleftrightarrow> (let n = (of_char c :: nat) in n = 32 \<or> n = 9 \<or> n = 10 \<or> n = 12 \<or> n = 13)"

definition re_digit :: "char \<Rightarrow> bool" where
  "re_digit c \<longleftrightarrow> (let n = (of_char c :: nat) in 48 \<le> n \<and> n \<le> 57)"

definition re_word :: "char option \<Rightarrow> bool" where
  "re_word co = (case co of None \<Rightarrow> False | Some c \<Rightarrow>
     let n = (of_char c :: nat) in (48 \<le> n \<and> n \<le> 57) \<or> (65 \<le> n \<and> n \<le> 90) \<or> (97 \<le> n \<and> n \<le> 122) \<or> n = 95)"

definition head_opt :: "string \<Rightarrow> char option" where
  "head_opt s = (case s of [] \<Rightarrow> None | c # _ \<Rightarrow> Some c)"

definition boundary :: "char option \<Rightarrow> char option \<Rightarrow> bool" where
  "boundary a b \<longleftrightarrow> re_word a \<noteq> re_word b"

text \<open>The leftmost position at which a matcher succeeds, given the character before it.\<close>

fun find_match :: "(char option \<Rightarrow> string \<Rightarrow> 'a option) \<Rightarrow> char option \<Rightarrow> string \<Rightarrow> nat \<Rightarrow> (nat \<times> 'a) option" where
  "find_match m prev s i =
     (case m prev s of
        Some x \<Rightarrow> Some (i, x)
      | None \<Rightarrow> (case s of [] \<Rightarrow> None | c # cs \<Rightarrow> find_match m (Some c) cs (Suc i)))"

definition keywordIndex :: "string \<Rightarrow> string \<Rightarrow> nat option" where
  "keywordIndex lower keyword =
     map_option fst (find_match (\<lambda>prev s.
       if boundary prev (head_opt s) \<and> HasPrefix s keyword \<and>
          boundary (Some (last keyword)) (head_opt (drop (length keyword) s)) then Some () else None) None lower 0)"

definition clauseEnd :: "string \<Rightarrow> string list \<Rightarrow> nat" where
  "clauseEnd lower stopKeywords =
     foldl (\<lambda>end keyword. case keywordIndex lower keyword of None \<Rightarrow> end | Some idx \<Rightarrow> if idx < end then idx else end)
       (length lower) stopKeywords"

text \<open>\<open>\b keyword \s+ (\S+)\<close>\<close>

definition parseKeywordValue :: "string \<Rightarrow> string \<Rightarrow> string" where
  "parseKeywordValue lower keyword =
     (case find_match (\<lambda>prev s.
        let rest = drop (length keyword) s; value = takeWhile (\<lambda>c. \<not> re_space c) (dropWhile re_space rest) in
        if boundary prev (head_opt s) \<and> HasPrefix s keyword \<and> takeWhile re_space rest \<noteq> [] \<and> value \<noteq> [] then Some value else None)
        None lower 0 of
        None \<Rightarrow> []
      | Some (_, value) \<Rightarrow> TrimSpace value)"

definition parseLimitToken :: "string \<Rightarrow> string" where
  "parseLimitToken lower =
     (case find_match (\<lambda>prev s.
        let rest = drop 5 s; value = takeWhile re_digit (dropWhile re_space rest) in
        if boundary prev (head_opt s) \<and> HasPrefix s ''limit'' \<and> takeWhile re_space rest \<noteq> [] \<and> value \<noteq> [] then Some value else None)
        None lower 0 of
        None \<Rightarrow> []
      | Some (_, value) \<Rightarrow> value)"

definition hasToken :: "string list \<Rightarrow> string \<Rightarrow> bool" where
  "hasToken toks token \<longleftrightarrow> token \<in> set toks"

definition isKeyword :: "string \<Rightarrow> bool" where
  "isKeyword v \<longleftrightarrow>
     v \<in> {''join'', ''left'', ''where'', ''group'', ''order'', ''limit'', ''last'', ''tail'', ''within'', ''scan''}"

definition splitIdentifiers :: "string \<Rightarrow> string list" where
  "splitIdentifiers raw =
     filter (\<lambda>name. name \<noteq> []) (map (\<lambda>part. TrimSpace (ToLower part)) (split_on CHR '','' raw))"

section \<open>Columns\<close>

text \<open>\<open>splitColumns\<close>: commas outside parentheses; a text that ends with such a comma has no last part.\<close>

fun split_columns :: "nat \<Rightarrow> string \<Rightarrow> string \<Rightarrow> string list" where
  "split_columns depth acc [] = (if acc = [] then [] else [rev acc])"
| "split_columns depth acc (c # cs) =
     (if c = CHR ''('' then split_columns (Suc depth) (c # acc) cs
      else if c = CHR '')'' then split_columns (depth - 1) (c # acc) cs
      else if c = CHR '','' \<and> depth = 0 then rev acc # split_columns depth [] cs
      else split_columns depth (c # acc) cs)"

definition splitColumns :: "string \<Rightarrow> string list" where
  "splitColumns raw = split_columns 0 [] raw"

definition parseColumnRef :: "string \<Rightarrow> string \<times> string" where
  "parseColumnRef expr =
     (let expr = TrimSpace expr in
      if expr = [] then ([], [])
      else (case split_on CHR ''.'' expr of [a, b] \<Rightarrow> (TrimSpace a, TrimSpace b) | _ \<Rightarrow> ([], expr)))"

definition ident_char :: "char \<Rightarrow> bool" where
  "ident_char c \<longleftrightarrow> re_word (Some c) \<or> c = CHR ''.''"

definition quote :: char where "quote = CHR 0x27"

text \<open>\<open>^name\s*\(\s*([a-zA-Z0-9_\.]+)\s*,\s*'([^']+)'\s*\)$\<close>: the source and the path.\<close>

definition json_call :: "string \<Rightarrow> string \<Rightarrow> (string \<times> string) option" where
  "json_call expr name =
     (let t = TrimSpace expr; r1 = dropWhile re_space (drop (length name) t) in
      if \<not> (HasPrefix (ToLower t) name \<and> head_opt r1 = Some (CHR ''('')) then None
      else
        let r2 = dropWhile re_space (tl r1); ident = takeWhile ident_char r2;
            r3 = dropWhile re_space (dropWhile ident_char r2) in
        if \<not> (ident \<noteq> [] \<and> head_opt r3 = Some (CHR '','')) then None
        else
          let r4 = dropWhile re_space (tl r3) in
          if head_opt r4 \<noteq> Some quote then None
          else
            let path = takeWhile (\<lambda>c. c \<noteq> quote) (tl r4); r5 = dropWhile (\<lambda>c. c \<noteq> quote) (tl r4) in
            if path \<noteq> [] \<and> r5 \<noteq> [] \<and> dropWhile re_space (tl r5) = '')'' then Some (ident, path) else None)"

definition parseJSONFunc :: "string \<Rightarrow> string \<Rightarrow> (string \<times> string) option" where
  "parseJSONFunc expr name =
     (case json_call expr name of
        None \<Rightarrow> None
      | Some (ident, path) \<Rightarrow>
          (case parseColumnRef (ToLower ident) of
             (source, column) \<Rightarrow> if column \<noteq> ''_value'' then None else Some (source, path)))"

definition parseJSONValue :: "string \<Rightarrow> (string \<times> string) option" where
  "parseJSONValue expr = parseJSONFunc expr ''json_value''"

definition parseJSONQuery :: "string \<Rightarrow> (string \<times> string) option" where
  "parseJSONQuery expr = parseJSONFunc expr ''json_query''"

definition parseJSONExists :: "string \<Rightarrow> (string \<times> string) option" where
  "parseJSONExists expr = parseJSONFunc expr ''json_exists''"

record aggregate_spec =
  agFunc :: string
  agStar :: bool
  agColumn :: string
  agJSONPath :: string
  agSource :: string
  agName :: string

text \<open>\<open>^(count|min|max|sum|avg)\s*\((.*)\)$\<close>: the function in lower case and its argument.\<close>

definition agg_call :: "string \<Rightarrow> (string \<times> string) option" where
  "agg_call expr =
     (let t = TrimSpace expr in
      case filter (HasPrefix (ToLower t)) [''count'', ''min'', ''max'', ''sum'', ''avg''] of
        [] \<Rightarrow> None
      | fn # _ \<Rightarrow>
          let r = dropWhile re_space (drop (length fn) t) in
          if head_opt r = Some (CHR ''('') \<and> 2 \<le> length r \<and> last r = CHR '')'' \<and> CHR 0x0A \<notin> set (butlast (tl r))
          then Some (fn, butlast (tl r)) else None)"

definition parseAggregate :: "string \<Rightarrow> aggregate_spec option" where
  "parseAggregate expr =
     (case agg_call expr of
        None \<Rightarrow> None
      | Some (fn, arg) \<Rightarrow>
          let arg = TrimSpace arg; spec = \<lparr>agFunc = fn, agStar = False, agColumn = [], agJSONPath = [], agSource = [], agName = fn\<rparr> in
          if arg = ''*'' then Some (spec\<lparr>agStar := True, agName := fn\<rparr>)
          else
            (case parseJSONValue arg of
               Some (source, path) \<Rightarrow> Some (spec\<lparr>agJSONPath := path, agSource := source, agName := fn @ ''_json''\<rparr>)
             | None \<Rightarrow>
                 (case parseColumnRef (ToLower arg) of
                    (source, column) \<Rightarrow> Some (spec\<lparr>agColumn := column, agSource := source, agName := fn @ ''_'' @ column\<rparr>))))"

lemma split_as_shorter: "length (dropWhile p (drop n (dropWhile q s))) < Suc (length s)"
  using length_dropWhile_le [of p "drop n (dropWhile q s)"] length_dropWhile_le [of q s] by simp

text \<open>The texts between the matches of \<open>\s+as\s+\<close>.\<close>

function split_as :: "string \<Rightarrow> string list" where
  "split_as s =
     (case s of
        [] \<Rightarrow> [[]]
      | c # cs \<Rightarrow>
          let rest = dropWhile re_space s; after = drop 2 rest in
          if re_space c \<and> HasPrefix (ToLower rest) ''as'' \<and> takeWhile re_space after \<noteq> [] then [] # split_as (dropWhile re_space after)
          else (case split_as cs of [] \<Rightarrow> [[c]] | w # ws \<Rightarrow> (c # w) # ws))"
  by pat_completeness auto

termination
proof (relation "measure length")
  fix s :: string and c cs rest after
  assume a: "s = c # cs" "rest = dropWhile re_space s" "after = drop 2 rest"
    "re_space c \<and> HasPrefix (ToLower rest) ''as'' \<and> takeWhile re_space after \<noteq> []"
  have "rest = dropWhile re_space cs" using a by simp
  then show "(dropWhile re_space after, s) \<in> measure length"
    using a split_as_shorter [of re_space 2 re_space cs] by simp
qed auto

definition splitAlias :: "string \<Rightarrow> string \<times> string" where
  "splitAlias raw =
     (case split_as raw of
        [a, b] \<Rightarrow> (TrimSpace a, TrimSpace b)
      | _ \<Rightarrow>
          let toks = Fields raw in
          if length toks > 1 then
            let expr = join_with CHR '' '' (butlast toks) in
            if CHR ''('' \<in> set expr \<and> CHR '')'' \<in> set expr then (expr, last toks) else (raw, [])
          else (raw, []))"

definition with_alias :: "string \<Rightarrow> select_column \<Rightarrow> select_column" where
  "with_alias name out = (if slAlias out = [] then out\<lparr>slAlias := name\<rparr> else out)"

definition parseSelectColumn :: "string \<Rightarrow> select_column" where
  "parseSelectColumn raw =
     (case splitAlias raw of (expr, alias) \<Rightarrow>
      let exprLower = ToLower (TrimSpace expr); out = no_column\<lparr>slRaw := raw, slAlias := alias\<rparr> in
      if exprLower = ''*'' then out\<lparr>slKind := SelectColumnStar\<rparr>
      else
        (case parseAggregate expr of
           Some agg \<Rightarrow>
             with_alias (agName agg) (out\<lparr>slKind := SelectColumnAggregate, slAggFunc := agFunc agg, slAggStar := agStar agg,
               slAggColumn := agColumn agg, slAggJSONPath := agJSONPath agg, slAggSource := agSource agg\<rparr>)
         | None \<Rightarrow>
             (case parseJSONValue expr of
                Some (source, path) \<Rightarrow> with_alias ''json_value'' (out\<lparr>slKind := SelectColumnJSONValue, slJSONPath := path, slSource := source\<rparr>)
              | None \<Rightarrow>
                  (case parseJSONQuery expr of
                     Some (source, path) \<Rightarrow> with_alias ''json_query'' (out\<lparr>slKind := SelectColumnJSONQuery, slJSONPath := path, slSource := source\<rparr>)
                   | None \<Rightarrow>
                       (case parseJSONExists expr of
                          Some (source, path) \<Rightarrow> with_alias ''json_exists'' (out\<lparr>slKind := SelectColumnJSONExists, slJSONPath := path, slSource := source\<rparr>)
                        | None \<Rightarrow>
                            (case parseColumnRef exprLower of
                               (source, column) \<Rightarrow> with_alias column (out\<lparr>slKind := SelectColumnField, slSource := source, slColumn := column\<rparr>)))))))"

definition parseSelectColumns :: "string \<Rightarrow> string \<Rightarrow> select_column list outcome" where
  "parseSelectColumns raw lower =
     (case (keywordIndex lower ''select'', keywordIndex lower ''from'') of
        (Some selectIdx, Some fromIdx) \<Rightarrow>
          if fromIdx \<le> selectIdx then Err (ErrText ''select requires from <topic>'')
          else
            let rawCols = TrimSpace (take (fromIdx - (selectIdx + 6)) (drop (selectIdx + 6) raw)) in
            if rawCols = [] then Ok [star_column]
            else
              let cols = map parseSelectColumn (filter (\<lambda>part. part \<noteq> []) (map TrimSpace (splitColumns rawCols))) in
              Ok (if cols = [] then [star_column] else cols)
      | _ \<Rightarrow> Err (ErrText ''select requires from <topic>''))"

section \<open>Clauses\<close>

fun parseFromClause :: "string list \<Rightarrow> (string \<times> string) outcome" where
  "parseFromClause (field # topic # rest) =
     (if field = ''from'' then
        Ok (topic, case rest of [] \<Rightarrow> [] | alias # _ \<Rightarrow> if isKeyword alias then [] else alias)
      else parseFromClause (topic # rest))"
| "parseFromClause _ = Err (ErrText ''select requires from <topic>'')"

definition alias_after :: "string list \<Rightarrow> string" where
  "alias_after rest = (case rest of [] \<Rightarrow> [] | alias # _ \<Rightarrow> if isKeyword alias then [] else alias)"

fun parseJoin :: "string list \<Rightarrow> string \<times> string \<times> string" where
  "parseJoin [] = ([], [], [])"
| "parseJoin (field # fs) =
     (case fs of
        t # rest \<Rightarrow>
          if field = ''join'' then (''inner'', t, alias_after rest)
          else
            (case rest of
               u # rest' \<Rightarrow> if field = ''left'' \<and> t = ''join'' then (''left'', u, alias_after rest') else parseJoin fs
             | [] \<Rightarrow> parseJoin fs)
      | [] \<Rightarrow> parseJoin fs)"

fun filter_loop :: "string list \<Rightarrow> int option \<Rightarrow> int option \<Rightarrow> int option \<Rightarrow> (int option \<times> int option \<times> int option) outcome" where
  "filter_loop [] p lo hi = Ok (p, lo, hi)"
| "filter_loop (field # fs) p lo hi =
     (if field \<in> {''limit'', ''last'', ''tail'', ''within'', ''scan''} then Ok (p, lo, hi)
      else if field = ''and'' then filter_loop fs p lo hi
      else if field = ''_partition'' then
        (case fs of
           op # v # rest \<Rightarrow>
             if op \<noteq> ''='' then Err (ErrText ''unsupported partition filter'')
             else (case ParseInt 32 v of None \<Rightarrow> Err (ErrText ''invalid partition value'') | Some n \<Rightarrow> filter_loop rest (Some n) lo hi)
         | _ \<Rightarrow> Err (ErrText ''unsupported partition filter''))
      else if field = ''_offset'' then
        (case fs of
           op # v # rest \<Rightarrow>
             (case ParseInt 64 v of
                None \<Rightarrow> Err (ErrText ''invalid offset value'')
              | Some n \<Rightarrow>
                  if op = ''>='' then filter_loop rest p (Some n) hi
                  else if op = ''<='' then filter_loop rest p lo (Some n)
                  else Err (ErrText ''unsupported offset operator''))
         | _ \<Rightarrow> Err (ErrText ''unsupported offset filter''))
      else Err (ErrText ''unsupported where clause''))"

definition parseFilters :: "string list \<Rightarrow> (int option \<times> int option \<times> int option) outcome" where
  "parseFilters toks =
     (case dropWhile (\<lambda>f. f \<noteq> ''where'') toks of
        [] \<Rightarrow> Ok (None, None, None)
      | _ # rest \<Rightarrow> filter_loop rest None None None)"

definition parseGroupBy :: "string \<Rightarrow> string \<Rightarrow> string list" where
  "parseGroupBy raw lower =
     (case keywordIndex lower ''group by'' of
        None \<Rightarrow> []
      | Some groupIdx \<Rightarrow>
          let rest = drop (groupIdx + 8) raw; restLower = drop (groupIdx + 8) lower;
              end = clauseEnd restLower [''order by'', ''limit'', ''last'', ''tail'', ''within'', ''scan''] in
          splitIdentifiers (TrimSpace (take end rest)))"

definition parseOrderBy :: "string \<Rightarrow> string \<Rightarrow> string" where
  "parseOrderBy raw lower =
     (case keywordIndex lower ''order by'' of
        None \<Rightarrow> []
      | Some orderIdx \<Rightarrow>
          let rest = drop (orderIdx + 8) raw; restLower = drop (orderIdx + 8) lower;
              end = clauseEnd restLower [''limit'', ''last'', ''tail'', ''within'', ''scan'', ''group by''];
              toks = Fields (ToLower (TrimSpace (take end rest))) in
          case toks of [] \<Rightarrow> [] | f # _ \<Rightarrow> f)"

definition parseOrderDesc :: "string \<Rightarrow> string \<Rightarrow> bool" where
  "parseOrderDesc raw lower =
     (case keywordIndex lower ''order by'' of
        None \<Rightarrow> False
      | Some orderIdx \<Rightarrow>
          let restLower = ToLower (drop (orderIdx + 8) raw);
              end = clauseEnd restLower [''limit'', ''last'', ''tail'', ''within'', ''scan'', ''group by''] in
          case Fields (take end restLower) of _ # d # _ \<Rightarrow> d = ''desc'' | _ \<Rightarrow> False)"

section \<open>Time filters\<close>

definition parseTimestampLiteral :: "(string \<Rightarrow> int option) \<Rightarrow> string \<Rightarrow> int outcome" where
  "parseTimestampLiteral parseTime v =
     (let v = TrimSpace v in
      if v = [] then Err (ErrText ''empty timestamp'')
      else (case ParseInt 64 v of
              Some n \<Rightarrow> Ok n
            | None \<Rightarrow> (case parseTime v of Some ms \<Rightarrow> Ok ms | None \<Rightarrow> Err (ErrText ''invalid timestamp''))))"

text \<open>A blank run and a word, in any case.\<close>

definition skip_word :: "string \<Rightarrow> string \<Rightarrow> string option" where
  "skip_word word s =
     (if takeWhile re_space s \<noteq> [] \<and> HasPrefix (ToLower (dropWhile re_space s)) word
      then Some (drop (length word) (dropWhile re_space s)) else None)"

text \<open>A blank run and a quoted text.\<close>

definition skip_quoted :: "string \<Rightarrow> (string \<times> string) option" where
  "skip_quoted s =
     (let r = dropWhile re_space s; v = takeWhile (\<lambda>c. c \<noteq> quote) (tl r); r' = dropWhile (\<lambda>c. c \<noteq> quote) (tl r) in
      if takeWhile re_space s \<noteq> [] \<and> head_opt r = Some quote \<and> v \<noteq> [] \<and> r' \<noteq> [] then Some (v, tl r') else None)"

text \<open>\<open>_ts\s+between\s+'([^']+)'\s+and\s+'([^']+)'\<close>\<close>

definition match_between :: "string \<Rightarrow> (string \<times> string) option" where
  "match_between s =
     (if \<not> HasPrefix (ToLower s) ''_ts'' then None
      else (case skip_word ''between'' (drop 3 s) of
              None \<Rightarrow> None
            | Some r1 \<Rightarrow> (case skip_quoted r1 of
                None \<Rightarrow> None
              | Some (a, r2) \<Rightarrow> (case skip_word ''and'' r2 of
                  None \<Rightarrow> None
                | Some r3 \<Rightarrow> (case skip_quoted r3 of None \<Rightarrow> None | Some (b, _) \<Rightarrow> Some (a, b))))))"

text \<open>\<open>_ts\s*op\s*('?[^'\s]+'?|\d+)\<close>, with the quotes already trimmed off the match.\<close>

definition match_bound :: "string \<Rightarrow> string \<Rightarrow> string option" where
  "match_bound op s =
     (let r1 = dropWhile re_space (drop 3 s) in
      if \<not> (HasPrefix (ToLower s) ''_ts'' \<and> HasPrefix r1 op) then None
      else
        let r2 = dropWhile re_space (drop (length op) r1); r3 = (if head_opt r2 = Some quote then tl r2 else r2);
            v = takeWhile (\<lambda>c. c \<noteq> quote \<and> \<not> re_space c) r3 in
        if v = [] then None else Some v)"

definition parseTSFilters :: "(string \<Rightarrow> int option) \<Rightarrow> string \<Rightarrow> (int option \<times> int option) outcome" where
  "parseTSFilters parseTime raw =
     (case find_match (\<lambda>_. match_between) None raw 0 of
        Some (_, a, b) \<Rightarrow>
          bindO (parseTimestampLiteral parseTime a) (\<lambda>lo.
          bindO (parseTimestampLiteral parseTime b) (\<lambda>hi. Ok (Some lo, Some hi)))
      | None \<Rightarrow>
          bindO (case find_match (\<lambda>_. match_bound ''>='') None raw 0 of
                   None \<Rightarrow> Ok None
                 | Some (_, v) \<Rightarrow> bindO (parseTimestampLiteral parseTime v) (\<lambda>n. Ok (Some n))) (\<lambda>lo.
          bindO (case find_match (\<lambda>_. match_bound ''<='') None raw 0 of
                   None \<Rightarrow> Ok None
                 | Some (_, v) \<Rightarrow> bindO (parseTimestampLiteral parseTime v) (\<lambda>n. Ok (Some n))) (\<lambda>hi.
          Ok (lo, hi))))"

section \<open>Joins\<close>

definition resolveJoinSide :: "string \<Rightarrow> string \<Rightarrow> string \<Rightarrow> string \<Rightarrow> string \<Rightarrow> string" where
  "resolveJoinSide source topic alias joinTopic joinAlias =
     (if source = [] \<or> source = alias \<or> source = topic then ''left''
      else if source = joinAlias \<or> source = joinTopic then ''right''
      else ''left'')"

definition parseJoinExpr :: "string \<Rightarrow> string \<Rightarrow> string \<Rightarrow> string \<Rightarrow> string \<Rightarrow> join_expr outcome" where
  "parseJoinExpr raw topic alias joinTopic joinAlias =
     (case parseJSONValue raw of
        Some (source, path) \<Rightarrow>
          Ok \<lparr>jeKind = JoinExprJSON, jeSource = source, jeSide = resolveJoinSide source topic alias joinTopic joinAlias, jeJSONPath = path\<rparr>
      | None \<Rightarrow>
          (case parseColumnRef (ToLower raw) of
             (source, column) \<Rightarrow>
               if column \<noteq> ''_key'' then Err (ErrText ''join supports _key or json_value only'')
               else Ok \<lparr>jeKind = JoinExprKey, jeSource = source, jeSide = resolveJoinSide source topic alias joinTopic joinAlias, jeJSONPath = []\<rparr>))"

definition key_expr :: "string \<Rightarrow> join_expr" where
  "key_expr side = \<lparr>jeKind = JoinExprKey, jeSource = [], jeSide = side, jeJSONPath = []\<rparr>"

definition parseJoinCondition :: "string \<Rightarrow> string \<Rightarrow> string \<Rightarrow> string \<Rightarrow> string \<Rightarrow> string \<Rightarrow> join_condition option outcome" where
  "parseJoinCondition raw lower topic alias joinTopic joinAlias =
     (case keywordIndex lower ''join'' of
        None \<Rightarrow> Ok None
      | Some joinIdx \<Rightarrow>
          (case keywordIndex (drop joinIdx lower) ''on'' of
             None \<Rightarrow> Ok (Some \<lparr>jcLeft = key_expr ''left'', jcRight = key_expr ''right''\<rparr>)
           | Some on \<Rightarrow>
               let onIdx = on + joinIdx; rest = drop (onIdx + 2) raw; restLower = drop (onIdx + 2) lower;
                   end = clauseEnd restLower [''within'', ''last'', ''tail'', ''limit'', ''where'', ''group by'', ''order by'', ''scan''] in
               (case split_on CHR ''='' (TrimSpace (take end rest)) of
                  [a, b] \<Rightarrow>
                    bindO (parseJoinExpr (TrimSpace a) topic alias joinTopic joinAlias) (\<lambda>left.
                    bindO (parseJoinExpr (TrimSpace b) topic alias joinTopic joinAlias) (\<lambda>right.
                    Ok (Some \<lparr>jcLeft = left, jcRight = right\<rparr>)))
                | _ \<Rightarrow> Err (ErrText ''join requires equality predicate''))))"

section \<open>Statements\<close>

definition parseSelect :: "(string \<Rightarrow> int option) \<Rightarrow> string \<Rightarrow> string \<Rightarrow> string list \<Rightarrow> query outcome" where
  "parseSelect parseTime raw lower toks =
     bindO (parseSelectColumns raw lower) (\<lambda>selectCols.
     bindO (parseFromClause toks) (\<lambda>(topic, topicAlias).
     case parseJoin toks of (joinType, joinTopic, joinAlias) \<Rightarrow>
     if joinType \<noteq> [] \<and> joinTopic = [] then Err (ErrText ''join requires topic'')
     else
       bindO (if joinTopic \<noteq> [] then parseJoinCondition raw lower topic topicAlias joinTopic joinAlias else Ok None) (\<lambda>joinOn.
       bindO (parseFilters toks) (\<lambda>(part, offsetMin, offsetMax).
       bindO (parseTSFilters parseTime raw) (\<lambda>(tsMin, tsMax).
       Ok \<lparr>qType = QuerySelect, qTopic = topic, qTopicAlias = topicAlias, qJoinTopic = joinTopic, qJoinAlias = joinAlias,
           qJoinType = joinType, qJoinOn = joinOn, qSelect = selectCols, qGroupBy = parseGroupBy raw lower,
           qOrderBy = parseOrderBy raw lower, qOrderDesc = parseOrderDesc raw lower, qLimit = parseLimitToken lower,
           qPartition = part, qOffsetMin = offsetMin, qOffsetMax = offsetMax, qTsMin = tsMin, qTsMax = tsMax,
           qTimeWindow = parseKeywordValue lower ''within'', qLast = parseKeywordValue lower ''last'',
           qTail = parseKeywordValue lower ''tail'', qScanFull = hasToken toks ''scan'' \<and> hasToken toks ''full''\<rparr>)))))"

definition parseShow :: "string list \<Rightarrow> query outcome" where
  "parseShow toks =
     (case toks of
        _ # f1 # rest \<Rightarrow>
          if f1 = ''topics'' then Ok (no_query\<lparr>qType := QueryShowTopics\<rparr>)
          else (case rest of
                  f2 # f3 # _ \<Rightarrow>
                    if f1 = ''partitions'' \<and> f2 = ''from'' then Ok (no_query\<lparr>qType := QueryShowPartitions, qTopic := f3\<rparr>)
                    else Err (ErrText ''unsupported show statement'')
                | _ \<Rightarrow> Err (ErrText ''unsupported show statement''))
      | _ \<Rightarrow> Err (ErrText ''unsupported show statement''))"

definition parseDescribe :: "string list \<Rightarrow> query outcome" where
  "parseDescribe toks =
     (case toks of
        _ # f1 # _ \<Rightarrow> Ok (no_query\<lparr>qType := QueryDescribe, qTopic := f1\<rparr>)
      | _ \<Rightarrow> Err (ErrText ''describe requires topic''))"

abbreviation plain_query :: "query \<Rightarrow> explain_query" where
  "plain_query q \<equiv> query.extend q \<lparr>qExplain = None\<rparr>"

text \<open>\<open>Parse\<close> and \<open>parseExplain\<close>, which calls it with the rest of the statement.\<close>

lemma length_TrimSpace: "length (TrimSpace s) \<le> length s"
  using length_dropWhile_le [of is_space "rev (dropWhile is_space s)"] length_dropWhile_le [of is_space s]
  by (simp add: TrimSpace_def)

lemma length_TrimSuffix: "length (TrimSuffix s x) \<le> length s"
  by (simp add: TrimSuffix_def)

function Parse :: "(string \<Rightarrow> int option) \<Rightarrow> string \<Rightarrow> explain_query outcome" where
  "Parse parseTime q =
     (let trimmed = TrimSpace q in
      if trimmed = [] then Err (ErrText ''empty query'')
      else
        let trimmed = TrimSuffix trimmed '';''; lower = ToLower trimmed in
        case Fields lower of
          [] \<Rightarrow> Err (ErrText ''empty query'')
        | f # fs \<Rightarrow>
            if f = ''show'' then bindO (parseShow (f # fs)) (\<lambda>p. Ok (plain_query p))
            else if f = ''describe'' then bindO (parseDescribe (f # fs)) (\<lambda>p. Ok (plain_query p))
            else if f = ''select'' then bindO (parseSelect parseTime trimmed lower (f # fs)) (\<lambda>p. Ok (plain_query p))
            else if f = ''explain'' then
              let trimmed = TrimSpace trimmed in
              if \<not> HasPrefix (ToLower trimmed) ''explain'' then Err (ErrText ''invalid explain'')
              else
                let inner = TrimSpace (drop 7 trimmed) in
                if inner = [] then Err (ErrText ''explain requires query'')
                else
                  bindO (Parse parseTime inner) (\<lambda>parsed.
                    if qType parsed \<noteq> QuerySelect then Err (ErrText ''explain supports select only'')
                    else Ok (query.extend (no_query\<lparr>qType := QueryExplain\<rparr>) \<lparr>qExplain = Some (query.truncate parsed)\<rparr>))
            else Err (ErrText ''unsupported statement''))"
  by pat_completeness auto
termination
proof (relation "measure (\<lambda>(_, q). length q)", goal_cases)
  case (2 parseTime q t1 t2 lower f fs t3 inner)
  have "length inner < length t3 \<or> length inner = 0"
    using 2(12) length_TrimSpace [of "drop 7 t3"] by (cases t3) auto
  moreover have "inner \<noteq> []" using 2 by blast
  moreover have "length t3 \<le> length q"
    using 2(1,3,10) length_TrimSpace [of q] length_TrimSpace [of t2] length_TrimSuffix [of t1 "'';''"] by simp
  ultimately show ?case by simp
qed simp

end
