(* ===== verification/Sql_Values.thy ===== *)
theory Sql_Values
  imports Sql_Query Segment_Discovery
begin

text \<open>
  How the SQL processor turns records into the values of a row
  (\<open>addons/processors/sql-processor/internal/server/server.go\<close>): implicit columns, columns of the
  configured schema, JSON paths, and the values that aggregates are computed from.

  What the source uses of \<open>encoding/json\<close>, of the arithmetic and the printing of \<open>float64\<close>, of \<open>time.Parse\<close> and
  \<open>time.ParseDuration\<close> and of \<open>sort.Slice\<close> is the argument \<open>sql_lib\<close>; a \<open>float64\<close> is a value of a type
  parameter. A text in a row is a string of bytes, \<open>None\<close> is the SQL null.
\<close>

section \<open>The standard library\<close>

datatype 'f json = JNull | JBool bool | JNumber 'f | JString string | JArray "'f json list" | JObject "(string \<times> 'f json) list"

type_synonym row_values = "string option list"

record row_result =
  rrValues :: row_values
  rrTs :: int

record 'f sql_lib =
  lbUnmarshal :: "bytes \<Rightarrow> 'f json option"
  lbMarshal :: "'f json \<Rightarrow> string option"
  lbSprint :: "'f json \<Rightarrow> string"
  lbFormatFloat :: "'f \<Rightarrow> string"
  lbParseFloat :: "string \<Rightarrow> 'f option"
  lbZero :: 'f
  lbOfInt :: "int \<Rightarrow> 'f"
  lbToInt :: "'f \<Rightarrow> int"
  lbAdd :: "'f \<Rightarrow> 'f \<Rightarrow> 'f"
  lbDiv :: "'f \<Rightarrow> 'f \<Rightarrow> 'f"
  lbLess :: "'f \<Rightarrow> 'f \<Rightarrow> bool"
  lbParseTime :: "string \<Rightarrow> int option"
  lbParseDuration :: "string \<Rightarrow> int option"
  lbSort :: "(row_result \<Rightarrow> row_result \<Rightarrow> bool) \<Rightarrow> row_result list \<Rightarrow> row_result list"

section \<open>Configuration\<close>

record schema_column =
  smName :: string
  smType :: string
  smPath :: string

record sql_topic_config =
  tpName :: string
  tpPartitions :: "int list"
  tpColumns :: "schema_column list"

record sql_config =
  scDefaultLimit :: int
  scRequireTimeBound :: bool
  scMaxUnbounded :: int
  scMaxScanBytes :: int
  scMaxScanSegments :: int
  scMaxRows :: int
  scCacheMaxRows :: int
  scTopics :: "sql_topic_config list"

definition schemaColumnsForTopic :: "sql_config \<Rightarrow> string \<Rightarrow> schema_column list" where
  "schemaColumnsForTopic cfg topic =
     (if topic = [] then []
      else (case filter (\<lambda>t. tpName t = topic) (scTopics cfg) of [] \<Rightarrow> [] | entry # _ \<Rightarrow> tpColumns entry))"

definition schemaColumnMapForTopic :: "sql_config \<Rightarrow> string \<Rightarrow> (string \<times> schema_column) list" where
  "schemaColumnMapForTopic cfg topic =
     foldl (\<lambda>out col. AList.update (ToLower (smName col)) col out) [] (schemaColumnsForTopic cfg topic)"

section \<open>Columns\<close>

datatype column_kind = columnImplicit | columnSchema | columnJSONValue | columnJSONQuery | columnJSONExists

record resolved_column =
  clName :: string
  clKind :: column_kind
  clSource :: string
  clColumn :: string
  clJSONPath :: string
  clSchema :: schema_column

definition no_schema :: schema_column where
  "no_schema = \<lparr>smName = [], smType = [], smPath = []\<rparr>"

definition implicit_column :: "string \<Rightarrow> resolved_column" where
  "implicit_column name = \<lparr>clName = name, clKind = columnImplicit, clSource = [], clColumn = name, clJSONPath = [], clSchema = no_schema\<rparr>"

definition implicit_names :: "string list" where
  "implicit_names = [''_topic'', ''_partition'', ''_offset'', ''_ts'', ''_key'', ''_value'', ''_headers'', ''_segment'']"

definition json_column :: "column_kind \<Rightarrow> string \<Rightarrow> string \<Rightarrow> resolved_column" where
  "json_column kind name path = \<lparr>clName = name, clKind = kind, clSource = [], clColumn = [], clJSONPath = path, clSchema = no_schema\<rparr>"

definition resolveColumnByName :: "string \<Rightarrow> (string \<times> schema_column) list \<Rightarrow> resolved_column outcome" where
  "resolveColumnByName name schemaMap =
     (if name \<in> set implicit_names then Ok (implicit_column name)
      else (case map_of schemaMap name of
              Some schema \<Rightarrow> Ok ((implicit_column name)\<lparr>clKind := columnSchema, clSchema := schema\<rparr>)
            | None \<Rightarrow> Err (ErrText ''unknown column'')))"

definition alias_or :: "string \<Rightarrow> select_column \<Rightarrow> string" where
  "alias_or name col = (if slAlias col = [] then name else slAlias col)"

definition resolve_one :: "(string \<times> schema_column) list \<Rightarrow> select_column \<Rightarrow> resolved_column outcome" where
  "resolve_one schemaMap col =
     (case slKind col of
        SelectColumnStar \<Rightarrow> Err (ErrText ''select * cannot be combined with other columns'')
      | SelectColumnJSONValue \<Rightarrow> Ok (json_column columnJSONValue (alias_or ''json_value'' col) (slJSONPath col))
      | SelectColumnJSONQuery \<Rightarrow> Ok (json_column columnJSONQuery (alias_or ''json_query'' col) (slJSONPath col))
      | SelectColumnJSONExists \<Rightarrow> Ok (json_column columnJSONExists (alias_or ''json_exists'' col) (slJSONPath col))
      | SelectColumnField \<Rightarrow>
          bindO (resolveColumnByName (slColumn col) schemaMap) (\<lambda>resolved.
            Ok (if slAlias col \<noteq> [] then resolved\<lparr>clName := slAlias col\<rparr> else resolved))
      | _ \<Rightarrow> Err (ErrText ''unsupported select column''))"

fun mapO :: "('a \<Rightarrow> 'b outcome) \<Rightarrow> 'a list \<Rightarrow> 'b list outcome" where
  "mapO f [] = Ok []"
| "mapO f (x # xs) = bindO (f x) (\<lambda>y. bindO (mapO f xs) (\<lambda>ys. Ok (y # ys)))"

definition resolveSelectColumns :: "sql_config \<Rightarrow> string \<Rightarrow> select_column list \<Rightarrow> resolved_column list outcome" where
  "resolveSelectColumns cfg topic cols =
     (let cols = (if cols = [] then [star_column] else cols) in
      if \<exists>col \<in> set cols. slKind col = SelectColumnAggregate then Err (ErrText ''aggregate columns require group by'')
      else if length cols = 1 \<and> slKind (hd cols) = SelectColumnStar then
        Ok (map implicit_column implicit_names @
            map (\<lambda>col. (implicit_column (ToLower (smName col)))\<lparr>clKind := columnSchema, clSchema := col\<rparr>) (schemaColumnsForTopic cfg topic))
      else mapO (resolve_one (schemaColumnMapForTopic cfg topic)) cols)"

definition schemaTypeOID :: "string \<Rightarrow> int" where
  "schemaTypeOID schemaType =
     (let t = ToLower schemaType in
      if t = ''int'' then 23 else if t = ''long'' then 20 else if t = ''double'' then 701
      else if t = ''boolean'' then 16 else if t = ''timestamp'' then 1114 else 25)"

definition columnTypeOID :: "resolved_column \<Rightarrow> int" where
  "columnTypeOID col =
     (case clKind col of
        columnSchema \<Rightarrow> schemaTypeOID (smType (clSchema col))
      | columnJSONValue \<Rightarrow> 25
      | columnJSONQuery \<Rightarrow> 114
      | columnJSONExists \<Rightarrow> 16
      | columnImplicit \<Rightarrow>
          let c = clColumn col in
          if c = ''_partition'' then 23 else if c = ''_offset'' then 20 else if c = ''_ts'' then 1114
          else if c = ''_key'' \<or> c = ''_value'' then 17 else 25)"

section \<open>Texts\<close>

text \<open>\<open>itoa\<close>: the digits of the negated number are those of a number that did not change sign when the negation wraps.\<close>

definition itoa :: "int \<Rightarrow> string" where
  "itoa v =
     (if v = 0 then ''0''
      else let n = (if v < 0 then i64 (- v) else v) in (if v < 0 then ''-'' else []) @ (if n > 0 then dec_nat (nat n) else []))"

definition hex_char :: "nat \<Rightarrow> char" where
  "hex_char n = (if n < 10 then char_of (48 + n) else char_of (87 + n))"

definition encodeBytea :: "bytes option \<Rightarrow> string option" where
  "encodeBytea data =
     map_option (\<lambda>bs. CHR 0x5C # CHR ''x'' # concat (map (\<lambda>b. [hex_char (unat b div 16), hex_char (unat b mod 16)]) bs)) data"

definition escapeJSON :: "string \<Rightarrow> string" where
  "escapeJSON v = concat (map (\<lambda>c. if c = CHR 0x5C \<or> c = CHR 0x22 then [CHR 0x5C, c] else [c]) v)"

text \<open>\<open>string(b)\<close> of a slice that may be nil.\<close>

definition text_of :: "bytes option \<Rightarrow> string" where
  "text_of b = (case b of None \<Rightarrow> [] | Some bs \<Rightarrow> string_of_bytes bs)"

definition header_pair :: "kheader \<Rightarrow> string" where
  "header_pair h =
     [CHR 0x22] @ escapeJSON (hdKey h) @ [CHR 0x22, CHR '':'', CHR 0x22] @ escapeJSON (text_of (hdValue h)) @ [CHR 0x22]"

definition headersToJSON :: "kheader list \<Rightarrow> string" where
  "headersToJSON headers = [CHR 0x7B] @ join_with CHR '','' (map header_pair headers) @ [CHR 0x7D]"

text \<open>\<open>time.UnixMilli(ms).UTC().Format("2006-01-02 15:04:05.000")\<close>, by the calendar of \<open>time\<close>: years of March to February
  in eras of 400 years.\<close>

definition civil :: "int \<Rightarrow> int \<times> int \<times> int" where
  "civil days =
     (let z = days + 719468; era = z div 146097; doe = z mod 146097;
          yoe = (doe - doe div 1460 + doe div 36524 - doe div 146096) div 365;
          doy = doe - (365 * yoe + yoe div 4 - yoe div 100);
          mp = (5 * doy + 2) div 153;
          d = doy - (153 * mp + 2) div 5 + 1;
          m = (if mp < 10 then mp + 3 else mp - 9)
      in (yoe + era * 400 + (if m \<le> 2 then 1 else 0), m, d))"

definition pad :: "nat \<Rightarrow> int \<Rightarrow> string" where
  "pad w x = (if x < 0 then CHR ''-'' # zero_pad w (dec_nat (nat (- x))) else zero_pad w (dec_nat (nat x)))"

definition formatTimestamp :: "int \<Rightarrow> string" where
  "formatTimestamp ms =
     (case civil (ms div 86400000) of (y, m, d) \<Rightarrow>
      let t = ms mod 86400000 in
      pad 4 y @ ''-'' @ pad 2 m @ ''-'' @ pad 2 d @ '' '' @ pad 2 (t div 3600000) @ '':'' @ pad 2 (t div 60000 mod 60) @ '':'' @
      pad 2 (t div 1000 mod 60) @ ''.'' @ pad 3 (t mod 1000))"

section \<open>JSON paths\<close>

fun json_steps :: "'f json \<Rightarrow> string list \<Rightarrow> 'f json option" where
  "json_steps current [] = Some current"
| "json_steps current (part # parts) =
     (if part = [] then None
      else (case current of
              JObject obj \<Rightarrow> (case map_of obj part of None \<Rightarrow> None | Some next \<Rightarrow> json_steps next parts)
            | _ \<Rightarrow> None))"

definition jsonPathValue :: "'f json \<Rightarrow> string \<Rightarrow> 'f json option" where
  "jsonPathValue root path =
     (let trimmed = TrimPrefix (TrimPrefix (TrimSpace path) ''$.'') ''$'' in
      if trimmed = [] then None else json_steps root (split_on CHR ''.'' trimmed))"

text \<open>A nil payload is unmarshalled like an empty one.\<close>

definition parseJSON :: "'f sql_lib \<Rightarrow> bytes option \<Rightarrow> 'f json option" where
  "parseJSON L payload = lbUnmarshal L (case payload of None \<Rightarrow> [] | Some bs \<Rightarrow> bs)"

definition jsonLookup :: "'f sql_lib \<Rightarrow> bytes option \<Rightarrow> string \<Rightarrow> 'f json option" where
  "jsonLookup L payload path = (case parseJSON L payload of None \<Rightarrow> None | Some root \<Rightarrow> jsonPathValue root path)"

definition format_bool :: "bool \<Rightarrow> string" where
  "format_bool b = (if b then ''true'' else ''false'')"

definition jsonValueBytes :: "'f sql_lib \<Rightarrow> bytes option \<Rightarrow> string \<Rightarrow> string option" where
  "jsonValueBytes L payload path =
     (case jsonLookup L payload path of
        None \<Rightarrow> None
      | Some v \<Rightarrow>
          (case v of JString s \<Rightarrow> Some s | JNumber f \<Rightarrow> Some (lbFormatFloat L f) | JBool b \<Rightarrow> Some (format_bool b) | _ \<Rightarrow> lbMarshal L v))"

definition jsonQueryBytes :: "'f sql_lib \<Rightarrow> bytes option \<Rightarrow> string \<Rightarrow> string option" where
  "jsonQueryBytes L payload path = (case jsonLookup L payload path of None \<Rightarrow> None | Some v \<Rightarrow> lbMarshal L v)"

definition jsonExistsBytes :: "'f sql_lib \<Rightarrow> bytes option \<Rightarrow> string \<Rightarrow> string option" where
  "jsonExistsBytes L payload path =
     (case parseJSON L payload of
        None \<Rightarrow> None
      | Some root \<Rightarrow> Some (format_bool (jsonPathValue root path \<noteq> None)))"

definition schemaValue :: "'f sql_lib \<Rightarrow> bytes option \<Rightarrow> schema_column \<Rightarrow> string option" where
  "schemaValue L payload schema =
     (case jsonLookup L payload (smPath schema) of
        None \<Rightarrow> None
      | Some v \<Rightarrow>
          let t = ToLower (smType schema) in
          if t = ''string'' then (case v of JString s \<Rightarrow> Some s | _ \<Rightarrow> None)
          else if t = ''int'' \<or> t = ''long'' then (case v of JNumber f \<Rightarrow> Some (fmt_d (lbToInt L f)) | _ \<Rightarrow> None)
          else if t = ''double'' then (case v of JNumber f \<Rightarrow> Some (lbFormatFloat L f) | _ \<Rightarrow> None)
          else if t = ''boolean'' then (case v of JBool b \<Rightarrow> Some (format_bool b) | _ \<Rightarrow> None)
          else if t = ''timestamp'' then
            (case v of JString s \<Rightarrow> Some s | JNumber f \<Rightarrow> Some (formatTimestamp (lbToInt L f)) | _ \<Rightarrow> None)
          else None)"

section \<open>The values of a row\<close>

record row_context =
  rxLeft :: krecord
  rxRight :: "krecord option"
  rxLeftSeg :: string
  rxRightSeg :: string

definition selectRecord :: "row_context \<Rightarrow> string \<Rightarrow> (krecord \<times> string) option" where
  "selectRecord ctx source =
     (if source = ''right'' then (case rxRight ctx of None \<Rightarrow> None | Some r \<Rightarrow> Some (r, rxRightSeg ctx))
      else Some (rxLeft ctx, rxLeftSeg ctx))"

definition columnValue :: "'f sql_lib \<Rightarrow> row_context \<Rightarrow> resolved_column \<Rightarrow> string option" where
  "columnValue L ctx col =
     (case selectRecord ctx (clSource col) of
        None \<Rightarrow> None
      | Some (r, seg) \<Rightarrow>
          (case clKind col of
             columnSchema \<Rightarrow> schemaValue L (rcValue r) (clSchema col)
           | columnJSONValue \<Rightarrow> jsonValueBytes L (rcValue r) (clJSONPath col)
           | columnJSONQuery \<Rightarrow> jsonQueryBytes L (rcValue r) (clJSONPath col)
           | columnJSONExists \<Rightarrow> jsonExistsBytes L (rcValue r) (clJSONPath col)
           | columnImplicit \<Rightarrow>
               let c = clColumn col in
               if c = ''_topic'' then Some (rcTopic r)
               else if c = ''_partition'' then Some (itoa (rcPartition r))
               else if c = ''_offset'' then Some (itoa (rcOffset r))
               else if c = ''_ts'' then Some (formatTimestamp (rcTimestamp r))
               else if c = ''_key'' then encodeBytea (rcKey r)
               else if c = ''_value'' then encodeBytea (rcValue r)
               else if c = ''_headers'' then Some (headersToJSON (rcHeaders r))
               else if c = ''_segment'' then Some seg
               else None))"

definition buildRowValues :: "'f sql_lib \<Rightarrow> resolved_column list \<Rightarrow> row_context \<Rightarrow> row_values" where
  "buildRowValues L cols ctx = map (columnValue L ctx) cols"

definition left_context :: "krecord \<Rightarrow> string \<Rightarrow> row_context" where
  "left_context r seg = \<lparr>rxLeft = r, rxRight = None, rxLeftSeg = seg, rxRightSeg = []\<rparr>"

section \<open>The values of an aggregate\<close>

datatype 'f agg_value = AggNumber 'f | AggTimestamp int | AggString string

definition numericValue :: "'f sql_lib \<Rightarrow> 'f json \<Rightarrow> 'f agg_value option" where
  "numericValue L v =
     (case v of
        JNumber f \<Rightarrow> Some (AggNumber f)
      | JString s \<Rightarrow> map_option AggNumber (lbParseFloat L s)
      | _ \<Rightarrow> None)"

definition parseTimestampValue :: "'f sql_lib \<Rightarrow> 'f json \<Rightarrow> int option" where
  "parseTimestampValue L v = (case v of JNumber f \<Rightarrow> Some (lbToInt L f) | JString s \<Rightarrow> lbParseTime L s | _ \<Rightarrow> None)"

definition string_value :: "'f sql_lib \<Rightarrow> 'f json \<Rightarrow> 'f agg_value" where
  "string_value L v = AggString (case v of JString s \<Rightarrow> s | _ \<Rightarrow> lbSprint L v)"

definition aggValueFromSchema :: "'f sql_lib \<Rightarrow> bytes option \<Rightarrow> schema_column \<Rightarrow> 'f agg_value option" where
  "aggValueFromSchema L payload schema =
     (case jsonLookup L payload (smPath schema) of
        None \<Rightarrow> None
      | Some v \<Rightarrow>
          let t = ToLower (smType schema) in
          if t = ''int'' \<or> t = ''long'' \<or> t = ''double'' then numericValue L v
          else if t = ''timestamp'' then map_option AggTimestamp (parseTimestampValue L v)
          else if t = ''boolean'' then (case v of JBool b \<Rightarrow> Some (AggString (format_bool b)) | _ \<Rightarrow> None)
          else Some (string_value L v))"

definition aggValueFromJSON :: "'f sql_lib \<Rightarrow> bytes option \<Rightarrow> string \<Rightarrow> 'f agg_value option" where
  "aggValueFromJSON L payload path =
     (case jsonLookup L payload path of
        None \<Rightarrow> None
      | Some v \<Rightarrow> (case numericValue L v of Some n \<Rightarrow> Some n | None \<Rightarrow> Some (string_value L v)))"

definition aggValueFromColumn :: "'f sql_lib \<Rightarrow> row_context \<Rightarrow> resolved_column \<Rightarrow> 'f agg_value option" where
  "aggValueFromColumn L ctx col =
     (case selectRecord ctx (clSource col) of
        None \<Rightarrow> None
      | Some (r, seg) \<Rightarrow>
          (case clKind col of
             columnImplicit \<Rightarrow>
               let c = clColumn col in
               if c = ''_partition'' then Some (AggNumber (lbOfInt L (rcPartition r)))
               else if c = ''_offset'' then Some (AggNumber (lbOfInt L (rcOffset r)))
               else if c = ''_ts'' then Some (AggTimestamp (rcTimestamp r))
               else if c = ''_topic'' then Some (AggString (rcTopic r))
               else if c = ''_segment'' then Some (AggString seg)
               else if c = ''_key'' then Some (AggString (text_of (rcKey r)))
               else if c = ''_value'' then Some (AggString (text_of (rcValue r)))
               else None
           | columnSchema \<Rightarrow> aggValueFromSchema L (rcValue r) (clSchema col)
           | columnJSONValue \<Rightarrow> aggValueFromJSON L (rcValue r) (clJSONPath col)
           | _ \<Rightarrow> None))"

section \<open>Numbers are printed\<close>

lemma itoa_fmt_d:
  assumes "in_i64 v" "v \<noteq> - (2 ^ 63)"
  shows "itoa v = fmt_d v"
proof -
  have "i64 (- v) = - v" using assms by (intro i64_id) (simp add: in_i64_def)
  moreover have "dec_nat 0 = ''0''" by code_simp
  ultimately show ?thesis by (simp add: itoa_def fmt_d_def)
qed

text \<open>The least number is printed as a sign alone.\<close>

lemma itoa_least: "itoa (- (2 ^ 63)) = ''-''"
  by (simp add: itoa_def i64_def wrapS_def)

end
