(* ===== verification/Sql_Server.thy ===== *)
theory Sql_Server
  imports Sql_Values
begin

text \<open>
  The query server of the SQL processor
  (\<open>addons/processors/sql-processor/internal/server/server.go\<close>, \<open>row_collector.go\<close> and
  \<open>result_cache.go\<close>): selects, aggregates, joins, the statements about topics and the catalog, the result
  cache, and the loop over the messages of a connection.

  What the calls made by one query return is its environment \<open>query_env\<close>: the metadata resolver, the
  listing, the decoder, the \<open>n\<close>-th check of the context, the sending of the message behind \<open>k\<close> others, the \<open>n\<close>-th
  reading of the clock, and the admission by the query limiter. The messages that were sent are the
  state of a query.
\<close>

section \<open>Messages\<close>

record field_description =
  fdName :: string
  fdOID :: int
  fdSize :: int

datatype backend_msg =
    RowDescription "field_description list"
  | DataRow row_values
  | CommandComplete string
  | ErrorResponse string
  | ReadyForQuery
  | ParseComplete
  | BindComplete
  | CloseComplete
  | ParameterDescription
  | NoData

text \<open>\<open>row_collector.go\<close>\<close>

record row_collector =
  rwMaxRows :: int
  rwFields :: "field_description list"
  rwRows :: "row_values list"
  rwTag :: string
  rwTruncated :: bool

definition newRowCollector :: "int \<Rightarrow> row_collector" where
  "newRowCollector maxRows = \<lparr>rwMaxRows = maxRows, rwFields = [], rwRows = [], rwTag = [], rwTruncated = False\<rparr>"

definition capture :: "backend_msg \<Rightarrow> row_collector \<Rightarrow> row_collector" where
  "capture msg c =
     (case msg of
        RowDescription fds \<Rightarrow> c\<lparr>rwFields := fds\<rparr>
      | DataRow vs \<Rightarrow>
          if rwMaxRows c > 0 \<and> int (length (rwRows c)) \<ge> rwMaxRows c then c\<lparr>rwTruncated := True\<rparr>
          else c\<lparr>rwRows := rwRows c @ [vs]\<rparr>
      | CommandComplete tag \<Rightarrow> if tag \<noteq> [] then c\<lparr>rwTag := tag\<rparr> else c
      | _ \<Rightarrow> c)"

text \<open>\<open>result_cache.go\<close>\<close>

record result_entry =
  reCreated :: time
  reFields :: "field_description list"
  reRows :: "row_values list"
  reTag :: string
  reRowsCount :: int
  reSegments :: int
  reBytes :: int

definition collector_entry :: "time \<Rightarrow> row_collector \<Rightarrow> result_entry option" where
  "collector_entry now c =
     (if rwTruncated c \<or> rwFields c = [] then None
      else Some \<lparr>reCreated = now, reFields = rwFields c, reRows = rwRows c, reTag = rwTag c, reRowsCount = int (length (rwRows c)),
                 reSegments = 0, reBytes = 0\<rparr>)"

record result_cache =
  rsTTL :: duration
  rsMaxEntries :: int
  rsEntries :: "(string \<times> result_entry) list"
  rsOrder :: "string list"

definition newResultCache :: "duration \<Rightarrow> int \<Rightarrow> result_cache option" where
  "newResultCache ttl maxEntries =
     (if ttl \<le> 0 \<or> maxEntries \<le> 0 then None
      else Some \<lparr>rsTTL = ttl, rsMaxEntries = maxEntries, rsEntries = [], rsOrder = []\<rparr>)"

definition rsGet :: "time \<Rightarrow> string \<Rightarrow> result_cache \<Rightarrow> result_entry option \<times> result_cache" where
  "rsGet now key c =
     (case map_of (rsEntries c) key of
        None \<Rightarrow> (None, c)
      | Some e \<Rightarrow>
          if rsTTL c > 0 \<and> timeSub now (reCreated e) > rsTTL c
          then (None, c\<lparr>rsEntries := AList.delete key (rsEntries c), rsOrder := remove1 key (rsOrder c)\<rparr>)
          else (Some e, c))"

fun evict_oldest :: "int \<Rightarrow> string list \<Rightarrow> (string \<times> result_entry) list \<Rightarrow> string list \<times> (string \<times> result_entry) list" where
  "evict_oldest maxEntries order entries =
     (case order of
        [] \<Rightarrow> ([], entries)
      | oldest # rest \<Rightarrow>
          if int (length order) > maxEntries then evict_oldest maxEntries rest (AList.delete oldest entries) else (order, entries))"

definition rsSet :: "string \<Rightarrow> result_entry \<Rightarrow> result_cache \<Rightarrow> result_cache" where
  "rsSet key e c =
     (let order = (if map_of (rsEntries c) key \<noteq> None then remove1 key (rsOrder c) else rsOrder c) @ [key] in
      case evict_oldest (rsMaxEntries c) order (AList.update key e (rsEntries c)) of
        (order, entries) \<Rightarrow> c\<lparr>rsOrder := order, rsEntries := entries\<rparr>)"

definition cacheKey :: "string \<Rightarrow> string \<Rightarrow> string" where
  "cacheKey q parsedQueryKey =
     (let normalized = ToLower (join_with CHR '' '' (Fields q)) in
      if parsedQueryKey = [] then normalized else normalized @ ''|'' @ parsedQueryKey)"

section \<open>The environment of a query\<close>

record query_env =
  evTopics :: "string list outcome"
  evPartitions :: "string \<Rightarrow> int list outcome"
  evLister :: "unit outcome"
  evDecoder :: "unit outcome"
  evList :: "sql_ref list outcome"
  evDecode :: "string \<Rightarrow> string \<Rightarrow> string \<Rightarrow> int \<Rightarrow> krecord list outcome"
  evDone :: "nat \<Rightarrow> bool"
  evSend :: "nat \<Rightarrow> go_error option"
  evClock :: "nat \<Rightarrow> time"
  evAcquire :: "unit outcome"

record backend =
  bkSent :: "backend_msg list"
  bkCollector :: "row_collector option"

type_synonym 'a qact = "backend \<Rightarrow> 'a outcome \<times> backend"

definition qret :: "'a \<Rightarrow> 'a qact" where
  "qret x b = (Ok x, b)"

definition qbind :: "'a qact \<Rightarrow> ('a \<Rightarrow> 'b qact) \<Rightarrow> 'b qact" where
  "qbind m f b = (case m b of (Ok x, b) \<Rightarrow> f x b | (Err e, b) \<Rightarrow> (Err e, b) | (Panic, b) \<Rightarrow> (Panic, b))"

definition qlift :: "'a outcome \<Rightarrow> 'a qact" where
  "qlift r b = (r, b)"

abbreviation qfail :: "string \<Rightarrow> 'a qact" where
  "qfail msg \<equiv> qlift (Err (ErrText msg))"

definition qignore :: "'a qact \<Rightarrow> unit qact" where
  "qignore m b = (Ok (), snd (m b))"

definition Send :: "query_env \<Rightarrow> backend_msg \<Rightarrow> unit qact" where
  "Send E msg b =
     (case evSend E (length (bkSent b)) of
        None \<Rightarrow> (Ok (), b\<lparr>bkSent := bkSent b @ [msg]\<rparr>)
      | Some e \<Rightarrow> (Err e, b))"

definition qsend :: "query_env \<Rightarrow> backend_msg \<Rightarrow> unit qact" where
  "qsend E msg b = Send E msg (b\<lparr>bkCollector := map_option (capture msg) (bkCollector b)\<rparr>)"

fun qsend_rows :: "(backend_msg \<Rightarrow> unit qact) \<Rightarrow> row_values list \<Rightarrow> unit qact" where
  "qsend_rows put [] = qret ()"
| "qsend_rows put (row # rows) = qbind (put (DataRow row)) (\<lambda>_. qsend_rows put rows)"

record query_result =
  qrRows :: int
  qrSegments :: int
  qrBytes :: int

definition commandTag :: "int \<Rightarrow> string" where
  "commandTag rows = ''SELECT '' @ itoa rows"

definition text_field :: "string \<Rightarrow> field_description" where
  "text_field name = \<lparr>fdName = name, fdOID = 25, fdSize = - 1\<rparr>"

text \<open>A whole table: its description, its rows and the end; the end may fail to be sent.\<close>

definition send_table :: "query_env \<Rightarrow> field_description list \<Rightarrow> row_values list \<Rightarrow> int qact" where
  "send_table E fds rows =
     qbind (Send E (RowDescription fds)) (\<lambda>_.
     qbind (qsend_rows (Send E) rows) (\<lambda>_.
     qbind (qignore (Send E (CommandComplete (commandTag (int (length rows)))))) (\<lambda>_.
     qret (int (length rows)))))"

section \<open>Which segments a query reads\<close>

definition segmentMatchesOffsets :: "sql_ref \<Rightarrow> int option \<Rightarrow> int option \<Rightarrow> bool" where
  "segmentMatchesOffsets s lo hi =
     (if lo = None \<and> hi = None then True
      else if sgMinOffset s = None \<and> sgMaxOffset s = None then True
      else if (case (lo, sgMaxOffset s) of (Some a, Some m) \<Rightarrow> m < a | _ \<Rightarrow> False) then False
      else if (case (hi, sgMinOffset s) of (Some a, Some m) \<Rightarrow> m > a | _ \<Rightarrow> False) then False
      else True)"

definition segmentMatchesTimestamps :: "sql_ref \<Rightarrow> int option \<Rightarrow> int option \<Rightarrow> bool" where
  "segmentMatchesTimestamps s lo hi =
     (if lo = None \<and> hi = None then True
      else if sgMinTimestamp s = None \<and> sgMaxTimestamp s = None then True
      else if (case (lo, sgMaxTimestamp s) of (Some a, Some m) \<Rightarrow> m < a | _ \<Rightarrow> False) then False
      else if (case (hi, sgMinTimestamp s) of (Some a, Some m) \<Rightarrow> m > a | _ \<Rightarrow> False) then False
      else True)"

definition filterSegments :: "query \<Rightarrow> sql_ref list \<Rightarrow> int option \<Rightarrow> int option \<Rightarrow> sql_ref list" where
  "filterSegments parsed segments timeMin timeMax =
     filter (\<lambda>s. sgTopic s = qTopic parsed \<and> (case qPartition parsed of None \<Rightarrow> True | Some p \<Rightarrow> sgPartition s = p) \<and>
       segmentMatchesOffsets s (qOffsetMin parsed) (qOffsetMax parsed) \<and> segmentMatchesTimestamps s timeMin timeMax) segments"

definition estimateBytes :: "sql_ref list \<Rightarrow> int" where
  "estimateBytes segments = foldl (\<lambda>n s. if sgSizeBytes s > 0 then i64 (n + sgSizeBytes s) else n) 0 segments"

definition enforceScanLimits :: "sql_config \<Rightarrow> int \<Rightarrow> int \<Rightarrow> unit outcome" where
  "enforceScanLimits cfg segments bytes =
     (if scMaxScanSegments cfg > 0 \<and> segments > scMaxScanSegments cfg then Err (ErrText ''scan segments exceeds max_scan_segments'')
      else if scMaxScanBytes cfg > 0 \<and> bytes > 0 \<and> bytes > scMaxScanBytes cfg then Err (ErrText ''scan bytes exceeds max_scan_bytes'')
      else Ok ())"

definition parseLimit :: "string \<Rightarrow> int outcome" where
  "parseLimit raw = (case ParseInt 64 raw of None \<Rightarrow> Err (ErrText ''invalid limit'') | Some n \<Rightarrow> Ok n)"

text \<open>\<open>time.Duration(days) * 24 * time.Hour\<close> wraps.\<close>

definition parseDuration :: "'f sql_lib \<Rightarrow> string \<Rightarrow> duration outcome" where
  "parseDuration L raw =
     (if HasSuffix raw ''d'' then
        (case ParseInt 64 (TrimSuffix raw ''d'') of
           None \<Rightarrow> Err (ErrText ''invalid duration'')
         | Some days \<Rightarrow> Ok (i64 (i64 (days * 24) * (3600 * second))))
      else (case lbParseDuration L raw of None \<Rightarrow> Err (ErrText ''invalid duration'') | Some d \<Rightarrow> Ok d))"

definition maxInt64Ptr :: "int option \<Rightarrow> int \<Rightarrow> int option" where
  "maxInt64Ptr current v = (case current of None \<Rightarrow> Some v | Some c \<Rightarrow> if v > c then Some v else Some c)"

text \<open>The time bounds of a query; \<open>now\<close> is the reading of the clock for \<open>LAST\<close>.\<close>

definition time_bounds :: "'f sql_lib \<Rightarrow> time \<Rightarrow> query \<Rightarrow> (int option \<times> int option) outcome" where
  "time_bounds L now parsed =
     (if qLast parsed \<noteq> [] then
        bindO (parseDuration L (qLast parsed)) (\<lambda>window.
          Ok (maxInt64Ptr (qTsMin parsed) (i64 (unixMilli now - goDiv window millisecond)),
              case qTsMax parsed of None \<Rightarrow> Some (unixMilli now) | Some m \<Rightarrow> Some m))
      else Ok (qTsMin parsed, qTsMax parsed))"

definition window_invalid :: "int option \<Rightarrow> int option \<Rightarrow> bool" where
  "window_invalid timeMin timeMax = (case (timeMin, timeMax) of (Some a, Some b) \<Rightarrow> b < a | _ \<Rightarrow> False)"

definition unbounded :: "sql_config \<Rightarrow> query \<Rightarrow> bool" where
  "unbounded cfg parsed \<longleftrightarrow>
     scRequireTimeBound cfg \<and> \<not> qScanFull parsed \<and> qLast parsed = [] \<and> qTail parsed = [] \<and> qTsMin parsed = None \<and> qTsMax parsed = None"

section \<open>Selects\<close>

definition hasAggregates :: "select_column list \<Rightarrow> bool" where
  "hasAggregates cols \<longleftrightarrow> (\<exists>col \<in> set cols. slKind col = SelectColumnAggregate)"

definition buildRowDescription :: "resolved_column list \<Rightarrow> field_description list" where
  "buildRowDescription cols = map (\<lambda>col. \<lparr>fdName = clName col, fdOID = columnTypeOID col, fdSize = - 1\<rparr>) cols"

definition appendTailRow :: "row_result list \<Rightarrow> row_result \<Rightarrow> int \<Rightarrow> row_result list" where
  "appendTailRow rows row lim =
     (if lim \<le> 0 then rows
      else if int (length rows) < lim then rows @ [row]
      else tl rows @ [row])"

text \<open>The number of rows and of tail rows that a select asks for, with the checks in their order.\<close>

definition select_limit :: "sql_config \<Rightarrow> query \<Rightarrow> (int \<times> int) outcome" where
  "select_limit cfg parsed =
     bindO (if qLimit parsed \<noteq> [] then parseLimit (qLimit parsed) else Ok (scDefaultLimit cfg)) (\<lambda>lim.
     bindO (if qTail parsed \<noteq> [] then bindO (parseLimit (qTail parsed)) (\<lambda>v. Ok (v, v)) else Ok (lim, 0)) (\<lambda>(lim, tailCount).
     let lim = (if lim \<le> 0 then scDefaultLimit cfg else lim) in
     if scMaxRows cfg > 0 \<and> lim > scMaxRows cfg then Err (ErrText ''limit exceeds max_rows'')
     else if qScanFull parsed \<and> lim > scMaxUnbounded cfg then Err (ErrText ''scan full limit exceeds max_unbounded_scan'')
     else if qOrderBy parsed \<noteq> [] \<and> qOrderBy parsed \<noteq> ''_ts'' then Err (ErrText ''order by supports _ts only'')
     else if qOrderBy parsed \<noteq> [] \<and> tailCount > 0 then Err (ErrText ''tail cannot be combined with order by'')
     else Ok (lim, tailCount)))"

definition record_matches :: "query \<Rightarrow> int option \<Rightarrow> int option \<Rightarrow> krecord \<Rightarrow> bool" where
  "record_matches parsed timeMin timeMax r =
     ((case timeMin of None \<Rightarrow> True | Some m \<Rightarrow> m \<le> rcTimestamp r) \<and> (case timeMax of None \<Rightarrow> True | Some m \<Rightarrow> rcTimestamp r \<le> m) \<and>
      (case qOffsetMin parsed of None \<Rightarrow> True | Some m \<Rightarrow> m \<le> rcOffset r) \<and> (case qOffsetMax parsed of None \<Rightarrow> True | Some m \<Rightarrow> rcOffset r \<le> m))"

definition slice_len :: "bytes option \<Rightarrow> int" where
  "slice_len b = (case b of None \<Rightarrow> 0 | Some bs \<Rightarrow> int (length bs))"

record scan_state =
  ssSent :: int
  ssBytes :: int
  ssRows :: "row_result list"
  ssTail :: "row_result list"

definition record_row :: "'f sql_lib \<Rightarrow> resolved_column list \<Rightarrow> string \<Rightarrow> krecord \<Rightarrow> row_result" where
  "record_row L cols seg r = \<lparr>rrValues = buildRowValues L cols (left_context r seg), rrTs = rcTimestamp r\<rparr>"

text \<open>The records of one segment; \<open>True\<close> when the limit is reached and the query ends.\<close>

fun scan_records ::
  "'f sql_lib \<Rightarrow> query_env \<Rightarrow> query \<Rightarrow> int option \<Rightarrow> int option \<Rightarrow> resolved_column list \<Rightarrow> int \<Rightarrow> int \<Rightarrow> string \<Rightarrow> krecord list \<Rightarrow>
   scan_state \<Rightarrow> (scan_state \<times> bool) qact" where
  "scan_records L E parsed timeMin timeMax cols lim tailCount seg [] st = qret (st, False)"
| "scan_records L E parsed timeMin timeMax cols lim tailCount seg (r # rs) st =
     (if \<not> record_matches parsed timeMin timeMax r then scan_records L E parsed timeMin timeMax cols lim tailCount seg rs st
      else
        let st = st\<lparr>ssBytes := ssBytes st + (slice_len (rcKey r) + slice_len (rcValue r))\<rparr>; row = record_row L cols seg r in
        if qOrderBy parsed \<noteq> [] then
          scan_records L E parsed timeMin timeMax cols lim tailCount seg rs (st\<lparr>ssRows := ssRows st @ [row]\<rparr>)
        else if tailCount > 0 then
          scan_records L E parsed timeMin timeMax cols lim tailCount seg rs (st\<lparr>ssTail := appendTailRow (ssTail st) row tailCount\<rparr>)
        else
          qbind (qsend E (DataRow (rrValues row))) (\<lambda>_.
            let st = st\<lparr>ssSent := ssSent st + 1\<rparr> in
            if ssSent st \<ge> lim then
              qbind (qignore (qsend E (CommandComplete (commandTag (ssSent st))))) (\<lambda>_. qret (st, True))
            else scan_records L E parsed timeMin timeMax cols lim tailCount seg rs st))"

text \<open>The segments; \<open>n\<close> of them have been scanned.\<close>

fun scan_segments ::
  "'f sql_lib \<Rightarrow> query_env \<Rightarrow> query \<Rightarrow> int option \<Rightarrow> int option \<Rightarrow> resolved_column list \<Rightarrow> int \<Rightarrow> int \<Rightarrow> nat \<Rightarrow> sql_ref list \<Rightarrow>
   scan_state \<Rightarrow> (scan_state \<times> nat \<times> bool) qact" where
  "scan_segments L E parsed timeMin timeMax cols lim tailCount n [] st = qret (st, n, False)"
| "scan_segments L E parsed timeMin timeMax cols lim tailCount n (s # segs) st =
     (if evDone E n then qlift (Err ErrContext)
      else
        qbind (qlift (evDecode E (sgSegmentKey s) (sgIndexKey s) (sgTopic s) (sgPartition s))) (\<lambda>records.
        qbind (scan_records L E parsed timeMin timeMax cols lim tailCount (sgSegmentKey s) records st) (\<lambda>(st, full).
          if full then qret (st, Suc n, True)
          else scan_segments L E parsed timeMin timeMax cols lim tailCount (Suc n) segs st)))"

definition scan_result :: "int \<Rightarrow> nat \<Rightarrow> int \<Rightarrow> query_result" where
  "scan_result rows segments bytes = \<lparr>qrRows = rows, qrSegments = int segments, qrBytes = bytes\<rparr>"

definition row_less :: "query \<Rightarrow> row_result \<Rightarrow> row_result \<Rightarrow> bool" where
  "row_less parsed a b = (if qOrderDesc parsed then rrTs a > rrTs b else rrTs a < rrTs b)"

definition ordered_rows :: "'f sql_lib \<Rightarrow> query \<Rightarrow> int \<Rightarrow> row_result list \<Rightarrow> row_result list" where
  "ordered_rows L parsed lim rows =
     (let rows = lbSort L (row_less parsed) rows in if lim > 0 \<and> int (length rows) > lim then take (nat lim) rows else rows)"

definition plain_select ::
  "'f sql_lib \<Rightarrow> sql_config \<Rightarrow> query_env \<Rightarrow> query \<Rightarrow> sql_ref list \<Rightarrow> int option \<Rightarrow> int option \<Rightarrow> int \<Rightarrow> int \<Rightarrow> query_result qact" where
  "plain_select L cfg E parsed candidates timeMin timeMax lim tailCount =
     qbind (qlift (resolveSelectColumns cfg (qTopic parsed) (qSelect parsed))) (\<lambda>cols.
     qbind (qsend E (RowDescription (buildRowDescription cols))) (\<lambda>_.
     qbind (scan_segments L E parsed timeMin timeMax cols lim tailCount 0 candidates \<lparr>ssSent = 0, ssBytes = 0, ssRows = [], ssTail = []\<rparr>)
       (\<lambda>(st, scanned, full).
     if full then qret (scan_result (ssSent st) scanned (ssBytes st))
     else
       let rows = (if qOrderBy parsed \<noteq> [] then ordered_rows L parsed lim (ssRows st) else if tailCount > 0 then ssTail st else []);
           sent = ssSent st + int (length rows) in
       qbind (qsend_rows (qsend E) (map rrValues rows)) (\<lambda>_.
       qbind (qignore (qsend E (CommandComplete (commandTag sent)))) (\<lambda>_.
       qret (scan_result sent scanned (ssBytes st)))))))"

section \<open>Aggregates\<close>

datatype agg_arg = AggStar | AggColumn resolved_column

record agg_spec =
  spFunc :: string
  spName :: string
  spArg :: agg_arg

text \<open>The column of a star argument is the zero value.\<close>

definition arg_column :: "agg_spec \<Rightarrow> resolved_column" where
  "arg_column spec = (case spArg spec of AggStar \<Rightarrow> implicit_column [] | AggColumn c \<Rightarrow> c)"

record 'f agg_state =
  asCount :: int
  asSum :: 'f
  asHasSum :: bool
  asMinSet :: bool
  asMinNum :: 'f
  asMinTS :: int
  asMinStr :: string
  asMaxSet :: bool
  asMaxNum :: 'f
  asMaxTS :: int
  asMaxStr :: string
  asKind :: string

definition new_agg :: "'f sql_lib \<Rightarrow> 'f agg_state" where
  "new_agg L = \<lparr>asCount = 0, asSum = lbZero L, asHasSum = False, asMinSet = False, asMinNum = lbZero L, asMinTS = 0, asMinStr = [],
     asMaxSet = False, asMaxNum = lbZero L, asMaxTS = 0, asMaxStr = [], asKind = []\<rparr>"

definition value_kind :: "'f agg_value \<Rightarrow> string" where
  "value_kind v = (case v of AggNumber _ \<Rightarrow> ''number'' | AggTimestamp _ \<Rightarrow> ''timestamp'' | AggString _ \<Rightarrow> ''string'')"

definition with_kind :: "'f agg_value \<Rightarrow> 'f agg_state \<Rightarrow> 'f agg_state" where
  "with_kind v st = (if asKind st = [] then st\<lparr>asKind := value_kind v\<rparr> else st)"

definition updateAggMin :: "'f sql_lib \<Rightarrow> 'f agg_value \<Rightarrow> 'f agg_state \<Rightarrow> 'f agg_state" where
  "updateAggMin L v st =
     (let st = with_kind v st in
      if asKind st \<noteq> value_kind v then st
      else (case v of
              AggTimestamp t \<Rightarrow> if \<not> asMinSet st \<or> t < asMinTS st then st\<lparr>asMinTS := t, asMinSet := True\<rparr> else st
            | AggNumber f \<Rightarrow> if \<not> asMinSet st \<or> lbLess L f (asMinNum st) then st\<lparr>asMinNum := f, asMinSet := True\<rparr> else st
            | AggString s \<Rightarrow> if \<not> asMinSet st \<or> s < asMinStr st then st\<lparr>asMinStr := s, asMinSet := True\<rparr> else st))"

definition updateAggMax :: "'f sql_lib \<Rightarrow> 'f agg_value \<Rightarrow> 'f agg_state \<Rightarrow> 'f agg_state" where
  "updateAggMax L v st =
     (let st = with_kind v st in
      if asKind st \<noteq> value_kind v then st
      else (case v of
              AggTimestamp t \<Rightarrow> if \<not> asMaxSet st \<or> t > asMaxTS st then st\<lparr>asMaxTS := t, asMaxSet := True\<rparr> else st
            | AggNumber f \<Rightarrow> if \<not> asMaxSet st \<or> lbLess L (asMaxNum st) f then st\<lparr>asMaxNum := f, asMaxSet := True\<rparr> else st
            | AggString s \<Rightarrow> if \<not> asMaxSet st \<or> s > asMaxStr st then st\<lparr>asMaxStr := s, asMaxSet := True\<rparr> else st))"

definition updateAgg :: "'f sql_lib \<Rightarrow> agg_spec \<Rightarrow> row_context \<Rightarrow> 'f agg_state \<Rightarrow> 'f agg_state" where
  "updateAgg L spec ctx st =
     (let v = aggValueFromColumn L ctx (arg_column spec) in
      if spFunc spec = ''count'' then
        (if spArg spec = AggStar \<or> v \<noteq> None then st\<lparr>asCount := i64 (asCount st + 1)\<rparr> else st)
      else if spFunc spec = ''sum'' then
        (case v of Some (AggNumber f) \<Rightarrow> st\<lparr>asSum := lbAdd L (asSum st) f, asHasSum := True\<rparr> | _ \<Rightarrow> st)
      else if spFunc spec = ''avg'' then
        (case v of Some (AggNumber f) \<Rightarrow> st\<lparr>asSum := lbAdd L (asSum st) f, asCount := i64 (asCount st + 1)\<rparr> | _ \<Rightarrow> st)
      else if spFunc spec = ''min'' then (case v of Some x \<Rightarrow> updateAggMin L x st | None \<Rightarrow> st)
      else if spFunc spec = ''max'' then (case v of Some x \<Rightarrow> updateAggMax L x st | None \<Rightarrow> st)
      else st)"

definition aggMinMaxValue :: "'f sql_lib \<Rightarrow> 'f agg_state \<Rightarrow> bool \<Rightarrow> string option" where
  "aggMinMaxValue L st least =
     (if \<not> asMinSet st \<and> \<not> asMaxSet st then None
      else if asKind st = ''timestamp'' then Some (formatTimestamp (if least then asMinTS st else asMaxTS st))
      else if asKind st = ''number'' then Some (lbFormatFloat L (if least then asMinNum st else asMaxNum st))
      else if asKind st = ''string'' then Some (if least then asMinStr st else asMaxStr st)
      else None)"

definition aggStateValue :: "'f sql_lib \<Rightarrow> 'f agg_state \<Rightarrow> agg_spec \<Rightarrow> string option" where
  "aggStateValue L st spec =
     (if spFunc spec = ''count'' then Some (fmt_d (asCount st))
      else if spFunc spec = ''sum'' then (if asHasSum st then Some (lbFormatFloat L (asSum st)) else None)
      else if spFunc spec = ''avg'' then
        (if asCount st = 0 then None else Some (lbFormatFloat L (lbDiv L (asSum st) (lbOfInt L (asCount st)))))
      else if spFunc spec = ''min'' then aggMinMaxValue L st True
      else if spFunc spec = ''max'' then aggMinMaxValue L st False
      else None)"

datatype output_column = OutputGroup string nat int | OutputAggregate string nat int

definition output_field :: "output_column \<Rightarrow> field_description" where
  "output_field out =
     (case out of OutputGroup name _ oid \<Rightarrow> \<lparr>fdName = name, fdOID = oid, fdSize = - 1\<rparr>
                | OutputAggregate name _ oid \<Rightarrow> \<lparr>fdName = name, fdOID = oid, fdSize = - 1\<rparr>)"

record aggregate_plan =
  apGroupCols :: "resolved_column list"
  apAggs :: "agg_spec list"
  apOutputs :: "output_column list"

record 'f agg_group_state =
  gsValues :: row_values
  gsAggs :: "'f agg_state list"

definition buildAggSpec :: "(string \<times> schema_column) list \<Rightarrow> select_column \<Rightarrow> agg_spec outcome" where
  "buildAggSpec schemaMap sel =
     (let spec = \<lparr>spFunc = slAggFunc sel, spName = slAlias sel, spArg = AggStar\<rparr> in
      if slAggStar sel then Ok spec
      else if slAggJSONPath sel \<noteq> [] then
        Ok (spec\<lparr>spArg := AggColumn (json_column columnJSONValue ''json_value'' (slAggJSONPath sel)),
                 spName := alias_or (slAggFunc sel @ ''_json'') sel\<rparr>)
      else
        bindO (resolveColumnByName (slAggColumn sel) schemaMap) (\<lambda>col.
          Ok (spec\<lparr>spArg := AggColumn col, spName := alias_or (slAggFunc sel @ ''_'' @ slAggColumn sel) sel\<rparr>)))"

definition aggResultOID :: "agg_spec \<Rightarrow> int" where
  "aggResultOID spec =
     (if spFunc spec = ''count'' then 20
      else if spFunc spec = ''sum'' \<or> spFunc spec = ''avg'' then 701
      else if spFunc spec = ''min'' \<or> spFunc spec = ''max'' then
        (case spArg spec of AggColumn col \<Rightarrow> columnTypeOID col | AggStar \<Rightarrow> 25)
      else 25)"

text \<open>The position of the last group column with a name, as the map \<open>groupIndex\<close> keeps it.\<close>

definition group_index :: "resolved_column list \<Rightarrow> (string \<times> nat) list" where
  "group_index cols = rev (zip (map clName cols) [0..<length cols])"

fun plan_outputs ::
  "(string \<times> schema_column) list \<Rightarrow> query \<Rightarrow> resolved_column list \<Rightarrow> select_column list \<Rightarrow> agg_spec list \<Rightarrow> output_column list \<Rightarrow>
   (agg_spec list \<times> output_column list) outcome" where
  "plan_outputs schemaMap parsed groupCols [] aggs outs = Ok (aggs, outs)"
| "plan_outputs schemaMap parsed groupCols (sel # sels) aggs outs =
     (case slKind sel of
        SelectColumnAggregate \<Rightarrow>
          bindO (buildAggSpec schemaMap sel) (\<lambda>spec.
            plan_outputs schemaMap parsed groupCols sels (aggs @ [spec])
              (outs @ [OutputAggregate (alias_or (spName spec) sel) (length aggs) (aggResultOID spec)]))
      | SelectColumnField \<Rightarrow>
          if qGroupBy parsed = [] then Err (ErrText ''non-aggregate column requires group by'')
          else
            (case map_of (group_index groupCols) (slColumn sel) of
               None \<Rightarrow> Err (ErrText ''column must appear in group by'')
             | Some idx \<Rightarrow>
                 plan_outputs schemaMap parsed groupCols sels aggs
                   (outs @ [OutputGroup (alias_or (slColumn sel) sel) idx (columnTypeOID (groupCols ! idx))]))
      | SelectColumnStar \<Rightarrow> Err (ErrText ''select * is not supported with aggregates'')
      | SelectColumnUnknown \<Rightarrow> Err (ErrText ''unsupported aggregate selection'')
      | _ \<Rightarrow> Err (ErrText ''json helpers are not supported in group by''))"

definition buildAggregatePlan :: "sql_config \<Rightarrow> query \<Rightarrow> aggregate_plan outcome" where
  "buildAggregatePlan cfg parsed =
     (let schemaMap = schemaColumnMapForTopic cfg (qTopic parsed) in
      bindO (mapO (\<lambda>name. resolveColumnByName name schemaMap) (qGroupBy parsed)) (\<lambda>groupCols.
      bindO (plan_outputs schemaMap parsed groupCols (qSelect parsed) [] []) (\<lambda>(aggs, outs).
      if \<not> hasAggregates (qSelect parsed) then Err (ErrText ''aggregate query requires an aggregate function'')
      else Ok \<lparr>apGroupCols = groupCols, apAggs = aggs, apOutputs = outs\<rparr>)))"

definition buildGroupKey :: "row_values \<Rightarrow> string" where
  "buildGroupKey vs =
     (if vs = [] then ''all''
      else join_with CHR 0x1F (map (\<lambda>v. case v of None \<Rightarrow> ''<nil>'' | Some s \<Rightarrow> s) vs))"

definition buildAggregateRow :: "'f sql_lib \<Rightarrow> aggregate_plan \<Rightarrow> 'f agg_group_state \<Rightarrow> row_values" where
  "buildAggregateRow L plan st =
     map (\<lambda>out. case out of
            OutputGroup _ i _ \<Rightarrow> if i < length (gsValues st) then gsValues st ! i else None
          | OutputAggregate _ i _ \<Rightarrow> aggStateValue L (gsAggs st ! i) (apAggs plan ! i)) (apOutputs plan)"

definition group_values :: "'f sql_lib \<Rightarrow> aggregate_plan \<Rightarrow> row_context \<Rightarrow> row_values" where
  "group_values L plan ctx = map (columnValue L ctx) (apGroupCols plan)"

definition add_to_group ::
  "'f sql_lib \<Rightarrow> aggregate_plan \<Rightarrow> row_context \<Rightarrow> (string \<times> 'f agg_group_state) list \<Rightarrow> (string \<times> 'f agg_group_state) list" where
  "add_to_group L plan ctx groups =
     (let vs = group_values L plan ctx; key = buildGroupKey vs;
          st = (case map_of groups key of Some st \<Rightarrow> st | None \<Rightarrow> \<lparr>gsValues = vs, gsAggs = map (\<lambda>_. new_agg L) (apAggs plan)\<rparr>) in
      AList.update key (st\<lparr>gsAggs := map2 (\<lambda>spec a. updateAgg L spec ctx a) (apAggs plan) (gsAggs st)\<rparr>) groups)"

fun group_records ::
  "'f sql_lib \<Rightarrow> aggregate_plan \<Rightarrow> query \<Rightarrow> int option \<Rightarrow> int option \<Rightarrow> string \<Rightarrow> krecord list \<Rightarrow> int \<Rightarrow> (string \<times> 'f agg_group_state) list \<Rightarrow>
   int \<times> (string \<times> 'f agg_group_state) list" where
  "group_records L plan parsed timeMin timeMax seg [] bytes groups = (bytes, groups)"
| "group_records L plan parsed timeMin timeMax seg (r # rs) bytes groups =
     (if \<not> record_matches parsed timeMin timeMax r then group_records L plan parsed timeMin timeMax seg rs bytes groups
      else group_records L plan parsed timeMin timeMax seg rs (bytes + (slice_len (rcKey r) + slice_len (rcValue r)))
             (add_to_group L plan (left_context r seg) groups))"

fun group_segments ::
  "'f sql_lib \<Rightarrow> query_env \<Rightarrow> aggregate_plan \<Rightarrow> query \<Rightarrow> int option \<Rightarrow> int option \<Rightarrow> nat \<Rightarrow> sql_ref list \<Rightarrow> int \<Rightarrow> (string \<times> 'f agg_group_state) list \<Rightarrow>
   (nat \<times> int \<times> (string \<times> 'f agg_group_state) list) qact" where
  "group_segments L E plan parsed timeMin timeMax n [] bytes groups = qret (n, bytes, groups)"
| "group_segments L E plan parsed timeMin timeMax n (s # segs) bytes groups =
     (if evDone E n then qlift (Err ErrContext)
      else
        qbind (qlift (evDecode E (sgSegmentKey s) (sgIndexKey s) (sgTopic s) (sgPartition s))) (\<lambda>records.
        case group_records L plan parsed timeMin timeMax (sgSegmentKey s) records bytes groups of
          (bytes, groups) \<Rightarrow> group_segments L E plan parsed timeMin timeMax (Suc n) segs bytes groups))"

definition handleAggregateSelect ::
  "'f sql_lib \<Rightarrow> sql_config \<Rightarrow> query_env \<Rightarrow> query \<Rightarrow> sql_ref list \<Rightarrow> int option \<Rightarrow> int option \<Rightarrow> int \<Rightarrow> query_result qact" where
  "handleAggregateSelect L cfg E parsed segments timeMin timeMax lim =
     qbind (qlift (buildAggregatePlan cfg parsed)) (\<lambda>plan.
     qbind (qsend E (RowDescription (map output_field (apOutputs plan)))) (\<lambda>_.
     qbind (qlift (evDecoder E)) (\<lambda>_.
     qbind (group_segments L E plan parsed timeMin timeMax 0 segments 0 []) (\<lambda>(scanned, bytes, groups).
     let keys = sort (map fst groups); keys = (if lim > 0 then take (nat lim) keys else keys);
         rows = map (\<lambda>key. buildAggregateRow L plan (the (map_of groups key))) keys in
     qbind (qsend_rows (qsend E) rows) (\<lambda>_.
     qbind (qignore (qsend E (CommandComplete (commandTag (int (length rows)))))) (\<lambda>_.
     qret (scan_result (int (length rows)) scanned bytes)))))))"

end
