(* ===== verification/Sql_Session.thy ===== *)
theory Sql_Session
  imports Sql_Server
begin

text \<open>
  The statements of the SQL processor (\<open>addons/processors/sql-processor/internal/server/server.go\<close>):
  joins, the select that dispatches to all kinds, explain, the statements about topics, the
  catalog, the result cache in front of selects, and the messages of a connection, with the prepared
  statements and portals of the extended protocol.
\<close>

section \<open>Joins\<close>

record join_record =
  jrRecord :: krecord
  jrSegmentKey :: string

fun loadRecords :: "query_env \<Rightarrow> string \<Rightarrow> nat \<Rightarrow> sql_ref list \<Rightarrow> (join_record list \<times> int) outcome" where
  "loadRecords E topic n [] = Ok ([], 0)"
| "loadRecords E topic n (s # segs) =
     (if evDone E n then Err ErrContext
      else if sgTopic s \<noteq> topic then loadRecords E topic (Suc n) segs
      else
        bindO (evDecode E (sgSegmentKey s) (sgIndexKey s) (sgTopic s) (sgPartition s)) (\<lambda>records.
        bindO (loadRecords E topic (Suc n) segs) (\<lambda>(rest, bytes).
        Ok (map (\<lambda>r. \<lparr>jrRecord = r, jrSegmentKey = sgSegmentKey s\<rparr>) records @ rest,
            sum_list (map (\<lambda>r. slice_len (rcKey r) + slice_len (rcValue r)) records) + bytes))))"

definition joinKeyFromExpr :: "'f sql_lib \<Rightarrow> krecord \<Rightarrow> join_expr \<Rightarrow> string" where
  "joinKeyFromExpr L r expr =
     (case jeKind expr of
        JoinExprJSON \<Rightarrow> (case jsonLookup L (rcValue r) (jeJSONPath expr) of None \<Rightarrow> [] | Some v \<Rightarrow> lbSprint L v)
      | JoinExprKey \<Rightarrow> text_of (rcKey r))"

definition groupByJoinKey :: "'f sql_lib \<Rightarrow> join_record list \<Rightarrow> join_expr \<Rightarrow> (string \<times> join_record list) list" where
  "groupByJoinKey L records expr =
     foldl (\<lambda>out r.
       let key = joinKeyFromExpr L (jrRecord r) expr in
       if key = [] then out
       else AList.update key ((case map_of out key of None \<Rightarrow> [] | Some rs \<Rightarrow> rs) @ [r]) out) [] records"

text \<open>The difference and its product wrap.\<close>

definition withinWindow :: "int \<Rightarrow> int \<Rightarrow> duration \<Rightarrow> bool" where
  "withinWindow left right window =
     (let diff = i64 (left - right); diff = (if diff < 0 then i64 (- diff) else diff) in i64 (diff * millisecond) \<le> window)"

definition normalizeJoinCondition :: "join_condition \<Rightarrow> join_condition" where
  "normalizeJoinCondition cond =
     (let left = (jcLeft cond)\<lparr>jeSide := (if jeSide (jcLeft cond) = [] then ''left'' else jeSide (jcLeft cond))\<rparr>;
          right = (jcRight cond)\<lparr>jeSide := (if jeSide (jcRight cond) = [] then ''right'' else jeSide (jcRight cond))\<rparr> in
      if jeSide left = ''right'' \<and> jeSide right = ''left'' then \<lparr>jcLeft = right, jcRight = left\<rparr>
      else \<lparr>jcLeft = left, jcRight = right\<rparr>)"

definition joinSideFromSource :: "query \<Rightarrow> string \<Rightarrow> string" where
  "joinSideFromSource parsed source =
     (if source = [] \<or> source = qTopicAlias parsed \<or> source = qTopic parsed then ''left''
      else if source = qJoinAlias parsed \<or> source = qJoinTopic parsed then ''right''
      else ''left'')"

definition joinOutputName :: "string \<Rightarrow> string \<Rightarrow> string" where
  "joinOutputName side name =
     (if side \<noteq> ''right'' then name else if HasPrefix name ''_'' then ''_right'' @ name else ''_right_'' @ name)"

definition joinDefaultColumns :: "resolved_column list" where
  "joinDefaultColumns =
     map (\<lambda>name. (implicit_column name)\<lparr>clSource := ''left''\<rparr>) implicit_names @
     map (\<lambda>name. (implicit_column name)\<lparr>clSource := ''right'', clName := ''_right'' @ name\<rparr>) implicit_names"

definition resolve_join_one :: "sql_config \<Rightarrow> query \<Rightarrow> select_column \<Rightarrow> resolved_column outcome" where
  "resolve_join_one cfg parsed sel =
     (let side = joinSideFromSource parsed (slSource sel);
          schemaMap = schemaColumnMapForTopic cfg (if side = ''right'' then qJoinTopic parsed else qTopic parsed);
          json = (\<lambda>kind name. (json_column kind (alias_or (joinOutputName side name) sel) (slJSONPath sel))\<lparr>clSource := side\<rparr>) in
      case slKind sel of
        SelectColumnStar \<Rightarrow> Err (ErrText ''select * cannot be combined with other columns in join'')
      | SelectColumnAggregate \<Rightarrow> Err (ErrText ''join does not support aggregates'')
      | SelectColumnField \<Rightarrow>
          bindO (resolveColumnByName (slColumn sel) schemaMap) (\<lambda>col.
            Ok (col\<lparr>clSource := side, clName := alias_or (joinOutputName side (clName col)) sel\<rparr>))
      | SelectColumnJSONValue \<Rightarrow> Ok (json columnJSONValue ''json_value'')
      | SelectColumnJSONQuery \<Rightarrow> Ok (json columnJSONQuery ''json_query'')
      | SelectColumnJSONExists \<Rightarrow> Ok (json columnJSONExists ''json_exists'')
      | SelectColumnUnknown \<Rightarrow> Err (ErrText ''unsupported join select column''))"

definition resolveJoinColumns :: "sql_config \<Rightarrow> query \<Rightarrow> resolved_column list outcome" where
  "resolveJoinColumns cfg parsed =
     (if qSelect parsed = [] then Ok joinDefaultColumns
      else if length (qSelect parsed) = 1 \<and> slKind (hd (qSelect parsed)) = SelectColumnStar then Ok joinDefaultColumns
      else mapO (resolve_join_one cfg parsed) (qSelect parsed))"

definition join_context :: "join_record \<Rightarrow> join_record option \<Rightarrow> row_context" where
  "join_context left right =
     \<lparr>rxLeft = jrRecord left, rxRight = map_option jrRecord right, rxLeftSeg = jrSegmentKey left,
      rxRightSeg = (case right of None \<Rightarrow> [] | Some r \<Rightarrow> jrSegmentKey r)\<rparr>"

text \<open>A row is sent; \<open>True\<close> when the limit is reached and the query ends.\<close>

definition send_join_row :: "'f sql_lib \<Rightarrow> query_env \<Rightarrow> resolved_column list \<Rightarrow> int \<Rightarrow> row_context \<Rightarrow> int \<Rightarrow> (int \<times> bool) qact" where
  "send_join_row L E cols lim ctx sent =
     qbind (qsend E (DataRow (buildRowValues L cols ctx))) (\<lambda>_.
       let sent = sent + 1 in
       if sent \<ge> lim then qbind (qignore (qsend E (CommandComplete (commandTag sent)))) (\<lambda>_. qret (sent, True))
       else qret (sent, False))"

fun join_candidates ::
  "'f sql_lib \<Rightarrow> query_env \<Rightarrow> resolved_column list \<Rightarrow> int \<Rightarrow> duration \<Rightarrow> join_record \<Rightarrow> join_record list \<Rightarrow> int \<Rightarrow> bool \<Rightarrow> (int \<times> bool \<times> bool) qact" where
  "join_candidates L E cols lim within left [] sent matched = qret (sent, matched, False)"
| "join_candidates L E cols lim within left (right # rest) sent matched =
     (if \<not> withinWindow (rcTimestamp (jrRecord left)) (rcTimestamp (jrRecord right)) within
      then join_candidates L E cols lim within left rest sent matched
      else
        qbind (send_join_row L E cols lim (join_context left (Some right)) sent) (\<lambda>(sent, full).
          if full then qret (sent, True, True) else join_candidates L E cols lim within left rest sent True))"

text \<open>One record of the left side. Without a key the limit is tested again although no row may have been sent.\<close>

definition join_left ::
  "'f sql_lib \<Rightarrow> query_env \<Rightarrow> query \<Rightarrow> resolved_column list \<Rightarrow> int \<Rightarrow> duration \<Rightarrow> join_condition \<Rightarrow> (string \<times> join_record list) list \<Rightarrow>
   join_record \<Rightarrow> int \<Rightarrow> (int \<times> bool) qact" where
  "join_left L E parsed cols lim within on rightByKey left sent =
     (let key = joinKeyFromExpr L (jrRecord left) (jcLeft on) in
      if key = [] then
        qbind (if qJoinType parsed = ''left'' then
                 qbind (qsend E (DataRow (buildRowValues L cols (join_context left None)))) (\<lambda>_. qret (sent + 1))
               else qret sent) (\<lambda>sent.
          if sent \<ge> lim then qbind (qignore (qsend E (CommandComplete (commandTag sent)))) (\<lambda>_. qret (sent, True))
          else qret (sent, False))
      else
        qbind (join_candidates L E cols lim within left (case map_of rightByKey key of None \<Rightarrow> [] | Some rs \<Rightarrow> rs) sent False)
          (\<lambda>(sent, matched, full).
            if full then qret (sent, True)
            else if \<not> matched \<and> qJoinType parsed = ''left'' then send_join_row L E cols lim (join_context left None) sent
            else qret (sent, False)))"

fun join_loop ::
  "'f sql_lib \<Rightarrow> query_env \<Rightarrow> query \<Rightarrow> resolved_column list \<Rightarrow> int \<Rightarrow> duration \<Rightarrow> join_condition \<Rightarrow> (string \<times> join_record list) list \<Rightarrow>
   int \<Rightarrow> nat \<Rightarrow> join_record list \<Rightarrow> int \<Rightarrow> (int \<times> bool) qact" where
  "join_loop L E parsed cols lim within on rightByKey start n [] sent = qret (sent, False)"
| "join_loop L E parsed cols lim within on rightByKey start n (left # lefts) sent =
     (if evDone E n then qlift (Err ErrContext)
      else if rcTimestamp (jrRecord left) < start then join_loop L E parsed cols lim within on rightByKey start (Suc n) lefts sent
      else
        qbind (join_left L E parsed cols lim within on rightByKey left sent) (\<lambda>(sent, full).
          if full then qret (sent, True) else join_loop L E parsed cols lim within on rightByKey start (Suc n) lefts sent))"

definition join_limit :: "sql_config \<Rightarrow> query \<Rightarrow> int outcome" where
  "join_limit cfg parsed =
     bindO (if qLimit parsed \<noteq> [] then parseLimit (qLimit parsed) else Ok (scDefaultLimit cfg)) (\<lambda>lim.
     let lim = (if lim \<le> 0 then scDefaultLimit cfg else lim) in
     if scMaxRows cfg > 0 \<and> lim > scMaxRows cfg then Err (ErrText ''limit exceeds max_rows'') else Ok lim)"

definition join_refused :: "query \<Rightarrow> string option" where
  "join_refused parsed =
     (if qTopic parsed = [] \<or> qJoinTopic parsed = [] then Some ''join requires two topics''
      else if qTail parsed \<noteq> [] then Some ''join does not support tail''
      else if qScanFull parsed then Some ''join does not support scan full''
      else if qTimeWindow parsed = [] \<or> qLast parsed = [] then Some ''join requires within <duration> and last <duration>''
      else if qPartition parsed \<noteq> None \<or> qOffsetMin parsed \<noteq> None \<or> qOffsetMax parsed \<noteq> None
        then Some ''join does not support partition or offset filters''
      else if hasAggregates (qSelect parsed) then Some ''join does not support aggregates''
      else None)"

definition right_query :: "query \<Rightarrow> query" where
  "right_query parsed = parsed\<lparr>qTopic := qJoinTopic parsed, qPartition := None, qOffsetMin := None, qOffsetMax := None\<rparr>"

definition handleJoinSelect :: "'f sql_lib \<Rightarrow> sql_config \<Rightarrow> query_env \<Rightarrow> query \<Rightarrow> query_result qact" where
  "handleJoinSelect L cfg E parsed =
     (case join_refused parsed of
        Some msg \<Rightarrow> qfail msg
      | None \<Rightarrow>
          qbind (qlift (parseDuration L (qTimeWindow parsed))) (\<lambda>within.
          qbind (qlift (parseDuration L (qLast parsed))) (\<lambda>last_window.
          qbind (qlift (join_limit cfg parsed)) (\<lambda>lim.
          let on = normalizeJoinCondition
                (case qJoinOn parsed of None \<Rightarrow> \<lparr>jcLeft = key_expr ''left'', jcRight = key_expr ''right''\<rparr> | Some c \<Rightarrow> c) in
          qbind (qlift (resolveJoinColumns cfg parsed)) (\<lambda>cols.
          qbind (qsend E (RowDescription (buildRowDescription cols))) (\<lambda>_.
          qbind (qlift (evLister E)) (\<lambda>_.
          qbind (qlift (evDecoder E)) (\<lambda>_.
          qbind (qlift (evList E)) (\<lambda>segments.
          qbind (qlift (time_bounds L (evClock E 1) parsed)) (\<lambda>(timeMin, timeMax).
          if window_invalid timeMin timeMax then qfail ''time window is invalid''
          else
            let leftSegments = filterSegments (parsed\<lparr>qJoinTopic := []\<rparr>) segments timeMin timeMax;
                rightSegments = filterSegments (right_query parsed) segments None None;
                scanned = length leftSegments + length rightSegments in
            qbind (qlift (enforceScanLimits cfg (int scanned) (i64 (estimateBytes leftSegments + estimateBytes rightSegments)))) (\<lambda>_.
            qbind (qlift (loadRecords E (qTopic parsed) 0 leftSegments)) (\<lambda>(leftRecords, leftBytes).
            qbind (qlift (loadRecords E (qJoinTopic parsed) (length leftSegments) rightSegments)) (\<lambda>(rightRecords, rightBytes).
            let start = unixMilli (evClock E 0 + i64 (- last_window)) in
            qbind (join_loop L E parsed cols lim within on (groupByJoinKey L rightRecords (jcRight on)) start scanned leftRecords 0)
              (\<lambda>(sent, full).
            let res = scan_result sent scanned (leftBytes + rightBytes) in
            if full then qret res
            else qbind (qignore (qsend E (CommandComplete (commandTag sent)))) (\<lambda>_. qret res)))))))))))))))"

section \<open>Selects\<close>

definition handleSelect :: "'f sql_lib \<Rightarrow> sql_config \<Rightarrow> query_env \<Rightarrow> query \<Rightarrow> query_result qact" where
  "handleSelect L cfg E parsed =
     (if qJoinTopic parsed \<noteq> [] then handleJoinSelect L cfg E parsed
      else if qTopic parsed = [] then qfail ''select requires a topic''
      else if unbounded cfg parsed then qfail ''unbounded query: add LAST, TAIL, or SCAN FULL''
      else
        qbind (qlift (select_limit cfg parsed)) (\<lambda>(lim, tailCount).
        qbind (qlift (evLister E)) (\<lambda>_.
        qbind (qlift (evDecoder E)) (\<lambda>_.
        qbind (qlift (evList E)) (\<lambda>segments.
        qbind (qlift (time_bounds L (evClock E 0) parsed)) (\<lambda>(timeMin, timeMax).
        if window_invalid timeMin timeMax then qfail ''time window is invalid''
        else
          let candidates = filterSegments parsed segments timeMin timeMax in
          qbind (qlift (enforceScanLimits cfg (int (length candidates)) (estimateBytes candidates))) (\<lambda>_.
          if hasAggregates (qSelect parsed) then
            (if qOrderBy parsed \<noteq> [] then qfail ''order by not supported with aggregates''
             else if qTail parsed \<noteq> [] then qfail ''tail not supported with aggregates''
             else handleAggregateSelect L cfg E parsed candidates timeMin timeMax lim)
          else plain_select L cfg E parsed candidates timeMin timeMax lim tailCount)))))))"

section \<open>Explain\<close>

text \<open>\<open>fmt.Sprintf("%.2f", a / b)\<close> for a power of two \<open>b\<close> and \<open>a\<close> below \<open>2 ^ 53\<close>: the exact quotient, half to even.\<close>

definition fmt_2f :: "int \<Rightarrow> int \<Rightarrow> string" where
  "fmt_2f a b =
     (let n = a * 100 div b; r = a * 100 mod b; n = (if 2 * r > b \<or> (2 * r = b \<and> odd n) then n + 1 else n) in
      fmt_d (n div 100) @ ''.'' @ pad 2 (n mod 100))"

definition formatBytes :: "int \<Rightarrow> string" where
  "formatBytes v =
     (if v \<ge> 1024 * 1024 * 1024 then fmt_2f v (1024 * 1024 * 1024) @ '' GB''
      else if v \<ge> 1024 * 1024 then fmt_2f v (1024 * 1024) @ '' MB''
      else if v \<ge> 1024 then fmt_2f v 1024 @ '' KB''
      else fmt_d v @ '' B'')"

definition upper_char :: "char \<Rightarrow> char" where
  "upper_char c = (let n = (of_char c :: nat) in if 97 \<le> n \<and> n \<le> 122 then char_of (n - 32) else c)"

definition explainSelect :: "query \<Rightarrow> sql_ref list \<Rightarrow> int option \<Rightarrow> int option \<Rightarrow> string list" where
  "explainSelect parsed segments timeMin timeMax =
     (let candidates = filterSegments parsed segments timeMin timeMax in
      [''Query Plan'', ''  Scan: '' @ qTopic parsed, ''  Segments: '' @ fmt_d (int (length candidates)),
       ''  Estimated bytes: '' @ formatBytes (estimateBytes candidates)])"

definition explainJoin :: "query \<Rightarrow> sql_ref list \<Rightarrow> int option \<Rightarrow> int option \<Rightarrow> string list" where
  "explainJoin parsed segments timeMin timeMax =
     (let leftSegments = filterSegments (parsed\<lparr>qJoinTopic := []\<rparr>) segments timeMin timeMax;
          rightSegments = filterSegments (right_query parsed) segments None None in
      [''Query Plan'', ''  Join: '' @ qTopic parsed @ '' '' @ map upper_char (qJoinType parsed) @ '' '' @ qJoinTopic parsed,
       ''  Left segments: '' @ fmt_d (int (length leftSegments)), ''  Right segments: '' @ fmt_d (int (length rightSegments)),
       ''  Estimated bytes: '' @ formatBytes (i64 (estimateBytes leftSegments + estimateBytes rightSegments))])"

definition explainQuery :: "'f sql_lib \<Rightarrow> sql_config \<Rightarrow> query_env \<Rightarrow> query \<Rightarrow> string list outcome" where
  "explainQuery L cfg E parsed =
     (if qType parsed \<noteq> QuerySelect then Err (ErrText ''explain supports select only'')
      else if qTopic parsed = [] then Err (ErrText ''select requires a topic'')
      else if unbounded cfg parsed then Err (ErrText ''unbounded query: add LAST, TAIL, or SCAN FULL'')
      else
        bindO (evLister E) (\<lambda>_.
        bindO (evList E) (\<lambda>segments.
        bindO (time_bounds L (evClock E 0) parsed) (\<lambda>(timeMin, timeMax).
        Ok (if qJoinTopic parsed \<noteq> [] then explainJoin parsed segments timeMin timeMax
            else explainSelect parsed segments timeMin timeMax)))))"

definition handleExplain :: "'f sql_lib \<Rightarrow> sql_config \<Rightarrow> query_env \<Rightarrow> explain_query \<Rightarrow> int qact" where
  "handleExplain L cfg E parsed =
     (case qExplain parsed of
        None \<Rightarrow> qfail ''explain requires query''
      | Some inner \<Rightarrow>
          qbind (qlift (explainQuery L cfg E inner)) (\<lambda>lines.
            send_table E [text_field ''plan''] (map (\<lambda>line. [Some line]) lines)))"

section \<open>Topics and the catalog\<close>

definition handleShowTopics :: "query_env \<Rightarrow> int qact" where
  "handleShowTopics E = qbind (qlift (evTopics E)) (\<lambda>topics. send_table E [text_field ''topic''] (map (\<lambda>t. [Some t]) topics))"

definition handleShowPartitions :: "query_env \<Rightarrow> string \<Rightarrow> int qact" where
  "handleShowPartitions E topic =
     (if topic = [] then qfail ''show partitions requires a topic''
      else qbind (qlift (evPartitions E topic)) (\<lambda>parts.
        send_table E [\<lparr>fdName = ''partition'', fdOID = 23, fdSize = 4\<rparr>] (map (\<lambda>p. [Some (itoa p)]) parts)))"

definition schemaTypeName :: "string \<Rightarrow> string" where
  "schemaTypeName v =
     (let t = ToLower v in
      if t = ''int'' then ''integer'' else if t = ''long'' then ''bigint'' else if t = ''double'' then ''double precision''
      else if t = ''boolean'' then ''boolean'' else if t = ''timestamp'' then ''timestamp without time zone'' else ''text'')"

definition columnsForTopic :: "sql_config \<Rightarrow> string \<Rightarrow> (string \<times> string) list" where
  "columnsForTopic cfg topic =
     [(''_topic'', ''text''), (''_partition'', ''integer''), (''_offset'', ''bigint''), (''_ts'', ''timestamp without time zone''),
      (''_key'', ''bytea''), (''_value'', ''bytea''), (''_headers'', ''jsonb''), (''_segment'', ''text'')] @
     map (\<lambda>col. (ToLower (smName col), schemaTypeName (smType col))) (schemaColumnsForTopic cfg topic)"

definition handleDescribeTopic :: "sql_config \<Rightarrow> query_env \<Rightarrow> string \<Rightarrow> int qact" where
  "handleDescribeTopic cfg E topic =
     (if topic = [] then qfail ''describe requires a topic''
      else send_table E (map text_field [''column'', ''type'', ''path''])
        (map (\<lambda>(name, typ). [Some name, Some typ, None]) (take 8 (columnsForTopic cfg topic)) @
         map (\<lambda>col. [Some (ToLower (smName col)), Some (schemaTypeName (smType col)), Some (smPath col)]) (schemaColumnsForTopic cfg topic)))"

definition topicTables :: "query_env \<Rightarrow> string list outcome" where
  "topicTables E = bindO (evTopics E) (\<lambda>topics. Ok (sort topics))"

definition int_field :: "string \<Rightarrow> field_description" where
  "int_field name = \<lparr>fdName = name, fdOID = 23, fdSize = 4\<rparr>"

definition bool_field :: "string \<Rightarrow> field_description" where
  "bool_field name = \<lparr>fdName = name, fdOID = 16, fdSize = 1\<rparr>"

definition catalogTables :: "query_env \<Rightarrow> int qact" where
  "catalogTables E =
     qbind (qlift (topicTables E)) (\<lambda>tables.
       send_table E (map text_field [''table_catalog'', ''table_schema'', ''table_name'', ''table_type''])
         (map (\<lambda>t. [Some ''kafsql'', Some ''public'', Some t, Some ''BASE TABLE'']) tables))"

definition catalogColumns :: "sql_config \<Rightarrow> query_env \<Rightarrow> int qact" where
  "catalogColumns cfg E =
     qbind (qlift (topicTables E)) (\<lambda>tables.
       send_table E (map text_field [''table_catalog'', ''table_schema'', ''table_name'', ''column_name''] @
           [int_field ''ordinal_position'', text_field ''data_type''])
         (concat (map (\<lambda>t. map (\<lambda>(i, name, typ). [Some ''kafsql'', Some ''public'', Some t, Some name, Some (itoa (int i + 1)), Some typ])
            (zip [0..<length (columnsForTopic cfg t)] (columnsForTopic cfg t))) tables)))"

definition catalogPgTables :: "query_env \<Rightarrow> int qact" where
  "catalogPgTables E =
     qbind (qlift (topicTables E)) (\<lambda>tables.
       send_table E (map text_field [''schemaname'', ''tablename'', ''tableowner'', ''tablespace''] @
           map bool_field [''hasindexes'', ''hasrules'', ''hastriggers'', ''rowsecurity''])
         (map (\<lambda>t. [Some ''public'', Some t, Some ''kafsql'', None, Some ''f'', Some ''f'', Some ''f'', Some ''f'']) tables))"

definition catalogPgNamespace :: "query_env \<Rightarrow> int qact" where
  "catalogPgNamespace E =
     send_table E [int_field ''oid'', text_field ''nspname'']
       [[Some ''1'', Some ''pg_catalog''], [Some ''2'', Some ''public''], [Some ''3'', Some ''information_schema'']]"

definition catalogPgType :: "query_env \<Rightarrow> int qact" where
  "catalogPgType E =
     send_table E [int_field ''oid'', text_field ''typname'']
       [[Some ''16'', Some ''bool''], [Some ''17'', Some ''bytea''], [Some ''20'', Some ''int8''], [Some ''23'', Some ''int4''],
        [Some ''25'', Some ''text''], [Some ''701'', Some ''float8''], [Some ''1114'', Some ''timestamp''], [Some ''3802'', Some ''jsonb'']]"

definition catalogPgDatabase :: "query_env \<Rightarrow> int qact" where
  "catalogPgDatabase E =
     send_table E [int_field ''oid'', text_field ''datname'', bool_field ''datistemplate'', bool_field ''datallowconn'']
       [[Some ''1'', Some ''kafsql'', Some ''f'', Some ''t'']]"

definition catalogPgClass :: "query_env \<Rightarrow> int qact" where
  "catalogPgClass E =
     qbind (qlift (topicTables E)) (\<lambda>tables.
       send_table E [int_field ''oid'', text_field ''relname'', \<lparr>fdName = ''relkind'', fdOID = 18, fdSize = 1\<rparr>, int_field ''relnamespace'']
         (map (\<lambda>(i, t). [Some (itoa (1000 + int i)), Some t, Some ''r'', Some ''2'']) (zip [0..<length tables] tables)))"

text \<open>\<open>strings.Contains\<close>\<close>

fun Contains :: "string \<Rightarrow> string \<Rightarrow> bool" where
  "Contains s x = (HasPrefix s x \<or> (case s of [] \<Rightarrow> False | _ # cs \<Rightarrow> Contains cs x))"

text \<open>\<open>None\<close> when the query is not one about the catalog.\<close>

definition handleCatalogQuery :: "sql_config \<Rightarrow> query_env \<Rightarrow> string \<Rightarrow> int qact option" where
  "handleCatalogQuery cfg E q =
     (let trimmed = TrimSpace q; lower = ToLower (TrimSuffix trimmed '';'') in
      if trimmed = [] then None
      else if \<not> Contains lower ''pg_catalog'' \<and> \<not> Contains lower ''information_schema'' then None
      else Some
        (if Contains lower ''information_schema.tables'' then catalogTables E
         else if Contains lower ''information_schema.columns'' then catalogColumns cfg E
         else if Contains lower ''pg_catalog.pg_tables'' then catalogPgTables E
         else if Contains lower ''pg_catalog.pg_namespace'' then catalogPgNamespace E
         else if Contains lower ''pg_catalog.pg_type'' then catalogPgType E
         else if Contains lower ''pg_catalog.pg_database'' then catalogPgDatabase E
         else if Contains lower ''pg_catalog.pg_class'' then catalogPgClass E
         else qfail ''unsupported catalog query''))"

definition handleSetCommand :: "query_env \<Rightarrow> string \<Rightarrow> unit qact option" where
  "handleSetCommand E q =
     (let lower = ToLower (TrimSpace q) in
      if HasPrefix lower ''set '' then Some (Send E (CommandComplete ''SET''))
      else if HasPrefix lower ''reset '' then Some (Send E (CommandComplete ''RESET''))
      else None)"

definition executeQuery :: "'f sql_lib \<Rightarrow> sql_config \<Rightarrow> query_env \<Rightarrow> explain_query \<Rightarrow> unit qact" where
  "executeQuery L cfg E parsed =
     (case qType parsed of
        QueryShowTopics \<Rightarrow> qbind (handleShowTopics E) (\<lambda>_. qret ())
      | QueryShowPartitions \<Rightarrow> qbind (handleShowPartitions E (qTopic parsed)) (\<lambda>_. qret ())
      | QueryDescribe \<Rightarrow> qbind (handleDescribeTopic cfg E (qTopic parsed)) (\<lambda>_. qret ())
      | QuerySelect \<Rightarrow> qbind (handleSelect L cfg E (query.truncate parsed)) (\<lambda>_. qret ())
      | QueryExplain \<Rightarrow> qbind (handleExplain L cfg E parsed) (\<lambda>_. qret ())
      | QueryUnknown \<Rightarrow> qfail ''KAFSQL query execution not implemented'')"

section \<open>The result cache\<close>

definition query_cacheKey :: "query \<Rightarrow> string \<Rightarrow> string option" where
  "query_cacheKey parsed q =
     (if qTail parsed \<noteq> [] \<or> qScanFull parsed then None
      else if qLast parsed \<noteq> [] then Some (cacheKey q (''last='' @ qLast parsed))
      else
        (case (qTsMin parsed, qTsMax parsed) of
           (Some lo, Some hi) \<Rightarrow> Some (cacheKey q (''ts='' @ fmt_d lo @ ''-'' @ fmt_d hi))
         | _ \<Rightarrow> None))"

definition sendCached :: "query_env \<Rightarrow> result_entry \<Rightarrow> unit qact" where
  "sendCached E e =
     qbind (Send E (RowDescription (reFields e))) (\<lambda>_.
     qbind (qsend_rows (Send E) (reRows e)) (\<lambda>_.
     Send E (CommandComplete (if reTag e = [] then commandTag (reRowsCount e) else reTag e))))"

text \<open>The cache is read at the clock reading 2 and an entry is created at the reading 3.\<close>

definition handleSelectWithCache ::
  "'f sql_lib \<Rightarrow> sql_config \<Rightarrow> query_env \<Rightarrow> query \<Rightarrow> string \<Rightarrow> result_cache option \<Rightarrow> backend \<Rightarrow> query_result outcome \<times> backend \<times> result_cache option" where
  "handleSelectWithCache L cfg E parsed q cache b =
     (case (query_cacheKey parsed q, cache) of
        (Some key, Some c) \<Rightarrow>
          (case rsGet (evClock E 2) key c of
             (Some e, c) \<Rightarrow>
               (case sendCached E e b of
                  (Ok _, b) \<Rightarrow> (Ok \<lparr>qrRows = reRowsCount e, qrSegments = reSegments e, qrBytes = reBytes e\<rparr>, b, Some c)
                | (Err err, b) \<Rightarrow> (Err err, b, Some c)
                | (Panic, b) \<Rightarrow> (Panic, b, Some c))
           | (None, c) \<Rightarrow>
               (case handleSelect L cfg E parsed (b\<lparr>bkCollector := Some (newRowCollector (scCacheMaxRows cfg))\<rparr>) of
                  (Ok res, b) \<Rightarrow>
                    (Ok res, b\<lparr>bkCollector := None\<rparr>,
                     Some (case collector_entry (evClock E 3) (the (bkCollector b)) of
                             None \<Rightarrow> c
                           | Some e \<Rightarrow> rsSet key (e\<lparr>reSegments := qrSegments res, reBytes := qrBytes res\<rparr>) c))
                | (r, b) \<Rightarrow> (r, b\<lparr>bkCollector := None\<rparr>, Some c)))
      | _ \<Rightarrow> (case handleSelect L cfg E parsed b of (r, b) \<Rightarrow> (r, b, cache)))"

section \<open>Connections\<close>

record prepared_statement =
  psQuery :: string
  psParsed :: explain_query

record conn_state =
  cnStatements :: "(string \<times> prepared_statement) list"
  cnPortals :: "(string \<times> string) list"
  cnFailed :: bool

text \<open>\<open>\$\d+\<close>\<close>

definition hasParameters :: "string \<Rightarrow> bool" where
  "hasParameters q \<longleftrightarrow>
     find_match (\<lambda>_ s. case s of c # d # _ \<Rightarrow> if c = CHR ''$'' \<and> re_digit d then Some () else None | _ \<Rightarrow> None) None q 0 \<noteq> None"

text \<open>The text of an error, by its constant part.\<close>

fun error_text :: "go_error \<Rightarrow> string" where
  "error_text (ErrText s) = s"
| "error_text (ErrWrap s e) = s @ '': '' @ error_text e"
| "error_text ErrContext = ''context canceled''"
| "error_text _ = ''error''"

text \<open>Sending the error response is the result: it is nil when the response could be sent.\<close>

definition sendErrorResponse :: "query_env \<Rightarrow> string \<Rightarrow> unit qact" where
  "sendErrorResponse E msg = Send E (ErrorResponse msg)"

definition lookupStatement :: "conn_state \<Rightarrow> char \<Rightarrow> string \<Rightarrow> prepared_statement option" where
  "lookupStatement st objectType name =
     (if objectType = CHR ''S'' then map_of (cnStatements st) name
      else if objectType = CHR ''P'' then (case map_of (cnPortals st) name of None \<Rightarrow> None | Some stmt \<Rightarrow> map_of (cnStatements st) stmt)
      else None)"

definition describeFields :: "sql_config \<Rightarrow> explain_query \<Rightarrow> field_description list outcome" where
  "describeFields cfg parsed =
     (case qType parsed of
        QueryShowTopics \<Rightarrow> Ok [text_field ''topic'']
      | QueryShowPartitions \<Rightarrow> Ok [\<lparr>fdName = ''partition'', fdOID = 23, fdSize = - 1\<rparr>]
      | QueryExplain \<Rightarrow> Ok [text_field ''QUERY PLAN'']
      | QueryDescribe \<Rightarrow> Ok (map text_field [''column'', ''type'', ''path''])
      | QuerySelect \<Rightarrow>
          let q = query.truncate parsed in
          if qJoinTopic q \<noteq> [] then bindO (resolveJoinColumns cfg q) (\<lambda>cols. Ok (buildRowDescription cols))
          else if hasAggregates (qSelect q) then bindO (buildAggregatePlan cfg q) (\<lambda>plan. Ok (map output_field (apOutputs plan)))
          else bindO (resolveSelectColumns cfg (qTopic q) (qSelect q)) (\<lambda>cols. Ok (buildRowDescription cols))
      | QueryUnknown \<Rightarrow> Err (ErrText ''unsupported statement for describe''))"

record session =
  seConn :: conn_state
  seCache :: "result_cache option"
  seBackend :: backend

definition on_backend :: "'a qact \<Rightarrow> session \<Rightarrow> 'a outcome \<times> session" where
  "on_backend m s = (case m (seBackend s) of (r, b) \<Rightarrow> (r, s\<lparr>seBackend := b\<rparr>))"

definition handleParse :: "'f sql_lib \<Rightarrow> query_env \<Rightarrow> string \<Rightarrow> string \<Rightarrow> session \<Rightarrow> unit outcome \<times> session" where
  "handleParse L E name text s =
     (let q = TrimSpace text in
      if q = [] then on_backend (sendErrorResponse E ''empty query'') s
      else if hasParameters q then on_backend (sendErrorResponse E ''parameters are not supported'') s
      else
        (case Parse (lbParseTime L) q of
           Ok parsed \<Rightarrow>
             on_backend (Send E ParseComplete)
               (s\<lparr>seConn := (seConn s)\<lparr>cnStatements := AList.update name \<lparr>psQuery = q, psParsed = parsed\<rparr> (cnStatements (seConn s))\<rparr>\<rparr>)
         | Err e \<Rightarrow> on_backend (sendErrorResponse E (error_text e)) s
         | Panic \<Rightarrow> (Panic, s)))"

definition handleBind :: "query_env \<Rightarrow> string \<Rightarrow> string \<Rightarrow> nat \<Rightarrow> session \<Rightarrow> unit outcome \<times> session" where
  "handleBind E portal stmt params s =
     (if map_of (cnStatements (seConn s)) stmt = None then on_backend (sendErrorResponse E ''unknown prepared statement'') s
      else if params > 0 then on_backend (sendErrorResponse E ''bind parameters are not supported'') s
      else on_backend (Send E BindComplete)
             (s\<lparr>seConn := (seConn s)\<lparr>cnPortals := AList.update portal stmt (cnPortals (seConn s))\<rparr>\<rparr>))"

definition handleDescribe :: "sql_config \<Rightarrow> query_env \<Rightarrow> char \<Rightarrow> string \<Rightarrow> session \<Rightarrow> unit outcome \<times> session" where
  "handleDescribe cfg E objectType name s =
     (case lookupStatement (seConn s) objectType name of
        None \<Rightarrow> on_backend (sendErrorResponse E ''unknown prepared statement'') s
      | Some stmt \<Rightarrow>
          on_backend (qbind (Send E ParameterDescription) (\<lambda>_.
            case describeFields cfg (psParsed stmt) of
              Err e \<Rightarrow> sendErrorResponse E (error_text e)
            | Panic \<Rightarrow> qlift Panic
            | Ok fds \<Rightarrow> Send E (if fds = [] then NoData else RowDescription fds))) s)"

definition run_parsed :: "'f sql_lib \<Rightarrow> sql_config \<Rightarrow> query_env \<Rightarrow> explain_query \<Rightarrow> string \<Rightarrow> session \<Rightarrow> unit outcome \<times> session" where
  "run_parsed L cfg E parsed q s =
     (if qType parsed = QuerySelect then
        (case handleSelectWithCache L cfg E (query.truncate parsed) q (seCache s) (seBackend s) of
           (r, b, cache) \<Rightarrow> (bindO r (\<lambda>_. Ok ()), s\<lparr>seBackend := b, seCache := cache\<rparr>))
      else on_backend (executeQuery L cfg E parsed) s)"

definition handlePreparedQuery :: "'f sql_lib \<Rightarrow> sql_config \<Rightarrow> query_env \<Rightarrow> prepared_statement \<Rightarrow> session \<Rightarrow> unit outcome \<times> session" where
  "handlePreparedQuery L cfg E stmt s =
     (case evAcquire E of
        Ok _ \<Rightarrow>
          (case handleSetCommand E (psQuery stmt) of
             Some m \<Rightarrow> on_backend m s
           | None \<Rightarrow> run_parsed L cfg E (psParsed stmt) (psQuery stmt) s)
      | r \<Rightarrow> (r, s))"

definition handleExecute :: "'f sql_lib \<Rightarrow> sql_config \<Rightarrow> query_env \<Rightarrow> string \<Rightarrow> session \<Rightarrow> unit outcome \<times> session" where
  "handleExecute L cfg E portal s =
     (case lookupStatement (seConn s) CHR ''P'' portal of
        None \<Rightarrow> on_backend (sendErrorResponse E ''unknown portal'') s
      | Some stmt \<Rightarrow>
          (case handlePreparedQuery L cfg E stmt s of
             (Ok _, s) \<Rightarrow> (Ok (), s)
           | (Err e, s) \<Rightarrow> on_backend (sendErrorResponse E (error_text e)) s
           | (Panic, s) \<Rightarrow> (Panic, s)))"

definition handleClose :: "query_env \<Rightarrow> char \<Rightarrow> string \<Rightarrow> session \<Rightarrow> unit outcome \<times> session" where
  "handleClose E objectType name s =
     (if objectType = CHR ''S'' then
        on_backend (Send E CloseComplete) (s\<lparr>seConn := (seConn s)\<lparr>cnStatements := AList.delete name (cnStatements (seConn s))\<rparr>\<rparr>)
      else if objectType = CHR ''P'' then
        on_backend (Send E CloseComplete) (s\<lparr>seConn := (seConn s)\<lparr>cnPortals := AList.delete name (cnPortals (seConn s))\<rparr>\<rparr>)
      else on_backend (sendErrorResponse E ''unsupported close target'') s)"

definition handleQuery :: "'f sql_lib \<Rightarrow> sql_config \<Rightarrow> query_env \<Rightarrow> string \<Rightarrow> session \<Rightarrow> unit outcome \<times> session" where
  "handleQuery L cfg E q s =
     (case evAcquire E of
        Ok _ \<Rightarrow>
          (case handleCatalogQuery cfg E q of
             Some m \<Rightarrow> on_backend (qbind m (\<lambda>_. qret ())) s
           | None \<Rightarrow>
               (case handleSetCommand E q of
                  Some m \<Rightarrow> on_backend m s
                | None \<Rightarrow>
                    (case Parse (lbParseTime L) q of
                       Ok parsed \<Rightarrow> run_parsed L cfg E parsed q s
                     | Err e \<Rightarrow> (Err e, s)
                     | Panic \<Rightarrow> (Panic, s))))
      | r \<Rightarrow> (r, s))"

datatype frontend_msg =
    MsgTerminate
  | MsgQuery string
  | MsgParse string string
  | MsgBind string string nat
  | MsgDescribe char string
  | MsgExecute string
  | MsgClose char string
  | MsgSync
  | MsgFlush
  | MsgOther

definition ignore_send :: "query_env \<Rightarrow> backend_msg \<Rightarrow> session \<Rightarrow> session" where
  "ignore_send E msg s = s\<lparr>seBackend := snd (Send E msg (seBackend s))\<rparr>"

text \<open>A message of the extended protocol: ignored after a failure, and a failure is kept until \<open>Sync\<close>.\<close>

definition extended :: "(session \<Rightarrow> unit outcome \<times> session) \<Rightarrow> session \<Rightarrow> session outcome" where
  "extended m s =
     (if cnFailed (seConn s) then Ok s
      else (case m s of
              (Ok _, s) \<Rightarrow> Ok s
            | (Err _, s) \<Rightarrow> Ok (s\<lparr>seConn := (seConn s)\<lparr>cnFailed := True\<rparr>\<rparr>)
            | (Panic, s) \<Rightarrow> Panic))"

definition handle_message :: "'f sql_lib \<Rightarrow> sql_config \<Rightarrow> query_env \<Rightarrow> frontend_msg \<Rightarrow> session \<Rightarrow> session outcome" where
  "handle_message L cfg E msg s =
     (case msg of
        MsgTerminate \<Rightarrow> Ok s
      | MsgQuery q \<Rightarrow>
          (case handleQuery L cfg E q s of
             (Ok _, s) \<Rightarrow> Ok (ignore_send E ReadyForQuery s)
           | (Err e, s) \<Rightarrow> Ok (ignore_send E ReadyForQuery (ignore_send E (ErrorResponse (error_text e)) s))
           | (Panic, s) \<Rightarrow> Panic)
      | MsgParse name text \<Rightarrow> extended (handleParse L E name text) s
      | MsgBind portal stmt params \<Rightarrow> extended (handleBind E portal stmt params) s
      | MsgDescribe t name \<Rightarrow> extended (handleDescribe cfg E t name) s
      | MsgExecute portal \<Rightarrow> extended (handleExecute L cfg E portal) s
      | MsgClose t name \<Rightarrow> extended (handleClose E t name) s
      | MsgSync \<Rightarrow> Ok (ignore_send E ReadyForQuery (s\<lparr>seConn := (seConn s)\<lparr>cnFailed := False\<rparr>\<rparr>))
      | MsgFlush \<Rightarrow> Ok s
      | MsgOther \<Rightarrow> Ok (ignore_send E ReadyForQuery (ignore_send E (ErrorResponse ''unsupported message type'') s)))"

text \<open>The loop over the messages that arrive; the end of the list is an error of the connection.\<close>

fun sql_handleConnection :: "'f sql_lib \<Rightarrow> sql_config \<Rightarrow> (frontend_msg \<times> query_env) list \<Rightarrow> session \<Rightarrow> session outcome" where
  "sql_handleConnection L cfg [] s = Ok s"
| "sql_handleConnection L cfg ((msg, E) # msgs) s =
     (if msg = MsgTerminate then Ok s
      else bindO (handle_message L cfg E msg s) (sql_handleConnection L cfg msgs))"

end
