(* ===== verification/Sql_Correctness.thy ===== *)
theory Sql_Correctness
  imports Sql_Session Discovery_Bounds
begin

text \<open>
  What queries return: leaving out segments by their bounds never changes the result of a select or an
  aggregate.
\<close>

section \<open>A connection that stays up\<close>

definition undisturbed :: "query_env \<Rightarrow> bool" where
  "undisturbed E \<longleftrightarrow> (\<forall>n. evSend E n = None) \<and> (\<forall>n. \<not> evDone E n)"

definition put_msg :: "backend \<Rightarrow> backend_msg \<Rightarrow> backend" where
  "put_msg b msg = b\<lparr>bkSent := bkSent b @ [msg], bkCollector := map_option (capture msg) (bkCollector b)\<rparr>"

definition put_msgs :: "backend_msg list \<Rightarrow> backend \<Rightarrow> backend" where
  "put_msgs msgs b = foldl put_msg b msgs"

lemma put_msgs_simps [simp]:
  "put_msgs [] b = b" "put_msgs (m # ms) b = put_msgs ms (put_msg b m)" "put_msgs (ms @ ns) b = put_msgs ns (put_msgs ms b)"
  by (simp_all add: put_msgs_def)

lemma bkSent_put [simp]: "bkSent (put_msg b m) = bkSent b @ [m]" "bkSent (put_msgs ms b) = bkSent b @ ms"
proof -
  show *: "bkSent (put_msg b m) = bkSent b @ [m]" for b m by (simp add: put_msg_def)
  show "bkSent (put_msgs ms b) = bkSent b @ ms" by (induction ms arbitrary: b) (simp_all add: *)
qed

lemma bkCollector_put: "bkCollector (put_msgs ms b) = map_option (\<lambda>c. foldl (\<lambda>c m. capture m c) c ms) (bkCollector b)"
proof (induction ms arbitrary: b)
  case (Cons m ms)
  then show ?case by (cases "bkCollector b") (simp_all add: put_msg_def)
qed (simp add: option.map_ident)

lemma qret_apply [simp]: "qret x b = (Ok x, b)"
  by (simp add: qret_def)

lemma qlift_apply [simp]: "qlift r b = (r, b)"
  by (simp add: qlift_def)

lemma qbind_Ok: "m b = (Ok x, b') \<Longrightarrow> qbind m f b = f x b'"
  by (simp add: qbind_def)

lemma qbind_lift [simp]: "qbind (qlift (Ok x)) f = f x"
  by (simp add: qbind_def fun_eq_iff)

lemma qsend_quiet: "undisturbed E \<Longrightarrow> qsend E m b = (Ok (), put_msg b m)"
  by (simp add: qsend_def Send_def undisturbed_def put_msg_def)

lemma qignore_quiet: "undisturbed E \<Longrightarrow> qignore (qsend E m) b = (Ok (), put_msg b m)"
  by (simp add: qignore_def qsend_quiet)

lemma qbind_send: "undisturbed E \<Longrightarrow> qbind (qsend E m) f b = f () (put_msg b m)"
  by (simp add: qbind_def qsend_quiet)

lemma qbind_ignore: "undisturbed E \<Longrightarrow> qbind (qignore (qsend E m)) f b = f () (put_msg b m)"
  by (simp add: qbind_def qignore_quiet)

lemma qsend_rows_quiet: "undisturbed E \<Longrightarrow> qsend_rows (qsend E) rows b = (Ok (), put_msgs (map DataRow rows) b)"
  by (induction rows arbitrary: b) (simp_all add: qbind_send)

lemma qbind_rows: "undisturbed E \<Longrightarrow> qbind (qsend_rows (qsend E) rows) f b = f () (put_msgs (map DataRow rows) b)"
  by (simp add: qbind_def qsend_rows_quiet)

lemmas quiet_simps = qbind_send qbind_ignore qbind_rows

section \<open>Pruning\<close>

definition selects_segment :: "query \<Rightarrow> sql_ref \<Rightarrow> bool" where
  "selects_segment q s \<longleftrightarrow> sgTopic s = qTopic q \<and> (case qPartition q of None \<Rightarrow> True | Some p \<Rightarrow> sgPartition s = p)"

lemma pruned_segment_empty:
  assumes "bounds_hold s rs" "\<not> (segmentMatchesOffsets s (qOffsetMin q) (qOffsetMax q) \<and> segmentMatchesTimestamps s timeMin timeMax)"
  shows "filter (record_matches q timeMin timeMax) rs = []"
proof -
  have "\<not> record_matches q timeMin timeMax r" if r: "r \<in> set rs" for r
  proof
    assume m: "record_matches q timeMin timeMax r"
    from assms(1) r have b: "\<And>m. sgMinOffset s = Some m \<Longrightarrow> m \<le> rcOffset r" "\<And>m. sgMaxOffset s = Some m \<Longrightarrow> rcOffset r \<le> m"
      "\<And>m. sgMinTimestamp s = Some m \<Longrightarrow> m \<le> rcTimestamp r" "\<And>m. sgMaxTimestamp s = Some m \<Longrightarrow> rcTimestamp r \<le> m"
      by (simp_all add: bounds_hold_def)
    have "segmentMatchesOffsets s (qOffsetMin q) (qOffsetMax q)"
      using m b(1,2) by (fastforce simp: segmentMatchesOffsets_def record_matches_def split: option.splits)
    moreover have "segmentMatchesTimestamps s timeMin timeMax"
      using m b(3,4) by (fastforce simp: segmentMatchesTimestamps_def record_matches_def split: option.splits)
    ultimately show False using assms(2) by blast
  qed
  then show ?thesis by (simp add: filter_empty_conv)
qed

text \<open>What is read of each segment is the same with and without pruning, for any use of the records that match.\<close>

lemma concat_pruned:
  assumes "\<And>s. s \<in> set segs \<Longrightarrow> selects_segment q s \<Longrightarrow> bounds_hold s (recs s)"
    and "\<And>s. f s [] = []"
  shows "concat (map (\<lambda>s. f s (filter (record_matches q timeMin timeMax) (recs s))) (filterSegments q segs timeMin timeMax)) =
    concat (map (\<lambda>s. f s (filter (record_matches q timeMin timeMax) (recs s))) (filter (selects_segment q) segs))"
  using assms(1)
proof (induction segs)
  case (Cons s segs)
  have IH: "concat (map (\<lambda>s. f s (filter (record_matches q timeMin timeMax) (recs s))) (filterSegments q segs timeMin timeMax)) =
    concat (map (\<lambda>s. f s (filter (record_matches q timeMin timeMax) (recs s))) (filter (selects_segment q) segs))"
    using Cons.IH Cons.prems by simp
  let ?keep = "segmentMatchesOffsets s (qOffsetMin q) (qOffsetMax q) \<and> segmentMatchesTimestamps s timeMin timeMax"
  have fs: "filterSegments q (s # segs) timeMin timeMax =
      (if selects_segment q s \<and> ?keep then s # filterSegments q segs timeMin timeMax else filterSegments q segs timeMin timeMax)"
    by (simp add: filterSegments_def selects_segment_def conj_ac)
  show ?case
  proof (cases "selects_segment q s \<and> \<not> ?keep")
    case True
    then have "filter (record_matches q timeMin timeMax) (recs s) = []" using Cons.prems [of s] by (intro pruned_segment_empty) auto
    then show ?thesis unfolding fs using True IH assms(2) by simp
  next
    case False
    then show ?thesis unfolding fs using IH by auto
  qed
qed (simp add: filterSegments_def)

section \<open>Scanning\<close>

abbreviation rows_of :: "'f sql_lib \<Rightarrow> resolved_column list \<Rightarrow> query \<Rightarrow> int option \<Rightarrow> int option \<Rightarrow> (sql_ref \<Rightarrow> krecord list) \<Rightarrow> sql_ref list \<Rightarrow> row_result list" where
  "rows_of L cols q timeMin timeMax recs segs \<equiv>
     concat (map (\<lambda>s. map (record_row L cols (sgSegmentKey s)) (filter (record_matches q timeMin timeMax) (recs s))) segs)"

definition lastn :: "nat \<Rightarrow> 'a list \<Rightarrow> 'a list" where
  "lastn n xs = drop (length xs - n) xs"

lemma lastn_snoc: "length xs \<le> n \<Longrightarrow> 0 < n \<Longrightarrow> appendTailRow xs r (int n) = lastn n (xs @ [r])"
proof (cases xs)
  case (Cons x ys)
  assume "length xs \<le> n" "0 < n"
  with Cons have "length ys + 1 < n \<or> Suc (length ys) = n" by auto
  then show ?thesis using Cons by (auto simp: appendTailRow_def lastn_def)
qed (simp add: appendTailRow_def lastn_def)

lemma lastn_lastn: "lastn n (lastn n xs @ ys) = lastn n (xs @ ys)"
proof (cases "length xs \<le> n")
  case False
  then have "length xs - n + n = length xs" by simp
  then show ?thesis using False by (simp add: lastn_def add.commute)
qed (simp add: lastn_def)

lemma length_lastn: "length (lastn n xs) \<le> n"
  by (simp add: lastn_def)

lemma lastn_short: "length xs \<le> n \<Longrightarrow> lastn n xs = xs"
  by (simp add: lastn_def)

text \<open>With \<open>ORDER BY\<close> and with \<open>TAIL\<close> nothing is sent during the scan.\<close>

lemma scan_records_order:
  assumes "qOrderBy q \<noteq> []"
  shows "\<exists>st'. scan_records L E q timeMin timeMax cols lim tc seg rs st b = (Ok (st', False), b) \<and>
    ssSent st' = ssSent st \<and> ssRows st' = ssRows st @ map (record_row L cols seg) (filter (record_matches q timeMin timeMax) rs)"
  using assms
proof (induction rs arbitrary: st)
  case (Cons r rs)
  let ?st = "st\<lparr>ssBytes := ssBytes st + (slice_len (rcKey r) + slice_len (rcValue r)), ssRows := ssRows st @ [record_row L cols seg r]\<rparr>"
  show ?case
  proof (cases "record_matches q timeMin timeMax r")
    case True
    with Cons.IH [OF Cons.prems, of ?st] Cons.prems show ?thesis by (simp add: Let_def)
  next
    case False
    with Cons show ?thesis by simp
  qed
qed simp

lemma scan_records_tail:
  assumes "qOrderBy q = []" "0 < n" "length (ssTail st) \<le> n"
  shows "\<exists>st'. scan_records L E q timeMin timeMax cols lim (int n) seg rs st b = (Ok (st', False), b) \<and> ssSent st' = ssSent st \<and>
    ssTail st' = lastn n (ssTail st @ map (record_row L cols seg) (filter (record_matches q timeMin timeMax) rs))"
  using assms
proof (induction rs arbitrary: st)
  case (Cons r rs)
  let ?row = "record_row L cols seg r"
  let ?st = "st\<lparr>ssBytes := ssBytes st + (slice_len (rcKey r) + slice_len (rcValue r)), ssTail := appendTailRow (ssTail st) ?row (int n)\<rparr>"
  show ?case
  proof (cases "record_matches q timeMin timeMax r")
    case True
    have t: "ssTail ?st = lastn n (ssTail st @ [?row])" using Cons.prems by (simp add: lastn_snoc)
    have "length (ssTail ?st) \<le> n" unfolding t by (rule length_lastn)
    from Cons.IH [OF Cons.prems(1,2) this] obtain st' where
      "scan_records L E q timeMin timeMax cols lim (int n) seg rs ?st b = (Ok (st', False), b)" "ssSent st' = ssSent st"
      "ssTail st' = lastn n (lastn n (ssTail st @ [?row]) @ map (record_row L cols seg) (filter (record_matches q timeMin timeMax) rs))"
      unfolding t by auto
    with True Cons.prems show ?thesis by (simp add: Let_def lastn_lastn)
  next
    case False
    with Cons show ?thesis by simp
  qed
qed (simp add: lastn_short)

text \<open>Otherwise rows are sent until the limit is reached.\<close>

definition streamed :: "int \<Rightarrow> row_values list \<Rightarrow> int \<Rightarrow> backend \<Rightarrow> int \<Rightarrow> bool \<Rightarrow> backend \<Rightarrow> bool" where
  "streamed lim rows sent b sent' full b' \<longleftrightarrow>
     (let k = nat (max 1 (lim - sent)) in
      if k \<le> length rows
      then full \<and> sent' = sent + int k \<and> b' = put_msgs (map DataRow (take k rows) @ [CommandComplete (commandTag (sent + int k))]) b
      else \<not> full \<and> sent' = sent + int (length rows) \<and> b' = put_msgs (map DataRow rows) b)"

lemma streamed_Nil [intro]: "streamed lim [] sent b sent False b"
  by (auto simp: streamed_def Let_def)

lemma streamed_last [intro]:
  "sent + 1 \<ge> lim \<Longrightarrow> streamed lim [row] sent b (sent + 1) True (put_msg (put_msg b (DataRow row)) (CommandComplete (commandTag (sent + 1))))"
  by (auto simp: streamed_def Let_def)

lemma streamed_one [intro]: "sent + 1 < lim \<Longrightarrow> streamed lim [row] sent b (sent + 1) False (put_msg b (DataRow row))"
  by (auto simp: streamed_def Let_def)

lemma streamed_full: "streamed lim rows sent b sent' True b' \<Longrightarrow> streamed lim (rows @ rows') sent b sent' True b'"
  by (auto simp: streamed_def Let_def split: if_splits)

lemma streamed_append:
  assumes "streamed lim rows sent b sent1 False b1" "streamed lim rows' sent1 b1 sent' full b'"
  shows "streamed lim (rows @ rows') sent b sent' full b'"
proof -
  let ?k = "nat (max 1 (lim - sent))" and ?k' = "nat (max 1 (lim - sent1))"
  from assms(1) have a: "length rows < ?k" "b1 = put_msgs (map DataRow rows) b" "sent1 = sent + int (length rows)"
    by (auto simp: streamed_def Let_def split: if_splits)
  have k: "?k = length rows + ?k'" using a(1,3) by (cases rows) auto
  show ?thesis using assms(2) unfolding streamed_def Let_def k by (auto split: if_splits simp: a(2,3) add.assoc)
qed

lemma streamed_below: "streamed lim rows sent b sent' False b' \<Longrightarrow> sent < lim \<Longrightarrow> sent' < lim"
  by (auto simp: streamed_def Let_def split: if_splits)

lemma streamed_all:
  assumes "streamed lim rows 0 b sent full b'"
  shows "sent = int (length (take (nat (max 1 lim)) rows))"
    and "(if full then b' else put_msg b' (CommandComplete (commandTag sent))) =
      put_msgs (map DataRow (take (nat (max 1 lim)) rows) @ [CommandComplete (commandTag (int (length (take (nat (max 1 lim)) rows))))]) b"
proof -
  define k where "k = nat (max 1 lim)"
  have "if k \<le> length rows
      then full \<and> sent = int k \<and> b' = put_msgs (map DataRow (take k rows) @ [CommandComplete (commandTag (int k))]) b
      else \<not> full \<and> sent = int (length rows) \<and> b' = put_msgs (map DataRow rows) b"
    using assms by (simp only: streamed_def Let_def diff_0_right add_0 k_def)
  then have "sent = int (length (take k rows)) \<and> (if full then b' else put_msg b' (CommandComplete (commandTag sent))) =
      put_msgs (map DataRow (take k rows) @ [CommandComplete (commandTag (int (length (take k rows))))]) b"
    by (cases "k \<le> length rows") simp_all
  then show "sent = int (length (take (nat (max 1 lim)) rows))"
    and "(if full then b' else put_msg b' (CommandComplete (commandTag sent))) =
      put_msgs (map DataRow (take (nat (max 1 lim)) rows) @ [CommandComplete (commandTag (int (length (take (nat (max 1 lim)) rows))))]) b"
    unfolding k_def by blast+
qed

lemma scan_records_plain:
  assumes "undisturbed E" "qOrderBy q = []" "tc \<le> 0"
  shows "\<exists>st' full b'. scan_records L E q timeMin timeMax cols lim tc seg rs st b = (Ok (st', full), b') \<and>
    streamed lim (map rrValues (map (record_row L cols seg) (filter (record_matches q timeMin timeMax) rs))) (ssSent st) b (ssSent st') full b'"
proof (induction rs arbitrary: st b)
  case (Cons r rs)
  let ?st = "st\<lparr>ssBytes := ssBytes st + (slice_len (rcKey r) + slice_len (rcValue r)), ssSent := ssSent st + 1\<rparr>"
  let ?row = "rrValues (record_row L cols seg r)"
  show ?case
  proof (cases "record_matches q timeMin timeMax r")
    case True
    show ?thesis
    proof (cases "ssSent st + 1 \<ge> lim")
      case lim: True
      have "streamed lim (?row # map rrValues (map (record_row L cols seg) (filter (record_matches q timeMin timeMax) rs))) (ssSent st) b
          (ssSent ?st) True (put_msg (put_msg b (DataRow ?row)) (CommandComplete (commandTag (ssSent st + 1))))"
        using streamed_full [OF streamed_last [OF lim]] by fastforce
      then show ?thesis using True assms lim by (auto simp: Let_def quiet_simps)
    next
      case False
      then have "ssSent st + 1 < lim" by simp
      note one = streamed_one [OF this, of ?row b]
      from Cons.IH [of ?st "put_msg b (DataRow ?row)"] obtain st' full b' where
        *: "scan_records L E q timeMin timeMax cols lim tc seg rs ?st (put_msg b (DataRow ?row)) = (Ok (st', full), b')"
        "streamed lim (map rrValues (map (record_row L cols seg) (filter (record_matches q timeMin timeMax) rs))) (ssSent st + 1)
          (put_msg b (DataRow ?row)) (ssSent st') full b'" by auto
      show ?thesis using True assms False *(1) streamed_append [OF one *(2)] by (simp add: Let_def quiet_simps)
    qed
  next
    case False
    with Cons.IH [of st b] show ?thesis by simp
  qed
qed auto

lemma scan_segments_plain:
  assumes "undisturbed E" "qOrderBy q = []" "tc \<le> 0"
    and "\<And>s. s \<in> set segs \<Longrightarrow> evDecode E (sgSegmentKey s) (sgIndexKey s) (sgTopic s) (sgPartition s) = Ok (recs s)"
  shows "\<exists>st' n' full b'. scan_segments L E q timeMin timeMax cols lim tc n segs st b = (Ok (st', n', full), b') \<and>
    streamed lim (map rrValues (rows_of L cols q timeMin timeMax recs segs)) (ssSent st) b (ssSent st') full b'"
  using assms(4)
proof (induction segs arbitrary: n st b)
  case (Cons s segs)
  let ?rows = "map rrValues (map (record_row L cols (sgSegmentKey s)) (filter (record_matches q timeMin timeMax) (recs s)))"
  from scan_records_plain [OF assms(1-3)] obtain st1 full b1 where
    e: "scan_records L E q timeMin timeMax cols lim tc (sgSegmentKey s) (recs s) st b = (Ok (st1, full), b1)"
    and r: "streamed lim ?rows (ssSent st) b (ssSent st1) full b1" by blast
  have step: "scan_segments L E q timeMin timeMax cols lim tc n (s # segs) st b =
      (if full then (Ok (st1, Suc n, True), b1) else scan_segments L E q timeMin timeMax cols lim tc (Suc n) segs st1 b1)"
    using assms(1) Cons.prems e by (simp add: undisturbed_def qbind_Ok)
  show ?case
  proof (cases full)
    case True
    then show ?thesis unfolding step using streamed_full r by fastforce
  next
    case False
    from Cons.IH [of "Suc n" st1 b1] Cons.prems obtain st' n' full' b' where
      "scan_segments L E q timeMin timeMax cols lim tc (Suc n) segs st1 b1 = (Ok (st', n', full'), b')"
      "streamed lim (map rrValues (rows_of L cols q timeMin timeMax recs segs)) (ssSent st1) b1 (ssSent st') full' b'" by auto
    with streamed_append r False show ?thesis unfolding step by fastforce
  qed
qed auto

lemma scan_segments_order:
  assumes "undisturbed E" "qOrderBy q \<noteq> []"
    and "\<And>s. s \<in> set segs \<Longrightarrow> evDecode E (sgSegmentKey s) (sgIndexKey s) (sgTopic s) (sgPartition s) = Ok (recs s)"
  shows "\<exists>st'. scan_segments L E q timeMin timeMax cols lim tc n segs st b = (Ok (st', n + length segs, False), b) \<and>
    ssSent st' = ssSent st \<and> ssRows st' = ssRows st @ rows_of L cols q timeMin timeMax recs segs"
  using assms(3)
proof (induction segs arbitrary: n st)
  case (Cons s segs)
  from scan_records_order [OF assms(2), of L E timeMin timeMax cols lim tc "sgSegmentKey s" "recs s" st b] obtain st1 where
    "scan_records L E q timeMin timeMax cols lim tc (sgSegmentKey s) (recs s) st b = (Ok (st1, False), b)" "ssSent st1 = ssSent st"
    "ssRows st1 = ssRows st @ map (record_row L cols (sgSegmentKey s)) (filter (record_matches q timeMin timeMax) (recs s))" by auto
  with Cons.IH [of "Suc n" st1] Cons.prems assms(1) show ?case by (auto simp: undisturbed_def qbind_Ok)
qed simp

lemma scan_segments_tail:
  assumes "undisturbed E" "qOrderBy q = []" "0 < m" "length (ssTail st) \<le> m"
    and "\<And>s. s \<in> set segs \<Longrightarrow> evDecode E (sgSegmentKey s) (sgIndexKey s) (sgTopic s) (sgPartition s) = Ok (recs s)"
  shows "\<exists>st'. scan_segments L E q timeMin timeMax cols lim (int m) n segs st b = (Ok (st', n + length segs, False), b) \<and>
    ssSent st' = ssSent st \<and> ssTail st' = lastn m (ssTail st @ rows_of L cols q timeMin timeMax recs segs)"
  using assms(4,5)
proof (induction segs arbitrary: n st)
  case (Cons s segs)
  from scan_records_tail [OF assms(2,3) Cons.prems(1), of L E timeMin timeMax cols lim "sgSegmentKey s" "recs s" b] obtain st1 where
    st1: "scan_records L E q timeMin timeMax cols lim (int m) (sgSegmentKey s) (recs s) st b = (Ok (st1, False), b)" "ssSent st1 = ssSent st"
    "ssTail st1 = lastn m (ssTail st @ map (record_row L cols (sgSegmentKey s)) (filter (record_matches q timeMin timeMax) (recs s)))" by auto
  have "length (ssTail st1) \<le> m" unfolding st1(3) by (rule length_lastn)
  with Cons.IH [of st1 "Suc n"] Cons.prems(2) assms(1) st1 show ?case by (auto simp: undisturbed_def qbind_Ok lastn_lastn)
qed (simp add: lastn_short)

section \<open>Plain selects\<close>

text \<open>The rows of a plain select, from the rows of all records that match.\<close>

definition select_rows :: "'f sql_lib \<Rightarrow> query \<Rightarrow> int \<Rightarrow> int \<Rightarrow> row_result list \<Rightarrow> row_result list" where
  "select_rows L q lim tailCount rows =
     (if qOrderBy q \<noteq> [] then ordered_rows L q lim rows
      else if tailCount > 0 then lastn (nat tailCount) rows
      else take (nat (max 1 lim)) rows)"

lemma plain_select_rows:
  assumes "undisturbed E" "resolveSelectColumns cfg (qTopic q) (qSelect q) = Ok cols"
    and "\<And>s. s \<in> set segs \<Longrightarrow> evDecode E (sgSegmentKey s) (sgIndexKey s) (sgTopic s) (sgPartition s) = Ok (recs s)"
  shows "\<exists>res. plain_select L cfg E q segs timeMin timeMax lim tc b =
    (Ok res, put_msgs (RowDescription (buildRowDescription cols) #
       map DataRow (map rrValues (select_rows L q lim tc (rows_of L cols q timeMin timeMax recs segs))) @
       [CommandComplete (commandTag (int (length (select_rows L q lim tc (rows_of L cols q timeMin timeMax recs segs)))))]) b) \<and>
    qrRows res = int (length (select_rows L q lim tc (rows_of L cols q timeMin timeMax recs segs)))"
proof -
  let ?st = "\<lparr>ssSent = 0, ssBytes = 0, ssRows = [], ssTail = []\<rparr>" and ?b = "put_msg b (RowDescription (buildRowDescription cols))"
  let ?rows = "rows_of L cols q timeMin timeMax recs segs"
  have start: "plain_select L cfg E q segs timeMin timeMax lim tc b =
    qbind (scan_segments L E q timeMin timeMax cols lim tc 0 segs ?st) (\<lambda>(st, scanned, full).
     if full then qret (scan_result (ssSent st) scanned (ssBytes st))
     else
       let rows = (if qOrderBy q \<noteq> [] then ordered_rows L q lim (ssRows st) else if tc > 0 then ssTail st else []);
           sent = ssSent st + int (length rows) in
       qbind (qsend_rows (qsend E) (map rrValues rows)) (\<lambda>_.
       qbind (qignore (qsend E (CommandComplete (commandTag sent)))) (\<lambda>_.
       qret (scan_result sent scanned (ssBytes st))))) ?b"
    using assms(1,2) by (simp add: plain_select_def quiet_simps)
  consider "qOrderBy q \<noteq> []" | "qOrderBy q = []" "tc > 0" | "qOrderBy q = []" "tc \<le> 0" by linarith
  then show ?thesis
  proof cases
    case 1
    from scan_segments_order [OF assms(1) 1 assms(3), of segs L timeMin timeMax cols lim tc 0 ?st ?b] 1 assms(1)
    show ?thesis unfolding start by (auto simp: qbind_Ok Let_def quiet_simps select_rows_def scan_result_def)
  next
    case 2
    then have "int (nat tc) = tc" by simp
    with scan_segments_tail [OF assms(1) 2(1) _ _ assms(3), of "nat tc" ?st segs L timeMin timeMax cols lim 0 ?b] 2 assms(1)
    show ?thesis unfolding start by (auto simp: qbind_Ok Let_def quiet_simps select_rows_def scan_result_def)
  next
    case 3
    from scan_segments_plain [OF assms(1) 3 assms(3), of segs L timeMin timeMax cols lim 0 ?st ?b] obtain st n full b' where
      e: "scan_segments L E q timeMin timeMax cols lim tc 0 segs ?st ?b = (Ok (st, n, full), b')"
      and st: "streamed lim (map rrValues ?rows) 0 ?b (ssSent st) full b'" by auto
    have run: "plain_select L cfg E q segs timeMin timeMax lim tc b =
        (Ok (scan_result (ssSent st) n (ssBytes st)), if full then b' else put_msg b' (CommandComplete (commandTag (ssSent st))))"
      unfolding start using 3 by (simp add: qbind_def e qignore_quiet [OF assms(1)] Let_def)
    define out where "out = select_rows L q lim tc ?rows"
    have o: "take (nat (max 1 lim)) (map rrValues ?rows) = map rrValues out" using 3 by (simp add: out_def select_rows_def take_map)
    have "ssSent st = int (length out)" "(if full then b' else put_msg b' (CommandComplete (commandTag (ssSent st)))) =
        put_msgs (map DataRow (map rrValues out) @ [CommandComplete (commandTag (int (length out)))]) ?b"
      using streamed_all [OF st] unfolding o length_map by blast+
    with run show ?thesis unfolding out_def [symmetric] by (simp add: scan_result_def)
  qed
qed

text \<open>The part of a select before its rows: what must hold for the query to be run.\<close>

definition select_runs ::
  "'f sql_lib \<Rightarrow> sql_config \<Rightarrow> query_env \<Rightarrow> query \<Rightarrow> sql_ref list \<Rightarrow> int option \<Rightarrow> int option \<Rightarrow> int \<Rightarrow> int \<Rightarrow> bool" where
  "select_runs L cfg E q segs timeMin timeMax lim tailCount \<longleftrightarrow>
     undisturbed E \<and> qJoinTopic q = [] \<and> qTopic q \<noteq> [] \<and> \<not> unbounded cfg q \<and> select_limit cfg q = Ok (lim, tailCount) \<and>
     evLister E = Ok () \<and> evDecoder E = Ok () \<and> evList E = Ok segs \<and> time_bounds L (evClock E 0) q = Ok (timeMin, timeMax) \<and>
     \<not> window_invalid timeMin timeMax \<and>
     enforceScanLimits cfg (int (length (filterSegments q segs timeMin timeMax))) (estimateBytes (filterSegments q segs timeMin timeMax)) = Ok ()"

lemma filterSegments_subset: "set (filterSegments q segs timeMin timeMax) \<subseteq> {s \<in> set segs. selects_segment q s}"
  by (auto simp: filterSegments_def selects_segment_def)

lemma plain_select_exact:
  assumes "select_runs L cfg E q segs timeMin timeMax lim tc" "\<not> hasAggregates (qSelect q)"
    and "resolveSelectColumns cfg (qTopic q) (qSelect q) = Ok cols"
    and "\<And>s. s \<in> set segs \<Longrightarrow> selects_segment q s \<Longrightarrow>
      evDecode E (sgSegmentKey s) (sgIndexKey s) (sgTopic s) (sgPartition s) = Ok (recs s) \<and> bounds_hold s (recs s)"
  defines "rows \<equiv> select_rows L q lim tc (rows_of L cols q timeMin timeMax recs (filter (selects_segment q) segs))"
  shows "\<exists>res. handleSelect L cfg E q b =
    (Ok res, put_msgs (RowDescription (buildRowDescription cols) # map DataRow (map rrValues rows) @ [CommandComplete (commandTag (int (length rows)))]) b) \<and>
    qrRows res = int (length rows)"
proof -
  let ?cand = "filterSegments q segs timeMin timeMax"
  have dec: "\<And>s. s \<in> set ?cand \<Longrightarrow> evDecode E (sgSegmentKey s) (sgIndexKey s) (sgTopic s) (sgPartition s) = Ok (recs s)"
    using assms(4) filterSegments_subset by blast
  have eq: "rows_of L cols q timeMin timeMax recs ?cand = rows_of L cols q timeMin timeMax recs (filter (selects_segment q) segs)"
    using assms(4) by (intro concat_pruned) auto
  have "handleSelect L cfg E q b = plain_select L cfg E q ?cand timeMin timeMax lim tc b"
    using assms(1,2) by (simp add: handleSelect_def select_runs_def)
  moreover have "undisturbed E" using assms(1) by (simp add: select_runs_def)
  ultimately show ?thesis
    using plain_select_rows [where L = L and timeMin = timeMin and timeMax = timeMax and lim = lim and tc = tc and b = b and segs = ?cand, OF _ assms(3) dec] unfolding rows_def eq by presburger
qed

section \<open>Aggregates\<close>

abbreviation contexts_of :: "query \<Rightarrow> int option \<Rightarrow> int option \<Rightarrow> (sql_ref \<Rightarrow> krecord list) \<Rightarrow> sql_ref list \<Rightarrow> row_context list" where
  "contexts_of q timeMin timeMax recs segs \<equiv>
     concat (map (\<lambda>s. map (\<lambda>r. left_context r (sgSegmentKey s)) (filter (record_matches q timeMin timeMax) (recs s))) segs)"

lemma group_records_fold:
  "\<exists>bytes'. group_records L plan q timeMin timeMax seg rs bytes groups =
    (bytes', fold (add_to_group L plan) (map (\<lambda>r. left_context r seg) (filter (record_matches q timeMin timeMax) rs)) groups)"
  by (induction rs arbitrary: bytes groups) auto

lemma group_segments_fold:
  assumes "undisturbed E"
    and "\<And>s. s \<in> set segs \<Longrightarrow> evDecode E (sgSegmentKey s) (sgIndexKey s) (sgTopic s) (sgPartition s) = Ok (recs s)"
  shows "\<exists>bytes'. group_segments L E plan q timeMin timeMax n segs bytes groups b =
    (Ok (n + length segs, bytes', fold (add_to_group L plan) (contexts_of q timeMin timeMax recs segs) groups), b)"
  using assms(2)
proof (induction segs arbitrary: n bytes groups)
  case (Cons s segs)
  from group_records_fold [of L plan q timeMin timeMax "sgSegmentKey s" "recs s" bytes groups] obtain bytes1 where
    "group_records L plan q timeMin timeMax (sgSegmentKey s) (recs s) bytes groups =
      (bytes1, fold (add_to_group L plan) (map (\<lambda>r. left_context r (sgSegmentKey s)) (filter (record_matches q timeMin timeMax) (recs s))) groups)"
    by blast
  moreover from Cons.IH [of "Suc n" bytes1 "fold (add_to_group L plan) (map (\<lambda>r. left_context r (sgSegmentKey s)) (filter (record_matches q timeMin timeMax) (recs s))) groups"]
    Cons.prems obtain bytes2 where
    "group_segments L E plan q timeMin timeMax (Suc n) segs bytes1
        (fold (add_to_group L plan) (map (\<lambda>r. left_context r (sgSegmentKey s)) (filter (record_matches q timeMin timeMax) (recs s))) groups) b =
      (Ok (Suc n + length segs, bytes2, fold (add_to_group L plan) (contexts_of q timeMin timeMax recs segs)
        (fold (add_to_group L plan) (map (\<lambda>r. left_context r (sgSegmentKey s)) (filter (record_matches q timeMin timeMax) (recs s))) groups)), b)"
    by auto
  ultimately show ?case using assms(1) Cons.prems by (simp add: undisturbed_def)
qed simp

text \<open>A group as a reference computes it: the records with its key, folded once per aggregate.\<close>

definition group_key :: "'f sql_lib \<Rightarrow> aggregate_plan \<Rightarrow> row_context \<Rightarrow> string" where
  "group_key L plan c = buildGroupKey (group_values L plan c)"

definition group_of :: "'f sql_lib \<Rightarrow> aggregate_plan \<Rightarrow> row_context list \<Rightarrow> 'f agg_group_state" where
  "group_of L plan cs =
     \<lparr>gsValues = group_values L plan (hd cs), gsAggs = map (\<lambda>spec. fold (updateAgg L spec) cs (new_agg L)) (apAggs plan)\<rparr>"

definition members :: "'f sql_lib \<Rightarrow> aggregate_plan \<Rightarrow> string \<Rightarrow> row_context list \<Rightarrow> row_context list" where
  "members L plan key cs = filter (\<lambda>c. group_key L plan c = key) cs"

lemma map2_same: "map2 f xs (map g xs) = map (\<lambda>x. f x (g x)) xs"
  by (induction xs) auto

lemma group_of_snoc:
  "cs \<noteq> [] \<Longrightarrow> group_of L plan (cs @ [c]) =
    (group_of L plan cs)\<lparr>gsAggs := map2 (\<lambda>spec a. updateAgg L spec c a) (apAggs plan) (gsAggs (group_of L plan cs))\<rparr>"
  by (simp add: group_of_def map2_same)

lemma group_of_single:
  "group_of L plan [c] =
    \<lparr>gsValues = group_values L plan c, gsAggs = map2 (\<lambda>spec a. updateAgg L spec c a) (apAggs plan) (map (\<lambda>_. new_agg L) (apAggs plan))\<rparr>"
  by (simp add: group_of_def map2_same)

lemma groups_lookup:
  "map_of (fold (add_to_group L plan) cs []) key =
    (if members L plan key cs = [] then None else Some (group_of L plan (members L plan key cs)))"
proof (induction cs arbitrary: key rule: rev_induct)
  case (snoc c cs)
  show ?case
  proof (cases "group_key L plan c = key")
    case True
    then have "members L plan key (cs @ [c]) = members L plan key cs @ [c]" by (simp add: members_def)
    with True show ?thesis
      by (cases "members L plan key cs = []")
        (simp_all add: add_to_group_def [of L plan c] snoc.IH group_key_def AList.update_conv' Let_def group_of_single group_of_snoc)
  next
    case False
    then have "members L plan key (cs @ [c]) = members L plan key cs" by (simp add: members_def)
    with False show ?thesis by (simp add: add_to_group_def [of L plan c] snoc.IH group_key_def AList.update_conv' Let_def)
  qed
qed (simp add: members_def)

lemma groups_distinct: "distinct (map fst (fold (add_to_group L plan) cs []))"
proof (induction cs rule: rev_induct)
  case (snoc c cs)
  then show ?case by (simp add: add_to_group_def [of L plan c] Let_def AList.distinct_update)
qed simp

lemma groups_keys: "sort (map fst (fold (add_to_group L plan) cs [])) = sorted_list_of_set (group_key L plan ` set cs)"
proof -
  let ?g = "fold (add_to_group L plan) cs []"
  have "fst ` set ?g = {key. map_of ?g key \<noteq> None}" by (auto simp: map_of_eq_None_iff)
  also have "\<dots> = group_key L plan ` set cs" by (auto simp: groups_lookup members_def filter_empty_conv)
  finally show ?thesis
    by (metis groups_distinct sorted_list_of_set_sort_remdups distinct_remdups_id list.set_map)
qed

definition aggregate_rows :: "'f sql_lib \<Rightarrow> aggregate_plan \<Rightarrow> int \<Rightarrow> row_context list \<Rightarrow> row_values list" where
  "aggregate_rows L plan lim cs =
     (let keys = sorted_list_of_set (group_key L plan ` set cs); keys = (if lim > 0 then take (nat lim) keys else keys) in
      map (\<lambda>key. buildAggregateRow L plan (group_of L plan (members L plan key cs))) keys)"

lemma groups_rows:
  assumes "groups = fold (add_to_group L plan) cs []"
  shows "map (\<lambda>key. buildAggregateRow L plan (the (map_of groups key))) (if lim > 0 then take (nat lim) (sort (map fst groups)) else sort (map fst groups)) =
    aggregate_rows L plan lim cs"
proof -
  have m: "members L plan key cs \<noteq> []" if "key \<in> group_key L plan ` set cs" for key
    using that by (auto simp: members_def filter_empty_conv)
  have "set (if lim > 0 then take (nat lim) (sorted_list_of_set (group_key L plan ` set cs)) else sorted_list_of_set (group_key L plan ` set cs))
      \<subseteq> group_key L plan ` set cs"
    by (auto dest: in_set_takeD)
  with m show ?thesis unfolding assms groups_keys aggregate_rows_def Let_def groups_lookup by (intro map_cong refl) auto
qed

lemma aggregate_select_exact:
  assumes "select_runs L cfg E q segs timeMin timeMax lim tc" "hasAggregates (qSelect q)" "qOrderBy q = []" "qTail q = []"
    and "buildAggregatePlan cfg q = Ok plan"
    and "\<And>s. s \<in> set segs \<Longrightarrow> selects_segment q s \<Longrightarrow>
      evDecode E (sgSegmentKey s) (sgIndexKey s) (sgTopic s) (sgPartition s) = Ok (recs s) \<and> bounds_hold s (recs s)"
  defines "rows \<equiv> aggregate_rows L plan lim (contexts_of q timeMin timeMax recs (filter (selects_segment q) segs))"
  shows "\<exists>res. handleSelect L cfg E q b =
    (Ok res, put_msgs (RowDescription (map output_field (apOutputs plan)) # map DataRow rows @ [CommandComplete (commandTag (int (length rows)))]) b) \<and>
    qrRows res = int (length rows)"
proof -
  let ?cand = "filterSegments q segs timeMin timeMax" and ?b = "put_msg b (RowDescription (map output_field (apOutputs plan)))"
  have dec: "\<And>s. s \<in> set ?cand \<Longrightarrow> evDecode E (sgSegmentKey s) (sgIndexKey s) (sgTopic s) (sgPartition s) = Ok (recs s)"
    using assms(6) filterSegments_subset by blast
  have eq: "contexts_of q timeMin timeMax recs ?cand = contexts_of q timeMin timeMax recs (filter (selects_segment q) segs)"
    using assms(6) by (intro concat_pruned) auto
  have q: "undisturbed E" using assms(1) by (simp add: select_runs_def)
  from group_segments_fold [OF q dec, of ?cand L plan q timeMin timeMax 0 0 "[]" ?b] obtain bytes where
    g: "group_segments L E plan q timeMin timeMax 0 ?cand 0 [] ?b =
      (Ok (length ?cand, bytes, fold (add_to_group L plan) (contexts_of q timeMin timeMax recs (filter (selects_segment q) segs)) []), ?b)"
    unfolding eq by auto
  have "handleSelect L cfg E q b = handleAggregateSelect L cfg E q ?cand timeMin timeMax lim b"
    using assms(1-4) by (simp add: handleSelect_def select_runs_def)
  moreover have "evDecoder E = Ok ()" using assms(1) by (simp add: select_runs_def)
  ultimately show ?thesis
    unfolding rows_def groups_rows [OF refl, symmetric]
    by (simp add: handleAggregateSelect_def assms(5) quiet_simps q qbind_Ok [where m = "group_segments L E plan q timeMin timeMax 0 ?cand 0 []", OF g] Let_def scan_result_def)
qed

section \<open>Joins\<close>

text \<open>The rows of one record of the left side: a nested loop over the records of the right side.\<close>

definition join_rows ::
  "'f sql_lib \<Rightarrow> query \<Rightarrow> resolved_column list \<Rightarrow> duration \<Rightarrow> join_condition \<Rightarrow> join_record list \<Rightarrow> join_record \<Rightarrow> row_values list" where
  "join_rows L q cols within on rights left =
     (let key = joinKeyFromExpr L (jrRecord left) (jcLeft on);
          partners = filter (\<lambda>r. joinKeyFromExpr L (jrRecord r) (jcRight on) = key \<and> withinWindow (rcTimestamp (jrRecord left)) (rcTimestamp (jrRecord r)) within) rights in
      if key \<noteq> [] \<and> partners \<noteq> [] then map (\<lambda>r. buildRowValues L cols (join_context left (Some r))) partners
      else if qJoinType q = ''left'' then [buildRowValues L cols (join_context left None)]
      else [])"

lemma groupByJoinKey_lookup:
  "map_of (groupByJoinKey L rs e) key =
    (let same = filter (\<lambda>r. joinKeyFromExpr L (jrRecord r) e = key) rs in if key = [] \<or> same = [] then None else Some same)"
proof (induction rs rule: rev_induct)
  case (snoc r rs)
  then show ?case by (auto simp: groupByJoinKey_def Let_def AList.update_conv' split: if_splits)
qed (simp add: groupByJoinKey_def)

lemma send_join_row_streamed:
  assumes "undisturbed E"
  shows "\<exists>sent' full b'. send_join_row L E cols lim ctx sent b = (Ok (sent', full), b') \<and>
    streamed lim [buildRowValues L cols ctx] sent b sent' full b'"
  using assms streamed_last [of lim sent] streamed_one [of sent lim]
  by (auto simp: send_join_row_def quiet_simps Let_def)

lemma join_candidates_streamed:
  assumes "undisturbed E"
  shows "\<exists>sent' matched' full b'. join_candidates L E cols lim within left rights sent matched b = (Ok (sent', matched', full), b') \<and>
    streamed lim (map (\<lambda>r. buildRowValues L cols (join_context left (Some r)))
      (filter (\<lambda>r. withinWindow (rcTimestamp (jrRecord left)) (rcTimestamp (jrRecord r)) within) rights)) sent b sent' full b' \<and>
    (\<not> full \<longrightarrow> matched' = (matched \<or> filter (\<lambda>r. withinWindow (rcTimestamp (jrRecord left)) (rcTimestamp (jrRecord r)) within) rights \<noteq> []))"
proof (induction rights arbitrary: sent matched b)
  case (Cons r rs)
  let ?in = "\<lambda>r. withinWindow (rcTimestamp (jrRecord left)) (rcTimestamp (jrRecord r)) within"
  let ?row = "\<lambda>r. buildRowValues L cols (join_context left (Some r))"
  show ?case
  proof (cases "?in r")
    case True
    from send_join_row_streamed [OF assms] obtain sent1 full b1 where
      one: "send_join_row L E cols lim (join_context left (Some r)) sent b = (Ok (sent1, full), b1)" "streamed lim [?row r] sent b sent1 full b1" by blast
    show ?thesis
    proof (cases full)
      case full: True
      then show ?thesis using True one streamed_full [of lim "[?row r]" sent b sent1 b1 "map ?row (filter ?in rs)"] by (auto simp: qbind_Ok)
    next
      case False
      from Cons.IH [of sent1 True b1] obtain sent' matched' full' b' where
        *: "join_candidates L E cols lim within left rs sent1 True b1 = (Ok (sent', matched', full'), b')"
        "streamed lim (map ?row (filter ?in rs)) sent1 b1 sent' full' b'" "\<not> full' \<longrightarrow> matched'" by auto
      with True False one streamed_append [of lim "[?row r]" sent b sent1 b1 "map ?row (filter ?in rs)"] show ?thesis by (auto simp: qbind_Ok)
    qed
  next
    case False
    with Cons.IH [of sent matched b] show ?thesis by simp
  qed
qed auto

lemma join_left_streamed:
  assumes "undisturbed E" "sent < lim"
  shows "\<exists>sent' full b'. join_left L E q cols lim within on (groupByJoinKey L rights (jcRight on)) left sent b = (Ok (sent', full), b') \<and>
    streamed lim (join_rows L q cols within on rights left) sent b sent' full b'"
proof (cases "joinKeyFromExpr L (jrRecord left) (jcLeft on) = []")
  case True
  then show ?thesis using assms streamed_last [of lim sent] streamed_one [of sent lim] streamed_Nil [of lim sent b]
    by (auto simp: join_left_def join_rows_def Let_def qbind_def qsend_quiet qignore_quiet)
next
  case False
  let ?key = "joinKeyFromExpr L (jrRecord left) (jcLeft on)" and ?row = "\<lambda>r. buildRowValues L cols (join_context left (Some r))"
  let ?same = "filter (\<lambda>r. joinKeyFromExpr L (jrRecord r) (jcRight on) = ?key) rights"
  let ?partners = "filter (\<lambda>r. withinWindow (rcTimestamp (jrRecord left)) (rcTimestamp (jrRecord r)) within) ?same"
  have look: "(case map_of (groupByJoinKey L rights (jcRight on)) ?key of None \<Rightarrow> [] | Some rs \<Rightarrow> rs) = ?same"
    using False by (simp add: groupByJoinKey_lookup Let_def)
  from join_candidates_streamed [OF assms(1), of L cols lim within left ?same sent False b] obtain sent1 matched full b1 where
    c: "join_candidates L E cols lim within left ?same sent False b = (Ok (sent1, matched, full), b1)"
    "streamed lim (map ?row ?partners) sent b sent1 full b1" "\<not> full \<longrightarrow> matched = (?partners \<noteq> [])" by blast
  have rows: "join_rows L q cols within on rights left =
      (if ?partners \<noteq> [] then map ?row ?partners else if qJoinType q = ''left'' then [buildRowValues L cols (join_context left None)] else [])"
    using False by (simp add: join_rows_def Let_def conj_commute)
  have step: "join_left L E q cols lim within on (groupByJoinKey L rights (jcRight on)) left sent b =
      (if full then (Ok (sent1, True), b1)
       else if \<not> matched \<and> qJoinType q = ''left'' then send_join_row L E cols lim (join_context left None) sent1 b1
       else (Ok (sent1, False), b1))"
    using False c(1) unfolding join_left_def look Let_def by (simp add: qbind_Ok)
  show ?thesis
  proof (cases "?partners = []")
    case True
    then have "streamed lim [] sent b sent1 full b1" using c(2) by simp
    then have "\<not> full" "sent1 = sent" "b1 = b" by (auto simp: streamed_def Let_def split: if_splits)
    with True c(3) show ?thesis unfolding step rows using send_join_row_streamed [OF assms(1)] by (auto intro: streamed_Nil)
  next
    case False
    then show ?thesis unfolding step rows using c(2,3) by auto
  qed
qed

lemma join_loop_streamed:
  assumes "undisturbed E" "sent < lim"
  shows "\<exists>sent' full b'. join_loop L E q cols lim within on (groupByJoinKey L rights (jcRight on)) start n lefts sent b = (Ok (sent', full), b') \<and>
    streamed lim (concat (map (join_rows L q cols within on rights) (filter (\<lambda>r. start \<le> rcTimestamp (jrRecord r)) lefts))) sent b sent' full b'"
  using assms(2)
proof (induction lefts arbitrary: n sent b)
  case (Cons r lefts)
  let ?rows = "join_rows L q cols within on rights" and ?in = "\<lambda>r. start \<le> rcTimestamp (jrRecord r)"
  have up: "\<not> evDone E n" using assms(1) by (simp add: undisturbed_def)
  show ?case
  proof (cases "?in r")
    case True
    from join_left_streamed [OF assms(1) Cons.prems, of L q cols within on rights r b] obtain sent1 full b1 where
      one: "join_left L E q cols lim within on (groupByJoinKey L rights (jcRight on)) r sent b = (Ok (sent1, full), b1)"
      "streamed lim (?rows r) sent b sent1 full b1" by blast
    have step: "join_loop L E q cols lim within on (groupByJoinKey L rights (jcRight on)) start n (r # lefts) sent b =
        (if full then (Ok (sent1, True), b1)
         else join_loop L E q cols lim within on (groupByJoinKey L rights (jcRight on)) start (Suc n) lefts sent1 b1)"
      using True up one(1) by (simp add: qbind_Ok)
    show ?thesis
    proof (cases full)
      case full: True
      then have "streamed lim (?rows r @ concat (map ?rows (filter ?in lefts))) sent b sent1 True b1" using one(2) by (intro streamed_full) simp
      then show ?thesis unfolding step using full True by auto
    next
      case False
      with one(2) have one2: "streamed lim (?rows r) sent b sent1 False b1" by simp
      have "sent1 < lim" using one2 Cons.prems by (rule streamed_below)
      from Cons.IH [OF this, of "Suc n" b1] obtain sent' full' b' where
        rest: "join_loop L E q cols lim within on (groupByJoinKey L rights (jcRight on)) start (Suc n) lefts sent1 b1 = (Ok (sent', full'), b')"
        "streamed lim (concat (map ?rows (filter ?in lefts))) sent1 b1 sent' full' b'" by blast
      have "streamed lim (?rows r @ concat (map ?rows (filter ?in lefts))) sent b sent' full' b'" by (rule streamed_append [OF one2 rest(2)])
      then show ?thesis unfolding step using False True rest(1) by auto
    qed
  next
    case False
    then have "join_loop L E q cols lim within on (groupByJoinKey L rights (jcRight on)) start n (r # lefts) sent b =
        join_loop L E q cols lim within on (groupByJoinKey L rights (jcRight on)) start (Suc n) lefts sent b" using up by simp
    with False Cons.IH [OF Cons.prems, of "Suc n" b] show ?thesis by simp
  qed
qed auto

abbreviation join_records_of :: "(sql_ref \<Rightarrow> krecord list) \<Rightarrow> sql_ref list \<Rightarrow> join_record list" where
  "join_records_of recs segs \<equiv> concat (map (\<lambda>s. map (\<lambda>r. \<lparr>jrRecord = r, jrSegmentKey = sgSegmentKey s\<rparr>) (recs s)) segs)"

lemma loadRecords_Ok:
  assumes "undisturbed E" "\<And>s. s \<in> set segs \<Longrightarrow> sgTopic s = topic"
    and "\<And>s. s \<in> set segs \<Longrightarrow> evDecode E (sgSegmentKey s) (sgIndexKey s) (sgTopic s) (sgPartition s) = Ok (recs s)"
  shows "\<exists>bytes. loadRecords E topic n segs = Ok (join_records_of recs segs, bytes)"
  using assms(2,3)
proof (induction segs arbitrary: n)
  case (Cons s segs)
  from Cons.IH [of "Suc n"] Cons.prems obtain bytes where "loadRecords E topic (Suc n) segs = Ok (join_records_of recs segs, bytes)" by auto
  with Cons.prems assms(1) show ?case by (simp add: undisturbed_def)
qed simp

section \<open>A library and a configuration\<close>

text \<open>One instance of what the processor takes from outside: documents are not read, numbers are integers.\<close>

definition demo_lib :: "int sql_lib" where
  "demo_lib =
     \<lparr>lbUnmarshal = \<lambda>_. None, lbMarshal = \<lambda>_. None, lbSprint = \<lambda>_. [], lbFormatFloat = fmt_d, lbParseFloat = ParseInt 64,
      lbZero = 0, lbOfInt = (\<lambda>n. n), lbToInt = (\<lambda>n. n), lbAdd = (+), lbDiv = (div), lbLess = (<), lbParseTime = \<lambda>_. None,
      lbParseDuration = \<lambda>s. if s = ''1h'' then Some (3600 * 10 ^ 9) else None,
      lbSort = \<lambda>less xs. foldr (\<lambda>x ys. takeWhile (\<lambda>y. less y x) ys @ x # dropWhile (\<lambda>y. less y x) ys) xs []\<rparr>"

definition demo_sql_config :: sql_config where
  "demo_sql_config =
     \<lparr>scDefaultLimit = 1000, scRequireTimeBound = True, scMaxUnbounded = 10000, scMaxScanBytes = 0, scMaxScanSegments = 10, scMaxRows = 5000,
      scCacheMaxRows = 100, scTopics = []\<rparr>"

definition demo_env :: query_env where
  "demo_env =
     \<lparr>evTopics = Ok [''t''], evPartitions = \<lambda>_. Ok [0], evLister = Ok (), evDecoder = Ok (), evList = Ok [], evDecode = \<lambda>_ _ _ _. Ok [],
      evDone = \<lambda>_. False, evSend = \<lambda>_. None, evClock = \<lambda>_. 0, evAcquire = Ok ()\<rparr>"

definition demo_record :: "string \<Rightarrow> int \<Rightarrow> int \<Rightarrow> int \<Rightarrow> bytes \<Rightarrow> bytes \<Rightarrow> krecord" where
  "demo_record t p off ts k v = \<lparr>rcTopic = t, rcPartition = p, rcOffset = off, rcTimestamp = ts, rcKey = Some k, rcValue = Some v, rcHeaders = []\<rparr>"

definition demo_ref :: "string \<Rightarrow> string \<Rightarrow> int \<Rightarrow> int \<Rightarrow> int option \<Rightarrow> sql_ref" where
  "demo_ref k t p base maxOffset =
     \<lparr>sgTopic = t, sgPartition = p, sgBaseOffset = base, sgSegmentKey = k, sgIndexKey = [],
      sgSizeBytes = 100, sgLastModified = 0, sgMinOffset = Some base, sgMaxOffset = maxOffset, sgMinTimestamp = None, sgMaxTimestamp = None\<rparr>"

definition demo_refs :: "sql_ref list" where
  "demo_refs = [demo_ref ''orders00'' ''orders'' 0 0 (Some 1), demo_ref ''orders02'' ''orders'' 0 2 None, demo_ref ''orders10'' ''orders'' 1 0 None, demo_ref ''users00'' ''users'' 0 0 None]"

definition demo_table :: "(string \<times> krecord list) list" where
  "demo_table =
     [(''orders00'', [demo_record ''orders'' 0 0 10 [1] [], demo_record ''orders'' 0 1 20 [2] []]),
      (''orders02'', [demo_record ''orders'' 0 2 30 [1] [], demo_record ''orders'' 0 3 40 [3] []]),
      (''orders10'', [demo_record ''orders'' 1 0 15 [2] []]),
      (''users00'', [demo_record ''users'' 0 0 5 [1] [7, 8]])]"

definition demo_recs :: "sql_ref \<Rightarrow> krecord list" where
  "demo_recs s = (case map_of demo_table (sgSegmentKey s) of None \<Rightarrow> [] | Some rs \<Rightarrow> rs)"

definition table_env :: query_env where
  "table_env = demo_env\<lparr>evList := Ok demo_refs, evDecode := \<lambda>k _ _ _. Ok (case map_of demo_table k of None \<Rightarrow> [] | Some rs \<Rightarrow> rs)\<rparr>"

lemma table_env_up: "undisturbed table_env"
  by (simp add: undisturbed_def table_env_def demo_env_def)

lemma table_env_decodes: "evDecode table_env (sgSegmentKey s) (sgIndexKey s) (sgTopic s) (sgPartition s) = Ok (demo_recs s)"
  by (simp add: table_env_def demo_env_def demo_recs_def)

section \<open>Groups and joins\<close>


definition count_query :: query where
  "count_query = no_query\<lparr>qType := QuerySelect, qTopic := ''orders'', qGroupBy := [''_partition''], qScanFull := True, qOffsetMax := Some 2,
     qSelect := [no_column\<lparr>slKind := SelectColumnField, slRaw := ''_partition'', slAlias := ''_partition'', slColumn := ''_partition''\<rparr>,
       no_column\<lparr>slKind := SelectColumnAggregate, slRaw := ''count(*)'', slAlias := ''count'', slAggFunc := ''count'', slAggStar := True\<rparr>]\<rparr>"

definition count_plan :: aggregate_plan where
  "count_plan = \<lparr>apGroupCols = [implicit_column ''_partition''], apAggs = [\<lparr>spFunc = ''count'', spName = ''count'', spArg = AggStar\<rparr>],
     apOutputs = [OutputGroup ''_partition'' 0 23, OutputAggregate ''count'' 0 20]\<rparr>"

lemma count_query_plan: "buildAggregatePlan demo_sql_config count_query = Ok count_plan"
  by code_simp

lemma count_query_runs: "select_runs demo_lib demo_sql_config table_env count_query demo_refs None None 1000 0"
proof -
  have "unbounded demo_sql_config count_query = False" "select_limit demo_sql_config count_query = Ok (1000, 0)"
    "evList table_env = Ok demo_refs" "evLister table_env = Ok ()" "evDecoder table_env = Ok ()"
    "time_bounds demo_lib (evClock table_env 0) count_query = Ok (None, None)" "window_invalid None None = False"
    "qJoinTopic count_query = []" "qTopic count_query = ''orders''"
    "enforceScanLimits demo_sql_config (int (length (filterSegments count_query demo_refs None None)))
      (estimateBytes (filterSegments count_query demo_refs None None)) = Ok ()"
    by code_simp+
  then show ?thesis by (simp add: select_runs_def table_env_up)
qed


text \<open>
  C34: a join on a connection that stays up sends exactly what a nested loop over the records of both
  sides gives: for every record of the left side behind the start of the window, in order, one row per
  record of the whole right topic with the same non-empty join key and a timestamp within the window,
  and for a left join one row without a partner where there is none - cut at the limit, which is
  reported. The hash table of the right side loses no partner and invents none.
\<close>

theorem join_exact:
  assumes up: "undisturbed E" and ok: "qJoinTopic q \<noteq> []" "join_refused q = None" "parseDuration L (qTimeWindow q) = Ok within"
      "parseDuration L (qLast q) = Ok window" "join_limit cfg q = Ok lim" "0 < lim" "resolveJoinColumns cfg q = Ok cols"
    and env: "evLister E = Ok ()" "evDecoder E = Ok ()" "evList E = Ok segs" "time_bounds L (evClock E 1) q = Ok (timeMin, timeMax)"
      "\<not> window_invalid timeMin timeMax"
    and on: "on = normalizeJoinCondition (case qJoinOn q of None \<Rightarrow> \<lparr>jcLeft = key_expr ''left'', jcRight = key_expr ''right''\<rparr> | Some c \<Rightarrow> c)"
    and sides: "lefts = filterSegments q segs timeMin timeMax" "rights = filter (\<lambda>s. sgTopic s = qJoinTopic q) segs"
      "enforceScanLimits cfg (int (length lefts + length rights)) (i64 (estimateBytes lefts + estimateBytes rights)) = Ok ()"
    and dec: "\<And>s. s \<in> set segs \<Longrightarrow> sgTopic s = qTopic q \<or> sgTopic s = qJoinTopic q \<Longrightarrow>
      evDecode E (sgSegmentKey s) (sgIndexKey s) (sgTopic s) (sgPartition s) = Ok (recs s)"
    and rows: "rows = take (nat lim) (concat (map (join_rows L q cols within on (join_records_of recs rights))
      (filter (\<lambda>r. unixMilli (evClock E 0 + i64 (- window)) \<le> rcTimestamp (jrRecord r)) (join_records_of recs lefts))))"
  shows "\<exists>res. handleSelect L cfg E q b =
    (Ok res, put_msgs (RowDescription (buildRowDescription cols) # map DataRow rows @ [CommandComplete (commandTag (int (length rows)))]) b) \<and>
    qrRows res = int (length rows)"
proof -
  let ?b = "put_msg b (RowDescription (buildRowDescription cols))" and ?start = "unixMilli (evClock E 0 + i64 (- window))"
  let ?n = "length lefts + length rights" and ?by = "groupByJoinKey L (join_records_of recs rights) (jcRight on)"
  have ls: "filterSegments (q\<lparr>qJoinTopic := []\<rparr>) segs timeMin timeMax = lefts" unfolding sides(1) by (simp add: filterSegments_def)
  have rs: "filterSegments (right_query q) segs None None = rights" unfolding sides(2)
    by (simp add: filterSegments_def right_query_def segmentMatchesOffsets_def segmentMatchesTimestamps_def)
  have mem: "s \<in> set segs \<and> sgTopic s = qTopic q" if "s \<in> set lefts" for s
    using that unfolding sides(1) filterSegments_def by simp
  have lin: "sgTopic s = qTopic q" "evDecode E (sgSegmentKey s) (sgIndexKey s) (sgTopic s) (sgPartition s) = Ok (recs s)" if "s \<in> set lefts" for s
    using mem [OF that] dec [of s] by blast+
  have rin: "sgTopic s = qJoinTopic q" "evDecode E (sgSegmentKey s) (sgIndexKey s) (sgTopic s) (sgPartition s) = Ok (recs s)" if "s \<in> set rights" for s
    using that dec [of s] unfolding sides(2) by simp_all
  from loadRecords_Ok [OF up lin, of lefts 0] obtain lb where lb: "loadRecords E (qTopic q) 0 lefts = Ok (join_records_of recs lefts, lb)" by blast
  from loadRecords_Ok [OF up rin, of rights "length lefts"] obtain rb where
    rb: "loadRecords E (qJoinTopic q) (length lefts) rights = Ok (join_records_of recs rights, rb)" by blast
  from join_loop_streamed [OF up ok(6), of L q cols within on "join_records_of recs rights" ?start ?n "join_records_of recs lefts" ?b]
  obtain sent full b' where
    loop: "join_loop L E q cols lim within on ?by ?start ?n (join_records_of recs lefts) 0 ?b = (Ok (sent, full), b')"
    and st: "streamed lim (concat (map (join_rows L q cols within on (join_records_of recs rights))
      (filter (\<lambda>r. ?start \<le> rcTimestamp (jrRecord r)) (join_records_of recs lefts)))) 0 ?b sent full b'" by blast
  have run: "handleSelect L cfg E q b =
    qbind (join_loop L E q cols lim within on ?by ?start ?n (join_records_of recs lefts) 0) (\<lambda>(sent, full).
      let res = scan_result sent ?n (lb + rb) in
      if full then qret res else qbind (qignore (qsend E (CommandComplete (commandTag sent)))) (\<lambda>_. qret res)) ?b"
    unfolding handleSelect_def handleJoinSelect_def Let_def
    by (simp add: ok env quiet_simps [OF up] ls rs sides(3) on [symmetric] lb rb del: of_nat_add One_nat_def cong: if_cong)
  have ran: "handleSelect L cfg E q b = (Ok (scan_result sent ?n (lb + rb)), if full then b' else put_msg b' (CommandComplete (commandTag sent)))"
    unfolding run by (simp add: qbind_def loop qignore_quiet [OF up] Let_def)
  have "max 1 lim = lim" using ok(6) by linarith
  note all = streamed_all [OF st, unfolded this, folded rows]
  show ?thesis
    by (rule exI [of _ "scan_result sent ?n (lb + rb)"]) (simp add: ran all(2) del: of_nat_add, simp add: scan_result_def all(1))
qed

definition join_query :: query where
  "join_query = no_query\<lparr>qType := QuerySelect, qTopic := ''orders'', qTopicAlias := ''o'', qJoinTopic := ''users'', qJoinAlias := ''u'', qJoinType := ''left'',
     qTimeWindow := ''1h'', qLast := ''1h'', qLimit := ''4'',
     qSelect := [no_column\<lparr>slKind := SelectColumnField, slAlias := ''_offset'', slSource := ''o'', slColumn := ''_offset''\<rparr>,
       no_column\<lparr>slKind := SelectColumnField, slAlias := ''_value'', slSource := ''u'', slColumn := ''_value''\<rparr>]\<rparr>"

definition join_columns :: "resolved_column list" where
  "join_columns = [(implicit_column ''_offset'')\<lparr>clSource := ''left''\<rparr>, (implicit_column ''_value'')\<lparr>clSource := ''right''\<rparr>]"

definition join_env :: query_env where
  "join_env = table_env\<lparr>evClock := \<lambda>_. (62135596800000 + 3600012) * 10 ^ 6\<rparr>"

theorem join_exact_witness:
  "\<exists>res. handleSelect demo_lib demo_sql_config join_env join_query \<lparr>bkSent = [], bkCollector = None\<rparr> =
    (Ok res, put_msgs ([RowDescription (buildRowDescription join_columns)] @
       map DataRow [[Some ''1'', None], [Some ''2'', Some (CHR 0x5C # ''x0708'')], [Some ''3'', None], [Some ''0'', None]] @ [CommandComplete ''SELECT 4''])
       \<lparr>bkSent = [], bkCollector = None\<rparr>) \<and> qrRows res = 4"
proof -
  let ?on = "\<lparr>jcLeft = key_expr ''left'', jcRight = key_expr ''right''\<rparr>" and ?b = "\<lparr>bkSent = [], bkCollector = None\<rparr>"
  let ?ls = "filterSegments join_query demo_refs (Some 12) (Some 3600012)" and ?rs = "filter (\<lambda>s. sgTopic s = qJoinTopic join_query) demo_refs"
  have up: "undisturbed join_env" using table_env_up by (simp add: join_env_def undisturbed_def)
  have ok: "qJoinTopic join_query \<noteq> []" "join_refused join_query = None" "parseDuration demo_lib (qTimeWindow join_query) = Ok (3600 * 10 ^ 9)"
    "parseDuration demo_lib (qLast join_query) = Ok (3600 * 10 ^ 9)" "join_limit demo_sql_config join_query = Ok 4" "(0 :: int) < 4"
    "resolveJoinColumns demo_sql_config join_query = Ok join_columns"
    by code_simp+
  have env: "evLister join_env = Ok ()" "evDecoder join_env = Ok ()" "evList join_env = Ok demo_refs"
    "time_bounds demo_lib (evClock join_env 1) join_query = Ok (Some 12, Some 3600012)" "\<not> window_invalid (Some 12) (Some 3600012)"
    by code_simp+
  have on: "?on = normalizeJoinCondition (case qJoinOn join_query of None \<Rightarrow> ?on | Some c \<Rightarrow> c)" by code_simp
  have lim: "enforceScanLimits demo_sql_config (int (length ?ls + length ?rs)) (i64 (estimateBytes ?ls + estimateBytes ?rs)) = Ok ()" by code_simp
  have rows: "[[Some ''1'', None], [Some ''2'', Some (CHR 0x5C # ''x0708'')], [Some ''3'', None], [Some ''0'', None]] =
      take (nat 4) (concat (map (join_rows demo_lib join_query join_columns (3600 * 10 ^ 9) ?on (join_records_of demo_recs ?rs))
        (filter (\<lambda>r. unixMilli (evClock join_env 0 + i64 (- (3600 * 10 ^ 9))) \<le> rcTimestamp (jrRecord r)) (join_records_of demo_recs ?ls))))"
    by code_simp
  have "commandTag 4 = ''SELECT 4''" by code_simp
  then show ?thesis
    using join_exact [OF up ok env on refl refl lim _ rows, of ?b] table_env_decodes by (simp add: join_env_def)
qed

end
