(* ===== verification/Sql_Log.thy ===== *)
theory Sql_Log
  imports Sql_Correctness Processor_Export
begin

text \<open>
  From the log of a broker to the rows of a query: the segments the SQL processor lists for a log are
  those of the log, and a select over them returns the records the log holds.
\<close>

section \<open>The segments of a log in the listing of the SQL processor\<close>

text \<open>The records behind a segment of the log; other segments are not looked at.\<close>

definition log_segment :: "'s plog \<Rightarrow> record_batch list list \<Rightarrow> kbatch list list \<Rightarrow> seg_id \<Rightarrow> krecord list" where
  "log_segment l G kbss i =
     (case map_of (zip (map (\<lambda>s. log_id l (srBase s)) (plSegments l)) (map2 (segment_records (plTopic l) (plPartition l)) G kbss)) i of
        Some rs \<Rightarrow> rs | None \<Rightarrow> [])"

lemma log_segment_nth:
  assumes l: "log_ok segs idx ok l G" and k: "list_all2 (list_all2 deltas_ok) G kbss" and i: "i < length G"
  shows "log_segment l G kbss (log_id l (srBase (plSegments l ! i))) = segment_records (plTopic l) (plPartition l) (G ! i) (kbss ! i)"
proof -
  have len: "length (plSegments l) = length G" "length G = length kbss"
    using l list_all2_lengthD [OF k] by (auto simp: log_ok_def log_inv_def dest: list_all2_lengthD)
  have "sorted_wrt (<) (map srBase (plSegments l))" using log_ok_bases(1) [OF l] by (simp add: sorted_wrt_map)
  then have "distinct (map srBase (plSegments l))" by (simp add: strict_sorted_iff)
  then have d: "distinct (map (\<lambda>s. log_id l (srBase s)) (plSegments l))" by (simp add: distinct_map inj_on_def log_id_def)
  let ?ids = "map (\<lambda>s. log_id l (srBase s)) (plSegments l)" and ?rss = "map2 (segment_records (plTopic l) (plPartition l)) G kbss"
  have "map_of (zip ?ids ?rss) (?ids ! i) = Some (?rss ! i)" using d i len by (intro map_of_zip_nth) simp_all
  then show ?thesis using i len by (simp add: log_segment_def)
qed

lemma log_segment_cases:
  assumes l: "log_ok segs idx ok l G" and k: "list_all2 (list_all2 deltas_ok) G kbss" and x: "x \<in> set (log_segment l G kbss i)"
  obtains j where "j < length G" "i = log_id l (srBase (plSegments l ! j))" "x \<in> set (segment_records (plTopic l) (plPartition l) (G ! j) (kbss ! j))"
proof -
  have len: "length (plSegments l) = length G" using l by (auto simp: log_ok_def log_inv_def dest: list_all2_lengthD)
  from x obtain rs where "map_of (zip (map (\<lambda>s. log_id l (srBase s)) (plSegments l)) (map2 (segment_records (plTopic l) (plPartition l)) G kbss)) i = Some rs"
    unfolding log_segment_def by (cases "map_of (zip (map (\<lambda>s. log_id l (srBase s)) (plSegments l)) (map2 (segment_records (plTopic l) (plPartition l)) G kbss)) i") auto
  then have "i \<in> set (map (\<lambda>s. log_id l (srBase s)) (plSegments l))" by (auto dest!: map_of_SomeD set_zip_leftD)
  then obtain j where j: "j < length G" "i = log_id l (srBase (plSegments l ! j))" using len by (auto simp: in_set_conv_nth)
  with x log_segment_nth [OF l k j(1)] show thesis using that by simp
qed

lemma log_segment_bounds:
  assumes l: "log_ok segs idx ok l G" and k: "list_all2 (list_all2 deltas_ok) G kbss"
  shows "x \<in> set (log_segment l G kbss (t, p, b)) \<Longrightarrow> b \<le> rcOffset x"
    and "log_objects parse l objs \<Longrightarrow> apart (log_segment l G kbss) {i. listed parse objs i KindKfs}"
proof -
  show "b \<le> rcOffset x" if "x \<in> set (log_segment l G kbss (t, p, b))"
  proof -
    from log_segment_cases [OF l k that] obtain j where "j < length G" "(t, p, b) = log_id l (srBase (plSegments l ! j))"
      "x \<in> set (segment_records (plTopic l) (plPartition l) (G ! j) (kbss ! j))" by blast
    then show ?thesis using log_segment_records(2) [OF l k, of j] by (simp add: log_id_def)
  qed
  have len: "length (plSegments l) = length G" using l by (auto simp: log_ok_def log_inv_def dest: list_all2_lengthD)
  have srt: "sorted_wrt (\<lambda>a b. srLast a < srBase b) (plSegments l)" "sorted_wrt (\<lambda>a b. srBase a < srBase b) (plSegments l)"
    using l log_ok_bases(1) [OF l] by (simp_all add: log_ok_def log_inv_def sorted_wrt_map)
  assume o: "log_objects parse l objs"
  show "apart (log_segment l G kbss) {i. listed parse objs i KindKfs}"
    unfolding apart_def mem_Collect_eq
  proof (intro allI impI ballI)
    fix t p b b' x assume b': "listed parse objs (t, p, b') KindKfs" "b < b'" and x: "x \<in> set (log_segment l G kbss (t, p, b))"
    from log_segment_cases [OF l k x] obtain j where j: "j < length G" "(t, p, b) = log_id l (srBase (plSegments l ! j))"
      "x \<in> set (segment_records (plTopic l) (plPartition l) (G ! j) (kbss ! j))" by blast
    have "listed parse objs (log_id l b') KindKfs" using b'(1) j(2) by (simp add: log_id_def)
    with o have "b' \<in> srBase ` set (plSegments l)" by (auto simp: log_objects_def)
    then obtain m where m: "m < length G" "b' = srBase (plSegments l ! m)" using len by (auto simp: in_set_conv_nth)
    have b: "srBase (plSegments l ! j) < srBase (plSegments l ! m)" using b'(2) j(2) m(2) by (simp add: log_id_def)
    have "j < m"
    proof (rule ccontr)
      assume "\<not> j < m"
      then have "m = j \<or> m < j" by auto
      then show False using b sorted_wrt_nth_less [OF srt(2), of m j] j(1) len by auto
    qed
    from sorted_wrt_nth_less [OF srt(1) this] m len log_segment_records(2) [OF l k j(1,3)] show "rcOffset x < b'" by simp
  qed
qed

lemma sql_log_listed:
  assumes l: "log_ok segs idx ok l G" and n: "log_exposed l prfx"
    and o: "log_objects (sql_parseSegmentKey prfx) l (concat conts)" and c: "canonical (sql_parseSegmentKey prfx) prfx (concat conts)"
    and tails: "tails_of (log_segments segs l) getTail"
  obtains refs where "sql_ListCompleted (map Ok conts) getTail prfx ks = Ok refs"
    "map ref_id (filter (\<lambda>r. sgTopic r = plTopic l \<and> sgPartition r = plPartition l) refs) = map (\<lambda>s. log_id l (srBase s)) (plSegments l)"
    "\<And>r. r \<in> set refs \<Longrightarrow> sgSegmentKey r = object_key prfx (ref_id r) KindKfs \<and> sgIndexKey r = object_key prfx (ref_id r) KindIndex"
proof -
  let ?parse = "sql_parseSegmentKey prfx" and ?mine = "\<lambda>i :: seg_id. fst i = plTopic l \<and> fst (snd i) = plPartition l"
  obtain rs where rs: "sql_ListCompleted (map Ok conts) getTail prfx ks = Ok (set_max_offsets rs)"
    "sorted_wrt (\<lambda>a b. ref_id a < ref_id b) rs"
    and ids: "\<And>i. i \<in> ref_id ` set rs \<longleftrightarrow> listed ?parse (concat conts) i KindKfs \<and>
       listed ?parse (concat conts) i KindIndex \<and> hasFooterMagic getTail (object_key prfx i KindKfs) = Ok True"
    and keys: "\<And>r. r \<in> set rs \<Longrightarrow> \<exists>r0. sgMinOffset r0 = Some (sgBaseOffset r0) \<and> sgMaxOffset r0 = None \<and>
       sgMinTimestamp r0 = None \<and> sgMaxTimestamp r0 = None \<and> same_segment r r0 \<and>
       sgSegmentKey r = object_key prfx (ref_id r) KindKfs \<and> sgIndexKey r = object_key prfx (ref_id r) KindIndex \<and>
       r = (case ks of None \<Rightarrow> r0 | Some sfx \<Rightarrow> enrich getTail sfx r0)" by (rule sql_listing [OF c, of getTail ks]) blast
  have parse: "?parse (object_key prfx (log_id l b) kind) = Some (log_id l b, kind)" if "in_i64 b" for b kind
    by (rule parse_object_key(2) [OF log_exposed_keys(3) [OF n that]])
  note log = log_ids [OF l n o c parse tails]
  show thesis
  proof (rule that [OF rs(1)])
    let ?refs = "set_max_offsets rs"
    have "(\<lambda>r :: sql_ref. sgTopic r = plTopic l \<and> sgPartition r = plPartition l) = ?mine \<circ> ref_id" by (auto simp: ref_id_def)
    then have f: "map ref_id (filter (\<lambda>r. sgTopic r = plTopic l \<and> sgPartition r = plPartition l) ?refs) = filter ?mine (map ref_id rs)"
      by (simp add: filter_map [symmetric])
    have "sorted_wrt (<) (filter ?mine (map ref_id rs))" using rs(2) by (simp add: sorted_wrt_filter sorted_wrt_map)
    moreover have "sorted_wrt (<) (map (\<lambda>s. log_id l (srBase s)) (plSegments l))"
      using log_ok_bases(1) [OF l] by (simp add: sorted_wrt_map log_id_def)
    moreover have "set (filter ?mine (map ref_id rs)) = set (map (\<lambda>s. log_id l (srBase s)) (plSegments l))"
    proof -
      have "i \<in> set (filter ?mine (map ref_id rs)) \<longleftrightarrow> i \<in> (\<lambda>s. log_id l (srBase s)) ` set (plSegments l)" for i
        using ids [of i] log [of "snd (snd i)"] by (cases i) (auto simp: log_id_def image_iff)
      then show ?thesis by auto
    qed
    ultimately have "filter ?mine (map ref_id rs) = map (\<lambda>s. log_id l (srBase s)) (plSegments l)"
      by (simp add: strict_sorted_equal)
    with f show "map ref_id (filter (\<lambda>r. sgTopic r = plTopic l \<and> sgPartition r = plPartition l) ?refs) = map (\<lambda>s. log_id l (srBase s)) (plSegments l)"
      by simp
    fix r assume "r \<in> set ?refs"
    then obtain i where "i < length rs" "same_segment r (rs ! i)"
      using set_max_same [of rs] by (auto simp: list_all2_conv_all_nth in_set_conv_nth)
    with keys [of "rs ! i"] show "sgSegmentKey r = object_key prfx (ref_id r) KindKfs \<and> sgIndexKey r = object_key prfx (ref_id r) KindIndex"
      by (auto simp: same_segment_def)
  qed
qed

section \<open>A select over a log\<close>

text \<open>The rows of a log: one for each record of it that matches, in the order of the offsets.\<close>

definition log_rows ::
  "'f sql_lib \<Rightarrow> resolved_column list \<Rightarrow> query \<Rightarrow> int option \<Rightarrow> int option \<Rightarrow> 's plog \<Rightarrow> record_batch list list \<Rightarrow> kbatch list list \<Rightarrow> row_result list" where
  "log_rows L cols q timeMin timeMax l G kbss =
     concat (map2 (\<lambda>s (g, kbs). map (record_row L cols (segmentKey l (srBase s)))
       (filter (record_matches q timeMin timeMax) (segment_records (plTopic l) (plPartition l) g kbs))) (plSegments l) (zip G kbss))"

text \<open>
  C8: a select without aggregates over one partition, run by the SQL processor on a connection that
  stays up, sends the header, exactly the rows of the records of the log of that partition that match
  its filters - those the producers sent, with the offsets the broker acknowledged - restricted by
  its limit, tail or order, and their number. Segments that are left out because of their offset
  bounds or of their time index never hold a row of the result.
\<close>

theorem log_queried:
  assumes l: "log_ok segs idx ok l G" "\<forall>s \<in> set (plSegments l). srSize s < 2 ^ 31" and named: "log_exposed l prfx"
    and kbs: "list_all2 (list_all2 (client_batch small_delta)) G kbss" "list_all2 (list_all2 deltas_ok) G kbss"
    and listing: "evList E = sql_ListCompleted (map Ok conts) getTail prfx ks"
      "log_objects (sql_parseSegmentKey prfx) l (concat conts)" "canonical (sql_parseSegmentKey prfx) prfx (concat conts)"
      "tails_of (log_segments segs l) getTail"
    and foot: "\<And>i sfx f. ks = Some sfx \<Longrightarrow> i < length G \<Longrightarrow> readFooter getTail (timeIndexKey sfx (segmentKey l (srBase (plSegments l ! i)))) = Ok f \<Longrightarrow>
      footer_holds f (segment_records (plTopic l) (plPartition l) (G ! i) (kbss ! i))"
    and dec: "evDecode E = sql_Decode getObject"
    and get: "\<And>k d. log_segments segs l k = Some d \<Longrightarrow> getObject k = Ok d" "\<And>k d. log_indexes idx l k = Some d \<Longrightarrow> getObject k = Ok d"
    and q: "select_runs L cfg E q refs timeMin timeMax lim tailCount" "qTopic q = plTopic l" "qPartition q = Some (plPartition l)"
      "\<not> hasAggregates (qSelect q)" "resolveSelectColumns cfg (qTopic q) (qSelect q) = Ok cols"
    and rows: "rows = select_rows L q lim tailCount (log_rows L cols q timeMin timeMax l G kbss)"
  shows "\<exists>res. handleSelect L cfg E q b =
    (Ok res, put_msgs (RowDescription (buildRowDescription cols) # map DataRow (map rrValues rows) @ [CommandComplete (commandTag (int (length rows)))]) b) \<and>
    qrRows res = int (length rows)"
proof -
  let ?t = "plTopic l" and ?p = "plPartition l" and ?recs = "\<lambda>r :: sql_ref. log_segment l G kbss (ref_id r)"
  have len: "length (plSegments l) = length G" "length G = length kbss"
    using l(1) list_all2_lengthD [OF kbs(1)] by (auto simp: log_ok_def log_inv_def dest: list_all2_lengthD)
  have sel: "selects_segment q = (\<lambda>r. sgTopic r = ?t \<and> sgPartition r = ?p)" using q(2,3) by (auto simp: selects_segment_def)
  have refs: "sql_ListCompleted (map Ok conts) getTail prfx ks = Ok refs" using q(1) listing(1) by (simp add: select_runs_def)
  from sql_log_listed [OF l(1) named listing(2-4), of ks] refs have mine: "map ref_id (filter (selects_segment q) refs) = map (\<lambda>s. log_id l (srBase s)) (plSegments l)"
    and keys: "\<And>r. r \<in> set refs \<Longrightarrow> sgSegmentKey r = object_key prfx (ref_id r) KindKfs \<and> sgIndexKey r = object_key prfx (ref_id r) KindIndex"
    unfolding sel by auto
  have at: "\<exists>i < length G. ref_id r = log_id l (srBase (plSegments l ! i))" if "r \<in> set (filter (selects_segment q) refs)" for r
  proof -
    have "ref_id r \<in> set (map ref_id (filter (selects_segment q) refs))" using that by simp
    then show ?thesis unfolding mine using len(1) by (auto simp: in_set_conv_nth)
  qed
  have decoded: "sql_Decode getObject (segmentKey l (srBase (plSegments l ! i))) (indexKey l (srBase (plSegments l ! i))) ?t ?p =
      Ok (segment_records ?t ?p (G ! i) (kbss ! i))" if i: "i < length G" for i
    unfolding segment_records_def
    by (rule stored_segment_decoded [OF l(1) i refl _ get(1) get(2), THEN conjunct1])
       (use l(2) len(1) i list_all2_nthD [OF kbs(1) i] in \<open>auto simp: log_segments_def log_indexes_def\<close>)
  have "evDecode E (sgSegmentKey r) (sgIndexKey r) (sgTopic r) (sgPartition r) = Ok (?recs r) \<and> bounds_hold r (?recs r)"
    if r: "r \<in> set refs" "selects_segment q r" for r
  proof
    from at [of r] r obtain i where i: "i < length G" "ref_id r = log_id l (srBase (plSegments l ! i))" by auto
    show "evDecode E (sgSegmentKey r) (sgIndexKey r) (sgTopic r) (sgPartition r) = Ok (?recs r)"
      using decoded [OF i(1)] keys [OF r(1)] r(2) log_segment_nth [OF l(1) kbs(2) i(1)]
      unfolding dec i(2) log_exposed_keys(1,2) [OF named, symmetric] sel by simp
    show "bounds_hold r (?recs r)"
    proof (rule sql_listing_bounds [OF listing(3) refs log_segment_bounds(1) [OF l(1) kbs(2)] log_segment_bounds(2) [OF l(1) kbs(2) listing(2)] _ r(1)])
      fix i sfx f assume f: "ks = Some sfx" "readFooter getTail (timeIndexKey sfx (object_key prfx i KindKfs)) = Ok f"
      show "footer_holds f (log_segment l G kbss i)"
        unfolding footer_holds_def
      proof
        fix x assume "x \<in> set (log_segment l G kbss i)"
        from log_segment_cases [OF l(1) kbs(2) this] obtain j where j: "j < length G" "i = log_id l (srBase (plSegments l ! j))"
          "x \<in> set (segment_records ?t ?p (G ! j) (kbss ! j))" by blast
        with foot [OF f(1) j(1)] f(2) show "tfMinOffset f \<le> rcOffset x \<and> rcOffset x \<le> tfMaxOffset f \<and> tfMinTS f \<le> rcTimestamp x \<and> rcTimestamp x \<le> tfMaxTS f"
          by (simp add: log_exposed_keys [OF named] footer_holds_def)
      qed
    qed
  qed
  moreover have "rows_of L cols q timeMin timeMax ?recs (filter (selects_segment q) refs) = log_rows L cols q timeMin timeMax l G kbss"
  proof -
    let ?row = "\<lambda>i. map (record_row L cols (object_key prfx i KindKfs)) (filter (record_matches q timeMin timeMax) (log_segment l G kbss i))"
    have "rows_of L cols q timeMin timeMax ?recs (filter (selects_segment q) refs) = concat (map ?row (map ref_id (filter (selects_segment q) refs)))"
      unfolding map_map comp_def by (intro arg_cong [of _ _ concat] map_cong refl) (use keys in simp)
    also have "\<dots> = log_rows L cols q timeMin timeMax l G kbss"
      unfolding mine log_rows_def using len log_segment_nth [OF l(1) kbs(2)]
      by (intro arg_cong [of _ _ concat] nth_equalityI) (simp_all add: log_exposed_keys [OF named])
    finally show ?thesis .
  qed
  ultimately show ?thesis using plain_select_exact [OF q(1,4,5), of ?recs b] unfolding rows by simp
qed

definition value_query :: query where
  "value_query = no_query\<lparr>qType := QuerySelect, qTopic := ''t'', qSelect := [no_column\<lparr>slKind := SelectColumnField, slRaw := ''_value'', slAlias := ''_value'', slColumn := ''_value''\<rparr>],
     qPartition := Some 0, qScanFull := True\<rparr>"

definition log_env :: "memory_s3 plog \<Rightarrow> query_env" where
  "log_env l = demo_env\<lparr>evList := sql_ListCompleted [Ok (log_node_listing l)] (node_tail (log_node_objects l)) ''ns/'' None,
     evDecode := sql_Decode (node_get (log_node_objects l))\<rparr>"

lemma value_row:
  "rcValue r = Some [7, 8] \<Longrightarrow> rrValues (record_row L [implicit_column ''_value''] seg r) = [Some (CHR 0x5C # ''x0708'')]"
proof -
  have "encodeBytea (Some [7, 8]) = Some (CHR 0x5C # ''x0708'')" by code_simp
  then show "rcValue r = Some [7, 8] \<Longrightarrow> ?thesis"
    by (simp add: record_row_def buildRowValues_def columnValue_def implicit_column_def selectRecord_def left_context_def)
qed

lemma value_query_runs:
  assumes "sql_ListCompleted [Ok (log_node_listing l)] (node_tail (log_node_objects l)) ''ns/'' None = Ok refs"
    and "length (filter (selects_segment value_query) refs) = 1"
  shows "select_runs demo_lib demo_sql_config (log_env l) value_query refs None None 1000 0"
proof -
  have "length (filterSegments value_query refs None None) \<le> length (filter (selects_segment value_query) refs)"
  proof -
    have "filterSegments value_query refs None None =
        filter (\<lambda>s. segmentMatchesOffsets s (qOffsetMin value_query) (qOffsetMax value_query) \<and> segmentMatchesTimestamps s None None)
          (filter (selects_segment value_query) refs)"
      by (simp add: filterSegments_def selects_segment_def conj_ac)
    then show ?thesis by (simp only: length_filter_le)
  qed
  then show ?thesis using assms
    by (simp add: select_runs_def undisturbed_def log_env_def demo_env_def unbounded_def demo_sql_config_def select_limit_def value_query_def no_query_def
      time_bounds_def window_invalid_def enforceScanLimits_def)
qed

theorem log_queried_witness:
  "\<exists>l res. mem_log_ok l [[patched client_record_batch 0]] \<and>
     handleSelect demo_lib demo_sql_config (log_env l) value_query \<lparr>bkSent = [], bkCollector = None\<rparr> =
       (Ok res, put_msgs [RowDescription [\<lparr>fdName = ''_value'', fdOID = 17, fdSize = - 1\<rparr>], DataRow [Some (CHR 0x5C # ''x0708'')], CommandComplete ''SELECT 1'']
         \<lparr>bkSent = [], bkCollector = None\<rparr>) \<and> qrRows res = 1"
proof -
  obtain a l where l: "mem_log_ok l [[patched client_record_batch 0]]" "plSegments l = [new_segment a]"
    "srBase (new_segment a) = 0" "srSize (new_segment a) < 2 ^ 31" "conf l = conf demo_log" by (rule demo_client_log)
  have f: "plNamespace l = ''ns''" "plTopic l = ''t''" "plPartition l = 0"
    using l(5) by (simp_all add: conf_def demo_log_def NewPartitionLog_def)
  have named: "log_exposed l ''ns/''"
    using f by (simp add: log_exposed_def clean_ns_def plain_elem_def in_i32_def normalizePrefix_def Trim_slash_def)
  note keys = log_exposed_keys [OF named, of 0]
  have objs: "concat [log_node_listing l] = map (\<lambda>k. \<lparr>loKey = k, loSize = 100, loModified = 1\<rparr>) [segmentKey l 0, indexKey l 0]"
    using l(2,3) by (simp add: log_node_listing_def)
  have parse: "sql_parseSegmentKey ''ns/'' (object_key ''ns/'' (log_id l 0) kind) = Some (log_id l 0, kind)" for kind
    using parse_object_key(2) [OF keys(3)] by (simp add: in_i64_def)
  have lo: "log_objects (sql_parseSegmentKey ''ns/'') l (concat [log_node_listing l])"
    unfolding objs log_objects_def listed_def keys(1,2) using l(2,3) parse keys(1,2) by (auto simp: log_id_def)
  have ca: "canonical (sql_parseSegmentKey ''ns/'') ''ns/'' (concat [log_node_listing l])"
    unfolding objs canonical_def keys(1,2) using parse by auto
  have ne: "segmentKey l 0 \<noteq> indexKey l 0" unfolding keys(1,2) by (simp add: object_key_def log_id_def segment_name_def index_name_def)
  have get: "log_segments mem_segs l k = Some d \<Longrightarrow> node_get (log_node_objects l) k = Ok d"
    "log_indexes mem_idx l k = Some d \<Longrightarrow> node_get (log_node_objects l) k = Ok d" for k d
    using ne l(2,3) by (auto simp: node_get_def log_node_objects_def log_segments_def log_indexes_def split: if_splits)
  have tails: "tails_of (log_segments mem_segs l) (node_tail (log_node_objects l))"
    by (simp add: tails_of_def node_tail_def log_node_objects_def)
  have d: "list_all2 (list_all2 deltas_ok) [[patched client_record_batch 0]] [[demo_kbatch]]"
    by (simp add: deltas_ok_def demo_kbatch_def patched_def client_record_batch_def)
  have sel: "selects_segment value_query = (\<lambda>r. sgTopic r = plTopic l \<and> sgPartition r = plPartition l)"
    using f by (auto simp: selects_segment_def value_query_def no_query_def)
  obtain refs where refs: "sql_ListCompleted (map Ok [log_node_listing l]) (node_tail (log_node_objects l)) ''ns/'' None = Ok refs"
    "map ref_id (filter (selects_segment value_query) refs) = map (\<lambda>s. log_id l (srBase s)) (plSegments l)"
    using sql_log_listed [OF l(1) named lo ca tails, of None] unfolding sel by blast
  have "length (filter (selects_segment value_query) refs) = 1" using refs(2) l(2) by (metis length_map length_Cons list.size(3) One_nat_def)
  with refs(1) have runs: "select_runs demo_lib demo_sql_config (log_env l) value_query refs None None 1000 0" by (intro value_query_runs) simp_all
  let ?cols = "[implicit_column ''_value'']"
  have cols: "resolveSelectColumns demo_sql_config (qTopic value_query) (qSelect value_query) = Ok ?cols"
    by code_simp
  let ?rows = "select_rows demo_lib value_query 1000 0 (log_rows demo_lib ?cols value_query None None l [[patched client_record_batch 0]] [[demo_kbatch]])"
  have rows: "map rrValues ?rows = [[Some (CHR 0x5C # ''x0708'')]]" "length ?rows = 1"
    by (simp_all add: log_rows_def select_rows_def value_query_def no_query_def l(2) segment_records_def records_of_def rec_of_def demo_kbatch_def
      record_matches_def value_row)
  have "commandTag 1 = ''SELECT 1''" "buildRowDescription ?cols = [\<lparr>fdName = ''_value'', fdOID = 17, fdSize = - 1\<rparr>]" by code_simp+
  moreover have "\<exists>res. handleSelect demo_lib demo_sql_config (log_env l) value_query \<lparr>bkSent = [], bkCollector = None\<rparr> =
    (Ok res, put_msgs (RowDescription (buildRowDescription ?cols) # map DataRow (map rrValues ?rows) @ [CommandComplete (commandTag (int (length ?rows)))])
      \<lparr>bkSent = [], bkCollector = None\<rparr>) \<and> qrRows res = int (length ?rows)"
    by (rule log_queried [OF l(1) _ named _ d _ lo ca tails _ _ get runs _ _ _ cols refl, where ks = None])
       (use l(2,4) f demo_kbatch_fits in \<open>simp_all add: log_env_def value_query_def no_query_def no_column_def hasAggregates_def\<close>)
  ultimately show ?thesis using l(1) unfolding rows by auto
qed

end
