(* ===== verification/Sql_Behaviour.thy ===== *)
theory Sql_Behaviour
  imports Sql_Correctness
begin

text \<open>
  Which filters the parser takes, what the result cache keeps and answers, and what a connection runs
  after a statement that could not be parsed.
\<close>

section \<open>Filters\<close>

datatype where_filter = InPartition int | FromOffset int | ToOffset int

fun filter_fits :: "where_filter \<Rightarrow> bool" where
  "filter_fits (InPartition p) = in_i32 p"
| "filter_fits (FromOffset n) = in_i64 n"
| "filter_fits (ToOffset n) = in_i64 n"

fun filter_tokens :: "where_filter \<Rightarrow> string list" where
  "filter_tokens (InPartition p) = [''_partition'', ''='', fmt_d p]"
| "filter_tokens (FromOffset n) = [''_offset'', ''>='', fmt_d n]"
| "filter_tokens (ToOffset n) = [''_offset'', ''<='', fmt_d n]"

text \<open>The tokens of a conjunction.\<close>

fun where_tokens :: "where_filter list \<Rightarrow> string list" where
  "where_tokens [] = []"
| "where_tokens [f] = filter_tokens f"
| "where_tokens (f # fs) = filter_tokens f @ ''and'' # where_tokens fs"

text \<open>A later filter replaces an earlier one on the same bound.\<close>

fun apply_filter :: "int option \<times> int option \<times> int option \<Rightarrow> where_filter \<Rightarrow> int option \<times> int option \<times> int option" where
  "apply_filter (p, lo, hi) (InPartition n) = (Some n, lo, hi)"
| "apply_filter (p, lo, hi) (FromOffset n) = (p, Some n, hi)"
| "apply_filter (p, lo, hi) (ToOffset n) = (p, lo, Some n)"

lemma filter_loop_filter:
  "filter_fits f \<Longrightarrow> filter_loop (filter_tokens f @ rest) p lo hi = (case apply_filter (p, lo, hi) f of (p, lo, hi) \<Rightarrow> filter_loop rest p lo hi)"
  by (cases f) (simp_all add: ParseInt_fmt_d_i32 ParseInt_fmt_d_i64)

lemma filter_loop_filters:
  "list_all filter_fits fs \<Longrightarrow>
    filter_loop (where_tokens fs @ rest) p lo hi = (case foldl apply_filter (p, lo, hi) fs of (p, lo, hi) \<Rightarrow> filter_loop rest p lo hi)"
proof (induction fs arbitrary: p lo hi rule: where_tokens.induct)
  case (2 f)
  then show ?case by (simp add: filter_loop_filter)
next
  case (3 f g fs)
  obtain p' lo' hi' where f: "apply_filter (p, lo, hi) f = (p', lo', hi')" by (cases "apply_filter (p, lo, hi) f")
  have "filter_loop (where_tokens (f # g # fs) @ rest) p lo hi = filter_loop (where_tokens (g # fs) @ rest) p' lo' hi'"
    using 3(2) f filter_loop_filter [of f "''and'' # where_tokens (g # fs) @ rest" p lo hi] by simp
  with 3 f show ?case by simp
qed simp

definition where_stops :: "string list" where
  "where_stops = [''limit'', ''last'', ''tail'', ''within'', ''scan'']"

definition where_words :: "string list" where
  "where_words = where_stops @ [''and'', ''_partition'', ''_offset'']"

lemma parseFilters_where: "''where'' \<notin> set pre \<Longrightarrow> parseFilters (pre @ ''where'' # rest) = filter_loop rest None None None"
  by (induction pre) (auto simp: parseFilters_def)

text \<open>
  C35: a conjunction of bounds on partition and offset behind \<open>WHERE\<close>, at the end of the query or in front of
  \<open>LIMIT\<close>, \<open>LAST\<close>, \<open>TAIL\<close>, \<open>WITHIN\<close> or \<open>SCAN\<close>, is parsed back to these bounds. Any other token behind it - a column
  such as \<open>_ts\<close> or \<open>_key\<close>, or \<open>GROUP\<close> and \<open>ORDER\<close> - makes the query fail.
\<close>

theorem filters_parsed:
  assumes "''where'' \<notin> set pre" "list_all filter_fits fs"
  shows "(rest = [] \<or> hd rest \<in> set where_stops \<longrightarrow>
      parseFilters (pre @ ''where'' # where_tokens fs @ rest) = Ok (foldl apply_filter (None, None, None) fs)) \<and>
    (rest \<noteq> [] \<and> hd rest \<notin> set where_words \<longrightarrow>
      parseFilters (pre @ ''where'' # where_tokens fs @ rest) = Err (ErrText ''unsupported where clause''))"
proof -
  obtain p lo hi where f: "foldl apply_filter (None, None, None) fs = (p, lo, hi)" by (cases "foldl apply_filter (None, None, None) fs")
  have *: "parseFilters (pre @ ''where'' # where_tokens fs @ rest) = filter_loop rest p lo hi"
    using filter_loop_filters [OF assms(2), of rest None None None] f by (simp add: parseFilters_where [OF assms(1)])
  show ?thesis unfolding * f by (cases rest) (auto simp: where_words_def where_stops_def)
qed

theorem filters_parsed_witness:
  "parseFilters ([''select'', ''*'', ''from'', ''t''] @ ''where'' # where_tokens [InPartition 1, FromOffset 5] @ [''limit'', ''3'']) = Ok (Some 1, Some 5, None) \<and>
   parseFilters ([''select'', ''*'', ''from'', ''t''] @ ''where'' # where_tokens [InPartition 1] @ [''order'', ''by'', ''_ts'']) = Err (ErrText ''unsupported where clause'')"
proof -
  have f: "list_all filter_fits [InPartition 1, FromOffset 5]" "list_all filter_fits [InPartition 1]" by (simp_all add: in_i32_def in_i64_def)
  have pre: "''where'' \<notin> set [''select'', ''*'', ''from'', ''t'']" by simp
  show ?thesis
    using filters_parsed [OF pre f(1), of "[''limit'', ''3'']"] filters_parsed [OF pre f(2), of "[''order'', ''by'', ''_ts'']"]
    by (simp add: where_stops_def where_words_def)
qed

section \<open>The result cache\<close>

definition result_cache_inv :: "result_cache \<Rightarrow> bool" where
  "result_cache_inv c \<longleftrightarrow> 0 < rsMaxEntries c \<and> distinct (rsOrder c) \<and> distinct (map fst (rsEntries c)) \<and>
     set (rsOrder c) = fst ` set (rsEntries c) \<and> int (length (rsOrder c)) \<le> rsMaxEntries c"

lemma newResultCache_inv: "newResultCache ttl n = Some c \<Longrightarrow> result_cache_inv c"
  by (auto simp: newResultCache_def result_cache_inv_def split: if_splits)

lemma keys_delete: "fst ` set (AList.delete k al) = fst ` set al - {k}"
  by (metis AList.delete_keys list.set_map set_removeAll)

lemma rsGet_inv: "result_cache_inv c \<Longrightarrow> result_cache_inv (snd (rsGet now key c)) \<and> rsTTL (snd (rsGet now key c)) = rsTTL c"
proof -
  assume c: "result_cache_inv c"
  have "int (length (remove1 key (rsOrder c))) \<le> rsMaxEntries c" using c by (auto simp: result_cache_inv_def length_remove1)
  moreover have "distinct (map fst (AList.delete key (rsEntries c)))" using c by (simp add: result_cache_inv_def AList.distinct_delete)
  moreover have "fst ` set (AList.delete key (rsEntries c)) = fst ` set (rsEntries c) - {key}" by (rule keys_delete)
  ultimately show ?thesis using c by (auto simp: rsGet_def result_cache_inv_def split: option.splits)
qed

text \<open>At most one entry is evicted, the oldest, and never the one that was just stored.\<close>

lemma evict_oldest_one:
  assumes "0 < n" "int (length order) \<le> n"
  shows "evict_oldest n (order @ [key]) entries =
    (if int (length order) < n then (order @ [key], entries) else (tl order @ [key], AList.delete (hd order) entries))"
  using assms by (cases order; cases "tl order") auto

lemma rsSet_inv:
  assumes c: "result_cache_inv c"
  shows "result_cache_inv (rsSet key e c) \<and> map_of (rsEntries (rsSet key e c)) key = Some e \<and> rsTTL (rsSet key e c) = rsTTL c"
proof -
  let ?order = "if map_of (rsEntries c) key \<noteq> None then remove1 key (rsOrder c) else rsOrder c"
  have known: "map_of (rsEntries c) key \<noteq> None \<longleftrightarrow> key \<in> set (rsOrder c)" using c by (simp add: result_cache_inv_def map_of_eq_None_iff)
  have order: "distinct ?order" "key \<notin> set ?order" "set ?order = fst ` set (rsEntries c) - {key}" "int (length ?order) \<le> rsMaxEntries c"
    using c known by (auto simp: result_cache_inv_def length_remove1)
  have pos: "0 < rsMaxEntries c" using c by (simp add: result_cache_inv_def)
  let ?es = "AList.update key e (rsEntries c)"
  have es: "distinct (map fst ?es)" "fst ` set ?es = insert key (fst ` set (rsEntries c))" "map_of ?es key = Some e"
    using c by (simp_all add: result_cache_inv_def AList.distinct_update AList.dom_update AList.update_conv')
  show ?thesis
  proof (cases "int (length ?order) < rsMaxEntries c")
    case True
    then have s: "rsSet key e c = c\<lparr>rsOrder := ?order @ [key], rsEntries := ?es\<rparr>"
      using evict_oldest_one [OF pos order(4), of key ?es] by (simp add: rsSet_def)
    show ?thesis unfolding s using order es True pos by (auto simp: result_cache_inv_def)
  next
    case False
    then have "?order \<noteq> []" using pos by auto
    then obtain old rest where o: "?order = old # rest" by (cases ?order) auto
    have s: "rsSet key e c = c\<lparr>rsOrder := rest @ [key], rsEntries := AList.delete old ?es\<rparr>"
      using evict_oldest_one [OF pos order(4), of key ?es] False unfolding rsSet_def Let_def o by simp
    have d: "distinct (old # rest)" "key \<notin> set (old # rest)" using order(1,2) unfolding o by simp_all
    have "fst ` set (AList.delete old ?es) = insert key (set ?order) - {old}" using es(2) order(3) by (auto simp: keys_delete)
    then have k: "fst ` set (AList.delete old ?es) = insert key (set rest)" using d unfolding o by auto
    have "int (length (rest @ [key])) \<le> rsMaxEntries c" using order(4) unfolding o by simp
    moreover have "map_of (AList.delete old ?es) key = Some e" using d(2) es(3) by (simp add: AList.delete_conv')
    ultimately show ?thesis unfolding s using d es(1) k pos by (simp add: result_cache_inv_def AList.distinct_delete del: map_of_eq_Some_iff)
  qed
qed

text \<open>The collector keeps what was sent, up to its limit.\<close>

lemma capture_rows:
  assumes "rwMaxRows c \<le> 0 \<or> int (length (rwRows c) + length rows) \<le> rwMaxRows c"
  shows "foldl (\<lambda>c m. capture m c) c (map DataRow rows) = c\<lparr>rwRows := rwRows c @ rows\<rparr>"
  using assms
proof (induction rows arbitrary: c)
  case (Cons r rows)
  have "capture (DataRow r) c = c\<lparr>rwRows := rwRows c @ [r]\<rparr>" using Cons.prems by (auto simp: capture_def)
  with Cons.IH [of "c\<lparr>rwRows := rwRows c @ [r]\<rparr>"] Cons.prems show ?case by simp
qed simp

definition answer :: "field_description list \<Rightarrow> row_values list \<Rightarrow> string \<Rightarrow> backend_msg list" where
  "answer fds rows tag = RowDescription fds # map DataRow rows @ [CommandComplete tag]"

lemma collected_answer:
  assumes "fds \<noteq> []" "tag \<noteq> []" "n \<le> 0 \<or> int (length rows) \<le> n"
  shows "collector_entry now (foldl (\<lambda>c m. capture m c) (newRowCollector n) (answer fds rows tag)) =
    Some \<lparr>reCreated = now, reFields = fds, reRows = rows, reTag = tag, reRowsCount = int (length rows), reSegments = 0, reBytes = 0\<rparr>"
proof -
  have "foldl (\<lambda>c m. capture m c) (newRowCollector n) (answer fds rows tag) =
      capture (CommandComplete tag) (foldl (\<lambda>c m. capture m c) ((newRowCollector n)\<lparr>rwFields := fds\<rparr>) (map DataRow rows))"
    by (simp add: answer_def capture_def)
  also have "\<dots> = \<lparr>rwMaxRows = n, rwFields = fds, rwRows = rows, rwTag = tag, rwTruncated = False\<rparr>"
    using assms(2,3) by (subst capture_rows) (auto simp: newRowCollector_def capture_def)
  finally show ?thesis using assms(1) by (simp add: collector_entry_def)
qed

lemma Send_alone: "undisturbed E \<Longrightarrow> bkCollector b = None \<Longrightarrow> Send E m b = (Ok (), put_msg b m)"
  by (simp add: Send_def undisturbed_def put_msg_def)

lemma collector_put_None [simp]: "bkCollector (put_msg b m) = None \<longleftrightarrow> bkCollector b = None"
  by (simp add: put_msg_def)

lemma Send_rows_alone: "undisturbed E \<Longrightarrow> bkCollector b = None \<Longrightarrow> qsend_rows (Send E) rows b = (Ok (), put_msgs (map DataRow rows) b)"
  by (induction rows arbitrary: b) (simp_all add: qbind_def Send_alone)

lemma sendCached_answer:
  assumes "undisturbed E" "bkCollector b = None" "reTag e \<noteq> []"
  shows "sendCached E e b = (Ok (), put_msgs (answer (reFields e) (reRows e) (reTag e)) b)"
proof -
  let ?b = "put_msg b (RowDescription (reFields e))"
  have "bkCollector (put_msgs (map DataRow (reRows e)) ?b) = None" using assms(2) by (simp add: bkCollector_put)
  then show ?thesis using assms
    by (simp add: sendCached_def qbind_def Send_alone Send_rows_alone answer_def)
qed

lemma put_without_collector:
  "bkCollector b = None \<Longrightarrow> (put_msgs ms (b\<lparr>bkCollector := x\<rparr>))\<lparr>bkCollector := None\<rparr> = put_msgs ms b"
proof (induction ms arbitrary: b x)
  case (Cons m ms)
  have "put_msg (b\<lparr>bkCollector := x\<rparr>) m = (put_msg b m)\<lparr>bkCollector := map_option (capture m) x\<rparr>" by (simp add: put_msg_def)
  with Cons show ?case by simp
qed simp

text \<open>Nothing but the text in lower case and the window of the query are in the key.\<close>

definition same_window :: "query \<Rightarrow> query \<Rightarrow> bool" where
  "same_window q q' \<longleftrightarrow> qTail q' = qTail q \<and> qScanFull q' = qScanFull q \<and> qLast q' = qLast q \<and> qTsMin q' = qTsMin q \<and> qTsMax q' = qTsMax q"

definition same_text :: "string \<Rightarrow> string \<Rightarrow> bool" where
  "same_text t t' \<longleftrightarrow> ToLower (join_with CHR '' '' (Fields t')) = ToLower (join_with CHR '' '' (Fields t))"

lemma same_key: "same_window q q' \<Longrightarrow> same_text t t' \<Longrightarrow> query_cacheKey q' t' = query_cacheKey q t"
proof -
  assume a: "same_window q q'" "same_text t t'"
  have "cacheKey t' x = cacheKey t x" for x using a(2) by (simp add: same_text_def cacheKey_def)
  then show ?thesis using a(1) by (simp add: same_window_def query_cacheKey_def split: option.split)
qed


definition json_lib :: "int sql_lib" where
  "json_lib = demo_lib\<lparr>lbUnmarshal := \<lambda>_. Some (JObject [(''A'', JString ''upper''), (''a'', JString ''lower'')])\<rparr>"

definition json_query :: "string \<Rightarrow> query" where
  "json_query path = no_query\<lparr>qType := QuerySelect, qTopic := ''orders'', qLast := ''1h'', qLimit := ''2'',
     qSelect := [no_column\<lparr>slKind := SelectColumnJSONValue, slAlias := ''v'', slJSONPath := path\<rparr>]\<rparr>"

definition json_text :: "string \<Rightarrow> string" where
  "json_text path = ''select json_value(_value, '' @ [CHR 0x27] @ path @ [CHR 0x27] @ '') as v from orders last 1h limit 2''"

definition demo_result_cache :: result_cache where
  "demo_result_cache = \<lparr>rsTTL = 10 ^ 9, rsMaxEntries = 5, rsEntries = [], rsOrder = []\<rparr>"


section \<open>Prepared statements\<close>

text \<open>
  A statement that cannot be parsed is answered with an error, but the connection is not marked as
  failed: binding and executing its name runs the statement that had the name before.
\<close>

theorem failed_parse_runs_previous:
  assumes "\<not> cnFailed (seConn s)" "map_of (cnStatements (seConn s)) name = Some old"
    and "TrimSpace text \<noteq> []" "\<not> hasParameters (TrimSpace text)" "Parse (lbParseTime L) (TrimSpace text) = Err e"
    and "undisturbed E" "undisturbed E'"
  shows "\<exists>s'. sql_handleConnection L cfg [(MsgParse name text, E), (MsgBind portal name 0, E')] s = Ok s' \<and> \<not> cnFailed (seConn s') \<and>
    lookupStatement (seConn s') CHR ''P'' portal = Some old \<and>
    bkSent (seBackend s') = bkSent (seBackend s) @ [ErrorResponse (error_text e), BindComplete]"
proof -
  have send: "Send E m b = (Ok (), b\<lparr>bkSent := bkSent b @ [m]\<rparr>)" "Send E' m b = (Ok (), b\<lparr>bkSent := bkSent b @ [m]\<rparr>)" for m b
    using assms(6,7) by (simp_all add: Send_def undisturbed_def)
  let ?s1 = "s\<lparr>seBackend := (seBackend s)\<lparr>bkSent := bkSent (seBackend s) @ [ErrorResponse (error_text e)]\<rparr>\<rparr>"
  have "handle_message L cfg E (MsgParse name text) s = Ok ?s1"
    using assms(1,3-5) by (simp add: handle_message_def extended_def handleParse_def on_backend_def sendErrorResponse_def send)
  moreover have "\<exists>s'. handle_message L cfg E' (MsgBind portal name 0) ?s1 = Ok s' \<and> \<not> cnFailed (seConn s') \<and>
      lookupStatement (seConn s') CHR ''P'' portal = Some old \<and>
      bkSent (seBackend s') = bkSent (seBackend s) @ [ErrorResponse (error_text e), BindComplete]"
    using assms(1,2) by (simp add: handle_message_def extended_def handleBind_def on_backend_def send lookupStatement_def AList.update_conv')
  ultimately show ?thesis by auto
qed

theorem failed_parse_runs_previous_witness:
  "\<exists>s'. sql_handleConnection demo_lib demo_sql_config [(MsgParse ''s'' ''selec'', demo_env), (MsgBind ''p'' ''s'' 0, demo_env)]
      \<lparr>seConn = \<lparr>cnStatements = [(''s'', \<lparr>psQuery = ''show topics'', psParsed = plain_query (no_query\<lparr>qType := QueryShowTopics\<rparr>)\<rparr>)], cnPortals = [], cnFailed = False\<rparr>,
       seCache = None, seBackend = \<lparr>bkSent = [], bkCollector = None\<rparr>\<rparr> = Ok s' \<and>
    map_option psQuery (lookupStatement (seConn s') CHR ''P'' ''p'') = Some ''show topics'' \<and>
    bkSent (seBackend s') = [ErrorResponse ''unsupported statement'', BindComplete]"
proof -
  let ?s = "\<lparr>seConn = \<lparr>cnStatements = [(''s'', \<lparr>psQuery = ''show topics'', psParsed = plain_query (no_query\<lparr>qType := QueryShowTopics\<rparr>)\<rparr>)], cnPortals = [], cnFailed = False\<rparr>,
       seCache = None, seBackend = \<lparr>bkSent = [], bkCollector = None\<rparr>\<rparr>"
  have "TrimSpace ''selec'' = ''selec''" "\<not> hasParameters ''selec''" "Parse (lbParseTime demo_lib) ''selec'' = Err (ErrText ''unsupported statement'')"
    by code_simp+
  moreover have "undisturbed demo_env" by (simp add: undisturbed_def demo_env_def)
  ultimately have "\<exists>s'. sql_handleConnection demo_lib demo_sql_config [(MsgParse ''s'' ''selec'', demo_env), (MsgBind ''p'' ''s'' 0, demo_env)] ?s = Ok s' \<and> \<not> cnFailed (seConn s') \<and>
    lookupStatement (seConn s') CHR ''P'' ''p'' = Some \<lparr>psQuery = ''show topics'', psParsed = plain_query (no_query\<lparr>qType := QueryShowTopics\<rparr>)\<rparr> \<and>
    bkSent (seBackend s') = bkSent (seBackend ?s) @ [ErrorResponse (error_text (ErrText ''unsupported statement'')), BindComplete]"
    by (intro failed_parse_runs_previous) simp_all
  then show ?thesis by auto
qed

end
