(* ===== verification/Spec2Isabelle.thy ===== *)
theory Spec2Isabelle
  imports Log_Restore Broker_Server Response_Roundtrip S3_Health Group_Rebalance Broker_Behaviour Discovery_Bounds Processor_Faults Sql_Log Sql_Behaviour
begin

text \<open>
  Verification of KafScale (sources under \<^verbatim>\<open>src/\<close>), a Kafka-compatible broker that keeps its logs in an
  object store, and of the processors that read these logs.

  \<^bold>\<open>The program.\<close> Clients send Kafka requests over TCP. The connection loop frames and decodes them and
  hands them to the request handler of the broker. A produce request appends record batches to a partition log,
  which buffers them and flushes them as a segment object and an index object; a fetch request reads them
  back through a segment cache or by a range of the object. Topics, offsets and consumer groups live in a metadata
  store; the group coordinator keeps the membership of consumer groups in it. Processors list the
  segments in the object store, decode their records and export them to a sink, with leases and
  committed offsets in a checkpoint store. A query server answers SQL over the PostgreSQL protocol from the same
  segments.

  \<^bold>\<open>Conventions\<close> (\<open>Go_Base\<close>). A call that returns a value and an error is an \<open>outcome\<close>: \<open>Ok\<close>, \<open>Err\<close>, or \<open>Panic\<close> for a
  run-time panic. Go integers are HOL integers, wrapped to their width where an operation can overflow;
  bytes are \<open>8 word\<close>; strings are lists of their bytes; maps are association lists. Clock readings and random
  numbers are arguments. Third-party services (S3, etcd) are records of operations over a state of the
  world; what is assumed of them are the laws of a locale, and each locale is interpreted on an implementation of
  the development. Metrics and log messages are left out.

  \<^bold>\<open>Storage\<close> (\<^verbatim>\<open>pkg/storage\<close>, \<^verbatim>\<open>pkg/cache\<close>).
  \<^item> \<open>Segment_Format\<close>: \<^verbatim>\<open>types.go, recordbatch.go, index.go, segment.go\<close>; byte layout, index and footer round trips.
  \<^item> \<open>Write_Buffer\<close>: \<^verbatim>\<open>buffer.go\<close>; \<open>Segment_Cache\<close>: \<^verbatim>\<open>segment_cache.go\<close>, with its LRU invariant.
  \<^item> \<open>Object_Store\<close>: \<^verbatim>\<open>s3client.go, s3_memory.go\<close>, and the contract of a client as the locales \<open>s3_contract\<close> and
    \<open>s3_reliable\<close>.
  \<^item> \<open>Partition_Log\<close>: \<^verbatim>\<open>log.go\<close>. \<open>Log_Correctness\<close> proves the invariant of every run of a log (appends, flushes, reads,
    read-ahead goroutines), that it refines an append-only sequence of batches, and what a failed flush loses.
    \<open>Log_Restore\<close> proves that a log rebuilt from the store is the log that wrote it. \<open>Log_Frame\<close> proves that
    partitions do not disturb each other.

  \<^bold>\<open>Protocol\<close> (\<^verbatim>\<open>pkg/protocol\<close>).
  \<^item> \<open>Wire_Codec\<close>: \<^verbatim>\<open>encoding.go, frame.go\<close>; \<open>Wire_Request\<close>: \<^verbatim>\<open>request.go, api.go\<close>; \<open>Wire_Response\<close>: \<^verbatim>\<open>response.go\<close>.
  \<^item> \<open>Request_Safety\<close>: which frames make the decoder panic; \<open>Request_Roundtrip\<close> and \<open>Response_Roundtrip\<close>: decoding what was
    encoded, against encoders and decoders of the wire format as specification.
  \<^item> \<open>Broker_Server\<close>: \<^verbatim>\<open>pkg/broker/server.go\<close>, the connection loop over any handler.

  \<^bold>\<open>Metadata and groups\<close> (\<^verbatim>\<open>pkg/metadata\<close>, \<^verbatim>\<open>pkg/broker\<close>).
  \<^item> \<open>Topic_Id\<close>: \<^verbatim>\<open>topicid.go\<close> with SHA-1; \<open>Metadata_Store\<close>: \<^verbatim>\<open>store.go, codec.go\<close>; \<open>Store_Correctness\<close>: its invariant.
  \<^item> \<open>Group_Coordinator\<close>: \<^verbatim>\<open>coordinator.go\<close>; \<open>Group_Correctness\<close>: the invariant of every reachable coordinator over any
    store that keeps groups; \<open>Group_Rebalance\<close>: assignments, fencing, completion of a rebalance, restart.
  \<^item> \<open>S3_Health\<close>: \<^verbatim>\<open>s3_health.go\<close>, with 53-bit rounding of the quotients.

  \<^bold>\<open>The broker\<close> (\<^verbatim>\<open>cmd/broker/main.go\<close>).
  \<^item> \<open>Broker_Handler\<close>: the handler of every API over the logs, the store and the coordinator.
  \<^item> \<open>Broker_Logic\<close>: rules for invariants and relations of the handler's actions; \<open>Broker_Correctness\<close>: logs keep their
    invariant and only grow whatever requests arrive, so acknowledged records stay readable;
    \<open>Broker_Liveness\<close>: a produced record set is acknowledged and fetched; \<open>Broker_Behaviour\<close>: termination and refusals.

  \<^bold>\<open>Processors\<close> (\<^verbatim>\<open>addons/processors\<close>).
  \<^item> \<open>Segment_Decoder\<close>: both \<^verbatim>\<open>decoder.go\<close>; a stored segment decodes to the records its producers sent.
  \<^item> \<open>Segment_Discovery\<close>: both \<^verbatim>\<open>discovery\<close> packages; \<open>Discovery_Correctness\<close>: a listing is exact; \<open>Discovery_Bounds\<close>: offset
    and time bounds hold, time index and manifest round trips.
  \<^item> \<open>Checkpoint_Store\<close>: \<^verbatim>\<open>checkpoint.go, etcd.go\<close>; \<open>Iceberg_Processor\<close>: both \<^verbatim>\<open>processor.go\<close> as a fold over the events
    of their select loop; \<open>Processor_Node\<close>: an environment that keeps the contracts, and what holds of every run;
    \<open>Processor_Export\<close>: from the log of the broker to the sink, exactly once and in order; \<open>Processor_Faults\<close>: lost records
    and stolen leases.

  \<^bold>\<open>The SQL processor\<close> (\<^verbatim>\<open>addons/processors/sql-processor\<close>).
  \<^item> \<open>Sql_Query\<close>: \<^verbatim>\<open>ast.go, parser.go\<close>; its regular expressions are matching functions.
  \<^item> \<open>Sql_Values\<close>: the columns of \<^verbatim>\<open>server.go\<close> and the values of a record in them. JSON documents, float64, the
    parsing of times and durations and \<^verbatim>\<open>sort.Slice\<close> are fields of the record \<open>sql_lib\<close>.
  \<^item> \<open>Sql_Server\<close>: selects and aggregates, \<^verbatim>\<open>result_cache.go\<close> and \<^verbatim>\<open>row_collector.go\<close>; \<open>Sql_Session\<close>: joins, explain, catalog
    queries, prepared statements and the messages of a connection. What the calls of one query return is its
    environment \<open>query_env\<close>; the messages sent so far are its state.
  \<^item> \<open>Sql_Correctness\<close>: leaving out segments by their bounds changes no result, groups are folds over the records with
    their key, a join is a nested loop; \<open>Sql_Log\<close>: a select over the log of a broker returns its records;
    \<open>Sql_Behaviour\<close>: which filters are parsed, what the result cache keeps and answers, a stale prepared statement.

  \<^bold>\<open>Loops and fuel.\<close> Every loop is a total recursive function over its input, apart from two loops that may not end,
  each a \<open>partial_function (option)\<close>: the retry loop that opens a partition log, whose termination is a property of its
  own, and the start-up probe of the object store. No fuel is used.

  \<^bold>\<open>Not modelled.\<close> The AWS client, the etcd metadata store and the generated protobuf code wrap
  third-party runtimes; they are instances of the interfaces above. The Kubernetes operator, the console, the
  protocol proxy and the command-line tools are glue around third-party APIs. The Iceberg table writer calls the
  iceberg-go library for everything it does. Schema validation fetches JSON schemas over HTTP. Of the SQL
  processor the proxy, which forwards bytes between sockets, the query limiter, which is two Go channels, the
  accept loop and the configuration file are left out.
\<close>

end
